(* ===== verification/Fw_Prelude.thy ===== *)
theory Fw_Prelude
  imports Main "HOL-Library.Word" "HOL-Library.Product_Lexorder"
begin

text \<open>
  Shared vocabulary of the development: the machine integers of the Rust sources as words,
  the error values (every \<^verbatim>\<open>bail!\<close>, \<^verbatim>\<open>context\<close> and \<^verbatim>\<open>ApiError\<close> of the code is one constructor),
  the result plumbing (\<open>?\<close>, \<^verbatim>\<open>collect::<Result<_>>\<close>, \<^verbatim>\<open>transpose\<close>), the checked arithmetic of the
  standard library, ASCII text helpers, and the ``first key wins'' loop
  (\<^verbatim>\<open>if ids.insert(key) { pending.push(..) }\<close>) that several components share.
\<close>

unbundle bit_operations_syntax

named_theorems res_simps \<open>equations of the result plumbing\<close>
named_theorems text_simps \<open>equations of the text helpers\<close>

section \<open>Machine integers and clocks\<close>

type_synonym u8 = "8 word"
type_synonym u16 = "16 word"
type_synonym u32 = "32 word"
type_synonym u64 = "64 word"
type_synonym i32 = "32 word" \<comment> \<open>read with \<open>sint\<close>\<close>
type_synonym i64 = "64 word" \<comment> \<open>read with \<open>sint\<close>\<close>

text \<open>Wall-clock times (\<^verbatim>\<open>NaiveDateTime\<close>) and monotonic instants, in nanoseconds.\<close>

type_synonym datetime = int
type_synonym instant = int
type_synonym duration = int

abbreviation nanos_per_second :: int where
  "nanos_per_second \<equiv> 1000000000"

definition i32_min :: i32 where
  "i32_min = 0x80000000"

lemma sint_i32_min [simp]: "sint i32_min = - 2147483648"
  by (simp add: i32_min_def)

lemma i32_min_le: "sint i32_min \<le> sint (x :: i32)"
  using sint_ge [of x] by simp

definition checked_add_u64 :: "u64 \<Rightarrow> u64 \<Rightarrow> u64 option" where
  "checked_add_u64 a b = (if unat a + unat b < 2 ^ 64 then Some (a + b) else None)"

lemma checked_add_u64_Some:
  "checked_add_u64 a b = Some c \<Longrightarrow> unat c = unat a + unat b"
  by (auto simp: checked_add_u64_def unat_word_ariths split: if_splits)

definition checked_mul_u64 :: "u64 \<Rightarrow> u64 \<Rightarrow> u64 option" where
  "checked_mul_u64 a b = (if unat a * unat b < 2 ^ 64 then Some (a * b) else None)"

definition checked_usize_add :: "nat \<Rightarrow> nat \<Rightarrow> nat option" where
  "checked_usize_add a b = (if a + b < 2 ^ 64 then Some (a + b) else None)"

text \<open>Code equations over \<^typ>\<open>int\<close>, so that evaluation does not build large naturals.\<close>

lemma checked_add_u64_code [code]:
  "checked_add_u64 a b = (if uint a + uint b < 18446744073709551616 then Some (a + b) else None)"
proof -
  have "unat a + unat b < 2 ^ 64 \<longleftrightarrow> int (unat a + unat b) < int (2 ^ 64)" by linarith
  also have "\<dots> \<longleftrightarrow> uint a + uint b < 18446744073709551616" by simp
  finally show ?thesis by (simp add: checked_add_u64_def)
qed

lemma checked_mul_u64_code [code]:
  "checked_mul_u64 a b = (if uint a * uint b < 18446744073709551616 then Some (a * b) else None)"
proof -
  have "unat a * unat b < 2 ^ 64 \<longleftrightarrow> int (unat a * unat b) < int (2 ^ 64)" by linarith
  also have "\<dots> \<longleftrightarrow> uint a * uint b < 18446744073709551616" by simp
  finally show ?thesis by (simp add: checked_mul_u64_def)
qed

lemma checked_usize_add_code [code]:
  "checked_usize_add a b = (if int a + int b < 18446744073709551616 then Some (a + b) else None)"
proof -
  have "a + b < 2 ^ 64 \<longleftrightarrow> int (a + b) < int (2 ^ 64)" by linarith
  also have "\<dots> \<longleftrightarrow> int a + int b < 18446744073709551616" by simp
  finally show ?thesis by (simp add: checked_usize_add_def)
qed

text \<open>\<^verbatim>\<open>u16::try_from(i32)\<close>, \<^verbatim>\<open>u32::try_from(i32)\<close> and \<^verbatim>\<open>i32::try_from(u32)\<close>.\<close>

definition u16_try_from_i32 :: "i32 \<Rightarrow> u16 option" where
  "u16_try_from_i32 v = (if 0 \<le> sint v \<and> sint v \<le> 65535 then Some (ucast v) else None)"

definition u32_try_from_i32 :: "i32 \<Rightarrow> u32 option" where
  "u32_try_from_i32 v = (if 0 \<le> sint v then Some v else None)"

definition i32_try_from_u32 :: "u32 \<Rightarrow> i32 option" where
  "i32_try_from_u32 v = (if uint v \<le> 2147483647 then Some v else None)"

lemma u32_i32_roundtrip: "i32_try_from_u32 v = Some w \<Longrightarrow> u32_try_from_i32 w = Some v"
proof -
  assume h: "i32_try_from_u32 v = Some w"
  then have w: "w = v" and le: "uint v \<le> 2147483647"
    by (auto simp: i32_try_from_u32_def split: if_splits)
  have "uint v < 2 ^ 31" using le by simp
  then have "signed_take_bit 31 (uint v) = uint v"
    by (intro signed_take_bit_int_eq_self) (auto intro: order.trans [of _ 0])
  then have "sint v = uint v" by (simp add: sint_uint)
  then show ?thesis using w by (simp add: u32_try_from_i32_def)
qed

section \<open>Errors and results\<close>

datatype fw_error =
    OutOfRange string
  | UnsupportedAction string
  | UnsupportedProtocol string
  | UnsupportedFormat string
  | InvalidCidr string
  | InvalidIp string
  | InvalidCountry string
  | MustBePositive string
  | MustBeSet string
  | IcmpPort string
  | ZeroCapacity string
  | CapacityExceeded string nat nat
  | CapacityOverflow string
  | ClockOverflow
  | AttachFailed string
  | MapError string
  | ResponseTooLarge string
  | NonUtf8 string
  | BadRequest string
  | NotFound string
  | ConflictErr string
  | DbErr string
  | Internal string

type_synonym 'a res = "fw_error + 'a"

fun bindE :: "'e + 'a \<Rightarrow> ('a \<Rightarrow> 'e + 'b) \<Rightarrow> 'e + 'b" where
  "bindE (Inl e) f = Inl e"
| "bindE (Inr x) f = f x"

lemma bindE_Inr_iff [res_simps]:
  "bindE r f = Inr y \<longleftrightarrow> (\<exists>x. r = Inr x \<and> f x = Inr y)"
  by (cases r) auto

lemma bindE_Inl_iff [res_simps]:
  "bindE r f = Inl e \<longleftrightarrow> r = Inl e \<or> (\<exists>x. r = Inr x \<and> f x = Inl e)"
  by (cases r) auto

fun mapE :: "('a \<Rightarrow> 'b) \<Rightarrow> 'e + 'a \<Rightarrow> 'e + 'b" where
  "mapE f (Inl e) = Inl e"
| "mapE f (Inr x) = Inr (f x)"

lemma mapE_Inr_iff [res_simps]: "mapE f r = Inr y \<longleftrightarrow> (\<exists>x. r = Inr x \<and> y = f x)"
  by (cases r) auto

lemma mapE_Inl_iff [res_simps]: "mapE f r = Inl e \<longleftrightarrow> r = Inl e"
  by (cases r) auto

definition ok_or :: "'e \<Rightarrow> 'a option \<Rightarrow> 'e + 'a" where
  "ok_or e v = (case v of None \<Rightarrow> Inl e | Some x \<Rightarrow> Inr x)"

lemma ok_or_simps [simp]: "ok_or e None = Inl e" "ok_or e (Some x) = Inr x"
  by (simp_all add: ok_or_def)

lemma ok_or_Inr_iff [res_simps]: "ok_or e v = Inr x \<longleftrightarrow> v = Some x"
  by (cases v) auto

lemma ok_or_Inl_iff [res_simps]: "ok_or e v = Inl d \<longleftrightarrow> v = None \<and> d = e"
  by (cases v) auto

definition guardE :: "bool \<Rightarrow> 'e \<Rightarrow> 'e + unit" where
  "guardE ok e = (if ok then Inr () else Inl e)"

lemma guardE_iff [res_simps]:
  "guardE ok e = Inr u \<longleftrightarrow> ok" "guardE ok e = Inl d \<longleftrightarrow> \<not> ok \<and> d = e"
  by (auto simp: guardE_def)

text \<open>\<^verbatim>\<open>iter().map(f).collect::<Result<Vec<_>>>()\<close>: the first error wins.\<close>

primrec traverse :: "('a \<Rightarrow> 'e + 'b) \<Rightarrow> 'a list \<Rightarrow> 'e + 'b list" where
  "traverse f [] = Inr []"
| "traverse f (x # xs) = bindE (f x) (\<lambda>y. mapE (\<lambda>ys. y # ys) (traverse f xs))"

lemma traverse_Inr_iff:
  "traverse f xs = Inr ys \<longleftrightarrow> list_all2 (\<lambda>x y. f x = Inr y) xs ys"
  by (induction xs arbitrary: ys)
     (auto simp: res_simps list_all2_Cons1)

lemma traverse_length: "traverse f xs = Inr ys \<Longrightarrow> length ys = length xs"
  by (auto simp: traverse_Inr_iff dest: list_all2_lengthD)

lemma traverse_set_back:
  "traverse f xs = Inr ys \<Longrightarrow> y \<in> set ys \<Longrightarrow> \<exists>x\<in>set xs. f x = Inr y"
  by (induction xs arbitrary: ys) (auto simp: res_simps)

lemma traverse_set_fwd:
  "traverse f xs = Inr ys \<Longrightarrow> x \<in> set xs \<Longrightarrow> \<exists>y\<in>set ys. f x = Inr y"
  by (induction xs arbitrary: ys) (auto simp: res_simps)

lemma traverse_fails_iff: "(\<exists>e. traverse f xs = Inl e) \<longleftrightarrow> (\<exists>x\<in>set xs. \<exists>e. f x = Inl e)"
proof (induction xs)
  case Nil
  show ?case by simp
next
  case (Cons x xs)
  then show ?case by (cases "f x") (auto simp: res_simps)
qed

lemma traverse_map: "traverse f (map g xs) = traverse (\<lambda>x. f (g x)) xs"
  by (induction xs) simp_all

lemma traverse_Inr_map: "(\<And>x. x \<in> set xs \<Longrightarrow> f x = Inr (g x)) \<Longrightarrow> traverse f xs = Inr (map g xs)"
  by (induction xs) simp_all

text \<open>\<^verbatim>\<open>option.map(f).transpose()\<close>.\<close>

fun transposeE :: "('a \<Rightarrow> 'e + 'b) \<Rightarrow> 'a option \<Rightarrow> 'e + 'b option" where
  "transposeE f None = Inr None"
| "transposeE f (Some x) = mapE Some (f x)"

fun unwrap_or :: "'a \<Rightarrow> 'a option \<Rightarrow> 'a" where
  "unwrap_or d None = d"
| "unwrap_or d (Some x) = x"

section \<open>The ``first key wins'' loop\<close>

text \<open>
  \<open>unique_by key seen xs\<close> is the loop \<^verbatim>\<open>for x in xs { if seen.insert(key(x)) { out.push(x) } }\<close>:
  it returns the grown set and the pushed elements.
\<close>

primrec unique_by :: "('a \<Rightarrow> 'k) \<Rightarrow> 'k set \<Rightarrow> 'a list \<Rightarrow> 'k set \<times> 'a list" where
  "unique_by key seen [] = (seen, [])"
| "unique_by key seen (x # xs) =
     (if key x \<in> seen then unique_by key seen xs
      else (let r = unique_by key (insert (key x) seen) xs in (fst r, x # snd r)))"

lemma fst_unique_by [simp]: "fst (unique_by key seen xs) = seen \<union> key ` set xs"
  by (induction xs arbitrary: seen) (auto simp: Let_def)

lemma snd_unique_by_subset: "set (snd (unique_by key seen xs)) \<subseteq> set xs"
proof (induction xs arbitrary: seen)
  case Nil
  show ?case by simp
next
  case (Cons x xs)
  show ?case
    using Cons.IH [of seen] Cons.IH [of "insert (key x) seen"] by (auto simp: Let_def)
qed

lemma snd_unique_by_keys: "key ` set (snd (unique_by key seen xs)) = key ` set xs - seen"
proof (induction xs arbitrary: seen)
  case Nil
  show ?case by simp
next
  case (Cons x xs)
  show ?case
    using Cons.IH [of seen] Cons.IH [of "insert (key x) seen"] by (auto simp: Let_def)
qed

lemma snd_unique_by_distinct: "distinct (map key (snd (unique_by key seen xs)))"
proof (induction xs arbitrary: seen)
  case Nil
  show ?case by simp
next
  case (Cons x xs)
  have "key x \<notin> key ` set (snd (unique_by key (insert (key x) seen) xs))"
    unfolding snd_unique_by_keys by simp
  then show ?case using Cons.IH by (simp add: Let_def)
qed

lemma length_unique_by: "length (snd (unique_by key seen xs)) \<le> length xs"
proof (induction xs arbitrary: seen)
  case Nil
  show ?case by simp
next
  case (Cons x xs)
  show ?case
    using Cons.IH [of seen] Cons.IH [of "insert (key x) seen"] by (simp add: Let_def)
qed

lemma unique_by_find:
  "k \<notin> seen \<Longrightarrow>
   find (\<lambda>x. key x = k) (snd (unique_by key seen xs)) = find (\<lambda>x. key x = k) xs"
  by (induction xs arbitrary: seen) (auto simp: Let_def)

text \<open>Writing \<open>(key, value)\<close> pairs into a map, in list order.\<close>

primrec put_all :: "('a \<Rightarrow> 'k) \<Rightarrow> ('a \<Rightarrow> 'v) \<Rightarrow> 'a list \<Rightarrow> ('k \<rightharpoonup> 'v) \<Rightarrow> ('k \<rightharpoonup> 'v)" where
  "put_all key val [] m = m"
| "put_all key val (x # xs) m = put_all key val xs (m(key x \<mapsto> val x))"

lemma put_all_other: "k \<notin> key ` set xs \<Longrightarrow> put_all key val xs m k = m k"
  by (induction xs arbitrary: m) auto

lemma dom_put_all: "dom (put_all key val xs m) = dom m \<union> key ` set xs"
  by (induction xs arbitrary: m) auto

lemma put_all_distinct:
  assumes "distinct (map key xs)" and "x \<in> set xs"
  shows "put_all key val xs m (key x) = Some (val x)"
  using assms
proof (induction xs arbitrary: m)
  case Nil
  then show ?case by simp
next
  case (Cons y ys)
  show ?case
  proof (cases "x = y")
    case True
    with Cons.prems have "key x \<notin> key ` set ys" by auto
    then show ?thesis using True by (simp add: put_all_other)
  next
    case False
    with Cons.prems have "x \<in> set ys" and "distinct (map key ys)" by auto
    then show ?thesis using Cons.IH by simp
  qed
qed

section \<open>Text\<close>

text \<open>
  Strings are byte strings; the helpers below act on ASCII, as the configuration vocabulary
  the code compares against does.
\<close>

definition is_space :: "char \<Rightarrow> bool" where
  "is_space c \<longleftrightarrow> c \<in> {CHR 0x09, CHR 0x0A, CHR 0x0B, CHR 0x0C, CHR 0x0D, CHR '' ''}"

definition trim_start :: "string \<Rightarrow> string" where
  "trim_start s = dropWhile is_space s"

definition trim :: "string \<Rightarrow> string" where
  "trim s = rev (dropWhile is_space (rev (dropWhile is_space s)))"

definition ascii_lower :: "char \<Rightarrow> char" where
  "ascii_lower c = (if 65 \<le> (of_char c :: nat) \<and> (of_char c :: nat) \<le> 90 then char_of (of_char c + 32 :: nat) else c)"

definition ascii_upper :: "char \<Rightarrow> char" where
  "ascii_upper c = (if 97 \<le> (of_char c :: nat) \<and> (of_char c :: nat) \<le> 122 then char_of (of_char c - 32 :: nat) else c)"

definition to_lower :: "string \<Rightarrow> string" where
  "to_lower = map ascii_lower"

definition to_upper :: "string \<Rightarrow> string" where
  "to_upper = map ascii_upper"

lemma trim_ends:
  assumes "trim s \<noteq> []"
  shows "\<not> is_space (hd (trim s))" and "\<not> is_space (last (trim s))"
proof -
  let ?d = "dropWhile is_space s"
  let ?t = "dropWhile is_space (rev ?d)"
  have ne: "?t \<noteq> []" using assms by (simp add: trim_def)
  then show "\<not> is_space (last (trim s))"
    by (simp add: trim_def last_rev hd_dropWhile)
  obtain us where us: "rev ?d = us @ ?t"
    by (metis takeWhile_dropWhile_id)
  then have d: "?d = rev ?t @ rev us" by (metis rev_append rev_rev_ident)
  have "rev ?t \<noteq> []" using ne by simp
  then have "hd (rev ?t @ rev us) = hd (rev ?t)" and "rev ?t @ rev us \<noteq> []"
    by simp_all
  then have "?d \<noteq> []" and "hd ?d = hd (rev ?t)" using d by metis+
  then show "\<not> is_space (hd (trim s))"
    by (metis trim_def hd_dropWhile)
qed

lemma trim_fixed:
  "s = [] \<or> \<not> is_space (hd s) \<and> \<not> is_space (last s) \<Longrightarrow> trim s = s"
proof -
  assume h: "s = [] \<or> \<not> is_space (hd s) \<and> \<not> is_space (last s)"
  show "trim s = s"
  proof (cases s)
    case Nil
    then show ?thesis by (simp add: trim_def)
  next
    case (Cons c cs)
    with h have "\<not> is_space (hd s)" and l: "\<not> is_space (last s)" and ne: "s \<noteq> []" by auto
    then have "dropWhile is_space s = s" by (cases s) auto
    moreover have "dropWhile is_space (rev s) = rev s"
      using l ne by (cases "rev s") (auto simp: last_rev simp flip: hd_rev)
    ultimately show ?thesis by (simp add: trim_def)
  qed
qed

lemma trim_idem [simp]: "trim (trim s) = trim s"
  using trim_ends [of s] by (intro trim_fixed) blast

text \<open>A character as its byte, and back.\<close>

definition char_byte :: "char \<Rightarrow> u8" where
  "char_byte c = word_of_nat (of_char c)"

definition byte_char :: "u8 \<Rightarrow> char" where
  "byte_char b = char_of (unat b)"

lemma unat_char_byte: "unat (char_byte c) = of_char c"
proof -
  have "(of_char c :: nat) < 256" by simp
  then show ?thesis by (simp add: char_byte_def unat_of_nat)
qed

lemma byte_char_char_byte [simp]: "byte_char (char_byte c) = c"
  by (simp add: byte_char_def unat_char_byte)

lemma char_byte_byte_char [simp]: "char_byte (byte_char b) = b"
proof -
  have "unat b < 256" using unsigned_less [of b] by simp
  then show ?thesis by (simp add: char_byte_def byte_char_def)
qed

end
