(* ===== verification/Ip_Net.thy ===== *)
theory Ip_Net
  imports Fw_Prelude
begin

text \<open>
  Addresses and CIDR networks. \<open>ipaddr\<close> is the standard library's \<^verbatim>\<open>IpAddr\<close>: an IPv4 or IPv6
  address, ordered with every IPv4 address before every IPv6 address; \<open>octets\<close> are its bytes in
  network order and \<open>ip_bits\<close> its bits, most significant first. Networks (\<^verbatim>\<open>ipnet::IpNet\<close>) come
  from a third-party crate, so its operations are the fields of a parameter record
  \<open>ipnet_lib\<close>, and the locale \<open>ipnet_spec\<close> states what the crate documents about them. The theory
  closes with a bit-level instance of the interface, which shows the laws can hold.
\<close>

section \<open>Addresses\<close>

datatype ipaddr = V4 "32 word" | V6 "128 word"

fun is_ipv4 :: "ipaddr \<Rightarrow> bool" where
  "is_ipv4 (V4 _) = True"
| "is_ipv4 (V6 _) = False"

abbreviation is_ipv6 :: "ipaddr \<Rightarrow> bool" where
  "is_ipv6 a \<equiv> \<not> is_ipv4 a"

fun ip_width :: "ipaddr \<Rightarrow> nat" where
  "ip_width (V4 _) = 32"
| "ip_width (V6 _) = 128"

instantiation ipaddr :: linorder
begin

fun less_eq_ipaddr :: "ipaddr \<Rightarrow> ipaddr \<Rightarrow> bool" where
  "less_eq_ipaddr (V4 a) (V4 b) = (a \<le> b)"
| "less_eq_ipaddr (V4 _) (V6 _) = True"
| "less_eq_ipaddr (V6 _) (V4 _) = False"
| "less_eq_ipaddr (V6 a) (V6 b) = (a \<le> b)"

definition less_ipaddr :: "ipaddr \<Rightarrow> ipaddr \<Rightarrow> bool" where
  "less_ipaddr a b \<longleftrightarrow> a \<le> b \<and> \<not> b \<le> a"

instance
proof
  fix x y z :: ipaddr
  show "x \<le> x" by (cases x) auto
  show "x \<le> y \<Longrightarrow> y \<le> z \<Longrightarrow> x \<le> z" by (cases x; cases y; cases z) auto
  show "x \<le> y \<Longrightarrow> y \<le> x \<Longrightarrow> x = y" by (cases x; cases y) auto
  show "x \<le> y \<or> y \<le> x" by (cases x; cases y) auto
qed (simp add: less_ipaddr_def)

end

definition word_bits :: "'a::len word \<Rightarrow> bool list" where
  "word_bits w = map (bit w) (rev [0..<LENGTH('a)])"

lemma length_word_bits [simp]: "length (word_bits (w :: 'a::len word)) = LENGTH('a)"
  by (simp add: word_bits_def)

lemma word_bits_nth:
  "i < LENGTH('a) \<Longrightarrow> word_bits (w :: 'a::len word) ! i = bit w (LENGTH('a) - 1 - i)"
  by (simp add: word_bits_def rev_nth)

lemma word_bits_inj: "word_bits a = word_bits b \<Longrightarrow> a = b"
  by (rule bit_word_eqI) (simp add: word_bits_def)

lemma word_bits_eq_iff [simp]: "word_bits a = word_bits b \<longleftrightarrow> a = b"
  using word_bits_inj by blast

lemma word_bits_0: "word_bits (0 :: 'a::len word) = replicate LENGTH('a) False"
  by (rule nth_equalityI) (simp_all add: word_bits_nth)

fun ip_bits :: "ipaddr \<Rightarrow> bool list" where
  "ip_bits (V4 w) = word_bits w"
| "ip_bits (V6 w) = word_bits w"

lemma length_ip_bits [simp]: "length (ip_bits a) = ip_width a"
  by (cases a) simp_all

lemma ip_bits_eq_iff: "is_ipv4 a = is_ipv4 b \<Longrightarrow> ip_bits a = ip_bits b \<longleftrightarrow> a = b"
  by (cases a; cases b) auto

lemma ip_width_family: "is_ipv4 a = is_ipv4 b \<Longrightarrow> ip_width a = ip_width b"
  by (cases a; cases b) auto

text \<open>Octets in network byte order (\<^verbatim>\<open>Ipv4Addr::octets\<close>, \<^verbatim>\<open>Ipv6Addr::octets\<close>).\<close>

definition octets4 :: "32 word \<Rightarrow> u8 list" where
  "octets4 w = [ucast (drop_bit 24 w), ucast (drop_bit 16 w), ucast (drop_bit 8 w), ucast w]"

definition octets6 :: "128 word \<Rightarrow> u8 list" where
  "octets6 w =
    [ucast (drop_bit 120 w), ucast (drop_bit 112 w), ucast (drop_bit 104 w), ucast (drop_bit
     96 w), ucast (drop_bit 88 w), ucast (drop_bit 80 w), ucast (drop_bit 72 w), ucast
     (drop_bit 64 w), ucast (drop_bit 56 w), ucast (drop_bit 48 w), ucast (drop_bit 40 w),
     ucast (drop_bit 32 w), ucast (drop_bit 24 w), ucast (drop_bit 16 w), ucast (drop_bit 8
     w), ucast w]"

fun octets :: "ipaddr \<Rightarrow> u8 list" where
  "octets (V4 w) = octets4 w"
| "octets (V6 w) = octets6 w"

definition bytes_bits :: "u8 list \<Rightarrow> bool list" where
  "bytes_bits bs = concat (map word_bits bs)"

lemma bytes_bits_simps [simp]:
  "bytes_bits [] = []" "bytes_bits (b # bs) = word_bits b @ bytes_bits bs"
  "bytes_bits (as @ bs) = bytes_bits as @ bytes_bits bs"
  by (simp_all add: bytes_bits_def)

lemma length_bytes_bits [simp]: "length (bytes_bits bs) = 8 * length bs"
  by (induction bs) simp_all

lemma bytes_bits_replicate_0: "bytes_bits (replicate n 0) = replicate (8 * n) False"
  by (induction n) (simp_all add: word_bits_0 replicate_add)

lemma bytes_bits_inj: "length as = length bs \<Longrightarrow> bytes_bits as = bytes_bits bs \<Longrightarrow> as = bs"
proof (induction as bs rule: list_induct2)
  case Nil
  show ?case by simp
next
  case (Cons a as b bs)
  then show ?case by (simp add: append_eq_append_conv)
qed

lemma word_bits_octet:
  assumes "n + 8 \<le> LENGTH('a)"
  shows "word_bits (ucast (drop_bit n (w :: 'a::len word)) :: u8) = map (bit w) (rev [n..<n + 8])"
proof (rule nth_equalityI)
  show "length (word_bits (ucast (drop_bit n w) :: u8)) = length (map (bit w) (rev [n..<n + 8]))"
    by simp
next
  fix i
  assume "i < length (word_bits (ucast (drop_bit n w) :: u8))"
  then have i: "i < 8" by simp
  then have "n + (7 - i) = n + 8 - Suc i" and "7 - i < 8" by simp_all
  with i show "word_bits (ucast (drop_bit n w) :: u8) ! i = map (bit w) (rev [n..<n + 8]) ! i"
    using assms by (simp add: word_bits_nth rev_nth bit_simps)
qed

lemma rev_upt_32: "rev [0..<32] =
     rev [24..<32] @ rev [16..<24] @ rev [8..<16] @ rev [0..<8]"
  by code_simp

lemma rev_upt_128: "rev [0..<128] =
     rev [120..<128] @ rev [112..<120] @ rev [104..<112] @ rev [96..<104] @ rev [88..<96] @
     rev [80..<88] @ rev [72..<80] @ rev [64..<72] @ rev [56..<64] @ rev [48..<56] @ rev
     [40..<48] @ rev [32..<40] @ rev [24..<32] @ rev [16..<24] @ rev [8..<16] @ rev [0..<8]"
  by code_simp

lemmas word_bits_low_octet = word_bits_octet [where n = 0, simplified]

lemma length_octets4 [simp]: "length (octets4 w) = 4"
  by (simp add: octets4_def)

lemma length_octets6 [simp]: "length (octets6 w) = 16"
  by (simp add: octets6_def)

lemma bytes_bits_octets4: "bytes_bits (octets4 w) = word_bits w"
proof -
  have o: "word_bits (ucast (drop_bit n w) :: u8) = map (bit w) (rev [n..<n + 8])"
    if "n \<le> 24" for n
    using that by (simp add: word_bits_octet)
  have "word_bits w = map (bit w) (rev [0..<32])" by (simp add: word_bits_def del: upt_rec_numeral)
  then show ?thesis
    unfolding rev_upt_32 octets4_def
    by (simp add: o word_bits_low_octet [of w] del: upt_rec_numeral)
qed

lemma bytes_bits_octets6: "bytes_bits (octets6 w) = word_bits w"
proof -
  have o: "word_bits (ucast (drop_bit n w) :: u8) = map (bit w) (rev [n..<n + 8])"
    if "n \<le> 120" for n
    using that by (simp add: word_bits_octet)
  have "word_bits w = map (bit w) (rev [0..<128])" by (simp add: word_bits_def del: upt_rec_numeral)
  then show ?thesis
    unfolding rev_upt_128 octets6_def
    by (simp add: o word_bits_low_octet [of w] del: upt_rec_numeral)
qed

lemma bytes_bits_octets: "bytes_bits (octets a) = ip_bits a"
  by (cases a) (simp_all add: bytes_bits_octets4 bytes_bits_octets6)

text \<open>
  The abstract meaning of a prefix: an address lies in \<open>base/p\<close> when it is of the same family
  and agrees with the base on the first \<open>p\<close> bits.
\<close>

definition in_prefix :: "ipaddr \<Rightarrow> nat \<Rightarrow> ipaddr \<Rightarrow> bool" where
  "in_prefix base p ip \<longleftrightarrow> is_ipv4 base = is_ipv4 ip \<and> take p (ip_bits base) = take p (ip_bits ip)"

lemma in_prefix_refl [simp]: "in_prefix a p a"
  by (simp add: in_prefix_def)

lemma in_prefix_sym: "in_prefix a p b = in_prefix b p a"
  by (auto simp: in_prefix_def)

lemma in_prefix_family: "in_prefix a p b \<Longrightarrow> is_ipv4 a = is_ipv4 b"
  by (simp add: in_prefix_def)

lemma in_prefix_mono: "in_prefix a p b \<Longrightarrow> q \<le> p \<Longrightarrow> in_prefix a q b"
  unfolding in_prefix_def by (metis min.absorb1 take_take)

lemma in_prefix_trans: "in_prefix a p b \<Longrightarrow> in_prefix b p c \<Longrightarrow> in_prefix a p c"
  by (auto simp: in_prefix_def)

lemma in_prefix_full: "in_prefix a (ip_width a) b \<longleftrightarrow> a = b"
proof
  assume h: "in_prefix a (ip_width a) b"
  then have f: "is_ipv4 a = is_ipv4 b" by (rule in_prefix_family)
  from h have "take (ip_width a) (ip_bits a) = take (ip_width a) (ip_bits b)"
    by (simp add: in_prefix_def)
  then have "ip_bits a = ip_bits b"
    using ip_width_family [OF f] by (metis length_ip_bits take_all order_refl)
  with f show "a = b" by (simp add: ip_bits_eq_iff)
qed simp

text \<open>A base address is canonical for a prefix length when its host bits are zero.\<close>

definition canonical :: "ipaddr \<Rightarrow> nat \<Rightarrow> bool" where
  "canonical a p \<longleftrightarrow> p \<le> ip_width a \<and> drop p (ip_bits a) = replicate (ip_width a - p) False"

lemma canonical_eqI:
  assumes "canonical a p" and "canonical b p" and "in_prefix a p b"
  shows "a = b"
proof -
  have f: "is_ipv4 a = is_ipv4 b" using assms(3) by (rule in_prefix_family)
  have "ip_bits a = ip_bits b"
    using assms f ip_width_family [OF f]
    by (metis append_take_drop_id canonical_def in_prefix_def)
  with f show ?thesis by (simp add: ip_bits_eq_iff)
qed

section \<open>The network library\<close>

text \<open>\<^verbatim>\<open>ipnet::IpNet\<close>: an address of either family and a prefix length.\<close>

datatype ipnet = Net (net_addr: ipaddr) (net_prefix_len: u8)

definition valid_net :: "ipnet \<Rightarrow> bool" where
  "valid_net n \<longleftrightarrow> unat (net_prefix_len n) \<le> ip_width (net_addr n)"

record ipnet_lib =
  net_new :: "ipaddr \<Rightarrow> u8 \<Rightarrow> ipnet option"
  net_network :: "ipnet \<Rightarrow> ipaddr"
  net_trunc :: "ipnet \<Rightarrow> ipnet"
  net_contains :: "ipnet \<Rightarrow> ipaddr \<Rightarrow> bool"

text \<open>
  What the crate documents: \<^verbatim>\<open>IpNet::new\<close> accepts prefix lengths up to the width of the family,
  \<^verbatim>\<open>network\<close> zeroes the host bits, \<^verbatim>\<open>trunc\<close> is the network at the same length, and \<^verbatim>\<open>contains\<close>
  holds of the addresses of the family that share the prefix.
\<close>

locale ipnet_spec =
  fixes N :: ipnet_lib
  assumes new_eq: "net_new N a p = (if unat p \<le> ip_width a then Some (Net a p) else None)"
    and network_family: "valid_net n \<Longrightarrow> is_ipv4 (net_network N n) = is_ipv4 (net_addr n)"
    and network_bits: "valid_net n \<Longrightarrow> ip_bits (net_network N n) =
          take (unat (net_prefix_len n)) (ip_bits (net_addr n))
          @ replicate (ip_width (net_addr n) - unat (net_prefix_len n)) False"
    and trunc_eq: "valid_net n \<Longrightarrow> net_trunc N n = Net (net_network N n) (net_prefix_len n)"
    and contains_eq: "valid_net n \<Longrightarrow>
          net_contains N n ip = in_prefix (net_addr n) (unat (net_prefix_len n)) ip"
begin

lemma network_width: "valid_net n \<Longrightarrow> ip_width (net_network N n) = ip_width (net_addr n)"
  by (rule ip_width_family) (rule network_family)

lemma network_in_prefix:
  "valid_net n \<Longrightarrow> in_prefix (net_addr n) (unat (net_prefix_len n)) (net_network N n)"
  by (simp add: in_prefix_def network_family network_bits valid_net_def)

lemma network_canonical:
  "valid_net n \<Longrightarrow> canonical (net_network N n) (unat (net_prefix_len n))"
  by (simp add: canonical_def network_width network_bits valid_net_def)

lemma network_of_canonical:
  assumes "valid_net n" and "canonical (net_addr n) (unat (net_prefix_len n))"
  shows "net_network N n = net_addr n"
  using assms network_canonical [OF assms(1)] network_in_prefix [OF assms(1)]
  by (metis canonical_eqI)

lemma valid_trunc: "valid_net n \<Longrightarrow> valid_net (net_trunc N n)"
  by (simp add: trunc_eq valid_net_def network_width)

lemma trunc_contains:
  assumes "valid_net n"
  shows "net_contains N (net_trunc N n) ip =
         in_prefix (net_addr n) (unat (net_prefix_len n)) ip"
proof -
  have "net_contains N (net_trunc N n) ip =
        in_prefix (net_network N n) (unat (net_prefix_len n)) ip"
    using valid_trunc [OF assms] by (simp add: contains_eq trunc_eq [OF assms])
  then show ?thesis
    using network_in_prefix [OF assms] by (metis in_prefix_sym in_prefix_trans)
qed

lemma new_Some_iff: "net_new N a p = Some n \<longleftrightarrow> unat p \<le> ip_width a \<and> n = Net a p"
  by (auto simp: new_eq)

lemma new_valid: "net_new N a p = Some n \<Longrightarrow> valid_net n"
  by (auto simp: new_eq valid_net_def split: if_splits)

end

section \<open>A bit-level instance of the library\<close>

definition clear_host :: "nat \<Rightarrow> 'a::len word \<Rightarrow> 'a word" where
  "clear_host p w = push_bit (LENGTH('a) - p) (drop_bit (LENGTH('a) - p) w)"

lemma word_bits_clear_host:
  assumes "p \<le> LENGTH('a)"
  shows "word_bits (clear_host p (w :: 'a::len word)) =
         take p (word_bits w) @ replicate (LENGTH('a) - p) False"
proof (rule nth_equalityI)
  show "length (word_bits (clear_host p w)) =
        length (take p (word_bits w) @ replicate (LENGTH('a) - p) False)"
    using assms by simp
next
  fix i
  assume "i < length (word_bits (clear_host p w))"
  then have i: "i < LENGTH('a)" by simp
  show "word_bits (clear_host p w) ! i =
        (take p (word_bits w) @ replicate (LENGTH('a) - p) False) ! i"
  proof (cases "i < p")
    case True
    then have "LENGTH('a) - p \<le> LENGTH('a) - Suc i" by simp
    then show ?thesis using True i assms
      by (simp add: word_bits_nth nth_append clear_host_def bit_simps)
  next
    case False
    then have "\<not> LENGTH('a) - p \<le> LENGTH('a) - Suc i" using i assms by simp
    then show ?thesis using False i assms
      by (simp add: word_bits_nth nth_append clear_host_def bit_simps)
  qed
qed

fun ref_network :: "ipnet \<Rightarrow> ipaddr" where
  "ref_network (Net (V4 w) p) = V4 (clear_host (unat p) w)"
| "ref_network (Net (V6 w) p) = V6 (clear_host (unat p) w)"

definition ref_ipnet :: ipnet_lib where
  "ref_ipnet =
     \<lparr>net_new = (\<lambda>a p. if unat p \<le> ip_width a then Some (Net a p) else None),
      net_network = ref_network,
      net_trunc = (\<lambda>n. Net (ref_network n) (net_prefix_len n)),
      net_contains = (\<lambda>n ip. in_prefix (net_addr n) (unat (net_prefix_len n)) ip)\<rparr>"

lemma ref_network_family: "is_ipv4 (ref_network n) = is_ipv4 (net_addr n)"
  by (cases n rule: ref_network.cases) auto

lemma ref_network_bits:
  "valid_net n \<Longrightarrow> ip_bits (ref_network n) =
     take (unat (net_prefix_len n)) (ip_bits (net_addr n))
     @ replicate (ip_width (net_addr n) - unat (net_prefix_len n)) False"
  by (cases n rule: ref_network.cases) (auto simp: valid_net_def word_bits_clear_host)

interpretation ref_net: ipnet_spec ref_ipnet
  by unfold_locales
     (simp_all add: ref_ipnet_def ref_network_family ref_network_bits)

end
