(* ===== verification/Cover_Compaction.thy ===== *)
theory Cover_Compaction
  imports Ip_Net
begin

text \<open>
  Three parts of the program drop list entries that another entry makes redundant, with the same
  double loop: trusted prefixes and temporary bans in \<^verbatim>\<open>data_plane/xdp/local/compaction.rs\<close> and
  runtime trusted CIDRs in \<^verbatim>\<open>control_plane/xds/runtime_cidrs/compaction.rs\<close>. \<open>compact_by\<close> is that
  loop, with the \<open>covers\<close> test as an argument. The locale \<open>strict_cover\<close> states what a test must
  satisfy for the loop to lose nothing (a strict order on well-formed entries), and
  \<open>cover_meaning\<close> adds the set an entry stands for.
\<close>

definition compact_by :: "('a \<Rightarrow> 'a \<Rightarrow> bool) \<Rightarrow> 'a list \<Rightarrow> 'a list" where
  "compact_by covers xs =
     (let ixs = enumerate 0 xs in
      map snd (filter (\<lambda>(i, x). \<not> list_ex (\<lambda>(j, y). j \<noteq> i \<and> covers y x) ixs) ixs))"

lemma compact_by_Nil [simp]: "compact_by covers [] = []"
  by (simp add: compact_by_def)

lemma set_compact_by_subset: "set (compact_by covers xs) \<subseteq> set xs"
  by (auto simp: compact_by_def Let_def in_set_enumerate_eq)

lemma length_compact_by: "length (compact_by covers xs) \<le> length xs"
proof -
  have "length (compact_by covers xs) \<le> length (enumerate 0 xs)"
    unfolding compact_by_def Let_def length_map by (rule length_filter_le)
  then show ?thesis by simp
qed

lemma compact_byI:
  assumes "x \<in> set xs" and "\<And>y. y \<in> set xs \<Longrightarrow> \<not> covers y x"
  shows "x \<in> set (compact_by covers xs)"
proof -
  from assms(1) obtain i where i: "i < length xs" "xs ! i = x"
    by (auto simp: in_set_conv_nth)
  then have "(i, x) \<in> set (enumerate 0 xs)"
    by (auto simp: in_set_enumerate_eq)
  moreover have "\<not> list_ex (\<lambda>(j, y). j \<noteq> i \<and> covers y x) (enumerate 0 xs)"
    using assms(2) by (auto simp: list_ex_iff in_set_enumerate_eq)
  ultimately show ?thesis
    unfolding compact_by_def Let_def by (force intro: image_eqI [where x = "(i, x)"])
qed

lemma compact_byD:
  assumes "x \<in> set (compact_by covers xs)" and "y \<in> set xs" and "y \<noteq> x"
  shows "\<not> covers y x"
proof
  assume c: "covers y x"
  from assms(1) obtain i where ix: "(i, x) \<in> set (enumerate 0 xs)"
    and n: "\<not> list_ex (\<lambda>(j, y). j \<noteq> i \<and> covers y x) (enumerate 0 xs)"
    by (auto simp: compact_by_def Let_def)
  from assms(2) obtain j where j: "j < length xs" "xs ! j = y"
    by (auto simp: in_set_conv_nth)
  with ix assms(3) have "j \<noteq> i" by (auto simp: in_set_enumerate_eq)
  with j c n show False by (auto simp: list_ex_iff in_set_enumerate_eq)
qed

locale strict_cover =
  fixes wf :: "'a \<Rightarrow> bool"
    and covers :: "'a \<Rightarrow> 'a \<Rightarrow> bool"
  assumes irrefl: "wf x \<Longrightarrow> \<not> covers x x"
    and trans: "wf x \<Longrightarrow> wf y \<Longrightarrow> wf z \<Longrightarrow> covers x y \<Longrightarrow> covers y z \<Longrightarrow> covers x z"
begin

lemma maximal_above:
  assumes "finite A" and "\<And>x. x \<in> A \<Longrightarrow> wf x" and "a \<in> A"
  shows "\<exists>m\<in>A. (m = a \<or> covers m a) \<and> (\<forall>y\<in>A. \<not> covers y m)"
  using assms
proof (induction "card {y\<in>A. covers y a}" arbitrary: a rule: less_induct)
  case less
  show ?case
  proof (cases "\<exists>b\<in>A. covers b a")
    case False
    with less.prems show ?thesis by blast
  next
    case True
    then obtain b where b: "b \<in> A" "covers b a" by blast
    have sub: "{y\<in>A. covers y b} \<subseteq> {y\<in>A. covers y a}"
      using b less.prems trans by blast
    have "b \<in> {y\<in>A. covers y a}" and "b \<notin> {y\<in>A. covers y b}"
      using b less.prems irrefl by auto
    with sub have "{y\<in>A. covers y b} \<subset> {y\<in>A. covers y a}" by blast
    then have "card {y\<in>A. covers y b} < card {y\<in>A. covers y a}"
      using less.prems(1) by (intro psubset_card_mono) auto
    from less.hyps [OF this less.prems(1) less.prems(2) b(1)] obtain m
      where m: "m \<in> A" "m = b \<or> covers m b" "\<forall>y\<in>A. \<not> covers y m" by blast
    then have "covers m a"
      using b less.prems trans by blast
    with m show ?thesis by blast
  qed
qed

lemma compact_represents:
  assumes "\<And>x. x \<in> set xs \<Longrightarrow> wf x" and "a \<in> set xs"
  shows "\<exists>m\<in>set (compact_by covers xs). m = a \<or> covers m a"
proof -
  obtain m where m: "m \<in> set xs" "m = a \<or> covers m a" "\<forall>y\<in>set xs. \<not> covers y m"
    using maximal_above [of "set xs" a] assms by auto
  then have "m \<in> set (compact_by covers xs)" by (auto intro: compact_byI)
  with m show ?thesis by blast
qed

lemma compact_antichain:
  assumes "\<And>x. x \<in> set xs \<Longrightarrow> wf x"
    and "x \<in> set (compact_by covers xs)" and "y \<in> set (compact_by covers xs)"
  shows "\<not> covers y x"
proof (cases "y = x")
  case True
  have "x \<in> set xs" using assms(2) set_compact_by_subset by fast
  then have "wf x" by (rule assms(1))
  with True show ?thesis by (simp add: irrefl)
next
  case False
  have "y \<in> set xs" using assms(3) set_compact_by_subset by fast
  then show ?thesis using compact_byD [OF assms(2)] False by blast
qed

end

locale cover_meaning = strict_cover wf covers
  for wf :: "'a \<Rightarrow> bool" and covers :: "'a \<Rightarrow> 'a \<Rightarrow> bool" +
  fixes meaning :: "'a \<Rightarrow> 'b set"
  assumes covers_meaning: "wf x \<Longrightarrow> wf y \<Longrightarrow> covers x y \<Longrightarrow> meaning y \<subseteq> meaning x"
begin

lemma compact_meaning:
  assumes "\<And>x. x \<in> set xs \<Longrightarrow> wf x"
  shows "(\<Union>x\<in>set (compact_by covers xs). meaning x) = (\<Union>x\<in>set xs. meaning x)"
proof
  show "(\<Union>x\<in>set (compact_by covers xs). meaning x) \<subseteq> (\<Union>x\<in>set xs. meaning x)"
    using set_compact_by_subset by fast
next
  show "(\<Union>x\<in>set xs. meaning x) \<subseteq> (\<Union>x\<in>set (compact_by covers xs). meaning x)"
  proof (rule UN_least)
    fix a
    assume a: "a \<in> set xs"
    then obtain m where m: "m \<in> set (compact_by covers xs)" "m = a \<or> covers m a"
      using compact_represents [OF assms] by blast
    then have "meaning a \<subseteq> meaning m"
      using a assms covers_meaning set_compact_by_subset by (metis order_refl subsetD)
    with m(1) show "meaning a \<subseteq> (\<Union>x\<in>set (compact_by covers xs). meaning x)" by blast
  qed
qed

end

text \<open>The test the three users build on: strict containment of canonical networks.\<close>

definition net_covers :: "ipaddr \<Rightarrow> nat \<Rightarrow> ipaddr \<Rightarrow> nat \<Rightarrow> bool" where
  "net_covers a p b q \<longleftrightarrow> p \<le> q \<and> in_prefix a p b"

lemma net_covers_refl: "net_covers a p a p"
  by (simp add: net_covers_def)

lemma net_covers_trans: "net_covers a p b q \<Longrightarrow> net_covers b q c r \<Longrightarrow> net_covers a p c r"
  unfolding net_covers_def
  by (meson in_prefix_mono in_prefix_trans order_trans)

lemma net_covers_antisym:
  assumes "canonical a p" and "canonical b q" and "net_covers a p b q" and "net_covers b q a p"
  shows "a = b \<and> p = q"
  using assms canonical_eqI by (auto simp: net_covers_def)

lemma net_covers_in_prefix: "net_covers a p b q \<Longrightarrow> in_prefix b q ip \<Longrightarrow> in_prefix a p ip"
  unfolding net_covers_def by (meson in_prefix_mono in_prefix_trans)

lemma in_prefix_comparable:
  assumes "canonical a p" and "canonical b q" and "in_prefix a p ip" and "in_prefix b q ip" and "p \<le> q"
  shows "net_covers a p b q"
  using assms unfolding net_covers_def
  by (meson in_prefix_mono in_prefix_sym in_prefix_trans)

end
