(* ===== verification/Policy_Model.thy ===== *)
theory Policy_Model
  imports Ip_Net
begin

text \<open>
  The policy vocabulary: \<^verbatim>\<open>policy/model.rs\<close>, \<^verbatim>\<open>policy/model/snapshot.rs\<close> (the snapshot the control
  plane sends) and \<^verbatim>\<open>policy/model/xdp.rs\<close> (the compiled form the data plane installs), with the
  threat-feed types of \<^verbatim>\<open>intelligence/threat.rs\<close> that a snapshot carries, and the validation of
  \<^verbatim>\<open>policy/validate.rs\<close>. A record's fields carry the prefix of its struct.
\<close>

section \<open>Snapshot types\<close>

datatype rule_action = Allow | Deny

datatype l4_protocol = AnyProto | Tcp | Udp | Icmp

datatype xdp_rule_source = FirewallRuleSource | ThreatIntelSource

datatype threat_format = FmtCidr | FmtIps | FmtIpsum | FmtVoipbl | FmtSpamhausDrop

record threat_source =
  ts_name :: string
  ts_url :: string
  ts_format :: threat_format
  ts_min_score :: "u32 option"

record threat_prefix =
  tp_addr :: ipaddr
  tp_prefix :: u8

record firewall_rule =
  fr_priority :: i32
  fr_action :: rule_action
  fr_cidr :: ipnet
  fr_protocol :: l4_protocol
  fr_port :: "u16 option"
  fr_comment :: "string option"

record geo_country_policy =
  gc_country :: string
  gc_action :: rule_action

record geo_ip_prefix_policy =
  gp_cidr :: ipnet
  gp_country :: string

record dynamic_defense_policy =
  dd_enabled :: bool
  dd_ip_rate_limit_enabled :: bool
  dd_ip_packets_per_second :: "u32 option"
  dd_ip_burst :: "u32 option"
  dd_flood_enabled :: bool
  dd_flood_packets_per_second :: "u32 option"
  dd_flood_burst :: "u32 option"
  dd_flood_block_seconds :: "u32 option"

definition default_dynamic_defense :: dynamic_defense_policy where
  "default_dynamic_defense =
     \<lparr>dd_enabled = True, dd_ip_rate_limit_enabled = True,
      dd_ip_packets_per_second = Some 5000, dd_ip_burst = Some 10000,
      dd_flood_enabled = True, dd_flood_packets_per_second = Some 20000,
      dd_flood_burst = Some 40000, dd_flood_block_seconds = Some 60\<rparr>"

record dynamic_rate_limit_policy =
  dr_priority :: i32
  dr_protocol :: l4_protocol
  dr_port :: "u16 option"
  dr_packets_per_second :: u32
  dr_burst :: u32
  dr_comment :: "string option"

record temp_ban_policy =
  tb_cidr :: ipnet
  tb_protocol :: l4_protocol
  tb_port :: "u16 option"
  tb_expires_at :: datetime
  tb_comment :: "string option"

record trusted_cidr_policy =
  tc_cidr :: ipnet
  tc_comment :: "string option"

record policy_snapshot =
  ps_policy_name :: string
  ps_version :: i64
  ps_rules :: "firewall_rule list"
  ps_geo_countries :: "geo_country_policy list"
  ps_geo_prefixes :: "geo_ip_prefix_policy list"
  ps_temp_bans :: "temp_ban_policy list"
  ps_dynamic_defense :: dynamic_defense_policy
  ps_dynamic_rate_limits :: "dynamic_rate_limit_policy list"
  ps_trusted_cidrs :: "trusted_cidr_policy list"
  ps_threat_sources :: "threat_source list"
  ps_threat_prefixes :: "threat_prefix list"

definition default_policy_name :: string where
  "default_policy_name = ''edge''"

section \<open>Compiled types\<close>

record xdp_trusted_prefix =
  xt_addr :: ipaddr
  xt_prefix :: u8

record xdp_prefix_rule =
  xr_addr :: ipaddr
  xr_prefix :: u8
  xr_priority :: i32
  xr_action :: rule_action
  xr_protocol :: l4_protocol
  xr_port :: u16
  xr_source :: xdp_rule_source

record xdp_geo_prefix =
  xg_addr :: ipaddr
  xg_prefix :: u8
  xg_country :: u16

record xdp_country_rule =
  xc_country :: u16
  xc_action :: rule_action

record xdp_temp_ban =
  xb_addr :: ipaddr
  xb_prefix :: u8
  xb_protocol :: l4_protocol
  xb_port :: u16
  xb_expires_at :: datetime

record xdp_dynamic_defense =
  xd_enabled :: bool
  xd_ip_rate_limit_enabled :: bool
  xd_ip_packets_per_second :: u32
  xd_ip_burst :: u32
  xd_flood_enabled :: bool
  xd_flood_packets_per_second :: u32
  xd_flood_burst :: u32
  xd_flood_block_seconds :: u32

record xdp_dynamic_rate_limit =
  xl_protocol :: l4_protocol
  xl_port :: u16
  xl_packets_per_second :: u32
  xl_burst :: u32

record compiled_policy =
  cp_version :: i64
  cp_trusted_prefixes :: "xdp_trusted_prefix list"
  cp_rules :: "xdp_prefix_rule list"
  cp_country_rules :: "xdp_country_rule list"
  cp_temp_bans :: "xdp_temp_ban list"
  cp_dynamic_defense :: xdp_dynamic_defense
  cp_dynamic_rate_limits :: "xdp_dynamic_rate_limit list"
  cp_geo_prefixes :: "xdp_geo_prefix list"
  cp_threat_prefixes :: "xdp_prefix_rule list"

section \<open>Validation\<close>

definition require_positive_dynamic_value :: "string \<Rightarrow> u32 option \<Rightarrow> unit res" where
  "require_positive_dynamic_value name v =
     (case v of
        Some x \<Rightarrow> if x > 0 then Inr () else Inl (MustBePositive name)
      | None \<Rightarrow> Inl (MustBeSet name))"

definition validate_dynamic_defense_policy :: "dynamic_defense_policy \<Rightarrow> unit res" where
  "validate_dynamic_defense_policy p =
     (if \<not> dd_enabled p then Inr ()
      else bindE
        (if dd_ip_rate_limit_enabled p then
           bindE (require_positive_dynamic_value ''dynamic defense ip packets_per_second''
                    (dd_ip_packets_per_second p)) (\<lambda>_.
             require_positive_dynamic_value ''dynamic defense ip burst'' (dd_ip_burst p))
         else Inr ()) (\<lambda>_.
        (if dd_flood_enabled p then
           bindE (require_positive_dynamic_value ''dynamic defense flood packets_per_second''
                    (dd_flood_packets_per_second p)) (\<lambda>_.
           bindE (require_positive_dynamic_value ''dynamic defense flood burst''
                    (dd_flood_burst p)) (\<lambda>_.
             require_positive_dynamic_value ''dynamic defense flood block seconds''
               (dd_flood_block_seconds p)))
         else Inr ())))"

definition validate_dynamic_rate_limit_policy :: "dynamic_rate_limit_policy \<Rightarrow> unit res" where
  "validate_dynamic_rate_limit_policy p =
     (if dr_packets_per_second p = 0
      then Inl (MustBePositive ''dynamic rate limit packets_per_second'')
      else if dr_burst p = 0 then Inl (MustBePositive ''dynamic rate limit burst'')
      else if dr_protocol p = Icmp \<and> dr_port p \<noteq> None
      then Inl (IcmpPort ''dynamic rate limit'')
      else Inr ())"

definition validate_temp_ban_policy :: "temp_ban_policy \<Rightarrow> unit res" where
  "validate_temp_ban_policy p =
     (if tb_protocol p = Icmp \<and> tb_port p \<noteq> None then Inl (IcmpPort ''temporary ban'')
      else Inr ())"

lemma require_positive_ok_iff [res_simps]:
  "require_positive_dynamic_value name v = Inr u \<longleftrightarrow> (\<exists>x. v = Some x \<and> 0 < x)"
  by (auto simp: require_positive_dynamic_value_def split: option.splits)

text \<open>The meaning of an accepted dynamic-defense policy.\<close>

definition defense_ok :: "dynamic_defense_policy \<Rightarrow> bool" where
  "defense_ok p \<longleftrightarrow> (dd_enabled p \<longrightarrow>
     (dd_ip_rate_limit_enabled p \<longrightarrow>
        unwrap_or 0 (dd_ip_packets_per_second p) > 0 \<and> unwrap_or 0 (dd_ip_burst p) > 0) \<and>
     (dd_flood_enabled p \<longrightarrow>
        unwrap_or 0 (dd_flood_packets_per_second p) > 0 \<and> unwrap_or 0 (dd_flood_burst p) > 0 \<and>
        unwrap_or 0 (dd_flood_block_seconds p) > 0))"

lemma unwrap_pos_iff: "0 < unwrap_or 0 (v :: u32 option) \<longleftrightarrow> (\<exists>x. v = Some x \<and> 0 < x)"
  by (cases v) auto

lemma validate_dynamic_defense_iff:
  "validate_dynamic_defense_policy p = Inr () \<longleftrightarrow> defense_ok p"
  by (simp add: validate_dynamic_defense_policy_def defense_ok_def res_simps unwrap_pos_iff)

lemma default_dynamic_defense_ok: "defense_ok default_dynamic_defense"
  by (simp add: defense_ok_def default_dynamic_defense_def)

lemma validate_rate_limit_iff:
  "validate_dynamic_rate_limit_policy p = Inr () \<longleftrightarrow>
     0 < dr_packets_per_second p \<and> 0 < dr_burst p \<and> (dr_protocol p = Icmp \<longrightarrow> dr_port p = None)"
  by (auto simp: validate_dynamic_rate_limit_policy_def word_neq_0_conv)

lemma validate_temp_ban_iff:
  "validate_temp_ban_policy p = Inr () \<longleftrightarrow> (tb_protocol p = Icmp \<longrightarrow> tb_port p = None)"
  by (auto simp: validate_temp_ban_policy_def)

end
