(* ===== verification/Local_Guard.thy ===== *)
theory Local_Guard
  imports Cover_Compaction Policy_Model
begin

text \<open>
  \<^verbatim>\<open>data_plane/xdp/local.rs\<close>, \<^verbatim>\<open>local/compaction.rs\<close> and \<^verbatim>\<open>local/interface.rs\<close>: which trusted
  prefixes and temporary bans are redundant, and which deny rules and bans would hit an address
  of the agent's own interface. The network crate is the parameter \<open>N\<close>; the interpretations at
  the end of each section show that both cover tests are strict orders that respect what an entry
  stands for, on the canonical entries the policy compiler produces.
\<close>

record local_cidr =
  lc_ip :: ipaddr
  lc_prefix :: u8

definition prefix_contains_ip :: "ipnet_lib \<Rightarrow> ipaddr \<Rightarrow> u8 \<Rightarrow> ipaddr \<Rightarrow> bool" where
  "prefix_contains_ip N addr p ip =
     (if is_ipv4 addr \<noteq> is_ipv4 ip then False
      else (case net_new N addr p of
              None \<Rightarrow> False
            | Some net \<Rightarrow> net_contains N (net_trunc N net) ip))"

lemma prefix_contains_ip_iff:
  assumes "ipnet_spec N"
  shows "prefix_contains_ip N addr p ip \<longleftrightarrow>
           unat p \<le> ip_width addr \<and> in_prefix addr (unat p) ip"
  by (auto simp: prefix_contains_ip_def ipnet_spec.new_eq [OF assms]
        ipnet_spec.trunc_contains [OF assms] valid_net_def
        split: option.splits dest: in_prefix_family)

section \<open>Trusted prefixes\<close>

definition trusted_prefix_ipnet :: "ipnet_lib \<Rightarrow> xdp_trusted_prefix \<Rightarrow> ipnet option" where
  "trusted_prefix_ipnet N x = map_option (net_trunc N) (net_new N (xt_addr x) (xt_prefix x))"

text \<open>\<^verbatim>\<open>match (cover, prefix)\<close> on the two networks, shared by both cover tests.\<close>

definition same_family_contains :: "ipnet_lib \<Rightarrow> ipnet \<Rightarrow> ipnet \<Rightarrow> bool" where
  "same_family_contains N c n \<longleftrightarrow>
     is_ipv4 (net_addr c) = is_ipv4 (net_addr n) \<and> net_contains N c (net_network N n)"

definition trusted_prefix_covers ::
    "ipnet_lib \<Rightarrow> xdp_trusted_prefix \<Rightarrow> xdp_trusted_prefix \<Rightarrow> bool" where
  "trusted_prefix_covers N cover x =
     (if cover = x \<or> xt_prefix cover > xt_prefix x then False
      else (case trusted_prefix_ipnet N cover of
              None \<Rightarrow> False
            | Some c \<Rightarrow>
                (case trusted_prefix_ipnet N x of
                   None \<Rightarrow> False
                 | Some n \<Rightarrow> same_family_contains N c n)))"

definition compact_trusted_prefixes ::
    "ipnet_lib \<Rightarrow> xdp_trusted_prefix list \<Rightarrow> xdp_trusted_prefix list" where
  "compact_trusted_prefixes N prefixes = compact_by (trusted_prefix_covers N) prefixes"

definition wf_trusted :: "xdp_trusted_prefix \<Rightarrow> bool" where
  "wf_trusted x \<longleftrightarrow> canonical (xt_addr x) (unat (xt_prefix x))"

definition trusted_addresses :: "xdp_trusted_prefix \<Rightarrow> ipaddr set" where
  "trusted_addresses x = {ip. in_prefix (xt_addr x) (unat (xt_prefix x)) ip}"

lemma canonical_width: "canonical a p \<Longrightarrow> p \<le> ip_width a"
  by (simp add: canonical_def)

lemma trunc_canonical:
  assumes "ipnet_spec N" and "canonical a (unat p)"
  shows "map_option (net_trunc N) (net_new N a p) = Some (Net a p)"
proof -
  have v: "valid_net (Net a p)" using assms(2) by (simp add: valid_net_def canonical_def)
  have "net_network N (Net a p) = a"
    using ipnet_spec.network_of_canonical [OF assms(1) v] assms(2) by simp
  then show ?thesis
    using v assms(2) by (simp add: ipnet_spec.new_eq [OF assms(1)] ipnet_spec.trunc_eq [OF assms(1) v]
        canonical_width)
qed

lemma same_family_contains_canonical:
  assumes N: "ipnet_spec N" and a: "canonical a (unat p)" and b: "canonical b (unat q)"
  shows "same_family_contains N (Net a p) (Net b q) \<longleftrightarrow> in_prefix a (unat p) b"
proof -
  have va: "valid_net (Net a p)" and vb: "valid_net (Net b q)"
    using a b by (simp_all add: valid_net_def canonical_def)
  have "net_network N (Net b q) = b"
    using ipnet_spec.network_of_canonical [OF N vb] b by simp
  then show ?thesis
    using ipnet_spec.contains_eq [OF N va]
    by (auto simp: same_family_contains_def dest: in_prefix_family)
qed

lemma trusted_prefix_covers_iff:
  assumes "ipnet_spec N" and "wf_trusted x" and "wf_trusted y"
  shows "trusted_prefix_covers N x y \<longleftrightarrow>
           x \<noteq> y \<and> net_covers (xt_addr x) (unat (xt_prefix x)) (xt_addr y) (unat (xt_prefix y))"
  using assms(2, 3)
  by (auto simp: trusted_prefix_covers_def trusted_prefix_ipnet_def wf_trusted_def
        trunc_canonical [OF assms(1)] same_family_contains_canonical [OF assms(1)]
        net_covers_def word_le_nat_alt not_less [symmetric] word_less_nat_alt)

lemma trusted_ext: "xt_addr x = xt_addr y \<Longrightarrow> xt_prefix x = xt_prefix y \<Longrightarrow> x = (y :: xdp_trusted_prefix)"
  by simp

lemma trusted_cover_meaning:
  assumes "ipnet_spec N"
  shows "cover_meaning wf_trusted (trusted_prefix_covers N) trusted_addresses"
proof
  fix x y z :: xdp_trusted_prefix
  show "wf_trusted x \<Longrightarrow> \<not> trusted_prefix_covers N x x"
    by (simp add: trusted_prefix_covers_def)
  assume x: "wf_trusted x" and y: "wf_trusted y"
  show "trusted_prefix_covers N x y \<Longrightarrow> trusted_addresses y \<subseteq> trusted_addresses x"
    unfolding trusted_prefix_covers_iff [OF assms x y] trusted_addresses_def
    by (auto intro: net_covers_in_prefix)
  assume z: "wf_trusted z" and xy: "trusted_prefix_covers N x y" and yz: "trusted_prefix_covers N y z"
  have c1: "x \<noteq> y" "net_covers (xt_addr x) (unat (xt_prefix x)) (xt_addr y) (unat (xt_prefix y))"
    using xy unfolding trusted_prefix_covers_iff [OF assms x y] by auto
  have c2: "net_covers (xt_addr y) (unat (xt_prefix y)) (xt_addr z) (unat (xt_prefix z))"
    using yz unfolding trusted_prefix_covers_iff [OF assms y z] by auto
  have "x \<noteq> z"
  proof
    assume "x = z"
    then have "xt_addr x = xt_addr y \<and> unat (xt_prefix x) = unat (xt_prefix y)"
      using net_covers_antisym c1(2) c2 x y by (metis wf_trusted_def)
    then have "x = y" by (intro trusted_ext) (auto simp: word_unat_eq_iff)
    with c1(1) show False by simp
  qed
  then show "trusted_prefix_covers N x z"
    unfolding trusted_prefix_covers_iff [OF assms x z]
    using net_covers_trans [OF c1(2) c2] by simp
qed

interpretation ref_trusted:
  cover_meaning wf_trusted "trusted_prefix_covers ref_ipnet" trusted_addresses
  by (rule trusted_cover_meaning) (rule ref_net.ipnet_spec_axioms)

section \<open>Temporary bans\<close>

definition temp_ban_ipnet :: "ipnet_lib \<Rightarrow> xdp_temp_ban \<Rightarrow> ipnet option" where
  "temp_ban_ipnet N x = map_option (net_trunc N) (net_new N (xb_addr x) (xb_prefix x))"

definition temp_ban_covers_or_supersedes ::
    "ipnet_lib \<Rightarrow> xdp_temp_ban \<Rightarrow> xdp_temp_ban \<Rightarrow> bool" where
  "temp_ban_covers_or_supersedes N cover ban =
     (if xb_protocol cover \<noteq> xb_protocol ban \<or> xb_port cover \<noteq> xb_port ban then False
      else if xb_addr cover = xb_addr ban \<and> xb_prefix cover = xb_prefix ban
      then xb_expires_at cover > xb_expires_at ban
      else if xb_prefix cover > xb_prefix ban \<or> xb_expires_at cover < xb_expires_at ban then False
      else (case temp_ban_ipnet N cover of
              None \<Rightarrow> False
            | Some c \<Rightarrow>
                (case temp_ban_ipnet N ban of
                   None \<Rightarrow> False
                 | Some b \<Rightarrow> same_family_contains N c b)))"

definition compact_temp_bans :: "ipnet_lib \<Rightarrow> xdp_temp_ban list \<Rightarrow> xdp_temp_ban list" where
  "compact_temp_bans N bans = compact_by (temp_ban_covers_or_supersedes N) bans"

definition wf_ban :: "xdp_temp_ban \<Rightarrow> bool" where
  "wf_ban x \<longleftrightarrow> canonical (xb_addr x) (unat (xb_prefix x))"

text \<open>A ban stands for the (source, protocol, port, time) points it forbids.\<close>

definition ban_denies :: "xdp_temp_ban \<Rightarrow> (ipaddr \<times> l4_protocol \<times> u16 \<times> datetime) set" where
  "ban_denies x = {(ip, pr, dp, t). in_prefix (xb_addr x) (unat (xb_prefix x)) ip \<and>
                     pr = xb_protocol x \<and> dp = xb_port x \<and> t < xb_expires_at x}"

lemma temp_ban_covers_iff:
  assumes "ipnet_spec N" and "wf_ban x" and "wf_ban y"
  shows "temp_ban_covers_or_supersedes N x y \<longleftrightarrow>
           xb_protocol x = xb_protocol y \<and> xb_port x = xb_port y \<and>
           net_covers (xb_addr x) (unat (xb_prefix x)) (xb_addr y) (unat (xb_prefix y)) \<and>
           xb_expires_at y \<le> xb_expires_at x \<and>
           (xb_addr x = xb_addr y \<and> xb_prefix x = xb_prefix y \<longrightarrow> xb_expires_at y < xb_expires_at x)"
proof (cases "xb_protocol x = xb_protocol y \<and> xb_port x = xb_port y")
  case False
  then show ?thesis by (auto simp: temp_ban_covers_or_supersedes_def)
next
  case pp: True
  show ?thesis
  proof (cases "xb_addr x = xb_addr y \<and> xb_prefix x = xb_prefix y")
    case True
    with pp show ?thesis
      by (auto simp: temp_ban_covers_or_supersedes_def net_covers_refl)
  next
    case False
    have "temp_ban_covers_or_supersedes N x y \<longleftrightarrow>
        \<not> (xb_prefix x > xb_prefix y) \<and> \<not> xb_expires_at x < xb_expires_at y
        \<and> in_prefix (xb_addr x) (unat (xb_prefix x)) (xb_addr y)"
      using pp False assms(2, 3)
      by (auto simp: temp_ban_covers_or_supersedes_def temp_ban_ipnet_def wf_ban_def
          trunc_canonical [OF assms(1)] same_family_contains_canonical [OF assms(1)])
    then show ?thesis
      using pp False by (auto simp: net_covers_def word_less_nat_alt not_less)
  qed
qed

lemma temp_ban_cover_meaning:
  assumes "ipnet_spec N"
  shows "cover_meaning wf_ban (temp_ban_covers_or_supersedes N) ban_denies"
proof
  fix x y z :: xdp_temp_ban
  show "wf_ban x \<Longrightarrow> \<not> temp_ban_covers_or_supersedes N x x"
    by (simp add: temp_ban_covers_or_supersedes_def)
  assume x: "wf_ban x" and y: "wf_ban y"
  show "temp_ban_covers_or_supersedes N x y \<Longrightarrow> ban_denies y \<subseteq> ban_denies x"
    unfolding temp_ban_covers_iff [OF assms x y] ban_denies_def
    by (auto intro: net_covers_in_prefix)
  assume z: "wf_ban z" and xy: "temp_ban_covers_or_supersedes N x y"
    and yz: "temp_ban_covers_or_supersedes N y z"
  note xy' = xy [unfolded temp_ban_covers_iff [OF assms x y]]
  note yz' = yz [unfolded temp_ban_covers_iff [OF assms y z]]
  have xz: "net_covers (xb_addr x) (unat (xb_prefix x)) (xb_addr z) (unat (xb_prefix z))"
    using net_covers_trans xy' yz' by blast
  have "xb_expires_at z < xb_expires_at x"
    if same: "xb_addr x = xb_addr z \<and> xb_prefix x = xb_prefix z"
  proof -
    have "net_covers (xb_addr y) (unat (xb_prefix y)) (xb_addr x) (unat (xb_prefix x))"
      using yz' same by simp
    then have "xb_addr x = xb_addr y \<and> unat (xb_prefix x) = unat (xb_prefix y)"
      using net_covers_antisym xy' x y by (metis wf_ban_def)
    then have "xb_expires_at y < xb_expires_at x" using xy' by (auto simp: word_unat_eq_iff)
    moreover have "xb_expires_at z \<le> xb_expires_at y" using yz' by blast
    ultimately show ?thesis by simp
  qed
  moreover have "xb_expires_at z \<le> xb_expires_at x" using xy' yz' by linarith
  ultimately show "temp_ban_covers_or_supersedes N x z"
    unfolding temp_ban_covers_iff [OF assms x z]
    using conjunct1 [OF xy'] conjunct1 [OF yz'] conjunct1 [OF conjunct2 [OF xy']]
      conjunct1 [OF conjunct2 [OF yz']] xz
    by simp
qed

interpretation ref_ban:
  cover_meaning wf_ban "temp_ban_covers_or_supersedes ref_ipnet" ban_denies
  by (rule temp_ban_cover_meaning) (rule ref_net.ipnet_spec_axioms)

lemma compact_temp_bans_longest_lived:
  assumes N: "ipnet_spec N" and wf: "\<And>x. x \<in> set bans \<Longrightarrow> wf_ban x"
    and x: "x \<in> set (compact_temp_bans N bans)" and y: "y \<in> set (compact_temp_bans N bans)"
    and same: "xb_protocol x = xb_protocol y" "xb_port x = xb_port y"
    and ip: "in_prefix (xb_addr x) (unat (xb_prefix x)) ip" "in_prefix (xb_addr y) (unat (xb_prefix y)) ip"
    and longer: "xb_prefix y < xb_prefix x"
  shows "xb_expires_at y < xb_expires_at x"
proof -
  have wx: "wf_ban x" and wy: "wf_ban y"
    using wf x y set_compact_by_subset unfolding compact_temp_bans_def by (metis subsetD)+
  have "\<not> temp_ban_covers_or_supersedes N y x"
    using cover_meaning.axioms(1) [OF temp_ban_cover_meaning [OF N]]
      strict_cover.compact_antichain [of wf_ban _ bans x y] wf x y
    unfolding compact_temp_bans_def by blast
  moreover have "net_covers (xb_addr y) (unat (xb_prefix y)) (xb_addr x) (unat (xb_prefix x))"
    using wx wy ip longer unfolding wf_ban_def
    by (intro in_prefix_comparable [of _ _ _ _ ip]) (auto simp: word_less_nat_alt)
  ultimately show ?thesis
    using same longer unfolding temp_ban_covers_iff [OF N wy wx] by auto
qed

section \<open>The agent's own addresses\<close>

definition deny_rule_matching_local_cidr ::
    "ipnet_lib \<Rightarrow> xdp_prefix_rule \<Rightarrow> local_cidr list \<Rightarrow> local_cidr option" where
  "deny_rule_matching_local_cidr N rule locals =
     (if xr_action rule \<noteq> Deny then None
      else find (\<lambda>l. prefix_contains_ip N (xr_addr rule) (xr_prefix rule) (lc_ip l)) locals)"

definition temp_ban_matching_local_cidr ::
    "ipnet_lib \<Rightarrow> xdp_temp_ban \<Rightarrow> local_cidr list \<Rightarrow> local_cidr option" where
  "temp_ban_matching_local_cidr N ban locals =
     find (\<lambda>l. prefix_contains_ip N (xb_addr ban) (xb_prefix ban) (lc_ip l)) locals"

lemma deny_rule_local_None_iff:
  assumes "ipnet_spec N" and "unat (xr_prefix r) \<le> ip_width (xr_addr r)"
  shows "deny_rule_matching_local_cidr N r locals = None \<longleftrightarrow>
           (xr_action r = Deny \<longrightarrow>
              (\<forall>l\<in>set locals. \<not> in_prefix (xr_addr r) (unat (xr_prefix r)) (lc_ip l)))"
  using assms
  by (auto simp: deny_rule_matching_local_cidr_def find_None_iff prefix_contains_ip_iff)

lemma temp_ban_local_None_iff:
  assumes "ipnet_spec N" and "unat (xb_prefix b) \<le> ip_width (xb_addr b)"
  shows "temp_ban_matching_local_cidr N b locals = None \<longleftrightarrow>
           (\<forall>l\<in>set locals. \<not> in_prefix (xb_addr b) (unat (xb_prefix b)) (lc_ip l))"
  using assms
  by (auto simp: temp_ban_matching_local_cidr_def find_None_iff prefix_contains_ip_iff)

end
