(* ===== verification/Geo_Country.thy ===== *)
theory Geo_Country
  imports Fw_Prelude
begin

text \<open>
  \<^verbatim>\<open>intelligence/geo/country.rs\<close>: ISO country codes and their 16-bit encoding, which is the key
  the kernel program looks a country rule up by. The lemmas show that encoding and decoding are
  inverse on what normalization accepts, so no two countries share a key.
\<close>

definition is_ascii_upper :: "char \<Rightarrow> bool" where
  "is_ascii_upper c \<longleftrightarrow> 65 \<le> (of_char c :: nat) \<and> (of_char c :: nat) \<le> 90"

definition is_ascii_lower :: "char \<Rightarrow> bool" where
  "is_ascii_lower c \<longleftrightarrow> 97 \<le> (of_char c :: nat) \<and> (of_char c :: nat) \<le> 122"

definition is_ascii_alphabetic :: "char \<Rightarrow> bool" where
  "is_ascii_alphabetic c \<longleftrightarrow> is_ascii_upper c \<or> is_ascii_lower c"

definition ipdeny_aggregated_base :: string where
  "ipdeny_aggregated_base = ''https://www.ipdeny.com/ipblocks/data/aggregated''"

definition normalize_country :: "string \<Rightarrow> string res" where
  "normalize_country value =
     (let v = trim value in
      if length v \<noteq> 2 \<or> \<not> list_all is_ascii_alphabetic v then Inl (InvalidCountry v)
      else Inr (to_upper v))"

definition ipdeny_country_url :: "string \<Rightarrow> string res" where
  "ipdeny_country_url country =
     bindE (normalize_country country) (\<lambda>c.
       Inr (ipdeny_aggregated_base @ ''/'' @ to_lower c @ ''-aggregated.zone''))"

definition encode_country :: "string \<Rightarrow> u16 res" where
  "encode_country value =
     bindE (normalize_country value) (\<lambda>v.
       Inr (push_bit 8 (ucast (char_byte (v ! 0))) OR ucast (char_byte (v ! 1))))"

text \<open>\<^verbatim>\<open>String::from_utf8\<close> of two bytes: two ASCII bytes or one two-byte sequence.\<close>

definition utf8_pair :: "u8 \<Rightarrow> u8 \<Rightarrow> bool" where
  "utf8_pair a b \<longleftrightarrow> a < 0x80 \<and> b < 0x80 \<or> 0xC2 \<le> a \<and> a \<le> 0xDF \<and> 0x80 \<le> b \<and> b \<le> 0xBF"

definition decode_country :: "u16 \<Rightarrow> string res" where
  "decode_country country =
     (let first = ucast (drop_bit 8 country AND 0xff) :: u8;
          second = ucast (country AND 0xff) :: u8 in
      if utf8_pair first second then normalize_country [byte_char first, byte_char second]
      else Inl (InvalidCountry ''invalid encoded country''))"

section \<open>Lemmas\<close>

lemma ascii_upper_alpha: "is_ascii_alphabetic c \<Longrightarrow> is_ascii_upper (ascii_upper c)"
  by (auto simp: is_ascii_alphabetic_def is_ascii_upper_def is_ascii_lower_def ascii_upper_def)

lemma ascii_upper_id: "is_ascii_upper c \<Longrightarrow> ascii_upper c = c"
  by (simp add: is_ascii_upper_def ascii_upper_def)

lemma upper_not_space: "is_ascii_upper c \<Longrightarrow> \<not> is_space c"
  by (auto simp: is_ascii_upper_def is_space_def)

definition country_code :: "string \<Rightarrow> bool" where
  "country_code v \<longleftrightarrow> length v = 2 \<and> list_all is_ascii_upper v"

lemma country_code_pair:
  "country_code v \<longleftrightarrow> (\<exists>a b. v = [a, b] \<and> is_ascii_upper a \<and> is_ascii_upper b)"
  by (auto simp: country_code_def length_Suc_conv numeral_2_eq_2)

lemma normalize_country_code:
  assumes "normalize_country v = Inr c"
  shows "country_code c"
  using assms
  by (auto simp: normalize_country_def country_code_def Let_def to_upper_def list_all_iff
        ascii_upper_alpha split: if_splits)

lemma country_code_trim: "country_code c \<Longrightarrow> trim c = c"
  by (rule trim_fixed) (auto simp: country_code_pair upper_not_space)

lemma normalize_country_fixed: "country_code c \<Longrightarrow> normalize_country c = Inr c"
  by (auto simp: normalize_country_def country_code_trim Let_def)
     (auto simp: country_code_pair is_ascii_alphabetic_def to_upper_def ascii_upper_id)

lemma normalize_country_idem: "normalize_country v = Inr c \<Longrightarrow> normalize_country c = Inr c"
  using normalize_country_code normalize_country_fixed by blast

definition pack_bytes :: "u8 \<Rightarrow> u8 \<Rightarrow> u16" where
  "pack_bytes a b = push_bit 8 (ucast a) OR ucast b"

lemma bit_low_byte: "bit (0xff :: u16) n \<longleftrightarrow> n < 8"
proof -
  have "(0xff :: u16) = mask 8" by (simp add: mask_eq_exp_minus_1)
  then have "bit (0xff :: u16) n = bit (mask 8 :: u16) n" by simp
  then show ?thesis by (auto simp: bit_mask_iff)
qed

lemma bit_full_byte: "n < 8 \<Longrightarrow> bit (0xff :: u8) n"
proof -
  have "(0xff :: u8) = mask 8" by (simp add: mask_eq_exp_minus_1)
  then have "bit (0xff :: u8) n = bit (mask 8 :: u8) n" by simp
  then show "n < 8 \<Longrightarrow> bit (0xff :: u8) n" by (auto simp: bit_mask_iff)
qed

lemma pack_bytes_high: "(ucast (drop_bit 8 (pack_bytes a b) AND 0xff) :: u8) = a"
proof (rule bit_word_eqI)
  fix n
  assume "n < LENGTH(8)"
  then have n: "n < 8" by simp
  have m: "bit (0xff :: u16) n" using n bit_low_byte by blast
  show "bit (ucast (drop_bit 8 (pack_bytes a b) AND 0xff) :: u8) n = bit a n"
    using n m bit_full_byte [OF n] by (auto simp: pack_bytes_def bit_simps dest: bit_imp_le_length)
qed

lemma pack_bytes_low: "(ucast (pack_bytes a b AND 0xff) :: u8) = b"
proof (rule bit_word_eqI)
  fix n
  assume "n < LENGTH(8)"
  then have n: "n < 8" by simp
  have m: "bit (0xff :: u16) n" using n bit_low_byte by blast
  show "bit (ucast (pack_bytes a b AND 0xff) :: u8) n = bit b n"
    using n m bit_full_byte [OF n] by (auto simp: pack_bytes_def bit_simps)
qed

lemma encode_country_code:
  "country_code [a, b] \<Longrightarrow> encode_country [a, b] = Inr (pack_bytes (char_byte a) (char_byte b))"
  by (simp add: encode_country_def normalize_country_fixed pack_bytes_def)

lemma char_byte_ascii: "is_ascii_upper c \<Longrightarrow> char_byte c < 0x80"
  by (simp add: word_less_nat_alt unat_char_byte is_ascii_upper_def)

lemma decode_pack_bytes:
  assumes "country_code [a, b]"
  shows "decode_country (pack_bytes (char_byte a) (char_byte b)) = Inr [a, b]"
  using assms
  by (simp add: decode_country_def Let_def pack_bytes_high pack_bytes_low utf8_pair_def
      normalize_country_fixed char_byte_ascii country_code_pair)

lemma encode_Inr_iff:
  "encode_country v = Inr w \<longleftrightarrow>
     (\<exists>a b. normalize_country v = Inr [a, b] \<and> w = pack_bytes (char_byte a) (char_byte b))"
proof
  assume "encode_country v = Inr w"
  then obtain c where c: "normalize_country v = Inr c"
    and w: "w = pack_bytes (char_byte (c ! 0)) (char_byte (c ! 1))"
    by (auto simp: encode_country_def res_simps pack_bytes_def)
  then obtain a b where "c = [a, b]"
    using normalize_country_code country_code_pair by blast
  with c w show "\<exists>a b. normalize_country v = Inr [a, b] \<and> w = pack_bytes (char_byte a) (char_byte b)"
    by auto
next
  assume "\<exists>a b. normalize_country v = Inr [a, b] \<and> w = pack_bytes (char_byte a) (char_byte b)"
  then show "encode_country v = Inr w"
    by (auto simp: encode_country_def pack_bytes_def)
qed

lemma decode_encode: "encode_country v = Inr w \<Longrightarrow> decode_country w = normalize_country v"
  using normalize_country_code by (auto simp: encode_Inr_iff decode_pack_bytes)

end
