(* ===== verification/Policy_Compile.thy ===== *)
theory Policy_Compile
  imports Local_Guard Geo_Country
begin

text \<open>
  \<^verbatim>\<open>policy/compile.rs\<close>: from a policy snapshot to the compiled policy the data plane installs.
  The wall clock is read once per ban (\<^verbatim>\<open>chrono::Utc::now()\<close> inside the filter), so it is a
  parameter: \<open>clock i\<close> is the reading taken for the \<open>i\<close>-th ban. The lemmas show that compilation
  fails exactly on the listed invalid inputs, and that what it produces is canonical.
\<close>

definition cidr_network :: "ipnet_lib \<Rightarrow> ipnet \<Rightarrow> ipaddr \<times> u8" where
  "cidr_network N cidr = (net_network N cidr, net_prefix_len cidr)"

definition validate_policy :: "policy_snapshot \<Rightarrow> unit res" where
  "validate_policy s =
     bindE (validate_dynamic_defense_policy (ps_dynamic_defense s)) (\<lambda>_.
     mapE (\<lambda>_. ()) (traverse validate_dynamic_rate_limit_policy (ps_dynamic_rate_limits s)))"

definition compile_geo_prefixes ::
    "ipnet_lib \<Rightarrow> geo_ip_prefix_policy list \<Rightarrow> xdp_geo_prefix list res" where
  "compile_geo_prefixes N =
     traverse (\<lambda>p. let (addr, len) = cidr_network N (gp_cidr p) in
       bindE (encode_country (gp_country p)) (\<lambda>c.
         Inr \<lparr>xg_addr = addr, xg_prefix = len, xg_country = c\<rparr>))"

definition compile_threat_prefixes :: "threat_prefix list \<Rightarrow> xdp_prefix_rule list" where
  "compile_threat_prefixes =
     map (\<lambda>p. \<lparr>xr_addr = tp_addr p, xr_prefix = tp_prefix p, xr_priority = i32_min,
                xr_action = Deny, xr_protocol = AnyProto, xr_port = 0,
                xr_source = ThreatIntelSource\<rparr>)"

definition compile_trusted_prefixes ::
    "ipnet_lib \<Rightarrow> trusted_cidr_policy list \<Rightarrow> xdp_trusted_prefix list" where
  "compile_trusted_prefixes N =
     map (\<lambda>t. let (addr, len) = cidr_network N (tc_cidr t) in \<lparr>xt_addr = addr, xt_prefix = len\<rparr>)"

definition compile_firewall_rules ::
    "ipnet_lib \<Rightarrow> firewall_rule list \<Rightarrow> xdp_prefix_rule list" where
  "compile_firewall_rules N =
     map (\<lambda>r. let (addr, len) = cidr_network N (fr_cidr r) in
       \<lparr>xr_addr = addr, xr_prefix = len, xr_priority = fr_priority r, xr_action = fr_action r,
        xr_protocol = fr_protocol r, xr_port = unwrap_or 0 (fr_port r),
        xr_source = FirewallRuleSource\<rparr>)"

definition compile_country_rules :: "geo_country_policy list \<Rightarrow> xdp_country_rule list res" where
  "compile_country_rules =
     traverse (\<lambda>p. bindE (encode_country (gc_country p)) (\<lambda>c.
       Inr \<lparr>xc_country = c, xc_action = gc_action p\<rparr>))"

definition compile_temp_ban :: "ipnet_lib \<Rightarrow> temp_ban_policy \<Rightarrow> xdp_temp_ban" where
  "compile_temp_ban N b =
     (let (addr, len) = cidr_network N (tb_cidr b) in
      \<lparr>xb_addr = addr, xb_prefix = len, xb_protocol = tb_protocol b,
       xb_port = unwrap_or 0 (tb_port b), xb_expires_at = tb_expires_at b\<rparr>)"

definition compile_active_temp_bans ::
    "ipnet_lib \<Rightarrow> (nat \<Rightarrow> datetime) \<Rightarrow> temp_ban_policy list \<Rightarrow> xdp_temp_ban list" where
  "compile_active_temp_bans N clock bans =
     map (\<lambda>(i, b). compile_temp_ban N b)
       (filter (\<lambda>(i, b). tb_expires_at b > clock i) (enumerate 0 bans))"

definition compile_dynamic_defense :: "dynamic_defense_policy \<Rightarrow> xdp_dynamic_defense" where
  "compile_dynamic_defense p =
     \<lparr>xd_enabled = dd_enabled p,
      xd_ip_rate_limit_enabled = dd_ip_rate_limit_enabled p,
      xd_ip_packets_per_second = unwrap_or 0 (dd_ip_packets_per_second p),
      xd_ip_burst = unwrap_or 0 (dd_ip_burst p),
      xd_flood_enabled = dd_flood_enabled p,
      xd_flood_packets_per_second = unwrap_or 0 (dd_flood_packets_per_second p),
      xd_flood_burst = unwrap_or 0 (dd_flood_burst p),
      xd_flood_block_seconds = unwrap_or 0 (dd_flood_block_seconds p)\<rparr>"

definition compile_dynamic_rate_limits ::
    "dynamic_rate_limit_policy list \<Rightarrow> xdp_dynamic_rate_limit list" where
  "compile_dynamic_rate_limits =
     map (\<lambda>l. \<lparr>xl_protocol = dr_protocol l, xl_port = unwrap_or 0 (dr_port l),
                xl_packets_per_second = dr_packets_per_second l, xl_burst = dr_burst l\<rparr>)"

definition compile_policy ::
    "ipnet_lib \<Rightarrow> (nat \<Rightarrow> datetime) \<Rightarrow> policy_snapshot \<Rightarrow> compiled_policy res" where
  "compile_policy N clock s =
     bindE (validate_policy s) (\<lambda>_.
     bindE (compile_country_rules (ps_geo_countries s)) (\<lambda>country_rules.
     bindE (compile_geo_prefixes N (ps_geo_prefixes s)) (\<lambda>geo_prefixes.
     Inr \<lparr>cp_version = ps_version s,
          cp_trusted_prefixes = compile_trusted_prefixes N (ps_trusted_cidrs s),
          cp_rules = compile_firewall_rules N (ps_rules s),
          cp_country_rules = country_rules,
          cp_temp_bans = compile_active_temp_bans N clock (ps_temp_bans s),
          cp_dynamic_defense = compile_dynamic_defense (ps_dynamic_defense s),
          cp_dynamic_rate_limits = compile_dynamic_rate_limits (ps_dynamic_rate_limits s),
          cp_geo_prefixes = geo_prefixes,
          cp_threat_prefixes = compile_threat_prefixes (ps_threat_prefixes s)\<rparr>)))"

section \<open>When compilation succeeds\<close>

definition rate_limit_ok :: "dynamic_rate_limit_policy \<Rightarrow> bool" where
  "rate_limit_ok l \<longleftrightarrow> 0 < dr_packets_per_second l \<and> 0 < dr_burst l \<and>
     (dr_protocol l = Icmp \<longrightarrow> dr_port l = None)"

definition snapshot_ok :: "policy_snapshot \<Rightarrow> bool" where
  "snapshot_ok s \<longleftrightarrow> defense_ok (ps_dynamic_defense s) \<and>
     list_all rate_limit_ok (ps_dynamic_rate_limits s) \<and>
     list_all (\<lambda>g. \<exists>c. encode_country (gc_country g) = Inr c) (ps_geo_countries s) \<and>
     list_all (\<lambda>g. \<exists>c. encode_country (gp_country g) = Inr c) (ps_geo_prefixes s)"

lemma traverse_ok_iff: "(\<exists>ys. traverse f xs = Inr ys) \<longleftrightarrow> (\<forall>x\<in>set xs. \<exists>y. f x = Inr y)"
proof (induction xs)
  case (Cons x xs)
  then show ?case by (cases "f x") (auto simp: res_simps)
qed simp

lemma validate_policy_iff:
  "validate_policy s = Inr u \<longleftrightarrow>
     defense_ok (ps_dynamic_defense s) \<and> list_all rate_limit_ok (ps_dynamic_rate_limits s)"
proof -
  have "(\<exists>ys. traverse validate_dynamic_rate_limit_policy (ps_dynamic_rate_limits s) = Inr ys)
      \<longleftrightarrow> list_all rate_limit_ok (ps_dynamic_rate_limits s)"
    unfolding traverse_ok_iff list_all_iff rate_limit_ok_def
    using validate_rate_limit_iff by (metis (full_types) old.unit.exhaust)
  then show ?thesis
    by (auto simp: validate_policy_def res_simps validate_dynamic_defense_iff)
qed

lemma compile_policy_ok_iff:
  "(\<exists>p. compile_policy N clock s = Inr p) \<longleftrightarrow> snapshot_ok s"
proof -
  have c: "(\<exists>ys. compile_country_rules gs = Inr ys) \<longleftrightarrow>
      list_all (\<lambda>g. \<exists>c. encode_country (gc_country g) = Inr c) gs" for gs
    by (simp add: compile_country_rules_def traverse_ok_iff list_all_iff res_simps)
  have g: "(\<exists>ys. compile_geo_prefixes N gs = Inr ys) \<longleftrightarrow>
      list_all (\<lambda>g. \<exists>c. encode_country (gp_country g) = Inr c) gs" for gs
    by (simp add: compile_geo_prefixes_def traverse_ok_iff list_all_iff res_simps cidr_network_def)
  show ?thesis
    unfolding snapshot_ok_def c [symmetric] g [symmetric]
    by (auto simp: compile_policy_def res_simps validate_policy_iff)
qed

section \<open>What compilation produces\<close>

lemma compile_policy_fields:
  assumes "compile_policy N clock s = Inr p"
  shows "cp_version p = ps_version s"
    and "cp_trusted_prefixes p = compile_trusted_prefixes N (ps_trusted_cidrs s)"
    and "cp_rules p = compile_firewall_rules N (ps_rules s)"
    and "cp_temp_bans p = compile_active_temp_bans N clock (ps_temp_bans s)"
    and "cp_dynamic_defense p = compile_dynamic_defense (ps_dynamic_defense s)"
    and "cp_dynamic_rate_limits p = compile_dynamic_rate_limits (ps_dynamic_rate_limits s)"
    and "cp_threat_prefixes p = compile_threat_prefixes (ps_threat_prefixes s)"
    and "compile_country_rules (ps_geo_countries s) = Inr (cp_country_rules p)"
    and "compile_geo_prefixes N (ps_geo_prefixes s) = Inr (cp_geo_prefixes p)"
  using assms by (auto simp: compile_policy_def res_simps)

definition snapshot_nets_valid :: "policy_snapshot \<Rightarrow> bool" where
  "snapshot_nets_valid s \<longleftrightarrow>
     list_all (\<lambda>t. valid_net (tc_cidr t)) (ps_trusted_cidrs s) \<and>
     list_all (\<lambda>r. valid_net (fr_cidr r)) (ps_rules s) \<and>
     list_all (\<lambda>b. valid_net (tb_cidr b)) (ps_temp_bans s) \<and>
     list_all (\<lambda>g. valid_net (gp_cidr g)) (ps_geo_prefixes s) \<and>
     list_all (\<lambda>t. canonical (tp_addr t) (unat (tp_prefix t))) (ps_threat_prefixes s)"

definition wf_rule :: "xdp_prefix_rule \<Rightarrow> bool" where
  "wf_rule r \<longleftrightarrow> canonical (xr_addr r) (unat (xr_prefix r))"

definition wf_compiled :: "compiled_policy \<Rightarrow> bool" where
  "wf_compiled p \<longleftrightarrow>
     list_all wf_trusted (cp_trusted_prefixes p) \<and>
     list_all wf_rule (cp_rules p) \<and> list_all wf_rule (cp_threat_prefixes p) \<and>
     list_all wf_ban (cp_temp_bans p) \<and>
     list_all (\<lambda>g. canonical (xg_addr g) (unat (xg_prefix g))) (cp_geo_prefixes p)"

lemma set_compile_active_temp_bans:
  "b \<in> set (compile_active_temp_bans N clock bans) \<longleftrightarrow>
     (\<exists>i. i < length bans \<and> tb_expires_at (bans ! i) > clock i \<and> b = compile_temp_ban N (bans ! i))"
  by (auto simp: compile_active_temp_bans_def image_iff in_set_enumerate_eq)

lemma compile_policy_wf:
  assumes N: "ipnet_spec N" and nets: "snapshot_nets_valid s"
    and p: "compile_policy N clock s = Inr p"
  shows "wf_compiled p"
proof -
  note canon = ipnet_spec.network_canonical [OF N]
  note fields = compile_policy_fields [OF p]
  have "list_all wf_trusted (cp_trusted_prefixes p)"
    using nets canon
    by (auto simp: fields(2) snapshot_nets_valid_def list_all_iff compile_trusted_prefixes_def
        cidr_network_def wf_trusted_def)
  moreover have "list_all wf_rule (cp_rules p)"
    using nets canon
    by (auto simp: fields(3) snapshot_nets_valid_def list_all_iff compile_firewall_rules_def
        cidr_network_def wf_rule_def)
  moreover have "list_all wf_rule (cp_threat_prefixes p)"
    using nets
    by (auto simp: fields(7) snapshot_nets_valid_def list_all_iff compile_threat_prefixes_def
        wf_rule_def)
  moreover have "list_all wf_ban (cp_temp_bans p)"
    using nets canon
    by (auto simp: fields(4) snapshot_nets_valid_def list_all_iff set_compile_active_temp_bans
        compile_temp_ban_def cidr_network_def wf_ban_def)
  moreover have "list_all (\<lambda>g. canonical (xg_addr g) (unat (xg_prefix g))) (cp_geo_prefixes p)"
  proof -
    have "canonical (xg_addr g) (unat (xg_prefix g))" if g: "g \<in> set (cp_geo_prefixes p)" for g
    proof -
      from traverse_set_back [OF fields(9) [unfolded compile_geo_prefixes_def] g]
      obtain x where "x \<in> set (ps_geo_prefixes s)"
        and "xg_addr g = net_network N (gp_cidr x)" and "xg_prefix g = net_prefix_len (gp_cidr x)"
        by (auto simp: cidr_network_def res_simps)
      then show ?thesis
        using nets canon by (auto simp: snapshot_nets_valid_def list_all_iff)
    qed
    then show ?thesis by (simp add: list_all_iff)
  qed
  ultimately show ?thesis by (simp add: wf_compiled_def)
qed

end
