(* ===== verification/Xdp_Encoding.thy ===== *)
theory Xdp_Encoding
  imports Policy_Model
begin

text \<open>
  The ABI between the agent and the kernel program: \<^verbatim>\<open>data_plane/xdp/encoding.rs\<close> and
  \<^verbatim>\<open>encoding/{abi,codes,keys}.rs\<close>, and the value encoders of \<^verbatim>\<open>linux/apply/write/values.rs\<close>. Keys
  are the \<^verbatim>\<open>repr(C)\<close> structs of the code; \<open>l4_bits\<close> and \<open>l3_bits\<close> are the bits of their memory in
  address order, which is what the kernel's longest-prefix match compares. \<^verbatim>\<open>to_be\<close> swaps bytes
  (the supported hosts are little-endian), so the port's memory image is in network order.
\<close>

section \<open>Codes\<close>

definition ACTION_ALLOW :: u8 where "ACTION_ALLOW = 1"
definition ACTION_DENY :: u8 where "ACTION_DENY = 2"
definition PROTO_ANY :: u8 where "PROTO_ANY = 0"
definition PROTO_ICMP :: u8 where "PROTO_ICMP = 1"
definition PROTO_TCP :: u8 where "PROTO_TCP = 6"
definition PROTO_UDP :: u8 where "PROTO_UDP = 17"
definition RULE_SOURCE_FIREWALL :: u8 where "RULE_SOURCE_FIREWALL = 1"
definition RULE_SOURCE_THREAT :: u8 where "RULE_SOURCE_THREAT = 2"

lemmas code_consts = ACTION_ALLOW_def ACTION_DENY_def PROTO_ANY_def PROTO_ICMP_def PROTO_TCP_def
  PROTO_UDP_def RULE_SOURCE_FIREWALL_def RULE_SOURCE_THREAT_def

fun action_code :: "rule_action \<Rightarrow> u8" where
  "action_code Allow = ACTION_ALLOW"
| "action_code Deny = ACTION_DENY"

fun rule_source_code :: "xdp_rule_source \<Rightarrow> u8" where
  "rule_source_code FirewallRuleSource = RULE_SOURCE_FIREWALL"
| "rule_source_code ThreatIntelSource = RULE_SOURCE_THREAT"

fun proto_code :: "l4_protocol \<Rightarrow> u8" where
  "proto_code AnyProto = PROTO_ANY"
| "proto_code Tcp = PROTO_TCP"
| "proto_code Udp = PROTO_UDP"
| "proto_code Icmp = PROTO_ICMP"

definition protocol_name :: "u8 \<Rightarrow> string" where
  "protocol_name p =
     (if p = PROTO_ANY then ''any'' else if p = PROTO_TCP then ''tcp''
      else if p = PROTO_UDP then ''udp'' else if p = PROTO_ICMP then ''icmp'' else ''unknown'')"

fun rule_source_order :: "xdp_rule_source \<Rightarrow> nat" where
  "rule_source_order ThreatIntelSource = 0"
| "rule_source_order FirewallRuleSource = 1"

lemma action_code_inj: "action_code a = action_code b \<longleftrightarrow> a = b"
  by (cases a; cases b) (simp_all add: code_consts)

lemma proto_code_inj: "proto_code a = proto_code b \<longleftrightarrow> a = b"
  by (cases a; cases b) (simp_all add: code_consts)

lemma action_code_deny_iff [simp]: "action_code a = ACTION_DENY \<longleftrightarrow> a = Deny"
  by (cases a) (simp_all add: code_consts)

lemma action_code_allow_iff [simp]: "action_code a = ACTION_ALLOW \<longleftrightarrow> a = Allow"
  by (cases a) (simp_all add: code_consts)

section \<open>Bytes\<close>

definition to_be :: "u16 \<Rightarrow> u16" where
  "to_be x = push_bit 8 x OR drop_bit 8 x"

abbreviation from_be :: "u16 \<Rightarrow> u16" where
  "from_be \<equiv> to_be"

lemma to_be_to_be [simp]: "to_be (to_be x) = x"
proof (rule bit_word_eqI)
  fix n
  assume n: "n < LENGTH(16)"
  show "bit (to_be (to_be x)) n = bit x n"
  proof (cases "8 \<le> n")
    case True
    then show ?thesis using n by (auto simp: to_be_def bit_simps)
  next
    case False
    then show ?thesis using n by (auto simp: to_be_def bit_simps)
  qed
qed

lemma to_be_eq_iff [simp]: "to_be x = to_be y \<longleftrightarrow> x = y"
  by (metis to_be_to_be)

lemma to_be_0 [simp]: "to_be 0 = 0"
  by (simp add: to_be_def)

lemma to_be_0_iff [simp]: "to_be x = 0 \<longleftrightarrow> x = 0"
  by (metis to_be_0 to_be_to_be)

text \<open>The two bytes of a \<^verbatim>\<open>u16\<close> as stored on a little-endian host.\<close>

definition u16_mem :: "u16 \<Rightarrow> u8 list" where
  "u16_mem v = [ucast v, ucast (drop_bit 8 v)]"

lemma length_u16_mem [simp]: "length (u16_mem v) = 2"
  by (simp add: u16_mem_def)

lemma u16_mem_inj: "u16_mem v = u16_mem w \<longleftrightarrow> v = w"
proof
  assume h: "u16_mem v = u16_mem w"
  then have lo: "(ucast v :: u8) = ucast w" and hi: "(ucast (drop_bit 8 v) :: u8) = ucast (drop_bit 8 w)"
    by (simp_all add: u16_mem_def)
  show "v = w"
  proof (rule bit_word_eqI)
    fix n
    assume n: "n < LENGTH(16)"
    show "bit v n = bit w n"
    proof (cases "n < 8")
      case True
      then have "bit v n = bit (ucast v :: u8) n" and "bit w n = bit (ucast w :: u8) n"
        by (simp_all add: bit_simps)
      with lo show ?thesis by simp
    next
      case False
      then have "n - 8 < 8" and "8 + (n - 8) = n" using n by simp_all
      then have "bit v n = bit (ucast (drop_bit 8 v) :: u8) (n - 8)"
        and "bit w n = bit (ucast (drop_bit 8 w) :: u8) (n - 8)"
        by (simp_all add: bit_simps)
      with hi show ?thesis by simp
    qed
  qed
qed simp

definition word_of_bytes :: "u8 list \<Rightarrow> 'a::len word" where
  "word_of_bytes bs = horner_sum of_bool 2 (rev (bytes_bits bs))"

lemma word_bits_of_bytes:
  assumes "8 * length bs = LENGTH('a)"
  shows "word_bits (word_of_bytes bs :: 'a::len word) = bytes_bits bs"
proof (rule nth_equalityI)
  show "length (word_bits (word_of_bytes bs :: 'a word)) = length (bytes_bits bs)"
    using assms by simp
next
  fix i
  assume "i < length (word_bits (word_of_bytes bs :: 'a word))"
  then have i: "i < LENGTH('a)" by simp
  then show "word_bits (word_of_bytes bs :: 'a word) ! i = bytes_bits bs ! i"
    using assms
    by (simp add: word_bits_nth word_of_bytes_def bit_horner_sum_bit_word_iff rev_nth)
qed

text \<open>\<^verbatim>\<open>addr_bytes\<close> and \<^verbatim>\<open>map_addr\<close>: an address in a 16-byte field, and back.\<close>

fun addr_bytes :: "ipaddr \<Rightarrow> u8 list" where
  "addr_bytes (V4 w) = octets4 w @ replicate 12 0"
| "addr_bytes (V6 w) = octets6 w"

definition map_addr :: "u8 \<Rightarrow> u8 list \<Rightarrow> ipaddr" where
  "map_addr family addr =
     (if family = 4 then V4 (word_of_bytes (take 4 addr)) else V6 (word_of_bytes addr))"

definition family_of :: "ipaddr \<Rightarrow> u8" where
  "family_of a = (if is_ipv4 a then 4 else 6)"

lemma length_addr_bytes [simp]: "length (addr_bytes a) = 16"
  by (cases a) simp_all

lemma addr_bytes_bits:
  "bytes_bits (addr_bytes a) = ip_bits a @ replicate (128 - ip_width a) False"
proof (cases a)
  case (V4 w)
  then show ?thesis
    using bytes_bits_replicate_0 [of 12] by (simp add: bytes_bits_octets4)
qed (simp add: bytes_bits_octets6)

lemma map_addr_addr_bytes: "map_addr (family_of a) (addr_bytes a) = a"
proof (cases a)
  case (V4 w)
  have "word_bits (word_of_bytes (octets4 w) :: 32 word) = word_bits w"
    by (simp add: word_bits_of_bytes bytes_bits_octets4)
  then show ?thesis using V4 by (simp add: map_addr_def family_of_def)
next
  case (V6 w)
  have "word_bits (word_of_bytes (octets6 w) :: 128 word) = word_bits w"
    by (simp add: word_bits_of_bytes bytes_bits_octets6)
  then show ?thesis using V6 by (simp add: map_addr_def family_of_def)
qed

lemma family_of_eq_iff [simp]: "family_of a = family_of b \<longleftrightarrow> is_ipv4 a = is_ipv4 b"
  by (simp add: family_of_def)

section \<open>Keys and values\<close>

record 'd lpm_key =
  lpm_prefix :: u32
  lpm_data :: 'd

text \<open>\<^verbatim>\<open>RuleData\<close> and \<^verbatim>\<open>TempBanData\<close> have one layout, \<^verbatim>\<open>GeoData\<close> and \<^verbatim>\<open>TrustedData\<close> another.\<close>

record l4_data =
  l4_family :: u8
  l4_proto :: u8
  l4_dport :: u16
  l4_addr :: "u8 list"

record l3_data =
  l3_family :: u8
  l3_pad :: "u8 list"
  l3_addr :: "u8 list"

type_synonym rule_key_t = "l4_data lpm_key"
type_synonym temp_ban_key_t = "l4_data lpm_key"
type_synonym geo_key_t = "l3_data lpm_key"
type_synonym trusted_key_t = "l3_data lpm_key"
type_synonym l4_id = "u32 \<times> u8 \<times> u8 \<times> u16 \<times> u8 list"
type_synonym l3_id = "u32 \<times> u8 \<times> u8 list"

record custom_rate_key_t =
  ck_proto :: u8
  ck_pad :: u8
  ck_dport :: u16

record rule_value_t =
  rv_action :: u8
  rv_source :: u8
  rv_pad :: "u8 list"
  rv_priority :: i32

record defense_value_t =
  dv_enabled :: u8
  dv_ip_rate_limit_enabled :: u8
  dv_flood_enabled :: u8
  dv_pad :: u8
  dv_ip_packets_per_second :: u32
  dv_ip_burst :: u32
  dv_flood_packets_per_second :: u32
  dv_flood_burst :: u32
  dv_flood_block_ns :: u64

record custom_rate_value_t =
  cv_packets_per_second :: u32
  cv_burst :: u32

definition lpm_prefix_len :: "u8 \<Rightarrow> u32" where
  "lpm_prefix_len prefix = 32 + ucast prefix"

definition country_key :: "u16 \<Rightarrow> u32" where
  "country_key country = ucast country"

definition rule_key :: "ipaddr \<Rightarrow> u8 \<Rightarrow> l4_protocol \<Rightarrow> u16 \<Rightarrow> rule_key_t" where
  "rule_key addr prefix protocol port =
     \<lparr>lpm_prefix = lpm_prefix_len prefix,
      lpm_data = \<lparr>l4_family = (if is_ipv4 addr then 4 else 6), l4_proto = proto_code protocol,
                  l4_dport = to_be port, l4_addr = addr_bytes addr\<rparr>\<rparr>"

definition geo_key :: "ipaddr \<Rightarrow> u8 \<Rightarrow> geo_key_t" where
  "geo_key addr prefix =
     \<lparr>lpm_prefix = lpm_prefix_len prefix,
      lpm_data = \<lparr>l3_family = (if is_ipv4 addr then 4 else 6), l3_pad = [0, 0, 0],
                  l3_addr = addr_bytes addr\<rparr>\<rparr>"

definition trusted_key :: "ipaddr \<Rightarrow> u8 \<Rightarrow> trusted_key_t" where
  "trusted_key addr prefix =
     \<lparr>lpm_prefix = lpm_prefix_len prefix,
      lpm_data = \<lparr>l3_family = (if is_ipv4 addr then 4 else 6), l3_pad = [0, 0, 0],
                  l3_addr = addr_bytes addr\<rparr>\<rparr>"

definition custom_rate_key :: "l4_protocol \<Rightarrow> u16 \<Rightarrow> custom_rate_key_t" where
  "custom_rate_key protocol port =
     \<lparr>ck_proto = proto_code protocol, ck_pad = 0, ck_dport = to_be port\<rparr>"

definition temp_ban_key :: "ipaddr \<Rightarrow> u8 \<Rightarrow> l4_protocol \<Rightarrow> u16 \<Rightarrow> temp_ban_key_t" where
  "temp_ban_key addr prefix protocol port =
     \<lparr>lpm_prefix = lpm_prefix_len prefix,
      lpm_data = \<lparr>l4_family = (if is_ipv4 addr then 4 else 6), l4_proto = proto_code protocol,
                  l4_dport = to_be port, l4_addr = addr_bytes addr\<rparr>\<rparr>"

definition rule_key_id :: "rule_key_t \<Rightarrow> l4_id" where
  "rule_key_id key = (lpm_prefix key, l4_family (lpm_data key), l4_proto (lpm_data key),
     l4_dport (lpm_data key), l4_addr (lpm_data key))"

definition geo_key_id :: "geo_key_t \<Rightarrow> l3_id" where
  "geo_key_id key = (lpm_prefix key, l3_family (lpm_data key), l3_addr (lpm_data key))"

definition trusted_key_id :: "trusted_key_t \<Rightarrow> l3_id" where
  "trusted_key_id key = (lpm_prefix key, l3_family (lpm_data key), l3_addr (lpm_data key))"

definition custom_rate_key_id :: "custom_rate_key_t \<Rightarrow> u8 \<times> u16" where
  "custom_rate_key_id key = (ck_proto key, ck_dport key)"

definition temp_ban_key_id :: "temp_ban_key_t \<Rightarrow> l4_id" where
  "temp_ban_key_id key = (lpm_prefix key, l4_family (lpm_data key), l4_proto (lpm_data key),
     l4_dport (lpm_data key), l4_addr (lpm_data key))"

text \<open>The network a trusted key prints (\<^verbatim>\<open>trusted_key_cidr\<close>): its address and prefix length.\<close>

definition trusted_key_cidr :: "trusted_key_t \<Rightarrow> ipaddr \<times> u32" where
  "trusted_key_cidr key =
     (map_addr (l3_family (lpm_data key)) (l3_addr (lpm_data key)),
      if lpm_prefix key < 32 then 0 else lpm_prefix key - 32)"

definition u8_of_bool :: "bool \<Rightarrow> u8" where
  "u8_of_bool b = (if b then 1 else 0)"

definition defense_value :: "xdp_dynamic_defense \<Rightarrow> defense_value_t" where
  "defense_value p =
     \<lparr>dv_enabled = u8_of_bool (xd_enabled p),
      dv_ip_rate_limit_enabled = u8_of_bool (xd_ip_rate_limit_enabled p),
      dv_flood_enabled = u8_of_bool (xd_flood_enabled p),
      dv_pad = 0,
      dv_ip_packets_per_second = xd_ip_packets_per_second p,
      dv_ip_burst = xd_ip_burst p,
      dv_flood_packets_per_second = xd_flood_packets_per_second p,
      dv_flood_burst = xd_flood_burst p,
      dv_flood_block_ns = ucast (xd_flood_block_seconds p) * 1000000000\<rparr>"

definition rule_value :: "xdp_prefix_rule \<Rightarrow> rule_value_t" where
  "rule_value r =
     \<lparr>rv_action = action_code (xr_action r), rv_source = rule_source_code (xr_source r),
      rv_pad = [0, 0], rv_priority = xr_priority r\<rparr>"

definition custom_rate_value :: "xdp_dynamic_rate_limit \<Rightarrow> custom_rate_value_t" where
  "custom_rate_value l =
     \<lparr>cv_packets_per_second = xl_packets_per_second l, cv_burst = xl_burst l\<rparr>"

text \<open>
  \<^verbatim>\<open>temp_ban_value\<close>: the remaining wall-clock time (\<^verbatim>\<open>num_nanoseconds\<close> is \<^verbatim>\<open>None\<close> outside
  \<^verbatim>\<open>i64\<close>) added to the monotonic clock, with a checked addition.
\<close>

definition num_nanoseconds :: "int \<Rightarrow> int option" where
  "num_nanoseconds d = (if - (2 ^ 63) \<le> d \<and> d < 2 ^ 63 then Some d else None)"

definition temp_ban_value :: "xdp_temp_ban \<Rightarrow> datetime \<Rightarrow> u64 \<Rightarrow> u64 option res" where
  "temp_ban_value ban wall_now monotonic_now =
     (case num_nanoseconds (xb_expires_at ban - wall_now) of
        None \<Rightarrow> Inr None
      | Some remaining \<Rightarrow>
          if remaining \<le> 0 then Inr None
          else bindE (ok_or ClockOverflow (checked_add_u64 monotonic_now (of_int remaining)))
                 (\<lambda>expires. Inr (Some expires)))"

definition geo_value :: "xdp_geo_prefix \<Rightarrow> u16" where
  "geo_value p = xg_country p"

definition country_value :: "xdp_country_rule \<Rightarrow> u8" where
  "country_value c = action_code (xc_action c)"

section \<open>Keys as bit strings\<close>

definition l4_bits :: "l4_data \<Rightarrow> bool list" where
  "l4_bits d = bytes_bits (l4_family d # l4_proto d # u16_mem (l4_dport d) @ l4_addr d)"

definition l3_bits :: "l3_data \<Rightarrow> bool list" where
  "l3_bits d = bytes_bits (l3_family d # l3_pad d @ l3_addr d)"

lemma unat_lpm_prefix_len: "unat (lpm_prefix_len p) = 32 + unat p"
proof -
  have p: "unat p < 256" using unsigned_less [of p] by simp
  have "unat (ucast p :: u32) = unat p"
    using p by (simp add: unsigned_ucast_eq take_bit_nat_eq_self)
  then show ?thesis
    using p by (simp add: lpm_prefix_len_def unat_word_ariths)
qed

lemma lpm_prefix_len_inj: "lpm_prefix_len p = lpm_prefix_len q \<longleftrightarrow> p = q"
  by (metis add_left_cancel unat_lpm_prefix_len word_unat_eq_iff)

lemma take_prefix_bits:
  assumes "length xs = 32" and "length ys = 32"
  shows "take (32 + n) (xs @ as) = take (32 + n) (ys @ bs) \<longleftrightarrow> xs = ys \<and> take n as = take n bs"
  using assms by (simp add: append_eq_append_conv)

lemma addr_bits_in_prefix:
  assumes "is_ipv4 a = is_ipv4 b" and "p \<le> ip_width a"
  shows "take p (bytes_bits (addr_bytes a)) = take p (bytes_bits (addr_bytes b)) \<longleftrightarrow> in_prefix a p b"
  using assms ip_width_family [OF assms(1)] by (simp add: addr_bytes_bits in_prefix_def)

lemma word_bits_append_eq:
  "word_bits (a :: 'a::len word) @ xs = word_bits (b :: 'a word) @ ys \<longleftrightarrow> a = b \<and> xs = ys"
  by (simp add: append_eq_append_conv)

lemma l4_match_iff:
  assumes "p \<le> ip_width a"
  shows "take (32 + p) (l4_bits \<lparr>l4_family = family_of a, l4_proto = pr, l4_dport = dp, l4_addr = addr_bytes a\<rparr>)
       = take (32 + p) (l4_bits \<lparr>l4_family = family_of b, l4_proto = pr', l4_dport = dp', l4_addr = addr_bytes b\<rparr>)
     \<longleftrightarrow> pr = pr' \<and> dp = dp' \<and> in_prefix a p b"
proof -
  let ?h = "\<lambda>f pr dp. bytes_bits (f # pr # u16_mem dp)"
  have split: "l4_bits \<lparr>l4_family = f, l4_proto = q, l4_dport = d, l4_addr = ad\<rparr> = ?h f q d @ bytes_bits ad"
    for f q d ad by (simp add: l4_bits_def)
  have heads: "?h f q d = ?h f' q' d' \<longleftrightarrow> f = f' \<and> q = q' \<and> d = d'" for f q d f' q' d'
    using bytes_bits_inj [of "f # q # u16_mem d" "f' # q' # u16_mem d'"] by (auto simp: u16_mem_inj)
  have "take (32 + p) (?h (family_of a) pr dp @ bytes_bits (addr_bytes a))
      = take (32 + p) (?h (family_of b) pr' dp' @ bytes_bits (addr_bytes b))
    \<longleftrightarrow> ?h (family_of a) pr dp = ?h (family_of b) pr' dp'
        \<and> take p (bytes_bits (addr_bytes a)) = take p (bytes_bits (addr_bytes b))"
    by (rule take_prefix_bits) simp_all
  then show ?thesis
    unfolding split heads family_of_eq_iff
    using addr_bits_in_prefix [OF _ assms] in_prefix_family by blast
qed

lemma l3_match_iff:
  assumes "p \<le> ip_width a"
  shows "take (32 + p) (l3_bits \<lparr>l3_family = family_of a, l3_pad = [0, 0, 0], l3_addr = addr_bytes a\<rparr>)
       = take (32 + p) (l3_bits \<lparr>l3_family = family_of b, l3_pad = [0, 0, 0], l3_addr = addr_bytes b\<rparr>)
     \<longleftrightarrow> in_prefix a p b"
proof -
  let ?h = "\<lambda>f. bytes_bits (f # [0, 0, 0])"
  have split: "l3_bits \<lparr>l3_family = f, l3_pad = [0, 0, 0], l3_addr = ad\<rparr> = ?h f @ bytes_bits ad"
    for f ad by (simp add: l3_bits_def)
  have heads: "?h f = ?h f' \<longleftrightarrow> f = f'" for f f'
    by (simp add: word_bits_append_eq)
  have "take (32 + p) (?h (family_of a) @ bytes_bits (addr_bytes a))
      = take (32 + p) (?h (family_of b) @ bytes_bits (addr_bytes b))
    \<longleftrightarrow> ?h (family_of a) = ?h (family_of b)
        \<and> take p (bytes_bits (addr_bytes a)) = take p (bytes_bits (addr_bytes b))"
    by (rule take_prefix_bits) simp_all
  then show ?thesis
    unfolding split heads family_of_eq_iff
    using addr_bits_in_prefix [OF _ assms] in_prefix_family by blast
qed

lemma addr_bytes_inj:
  assumes "is_ipv4 a = is_ipv4 b"
  shows "addr_bytes a = addr_bytes b \<longleftrightarrow> a = b"
  using assms map_addr_addr_bytes by (metis family_of_eq_iff)

lemma rule_key_id_eq_iff:
  "rule_key_id (rule_key a p pr d) = rule_key_id (rule_key b q pr' d') \<longleftrightarrow>
     a = b \<and> p = q \<and> pr = pr' \<and> d = d'"
  by (cases "is_ipv4 a"; cases "is_ipv4 b")
     (auto simp: rule_key_id_def rule_key_def lpm_prefix_len_inj proto_code_inj addr_bytes_inj)

lemma temp_ban_key_id_eq_iff:
  "temp_ban_key_id (temp_ban_key a p pr d) = temp_ban_key_id (temp_ban_key b q pr' d') \<longleftrightarrow>
     a = b \<and> p = q \<and> pr = pr' \<and> d = d'"
  by (cases "is_ipv4 a"; cases "is_ipv4 b")
     (auto simp: temp_ban_key_id_def temp_ban_key_def lpm_prefix_len_inj proto_code_inj addr_bytes_inj)

lemma trusted_key_id_eq_iff:
  "trusted_key_id (trusted_key a p) = trusted_key_id (trusted_key b q) \<longleftrightarrow> a = b \<and> p = q"
  by (cases "is_ipv4 a"; cases "is_ipv4 b")
     (auto simp: trusted_key_id_def trusted_key_def lpm_prefix_len_inj addr_bytes_inj)

lemma geo_key_id_eq_iff:
  "geo_key_id (geo_key a p) = geo_key_id (geo_key b q) \<longleftrightarrow> a = b \<and> p = q"
  by (cases "is_ipv4 a"; cases "is_ipv4 b")
     (auto simp: geo_key_id_def geo_key_def lpm_prefix_len_inj addr_bytes_inj)

lemma custom_rate_key_id_eq_iff:
  "custom_rate_key_id (custom_rate_key p d) = custom_rate_key_id (custom_rate_key q d') \<longleftrightarrow>
     p = q \<and> d = d'"
  by (auto simp: custom_rate_key_id_def custom_rate_key_def proto_code_inj)

lemma country_key_inj: "country_key a = country_key b \<longleftrightarrow> a = b"
proof
  assume "country_key a = country_key b"
  then have "(ucast (ucast a :: u32) :: u16) = ucast (ucast b :: u32)"
    by (simp add: country_key_def)
  moreover have "(ucast (ucast c :: u32) :: u16) = c" for c :: u16
    by (rule bit_word_eqI) (simp add: bit_simps)
  ultimately show "a = b" by simp
qed simp

end
