(* ===== verification/Xdp_Pending.thy ===== *)
theory Xdp_Pending
  imports Policy_Compile Xdp_Encoding
begin

text \<open>
  \<^verbatim>\<open>data_plane/xdp/linux/pending.rs\<close> and \<^verbatim>\<open>pending/{rules,safety,sets,temp_bans}.rs\<close>: the keys a
  compiled policy wants in each map. Each loop keeps a set of key identifiers and a list, and the
  first entry with a given key wins. \<open>locals\<close> is the manager's \<^verbatim>\<open>local_interface_cidrs\<close>.
\<close>

section \<open>Rules\<close>

definition ordered_policy_rules :: "compiled_policy \<Rightarrow> xdp_prefix_rule list" where
  "ordered_policy_rules p =
     sort_key (\<lambda>r. (sint (xr_priority r), rule_source_order (xr_source r)))
       (cp_threat_prefixes p @ cp_rules p)"

definition deny_rule_matches_local_interface ::
    "ipnet_lib \<Rightarrow> local_cidr list \<Rightarrow> xdp_prefix_rule \<Rightarrow> bool" where
  "deny_rule_matches_local_interface N locals r \<longleftrightarrow> deny_rule_matching_local_cidr N r locals \<noteq> None"

definition temp_ban_matches_local_interface ::
    "ipnet_lib \<Rightarrow> local_cidr list \<Rightarrow> xdp_temp_ban \<Rightarrow> bool" where
  "temp_ban_matches_local_interface N locals b \<longleftrightarrow> temp_ban_matching_local_cidr N b locals \<noteq> None"

definition xr_key :: "xdp_prefix_rule \<Rightarrow> rule_key_t" where
  "xr_key r = rule_key (xr_addr r) (xr_prefix r) (xr_protocol r) (xr_port r)"

definition collect_rule ::
    "ipnet_lib \<Rightarrow> local_cidr list \<Rightarrow> xdp_prefix_rule \<Rightarrow> l4_id set \<times> (rule_key_t \<times> xdp_prefix_rule) list
       \<Rightarrow> l4_id set \<times> (rule_key_t \<times> xdp_prefix_rule) list" where
  "collect_rule N locals r st =
     (if deny_rule_matches_local_interface N locals r then st
      else (let key = xr_key r in
            if rule_key_id key \<notin> fst st then (insert (rule_key_id key) (fst st), snd st @ [(key, r)])
            else st))"

definition pending_rules ::
    "ipnet_lib \<Rightarrow> local_cidr list \<Rightarrow> compiled_policy
       \<Rightarrow> l4_id set \<times> (rule_key_t \<times> xdp_prefix_rule) list" where
  "pending_rules N locals p =
     fold (collect_rule N locals) (ordered_policy_rules p) ({}, [])"

section \<open>Temporary bans\<close>

definition xb_key :: "xdp_temp_ban \<Rightarrow> temp_ban_key_t" where
  "xb_key b = temp_ban_key (xb_addr b) (xb_prefix b) (xb_protocol b) (xb_port b)"

definition collect_temp_ban ::
    "ipnet_lib \<Rightarrow> local_cidr list \<Rightarrow> datetime \<Rightarrow> xdp_temp_ban
       \<Rightarrow> l4_id set \<times> (temp_ban_key_t \<times> xdp_temp_ban) list
       \<Rightarrow> l4_id set \<times> (temp_ban_key_t \<times> xdp_temp_ban) list" where
  "collect_temp_ban N locals wall_now b st =
     (if xb_expires_at b \<le> wall_now \<or> temp_ban_matches_local_interface N locals b then st
      else (let key = xb_key b in
            if temp_ban_key_id key \<notin> fst st
            then (insert (temp_ban_key_id key) (fst st), snd st @ [(key, b)])
            else st))"

definition pending_temp_bans ::
    "ipnet_lib \<Rightarrow> local_cidr list \<Rightarrow> xdp_temp_ban list \<Rightarrow> datetime
       \<Rightarrow> l4_id set \<times> (temp_ban_key_t \<times> xdp_temp_ban) list" where
  "pending_temp_bans N locals bans wall_now =
     fold (collect_temp_ban N locals wall_now) (compact_temp_bans N bans) ({}, [])"

section \<open>The other sets\<close>

definition xl_key :: "xdp_dynamic_rate_limit \<Rightarrow> custom_rate_key_t" where
  "xl_key l = custom_rate_key (xl_protocol l) (xl_port l)"

definition xt_key :: "xdp_trusted_prefix \<Rightarrow> trusted_key_t" where
  "xt_key x = trusted_key (xt_addr x) (xt_prefix x)"

definition xg_key :: "xdp_geo_prefix \<Rightarrow> geo_key_t" where
  "xg_key x = geo_key (xg_addr x) (xg_prefix x)"

text \<open>One step of \<^verbatim>\<open>if ids.insert(id) { pending.push((key, entry)) }\<close>.\<close>

definition collect_first ::
    "('a \<Rightarrow> 'k) \<Rightarrow> ('k \<Rightarrow> 'i) \<Rightarrow> 'a \<Rightarrow> 'i set \<times> ('k \<times> 'a) list \<Rightarrow> 'i set \<times> ('k \<times> 'a) list" where
  "collect_first key key_id x st =
     (if key_id (key x) \<notin> fst st
      then (insert (key_id (key x)) (fst st), snd st @ [(key x, x)]) else st)"

definition pending_custom_rate_limits ::
    "xdp_dynamic_rate_limit list \<Rightarrow> (u8 \<times> u16) set \<times> (custom_rate_key_t \<times> xdp_dynamic_rate_limit) list" where
  "pending_custom_rate_limits limits = fold (collect_first xl_key custom_rate_key_id) limits ({}, [])"

definition pending_trusted_keys ::
    "ipnet_lib \<Rightarrow> xdp_trusted_prefix list \<Rightarrow> l3_id set \<times> trusted_key_t list" where
  "pending_trusted_keys N prefixes =
     (let st = fold (collect_first xt_key trusted_key_id) (compact_trusted_prefixes N prefixes) ({}, [])
      in (fst st, map fst (snd st)))"

definition pending_geo_prefixes ::
    "xdp_geo_prefix list \<Rightarrow> l3_id set \<times> (geo_key_t \<times> xdp_geo_prefix) list" where
  "pending_geo_prefixes prefixes = fold (collect_first xg_key geo_key_id) prefixes ({}, [])"

definition pending_country_rules ::
    "xdp_country_rule list \<Rightarrow> u32 set \<times> (u32 \<times> xdp_country_rule) list" where
  "pending_country_rules rules =
     fold (collect_first (\<lambda>c. country_key (xc_country c)) (\<lambda>k. k)) rules ({}, [])"

record pending_policy_keys =
  pk_rule_ids :: "l4_id set"
  pk_rules :: "(rule_key_t \<times> xdp_prefix_rule) list"
  pk_geo_ids :: "l3_id set"
  pk_geo_prefixes :: "(geo_key_t \<times> xdp_geo_prefix) list"
  pk_trusted_ids :: "l3_id set"
  pk_trusted_keys :: "trusted_key_t list"
  pk_country_ids :: "u32 set"
  pk_country_rules :: "(u32 \<times> xdp_country_rule) list"
  pk_custom_rate_ids :: "(u8 \<times> u16) set"
  pk_custom_rate_limits :: "(custom_rate_key_t \<times> xdp_dynamic_rate_limit) list"
  pk_temp_ban_ids :: "l4_id set"
  pk_temp_bans :: "(temp_ban_key_t \<times> xdp_temp_ban) list"

definition build_pending_policy_keys ::
    "ipnet_lib \<Rightarrow> local_cidr list \<Rightarrow> compiled_policy \<Rightarrow> datetime \<Rightarrow> pending_policy_keys" where
  "build_pending_policy_keys N locals p wall_now =
     (let bans = pending_temp_bans N locals (cp_temp_bans p) wall_now;
          limits = pending_custom_rate_limits (cp_dynamic_rate_limits p);
          trusted = pending_trusted_keys N (cp_trusted_prefixes p);
          rules = pending_rules N locals p;
          geo = pending_geo_prefixes (cp_geo_prefixes p);
          countries = pending_country_rules (cp_country_rules p)
      in \<lparr>pk_rule_ids = fst rules, pk_rules = snd rules,
          pk_geo_ids = fst geo, pk_geo_prefixes = snd geo,
          pk_trusted_ids = fst trusted, pk_trusted_keys = snd trusted,
          pk_country_ids = fst countries, pk_country_rules = snd countries,
          pk_custom_rate_ids = fst limits, pk_custom_rate_limits = snd limits,
          pk_temp_ban_ids = fst bans, pk_temp_bans = snd bans\<rparr>)"

section \<open>The loops keep the first entry of every key\<close>

lemma fold_collect_first:
  "fold (collect_first key key_id) xs (seen, out) =
     (let r = unique_by (\<lambda>x. key_id (key x)) seen xs
      in (fst r, out @ map (\<lambda>x. (key x, x)) (snd r)))"
  by (induction xs arbitrary: seen out) (auto simp: collect_first_def Let_def)

lemma collect_rule_eq:
  "collect_rule N locals =
     (\<lambda>r. if deny_rule_matches_local_interface N locals r then id
          else collect_first xr_key rule_key_id r)"
  by (auto simp: fun_eq_iff collect_rule_def collect_first_def Let_def)

lemma collect_temp_ban_eq:
  "collect_temp_ban N locals now =
     (\<lambda>b. if xb_expires_at b \<le> now \<or> temp_ban_matches_local_interface N locals b then id
          else collect_first xb_key temp_ban_key_id b)"
  by (auto simp: fun_eq_iff collect_temp_ban_def collect_first_def Let_def)

lemma fold_skip: "fold (\<lambda>x. if P x then id else f x) xs = fold f (filter (\<lambda>x. \<not> P x) xs)"
  by (induction xs) auto

definition installable_rules ::
    "ipnet_lib \<Rightarrow> local_cidr list \<Rightarrow> compiled_policy \<Rightarrow> xdp_prefix_rule list" where
  "installable_rules N locals p =
     filter (\<lambda>r. \<not> deny_rule_matches_local_interface N locals r) (ordered_policy_rules p)"

definition installable_bans ::
    "ipnet_lib \<Rightarrow> local_cidr list \<Rightarrow> datetime \<Rightarrow> xdp_temp_ban list \<Rightarrow> xdp_temp_ban list" where
  "installable_bans N locals now bans =
     filter (\<lambda>b. \<not> (xb_expires_at b \<le> now \<or> temp_ban_matches_local_interface N locals b))
       (compact_temp_bans N bans)"

lemma pending_rules_unique:
  "pending_rules N locals p =
     (let r = unique_by (\<lambda>x. rule_key_id (xr_key x)) {} (installable_rules N locals p)
      in (fst r, map (\<lambda>x. (xr_key x, x)) (snd r)))"
  by (simp add: pending_rules_def installable_rules_def collect_rule_eq fold_skip
      fold_collect_first)

lemma pending_temp_bans_unique:
  "pending_temp_bans N locals bans now =
     (let r = unique_by (\<lambda>x. temp_ban_key_id (xb_key x)) {} (installable_bans N locals now bans)
      in (fst r, map (\<lambda>x. (xb_key x, x)) (snd r)))"
  by (simp add: pending_temp_bans_def installable_bans_def collect_temp_ban_eq fold_skip
      fold_collect_first)

text \<open>Facts every pending set shares.\<close>

lemma find_cong: "(\<And>x. x \<in> set xs \<Longrightarrow> P x \<longleftrightarrow> Q x) \<Longrightarrow> find P xs = find Q xs"
  by (induction xs) auto

lemma map_of_keyed: "map_of (map (\<lambda>x. (key x, x)) xs) k = find (\<lambda>x. key x = k) xs"
  by (induction xs) auto

text \<open>Identifiers tell the keys of entries apart.\<close>

definition separates :: "('k \<Rightarrow> 'i) \<Rightarrow> ('a \<Rightarrow> 'k) \<Rightarrow> bool" where
  "separates key_id key \<longleftrightarrow> (\<forall>x y. key_id (key x) = key_id (key y) \<longrightarrow> key x = key y)"

lemma unique_pending:
  assumes sep: "separates key_id key"
    and r: "r = unique_by (\<lambda>x. key_id (key x)) {} xs"
    and ps: "ps = map (\<lambda>x. (key x, x)) (snd r)"
  shows "fst r = key_id ` fst ` set ps"
    and "distinct (map fst ps)"
    and "fst ` set ps = key ` set xs"
    and "\<And>k x. (k, x) \<in> set ps \<Longrightarrow> k = key x \<and> x \<in> set xs"
    and "\<And>y. map_of ps (key y) = find (\<lambda>x. key x = key y) xs"
proof -
  have inj: "\<And>x y. key_id (key x) = key_id (key y) \<Longrightarrow> key x = key y"
    using sep by (simp add: separates_def)
  have e: "fst ` set ps = key ` set (snd r)" by (auto simp: ps image_image)
  have ids: "(\<lambda>x. key_id (key x)) ` set (snd r) = (\<lambda>x. key_id (key x)) ` set xs"
    using snd_unique_by_keys [of "\<lambda>x. key_id (key x)" "{}" xs] by (simp add: r)
  have sub: "set (snd r) \<subseteq> set xs"
    unfolding r by (rule snd_unique_by_subset)
  show keys: "fst ` set ps = key ` set xs"
  proof
    show "fst ` set ps \<subseteq> key ` set xs" unfolding e using sub by (rule image_mono)
    show "key ` set xs \<subseteq> fst ` set ps"
    proof
      fix k
      assume "k \<in> key ` set xs"
      then obtain x where x: "x \<in> set xs" "k = key x" by auto
      then have "key_id (key x) \<in> (\<lambda>x. key_id (key x)) ` set (snd r)" unfolding ids by (rule_tac imageI)
      then obtain y where "y \<in> set (snd r)" "key x = key y" using inj by auto
      then show "k \<in> fst ` set ps" unfolding e using x(2) by auto
    qed
  qed
  show "fst r = key_id ` fst ` set ps"
    unfolding keys image_image using r by simp
  have "distinct (map (\<lambda>x. key_id (key x)) (snd r))"
    unfolding r by (rule snd_unique_by_distinct)
  then have "distinct (map key_id (map key (snd r)))" by (simp add: comp_def)
  then have "distinct (map key (snd r))" by (rule distinct_map [THEN iffD1, THEN conjunct1])
  then show "distinct (map fst ps)" by (simp add: ps comp_def)
  show "\<And>k x. (k, x) \<in> set ps \<Longrightarrow> k = key x \<and> x \<in> set xs"
    using sub by (auto simp: ps)
  fix y
  have same: "find (\<lambda>x. key x = key y) zs = find (\<lambda>x. key_id (key x) = key_id (key y)) zs" for zs
    by (rule find_cong) (auto dest: inj)
  show "map_of ps (key y) = find (\<lambda>x. key x = key y) xs"
    unfolding ps map_of_keyed same r by (rule unique_by_find) simp
qed

lemma rule_key_id_inj: "rule_key_id k = rule_key_id k' \<Longrightarrow> k = (k' :: rule_key_t)"
  by (cases k; cases k') (auto simp: rule_key_id_def intro!: l4_data.equality)

lemma temp_ban_key_id_inj: "temp_ban_key_id k = temp_ban_key_id k' \<Longrightarrow> k = (k' :: temp_ban_key_t)"
  by (cases k; cases k') (auto simp: temp_ban_key_id_def intro!: l4_data.equality)

lemma separates_keys:
  "separates rule_key_id xr_key" "separates temp_ban_key_id xb_key"
  "separates geo_key_id xg_key" "separates trusted_key_id xt_key"
  "separates custom_rate_key_id xl_key"
  "separates (\<lambda>k. k) (\<lambda>c. country_key (xc_country c))"
  by (simp_all add: separates_def xr_key_def xb_key_def xg_key_def xt_key_def xl_key_def
      rule_key_id_eq_iff temp_ban_key_id_eq_iff geo_key_id_eq_iff trusted_key_id_eq_iff
      custom_rate_key_id_eq_iff)

end
