(* ===== verification/Kernel_Maps.thy ===== *)
theory Kernel_Maps
  imports Fw_Prelude "HOL-Library.AList"
begin

text \<open>
  The kernel's maps as the agent uses them through \<^verbatim>\<open>aya\<close> (\<^verbatim>\<open>insert\<close>, \<^verbatim>\<open>remove\<close>, \<^verbatim>\<open>keys\<close>). A map's
  content is an association list with distinct keys; whether a system call succeeds is decided by
  the environment \<open>kmap_env\<close>, since a full map refuses a new key. Every operation returns the
  content it leaves behind together with its result, so a failure half-way is visible. The locale
  \<open>kernel_map\<close> states the documented behaviour (an insert is refused only when the key is new and
  \<open>cap\<close> entries are present); \<open>bounded_env\<close> is its instance.
\<close>

type_synonym ('k, 'v) kmap = "('k \<times> 'v) list"

record ('k, 'v) kmap_env =
  km_admits :: "('k, 'v) kmap \<Rightarrow> 'k \<Rightarrow> bool"
  km_lists :: "('k, 'v) kmap \<Rightarrow> bool"
  km_removes :: "('k, 'v) kmap \<Rightarrow> 'k \<Rightarrow> bool"

definition kmap_insert ::
    "('k, 'v) kmap_env \<Rightarrow> string \<Rightarrow> 'k \<Rightarrow> 'v \<Rightarrow> ('k, 'v) kmap \<Rightarrow> ('k, 'v) kmap \<times> unit res" where
  "kmap_insert E name k v m =
     (if km_admits E m k then (AList.update k v m, Inr ()) else (m, Inl (MapError name)))"

text \<open>
  The loops \<^verbatim>\<open>for (key, x) in &pending { self.put(key, x)?; }\<close>: the value may be absent (the entry
  is skipped) or fail (the loop stops).
\<close>

primrec kmap_put_each ::
    "('k, 'v) kmap_env \<Rightarrow> string \<Rightarrow> ('a \<Rightarrow> 'k) \<Rightarrow> ('a \<Rightarrow> 'v option res) \<Rightarrow> 'a list \<Rightarrow> ('k, 'v) kmap
       \<Rightarrow> ('k, 'v) kmap \<times> unit res" where
  "kmap_put_each E name key val [] m = (m, Inr ())"
| "kmap_put_each E name key val (x # xs) m =
     (case val x of
        Inl e \<Rightarrow> (m, Inl e)
      | Inr None \<Rightarrow> kmap_put_each E name key val xs m
      | Inr (Some v) \<Rightarrow>
          (let r = kmap_insert E name (key x) v m in
           case snd r of
             Inl e \<Rightarrow> (fst r, Inl e)
           | Inr _ \<Rightarrow> kmap_put_each E name key val xs (fst r)))"

primrec kmap_remove_each ::
    "('k, 'v) kmap_env \<Rightarrow> string \<Rightarrow> 'k list \<Rightarrow> ('k, 'v) kmap \<Rightarrow> ('k, 'v) kmap \<times> unit res" where
  "kmap_remove_each E name [] m = (m, Inr ())"
| "kmap_remove_each E name (k # ks) m =
     (if km_removes E m k then kmap_remove_each E name ks (AList.delete k m)
      else (m, Inl (MapError name)))"

definition kmap_remove_stale ::
    "('k, 'v) kmap_env \<Rightarrow> string \<Rightarrow> ('k \<Rightarrow> 'i) \<Rightarrow> 'i set \<Rightarrow> ('k, 'v) kmap
       \<Rightarrow> ('k, 'v) kmap \<times> unit res" where
  "kmap_remove_stale E name key_id ids m =
     (if \<not> km_lists E m then (m, Inl (MapError name))
      else kmap_remove_each E name (filter (\<lambda>k. key_id k \<notin> ids) (map fst m)) m)"

section \<open>Content after the loops\<close>

definition kmap_dom :: "('k, 'v) kmap \<Rightarrow> 'k set" where
  "kmap_dom m = fst ` set m"

lemma kmap_dom_map_of: "kmap_dom m = dom (map_of m)"
  by (simp add: kmap_dom_def dom_map_of_conv_image_fst)

lemma kmap_dom_update [simp]: "kmap_dom (AList.update k v m) = insert k (kmap_dom m)"
  by (simp add: kmap_dom_map_of update_conv')

lemma kmap_insert_Inr:
  "kmap_insert E name k v m = (m', Inr u) \<Longrightarrow> map_of m' = (map_of m)(k \<mapsto> v)"
  by (auto simp: kmap_insert_def update_conv' split: if_splits)

lemma kmap_insert_distinct:
  "distinct (map fst m) \<Longrightarrow> distinct (map fst (fst (kmap_insert E name k v m)))"
  by (simp add: kmap_insert_def distinct_update)

lemma kmap_put_each_distinct:
  "distinct (map fst m) \<Longrightarrow> distinct (map fst (fst (kmap_put_each E name key val xs m)))"
proof (induction xs arbitrary: m)
  case (Cons x xs)
  then show ?case
    using kmap_insert_distinct [OF Cons.prems, of E name "key x"]
    by (auto simp: Let_def split: sum.split option.split)
qed simp

lemma kmap_put_each_other:
  "k \<notin> key ` set xs \<Longrightarrow> map_of (fst (kmap_put_each E name key val xs m)) k = map_of m k"
  by (induction xs arbitrary: m)
     (auto simp: Let_def kmap_insert_def update_conv' split: sum.split option.split)

text \<open>Whatever happens, the loop removes no key.\<close>

lemma kmap_put_each_keeps:
  "kmap_dom m \<subseteq> kmap_dom (fst (kmap_put_each E name key val xs m))"
proof (induction xs arbitrary: m)
  case (Cons x xs)
  show ?case
  proof (cases "val x")
    case (Inr ov)
    then show ?thesis
    proof (cases ov)
      case (Some v)
      show ?thesis
      proof (cases "km_admits E m (key x)")
        case True
        have "kmap_dom m \<subseteq> kmap_dom (AList.update (key x) v m)" by auto
        also have "\<dots> \<subseteq> kmap_dom (fst (kmap_put_each E name key val xs (AList.update (key x) v m)))"
          by (rule Cons.IH)
        finally show ?thesis using Inr Some True by (simp add: kmap_insert_def)
      qed (use Inr Some in \<open>simp add: kmap_insert_def\<close>)
    qed (use Inr Cons.IH in simp)
  qed simp
qed simp

lemma kmap_put_each_Inr_Cons:
  assumes "kmap_put_each E name key val (x # xs) m = (m', Inr u)"
  shows "(val x = Inr None \<and> kmap_put_each E name key val xs m = (m', Inr u)) \<or>
         (\<exists>v. val x = Inr (Some v) \<and> kmap_put_each E name key val xs (AList.update (key x) v m) = (m', Inr u))"
  using assms
  by (auto simp: Let_def kmap_insert_def split: sum.splits option.splits if_splits)

lemma kmap_put_each_written:
  assumes "kmap_put_each E name key val xs m = (m', Inr u)"
    and "distinct (map key xs)" and "x \<in> set xs"
  shows "(\<exists>v. val x = Inr (Some v) \<and> map_of m' (key x) = Some v)
       \<or> (val x = Inr None \<and> map_of m' (key x) = map_of m (key x))"
  using assms
proof (induction xs arbitrary: m)
  case (Cons y ys)
  show ?case
  proof (cases "x = y")
    case True
    then have fresh: "key x \<notin> key ` set ys" using Cons.prems(2) by auto
    have other: "map_of m' (key x) = map_of n (key x)"
      if "kmap_put_each E name key val ys n = (m', Inr u)" for n
      using kmap_put_each_other [OF fresh, of E name val n] that by simp
    show ?thesis
      using kmap_put_each_Inr_Cons [OF Cons.prems(1)] True other by (auto simp: update_conv')
  next
    case False
    then have x: "x \<in> set ys" and d: "distinct (map key ys)"
      using Cons.prems(2, 3) by auto
    have "key y \<notin> key ` set ys" using Cons.prems(2) by simp
    with x have ne: "key x \<noteq> key y" by (metis imageI)
    from kmap_put_each_Inr_Cons [OF Cons.prems(1)] show ?thesis
    proof
      assume "val y = Inr None \<and> kmap_put_each E name key val ys m = (m', Inr u)"
      then show ?thesis using Cons.IH d x by blast
    next
      assume "\<exists>v. val y = Inr (Some v) \<and>
        kmap_put_each E name key val ys (AList.update (key y) v m) = (m', Inr u)"
      then obtain v where "kmap_put_each E name key val ys (AList.update (key y) v m) = (m', Inr u)"
        by blast
      from Cons.IH [OF this d x] show ?thesis using ne by (simp add: update_conv')
    qed
  qed
qed simp

lemma kmap_remove_each_Inr:
  "kmap_remove_each E name ks m = (m', Inr u) \<Longrightarrow>
   map_of m' = (\<lambda>k. if k \<in> set ks then None else map_of m k)"
  by (induction ks arbitrary: m)
     (auto simp: delete_conv' fun_eq_iff split: if_splits)

lemma kmap_remove_stale_Inr:
  assumes "kmap_remove_stale E name key_id ids m = (m', Inr u)"
  shows "map_of m' k = (if key_id k \<in> ids then map_of m k else None)"
proof -
  from assms have r: "kmap_remove_each E name (filter (\<lambda>k. key_id k \<notin> ids) (map fst m)) m = (m', Inr u)"
    by (simp add: kmap_remove_stale_def split: if_splits)
  have "k \<notin> fst ` set m \<Longrightarrow> map_of m k = None" by (simp add: map_of_eq_None_iff)
  then show ?thesis
    unfolding kmap_remove_each_Inr [OF r] by auto
qed

text \<open>
  One map after a successful write pass and a successful clean-up pass: exactly the pending
  entries, where an entry whose value was absent keeps what was there before.
\<close>

lemma kmap_refresh_exact:
  assumes put: "kmap_put_each E name key val xs m = (m1, Inr u)"
    and stale: "kmap_remove_stale E name key_id ids m1 = (m2, Inr u')"
    and ids: "ids = (\<lambda>x. key_id (key x)) ` set xs"
    and d: "distinct (map key xs)"
  shows "x \<in> set xs \<Longrightarrow> val x = Inr (Some v) \<Longrightarrow> map_of m2 (key x) = Some v"
    and "x \<in> set xs \<Longrightarrow> val x = Inr None \<Longrightarrow> map_of m2 (key x) = map_of m (key x)"
    and "key_id k \<notin> ids \<Longrightarrow> map_of m2 k = None"
proof -
  show "x \<in> set xs \<Longrightarrow> val x = Inr (Some v) \<Longrightarrow> map_of m2 (key x) = Some v"
    using kmap_remove_stale_Inr [OF stale, of "key x"] kmap_put_each_written [OF put d, of x] ids
    by auto
  show "x \<in> set xs \<Longrightarrow> val x = Inr None \<Longrightarrow> map_of m2 (key x) = map_of m (key x)"
    using kmap_remove_stale_Inr [OF stale, of "key x"] kmap_put_each_written [OF put d, of x] ids
    by auto
  show "key_id k \<notin> ids \<Longrightarrow> map_of m2 k = None"
    using kmap_remove_stale_Inr [OF stale, of k] by auto
qed

lemma kmap_put_each_map:
  "kmap_put_each E name key val (map f xs) m =
   kmap_put_each E name (\<lambda>x. key (f x)) (\<lambda>x. val (f x)) xs m"
  by (induction xs arbitrary: m) (auto simp: Let_def split: sum.split option.split)

text \<open>What both passes keep, whatever their result: a key that is still wanted stays.\<close>

lemma kmap_remove_each_keeps:
  "k \<notin> set ks \<Longrightarrow> k \<in> kmap_dom m \<Longrightarrow> k \<in> kmap_dom (fst (kmap_remove_each E name ks m))"
  by (induction ks arbitrary: m) (auto simp: kmap_dom_map_of delete_conv' dom_def)

lemma kmap_remove_stale_keeps:
  "k \<in> kmap_dom m \<Longrightarrow> key_id k \<in> ids \<Longrightarrow>
   k \<in> kmap_dom (fst (kmap_remove_stale E name key_id ids m))"
  by (auto simp: kmap_remove_stale_def intro: kmap_remove_each_keeps)

section \<open>Bounded maps\<close>

locale kernel_map =
  fixes E :: "('k, 'v) kmap_env" and cap :: nat
  assumes admits_iff: "km_admits E m k \<longleftrightarrow> k \<in> kmap_dom m \<or> length m < cap"
    and lists: "km_lists E m"
    and removes: "km_removes E m k"
begin

lemma put_each_within:
  assumes "distinct (map fst m)" and "finite U" and "kmap_dom m \<union> key ` set xs \<subseteq> U"
    and "card U \<le> cap" and "\<And>x. x \<in> set xs \<Longrightarrow> \<exists>ov. val x = Inr ov"
  shows "\<exists>m'. kmap_put_each E name key val xs m = (m', Inr ())"
  using assms(1, 3, 5)
proof (induction xs arbitrary: m)
  case (Cons x xs)
  from Cons.prems(3) obtain ov where ov: "val x = Inr ov" by auto
  show ?case
  proof (cases ov)
    case None
    then show ?thesis using Cons ov by simp
  next
    case (Some v)
    have "km_admits E m (key x)"
    proof (cases "key x \<in> kmap_dom m")
      case False
      have "kmap_dom m \<subset> U" using False Cons.prems(2) by auto
      then have "card (kmap_dom m) < card U" using assms(2) by (intro psubset_card_mono)
      moreover have "card (kmap_dom m) = length m"
        using Cons.prems(1) by (simp add: kmap_dom_def distinct_card flip: set_map)
      ultimately show ?thesis using assms(4) by (simp add: admits_iff)
    qed (simp add: admits_iff)
    moreover have "\<exists>m'. kmap_put_each E name key val xs (AList.update (key x) v m) = (m', Inr ())"
      using Cons.prems by (intro Cons.IH) (auto simp: distinct_update)
    ultimately show ?thesis using ov Some by (simp add: kmap_insert_def)
  qed
qed simp

text \<open>A new key that meets a full map makes the write pass fail.\<close>

lemma put_each_full:
  assumes "cap \<le> length m" and "\<And>x. x \<in> set xs \<Longrightarrow> \<exists>v. val x = Inr (Some v)"
    and "\<exists>x\<in>set xs. key x \<notin> kmap_dom m"
  shows "\<exists>m' e. kmap_put_each E name key val xs m = (m', Inl e)"
  using assms
proof (induction xs arbitrary: m)
  case (Cons x xs)
  from Cons.prems(2) obtain v where v: "val x = Inr (Some v)" by auto
  show ?case
  proof (cases "key x \<in> kmap_dom m")
    case True
    have "length m \<le> length (AList.update (key x) v m)" by (induction m) auto
    then have "cap \<le> length (AList.update (key x) v m)" using Cons.prems(1) by simp
    moreover have "\<exists>y\<in>set xs. key y \<notin> kmap_dom (AList.update (key x) v m)"
    proof -
      from Cons.prems(3) True obtain y where "y \<in> set xs" "key y \<notin> kmap_dom m" by auto
      then show ?thesis using True by (intro bexI [of _ y]) auto
    qed
    ultimately have "\<exists>m' e. kmap_put_each E name key val xs (AList.update (key x) v m) = (m', Inl e)"
      using Cons.prems(2) by (intro Cons.IH) auto
    then show ?thesis using v True by (simp add: kmap_insert_def admits_iff)
  next
    case False
    then show ?thesis using v Cons.prems(1) by (simp add: kmap_insert_def admits_iff)
  qed
qed simp

lemma remove_stale_ok: "\<exists>m'. kmap_remove_stale E name key_id ids m = (m', Inr ())"
proof -
  have "\<exists>m'. kmap_remove_each E name ks m = (m', Inr ())" for ks
    by (induction ks arbitrary: m) (simp_all add: removes)
  then show ?thesis by (simp add: kmap_remove_stale_def lists)
qed

end

definition bounded_env :: "nat \<Rightarrow> ('k, 'v) kmap_env" where
  "bounded_env cap =
     \<lparr>km_admits = (\<lambda>m k. k \<in> fst ` set m \<or> length m < cap),
      km_lists = (\<lambda>_. True), km_removes = (\<lambda>_ _. True)\<rparr>"

interpretation bounded: kernel_map "bounded_env cap" cap
  by unfold_locales (simp_all add: bounded_env_def kmap_dom_def)

end
