(* ===== verification/Map_Sizes.thy ===== *)
theory Map_Sizes
  imports Fw_Prelude
begin

text \<open>
  Sizes of the kernel maps: \<^verbatim>\<open>XdpMapSizes\<close> and \<^verbatim>\<open>XdpStats\<close> of \<^verbatim>\<open>data_plane/xdp/types.rs\<close> and the
  capacity rules of \<^verbatim>\<open>data_plane/xdp/maps.rs\<close>: the capacity check, and the growth rule (double,
  take the maximum with what is required, round up to a power of two, refuse what does not fit
  \<^verbatim>\<open>u32\<close>). \<open>next_power_of_two\<close> is \<^verbatim>\<open>u64::checked_next_power_of_two\<close> of the standard library.
\<close>

section \<open>Sizes and statistics\<close>

record xdp_map_sizes =
  rule_entries :: u32
  geo_entries :: u32
  trusted_entries :: u32
  country_entries :: u32
  rate_entries :: u32
  custom_rate_limit_entries :: u32
  temp_ban_entries :: u32

definition default_map_sizes :: xdp_map_sizes where
  "default_map_sizes =
     \<lparr>rule_entries = 262144, geo_entries = 262144, trusted_entries = 4096,
      country_entries = 676, rate_entries = 1048576, custom_rate_limit_entries = 4096,
      temp_ban_entries = 4096\<rparr>"

definition ensure_nonzero :: "string \<Rightarrow> u32 \<Rightarrow> unit res" where
  "ensure_nonzero name n = (if n = 0 then Inl (ZeroCapacity name) else Inr ())"

definition map_sizes_validate :: "xdp_map_sizes \<Rightarrow> xdp_map_sizes res" where
  "map_sizes_validate s =
     bindE (ensure_nonzero ''rule_cidrs'' (rule_entries s)) (\<lambda>_.
     bindE (ensure_nonzero ''geo_cidrs'' (geo_entries s)) (\<lambda>_.
     bindE (ensure_nonzero ''trusted_cidrs'' (trusted_entries s)) (\<lambda>_.
     bindE (ensure_nonzero ''country_rules'' (country_entries s)) (\<lambda>_.
     bindE (ensure_nonzero ''rate_buckets'' (rate_entries s)) (\<lambda>_.
     bindE (ensure_nonzero ''custom_rate_limits'' (custom_rate_limit_entries s)) (\<lambda>_.
     bindE (ensure_nonzero ''temp_bans'' (temp_ban_entries s)) (\<lambda>_.
     Inr s)))))))"

record xdp_stats =
  st_pass :: u64
  st_rule_drop :: u64
  st_geo_drop :: u64
  st_rate_drop :: u64
  st_flood_drop :: u64
  st_custom_rate_drop :: u64
  st_parse_drop :: u64
  st_temp_ban_drop :: u64

definition total_drop :: "xdp_stats \<Rightarrow> u64" where
  "total_drop s = st_rule_drop s + st_geo_drop s + st_rate_drop s + st_flood_drop s
     + st_custom_rate_drop s + st_parse_drop s + st_temp_ban_drop s"

section \<open>Capacity checks and growth\<close>

definition ensure_capacity :: "string \<Rightarrow> u32 \<Rightarrow> u32 \<Rightarrow> unit res" where
  "ensure_capacity name needed configured =
     (if needed > configured then Inl (CapacityExceeded name (unat needed) (unat configured))
      else Inr ())"

definition validate_map_capacity :: "xdp_map_sizes \<Rightarrow> xdp_map_sizes \<Rightarrow> unit res" where
  "validate_map_capacity required configured =
     bindE (ensure_capacity ''rule_cidrs'' (rule_entries required) (rule_entries configured)) (\<lambda>_.
     bindE (ensure_capacity ''trusted_cidrs'' (trusted_entries required)
              (trusted_entries configured)) (\<lambda>_.
     bindE (ensure_capacity ''geo_cidrs'' (geo_entries required) (geo_entries configured)) (\<lambda>_.
     bindE (ensure_capacity ''country_rules'' (country_entries required)
              (country_entries configured)) (\<lambda>_.
     bindE (ensure_capacity ''custom_rate_limits'' (custom_rate_limit_entries required)
              (custom_rate_limit_entries configured)) (\<lambda>_.
     ensure_capacity ''temp_bans'' (temp_ban_entries required)
       (temp_ban_entries configured))))))"

definition usize_to_u32 :: "string \<Rightarrow> nat \<Rightarrow> u32 res" where
  "usize_to_u32 name n =
     (if n < 2 ^ 32 then Inr (of_nat n) else Inl (CapacityOverflow name))"

lemma usize_to_u32_code [code]:
  "usize_to_u32 name n = (if int n < 4294967296 then Inr (of_nat n) else Inl (CapacityOverflow name))"
proof -
  have "n < 2 ^ 32 \<longleftrightarrow> int n < int (2 ^ 32)" by linarith
  then show ?thesis by (simp add: usize_to_u32_def)
qed

function pow2_from :: "nat \<Rightarrow> nat \<Rightarrow> nat" where
  "pow2_from p n = (if 0 < p \<and> p < n then pow2_from (2 * p) n else p)"
  by pat_completeness auto
termination
  by (relation "measure (\<lambda>(p, n). n - p)") auto

declare pow2_from.simps [simp del]

definition checked_next_power_of_two :: "nat \<Rightarrow> nat option" where
  "checked_next_power_of_two n = (let p = pow2_from 1 n in if p < 2 ^ 64 then Some p else None)"

text \<open>
  \<open>current\<close> is a \<^verbatim>\<open>u32\<close>, so its double as a \<^verbatim>\<open>u64\<close> cannot overflow: the \<^verbatim>\<open>checked_mul\<close> branch is
  kept as the code has it.
\<close>

definition expanded_capacity :: "string \<Rightarrow> u32 \<Rightarrow> u32 \<Rightarrow> u32 res" where
  "expanded_capacity name current required =
     (if required \<le> current then Inr current
      else bindE (ok_or (CapacityOverflow name)
                   (if unat current * 2 < 2 ^ 64 then Some (unat current * 2) else None)) (\<lambda>doubled.
        let target = max (max doubled (unat required)) 1 in
        bindE (ok_or (CapacityOverflow name) (checked_next_power_of_two target)) (\<lambda>rounded.
        usize_to_u32 name rounded)))"

definition resized_map_sizes ::
  "xdp_map_sizes \<Rightarrow> xdp_map_sizes \<Rightarrow> xdp_map_sizes option res" where
  "resized_map_sizes current required =
     bindE (expanded_capacity ''rule_cidrs'' (rule_entries current) (rule_entries required)) (\<lambda>rules.
     bindE (expanded_capacity ''geo_cidrs'' (geo_entries current) (geo_entries required)) (\<lambda>geo.
     bindE (expanded_capacity ''trusted_cidrs'' (trusted_entries current)
              (trusted_entries required)) (\<lambda>trusted.
     bindE (expanded_capacity ''country_rules'' (country_entries current)
              (country_entries required)) (\<lambda>country.
     bindE (expanded_capacity ''custom_rate_limits'' (custom_rate_limit_entries current)
              (custom_rate_limit_entries required)) (\<lambda>custom.
     bindE (expanded_capacity ''temp_bans'' (temp_ban_entries current)
              (temp_ban_entries required)) (\<lambda>bans.
     let resized =
       \<lparr>rule_entries = rules, geo_entries = geo, trusted_entries = trusted,
        country_entries = country, rate_entries = rate_entries current,
        custom_rate_limit_entries = custom, temp_ban_entries = bans\<rparr>
     in Inr (if resized \<noteq> current then Some resized else None)))))))"

section \<open>Lemmas\<close>

lemma ensure_nonzero_iff [res_simps]: "ensure_nonzero name n = Inr u \<longleftrightarrow> n \<noteq> 0"
  by (simp add: ensure_nonzero_def)

lemma ensure_capacity_iff [res_simps]: "ensure_capacity name a b = Inr u \<longleftrightarrow> a \<le> b"
  by (auto simp: ensure_capacity_def)

lemma usize_to_u32_Inr [res_simps]:
  "usize_to_u32 name n = Inr w \<longleftrightarrow> n < 2 ^ 32 \<and> w = of_nat n"
  by (auto simp: usize_to_u32_def)

lemma usize_to_u32_unat: "usize_to_u32 name n = Inr w \<Longrightarrow> unat w = n"
  by (auto simp: res_simps unat_of_nat)

text \<open>The capacities a policy can outgrow (the rate buckets are an LRU map and never checked).\<close>

definition fits :: "xdp_map_sizes \<Rightarrow> xdp_map_sizes \<Rightarrow> bool" where
  "fits required configured \<longleftrightarrow>
     rule_entries required \<le> rule_entries configured \<and>
     trusted_entries required \<le> trusted_entries configured \<and>
     geo_entries required \<le> geo_entries configured \<and>
     country_entries required \<le> country_entries configured \<and>
     custom_rate_limit_entries required \<le> custom_rate_limit_entries configured \<and>
     temp_ban_entries required \<le> temp_ban_entries configured"

lemma validate_map_capacity_iff: "validate_map_capacity r c = Inr () \<longleftrightarrow> fits r c"
  by (auto simp: validate_map_capacity_def fits_def res_simps)

lemma pow2_from_ge: "0 < p \<Longrightarrow> n \<le> pow2_from p n"
  by (induction p n rule: pow2_from.induct) (subst pow2_from.simps, auto)

lemma pow2_from_power: "\<exists>k. pow2_from (2 ^ j) n = 2 ^ k"
proof (induction "2 ^ j :: nat" n arbitrary: j rule: pow2_from.induct)
  case (1 n)
  show ?case
  proof (cases "2 ^ j < n")
    case True
    then have "pow2_from (2 ^ j) n = pow2_from (2 ^ Suc j) n"
      by (subst pow2_from.simps) simp
    with "1" [of "Suc j"] True show ?thesis by auto
  next
    case False
    then have "pow2_from (2 ^ j) n = 2 ^ j" by (subst pow2_from.simps) simp
    then show ?thesis by blast
  qed
qed

lemma pow2_from_less_double:
  "0 < p \<Longrightarrow> pow2_from p n = p \<or> pow2_from p n < 2 * n"
proof (induction p n rule: pow2_from.induct)
  case (1 p n)
  show ?case
  proof (cases "p < n")
    case True
    with 1 have "pow2_from (2 * p) n = 2 * p \<or> pow2_from (2 * p) n < 2 * n" by simp
    with True 1 show ?thesis by (subst (1 2) pow2_from.simps) auto
  next
    case False
    then show ?thesis by (subst pow2_from.simps) simp
  qed
qed

lemma next_power_of_two_total:
  assumes "1 \<le> n" and "n < 2 ^ 63"
  shows "\<exists>p k. checked_next_power_of_two n = Some p \<and> p = 2 ^ k \<and> n \<le> p \<and> p < 2 * n"
proof -
  have lt: "pow2_from 1 n < 2 * n"
    using pow2_from_less_double [of 1 n] assms(1) by auto
  moreover from lt assms(2) have "pow2_from 1 n < 2 ^ 64" by simp
  moreover obtain k where "pow2_from 1 n = 2 ^ k"
    using pow2_from_power [of 0 n] by auto
  ultimately show ?thesis
    using pow2_from_ge [of 1 n] by (auto simp: checked_next_power_of_two_def Let_def)
qed

lemma unat_u32_less: "unat (x :: u32) < 2 ^ 32"
  using unsigned_less [of x] by simp

text \<open>The growth rule in one lemma: its value, and exactly when it refuses.\<close>

lemma expanded_capacity_cases:
  assumes "\<not> required \<le> current"
  obtains (fits) p k where "expanded_capacity name current required = Inr (of_nat p)"
      and "p = 2 ^ k" and "unat required \<le> p" and "2 * unat current \<le> p" and "p < 2 ^ 32"
      and "p < 2 * max (2 * unat current) (unat required)"
  | (refuses) "expanded_capacity name current required = Inl (CapacityOverflow name)"
      and "2 ^ 31 < max (2 * unat current) (unat required)"
proof -
  let ?t = "max (max (unat current * 2) (unat required)) 1"
  have cur: "unat current < 2 ^ 32" and req: "unat required < 2 ^ 32"
    by (rule unat_u32_less)+
  have pos: "0 < unat required" using assms by (auto simp: word_le_nat_alt)
  from cur req have "1 \<le> ?t" and "?t < 2 ^ 63" by auto
  then obtain p k where p: "checked_next_power_of_two ?t = Some p" "p = 2 ^ k" "?t \<le> p" "p < 2 * ?t"
    using next_power_of_two_total by blast
  have e: "expanded_capacity name current required = usize_to_u32 name p"
    using assms cur p(1) by (simp add: expanded_capacity_def Let_def)
  have t: "?t = max (2 * unat current) (unat required)" using pos by (simp add: mult.commute)
  show ?thesis
  proof (cases "p < 2 ^ 32")
    case True
    with e p t that(1) [of p k] show ?thesis by (simp add: usize_to_u32_def)
  next
    case False
    with p(4) have "2 ^ 31 < ?t" by simp
    with False e t that(2) show ?thesis by (simp add: usize_to_u32_def)
  qed
qed

end
