(* ===== verification/Xdp_Apply.thy ===== *)
theory Xdp_Apply
  imports Xdp_Pending Kernel_Maps Map_Sizes
begin

text \<open>
  \<^verbatim>\<open>data_plane/xdp/linux/apply.rs\<close> and \<^verbatim>\<open>apply/{write,cleanup}.rs\<close>, with the clock of
  \<^verbatim>\<open>linux/time.rs\<close> and the drop switch of \<^verbatim>\<open>linux/drop_config.rs\<close>: installing a compiled policy.
  The manager's maps are part of its state; the kernel's answers are the environment \<open>xdp_env\<close>
  (which system calls succeed, what a re-attached manager looks like). Every operation returns the
  manager it leaves behind and its result, so the maps after a failed apply are part of the model.
\<close>

section \<open>State\<close>

datatype xdp_attach_mode = ModeAuto | ModeDriver | ModeSkb

datatype xdp_attach_strategy = Direct | Dispatcher

record xdp_attach_options =
  ao_mode :: xdp_attach_mode
  ao_strategy :: xdp_attach_strategy
  ao_allow_replace :: bool
  ao_auto_resize_maps :: bool
  ao_run_priority :: i32

definition default_attach_options :: xdp_attach_options where
  "default_attach_options =
     \<lparr>ao_mode = ModeAuto, ao_strategy = Direct, ao_allow_replace = False,
      ao_auto_resize_maps = True, ao_run_priority = 10\<rparr>"

record linux_xdp_manager =
  xm_interface :: string
  xm_attach_options :: xdp_attach_options
  xm_direct_link :: bool
  xm_rule_cidrs :: "(rule_key_t, rule_value_t) kmap"
  xm_geo_cidrs :: "(geo_key_t, u16) kmap"
  xm_trusted_cidrs :: "(trusted_key_t, u8) kmap"
  xm_country_rules :: "(u32, u8) kmap"
  xm_defense_policy :: defense_value_t
  xm_custom_rate_limits :: "(custom_rate_key_t, custom_rate_value_t) kmap"
  xm_temp_bans :: "(temp_ban_key_t, u64) kmap"
  xm_drop_config :: u8
  xm_map_sizes :: xdp_map_sizes
  xm_locals :: "local_cidr list"

record xdp_env =
  xe_rules :: "(rule_key_t, rule_value_t) kmap_env"
  xe_geo :: "(geo_key_t, u16) kmap_env"
  xe_trusted :: "(trusted_key_t, u8) kmap_env"
  xe_country :: "(u32, u8) kmap_env"
  xe_custom :: "(custom_rate_key_t, custom_rate_value_t) kmap_env"
  xe_temp_bans :: "(temp_ban_key_t, u64) kmap_env"
  xe_set_defense :: bool
  xe_set_drop :: bool
  xe_timespec :: "(i64 \<times> i64) option"
  xe_unload :: bool
  xe_remove_pins :: bool
  xe_attach :: "xdp_map_sizes \<Rightarrow> xdp_attach_options \<Rightarrow> linux_xdp_manager res"

text \<open>\<^verbatim>\<open>monotonic_now_ns\<close>: \<^verbatim>\<open>clock_gettime\<close> may fail, the parts may be negative, the sum may overflow.\<close>

definition monotonic_now_ns :: "(i64 \<times> i64) option \<Rightarrow> u64 res" where
  "monotonic_now_ns ts =
     (case ts of
        None \<Rightarrow> Inl (Internal ''failed to read CLOCK_MONOTONIC'')
      | Some (sec, nsec) \<Rightarrow>
          if sint sec < 0 then Inl (OutOfRange ''CLOCK_MONOTONIC seconds'')
          else if sint nsec < 0 then Inl (OutOfRange ''CLOCK_MONOTONIC nanos'')
          else ok_or ClockOverflow
                 (Option.bind (checked_mul_u64 sec 1000000000) (\<lambda>v. checked_add_u64 v nsec)))"

section \<open>Steps\<close>

text \<open>Sequencing of steps that return the state they leave and a result.\<close>

definition then_step :: "'s \<times> unit res \<Rightarrow> ('s \<Rightarrow> 's \<times> unit res) \<Rightarrow> 's \<times> unit res" where
  "then_step r f = (case snd r of Inl e \<Rightarrow> (fst r, Inl e) | Inr _ \<Rightarrow> f (fst r))"

lemma then_step_Inr_iff [res_simps]:
  "then_step r f = (s', Inr u) \<longleftrightarrow> (\<exists>s. r = (s, Inr ()) \<and> f s = (s', Inr u))"
  by (cases r; cases "snd r") (auto simp: then_step_def)

definition on_map ::
    "('s \<Rightarrow> 'm) \<Rightarrow> ('m \<Rightarrow> 's \<Rightarrow> 's) \<Rightarrow> ('m \<Rightarrow> 'm \<times> unit res) \<Rightarrow> 's \<Rightarrow> 's \<times> unit res" where
  "on_map get_map put_map f s = (let r = f (get_map s) in (put_map (fst r) s, snd r))"

lemma on_map_Inr_iff [res_simps]:
  "on_map get_map put_map f s = (s', Inr u) \<longleftrightarrow>
     (\<exists>m. f (get_map s) = (m, Inr u) \<and> s' = put_map m s)"
  by (cases "f (get_map s)") (auto simp: on_map_def)

definition set_drop_monitor_enabled ::
    "xdp_env \<Rightarrow> bool \<Rightarrow> linux_xdp_manager \<Rightarrow> linux_xdp_manager \<times> unit res" where
  "set_drop_monitor_enabled E enabled m =
     (if xe_set_drop E then (m\<lparr>xm_drop_config := u8_of_bool enabled\<rparr>, Inr ())
      else (m, Inl (MapError ''drop_config'')))"

definition put_dynamic_defense ::
    "xdp_env \<Rightarrow> xdp_dynamic_defense \<Rightarrow> linux_xdp_manager \<Rightarrow> linux_xdp_manager \<times> unit res" where
  "put_dynamic_defense E p m =
     (if xe_set_defense E then (m\<lparr>xm_defense_policy := defense_value p\<rparr>, Inr ())
      else (m, Inl (MapError ''defense_policy'')))"

definition put_temp_bans ::
    "xdp_env \<Rightarrow> datetime \<Rightarrow> u64 \<Rightarrow> (temp_ban_key_t \<times> xdp_temp_ban) list
       \<Rightarrow> linux_xdp_manager \<Rightarrow> linux_xdp_manager \<times> unit res" where
  "put_temp_bans E wall_now mono_now bans =
     on_map xm_temp_bans (\<lambda>x m. m\<lparr>xm_temp_bans := x\<rparr>)
       (kmap_put_each (xe_temp_bans E) ''temp_bans'' fst (\<lambda>(_, b). temp_ban_value b wall_now mono_now) bans)"

definition put_custom_rates ::
    "xdp_env \<Rightarrow> (custom_rate_key_t \<times> xdp_dynamic_rate_limit) list
       \<Rightarrow> linux_xdp_manager \<Rightarrow> linux_xdp_manager \<times> unit res" where
  "put_custom_rates E limits =
     on_map xm_custom_rate_limits (\<lambda>x m. m\<lparr>xm_custom_rate_limits := x\<rparr>)
       (kmap_put_each (xe_custom E) ''custom_rate_limits'' fst
          (\<lambda>(_, l). Inr (Some (custom_rate_value l))) limits)"

definition put_trusted_keys ::
    "xdp_env \<Rightarrow> trusted_key_t list \<Rightarrow> linux_xdp_manager \<Rightarrow> linux_xdp_manager \<times> unit res" where
  "put_trusted_keys E keys =
     on_map xm_trusted_cidrs (\<lambda>x m. m\<lparr>xm_trusted_cidrs := x\<rparr>)
       (kmap_put_each (xe_trusted E) ''trusted_cidrs'' (\<lambda>k. k) (\<lambda>_. Inr (Some 1)) keys)"

definition put_rules ::
    "xdp_env \<Rightarrow> (rule_key_t \<times> xdp_prefix_rule) list
       \<Rightarrow> linux_xdp_manager \<Rightarrow> linux_xdp_manager \<times> unit res" where
  "put_rules E rules =
     on_map xm_rule_cidrs (\<lambda>x m. m\<lparr>xm_rule_cidrs := x\<rparr>)
       (kmap_put_each (xe_rules E) ''rule_cidrs'' fst (\<lambda>(_, r). Inr (Some (rule_value r))) rules)"

definition put_geo_prefixes ::
    "xdp_env \<Rightarrow> (geo_key_t \<times> xdp_geo_prefix) list
       \<Rightarrow> linux_xdp_manager \<Rightarrow> linux_xdp_manager \<times> unit res" where
  "put_geo_prefixes E prefixes =
     on_map xm_geo_cidrs (\<lambda>x m. m\<lparr>xm_geo_cidrs := x\<rparr>)
       (kmap_put_each (xe_geo E) ''geo_cidrs'' fst (\<lambda>(_, g). Inr (Some (geo_value g))) prefixes)"

definition put_country_rules ::
    "xdp_env \<Rightarrow> (u32 \<times> xdp_country_rule) list
       \<Rightarrow> linux_xdp_manager \<Rightarrow> linux_xdp_manager \<times> unit res" where
  "put_country_rules E rules =
     on_map xm_country_rules (\<lambda>x m. m\<lparr>xm_country_rules := x\<rparr>)
       (kmap_put_each (xe_country E) ''country_rules'' fst (\<lambda>(_, c). Inr (Some (country_value c))) rules)"

definition remove_stale_rule_keys ::
    "xdp_env \<Rightarrow> l4_id set \<Rightarrow> linux_xdp_manager \<Rightarrow> linux_xdp_manager \<times> unit res" where
  "remove_stale_rule_keys E ids =
     on_map xm_rule_cidrs (\<lambda>x m. m\<lparr>xm_rule_cidrs := x\<rparr>)
       (kmap_remove_stale (xe_rules E) ''rule_cidrs'' rule_key_id ids)"

definition remove_stale_geo_keys ::
    "xdp_env \<Rightarrow> l3_id set \<Rightarrow> linux_xdp_manager \<Rightarrow> linux_xdp_manager \<times> unit res" where
  "remove_stale_geo_keys E ids =
     on_map xm_geo_cidrs (\<lambda>x m. m\<lparr>xm_geo_cidrs := x\<rparr>)
       (kmap_remove_stale (xe_geo E) ''geo_cidrs'' geo_key_id ids)"

definition remove_stale_trusted_keys ::
    "xdp_env \<Rightarrow> l3_id set \<Rightarrow> linux_xdp_manager \<Rightarrow> linux_xdp_manager \<times> unit res" where
  "remove_stale_trusted_keys E ids =
     on_map xm_trusted_cidrs (\<lambda>x m. m\<lparr>xm_trusted_cidrs := x\<rparr>)
       (kmap_remove_stale (xe_trusted E) ''trusted_cidrs'' trusted_key_id ids)"

definition remove_stale_country_keys ::
    "xdp_env \<Rightarrow> u32 set \<Rightarrow> linux_xdp_manager \<Rightarrow> linux_xdp_manager \<times> unit res" where
  "remove_stale_country_keys E ids =
     on_map xm_country_rules (\<lambda>x m. m\<lparr>xm_country_rules := x\<rparr>)
       (kmap_remove_stale (xe_country E) ''country_rules'' (\<lambda>k. k) ids)"

definition remove_stale_custom_rate_keys ::
    "xdp_env \<Rightarrow> (u8 \<times> u16) set \<Rightarrow> linux_xdp_manager \<Rightarrow> linux_xdp_manager \<times> unit res" where
  "remove_stale_custom_rate_keys E ids =
     on_map xm_custom_rate_limits (\<lambda>x m. m\<lparr>xm_custom_rate_limits := x\<rparr>)
       (kmap_remove_stale (xe_custom E) ''custom_rate_limits'' custom_rate_key_id ids)"

definition remove_stale_temp_ban_keys ::
    "xdp_env \<Rightarrow> l4_id set \<Rightarrow> linux_xdp_manager \<Rightarrow> linux_xdp_manager \<times> unit res" where
  "remove_stale_temp_ban_keys E ids =
     on_map xm_temp_bans (\<lambda>x m. m\<lparr>xm_temp_bans := x\<rparr>)
       (kmap_remove_stale (xe_temp_bans E) ''temp_bans'' temp_ban_key_id ids)"

definition remove_stale_policy_keys ::
    "xdp_env \<Rightarrow> pending_policy_keys \<Rightarrow> linux_xdp_manager \<Rightarrow> linux_xdp_manager \<times> unit res" where
  "remove_stale_policy_keys E pk m =
     then_step (remove_stale_rule_keys E (pk_rule_ids pk) m) (\<lambda>m.
     then_step (remove_stale_geo_keys E (pk_geo_ids pk) m) (\<lambda>m.
     then_step (remove_stale_trusted_keys E (pk_trusted_ids pk) m) (\<lambda>m.
     then_step (remove_stale_country_keys E (pk_country_ids pk) m) (\<lambda>m.
     then_step (remove_stale_custom_rate_keys E (pk_custom_rate_ids pk) m) (\<lambda>m.
     remove_stale_temp_ban_keys E (pk_temp_ban_ids pk) m)))))"

definition required_policy_map_sizes ::
    "ipnet_lib \<Rightarrow> linux_xdp_manager \<Rightarrow> compiled_policy \<Rightarrow> xdp_map_sizes res" where
  "required_policy_map_sizes N m p =
     (let country_total = card (xc_country ` set (cp_country_rules p)) in
      bindE (ok_or (CapacityOverflow ''rule entry count'')
               (checked_usize_add (length (cp_rules p)) (length (cp_threat_prefixes p)))) (\<lambda>rule_total.
      bindE (usize_to_u32 ''rule_cidrs'' rule_total) (\<lambda>rules.
      bindE (usize_to_u32 ''geo_cidrs'' (length (cp_geo_prefixes p))) (\<lambda>geo.
      bindE (usize_to_u32 ''trusted_cidrs''
               (length (compact_trusted_prefixes N (cp_trusted_prefixes p)))) (\<lambda>trusted.
      bindE (usize_to_u32 ''country_rules'' country_total) (\<lambda>countries.
      bindE (usize_to_u32 ''custom_rate_limits'' (length (cp_dynamic_rate_limits p))) (\<lambda>custom.
      bindE (usize_to_u32 ''temp_bans'' (length (compact_temp_bans N (cp_temp_bans p)))) (\<lambda>bans.
      Inr \<lparr>rule_entries = rules, geo_entries = geo, trusted_entries = trusted,
           country_entries = countries, rate_entries = rate_entries (xm_map_sizes m),
           custom_rate_limit_entries = custom, temp_ban_entries = bans\<rparr>))))))))"

definition put_pending ::
    "xdp_env \<Rightarrow> datetime \<Rightarrow> u64 \<Rightarrow> pending_policy_keys \<Rightarrow> linux_xdp_manager
       \<Rightarrow> linux_xdp_manager \<times> unit res" where
  "put_pending E wall_now mono_now pk m =
     then_step (put_temp_bans E wall_now mono_now (pk_temp_bans pk) m) (\<lambda>m.
     then_step (put_custom_rates E (pk_custom_rate_limits pk) m) (\<lambda>m.
     then_step (put_trusted_keys E (pk_trusted_keys pk) m) (\<lambda>m.
     then_step (put_rules E (pk_rules pk) m) (\<lambda>m.
     then_step (put_geo_prefixes E (pk_geo_prefixes pk) m) (\<lambda>m.
     put_country_rules E (pk_country_rules pk) m)))))"

definition apply_to_current_maps ::
    "ipnet_lib \<Rightarrow> xdp_env \<Rightarrow> datetime \<Rightarrow> compiled_policy \<Rightarrow> linux_xdp_manager
       \<Rightarrow> linux_xdp_manager \<times> unit res" where
  "apply_to_current_maps N E wall_now p m =
     (case bindE (required_policy_map_sizes N m p) (\<lambda>required.
             validate_map_capacity required (xm_map_sizes m)) of
        Inl e \<Rightarrow> (m, Inl e)
      | Inr _ \<Rightarrow>
          then_step (put_dynamic_defense E (cp_dynamic_defense p) m) (\<lambda>m.
          (case monotonic_now_ns (xe_timespec E) of
             Inl e \<Rightarrow> (m, Inl e)
           | Inr mono_now \<Rightarrow>
               (let pk = build_pending_policy_keys N (xm_locals m) p wall_now in
                then_step (put_pending E wall_now mono_now pk m) (remove_stale_policy_keys E pk)))))"

section \<open>Resizing\<close>

definition detach_and_remove_pinned_maps_for_resize ::
    "xdp_env \<Rightarrow> linux_xdp_manager \<Rightarrow> linux_xdp_manager \<times> unit res" where
  "detach_and_remove_pinned_maps_for_resize E m =
     then_step
       (case ao_strategy (xm_attach_options m) of
          Direct \<Rightarrow> (m\<lparr>xm_direct_link := False\<rparr>, Inr ())
        | Dispatcher \<Rightarrow>
            (if xe_unload E then (m, Inr ()) else (m, Inl (AttachFailed ''unload''))))
       (\<lambda>m. if xe_remove_pins E then (m, Inr ()) else (m, Inl (AttachFailed ''remove pins'')))"

definition resize_maps ::
    "xdp_env \<Rightarrow> xdp_map_sizes \<Rightarrow> linux_xdp_manager \<Rightarrow> linux_xdp_manager \<times> unit res" where
  "resize_maps E resized m =
     then_step (detach_and_remove_pinned_maps_for_resize E m) (\<lambda>m.
       (case xe_attach E resized (xm_attach_options m) of
          Inl e \<Rightarrow> (m, Inl e)
        | Inr replacement \<Rightarrow> (replacement, Inr ())))"

definition apply_policy ::
    "ipnet_lib \<Rightarrow> xdp_env \<Rightarrow> datetime \<Rightarrow> compiled_policy \<Rightarrow> linux_xdp_manager
       \<Rightarrow> linux_xdp_manager \<times> unit res" where
  "apply_policy N E wall_now p m =
     (case required_policy_map_sizes N m p of
        Inl e \<Rightarrow> (m, Inl e)
      | Inr required \<Rightarrow>
          (case resized_map_sizes (xm_map_sizes m) required of
             Inl e \<Rightarrow> (m, Inl e)
           | Inr None \<Rightarrow> apply_to_current_maps N E wall_now p m
           | Inr (Some resized) \<Rightarrow>
               then_step
                 (case (if \<not> ao_auto_resize_maps (xm_attach_options m)
                        then validate_map_capacity required (xm_map_sizes m) else Inr ()) of
                    Inl e \<Rightarrow> (m, Inl e)
                  | Inr _ \<Rightarrow> resize_maps E resized m)
                 (apply_to_current_maps N E wall_now p)))"

end
