(* ===== verification/Xdp_Install.thy ===== *)
theory Xdp_Install
  imports Xdp_Apply
begin

text \<open>
  What applying a policy leaves in the maps. The write and clean-up passes of one map are put
  together once (\<open>refreshed\<close>), and the six maps are its instances.
\<close>

section \<open>One map\<close>

lemma refreshed:
  assumes sep: "separates key_id key"
    and r: "r = unique_by (\<lambda>x. key_id (key x)) {} xs"
    and ps: "ps = map (\<lambda>x. (key x, x)) (snd r)"
    and put: "kmap_put_each E nm fst (\<lambda>(_, x). f x) ps m = (m1, Inr u)"
    and stale: "kmap_remove_stale E nm key_id (fst r) m1 = (m2, Inr u')"
  shows "find (\<lambda>x. key x = key y) xs = Some x \<Longrightarrow> f x = Inr (Some v) \<Longrightarrow> map_of m2 (key y) = Some v"
    and "find (\<lambda>x. key x = key y) xs = Some x \<Longrightarrow> f x = Inr None \<Longrightarrow> map_of m2 (key y) = map_of m (key y)"
    and "find (\<lambda>x. key x = key y) xs = None \<Longrightarrow> map_of m2 (key y) = None"
    and "key_id k \<notin> (\<lambda>x. key_id (key x)) ` set xs \<Longrightarrow> map_of m2 k = None"
proof -
  note u = unique_pending [OF sep r ps]
  have ids: "fst r = (\<lambda>q. key_id (fst q)) ` set ps" using u(1) by (simp add: image_image)
  note ex = kmap_refresh_exact [OF put stale ids u(2)]
  have hit: "(key y, x) \<in> set ps" if "find (\<lambda>x. key x = key y) xs = Some x" for x
    using u(5) [of y] that by (intro map_of_SomeD) simp
  show "find (\<lambda>x. key x = key y) xs = Some x \<Longrightarrow> f x = Inr (Some v) \<Longrightarrow> map_of m2 (key y) = Some v"
    using ex(1) [OF hit, of x v] by simp
  show "find (\<lambda>x. key x = key y) xs = Some x \<Longrightarrow> f x = Inr None \<Longrightarrow> map_of m2 (key y) = map_of m (key y)"
    using ex(2) [OF hit, of x] by simp
  have r1: "fst r = (\<lambda>x. key_id (key x)) ` set xs" by (simp add: r)
  show none: "key_id k \<notin> (\<lambda>x. key_id (key x)) ` set xs \<Longrightarrow> map_of m2 k = None" for k
    using ex(3) [of k] r1 by simp
  show "find (\<lambda>x. key x = key y) xs = None \<Longrightarrow> map_of m2 (key y) = None"
  proof (rule none)
    assume n: "find (\<lambda>x. key x = key y) xs = None"
    then show "key_id (key y) \<notin> (\<lambda>x. key_id (key x)) ` set xs"
      using sep unfolding find_None_iff separates_def by auto
  qed
qed

section \<open>All maps\<close>

lemma apply_current_steps:
  assumes "apply_to_current_maps N E now p m = (m', Inr u)"
  obtains clock pk where "monotonic_now_ns (xe_timespec E) = Inr clock"
    and "pk = build_pending_policy_keys N (xm_locals m) p now"
    and "\<exists>b. kmap_put_each (xe_temp_bans E) ''temp_bans'' fst (\<lambda>(_, x). temp_ban_value x now clock)
                (pk_temp_bans pk) (xm_temp_bans m) = (b, Inr ()) \<and>
             kmap_remove_stale (xe_temp_bans E) ''temp_bans'' temp_ban_key_id (pk_temp_ban_ids pk) b
               = (xm_temp_bans m', Inr ())"
    and "\<exists>b. kmap_put_each (xe_custom E) ''custom_rate_limits'' fst (\<lambda>(_, x). Inr (Some (custom_rate_value x)))
                (pk_custom_rate_limits pk) (xm_custom_rate_limits m) = (b, Inr ()) \<and>
             kmap_remove_stale (xe_custom E) ''custom_rate_limits'' custom_rate_key_id (pk_custom_rate_ids pk) b
               = (xm_custom_rate_limits m', Inr ())"
    and "\<exists>b. kmap_put_each (xe_trusted E) ''trusted_cidrs'' (\<lambda>k. k) (\<lambda>_. Inr (Some 1))
                (pk_trusted_keys pk) (xm_trusted_cidrs m) = (b, Inr ()) \<and>
             kmap_remove_stale (xe_trusted E) ''trusted_cidrs'' trusted_key_id (pk_trusted_ids pk) b
               = (xm_trusted_cidrs m', Inr ())"
    and "\<exists>b. kmap_put_each (xe_rules E) ''rule_cidrs'' fst (\<lambda>(_, x). Inr (Some (rule_value x)))
                (pk_rules pk) (xm_rule_cidrs m) = (b, Inr ()) \<and>
             kmap_remove_stale (xe_rules E) ''rule_cidrs'' rule_key_id (pk_rule_ids pk) b
               = (xm_rule_cidrs m', Inr ())"
    and "\<exists>b. kmap_put_each (xe_geo E) ''geo_cidrs'' fst (\<lambda>(_, x). Inr (Some (geo_value x)))
                (pk_geo_prefixes pk) (xm_geo_cidrs m) = (b, Inr ()) \<and>
             kmap_remove_stale (xe_geo E) ''geo_cidrs'' geo_key_id (pk_geo_ids pk) b
               = (xm_geo_cidrs m', Inr ())"
    and "\<exists>b. kmap_put_each (xe_country E) ''country_rules'' fst (\<lambda>(_, x). Inr (Some (country_value x)))
                (pk_country_rules pk) (xm_country_rules m) = (b, Inr ()) \<and>
             kmap_remove_stale (xe_country E) ''country_rules'' (\<lambda>k. k) (pk_country_ids pk) b
               = (xm_country_rules m', Inr ())"
    and "xm_defense_policy m' = defense_value (cp_dynamic_defense p)"
    and "xm_locals m' = xm_locals m" and "xm_map_sizes m' = xm_map_sizes m"
    and "xm_drop_config m' = xm_drop_config m"
    and "\<exists>req. required_policy_map_sizes N m p = Inr req \<and> fits req (xm_map_sizes m)"
proof -
  let ?pk = "build_pending_policy_keys N (xm_locals m) p now"
  obtain clock where c0: "monotonic_now_ns (xe_timespec E) = Inr clock"
    using assms by (cases "monotonic_now_ns (xe_timespec E)")
      (auto simp: apply_to_current_maps_def res_simps then_step_def split: sum.splits)
  from assms c0 obtain req where c: "monotonic_now_ns (xe_timespec E) = Inr clock"
    and req: "required_policy_map_sizes N m p = Inr req" "fits req (xm_map_sizes m)"
    and st: "then_step (put_pending E now clock ?pk
               (m\<lparr>xm_defense_policy := defense_value (cp_dynamic_defense p)\<rparr>))
               (remove_stale_policy_keys E ?pk) = (m', Inr ())"
    by (auto simp: apply_to_current_maps_def put_dynamic_defense_def res_simps Let_def
        validate_map_capacity_iff then_step_def split: sum.splits if_splits)
  show ?thesis
    by (rule that [OF c refl])
       (use st req in \<open>auto simp: res_simps put_pending_def remove_stale_policy_keys_def
          put_temp_bans_def put_custom_rates_def put_trusted_keys_def put_rules_def
          put_geo_prefixes_def put_country_rules_def remove_stale_rule_keys_def
          remove_stale_geo_keys_def remove_stale_trusted_keys_def remove_stale_country_keys_def
          remove_stale_custom_rate_keys_def remove_stale_temp_ban_keys_def\<close>)
qed

section \<open>The maps after a successful apply\<close>

lemma pending_fields:
  fixes N :: ipnet_lib and locals :: "local_cidr list" and p :: compiled_policy and now :: datetime
  defines "pk \<equiv> build_pending_policy_keys N locals p now"
  shows "pk_rules pk = snd (pending_rules N locals p)" "pk_rule_ids pk = fst (pending_rules N locals p)"
    and "pk_temp_bans pk = snd (pending_temp_bans N locals (cp_temp_bans p) now)"
    and "pk_temp_ban_ids pk = fst (pending_temp_bans N locals (cp_temp_bans p) now)"
    and "pk_geo_prefixes pk = snd (pending_geo_prefixes (cp_geo_prefixes p))"
    and "pk_geo_ids pk = fst (pending_geo_prefixes (cp_geo_prefixes p))"
    and "pk_country_rules pk = snd (pending_country_rules (cp_country_rules p))"
    and "pk_country_ids pk = fst (pending_country_rules (cp_country_rules p))"
    and "pk_custom_rate_limits pk = snd (pending_custom_rate_limits (cp_dynamic_rate_limits p))"
    and "pk_custom_rate_ids pk = fst (pending_custom_rate_limits (cp_dynamic_rate_limits p))"
    and "pk_trusted_keys pk = snd (pending_trusted_keys N (cp_trusted_prefixes p))"
    and "pk_trusted_ids pk = fst (pending_trusted_keys N (cp_trusted_prefixes p))"
  by (simp_all add: pk_def build_pending_policy_keys_def Let_def)

lemma apply_map_steps:
  assumes a: "apply_to_current_maps N E now p m = (m', Inr u)"
  shows "\<exists>b. kmap_put_each (xe_rules E) ''rule_cidrs'' fst (\<lambda>(_, x). Inr (Some (rule_value x)))
                (snd (pending_rules N (xm_locals m) p)) (xm_rule_cidrs m) = (b, Inr ()) \<and>
             kmap_remove_stale (xe_rules E) ''rule_cidrs'' rule_key_id
               (fst (pending_rules N (xm_locals m) p)) b = (xm_rule_cidrs m', Inr ())"
    and "\<exists>clock b. monotonic_now_ns (xe_timespec E) = Inr clock \<and>
             kmap_put_each (xe_temp_bans E) ''temp_bans'' fst (\<lambda>(_, x). temp_ban_value x now clock)
                (snd (pending_temp_bans N (xm_locals m) (cp_temp_bans p) now)) (xm_temp_bans m) = (b, Inr ()) \<and>
             kmap_remove_stale (xe_temp_bans E) ''temp_bans'' temp_ban_key_id
               (fst (pending_temp_bans N (xm_locals m) (cp_temp_bans p) now)) b = (xm_temp_bans m', Inr ())"
    and "\<exists>b. kmap_put_each (xe_geo E) ''geo_cidrs'' fst (\<lambda>(_, x). Inr (Some (geo_value x)))
                (snd (pending_geo_prefixes (cp_geo_prefixes p))) (xm_geo_cidrs m) = (b, Inr ()) \<and>
             kmap_remove_stale (xe_geo E) ''geo_cidrs'' geo_key_id
               (fst (pending_geo_prefixes (cp_geo_prefixes p))) b = (xm_geo_cidrs m', Inr ())"
    and "\<exists>b. kmap_put_each (xe_country E) ''country_rules'' fst (\<lambda>(_, x). Inr (Some (country_value x)))
                (snd (pending_country_rules (cp_country_rules p))) (xm_country_rules m) = (b, Inr ()) \<and>
             kmap_remove_stale (xe_country E) ''country_rules'' (\<lambda>k. k)
               (fst (pending_country_rules (cp_country_rules p))) b = (xm_country_rules m', Inr ())"
    and "\<exists>b. kmap_put_each (xe_custom E) ''custom_rate_limits'' fst (\<lambda>(_, x). Inr (Some (custom_rate_value x)))
                (snd (pending_custom_rate_limits (cp_dynamic_rate_limits p))) (xm_custom_rate_limits m) = (b, Inr ()) \<and>
             kmap_remove_stale (xe_custom E) ''custom_rate_limits'' custom_rate_key_id
               (fst (pending_custom_rate_limits (cp_dynamic_rate_limits p))) b = (xm_custom_rate_limits m', Inr ())"
    and "\<exists>b. kmap_put_each (xe_trusted E) ''trusted_cidrs'' (\<lambda>k. k) (\<lambda>_. Inr (Some 1))
                (snd (pending_trusted_keys N (cp_trusted_prefixes p))) (xm_trusted_cidrs m) = (b, Inr ()) \<and>
             kmap_remove_stale (xe_trusted E) ''trusted_cidrs'' trusted_key_id
               (fst (pending_trusted_keys N (cp_trusted_prefixes p))) b = (xm_trusted_cidrs m', Inr ())"
    and "xm_defense_policy m' = defense_value (cp_dynamic_defense p)"
    and "xm_locals m' = xm_locals m" and "xm_map_sizes m' = xm_map_sizes m"
    and "xm_drop_config m' = xm_drop_config m"
    and "\<exists>req. required_policy_map_sizes N m p = Inr req \<and> fits req (xm_map_sizes m)"
  by (rule apply_current_steps [OF a], simp only: pending_fields simp_thms; blast)+

text \<open>An optional lookup by key, in the order the code prefers the entries.\<close>

lemma find_key_cases:
  obtains (none) "find (\<lambda>x. key x = k) xs = None" and "k \<notin> key ` set xs"
  | (some) y where "k = key y" and "find (\<lambda>x. key x = k) xs = Some y"
proof (cases "find (\<lambda>x. key x = k) xs")
  case None
  then show ?thesis using none by (auto simp: find_None_iff)
next
  case (Some y)
  then show ?thesis using some by (auto simp: find_Some_iff)
qed

lemma refreshed_total:
  assumes sep: "separates key_id key"
    and q: "q = fold (collect_first key key_id) xs ({}, [])"
    and put: "kmap_put_each E nm fst (\<lambda>(_, x). Inr (Some (g x))) (snd q) m = (m1, Inr u)"
    and stale: "kmap_remove_stale E nm key_id (fst q) m1 = (m2, Inr u')"
  shows "map_of m2 (key y) = map_option g (find (\<lambda>x. key x = key y) xs)"
    and "key_id k \<notin> (\<lambda>x. key_id (key x)) ` set xs \<Longrightarrow> map_of m2 k = None"
proof -
  let ?r = "unique_by (\<lambda>x. key_id (key x)) {} xs"
  have qr: "fst q = fst ?r" "snd q = map (\<lambda>x. (key x, x)) (snd ?r)"
    by (simp_all add: q fold_collect_first Let_def)
  note rf = refreshed [OF sep refl refl put [unfolded qr] stale [unfolded qr]]
  show "key_id k \<notin> (\<lambda>x. key_id (key x)) ` set xs \<Longrightarrow> map_of m2 k = None" by (rule rf(4))
  show "map_of m2 (key y) = map_option g (find (\<lambda>x. key x = key y) xs)"
  proof (cases "find (\<lambda>x. key x = key y) xs")
    case None
    then show ?thesis using rf(3) by simp
  next
    case (Some x)
    then show ?thesis using rf(1) [OF Some] by simp
  qed
qed

lemma pending_rules_fold:
  "pending_rules N locals p = fold (collect_first xr_key rule_key_id) (installable_rules N locals p) ({}, [])"
  by (simp add: pending_rules_def installable_rules_def collect_rule_eq fold_skip)

lemma pending_temp_bans_fold:
  "pending_temp_bans N locals bans now =
     fold (collect_first xb_key temp_ban_key_id) (installable_bans N locals now bans) ({}, [])"
  by (simp add: pending_temp_bans_def installable_bans_def collect_temp_ban_eq fold_skip)

lemma installed_rule:
  assumes "apply_to_current_maps N E now p m = (m', Inr u)"
  shows "map_of (xm_rule_cidrs m') k =
         map_option rule_value (find (\<lambda>r. xr_key r = k) (installable_rules N (xm_locals m) p))"
proof -
  let ?xs = "installable_rules N (xm_locals m) p"
  from apply_map_steps(1) [OF assms] obtain b where
    put: "kmap_put_each (xe_rules E) ''rule_cidrs'' fst (\<lambda>(_, x). Inr (Some (rule_value x)))
            (snd (pending_rules N (xm_locals m) p)) (xm_rule_cidrs m) = (b, Inr ())"
    and stale: "kmap_remove_stale (xe_rules E) ''rule_cidrs'' rule_key_id
            (fst (pending_rules N (xm_locals m) p)) b = (xm_rule_cidrs m', Inr ())"
    by blast
  note rf = refreshed_total [OF separates_keys(1) pending_rules_fold put stale]
  show ?thesis
  proof (cases rule: find_key_cases [of xr_key k ?xs])
    case none
    then have "rule_key_id k \<notin> (\<lambda>x. rule_key_id (xr_key x)) ` set ?xs"
      by (auto dest: rule_key_id_inj)
    then show ?thesis using rf(2) none by simp
  next
    case (some y)
    then show ?thesis using rf(1) [of y] by simp
  qed
qed

lemma installed_geo:
  assumes "apply_to_current_maps N E now p m = (m', Inr u)"
  shows "map_of (xm_geo_cidrs m') (xg_key y) =
         map_option xg_country (find (\<lambda>x. xg_key x = xg_key y) (cp_geo_prefixes p))"
proof -
  from apply_map_steps(3) [OF assms] obtain b where
    put: "kmap_put_each (xe_geo E) ''geo_cidrs'' fst (\<lambda>(_, x). Inr (Some (geo_value x)))
            (snd (pending_geo_prefixes (cp_geo_prefixes p))) (xm_geo_cidrs m) = (b, Inr ())"
    and stale: "kmap_remove_stale (xe_geo E) ''geo_cidrs'' geo_key_id
            (fst (pending_geo_prefixes (cp_geo_prefixes p))) b = (xm_geo_cidrs m', Inr ())"
    by blast
  show ?thesis
    using refreshed_total(1) [OF separates_keys(3) pending_geo_prefixes_def put stale]
    by (simp add: geo_value_def [abs_def])
qed

lemma installed_country:
  assumes "apply_to_current_maps N E now p m = (m', Inr u)"
  shows "map_of (xm_country_rules m') k =
         map_option country_value (find (\<lambda>c. country_key (xc_country c) = k) (cp_country_rules p))"
proof -
  from apply_map_steps(4) [OF assms] obtain b where
    put: "kmap_put_each (xe_country E) ''country_rules'' fst (\<lambda>(_, x). Inr (Some (country_value x)))
            (snd (pending_country_rules (cp_country_rules p))) (xm_country_rules m) = (b, Inr ())"
    and stale: "kmap_remove_stale (xe_country E) ''country_rules'' (\<lambda>k. k)
            (fst (pending_country_rules (cp_country_rules p))) b = (xm_country_rules m', Inr ())"
    by blast
  note rf = refreshed_total [OF separates_keys(6) pending_country_rules_def put stale]
  show ?thesis
  proof (cases rule: find_key_cases [of "\<lambda>c. country_key (xc_country c)" k "cp_country_rules p"])
    case none
    then show ?thesis using rf(2) [of k] by simp
  next
    case (some y)
    then show ?thesis using rf(1) [of y] by simp
  qed
qed

lemma installed_custom_rate:
  assumes "apply_to_current_maps N E now p m = (m', Inr u)"
  shows "map_of (xm_custom_rate_limits m') (xl_key y) =
         map_option custom_rate_value (find (\<lambda>l. xl_key l = xl_key y) (cp_dynamic_rate_limits p))"
proof -
  from apply_map_steps(5) [OF assms] obtain b where
    put: "kmap_put_each (xe_custom E) ''custom_rate_limits'' fst (\<lambda>(_, x). Inr (Some (custom_rate_value x)))
            (snd (pending_custom_rate_limits (cp_dynamic_rate_limits p))) (xm_custom_rate_limits m) = (b, Inr ())"
    and stale: "kmap_remove_stale (xe_custom E) ''custom_rate_limits'' custom_rate_key_id
            (fst (pending_custom_rate_limits (cp_dynamic_rate_limits p))) b = (xm_custom_rate_limits m', Inr ())"
    by blast
  show ?thesis
    using refreshed_total(1) [OF separates_keys(5) pending_custom_rate_limits_def put stale] .
qed

lemma installed_trusted:
  assumes "apply_to_current_maps N E now p m = (m', Inr u)"
  shows "map_of (xm_trusted_cidrs m') (xt_key y) =
         map_option (\<lambda>_. 1) (find (\<lambda>x. xt_key x = xt_key y) (compact_trusted_prefixes N (cp_trusted_prefixes p)))"
proof -
  let ?q = "fold (collect_first xt_key trusted_key_id)
              (compact_trusted_prefixes N (cp_trusted_prefixes p)) ({}, [])"
  from apply_map_steps(6) [OF assms] obtain b where
    put: "kmap_put_each (xe_trusted E) ''trusted_cidrs'' (\<lambda>k. k) (\<lambda>_. Inr (Some 1))
            (map fst (snd ?q)) (xm_trusted_cidrs m) = (b, Inr ())"
    and stale: "kmap_remove_stale (xe_trusted E) ''trusted_cidrs'' trusted_key_id (fst ?q) b
            = (xm_trusted_cidrs m', Inr ())"
    by (auto simp: pending_trusted_keys_def Let_def)
  have put': "kmap_put_each (xe_trusted E) ''trusted_cidrs'' fst (\<lambda>(_, x). Inr (Some ((\<lambda>_. 1) x)))
            (snd ?q) (xm_trusted_cidrs m) = (b, Inr ())"
    using put unfolding kmap_put_each_map by (simp add: case_prod_unfold)
  show ?thesis
    using refreshed_total(1) [OF separates_keys(4) refl put' stale] .
qed

text \<open>
  A ban whose remaining time does not fit \<^verbatim>\<open>i64\<close> nanoseconds is skipped by the write pass and kept by
  the clean-up pass, so its key holds what it held before.
\<close>

lemma installed_ban:
  assumes a: "apply_to_current_maps N E now p m = (m', Inr u)"
    and c: "monotonic_now_ns (xe_timespec E) = Inr clock"
  shows "find (\<lambda>b. xb_key b = k) (installable_bans N (xm_locals m) now (cp_temp_bans p)) = None
           \<Longrightarrow> map_of (xm_temp_bans m') k = None"
    and "find (\<lambda>b. xb_key b = k) (installable_bans N (xm_locals m) now (cp_temp_bans p)) = Some b
           \<Longrightarrow> temp_ban_value b now clock = Inr (Some v) \<Longrightarrow> map_of (xm_temp_bans m') k = Some v"
    and "find (\<lambda>b. xb_key b = k) (installable_bans N (xm_locals m) now (cp_temp_bans p)) = Some b
           \<Longrightarrow> temp_ban_value b now clock = Inr None
           \<Longrightarrow> map_of (xm_temp_bans m') k = map_of (xm_temp_bans m) k"
proof -
  let ?xs = "installable_bans N (xm_locals m) now (cp_temp_bans p)"
  let ?r = "unique_by (\<lambda>x. temp_ban_key_id (xb_key x)) {} ?xs"
  have q: "fst (pending_temp_bans N (xm_locals m) (cp_temp_bans p) now) = fst ?r"
    "snd (pending_temp_bans N (xm_locals m) (cp_temp_bans p) now) = map (\<lambda>x. (xb_key x, x)) (snd ?r)"
    by (simp_all add: pending_temp_bans_unique Let_def)
  from apply_map_steps(2) [OF a] c obtain d where
    put: "kmap_put_each (xe_temp_bans E) ''temp_bans'' fst (\<lambda>(_, x). temp_ban_value x now clock)
            (map (\<lambda>x. (xb_key x, x)) (snd ?r)) (xm_temp_bans m) = (d, Inr ())"
    and stale: "kmap_remove_stale (xe_temp_bans E) ''temp_bans'' temp_ban_key_id (fst ?r) d
            = (xm_temp_bans m', Inr ())"
    unfolding q by auto
  note rf = refreshed [OF separates_keys(2) refl refl put stale]
  have hit: "xb_key y = k" if "find (\<lambda>b. xb_key b = k) ?xs = Some y" for y
    using that by (auto simp: find_Some_iff)
  show "find (\<lambda>b. xb_key b = k) ?xs = None \<Longrightarrow> map_of (xm_temp_bans m') k = None"
  proof (rule rf(4))
    assume "find (\<lambda>b. xb_key b = k) ?xs = None"
    then have "k \<notin> xb_key ` set ?xs" by (auto simp: find_None_iff)
    then show "temp_ban_key_id k \<notin> (\<lambda>x. temp_ban_key_id (xb_key x)) ` set ?xs"
      using temp_ban_key_id_inj by (metis (mono_tags, lifting) imageE imageI)
  qed
  show "find (\<lambda>b. xb_key b = k) ?xs = Some b
      \<Longrightarrow> temp_ban_value b now clock = Inr (Some v) \<Longrightarrow> map_of (xm_temp_bans m') k = Some v"
    using rf(1) [of b b v] by (metis hit)
  show "find (\<lambda>b. xb_key b = k) ?xs = Some b
      \<Longrightarrow> temp_ban_value b now clock = Inr None
      \<Longrightarrow> map_of (xm_temp_bans m') k = map_of (xm_temp_bans m) k"
    using rf(2) [of b b] by (metis hit)
qed

end
