(* ===== verification/Xdp_Program.thy ===== *)
theory Xdp_Program
  imports Xdp_Apply
begin

text \<open>
  The kernel program, \<^verbatim>\<open>bpf/xdp_firewall.c\<close>: packet parsing, the four-step lookups, temporary bans,
  token buckets and the verdict, over the maps the agent installs (the map fields of
  \<open>linux_xdp_manager\<close>). What the kernel provides is the environment \<open>bpf_env\<close>: the longest-prefix
  lookups, the clock readings (one per call of \<^verbatim>\<open>bpf_ktime_get_ns\<close>) and the insertion into the LRU
  map of buckets. The locale \<open>lpm_trie\<close> states the documented law of a longest-prefix lookup;
  \<open>lpm_find\<close> is an executable instance. Ports are kept as the program keeps them, in network byte
  order.
\<close>

section \<open>Longest-prefix lookup\<close>

definition lpm_matches :: "('d \<Rightarrow> bool list) \<Rightarrow> 'd lpm_key \<Rightarrow> 'd lpm_key \<Rightarrow> bool" where
  "lpm_matches bits e k \<longleftrightarrow> unat (lpm_prefix e) \<le> unat (lpm_prefix k) \<and>
     take (unat (lpm_prefix e)) (bits (lpm_data e)) = take (unat (lpm_prefix e)) (bits (lpm_data k))"

locale lpm_trie =
  fixes bits :: "'d \<Rightarrow> bool list" and look :: "('d lpm_key, 'v) kmap \<Rightarrow> 'd lpm_key \<Rightarrow> 'v option"
  assumes look_None: "distinct (map fst m) \<Longrightarrow>
      look m k = None \<longleftrightarrow> (\<forall>e\<in>kmap_dom m. \<not> lpm_matches bits e k)"
    and look_Some: "distinct (map fst m) \<Longrightarrow> look m k = Some v \<Longrightarrow>
      \<exists>e. map_of m e = Some v \<and> lpm_matches bits e k \<and>
          (\<forall>e'\<in>kmap_dom m. lpm_matches bits e' k \<longrightarrow> unat (lpm_prefix e') \<le> unat (lpm_prefix e))"
begin

lemma look_total:
  assumes "distinct (map fst m)" and "e \<in> kmap_dom m" and "lpm_matches bits e k"
  obtains e' v where "look m k = Some v" and "map_of m e' = Some v" and "lpm_matches bits e' k"
    and "unat (lpm_prefix e) \<le> unat (lpm_prefix e')"
proof -
  have "look m k \<noteq> None" using look_None [OF assms(1)] assms(2, 3) by auto
  then obtain v where v: "look m k = Some v" by auto
  with look_Some [OF assms(1) v] assms(2, 3) that show ?thesis by blast
qed

end

text \<open>The instance: scan the entries, keep the longest match.\<close>

primrec lpm_scan ::
    "('d \<Rightarrow> bool list) \<Rightarrow> 'd lpm_key \<Rightarrow> ('d lpm_key, 'v) kmap \<Rightarrow> ('d lpm_key \<times> 'v) option" where
  "lpm_scan bits k [] = None"
| "lpm_scan bits k (e # es) =
     (case lpm_scan bits k es of
        None \<Rightarrow> if lpm_matches bits (fst e) k then Some e else None
      | Some b \<Rightarrow>
          if lpm_matches bits (fst e) k \<and> unat (lpm_prefix (fst b)) < unat (lpm_prefix (fst e))
          then Some e else Some b)"

definition lpm_find ::
    "('d \<Rightarrow> bool list) \<Rightarrow> ('d lpm_key, 'v) kmap \<Rightarrow> 'd lpm_key \<Rightarrow> 'v option" where
  "lpm_find bits m k = map_option snd (lpm_scan bits k m)"

lemma lpm_scan_None: "lpm_scan bits k m = None \<longleftrightarrow> (\<forall>e\<in>set m. \<not> lpm_matches bits (fst e) k)"
  by (induction m) (auto split: option.splits)

lemma lpm_scan_Some:
  "lpm_scan bits k m = Some b \<Longrightarrow> b \<in> set m \<and> lpm_matches bits (fst b) k \<and>
     (\<forall>e\<in>set m. lpm_matches bits (fst e) k \<longrightarrow> unat (lpm_prefix (fst e)) \<le> unat (lpm_prefix (fst b)))"
proof (induction m arbitrary: b)
  case (Cons e es)
  show ?case
  proof (cases "lpm_scan bits k es")
    case None
    then have "\<forall>e\<in>set es. \<not> lpm_matches bits (fst e) k" by (simp add: lpm_scan_None)
    with Cons.prems None show ?thesis by (auto split: if_splits)
  next
    case (Some c)
    from Cons.IH [OF Some] Cons.prems Some show ?thesis by (fastforce split: if_splits)
  qed
qed simp

interpretation found: lpm_trie bits "lpm_find bits :: ('a lpm_key, 'b) kmap \<Rightarrow> _"
proof
  fix m :: "('a lpm_key, 'b) kmap" and k v
  assume d: "distinct (map fst m)"
  show "lpm_find bits m k = None \<longleftrightarrow> (\<forall>e\<in>kmap_dom m. \<not> lpm_matches bits e k)"
    by (auto simp: lpm_find_def lpm_scan_None kmap_dom_def)
  assume "lpm_find bits m k = Some v"
  then obtain e where e: "lpm_scan bits k m = Some (e, v)" by (auto simp: lpm_find_def)
  from lpm_scan_Some [OF e] d
  show "\<exists>e. map_of m e = Some v \<and> lpm_matches bits e k \<and>
      (\<forall>e'\<in>kmap_dom m. lpm_matches bits e' k \<longrightarrow> unat (lpm_prefix e') \<le> unat (lpm_prefix e))"
    by (auto simp: kmap_dom_def)
qed

section \<open>State of the program\<close>

record rate_key =
  rk_kind :: u8
  rk_family :: u8
  rk_proto :: u8
  rk_pad :: u8
  rk_dport :: u16
  rk_addr :: "u8 list"

record rate_bucket =
  rb_tokens :: u64
  rb_updated_ns :: u64
  rb_blocked_until_ns :: u64

record drop_event =
  de_reason :: u32
  de_family :: u8
  de_proto :: u8
  de_dport :: u16
  de_addr :: "u8 list"
  de_country :: u16
  de_action :: u8
  de_source :: u8

record prog_state =
  pg_buckets :: "rate_key \<rightharpoonup> rate_bucket"
  pg_stats :: "u32 \<Rightarrow> u64"
  pg_events :: "drop_event list"

record bpf_env =
  be_rule :: "(rule_key_t, rule_value_t) kmap \<Rightarrow> rule_key_t \<Rightarrow> rule_value_t option"
  be_geo :: "(geo_key_t, u16) kmap \<Rightarrow> geo_key_t \<Rightarrow> u16 option"
  be_trusted :: "(trusted_key_t, u8) kmap \<Rightarrow> trusted_key_t \<Rightarrow> u8 option"
  be_temp_ban :: "(temp_ban_key_t, u64) kmap \<Rightarrow> temp_ban_key_t \<Rightarrow> u64 option"
  be_now_ban :: u64
  be_now_rate :: "u8 \<Rightarrow> u64"
  be_bucket_add :: "rate_key \<Rightarrow> rate_bucket \<Rightarrow> (rate_key \<rightharpoonup> rate_bucket) \<Rightarrow> (rate_key \<rightharpoonup> rate_bucket)"

datatype xdp_action = XdpPass | XdpDrop

definition STAT_PASS :: u32 where "STAT_PASS = 0"
definition STAT_RULE_DROP :: u32 where "STAT_RULE_DROP = 1"
definition STAT_GEO_DROP :: u32 where "STAT_GEO_DROP = 2"
definition STAT_RATE_DROP :: u32 where "STAT_RATE_DROP = 3"
definition STAT_FLOOD_DROP :: u32 where "STAT_FLOOD_DROP = 4"
definition STAT_CUSTOM_RATE_DROP :: u32 where "STAT_CUSTOM_RATE_DROP = 5"
definition STAT_PARSE_DROP :: u32 where "STAT_PARSE_DROP = 6"
definition STAT_TEMP_BAN_DROP :: u32 where "STAT_TEMP_BAN_DROP = 7"
definition RATE_KIND_CUSTOM :: u8 where "RATE_KIND_CUSTOM = 1"
definition RATE_KIND_IP :: u8 where "RATE_KIND_IP = 2"
definition RATE_KIND_FLOOD :: u8 where "RATE_KIND_FLOOD = 3"

lemmas stat_consts = STAT_PASS_def STAT_RULE_DROP_def STAT_GEO_DROP_def STAT_RATE_DROP_def
  STAT_FLOOD_DROP_def STAT_CUSTOM_RATE_DROP_def STAT_PARSE_DROP_def STAT_TEMP_BAN_DROP_def

definition incr_stat :: "u32 \<Rightarrow> prog_state \<Rightarrow> prog_state" where
  "incr_stat i s = s\<lparr>pg_stats := (pg_stats s)(i := pg_stats s i + 1)\<rparr>"

definition emit_drop_event ::
    "linux_xdp_manager \<Rightarrow> u32 \<Rightarrow> u8 \<Rightarrow> u8 \<Rightarrow> u16 \<Rightarrow> u8 list \<Rightarrow> u16 \<Rightarrow> u8 \<Rightarrow> u8
       \<Rightarrow> prog_state \<Rightarrow> prog_state" where
  "emit_drop_event m reason family proto dport addr country action source s =
     (if xm_drop_config m = 0 then s
      else s\<lparr>pg_events := pg_events s @
        [\<lparr>de_reason = reason, de_family = family, de_proto = proto, de_dport = dport,
          de_addr = addr, de_country = country, de_action = action, de_source = source\<rparr>]\<rparr>)"

section \<open>Lookups\<close>

definition full_prefix_len :: "u8 \<Rightarrow> u32" where
  "full_prefix_len family = (if family = 4 then 64 else 160)"

definition l4_probe :: "u8 \<Rightarrow> u8 \<Rightarrow> u16 \<Rightarrow> u8 list \<Rightarrow> l4_data lpm_key" where
  "l4_probe family proto dport addr =
     \<lparr>lpm_prefix = full_prefix_len family,
      lpm_data = \<lparr>l4_family = family, l4_proto = proto, l4_dport = dport, l4_addr = addr\<rparr>\<rparr>"

definition l3_probe :: "u8 \<Rightarrow> u8 list \<Rightarrow> l3_data lpm_key" where
  "l3_probe family addr =
     \<lparr>lpm_prefix = full_prefix_len family,
      lpm_data = \<lparr>l3_family = family, l3_pad = [0, 0, 0], l3_addr = addr\<rparr>\<rparr>"

definition lookup_rule ::
    "bpf_env \<Rightarrow> linux_xdp_manager \<Rightarrow> u8 \<Rightarrow> u8 \<Rightarrow> u16 \<Rightarrow> u8 list \<Rightarrow> rule_value_t option" where
  "lookup_rule B m family proto dport addr =
     (let look = be_rule B (xm_rule_cidrs m) in
      case look (l4_probe family proto dport addr) of
        Some v \<Rightarrow> Some v
      | None \<Rightarrow>
      (case look (l4_probe family proto 0 addr) of
        Some v \<Rightarrow> Some v
      | None \<Rightarrow>
      (case look (l4_probe family PROTO_ANY dport addr) of
        Some v \<Rightarrow> Some v
      | None \<Rightarrow> look (l4_probe family PROTO_ANY 0 addr))))"

definition lookup_geo :: "bpf_env \<Rightarrow> linux_xdp_manager \<Rightarrow> u8 \<Rightarrow> u8 list \<Rightarrow> u16 option" where
  "lookup_geo B m family addr = be_geo B (xm_geo_cidrs m) (l3_probe family addr)"

definition lookup_trusted :: "bpf_env \<Rightarrow> linux_xdp_manager \<Rightarrow> u8 \<Rightarrow> u8 list \<Rightarrow> u8 option" where
  "lookup_trusted B m family addr = be_trusted B (xm_trusted_cidrs m) (l3_probe family addr)"

definition temp_ban_value_active :: "u64 option \<Rightarrow> u64 \<Rightarrow> bool" where
  "temp_ban_value_active v now = (case v of None \<Rightarrow> False | Some e \<Rightarrow> e > now)"

definition temp_ban_active ::
    "bpf_env \<Rightarrow> linux_xdp_manager \<Rightarrow> u8 \<Rightarrow> u8 \<Rightarrow> u16 \<Rightarrow> u8 list \<Rightarrow> bool" where
  "temp_ban_active B m family proto dport addr =
     (let look = be_temp_ban B (xm_temp_bans m); now = be_now_ban B in
      if temp_ban_value_active (look (l4_probe family proto dport addr)) now then True
      else if temp_ban_value_active (look (l4_probe family proto 0 addr)) now then True
      else if temp_ban_value_active (look (l4_probe family PROTO_ANY dport addr)) now then True
      else temp_ban_value_active (look (l4_probe family PROTO_ANY 0 addr)) now)"

section \<open>Token buckets\<close>

text \<open>What one packet does to its bucket: the bucket afterwards and whether it is limited.\<close>

definition bucket_step :: "u32 \<Rightarrow> u32 \<Rightarrow> u64 \<Rightarrow> u64 \<Rightarrow> rate_bucket \<Rightarrow> rate_bucket \<times> bool" where
  "bucket_step packets_per_second burst block_ns now b =
     (if block_ns > 0 \<and> rb_blocked_until_ns b > now then (b, True)
      else
        (let elapsed = now - rb_updated_ns b;
             refill = elapsed * ucast packets_per_second div 1000000000;
             tokens = (if refill > 0
                       then (let t = rb_tokens b + refill in if t > ucast burst then ucast burst else t)
                       else rb_tokens b);
             b1 = (if refill > 0 then b\<lparr>rb_updated_ns := now\<rparr> else b)
         in if tokens = 0
            then ((if block_ns > 0 then b1\<lparr>rb_blocked_until_ns := now + block_ns\<rparr> else b1), True)
            else (b1\<lparr>rb_tokens := tokens - 1\<rparr>, False)))"

definition token_bucket_limited ::
    "bpf_env \<Rightarrow> u8 \<Rightarrow> u8 \<Rightarrow> u8 \<Rightarrow> u16 \<Rightarrow> u8 list \<Rightarrow> u32 \<Rightarrow> u32 \<Rightarrow> u64 \<Rightarrow> prog_state
       \<Rightarrow> prog_state \<times> bool" where
  "token_bucket_limited B kind family proto dport addr packets_per_second burst block_ns s =
     (if packets_per_second = 0 \<or> burst = 0 then (s, False)
      else
        (let key = \<lparr>rk_kind = kind, rk_family = family, rk_proto = proto, rk_pad = 0,
                    rk_dport = dport, rk_addr = addr\<rparr>;
             now = be_now_rate B kind;
             initial = \<lparr>rb_tokens = ucast (burst - 1), rb_updated_ns = now, rb_blocked_until_ns = 0\<rparr>
         in case pg_buckets s key of
              None \<Rightarrow> (s\<lparr>pg_buckets := be_bucket_add B key initial (pg_buckets s)\<rparr>, False)
            | Some b \<Rightarrow>
                (let r = bucket_step packets_per_second burst block_ns now b
                 in (s\<lparr>pg_buckets := (pg_buckets s)(key \<mapsto> fst r)\<rparr>, snd r))))"

definition lookup_custom_rate ::
    "linux_xdp_manager \<Rightarrow> u8 \<Rightarrow> u16 \<Rightarrow> (custom_rate_value_t \<times> u8 \<times> u16) option" where
  "lookup_custom_rate m proto dport =
     (let look = (\<lambda>p d. map_option (\<lambda>v. (v, p, d))
                    (map_of (xm_custom_rate_limits m) \<lparr>ck_proto = p, ck_pad = 0, ck_dport = d\<rparr>))
      in case look proto dport of
           Some r \<Rightarrow> Some r
         | None \<Rightarrow>
         (case look proto 0 of
           Some r \<Rightarrow> Some r
         | None \<Rightarrow>
         (case look PROTO_ANY dport of
           Some r \<Rightarrow> Some r
         | None \<Rightarrow> look PROTO_ANY 0)))"

definition custom_dynamic_rate_limited ::
    "bpf_env \<Rightarrow> linux_xdp_manager \<Rightarrow> u8 \<Rightarrow> u8 \<Rightarrow> u16 \<Rightarrow> u8 list \<Rightarrow> prog_state \<Rightarrow> prog_state \<times> u32" where
  "custom_dynamic_rate_limited B m family proto dport addr s =
     (case lookup_custom_rate m proto dport of
        None \<Rightarrow> (s, 0)
      | Some (limit, matched_proto, matched_dport) \<Rightarrow>
          (let r = token_bucket_limited B RATE_KIND_CUSTOM family matched_proto matched_dport addr
                     (cv_packets_per_second limit) (cv_burst limit) 0 s
           in (fst r, if snd r then STAT_CUSTOM_RATE_DROP else 0)))"

definition dynamic_defense_limited ::
    "bpf_env \<Rightarrow> linux_xdp_manager \<Rightarrow> u8 \<Rightarrow> u8 \<Rightarrow> u16 \<Rightarrow> u8 list \<Rightarrow> prog_state \<Rightarrow> prog_state \<times> u32" where
  "dynamic_defense_limited B m family proto dport addr s =
     (let policy = xm_defense_policy m in
      if dv_enabled policy = 0 then (s, 0)
      else
        (let c = custom_dynamic_rate_limited B m family proto dport addr s in
         if snd c \<noteq> 0 then c
         else
           (let f = (if dv_flood_enabled policy \<noteq> 0
                     then token_bucket_limited B RATE_KIND_FLOOD family PROTO_ANY 0 addr
                            (dv_flood_packets_per_second policy) (dv_flood_burst policy)
                            (dv_flood_block_ns policy) (fst c)
                     else (fst c, False)) in
            if snd f then (fst f, STAT_FLOOD_DROP)
            else
              (let i = (if dv_ip_rate_limit_enabled policy \<noteq> 0
                        then token_bucket_limited B RATE_KIND_IP family PROTO_ANY 0 addr
                               (dv_ip_packets_per_second policy) (dv_ip_burst policy) 0 (fst f)
                        else (fst f, False)) in
               if snd i then (fst i, STAT_RATE_DROP) else (fst i, 0)))))"

section \<open>The verdict\<close>

definition handle_packet ::
    "bpf_env \<Rightarrow> linux_xdp_manager \<Rightarrow> u8 \<Rightarrow> u8 \<Rightarrow> u16 \<Rightarrow> u8 list \<Rightarrow> prog_state
       \<Rightarrow> prog_state \<times> xdp_action" where
  "handle_packet B m family proto dport src s =
     (let pass = (\<lambda>s. (incr_stat STAT_PASS s, XdpPass));
          drop_as = (\<lambda>reason country action source s.
            (emit_drop_event m reason family proto dport src country action source
               (incr_stat reason s), XdpDrop));
          defense = (\<lambda>s.
            (let d = dynamic_defense_limited B m family proto dport src s in
             if snd d \<noteq> 0 then drop_as (snd d) 0 ACTION_DENY 0 (fst d) else pass (fst d)));
          after_rules = (\<lambda>s.
            (case lookup_geo B m family src of
               None \<Rightarrow> defense s
             | Some country \<Rightarrow>
                 (case map_of (xm_country_rules m) (ucast country) of
                    None \<Rightarrow> defense s
                  | Some action \<Rightarrow>
                      if action = ACTION_DENY then drop_as STAT_GEO_DROP country action 0 s
                      else defense s)))
      in if lookup_trusted B m family src \<noteq> None then pass s
         else if temp_ban_active B m family proto dport src
         then drop_as STAT_TEMP_BAN_DROP 0 ACTION_DENY 0 s
         else (case lookup_rule B m family proto dport src of
                 None \<Rightarrow> after_rules s
               | Some rule \<Rightarrow>
                   if rv_action rule = ACTION_DENY
                   then drop_as STAT_RULE_DROP 0 (rv_action rule) (rv_source rule) s
                   else if rv_action rule = ACTION_ALLOW then pass s
                   else after_rules s))"

section \<open>Parsing\<close>

definition ipv6_extension_header :: "u8 \<Rightarrow> bool" where
  "ipv6_extension_header proto \<longleftrightarrow> proto = 0 \<or> proto = 43 \<or> proto = 44 \<or> proto = 60"

text \<open>
  The unrolled loop of \<^verbatim>\<open>skip_ipv6_extensions\<close>: \<open>None\<close> is the null cursor; the second component is
  \<^verbatim>\<open>*proto\<close> when it returns. Every read is guarded by the comparison with \<^verbatim>\<open>data_end\<close>.
\<close>

primrec skip_ipv6_extensions :: "nat \<Rightarrow> u8 list \<Rightarrow> nat \<Rightarrow> u8 \<Rightarrow> nat option \<times> u8" where
  "skip_ipv6_extensions 0 pkt cursor proto = (Some cursor, proto)"
| "skip_ipv6_extensions (Suc n) pkt cursor proto =
     (if \<not> ipv6_extension_header proto then (Some cursor, proto)
      else if proto = 44
      then (if cursor + 8 > length pkt then (None, proto) else (Some (cursor + 8), pkt ! cursor))
      else if cursor + 2 > length pkt then (None, proto)
      else (let cursor' = cursor + (unat (pkt ! (cursor + 1)) + 1) * 8 in
            if cursor' > length pkt then (None, proto)
            else skip_ipv6_extensions n pkt cursor' (pkt ! cursor)))"

definition read_be16 :: "u8 list \<Rightarrow> nat \<Rightarrow> u16" where
  "read_be16 pkt i = ucast (pkt ! i) OR push_bit 8 (ucast (pkt ! (i + 1)))"

text \<open>The destination port: \<open>None\<close> when a TCP or UDP header is cut off.\<close>

definition parse_dport :: "u8 list \<Rightarrow> nat \<Rightarrow> u8 \<Rightarrow> u16 option" where
  "parse_dport pkt cursor proto =
     (if proto = PROTO_TCP
      then (if cursor + 20 > length pkt then None else Some (read_be16 pkt (cursor + 2)))
      else if proto = PROTO_UDP
      then (if cursor + 8 > length pkt then None else Some (read_be16 pkt (cursor + 2)))
      else Some 0)"

definition copy_addr4 :: "u8 list \<Rightarrow> nat \<Rightarrow> u8 list" where
  "copy_addr4 pkt i = take 4 (drop i pkt) @ replicate 12 0"

definition copy_addr6 :: "u8 list \<Rightarrow> nat \<Rightarrow> u8 list" where
  "copy_addr6 pkt i = take 16 (drop i pkt)"

definition xdp_firewall ::
    "bpf_env \<Rightarrow> linux_xdp_manager \<Rightarrow> u8 list \<Rightarrow> prog_state \<Rightarrow> prog_state \<times> xdp_action" where
  "xdp_firewall B m pkt s =
     (let parse_drop = (\<lambda>family proto src.
            (emit_drop_event m STAT_PARSE_DROP family proto 0 src 0 ACTION_DENY 0
               (incr_stat STAT_PARSE_DROP s), XdpDrop))
      in if 14 > length pkt then (s, XdpPass)
         else if pkt ! 12 = 0x08 \<and> pkt ! 13 = 0x00
         then
           (if 34 > length pkt then (s, XdpPass)
            else
              (let proto = pkt ! 23; src = copy_addr4 pkt 26; ihl = unat (pkt ! 14 AND 0x0f) in
               if ihl < 5 then parse_drop 4 proto src
               else if 14 + ihl * 4 > length pkt then parse_drop 4 proto src
               else (case parse_dport pkt (14 + ihl * 4) proto of
                       None \<Rightarrow> parse_drop 4 proto src
                     | Some dport \<Rightarrow> handle_packet B m 4 proto dport src s)))
         else if pkt ! 12 = 0x86 \<and> pkt ! 13 = 0xDD
         then
           (if 54 > length pkt then (s, XdpPass)
            else
              (let src = copy_addr6 pkt 22; r = skip_ipv6_extensions 8 pkt 54 (pkt ! 20) in
               case fst r of
                 None \<Rightarrow> parse_drop 6 (snd r) src
               | Some cursor \<Rightarrow>
                   (case parse_dport pkt cursor (snd r) of
                      None \<Rightarrow> parse_drop 6 (snd r) src
                    | Some dport \<Rightarrow> handle_packet B m 6 (snd r) dport src s)))
         else (s, XdpPass))"

end
