(* ===== verification/Xdp_Verdict.thy ===== *)
theory Xdp_Verdict
  imports Xdp_Install Xdp_Program
begin

text \<open>
  What the installed policy means for a packet: the lookups of the kernel program over the maps a
  successful apply leaves, in terms of the compiled policy. A packet is its source address \<open>ip\<close>,
  its protocol number and its destination port in network order.
\<close>

section \<open>The environment\<close>

definition lookups_ok :: "bpf_env \<Rightarrow> bool" where
  "lookups_ok B \<longleftrightarrow> lpm_trie l4_bits (be_rule B) \<and> lpm_trie l3_bits (be_geo B) \<and>
     lpm_trie l3_bits (be_trusted B) \<and> lpm_trie l4_bits (be_temp_ban B)"

definition ref_bpf :: "u64 \<Rightarrow> bpf_env" where
  "ref_bpf now =
     \<lparr>be_rule = lpm_find l4_bits, be_geo = lpm_find l3_bits, be_trusted = lpm_find l3_bits,
      be_temp_ban = lpm_find l4_bits, be_now_ban = now, be_now_rate = (\<lambda>_. now),
      be_bucket_add = (\<lambda>k b m. m(k \<mapsto> b))\<rparr>"

lemma ref_bpf_ok: "lookups_ok (ref_bpf now)"
  by (simp add: lookups_ok_def ref_bpf_def found.lpm_trie_axioms)

definition maps_distinct :: "linux_xdp_manager \<Rightarrow> bool" where
  "maps_distinct m \<longleftrightarrow> distinct (map fst (xm_rule_cidrs m)) \<and> distinct (map fst (xm_geo_cidrs m)) \<and>
     distinct (map fst (xm_trusted_cidrs m)) \<and> distinct (map fst (xm_temp_bans m))"

lemma kmap_remove_stale_distinct:
  "distinct (map fst m) \<Longrightarrow> distinct (map fst (fst (kmap_remove_stale E nm f ids m)))"
proof -
  have "distinct (map fst m) \<Longrightarrow> distinct (map fst (fst (kmap_remove_each E nm ks m)))" for ks
    by (induction ks arbitrary: m) (simp_all add: distinct_delete)
  then show "distinct (map fst m) \<Longrightarrow> distinct (map fst (fst (kmap_remove_stale E nm f ids m)))"
    by (simp add: kmap_remove_stale_def)
qed

lemma refresh_distinct:
  assumes "\<exists>b. kmap_put_each E nm key val xs m = (b, Inr ()) \<and>
      kmap_remove_stale E' nm' f ids b = (m', Inr ())" and "distinct (map fst m)"
  shows "distinct (map fst m')"
  using assms kmap_put_each_distinct [OF assms(2), of E nm key val xs]
    kmap_remove_stale_distinct [of _ E' nm' f ids]
  by (metis fst_conv)

lemma apply_maps_distinct:
  assumes "apply_to_current_maps N E now p m = (m', Inr u)" and "maps_distinct m"
  shows "maps_distinct m'"
  using assms(2) refresh_distinct [OF apply_map_steps(1) [OF assms(1)]]
    refresh_distinct [OF apply_map_steps(3) [OF assms(1)]]
    refresh_distinct [OF apply_map_steps(6) [OF assms(1)]]
    apply_map_steps(2) [OF assms(1)]
  unfolding maps_distinct_def
  by (metis refresh_distinct)

section \<open>Keys against packets\<close>

lemma full_prefix_len_width: "unat (full_prefix_len (family_of ip)) = 32 + ip_width ip"
  by (cases ip) (simp_all add: full_prefix_len_def family_of_def)

lemma in_prefix_width: "in_prefix a p ip \<Longrightarrow> ip_width a = ip_width ip"
  by (rule ip_width_family) (rule in_prefix_family)

lemma l4_key_matches:
  assumes "unat p \<le> ip_width a"
  shows "lpm_matches l4_bits
           \<lparr>lpm_prefix = lpm_prefix_len p,
            lpm_data = \<lparr>l4_family = family_of a, l4_proto = pr, l4_dport = d, l4_addr = addr_bytes a\<rparr>\<rparr>
           (l4_probe (family_of ip) pr' d' (addr_bytes ip)) \<longleftrightarrow>
         pr = pr' \<and> d = d' \<and> in_prefix a (unat p) ip"
  using assms l4_match_iff [OF assms, of pr d ip pr' d'] in_prefix_width [of a "unat p" ip]
  by (auto simp: lpm_matches_def l4_probe_def unat_lpm_prefix_len full_prefix_len_width)

lemma l3_key_matches:
  assumes "unat p \<le> ip_width a"
  shows "lpm_matches l3_bits
           \<lparr>lpm_prefix = lpm_prefix_len p,
            lpm_data = \<lparr>l3_family = family_of a, l3_pad = [0, 0, 0], l3_addr = addr_bytes a\<rparr>\<rparr>
           (l3_probe (family_of ip) (addr_bytes ip)) \<longleftrightarrow> in_prefix a (unat p) ip"
  using assms l3_match_iff [OF assms, of ip] in_prefix_width [of a "unat p" ip]
  by (auto simp: lpm_matches_def l3_probe_def unat_lpm_prefix_len full_prefix_len_width)

definition rule_hits :: "xdp_prefix_rule \<Rightarrow> ipaddr \<Rightarrow> u8 \<times> u16 \<Rightarrow> bool" where
  "rule_hits r ip c \<longleftrightarrow> proto_code (xr_protocol r) = fst c \<and> to_be (xr_port r) = snd c \<and>
     in_prefix (xr_addr r) (unat (xr_prefix r)) ip"

definition ban_hits :: "xdp_temp_ban \<Rightarrow> ipaddr \<Rightarrow> u8 \<times> u16 \<Rightarrow> bool" where
  "ban_hits b ip c \<longleftrightarrow> proto_code (xb_protocol b) = fst c \<and> to_be (xb_port b) = snd c \<and>
     in_prefix (xb_addr b) (unat (xb_prefix b)) ip"

lemma xr_key_matches:
  "wf_rule r \<Longrightarrow> lpm_matches l4_bits (xr_key r) (l4_probe (family_of ip) pr d (addr_bytes ip))
     \<longleftrightarrow> rule_hits r ip (pr, d)"
  using l4_key_matches [of "xr_prefix r" "xr_addr r"]
  by (simp add: wf_rule_def canonical_width xr_key_def rule_key_def rule_hits_def flip: family_of_def)

lemma xb_key_matches:
  "wf_ban b \<Longrightarrow> lpm_matches l4_bits (xb_key b) (l4_probe (family_of ip) pr d (addr_bytes ip))
     \<longleftrightarrow> ban_hits b ip (pr, d)"
  using l4_key_matches [of "xb_prefix b" "xb_addr b"]
  by (simp add: wf_ban_def canonical_width xb_key_def temp_ban_key_def ban_hits_def flip: family_of_def)

lemma xt_key_matches:
  "wf_trusted x \<Longrightarrow> lpm_matches l3_bits (xt_key x) (l3_probe (family_of ip) (addr_bytes ip))
     \<longleftrightarrow> in_prefix (xt_addr x) (unat (xt_prefix x)) ip"
  using l3_key_matches [of "xt_prefix x" "xt_addr x"]
  by (simp add: wf_trusted_def canonical_width xt_key_def trusted_key_def flip: family_of_def)

lemma lpm_prefix_keys:
  "unat (lpm_prefix (xr_key r)) = 32 + unat (xr_prefix r)"
  "unat (lpm_prefix (xb_key b)) = 32 + unat (xb_prefix b)"
  by (simp_all add: xr_key_def rule_key_def xb_key_def temp_ban_key_def unat_lpm_prefix_len)

section \<open>Rules\<close>

definition rule_rank :: "xdp_prefix_rule \<Rightarrow> int \<times> nat" where
  "rule_rank r = (sint (xr_priority r), rule_source_order (xr_source r))"

text \<open>How two rules that hit the same packet in the same class compare: the longer prefix, then
  the lower priority number, then threat intelligence before the firewall.\<close>

definition rule_preferred :: "xdp_prefix_rule \<Rightarrow> xdp_prefix_rule \<Rightarrow> bool" where
  "rule_preferred r r' \<longleftrightarrow> xr_prefix r' < xr_prefix r \<or>
     xr_prefix r' = xr_prefix r \<and> rule_rank r \<le> rule_rank r'"

definition probe_classes :: "u8 \<Rightarrow> u16 \<Rightarrow> (u8 \<times> u16) list" where
  "probe_classes proto dport = [(proto, dport), (proto, 0), (PROTO_ANY, dport), (PROTO_ANY, 0)]"

lemma sorted_find_first:
  assumes "sorted (map f xs)" and "find P xs = Some x" and "y \<in> set xs" and "P y"
  shows "f x \<le> f y"
  using assms
proof (induction xs)
  case (Cons z zs)
  show ?case
  proof (cases "P z")
    case True
    then have "x = z" using Cons.prems(2) by simp
    then show ?thesis using Cons.prems(1, 3) by auto
  next
    case False
    then have "find P zs = Some x" and "y \<in> set zs" using Cons.prems(2, 3, 4) by auto
    then show ?thesis using Cons.IH Cons.prems(1, 4) by simp
  qed
qed simp

lemma installable_sorted: "sorted (map rule_rank (installable_rules N locals p))"
proof -
  have "sorted (map rule_rank (ordered_policy_rules p))"
    unfolding ordered_policy_rules_def rule_rank_def [abs_def] by (rule sorted_sort_key)
  then show ?thesis unfolding installable_rules_def by (rule sorted_filter)
qed

lemma installable_rule_cases:
  "r \<in> set (installable_rules N locals p) \<longleftrightarrow>
     (r \<in> set (cp_threat_prefixes p) \<or> r \<in> set (cp_rules p)) \<and>
     \<not> deny_rule_matches_local_interface N locals r"
  by (auto simp: installable_rules_def ordered_policy_rules_def)

lemma installable_rule_wf:
  "wf_compiled p \<Longrightarrow> r \<in> set (installable_rules N locals p) \<Longrightarrow> wf_rule r"
  by (auto simp: wf_compiled_def list_all_iff installable_rule_cases)

lemma rule_same_key:
  assumes "wf_rule r" and "wf_rule r'" and "rule_hits r ip c" and "rule_hits r' ip c"
    and "xr_prefix r' = xr_prefix r"
  shows "xr_key r' = xr_key r"
proof -
  have "in_prefix (xr_addr r) (unat (xr_prefix r)) (xr_addr r')"
    using assms unfolding rule_hits_def by (metis in_prefix_sym in_prefix_trans)
  then have "xr_addr r = xr_addr r'"
    using assms(1, 2, 5) unfolding wf_rule_def by (metis canonical_eqI)
  moreover have "xr_protocol r = xr_protocol r'" and "xr_port r = xr_port r'"
    using assms(3, 4) unfolding rule_hits_def by (metis proto_code_inj, metis to_be_eq_iff)
  ultimately show ?thesis using assms(5) by (simp add: xr_key_def)
qed

lemma rule_map_dom:
  assumes "apply_to_current_maps N E now p m = (m', Inr u)"
  shows "kmap_dom (xm_rule_cidrs m') = xr_key ` set (installable_rules N (xm_locals m) p)"
proof -
  have "k \<in> dom (map_of (xm_rule_cidrs m')) \<longleftrightarrow> k \<in> xr_key ` set (installable_rules N (xm_locals m) p)"
    for k
    using find_None_iff [of "\<lambda>r. xr_key r = k" "installable_rules N (xm_locals m) p"]
    unfolding dom_def mem_Collect_eq installed_rule [OF assms] option.map_disc_iff by auto
  then show ?thesis unfolding kmap_dom_map_of by blast
qed

lemma rule_probe:
  assumes wf: "wf_compiled p" and B: "lookups_ok B" and d: "maps_distinct m"
    and a: "apply_to_current_maps N E now p m = (m', Inr u)"
  shows "be_rule B (xm_rule_cidrs m') (l4_probe (family_of ip) pr dp (addr_bytes ip)) = None \<longleftrightarrow>
           (\<forall>r\<in>set (installable_rules N (xm_locals m) p). \<not> rule_hits r ip (pr, dp))"
    and "be_rule B (xm_rule_cidrs m') (l4_probe (family_of ip) pr dp (addr_bytes ip)) = Some v \<Longrightarrow>
           \<exists>r\<in>set (installable_rules N (xm_locals m) p). v = rule_value r \<and> rule_hits r ip (pr, dp) \<and>
             (\<forall>r'\<in>set (installable_rules N (xm_locals m) p).
                rule_hits r' ip (pr, dp) \<longrightarrow> rule_preferred r r')"
proof -
  let ?xs = "installable_rules N (xm_locals m) p"
  let ?k = "l4_probe (family_of ip) pr dp (addr_bytes ip)"
  have lpm: "lpm_trie l4_bits (be_rule B)" using B by (simp add: lookups_ok_def)
  have dm: "distinct (map fst (xm_rule_cidrs m'))"
    using apply_maps_distinct [OF a d] by (simp add: maps_distinct_def)
  have hits: "lpm_matches l4_bits (xr_key r) ?k \<longleftrightarrow> rule_hits r ip (pr, dp)" if "r \<in> set ?xs" for r
    using xr_key_matches installable_rule_wf [OF wf that] by blast
  show "be_rule B (xm_rule_cidrs m') ?k = None \<longleftrightarrow> (\<forall>r\<in>set ?xs. \<not> rule_hits r ip (pr, dp))"
    unfolding lpm_trie.look_None [OF lpm dm] rule_map_dom [OF a] using hits by auto
  assume "be_rule B (xm_rule_cidrs m') ?k = Some v"
  from lpm_trie.look_Some [OF lpm dm this] obtain e where
    e: "map_of (xm_rule_cidrs m') e = Some v" "lpm_matches l4_bits e ?k"
    and longest: "\<And>e'. e' \<in> kmap_dom (xm_rule_cidrs m') \<Longrightarrow> lpm_matches l4_bits e' ?k \<Longrightarrow>
        unat (lpm_prefix e') \<le> unat (lpm_prefix e)" by blast
  from e(1) obtain r where r: "find (\<lambda>r. xr_key r = e) ?xs = Some r" and v: "v = rule_value r"
    unfolding installed_rule [OF a] by auto
  then have rx: "r \<in> set ?xs" and re: "xr_key r = e"
    unfolding find_Some_iff by (auto simp: in_set_conv_nth)
  have rh: "rule_hits r ip (pr, dp)" using hits [OF rx] e(2) re by simp
  have "rule_preferred r r'" if r': "r' \<in> set ?xs" "rule_hits r' ip (pr, dp)" for r'
  proof -
    have "unat (lpm_prefix (xr_key r')) \<le> unat (lpm_prefix (xr_key r))"
      using longest [of "xr_key r'"] r' hits [OF r'(1)] re unfolding rule_map_dom [OF a] by blast
    then have le: "xr_prefix r' \<le> xr_prefix r" by (simp add: lpm_prefix_keys word_le_nat_alt)
    show ?thesis
    proof (cases "xr_prefix r' = xr_prefix r")
      case True
      then have "xr_key r' = e"
        using rule_same_key [OF installable_rule_wf [OF wf rx] installable_rule_wf [OF wf r'(1)] rh r'(2)] re
        by simp
      then have "rule_rank r \<le> rule_rank r'"
        using sorted_find_first [OF installable_sorted r r'(1)] by simp
      then show ?thesis using True by (simp add: rule_preferred_def)
    next
      case False
      then show ?thesis using le by (simp add: rule_preferred_def)
    qed
  qed
  with rx rh v show "\<exists>r\<in>set ?xs. v = rule_value r \<and> rule_hits r ip (pr, dp) \<and>
      (\<forall>r'\<in>set ?xs. rule_hits r' ip (pr, dp) \<longrightarrow> rule_preferred r r')" by blast
qed

text \<open>The abstract rule decision: the first of the four classes that any installable rule hits, and
  in it the preferred rule.\<close>

definition rule_decision ::
    "xdp_prefix_rule list \<Rightarrow> ipaddr \<Rightarrow> u8 \<Rightarrow> u16 \<Rightarrow> xdp_prefix_rule option \<Rightarrow> bool" where
  "rule_decision xs ip proto dport d \<longleftrightarrow>
     (case find (\<lambda>c. list_ex (\<lambda>r. rule_hits r ip c) xs) (probe_classes proto dport) of
        None \<Rightarrow> d = None
      | Some c \<Rightarrow> (\<exists>r. d = Some r \<and> r \<in> set xs \<and> rule_hits r ip c \<and>
                   list_all (\<lambda>r'. rule_hits r' ip c \<longrightarrow> rule_preferred r r') xs))"

lemma lookup_rule_decision:
  assumes "wf_compiled p" and "lookups_ok B" and "maps_distinct m"
    and "apply_to_current_maps N E now p m = (m', Inr u)"
  shows "\<exists>d. lookup_rule B m' (family_of ip) proto dport (addr_bytes ip) = map_option rule_value d \<and>
             rule_decision (installable_rules N (xm_locals m) p) ip proto dport d"
proof -
  let ?xs = "installable_rules N (xm_locals m) p"
  let ?look = "\<lambda>c. be_rule B (xm_rule_cidrs m') (l4_probe (family_of ip) (fst c) (snd c) (addr_bytes ip))"
  let ?hit = "\<lambda>c. list_ex (\<lambda>r. rule_hits r ip c) ?xs"
  have none: "?look c = None \<longleftrightarrow> \<not> ?hit c" for c
    using rule_probe(1) [OF assms, of ip "fst c" "snd c"] by (auto simp: list_ex_iff)
  have hit: "\<exists>d. ?look c = map_option rule_value d \<and>
      (\<exists>r. d = Some r \<and> r \<in> set ?xs \<and> rule_hits r ip c \<and>
           list_all (\<lambda>r'. rule_hits r' ip c \<longrightarrow> rule_preferred r r') ?xs)" if h: "?hit c" for c
  proof -
    obtain v where v: "?look c = Some v" using none [of c] h by (cases "?look c") auto
    with rule_probe(2) [OF assms, of ip "fst c" "snd c" v] obtain r where
      "r \<in> set ?xs" "v = rule_value r" "rule_hits r ip c"
      "\<forall>r'\<in>set ?xs. rule_hits r' ip c \<longrightarrow> rule_preferred r r'" by auto
    with v show ?thesis by (intro exI [of _ "Some r"]) (simp add: list_all_iff)
  qed
  let ?d = "find ?hit (probe_classes proto dport)"
  have look: "lookup_rule B m' (family_of ip) proto dport (addr_bytes ip) =
      (case ?d of None \<Rightarrow> None | Some c \<Rightarrow> ?look c)"
    unfolding lookup_rule_def probe_classes_def Let_def
    using none [of "(proto, dport)"] none [of "(proto, 0)"] none [of "(PROTO_ANY, dport)"]
      none [of "(PROTO_ANY, 0)"]
    by (auto split: option.split)
  show ?thesis
  proof (cases ?d)
    case None
    then show ?thesis using look by (simp add: rule_decision_def)
  next
    case (Some c)
    then have "?hit c" by (auto simp: find_Some_iff)
    from hit [OF this] Some show ?thesis using look by (simp add: rule_decision_def)
  qed
qed

section \<open>Trusted prefixes\<close>

lemma trusted_map_dom:
  assumes "apply_to_current_maps N E now p m = (m', Inr u)"
  shows "xt_key y \<in> kmap_dom (xm_trusted_cidrs m') \<longleftrightarrow>
           xt_key y \<in> xt_key ` set (compact_trusted_prefixes N (cp_trusted_prefixes p))"
  unfolding kmap_dom_map_of dom_def mem_Collect_eq installed_trusted [OF assms] option.map_disc_iff
  by (auto simp: find_None_iff) (metis imageI)

lemma trusted_map_only:
  assumes "apply_to_current_maps N E now p m = (m', Inr u)" and "k \<in> kmap_dom (xm_trusted_cidrs m')"
  shows "\<exists>x\<in>set (compact_trusted_prefixes N (cp_trusted_prefixes p)). trusted_key_id k = trusted_key_id (xt_key x)"
proof -
  let ?xs = "compact_trusted_prefixes N (cp_trusted_prefixes p)"
  let ?q = "fold (collect_first xt_key trusted_key_id) ?xs ({}, [])"
  from apply_map_steps(6) [OF assms(1)] obtain b where
    "kmap_remove_stale (xe_trusted E) ''trusted_cidrs'' trusted_key_id (fst ?q) b
       = (xm_trusted_cidrs m', Inr ())"
    by (auto simp: pending_trusted_keys_def Let_def)
  from kmap_remove_stale_Inr [OF this, of k] assms(2) have "trusted_key_id k \<in> fst ?q"
    by (auto simp: kmap_dom_map_of split: if_splits)
  then show ?thesis by (auto simp: fold_collect_first Let_def)
qed

text \<open>Only keys with zero padding can match a packet; the agent writes no others.\<close>

definition trusted_padded :: "(trusted_key_t, u8) kmap \<Rightarrow> bool" where
  "trusted_padded m \<longleftrightarrow> (\<forall>k\<in>kmap_dom m. l3_pad (lpm_data k) = [0, 0, 0])"

lemma trusted_key_id_padded:
  "l3_pad (lpm_data k) = [0, 0, 0] \<Longrightarrow> trusted_key_id k = trusted_key_id (xt_key x) \<Longrightarrow> k = xt_key x"
  by (cases k) (auto simp: trusted_key_id_def xt_key_def trusted_key_def intro!: l3_data.equality)

lemma trusted_padded_after:
  assumes a: "apply_to_current_maps N E now p m = (m', Inr u)" and pad: "trusted_padded (xm_trusted_cidrs m)"
  shows "kmap_dom (xm_trusted_cidrs m') = xt_key ` set (compact_trusted_prefixes N (cp_trusted_prefixes p))"
proof -
  let ?xs = "compact_trusted_prefixes N (cp_trusted_prefixes p)"
  let ?q = "fold (collect_first xt_key trusted_key_id) ?xs ({}, [])"
  from apply_map_steps(6) [OF a] obtain b where
    put: "kmap_put_each (xe_trusted E) ''trusted_cidrs'' (\<lambda>k. k) (\<lambda>_. Inr (Some 1))
            (map fst (snd ?q)) (xm_trusted_cidrs m) = (b, Inr ())"
    and stale: "kmap_remove_stale (xe_trusted E) ''trusted_cidrs'' trusted_key_id (fst ?q) b
       = (xm_trusted_cidrs m', Inr ())"
    by (auto simp: pending_trusted_keys_def Let_def)
  have keys: "fst ` set (snd ?q) = xt_key ` set ?xs"
    using unique_pending(3) [OF separates_keys(4) refl refl]
    by (simp add: fold_collect_first Let_def)
  have "l3_pad (lpm_data k) = [0, 0, 0]" if k: "k \<in> kmap_dom (xm_trusted_cidrs m')" for k
  proof (cases "k \<in> xt_key ` set ?xs")
    case True
    then show ?thesis by (auto simp: xt_key_def trusted_key_def)
  next
    case False
    then have "map_of b k = map_of (xm_trusted_cidrs m) k"
      using kmap_put_each_other [of k "\<lambda>k. k" "map fst (snd ?q)" "xe_trusted E" "''trusted_cidrs''"
          "\<lambda>_. Inr (Some 1)" "xm_trusted_cidrs m"] put keys
      by (simp only: set_map image_ident fst_conv simp_thms)
    then have "k \<in> kmap_dom (xm_trusted_cidrs m)"
      using kmap_remove_stale_Inr [OF stale, of k] k
      unfolding kmap_dom_map_of dom_def by (metis (mono_tags, lifting) mem_Collect_eq)
    then show ?thesis using pad by (simp add: trusted_padded_def)
  qed
  then have "k \<in> xt_key ` set ?xs" if "k \<in> kmap_dom (xm_trusted_cidrs m')" for k
    using trusted_map_only [OF a that] trusted_key_id_padded that by blast
  moreover have "k \<in> kmap_dom (xm_trusted_cidrs m')" if "k \<in> xt_key ` set ?xs" for k
    using that trusted_map_dom [OF a] by auto
  ultimately show ?thesis by blast
qed

lemma lookup_trusted_iff:
  assumes N: "ipnet_spec N" and wf: "wf_compiled p" and B: "lookups_ok B" and d: "maps_distinct m"
    and pad: "trusted_padded (xm_trusted_cidrs m)"
    and a: "apply_to_current_maps N E now p m = (m', Inr u)"
  shows "lookup_trusted B m' (family_of ip) (addr_bytes ip) \<noteq> None \<longleftrightarrow>
           (\<exists>x\<in>set (cp_trusted_prefixes p). ip \<in> trusted_addresses x)"
proof -
  let ?xs = "compact_trusted_prefixes N (cp_trusted_prefixes p)"
  have lpm: "lpm_trie l3_bits (be_trusted B)" using B by (simp add: lookups_ok_def)
  have dm: "distinct (map fst (xm_trusted_cidrs m'))"
    using apply_maps_distinct [OF a d] by (simp add: maps_distinct_def)
  have w: "wf_trusted x" if "x \<in> set (cp_trusted_prefixes p)" for x
    using wf that by (simp add: wf_compiled_def list_all_iff)
  have sub: "set ?xs \<subseteq> set (cp_trusted_prefixes p)"
    unfolding compact_trusted_prefixes_def by (rule set_compact_by_subset)
  have "lookup_trusted B m' (family_of ip) (addr_bytes ip) \<noteq> None \<longleftrightarrow>
      (\<exists>x\<in>set ?xs. lpm_matches l3_bits (xt_key x) (l3_probe (family_of ip) (addr_bytes ip)))"
    unfolding lookup_trusted_def lpm_trie.look_None [OF lpm dm] trusted_padded_after [OF a pad] by auto
  also have "\<dots> \<longleftrightarrow> (\<exists>x\<in>set ?xs. ip \<in> trusted_addresses x)"
    using xt_key_matches w sub by (simp add: trusted_addresses_def subset_iff cong: bex_cong)
  also have "\<dots> \<longleftrightarrow> (\<exists>x\<in>set (cp_trusted_prefixes p). ip \<in> trusted_addresses x)"
    using cover_meaning.compact_meaning [OF trusted_cover_meaning [OF N], of "cp_trusted_prefixes p"] w
    unfolding compact_trusted_prefixes_def by blast
  finally show ?thesis .
qed

section \<open>Temporary bans\<close>

lemma temp_ban_value_Some:
  assumes "temp_ban_value b now clock = Inr (Some v)"
  shows "int (unat v) = int (unat clock) + (xb_expires_at b - now)"
proof -
  obtain n where n: "num_nanoseconds (xb_expires_at b - now) = Some n" and pos: "0 < n"
    and c: "checked_add_u64 clock (of_int n) = Some v"
    using assms by (auto simp: temp_ban_value_def res_simps split: option.splits if_splits)
  then have e: "n = xb_expires_at b - now" and lt: "n < 2 ^ 63"
    by (auto simp: num_nanoseconds_def split: if_splits)
  have "unat (of_int n :: u64) = nat n"
  proof -
    have "(of_int n :: u64) = of_nat (nat n)" using pos by simp
    then have "unat (of_int n :: u64) = take_bit 64 (nat n)" by (simp add: unsigned_of_nat)
    moreover have "nat n < 2 ^ 64" using lt by (simp add: nat_less_iff)
    ultimately show ?thesis by (simp add: take_bit_nat_eq_self)
  qed
  with checked_add_u64_Some [OF c] e pos show ?thesis by simp
qed

lemma temp_ban_value_cases:
  assumes "now < xb_expires_at b" and "xb_expires_at b - now < 2 ^ 63" and "temp_ban_value b now clock = Inr ov"
  shows "\<exists>v. ov = Some v"
  using assms by (auto simp: temp_ban_value_def num_nanoseconds_def res_simps split: option.splits if_splits)

lemma installable_ban_iff:
  "b \<in> set (installable_bans N locals now bans) \<longleftrightarrow>
     b \<in> set (compact_temp_bans N bans) \<and> now < xb_expires_at b \<and>
     \<not> temp_ban_matches_local_interface N locals b"
  by (auto simp: installable_bans_def)

lemma installable_ban_wf:
  assumes "wf_compiled p" and "b \<in> set (installable_bans N locals now (cp_temp_bans p))"
  shows "wf_ban b"
proof -
  have "b \<in> set (cp_temp_bans p)"
    using assms(2) set_compact_by_subset unfolding installable_ban_iff compact_temp_bans_def by fast
  then show ?thesis using assms(1) by (simp add: wf_compiled_def list_all_iff)
qed

text \<open>No ban of the snapshot lasts beyond what \<^verbatim>\<open>i64\<close> nanoseconds express (about 292 years).\<close>

definition bans_representable :: "datetime \<Rightarrow> xdp_temp_ban list \<Rightarrow> bool" where
  "bans_representable now bans \<longleftrightarrow> list_all (\<lambda>b. xb_expires_at b - now < 2 ^ 63) bans"

lemma ban_written:
  assumes a: "apply_to_current_maps N E now p m = (m', Inr u)"
    and c: "monotonic_now_ns (xe_timespec E) = Inr clock"
    and rep: "bans_representable now (cp_temp_bans p)"
    and b: "find (\<lambda>b. xb_key b = k) (installable_bans N (xm_locals m) now (cp_temp_bans p)) = Some b"
  shows "\<exists>v. temp_ban_value b now clock = Inr (Some v) \<and> map_of (xm_temp_bans m') k = Some v"
proof -
  let ?xs = "installable_bans N (xm_locals m) now (cp_temp_bans p)"
  let ?r = "unique_by (\<lambda>x. temp_ban_key_id (xb_key x)) {} ?xs"
  have bx: "b \<in> set ?xs" and bk: "xb_key b = k"
    using b unfolding find_Some_iff by (auto simp: in_set_conv_nth)
  have "b \<in> set (cp_temp_bans p)" and pos: "now < xb_expires_at b"
    using bx set_compact_by_subset unfolding installable_ban_iff compact_temp_bans_def by fast+
  then have lim: "xb_expires_at b - now < 2 ^ 63"
    using rep by (simp add: bans_representable_def list_all_iff)
  have q: "snd (pending_temp_bans N (xm_locals m) (cp_temp_bans p) now) = map (\<lambda>x. (xb_key x, x)) (snd ?r)"
    by (simp add: pending_temp_bans_unique Let_def)
  from apply_map_steps(2) [OF a] c obtain d where
    put: "kmap_put_each (xe_temp_bans E) ''temp_bans'' fst (\<lambda>(_, x). temp_ban_value x now clock)
            (map (\<lambda>x. (xb_key x, x)) (snd ?r)) (xm_temp_bans m) = (d, Inr ())"
    unfolding q by auto
  note u = unique_pending [OF separates_keys(2) refl refl]
  have "map_of (map (\<lambda>x. (xb_key x, x)) (snd ?r)) (xb_key b) = find (\<lambda>x. xb_key x = xb_key b) ?xs"
    by (rule u(5))
  then have "(k, b) \<in> set (map (\<lambda>x. (xb_key x, x)) (snd ?r))"
    using b bk by (intro map_of_SomeD) simp
  then have "\<exists>ov. temp_ban_value b now clock = Inr ov"
    using kmap_put_each_written [OF put u(2)] by fastforce
  then obtain v where v: "temp_ban_value b now clock = Inr (Some v)"
    using temp_ban_value_cases [OF pos lim] by blast
  with installed_ban(2) [OF a c b v] show ?thesis by blast
qed

text \<open>Compaction leaves, among the bans that hit a packet in one class, the narrower the longer-lived.\<close>

lemma installable_narrow_longer:
  assumes N: "ipnet_spec N" and wf: "wf_compiled p"
    and x: "x \<in> set (installable_bans N locals now (cp_temp_bans p))"
    and y: "y \<in> set (installable_bans N locals now (cp_temp_bans p))"
    and hx: "ban_hits x ip c" and hy: "ban_hits y ip c" and le: "xb_prefix y \<le> xb_prefix x"
  shows "xb_expires_at y \<le> xb_expires_at x"
proof -
  have w: "wf_ban b" if "b \<in> set (cp_temp_bans p)" for b
    using wf that by (simp add: wf_compiled_def list_all_iff)
  have cx: "x \<in> set (compact_temp_bans N (cp_temp_bans p))"
    and cy: "y \<in> set (compact_temp_bans N (cp_temp_bans p))"
    using x y by (simp_all add: installable_ban_iff)
  have same: "xb_protocol x = xb_protocol y" "xb_port x = xb_port y"
    using hx hy unfolding ban_hits_def by (metis proto_code_inj, metis to_be_eq_iff)
  show ?thesis
  proof (cases "xb_prefix y < xb_prefix x")
    case True
    then have "xb_expires_at y < xb_expires_at x"
      using hx hy by (intro compact_temp_bans_longest_lived [OF N w cx cy same])
        (auto simp: ban_hits_def)
    then show ?thesis by simp
  next
    case False
    then have p: "xb_prefix x = xb_prefix y" using le by simp
    have wx: "wf_ban x" and wy: "wf_ban y" using installable_ban_wf [OF wf] x y by auto
    have "in_prefix (xb_addr x) (unat (xb_prefix x)) (xb_addr y)"
      using hx hy p unfolding ban_hits_def by (metis in_prefix_sym in_prefix_trans)
    then have ad: "xb_addr x = xb_addr y" using wx wy p unfolding wf_ban_def by (metis canonical_eqI)
    have "\<not> temp_ban_covers_or_supersedes N y x"
    proof (cases "y = x")
      case True
      then show ?thesis by (simp add: temp_ban_covers_or_supersedes_def)
    next
      case False
      moreover have "y \<in> set (cp_temp_bans p)"
        using cy set_compact_by_subset unfolding compact_temp_bans_def by fast
      ultimately show ?thesis using compact_byD cx unfolding compact_temp_bans_def by metis
    qed
    then show ?thesis using same p ad by (simp add: temp_ban_covers_or_supersedes_def not_less)
  qed
qed

lemma ban_map_hit:
  assumes a: "apply_to_current_maps N E now p m = (m', Inr u)"
    and c: "monotonic_now_ns (xe_timespec E) = Inr clock"
    and rep: "bans_representable now (cp_temp_bans p)"
  shows "map_of (xm_temp_bans m') k = Some v \<longleftrightarrow>
           (\<exists>b. find (\<lambda>b. xb_key b = k) (installable_bans N (xm_locals m) now (cp_temp_bans p)) = Some b \<and>
                temp_ban_value b now clock = Inr (Some v))"
proof (cases "find (\<lambda>b. xb_key b = k) (installable_bans N (xm_locals m) now (cp_temp_bans p))")
  case None
  then show ?thesis using installed_ban(1) [OF a c None] by simp
next
  case (Some b)
  then show ?thesis using ban_written [OF a c rep Some] by auto
qed

lemma ban_map_dom:
  assumes a: "apply_to_current_maps N E now p m = (m', Inr u)"
    and c: "monotonic_now_ns (xe_timespec E) = Inr clock"
    and rep: "bans_representable now (cp_temp_bans p)"
  shows "kmap_dom (xm_temp_bans m') = xb_key ` set (installable_bans N (xm_locals m) now (cp_temp_bans p))"
    (is "_ = xb_key ` set ?xs")
proof -
  have "k \<in> dom (map_of (xm_temp_bans m')) \<longleftrightarrow> find (\<lambda>b. xb_key b = k) ?xs \<noteq> None" for k
    using ban_map_hit [OF a c rep, of k] ban_written [OF a c rep, of k] by auto
  then have "k \<in> dom (map_of (xm_temp_bans m')) \<longleftrightarrow> k \<in> xb_key ` set ?xs" for k
    using find_None_iff [of "\<lambda>b. xb_key b = k" ?xs] by auto
  then show ?thesis unfolding kmap_dom_map_of by blast
qed

lemma ban_probe:
  assumes N: "ipnet_spec N" and wf: "wf_compiled p" and B: "lookups_ok B" and d: "maps_distinct m"
    and a: "apply_to_current_maps N E now p m = (m', Inr u)"
    and c: "monotonic_now_ns (xe_timespec E) = Inr clock"
    and rep: "bans_representable now (cp_temp_bans p)"
  shows "temp_ban_value_active
           (be_temp_ban B (xm_temp_bans m') (l4_probe (family_of ip) pr dp (addr_bytes ip))) t \<longleftrightarrow>
         (\<exists>b\<in>set (installable_bans N (xm_locals m) now (cp_temp_bans p)).
            ban_hits b ip (pr, dp) \<and> int (unat t) < int (unat clock) + (xb_expires_at b - now))"
    (is "?L \<longleftrightarrow> (\<exists>b\<in>set ?xs. ?hit b \<and> ?live b)")
proof -
  let ?k = "l4_probe (family_of ip) pr dp (addr_bytes ip)"
  have lpm: "lpm_trie l4_bits (be_temp_ban B)" using B by (simp add: lookups_ok_def)
  have dm: "distinct (map fst (xm_temp_bans m'))"
    using apply_maps_distinct [OF a d] by (simp add: maps_distinct_def)
  have hits: "lpm_matches l4_bits (xb_key b) ?k \<longleftrightarrow> ?hit b" if "b \<in> set ?xs" for b
    using xb_key_matches installable_ban_wf [OF wf that] by blast
  note hit = ban_map_hit [OF a c rep]
  note dom = ban_map_dom [OF a c rep]
  have entry: "\<exists>b. b \<in> set ?xs \<and> xb_key b = e \<and> temp_ban_value b now clock = Inr (Some v)"
    if "map_of (xm_temp_bans m') e = Some v" for e v
    using that unfolding hit find_Some_iff by (auto simp: in_set_conv_nth)
  show ?thesis
  proof
    assume ?L
    then obtain v where v: "be_temp_ban B (xm_temp_bans m') ?k = Some v" and t: "t < v"
      by (auto simp: temp_ban_value_active_def split: option.splits)
    from lpm_trie.look_Some [OF lpm dm v] obtain e where
      e: "map_of (xm_temp_bans m') e = Some v" "lpm_matches l4_bits e ?k" by blast
    from entry [OF e(1)] obtain b where b: "b \<in> set ?xs" "xb_key b = e"
      "temp_ban_value b now clock = Inr (Some v)" by blast
    have "?hit b" using hits [OF b(1)] b(2) e(2) by simp
    moreover have "?live b" using temp_ban_value_Some [OF b(3)] t by (simp add: word_less_def)
    ultimately show "\<exists>b\<in>set ?xs. ?hit b \<and> ?live b" using b(1) by blast
  next
    assume "\<exists>b\<in>set ?xs. ?hit b \<and> ?live b"
    then obtain b where b: "b \<in> set ?xs" "?hit b" "?live b" by blast
    then have "xb_key b \<in> kmap_dom (xm_temp_bans m')" and "lpm_matches l4_bits (xb_key b) ?k"
      using hits unfolding dom by auto
    from lpm_trie.look_total [OF lpm dm this] obtain e v where
      v: "be_temp_ban B (xm_temp_bans m') ?k = Some v" and e: "map_of (xm_temp_bans m') e = Some v"
      "lpm_matches l4_bits e ?k" "unat (lpm_prefix (xb_key b)) \<le> unat (lpm_prefix e)" by blast
    from entry [OF e(1)] obtain b' where b': "b' \<in> set ?xs" "xb_key b' = e"
      "temp_ban_value b' now clock = Inr (Some v)" by blast
    have h': "?hit b'" using hits [OF b'(1)] b'(2) e(2) by simp
    have "xb_prefix b \<le> xb_prefix b'"
      using e(3) b'(2) lpm_prefix_keys(2) by (metis add_le_cancel_left word_le_nat_alt)
    from installable_narrow_longer [OF N wf b'(1) b(1) h' b(2) this]
    have "xb_expires_at b \<le> xb_expires_at b'" .
    then have "t < v"
      using b(3) temp_ban_value_Some [OF b'(3)] by (simp add: word_less_def)
    then show ?L using v by (simp add: temp_ban_value_active_def)
  qed
qed

lemma temp_ban_active_probes:
  "temp_ban_active B m family proto dport addr \<longleftrightarrow>
     (\<exists>c\<in>set (probe_classes proto dport).
        temp_ban_value_active (be_temp_ban B (xm_temp_bans m) (l4_probe family (fst c) (snd c) addr)) (be_now_ban B))"
  by (auto simp: temp_ban_active_def probe_classes_def Let_def)

lemma temp_ban_active_iff:
  assumes N: "ipnet_spec N" and wf: "wf_compiled p" and B: "lookups_ok B" and d: "maps_distinct m"
    and a: "apply_to_current_maps N E now p m = (m', Inr u)"
    and c: "monotonic_now_ns (xe_timespec E) = Inr clock"
    and rep: "bans_representable now (cp_temp_bans p)"
  shows "temp_ban_active B m' (family_of ip) proto dport (addr_bytes ip) \<longleftrightarrow>
           (\<exists>b\<in>set (installable_bans N (xm_locals m) now (cp_temp_bans p)).
              (\<exists>k\<in>set (probe_classes proto dport). ban_hits b ip k) \<and>
              int (unat (be_now_ban B)) < int (unat clock) + (xb_expires_at b - now))"
  unfolding temp_ban_active_probes ban_probe [OF assms] by auto

text \<open>When no ban of the policy touches an address of the interface, compaction is invisible.\<close>

lemma ban_hits_denies:
  "ban_hits b ip (proto_code pr, to_be dp) \<and> t < xb_expires_at b \<longleftrightarrow> (ip, pr, dp, t) \<in> ban_denies b"
  by (auto simp: ban_hits_def ban_denies_def proto_code_inj)

lemma ban_hits_code:
  assumes "ban_hits b ip k"
  obtains pr dp where "k = (proto_code pr, to_be dp)"
proof
  show "k = (proto_code (xb_protocol b), to_be (xb_port b))"
    using assms by (cases k) (simp add: ban_hits_def)
qed

lemma installable_covers_all:
  assumes N: "ipnet_spec N" and wf: "wf_compiled p"
    and loc: "\<And>b. b \<in> set (cp_temp_bans p) \<Longrightarrow> \<not> temp_ban_matches_local_interface N locals b"
    and t: "now \<le> t"
  shows "(\<exists>b\<in>set (installable_bans N locals now (cp_temp_bans p)). ban_hits b ip k \<and> t < xb_expires_at b)
     \<longleftrightarrow> (\<exists>b\<in>set (cp_temp_bans p). ban_hits b ip k \<and> t < xb_expires_at b)"
proof -
  have w: "wf_ban b" if "b \<in> set (cp_temp_bans p)" for b
    using wf that by (simp add: wf_compiled_def list_all_iff)
  have sub: "set (compact_temp_bans N (cp_temp_bans p)) \<subseteq> set (cp_temp_bans p)"
    unfolding compact_temp_bans_def by (rule set_compact_by_subset)
  have meaning: "(\<Union>b\<in>set (compact_temp_bans N (cp_temp_bans p)). ban_denies b) =
      (\<Union>b\<in>set (cp_temp_bans p). ban_denies b)"
    unfolding compact_temp_bans_def
    by (rule cover_meaning.compact_meaning [OF temp_ban_cover_meaning [OF N]]) (rule w)
  show ?thesis
  proof
    assume "\<exists>b\<in>set (installable_bans N locals now (cp_temp_bans p)). ban_hits b ip k \<and> t < xb_expires_at b"
    then obtain b where "b \<in> set (compact_temp_bans N (cp_temp_bans p))" "ban_hits b ip k" "t < xb_expires_at b"
      unfolding Bex_def installable_ban_iff by metis
    with sub show "\<exists>b\<in>set (cp_temp_bans p). ban_hits b ip k \<and> t < xb_expires_at b" by fast
  next
    assume "\<exists>b\<in>set (cp_temp_bans p). ban_hits b ip k \<and> t < xb_expires_at b"
    then obtain b where b: "b \<in> set (cp_temp_bans p)" "ban_hits b ip k" "t < xb_expires_at b" by blast
    obtain pr dp where k: "k = (proto_code pr, to_be dp)" using ban_hits_code [OF b(2)] .
    have "(ip, pr, dp, t) \<in> ban_denies b" using b k ban_hits_denies by blast
    then obtain b' where "b' \<in> set (compact_temp_bans N (cp_temp_bans p))" "(ip, pr, dp, t) \<in> ban_denies b'"
      using meaning b(1) by blast
    moreover from this(2) have "ban_hits b' ip k" "t < xb_expires_at b'" using ban_hits_denies k by blast+
    ultimately show "\<exists>b\<in>set (installable_bans N locals now (cp_temp_bans p)). ban_hits b ip k \<and> t < xb_expires_at b"
      using sub loc t by (intro bexI [of _ b']) (auto simp: installable_ban_iff)
  qed
qed

end
