(* ===== verification/Token_Bucket.thy ===== *)
theory Token_Bucket
  imports Xdp_Program
begin

text \<open>
  The token bucket of \<^verbatim>\<open>bpf/xdp_firewall.c\<close> as a rate limiter: how many packets a run of arrivals
  can get through, against the configured rate. Times are the 64-bit nanosecond readings; the
  product \<^verbatim>\<open>elapsed * packets_per_second\<close> may wrap, which only makes the refill smaller.
\<close>

fun bucket_run :: "u32 \<Rightarrow> u32 \<Rightarrow> u64 \<Rightarrow> u64 list \<Rightarrow> rate_bucket \<Rightarrow> rate_bucket \<times> nat" where
  "bucket_run pps burst block [] b = (b, 0)"
| "bucket_run pps burst block (t # ts) b =
     (let r = bucket_step pps burst block t b;
          q = bucket_run pps burst block ts (fst r)
      in (fst q, (if snd r then 0 else 1) + snd q))"

definition bucket_ok :: "u32 \<Rightarrow> rate_bucket \<Rightarrow> bool" where
  "bucket_ok burst b \<longleftrightarrow> unat (rb_tokens b) \<le> unat burst"

abbreviation ns :: nat where "ns \<equiv> 1000000000"

definition potential :: "u32 \<Rightarrow> nat \<Rightarrow> rate_bucket \<Rightarrow> nat" where
  "potential pps t b = unat (rb_tokens b) * ns + unat pps * (t - unat (rb_updated_ns b))"

lemma unat_ucast_u32_u64: "unat (ucast (x :: u32) :: u64) = unat x"
proof -
  have "unat x < 2 ^ 32" using unsigned_less [of x] by simp
  then show ?thesis by (simp add: unsigned_ucast_eq take_bit_nat_eq_self)
qed

lemma unat_refill:
  fixes elapsed :: u64 and pps :: u32
  shows "unat (elapsed * ucast pps div 1000000000) * ns \<le> unat elapsed * unat pps"
    and "unat (elapsed * ucast pps div 1000000000) < 2 ^ 35"
proof -
  have d: "unat (elapsed * ucast pps div 1000000000) = unat (elapsed * ucast pps :: u64) div ns"
    by (simp add: unat_div)
  have le: "unat (elapsed * ucast pps :: u64) \<le> unat elapsed * unat pps"
    unfolding unat_word_ariths unat_ucast_u32_u64 by (rule mod_less_eq_dividend)
  then show "unat (elapsed * ucast pps div 1000000000) * ns \<le> unat elapsed * unat pps"
    unfolding d using div_times_less_eq_dividend order_trans by blast
  have "unat (elapsed * ucast pps :: u64) < 2 ^ 64"
    using unsigned_less [of "elapsed * ucast pps :: u64"] by simp
  then show "unat (elapsed * ucast pps div 1000000000) < 2 ^ 35"
    unfolding d by (simp add: less_mult_imp_div_less)
qed

text \<open>The step with its intermediate values named.\<close>

definition step_refill :: "u32 \<Rightarrow> u64 \<Rightarrow> rate_bucket \<Rightarrow> u64" where
  "step_refill pps t b = (t - rb_updated_ns b) * ucast pps div 1000000000"

definition step_tokens :: "u32 \<Rightarrow> u32 \<Rightarrow> u64 \<Rightarrow> rate_bucket \<Rightarrow> u64" where
  "step_tokens pps burst t b =
     (if step_refill pps t b > 0
      then (if rb_tokens b + step_refill pps t b > ucast burst then ucast burst
            else rb_tokens b + step_refill pps t b)
      else rb_tokens b)"

definition step_updated :: "u32 \<Rightarrow> u64 \<Rightarrow> rate_bucket \<Rightarrow> u64" where
  "step_updated pps t b = (if step_refill pps t b > 0 then t else rb_updated_ns b)"

lemma bucket_step_named:
  "bucket_step pps burst block t b =
     (if block > 0 \<and> rb_blocked_until_ns b > t then (b, True)
      else if step_tokens pps burst t b = 0
      then (b\<lparr>rb_updated_ns := step_updated pps t b,
              rb_blocked_until_ns := (if block > 0 then t + block else rb_blocked_until_ns b)\<rparr>, True)
      else (b\<lparr>rb_tokens := step_tokens pps burst t b - 1, rb_updated_ns := step_updated pps t b\<rparr>, False))"
  by (simp add: bucket_step_def Let_def step_tokens_def step_updated_def word_neq_0_conv
      flip: step_refill_def)

lemma step_refill_nat:
  assumes "unat (rb_updated_ns b) \<le> unat t"
  shows "unat (step_refill pps t b) * ns \<le> unat pps * (unat t - unat (rb_updated_ns b))"
    and "unat (step_refill pps t b) < 2 ^ 35"
proof -
  have el: "unat (t - rb_updated_ns b) = unat t - unat (rb_updated_ns b)"
    using assms by (simp add: unat_sub word_le_nat_alt)
  show "unat (step_refill pps t b) * ns \<le> unat pps * (unat t - unat (rb_updated_ns b))"
    using unat_refill(1) [of "t - rb_updated_ns b" pps] unfolding step_refill_def el
    by (simp add: mult.commute)
  show "unat (step_refill pps t b) < 2 ^ 35"
    unfolding step_refill_def by (rule unat_refill(2))
qed

lemma step_tokens_nat:
  assumes ok: "bucket_ok burst b" and le: "unat (rb_updated_ns b) \<le> unat t"
  shows "unat (step_tokens pps burst t b) \<le> unat burst"
    and "unat (step_tokens pps burst t b) \<le> unat (rb_tokens b) + unat (step_refill pps t b)"
    and "step_tokens pps burst t b = 0 \<Longrightarrow> rb_tokens b = 0"
proof -
  let ?sum = "rb_tokens b + step_refill pps t b"
  have burst: "unat burst < 2 ^ 32" using unsigned_less [of burst] by simp
  have tb: "unat (rb_tokens b) \<le> unat burst" using ok by (simp add: bucket_ok_def)
  have sum: "unat ?sum = unat (rb_tokens b) + unat (step_refill pps t b)"
  proof -
    have "unat (rb_tokens b) + unat (step_refill pps t b) < 2 ^ 64"
      using tb burst step_refill_nat(2) [OF le, of pps] by simp
    then show ?thesis by (simp only: unat_word_ariths) simp
  qed
  show "unat (step_tokens pps burst t b) \<le> unat burst"
    using tb unfolding step_tokens_def word_less_nat_alt unat_ucast_u32_u64
    by (simp add: unat_ucast_u32_u64)
  show "unat (step_tokens pps burst t b) \<le> unat (rb_tokens b) + unat (step_refill pps t b)"
    using sum unfolding step_tokens_def word_less_nat_alt unat_ucast_u32_u64
    by (simp add: unat_ucast_u32_u64)
  assume z: "step_tokens pps burst t b = 0"
  have "unat (rb_tokens b) = 0"
  proof (cases "step_refill pps t b > 0")
    case False
    then show ?thesis using z by (simp add: step_tokens_def)
  next
    case True
    show ?thesis
    proof (cases "?sum > ucast burst")
      case True2: True
      then have "unat (ucast burst :: u64) = 0" using z True by (simp add: step_tokens_def)
      then show ?thesis using tb unfolding unat_ucast_u32_u64 by simp
    next
      case False
      then have "unat ?sum = 0" using z True by (simp add: step_tokens_def)
      then show ?thesis using sum by simp
    qed
  qed
  then show "rb_tokens b = 0" by (simp add: unat_eq_0)
qed

lemma step_potential:
  assumes ok: "bucket_ok burst b" and le: "unat (rb_updated_ns b) \<le> unat t"
  shows "unat (step_tokens pps burst t b) * ns + unat pps * (unat t - unat (step_updated pps t b))
           \<le> potential pps (unat t) b"
proof (cases "step_refill pps t b > 0")
  case True
  have "unat (step_tokens pps burst t b) * ns \<le> (unat (rb_tokens b) + unat (step_refill pps t b)) * ns"
    by (rule mult_le_mono1) (rule step_tokens_nat(2) [OF ok le])
  also have "\<dots> = unat (rb_tokens b) * ns + unat (step_refill pps t b) * ns"
    by (rule add_mult_distrib)
  also have "\<dots> \<le> unat (rb_tokens b) * ns + unat pps * (unat t - unat (rb_updated_ns b))"
    by (rule add_left_mono) (rule step_refill_nat(1) [OF le])
  finally show ?thesis using True by (simp add: step_updated_def potential_def)
next
  case False
  then show ?thesis by (simp add: step_updated_def potential_def step_tokens_def)
qed

text \<open>One step keeps the bucket within its burst and pays for the packet it lets through.\<close>

lemma bucket_step_pays:
  assumes ok: "bucket_ok burst b" and le: "unat (rb_updated_ns b) \<le> unat t"
    and r: "bucket_step pps burst block t b = (b', limited)"
  shows "bucket_ok burst b'" and "unat (rb_updated_ns b') \<le> unat t"
    and "potential pps (unat t) b' + (if limited then 0 else ns) \<le> potential pps (unat t) b"
proof -
  let ?k = "step_tokens pps burst t b" and ?u = "step_updated pps t b"
  note tok = step_tokens_nat [OF ok le, of pps]
  note pot = step_potential [OF ok le, of pps]
  have u: "unat ?u \<le> unat t" using le by (simp add: step_updated_def)
  consider (blocked) "b' = b" "limited"
    | (empty) "?k = 0" "rb_tokens b' = rb_tokens b" "rb_updated_ns b' = ?u" "limited"
    | (passed) "?k \<noteq> 0" "rb_tokens b' = ?k - 1" "rb_updated_ns b' = ?u" "\<not> limited"
    using r unfolding bucket_step_named by (auto split: if_splits)
  then have "bucket_ok burst b' \<and> unat (rb_updated_ns b') \<le> unat t \<and>
      potential pps (unat t) b' + (if limited then 0 else ns) \<le> potential pps (unat t) b"
  proof cases
    case blocked
    then show ?thesis using ok le by simp
  next
    case empty
    then have "rb_tokens b = 0" using tok(3) by blast
    with empty pot u show ?thesis by (simp add: bucket_ok_def potential_def)
  next
    case passed
    have k1: "unat (rb_tokens b') = unat ?k - 1" and k0: "0 < unat ?k"
      using passed by (simp_all add: unat_minus_one unat_gt_0)
    have "unat (rb_tokens b') * ns + ns = unat ?k * ns"
      unfolding k1 using k0 by (simp add: diff_mult_distrib)
    with pot passed have "potential pps (unat t) b' + ns \<le> potential pps (unat t) b"
      unfolding potential_def by simp
    then show ?thesis using passed u k1 tok(1) by (simp add: bucket_ok_def)
  qed
  then show "bucket_ok burst b'" and "unat (rb_updated_ns b') \<le> unat t"
    and "potential pps (unat t) b' + (if limited then 0 else ns) \<le> potential pps (unat t) b"
    by auto
qed

lemma potential_later:
  assumes "s \<le> t"
  shows "potential pps t b \<le> potential pps s b + unat pps * (t - s)"
proof -
  have "t - unat (rb_updated_ns b) \<le> (s - unat (rb_updated_ns b)) + (t - s)"
    using assms by simp
  then have "unat pps * (t - unat (rb_updated_ns b)) \<le>
      unat pps * ((s - unat (rb_updated_ns b)) + (t - s))"
    by (rule mult_le_mono2)
  then show ?thesis by (simp add: potential_def distrib_left)
qed

text \<open>A run of arrivals in time order, from any well-formed bucket.\<close>

lemma bucket_run_bound:
  assumes "bucket_ok burst b" and "unat (rb_updated_ns b) \<le> s"
    and "sorted (map unat ts)" and "\<forall>t\<in>set ts. s \<le> unat t \<and> unat t \<le> e" and "s \<le> e"
  shows "snd (bucket_run pps burst block ts b) * ns \<le> potential pps s b + unat pps * (e - s)"
  using assms
proof (induction ts arbitrary: b s)
  case (Cons t ts)
  obtain b' l where r: "bucket_step pps burst block t b = (b', l)" by fastforce
  have st: "s \<le> unat t" and te: "unat t \<le> e" using Cons.prems(4) by auto
  have le: "unat (rb_updated_ns b) \<le> unat t" using Cons.prems(2) st by simp
  note pay = bucket_step_pays [OF Cons.prems(1) le r]
  have "snd (bucket_run pps burst block ts b') * ns \<le> potential pps (unat t) b' + unat pps * (e - unat t)"
    using Cons.prems(3, 4) te by (intro Cons.IH pay) auto
  then have "snd (bucket_run pps burst block (t # ts) b) * ns
      \<le> (if l then 0 else ns) + (potential pps (unat t) b' + unat pps * (e - unat t))"
    using r by (simp add: Let_def)
  also have "\<dots> \<le> potential pps (unat t) b + unat pps * (e - unat t)" using pay(3) by linarith
  also have "\<dots> \<le> potential pps s b + unat pps * (unat t - s) + unat pps * (e - unat t)"
    using potential_later [OF st, of pps b] by simp
  also have "\<dots> = potential pps s b + unat pps * (e - s)"
    using st te by (simp add: distrib_left [symmetric])
  finally show ?case .
qed simp

end
