(* ===== verification/Xdp_Handle.thy ===== *)
theory Xdp_Handle
  imports Xdp_Verdict Token_Bucket
begin

text \<open>
  The verdict of the kernel program: which branch decides a packet, what it counts and what it
  reports, and that parsing stays inside the packet.
\<close>

section \<open>Accounting\<close>

lemma token_bucket_keeps:
  "pg_stats (fst (token_bucket_limited B kind family proto dport addr pps burst block s)) = pg_stats s"
  "pg_events (fst (token_bucket_limited B kind family proto dport addr pps burst block s)) = pg_events s"
  by (auto simp: token_bucket_limited_def Let_def split: option.split)

lemma dynamic_defense_keeps:
  "pg_stats (fst (dynamic_defense_limited B m family proto dport addr s)) = pg_stats s"
  "pg_events (fst (dynamic_defense_limited B m family proto dport addr s)) = pg_events s"
  by (auto simp: dynamic_defense_limited_def custom_dynamic_rate_limited_def Let_def token_bucket_keeps
      split: option.split)

lemma dynamic_defense_reason:
  "snd (dynamic_defense_limited B m family proto dport addr s)
     \<in> {0, STAT_CUSTOM_RATE_DROP, STAT_FLOOD_DROP, STAT_RATE_DROP}"
  by (auto simp: dynamic_defense_limited_def custom_dynamic_rate_limited_def Let_def
      split: option.split)

text \<open>What one call of the program adds: one counter, and one event when monitoring is on.\<close>

definition counted :: "linux_xdp_manager \<Rightarrow> u8 list \<Rightarrow> prog_state \<Rightarrow> prog_state \<Rightarrow> u32 \<Rightarrow> bool" where
  "counted m addr s s' i \<longleftrightarrow>
     pg_stats s' = (pg_stats s)(i := pg_stats s i + 1) \<and>
     (if i = STAT_PASS \<or> xm_drop_config m = 0 then pg_events s' = pg_events s
      else (\<exists>e. pg_events s' = pg_events s @ [e] \<and> de_reason e = i \<and> de_addr e = addr))"

lemma counted_drop:
  "i \<noteq> STAT_PASS \<Longrightarrow> pg_stats s1 = pg_stats s \<Longrightarrow> pg_events s1 = pg_events s \<Longrightarrow>
   counted m addr s (emit_drop_event m i family proto dport addr country action source (incr_stat i s1)) i"
  by (simp add: counted_def emit_drop_event_def incr_stat_def)

lemma counted_pass:
  "pg_stats s1 = pg_stats s \<Longrightarrow> pg_events s1 = pg_events s \<Longrightarrow>
   counted m addr s (incr_stat STAT_PASS s1) STAT_PASS"
  by (simp add: counted_def incr_stat_def)

lemma drop_reasons_not_pass:
  "STAT_RULE_DROP \<noteq> STAT_PASS" "STAT_GEO_DROP \<noteq> STAT_PASS" "STAT_RATE_DROP \<noteq> STAT_PASS"
  "STAT_FLOOD_DROP \<noteq> STAT_PASS" "STAT_CUSTOM_RATE_DROP \<noteq> STAT_PASS" "STAT_PARSE_DROP \<noteq> STAT_PASS"
  "STAT_TEMP_BAN_DROP \<noteq> STAT_PASS"
  by (simp_all add: stat_consts)

definition one_verdict :: "linux_xdp_manager \<Rightarrow> u8 list \<Rightarrow> prog_state \<Rightarrow> prog_state \<times> xdp_action \<Rightarrow> bool" where
  "one_verdict m addr s r \<longleftrightarrow>
     (\<exists>i. unat i < 8 \<and> counted m addr s (fst r) i \<and> (snd r = XdpPass \<longleftrightarrow> i = STAT_PASS))"

lemma one_verdict_pass:
  "pg_stats s1 = pg_stats s \<Longrightarrow> pg_events s1 = pg_events s \<Longrightarrow>
   one_verdict m addr s (incr_stat STAT_PASS s1, XdpPass)"
  unfolding one_verdict_def by (intro exI [of _ STAT_PASS]) (simp add: counted_pass, simp add: stat_consts)

lemma one_verdict_drop:
  "i \<noteq> STAT_PASS \<Longrightarrow> unat i < 8 \<Longrightarrow> pg_stats s1 = pg_stats s \<Longrightarrow> pg_events s1 = pg_events s \<Longrightarrow>
   one_verdict m addr s
     (emit_drop_event m i family proto dport addr country action source (incr_stat i s1), XdpDrop)"
  unfolding one_verdict_def by (intro exI [of _ i]) (simp add: counted_drop)

lemma stat_index_small:
  "unat STAT_RULE_DROP < 8" "unat STAT_GEO_DROP < 8" "unat STAT_RATE_DROP < 8" "unat STAT_FLOOD_DROP < 8"
  "unat STAT_CUSTOM_RATE_DROP < 8" "unat STAT_PARSE_DROP < 8" "unat STAT_TEMP_BAN_DROP < 8"
  by (simp_all add: stat_consts)

lemma defense_branch:
  "one_verdict m addr s
     (let d = dynamic_defense_limited B m family proto dport addr s in
      if snd d \<noteq> 0
      then (emit_drop_event m (snd d) family proto dport addr country action source
              (incr_stat (snd d) (fst d)), XdpDrop)
      else (incr_stat STAT_PASS (fst d), XdpPass))"
proof (cases "snd (dynamic_defense_limited B m family proto dport addr s) = 0")
  case True
  then show ?thesis by (simp add: Let_def one_verdict_pass dynamic_defense_keeps)
next
  case False
  have "unat (snd (dynamic_defense_limited B m family proto dport addr s)) < 8"
    using dynamic_defense_reason [of B m family proto dport addr s] stat_index_small by auto
  with False show ?thesis
    by (simp add: Let_def one_verdict_drop dynamic_defense_keeps STAT_PASS_def)
qed

lemma handle_packet_counts: "one_verdict m src s (handle_packet B m family proto dport src s)"
  unfolding handle_packet_def
  by (auto simp: Let_def [of "\<lambda>s. (incr_stat STAT_PASS s, XdpPass)"]
      simp: one_verdict_pass one_verdict_drop stat_index_small drop_reasons_not_pass defense_branch
      simp: Let_def [where s = "\<lambda>s. _ s"]
      split: option.split)

section \<open>Branches\<close>

lemma handle_trusted:
  "lookup_trusted B m family src \<noteq> None \<Longrightarrow>
   handle_packet B m family proto dport src s = (incr_stat STAT_PASS s, XdpPass)"
  by (simp add: handle_packet_def Let_def)

lemma handle_banned:
  "lookup_trusted B m family src = None \<Longrightarrow> temp_ban_active B m family proto dport src \<Longrightarrow>
   handle_packet B m family proto dport src s =
     (emit_drop_event m STAT_TEMP_BAN_DROP family proto dport src 0 ACTION_DENY 0
        (incr_stat STAT_TEMP_BAN_DROP s), XdpDrop)"
  by (simp add: handle_packet_def Let_def)

lemma handle_rule:
  assumes "lookup_trusted B m family src = None" and "\<not> temp_ban_active B m family proto dport src"
    and "lookup_rule B m family proto dport src = Some (rule_value r)"
  shows "handle_packet B m family proto dport src s =
    (case xr_action r of
       Deny \<Rightarrow> (emit_drop_event m STAT_RULE_DROP family proto dport src 0 ACTION_DENY
                 (rule_source_code (xr_source r)) (incr_stat STAT_RULE_DROP s), XdpDrop)
     | Allow \<Rightarrow> (incr_stat STAT_PASS s, XdpPass))"
  using assms
  by (cases "xr_action r") (simp_all add: handle_packet_def Let_def rule_value_def code_consts)

text \<open>What is left when neither trust, nor a ban, nor a rule decides.\<close>

definition country_action :: "bpf_env \<Rightarrow> linux_xdp_manager \<Rightarrow> u8 \<Rightarrow> u8 list \<Rightarrow> u8 option" where
  "country_action B m family src =
     (case lookup_geo B m family src of
        None \<Rightarrow> None
      | Some c \<Rightarrow> map_of (xm_country_rules m) (ucast c))"

lemma handle_undecided:
  assumes "lookup_trusted B m family src = None" and "\<not> temp_ban_active B m family proto dport src"
    and "lookup_rule B m family proto dport src = None"
  shows "snd (handle_packet B m family proto dport src s) = XdpPass \<longleftrightarrow>
     country_action B m family src \<noteq> Some ACTION_DENY \<and>
     snd (dynamic_defense_limited B m family proto dport src s) = 0"
  using assms
  by (auto simp: handle_packet_def Let_def country_action_def split: option.split)

section \<open>Parsing\<close>

lemma skip_ipv6_cursor:
  "cursor \<le> length pkt \<Longrightarrow> skip_ipv6_extensions n pkt cursor proto = (Some c, p) \<Longrightarrow>
   cursor \<le> c \<and> c \<le> length pkt"
proof (induction n arbitrary: cursor proto)
  case (Suc n)
  show ?case
    using Suc.prems Suc.IH [of "cursor + (unat (pkt ! (cursor + 1)) + 1) * 8" "pkt ! cursor"]
    by (fastforce simp: Let_def split: if_splits)
qed simp

text \<open>Packets the program cannot parse never reach the policy.\<close>

definition ip_packet :: "u8 list \<Rightarrow> bool" where
  "ip_packet pkt \<longleftrightarrow> 14 \<le> length pkt \<and>
     (pkt ! 12 = 0x08 \<and> pkt ! 13 = 0x00 \<and> 34 \<le> length pkt \<or>
      pkt ! 12 = 0x86 \<and> pkt ! 13 = 0xDD \<and> 54 \<le> length pkt)"

lemma xdp_firewall_non_ip: "\<not> ip_packet pkt \<Longrightarrow> xdp_firewall B m pkt s = (s, XdpPass)"
  by (auto simp: xdp_firewall_def ip_packet_def Let_def not_le)

definition packet_source :: "u8 list \<Rightarrow> u8 list" where
  "packet_source pkt = (if pkt ! 12 = 0x08 then copy_addr4 pkt 26 else copy_addr6 pkt 22)"

lemma xdp_firewall_counts:
  assumes "ip_packet pkt"
  shows "one_verdict m (packet_source pkt) s (xdp_firewall B m pkt s)"
proof -
  have bad: "one_verdict m src s
      (emit_drop_event m STAT_PARSE_DROP family proto 0 src 0 ACTION_DENY 0 (incr_stat STAT_PARSE_DROP s), XdpDrop)"
    for src family proto by (simp add: one_verdict_drop stat_index_small drop_reasons_not_pass)
  consider (v4) "pkt ! 12 = 0x08" "pkt ! 13 = 0x00" "34 \<le> length pkt"
    | (v6) "pkt ! 12 = 0x86" "pkt ! 13 = 0xDD" "54 \<le> length pkt"
    using assms by (auto simp: ip_packet_def)
  then show ?thesis
  proof cases
    case v4
    then show ?thesis
      by (auto simp: xdp_firewall_def packet_source_def Let_def bad handle_packet_counts split: option.split)
  next
    case v6
    then show ?thesis
      by (auto simp: xdp_firewall_def packet_source_def Let_def bad handle_packet_counts split: option.split)
  qed
qed

end
