(* ===== verification/Xdp_Progress.thy ===== *)
theory Xdp_Progress
  imports Xdp_Install
begin

text \<open>
  When applying a policy succeeds, when it cannot, and what a failed apply leaves behind. The write
  passes run before the clean-up passes, so a map must hold the old and the new keys together.
\<close>

section \<open>Success\<close>

definition env_bounded :: "xdp_env \<Rightarrow> xdp_map_sizes \<Rightarrow> bool" where
  "env_bounded E s \<longleftrightarrow>
     kernel_map (xe_rules E) (unat (rule_entries s)) \<and> kernel_map (xe_geo E) (unat (geo_entries s)) \<and>
     kernel_map (xe_trusted E) (unat (trusted_entries s)) \<and>
     kernel_map (xe_country E) (unat (country_entries s)) \<and>
     kernel_map (xe_custom E) (unat (custom_rate_limit_entries s)) \<and>
     kernel_map (xe_temp_bans E) (unat (temp_ban_entries s))"

definition all_maps_distinct :: "linux_xdp_manager \<Rightarrow> bool" where
  "all_maps_distinct m \<longleftrightarrow>
     distinct (map fst (xm_rule_cidrs m)) \<and> distinct (map fst (xm_geo_cidrs m)) \<and>
     distinct (map fst (xm_trusted_cidrs m)) \<and> distinct (map fst (xm_country_rules m)) \<and>
     distinct (map fst (xm_custom_rate_limits m)) \<and> distinct (map fst (xm_temp_bans m))"

text \<open>Old and new keys together fit every map.\<close>

definition room_for :: "linux_xdp_manager \<Rightarrow> pending_policy_keys \<Rightarrow> bool" where
  "room_for m pk \<longleftrightarrow>
     card (fst ` set (xm_rule_cidrs m) \<union> fst ` set (pk_rules pk)) \<le> unat (rule_entries (xm_map_sizes m)) \<and>
     card (fst ` set (xm_geo_cidrs m) \<union> fst ` set (pk_geo_prefixes pk)) \<le> unat (geo_entries (xm_map_sizes m)) \<and>
     card (fst ` set (xm_trusted_cidrs m) \<union> set (pk_trusted_keys pk)) \<le> unat (trusted_entries (xm_map_sizes m)) \<and>
     card (fst ` set (xm_country_rules m) \<union> fst ` set (pk_country_rules pk)) \<le> unat (country_entries (xm_map_sizes m)) \<and>
     card (fst ` set (xm_custom_rate_limits m) \<union> fst ` set (pk_custom_rate_limits pk))
       \<le> unat (custom_rate_limit_entries (xm_map_sizes m)) \<and>
     card (fst ` set (xm_temp_bans m) \<union> fst ` set (pk_temp_bans pk)) \<le> unat (temp_ban_entries (xm_map_sizes m))"

lemma put_step_ok:
  assumes "kernel_map E cap" and "distinct (map fst (get_map s))"
    and "card (fst ` set (get_map s) \<union> key ` set xs) \<le> cap"
    and "\<And>x. x \<in> set xs \<Longrightarrow> \<exists>ov. val x = Inr ov"
  shows "\<exists>b. on_map get_map put_map (kmap_put_each E nm key val xs) s = (put_map b s, Inr ())"
proof -
  have "\<exists>b. kmap_put_each E nm key val xs (get_map s) = (b, Inr ())"
    by (rule kernel_map.put_each_within [OF assms(1, 2), where U = "fst ` set (get_map s) \<union> key ` set xs"])
       (use assms(3, 4) in \<open>auto simp: kmap_dom_def\<close>)
  then show ?thesis by (auto simp: on_map_def)
qed

lemma stale_step_ok:
  assumes "kernel_map E cap"
  shows "\<exists>b. on_map get_map put_map (kmap_remove_stale E nm f ids) s = (put_map b s, Inr ())"
  using kernel_map.remove_stale_ok [OF assms, of nm f ids "get_map s"] by (auto simp: on_map_def)

lemma put_pending_ok:
  assumes E: "env_bounded E (xm_map_sizes m)" and d: "all_maps_distinct m" and room: "room_for m pk"
    and v: "\<And>k b. (k, b) \<in> set (pk_temp_bans pk) \<Longrightarrow> \<exists>ov. temp_ban_value b now clock = Inr ov"
  shows "\<exists>m'. put_pending E now clock pk m = (m', Inr ())"
proof -
  note facts = E [unfolded env_bounded_def] d [unfolded all_maps_distinct_def] room [unfolded room_for_def]
  let ?s = "xm_map_sizes m"
  obtain b1 where 1: "put_temp_bans E now clock (pk_temp_bans pk) m = (m\<lparr>xm_temp_bans := b1\<rparr>, Inr ())"
    using put_step_ok [of "xe_temp_bans E" "unat (temp_ban_entries ?s)" xm_temp_bans m fst "pk_temp_bans pk"
        "\<lambda>(_, b). temp_ban_value b now clock"] facts v
    unfolding put_temp_bans_def by fastforce
  let ?m1 = "m\<lparr>xm_temp_bans := b1\<rparr>"
  obtain b2 where 2: "put_custom_rates E (pk_custom_rate_limits pk) ?m1
      = (?m1\<lparr>xm_custom_rate_limits := b2\<rparr>, Inr ())"
    using put_step_ok [of "xe_custom E" "unat (custom_rate_limit_entries ?s)" xm_custom_rate_limits ?m1 fst
        "pk_custom_rate_limits pk" "\<lambda>(_, l). Inr (Some (custom_rate_value l))"] facts
    unfolding put_custom_rates_def by fastforce
  let ?m2 = "?m1\<lparr>xm_custom_rate_limits := b2\<rparr>"
  obtain b3 where 3: "put_trusted_keys E (pk_trusted_keys pk) ?m2 = (?m2\<lparr>xm_trusted_cidrs := b3\<rparr>, Inr ())"
    using put_step_ok [of "xe_trusted E" "unat (trusted_entries ?s)" xm_trusted_cidrs ?m2 "\<lambda>k. k"
        "pk_trusted_keys pk" "\<lambda>_. Inr (Some 1)"] facts
    unfolding put_trusted_keys_def by fastforce
  let ?m3 = "?m2\<lparr>xm_trusted_cidrs := b3\<rparr>"
  obtain b4 where 4: "put_rules E (pk_rules pk) ?m3 = (?m3\<lparr>xm_rule_cidrs := b4\<rparr>, Inr ())"
    using put_step_ok [of "xe_rules E" "unat (rule_entries ?s)" xm_rule_cidrs ?m3 fst "pk_rules pk"
        "\<lambda>(_, r). Inr (Some (rule_value r))"] facts
    unfolding put_rules_def by fastforce
  let ?m4 = "?m3\<lparr>xm_rule_cidrs := b4\<rparr>"
  obtain b5 where 5: "put_geo_prefixes E (pk_geo_prefixes pk) ?m4 = (?m4\<lparr>xm_geo_cidrs := b5\<rparr>, Inr ())"
    using put_step_ok [of "xe_geo E" "unat (geo_entries ?s)" xm_geo_cidrs ?m4 fst "pk_geo_prefixes pk"
        "\<lambda>(_, g). Inr (Some (geo_value g))"] facts
    unfolding put_geo_prefixes_def by fastforce
  let ?m5 = "?m4\<lparr>xm_geo_cidrs := b5\<rparr>"
  obtain b6 where 6: "put_country_rules E (pk_country_rules pk) ?m5 = (?m5\<lparr>xm_country_rules := b6\<rparr>, Inr ())"
    using put_step_ok [of "xe_country E" "unat (country_entries ?s)" xm_country_rules ?m5 fst
        "pk_country_rules pk" "\<lambda>(_, c). Inr (Some (country_value c))"] facts
    unfolding put_country_rules_def by fastforce
  show ?thesis by (simp add: put_pending_def then_step_def 1 2 3 4 5 6)
qed

lemma remove_stale_policy_keys_ok:
  assumes "env_bounded E sizes"
  shows "\<exists>m'. remove_stale_policy_keys E pk m = (m', Inr ())"
proof -
  note facts = assms [unfolded env_bounded_def]
  have 1: "\<exists>b. remove_stale_rule_keys E ids s = (s\<lparr>xm_rule_cidrs := b\<rparr>, Inr ())" for ids s
    unfolding remove_stale_rule_keys_def using facts by (intro stale_step_ok) blast
  have 2: "\<exists>b. remove_stale_geo_keys E ids s = (s\<lparr>xm_geo_cidrs := b\<rparr>, Inr ())" for ids s
    unfolding remove_stale_geo_keys_def using facts by (intro stale_step_ok) blast
  have 3: "\<exists>b. remove_stale_trusted_keys E ids s = (s\<lparr>xm_trusted_cidrs := b\<rparr>, Inr ())" for ids s
    unfolding remove_stale_trusted_keys_def using facts by (intro stale_step_ok) blast
  have 4: "\<exists>b. remove_stale_country_keys E ids s = (s\<lparr>xm_country_rules := b\<rparr>, Inr ())" for ids s
    unfolding remove_stale_country_keys_def using facts by (intro stale_step_ok) blast
  have 5: "\<exists>b. remove_stale_custom_rate_keys E ids s = (s\<lparr>xm_custom_rate_limits := b\<rparr>, Inr ())" for ids s
    unfolding remove_stale_custom_rate_keys_def using facts by (intro stale_step_ok) blast
  have 6: "\<exists>b. remove_stale_temp_ban_keys E ids s = (s\<lparr>xm_temp_bans := b\<rparr>, Inr ())" for ids s
    unfolding remove_stale_temp_ban_keys_def using facts by (intro stale_step_ok) blast
  have next_step: "\<exists>s'. then_step r f = (s', Inr ())"
    if "\<exists>s. r = (s, Inr ())" and "\<And>s. \<exists>s'. f s = (s', Inr ())"
    for r :: "linux_xdp_manager \<times> unit res" and f :: "linux_xdp_manager \<Rightarrow> linux_xdp_manager \<times> unit res"
    using that by (auto simp: then_step_def)
  show ?thesis
    unfolding remove_stale_policy_keys_def
    by (intro next_step) (use 1 2 3 4 5 6 in blast)+
qed

lemma apply_current_ok:
  assumes req: "required_policy_map_sizes N m p = Inr req" "fits req (xm_map_sizes m)"
    and E: "env_bounded E (xm_map_sizes m)" and d: "all_maps_distinct m"
    and set_ok: "xe_set_defense E" and clock: "monotonic_now_ns (xe_timespec E) = Inr clock"
    and room: "room_for m (build_pending_policy_keys N (xm_locals m) p now)"
    and v: "\<And>b. b \<in> set (cp_temp_bans p) \<Longrightarrow> \<exists>ov. temp_ban_value b now clock = Inr ov"
  shows "\<exists>m'. apply_to_current_maps N E now p m = (m', Inr ())"
proof -
  let ?pk = "build_pending_policy_keys N (xm_locals m) p now"
  let ?m1 = "m\<lparr>xm_defense_policy := defense_value (cp_dynamic_defense p)\<rparr>"
  have "\<exists>ov. temp_ban_value b now clock = Inr ov" if kb: "(k, b) \<in> set (pk_temp_bans ?pk)" for k b
  proof (rule v)
    have "(k, b) \<in> set (snd (pending_temp_bans N (xm_locals m) (cp_temp_bans p) now))"
      using kb by (simp add: pending_fields)
    then have "b \<in> set (installable_bans N (xm_locals m) now (cp_temp_bans p))"
      unfolding pending_temp_bans_unique Let_def snd_conv using snd_unique_by_subset by fastforce
    then show "b \<in> set (cp_temp_bans p)"
      using set_compact_by_subset unfolding installable_bans_def compact_temp_bans_def by fastforce
  qed
  then obtain m2 where m2: "put_pending E now clock ?pk ?m1 = (m2, Inr ())"
    using put_pending_ok [of E ?m1 ?pk now clock] E d room
    by (auto simp: all_maps_distinct_def room_for_def)
  obtain m3 where m3: "remove_stale_policy_keys E ?pk m2 = (m3, Inr ())"
    using remove_stale_policy_keys_ok [OF E] by blast
  have "validate_map_capacity req (xm_map_sizes m) = Inr ()"
    using req(2) by (simp add: validate_map_capacity_iff)
  then show ?thesis
    using req(1) set_ok clock m2 m3
    by (simp add: apply_to_current_maps_def put_dynamic_defense_def then_step_def Let_def)
qed

section \<open>Failure\<close>

text \<open>A property of the maps that every step keeps holds after the apply, whatever its result.\<close>

lemma then_step_keeps: "P (fst r) \<Longrightarrow> (\<And>s. P s \<Longrightarrow> P (fst (f s))) \<Longrightarrow> P (fst (then_step r f))"
  by (auto simp: then_step_def split: sum.split)

definition holds_keys ::
    "rule_key_t set \<Rightarrow> trusted_key_t set \<Rightarrow> temp_ban_key_t set \<Rightarrow> linux_xdp_manager \<Rightarrow> bool" where
  "holds_keys R T B m \<longleftrightarrow> R \<subseteq> kmap_dom (xm_rule_cidrs m) \<and> T \<subseteq> kmap_dom (xm_trusted_cidrs m) \<and>
     B \<subseteq> kmap_dom (xm_temp_bans m)"

lemma fst_on_map: "fst (on_map get_map put_map f s) = put_map (fst (f (get_map s))) s"
  by (simp add: on_map_def Let_def)

lemma put_each_grows:
  "A \<subseteq> kmap_dom m \<Longrightarrow> A \<subseteq> kmap_dom (fst (kmap_put_each E nm key val xs m))"
  by (rule order_trans [OF _ kmap_put_each_keeps])

lemma remove_stale_leaves:
  "A \<subseteq> kmap_dom m \<Longrightarrow> key_id ` A \<subseteq> ids \<Longrightarrow> A \<subseteq> kmap_dom (fst (kmap_remove_stale E nm key_id ids m))"
  by (rule subsetI) (rule kmap_remove_stale_keeps; blast)

lemma put_steps_keep:
  "holds_keys R T B m \<Longrightarrow> holds_keys R T B (fst (put_temp_bans E now clock bans m))"
  "holds_keys R T B m \<Longrightarrow> holds_keys R T B (fst (put_custom_rates E limits m))"
  "holds_keys R T B m \<Longrightarrow> holds_keys R T B (fst (put_trusted_keys E keys m))"
  "holds_keys R T B m \<Longrightarrow> holds_keys R T B (fst (put_rules E rules m))"
  "holds_keys R T B m \<Longrightarrow> holds_keys R T B (fst (put_geo_prefixes E geo m))"
  "holds_keys R T B m \<Longrightarrow> holds_keys R T B (fst (put_country_rules E countries m))"
  "holds_keys R T B m \<Longrightarrow> holds_keys R T B (fst (put_dynamic_defense E d m))"
  by (simp_all add: holds_keys_def put_temp_bans_def put_custom_rates_def put_trusted_keys_def
      put_rules_def put_geo_prefixes_def put_country_rules_def put_dynamic_defense_def fst_on_map
      put_each_grows)

lemma stale_steps_keep:
  "holds_keys R T B m \<Longrightarrow> rule_key_id ` R \<subseteq> ids \<Longrightarrow> holds_keys R T B (fst (remove_stale_rule_keys E ids m))"
  "holds_keys R T B m \<Longrightarrow> holds_keys R T B (fst (remove_stale_geo_keys E gids m))"
  "holds_keys R T B m \<Longrightarrow> trusted_key_id ` T \<subseteq> tids \<Longrightarrow> holds_keys R T B (fst (remove_stale_trusted_keys E tids m))"
  "holds_keys R T B m \<Longrightarrow> holds_keys R T B (fst (remove_stale_country_keys E cids m))"
  "holds_keys R T B m \<Longrightarrow> holds_keys R T B (fst (remove_stale_custom_rate_keys E lids m))"
  "holds_keys R T B m \<Longrightarrow> temp_ban_key_id ` B \<subseteq> bids \<Longrightarrow> holds_keys R T B (fst (remove_stale_temp_ban_keys E bids m))"
proof -
  assume h: "holds_keys R T B m"
  then have R: "R \<subseteq> kmap_dom (xm_rule_cidrs m)" and T: "T \<subseteq> kmap_dom (xm_trusted_cidrs m)"
    and B: "B \<subseteq> kmap_dom (xm_temp_bans m)" by (simp_all add: holds_keys_def)
  show "rule_key_id ` R \<subseteq> ids \<Longrightarrow> holds_keys R T B (fst (remove_stale_rule_keys E ids m))"
    using remove_stale_leaves [OF R, of rule_key_id ids "xe_rules E" "''rule_cidrs''"] T B
    by (simp add: holds_keys_def remove_stale_rule_keys_def fst_on_map del: image_subset_iff)
  show "trusted_key_id ` T \<subseteq> tids \<Longrightarrow> holds_keys R T B (fst (remove_stale_trusted_keys E tids m))"
    using remove_stale_leaves [OF T, of trusted_key_id tids "xe_trusted E" "''trusted_cidrs''"] R B
    by (simp add: holds_keys_def remove_stale_trusted_keys_def fst_on_map del: image_subset_iff)
  show "temp_ban_key_id ` B \<subseteq> bids \<Longrightarrow> holds_keys R T B (fst (remove_stale_temp_ban_keys E bids m))"
    using remove_stale_leaves [OF B, of temp_ban_key_id bids "xe_temp_bans E" "''temp_bans''"] R T
    by (simp add: holds_keys_def remove_stale_temp_ban_keys_def fst_on_map del: image_subset_iff)
  show "holds_keys R T B (fst (remove_stale_geo_keys E gids m))"
    "holds_keys R T B (fst (remove_stale_country_keys E cids m))"
    "holds_keys R T B (fst (remove_stale_custom_rate_keys E lids m))"
    using R T B by (simp_all add: holds_keys_def remove_stale_geo_keys_def remove_stale_country_keys_def
        remove_stale_custom_rate_keys_def fst_on_map)
qed

lemma apply_keeps_keys:
  assumes h: "holds_keys R T B m"
    and ids: "rule_key_id ` R \<subseteq> pk_rule_ids (build_pending_policy_keys N (xm_locals m) p now)"
      "trusted_key_id ` T \<subseteq> pk_trusted_ids (build_pending_policy_keys N (xm_locals m) p now)"
      "temp_ban_key_id ` B \<subseteq> pk_temp_ban_ids (build_pending_policy_keys N (xm_locals m) p now)"
  shows "holds_keys R T B (fst (apply_to_current_maps N E now p m))"
proof -
  let ?pk = "build_pending_policy_keys N (xm_locals m) p now"
  have put: "holds_keys R T B s \<Longrightarrow> holds_keys R T B (fst (put_pending E now clock ?pk s))" for s clock
    unfolding put_pending_def by (intro then_step_keeps [where P = "holds_keys R T B"] put_steps_keep)
  have stale: "holds_keys R T B s \<Longrightarrow> holds_keys R T B (fst (remove_stale_policy_keys E ?pk s))" for s
    unfolding remove_stale_policy_keys_def by (intro then_step_keeps [where P = "holds_keys R T B"] stale_steps_keep ids)
  have defended: "holds_keys R T B (m\<lparr>xm_defense_policy := d\<rparr>)" for d
    using h by (simp add: holds_keys_def)
  show ?thesis
    using h put stale defended
    unfolding apply_to_current_maps_def
    by (auto split: sum.split simp: Let_def then_step_def put_dynamic_defense_def)
qed

lemma full_rule_map_fails:
  assumes E: "kernel_map (xe_rules E) cap" and full: "cap \<le> length (xm_rule_cidrs m)"
    and new: "\<exists>q\<in>set (pk_rules (build_pending_policy_keys N (xm_locals m) p now)).
                fst q \<notin> kmap_dom (xm_rule_cidrs m)"
  shows "snd (apply_to_current_maps N E now p m) \<noteq> Inr u"
proof
  assume "snd (apply_to_current_maps N E now p m) = Inr u"
  then obtain m' where a: "apply_to_current_maps N E now p m = (m', Inr u)" by (metis prod.collapse)
  from apply_map_steps(1) [OF a] obtain b where
    "kmap_put_each (xe_rules E) ''rule_cidrs'' fst (\<lambda>(_, x). Inr (Some (rule_value x)))
       (snd (pending_rules N (xm_locals m) p)) (xm_rule_cidrs m) = (b, Inr ())" by blast
  moreover have "\<exists>m' e. kmap_put_each (xe_rules E) ''rule_cidrs'' fst (\<lambda>(_, x). Inr (Some (rule_value x)))
       (snd (pending_rules N (xm_locals m) p)) (xm_rule_cidrs m) = (m', Inl e)"
    using new by (intro kernel_map.put_each_full [OF E full]) (auto simp: pending_fields)
  ultimately show False by auto
qed

section \<open>Resizing\<close>

lemma expanded_capacity_fits: "expanded_capacity nm c r = Inr x \<Longrightarrow> r \<le> x \<and> c \<le> x"
proof (cases "r \<le> c")
  case True
  then show "expanded_capacity nm c r = Inr x \<Longrightarrow> r \<le> x \<and> c \<le> x"
    by (simp add: expanded_capacity_def)
next
  case False
  assume e: "expanded_capacity nm c r = Inr x"
  from False show ?thesis
  proof (cases rule: expanded_capacity_cases [where name = nm])
    case (fits p k)
    have "x = of_nat p" using e fits(1) by simp
    then have "unat x = p" using fits(5) by (simp add: unsigned_of_nat take_bit_nat_eq_self)
    then show ?thesis using fits(3,4) by (simp add: word_le_nat_alt)
  next
    case refuses
    then show ?thesis using e by simp
  qed
qed

lemma expanded_capacity_same: "expanded_capacity nm c r = Inr c \<longleftrightarrow> r \<le> c"
  using expanded_capacity_fits [of nm c r c] by (auto simp: expanded_capacity_def)

lemma resized_None_iff: "resized_map_sizes c r = Inr None \<longleftrightarrow> fits r c"
proof
  assume "resized_map_sizes c r = Inr None"
  then show "fits r c"
    by (cases c) (auto simp: resized_map_sizes_def res_simps Let_def fits_def expanded_capacity_same split: if_splits
        dest: expanded_capacity_fits)
next
  assume "fits r c"
  then show "resized_map_sizes c r = Inr None"
    by (simp add: resized_map_sizes_def fits_def expanded_capacity_def Let_def)
qed

lemma resized_Some:
  assumes "resized_map_sizes c r = Inr (Some s)"
  shows "fits r s" and "rate_entries s = rate_entries c" and "\<not> fits r c"
proof -
  show "fits r s" and "rate_entries s = rate_entries c"
    using assms by (auto simp: resized_map_sizes_def res_simps Let_def fits_def split: if_splits
        dest: expanded_capacity_fits)
  show "\<not> fits r c"
  proof
    assume "fits r c"
    then have "resized_map_sizes c r = Inr None" by (simp add: resized_None_iff)
    with assms show False by simp
  qed
qed

lemma expanded_capacity_refuses:
  "expanded_capacity nm c r = Inl e \<Longrightarrow> 2 ^ 31 < max (2 * unat c) (unat r) \<and> \<not> r \<le> c"
proof -
  assume e: "expanded_capacity nm c r = Inl e"
  then have n: "\<not> r \<le> c" by (auto simp: expanded_capacity_def)
  then show ?thesis
  proof (cases rule: expanded_capacity_cases [where name = nm])
    case (fits p k)
    then show ?thesis using e by simp
  qed (use n in simp)
qed

definition outgrown :: "u32 \<Rightarrow> u32 \<Rightarrow> bool" where
  "outgrown c r \<longleftrightarrow> 2 ^ 31 < max (2 * unat c) (unat r) \<and> \<not> r \<le> c"

lemma resized_Inl:
  assumes "resized_map_sizes c r = Inl e"
  shows "outgrown (rule_entries c) (rule_entries r) \<or> outgrown (geo_entries c) (geo_entries r) \<or>
     outgrown (trusted_entries c) (trusted_entries r) \<or> outgrown (country_entries c) (country_entries r) \<or>
     outgrown (custom_rate_limit_entries c) (custom_rate_limit_entries r) \<or>
     outgrown (temp_ban_entries c) (temp_ban_entries r)"
proof -
  have "\<exists>nm. expanded_capacity nm (rule_entries c) (rule_entries r) = Inl e \<or>
      expanded_capacity nm (geo_entries c) (geo_entries r) = Inl e \<or>
      expanded_capacity nm (trusted_entries c) (trusted_entries r) = Inl e \<or>
      expanded_capacity nm (country_entries c) (country_entries r) = Inl e \<or>
      expanded_capacity nm (custom_rate_limit_entries c) (custom_rate_limit_entries r) = Inl e \<or>
      expanded_capacity nm (temp_ban_entries c) (temp_ban_entries r) = Inl e"
    using assms unfolding resized_map_sizes_def bindE_Inl_iff Let_def by blast
  then show ?thesis unfolding outgrown_def using expanded_capacity_refuses by blast
qed

end
