(* ===== verification/Sample_Policy.thy ===== *)
theory Sample_Policy
  imports Xdp_Handle Xdp_Progress
begin

text \<open>
  A small concrete deployment for the witnesses: an agent on 192.0.2.1, a compiled policy with one
  entry of every kind, and environments in which every system call succeeds.
\<close>

definition sample_env :: xdp_env where
  "sample_env =
     \<lparr>xe_rules = bounded_env 8, xe_geo = bounded_env 8, xe_trusted = bounded_env 8,
      xe_country = bounded_env 8, xe_custom = bounded_env 8, xe_temp_bans = bounded_env 8,
      xe_set_defense = True, xe_set_drop = True, xe_timespec = Some (5, 0),
      xe_unload = True, xe_remove_pins = True, xe_attach = (\<lambda>_ _. Inl (AttachFailed ''none''))\<rparr>"

definition sample_sizes :: xdp_map_sizes where
  "sample_sizes =
     \<lparr>rule_entries = 8, geo_entries = 8, trusted_entries = 8, country_entries = 8,
      rate_entries = 8, custom_rate_limit_entries = 8, temp_ban_entries = 8\<rparr>"

definition sample_manager :: linux_xdp_manager where
  "sample_manager =
     \<lparr>xm_interface = ''eth0'', xm_attach_options = default_attach_options, xm_direct_link = True,
      xm_rule_cidrs = [], xm_geo_cidrs = [], xm_trusted_cidrs = [], xm_country_rules = [],
      xm_defense_policy = \<lparr>dv_enabled = 0, dv_ip_rate_limit_enabled = 0, dv_flood_enabled = 0,
        dv_pad = 0, dv_ip_packets_per_second = 0, dv_ip_burst = 0, dv_flood_packets_per_second = 0,
        dv_flood_burst = 0, dv_flood_block_ns = 0\<rparr>,
      xm_custom_rate_limits = [], xm_temp_bans = [], xm_drop_config = 1, xm_map_sizes = sample_sizes,
      xm_locals = [\<lparr>lc_ip = V4 0xC0000201, lc_prefix = 24\<rparr>]\<rparr>"

definition sample_policy :: compiled_policy where
  "sample_policy =
     \<lparr>cp_version = 7,
      cp_trusted_prefixes = [\<lparr>xt_addr = V4 0x0A000000, xt_prefix = 8\<rparr>],
      cp_rules =
        [\<lparr>xr_addr = V4 0xC6336400, xr_prefix = 24, xr_priority = 10, xr_action = Deny,
          xr_protocol = Tcp, xr_port = 22, xr_source = FirewallRuleSource\<rparr>,
         \<lparr>xr_addr = V4 0xC0000200, xr_prefix = 24, xr_priority = 5, xr_action = Deny,
          xr_protocol = AnyProto, xr_port = 0, xr_source = FirewallRuleSource\<rparr>],
      cp_country_rules = [\<lparr>xc_country = 0x5A5A, xc_action = Deny\<rparr>],
      cp_temp_bans = [\<lparr>xb_addr = V4 0xCB007105, xb_prefix = 32, xb_protocol = AnyProto, xb_port = 0,
          xb_expires_at = 2000\<rparr>],
      cp_dynamic_defense = compile_dynamic_defense default_dynamic_defense,
      cp_dynamic_rate_limits = [\<lparr>xl_protocol = Udp, xl_port = 53, xl_packets_per_second = 10, xl_burst = 20\<rparr>],
      cp_geo_prefixes = [\<lparr>xg_addr = V4 0xCB007200, xg_prefix = 24, xg_country = 0x5A5A\<rparr>],
      cp_threat_prefixes = []\<rparr>"

definition idle_state :: prog_state where
  "idle_state = \<lparr>pg_buckets = (\<lambda>_. None), pg_stats = (\<lambda>_. 0), pg_events = []\<rparr>"

definition sample_installed :: linux_xdp_manager where
  "sample_installed = fst (apply_to_current_maps ref_ipnet sample_env 1000 sample_policy sample_manager)"


definition sample_required :: xdp_map_sizes where
  "sample_required =
     \<lparr>rule_entries = 2, geo_entries = 1, trusted_entries = 1, country_entries = 1,
      rate_entries = 8, custom_rate_limit_entries = 1, temp_ban_entries = 1\<rparr>"

lemma sample_required_ok:
  "required_policy_map_sizes ref_ipnet sample_manager sample_policy = Inr sample_required"
  by code_simp

lemma sample_env_bounded: "env_bounded sample_env (xm_map_sizes sample_manager)"
  using bounded.kernel_map_axioms [of 8]
  by (simp add: env_bounded_def sample_env_def sample_manager_def sample_sizes_def
      bounded.kernel_map_axioms)

lemma sample_distinct: "all_maps_distinct sample_manager" "maps_distinct sample_manager"
  by (simp_all add: all_maps_distinct_def maps_distinct_def sample_manager_def)

lemma sample_clock: "monotonic_now_ns (xe_timespec sample_env) = Inr 5000000000"
  by code_simp

lemma sample_room:
  "room_for sample_manager
     (build_pending_policy_keys ref_ipnet (xm_locals sample_manager) sample_policy 1000)"
  by code_simp

lemma sample_ban_value:
  "b \<in> set (cp_temp_bans sample_policy) \<Longrightarrow> \<exists>ov. temp_ban_value b 1000 5000000000 = Inr ov"
  by (simp add: sample_policy_def temp_ban_value_def num_nanoseconds_def checked_add_u64_code)

lemma sample_apply_ok:
  "apply_to_current_maps ref_ipnet sample_env 1000 sample_policy sample_manager
     = (sample_installed, Inr ())"
proof -
  have "fits sample_required (xm_map_sizes sample_manager)" by code_simp
  moreover have "xe_set_defense sample_env" by (simp add: sample_env_def)
  ultimately obtain m' where
    "apply_to_current_maps ref_ipnet sample_env 1000 sample_policy sample_manager = (m', Inr ())"
    using apply_current_ok [OF sample_required_ok _ sample_env_bounded sample_distinct(1) _ sample_clock
        sample_room sample_ban_value] by blast
  then show ?thesis by (simp add: sample_installed_def)
qed

lemma sample_wf: "wf_compiled sample_policy"
  by code_simp

lemma sample_representable: "bans_representable 1000 (cp_temp_bans sample_policy)"
  by code_simp

lemma sample_padded: "trusted_padded (xm_trusted_cidrs sample_manager)"
  by (simp add: trusted_padded_def sample_manager_def kmap_dom_def)

end
