(* ===== verification/Data_Plane_Claims.thy ===== *)
theory Data_Plane_Claims
  imports Sample_Policy
begin

text \<open>
  The properties of the data plane: what a packet meets after a compiled policy has been applied,
  what applying does to the maps, and the guarantees of the encodings, the compaction and the
  compiler it rests on. Each property is stated over the definitions of the component theories; the
  witnesses use the deployment of \<^verbatim>\<open>Sample_Policy\<close>.
\<close>

section \<open>Packets against the installed policy\<close>



text \<open>C2: after a successful apply, the kernel program finds a packet banned exactly when some temporary
  ban of the policy covers its source in one of the four (protocol, port) classes and has not expired
  on the wall clock: compacting bans and the longest-prefix lookup lose nothing, in particular an
  expired narrow ban never hides a broader active one. The policy must not ban the agent's own
  addresses (those bans are refused) nor last longer than 64-bit nanoseconds express.\<close>

theorem temp_bans_enforced:
  assumes "ipnet_spec N" and "wf_compiled p" and "lookups_ok B" and "maps_distinct m"
    and "apply_to_current_maps N E now p m = (m', Inr u)"
    and "monotonic_now_ns (xe_timespec E) = Inr clock"
    and "bans_representable now (cp_temp_bans p)"
    and "list_all (\<lambda>b. \<not> temp_ban_matches_local_interface N (xm_locals m) b) (cp_temp_bans p)"
    and "clock \<le> be_now_ban B"
  shows "temp_ban_active B m' (family_of ip) proto dport (addr_bytes ip) \<longleftrightarrow>
     (\<exists>b\<in>set (cp_temp_bans p). (\<exists>k\<in>set (probe_classes proto dport). ban_hits b ip k) \<and>
        now + (int (unat (be_now_ban B)) - int (unat clock)) < xb_expires_at b)"
proof -
  let ?t = "now + (int (unat (be_now_ban B)) - int (unat clock))"
  have t: "now \<le> ?t" using assms(9) by (simp add: word_le_def)
  have "int (unat (be_now_ban B)) < int (unat clock) + (xb_expires_at b - now) \<longleftrightarrow> ?t < xb_expires_at b"
    for b by linarith
  then have "temp_ban_active B m' (family_of ip) proto dport (addr_bytes ip) \<longleftrightarrow>
      (\<exists>k\<in>set (probe_classes proto dport).
         \<exists>b\<in>set (installable_bans N (xm_locals m) now (cp_temp_bans p)). ban_hits b ip k \<and> ?t < xb_expires_at b)"
    unfolding temp_ban_active_iff [OF assms(1-7)] by blast
  also have "\<dots> \<longleftrightarrow> (\<exists>k\<in>set (probe_classes proto dport).
         \<exists>b\<in>set (cp_temp_bans p). ban_hits b ip k \<and> ?t < xb_expires_at b)"
    using installable_covers_all [OF assms(1,2) _ t, of "xm_locals m"] assms(8)
    by (simp add: list_all_iff)
  finally show ?thesis by blast
qed

lemma temp_bans_enforced_witness:
  "temp_ban_active (ref_bpf 5000000999) sample_installed 4 17 0x3500 (addr_bytes (V4 0xCB007105))
   \<and> \<not> temp_ban_active (ref_bpf 5000001000) sample_installed 4 17 0x3500 (addr_bytes (V4 0xCB007105))"
proof -
  have loc: "list_all (\<lambda>b. \<not> temp_ban_matches_local_interface ref_ipnet (xm_locals sample_manager) b)
      (cp_temp_bans sample_policy)" by code_simp
  have t: "5000000000 \<le> n \<Longrightarrow>
      temp_ban_active (ref_bpf n) sample_installed (family_of (V4 0xCB007105)) 17 0x3500 (addr_bytes (V4 0xCB007105))
      \<longleftrightarrow> (\<exists>b\<in>set (cp_temp_bans sample_policy).
            (\<exists>k\<in>set (probe_classes 17 0x3500). ban_hits b (V4 0xCB007105) k) \<and>
            1000 + (int (unat (be_now_ban (ref_bpf n))) - int (unat (5000000000 :: u64))) < xb_expires_at b)" for n
    by (rule temp_bans_enforced [OF ref_net.ipnet_spec_axioms sample_wf ref_bpf_ok sample_distinct(2)
      sample_apply_ok sample_clock sample_representable loc]) (simp add: ref_bpf_def)
  have f: "family_of (V4 0xCB007105) = 4" by (simp add: family_of_def)
  have h: "ban_hits (hd (cp_temp_bans sample_policy)) (V4 0xCB007105) (PROTO_ANY, 0)" by code_simp
  have now: "be_now_ban (ref_bpf n) = n" for n by (simp add: ref_bpf_def)
  have one: "set (cp_temp_bans sample_policy) = {hd (cp_temp_bans sample_policy)}"
    "xb_expires_at (hd (cp_temp_bans sample_policy)) = 2000"
    by (simp_all add: sample_policy_def)
  have "\<exists>k\<in>set (probe_classes 17 0x3500). ban_hits (hd (cp_temp_bans sample_policy)) (V4 0xCB007105) k"
    using h by (auto simp: probe_classes_def)
  with t [of 5000000999] t [of 5000001000] show ?thesis
    by (simp add: f now one del: addr_bytes.simps)
qed



text \<open>C4: applying a policy never makes the agent's own addresses unreachable: after a successful apply
  no installed ban is active for a source that is an address of the interface, and no installed rule
  denies it.\<close>

theorem own_addresses_never_blocked:
  assumes "ipnet_spec N" and "wf_compiled p" and "lookups_ok B" and "maps_distinct m"
    and "apply_to_current_maps N E now p m = (m', Inr u)"
    and "monotonic_now_ns (xe_timespec E) = Inr clock"
    and "bans_representable now (cp_temp_bans p)"
    and "l \<in> set (xm_locals m)"
  shows "\<not> temp_ban_active B m' (family_of (lc_ip l)) proto dport (addr_bytes (lc_ip l)) \<and>
     lookup_rule B m' (family_of (lc_ip l)) proto dport (addr_bytes (lc_ip l)) \<notin>
       {Some v | v. rv_action v = ACTION_DENY}"
proof
  have noban: "\<not> in_prefix (xb_addr b) (unat (xb_prefix b)) (lc_ip l)"
    if b: "b \<in> set (installable_bans N (xm_locals m) now (cp_temp_bans p))" for b
  proof -
    have "unat (xb_prefix b) \<le> ip_width (xb_addr b)"
      using installable_ban_wf [OF assms(2) b] by (simp add: wf_ban_def canonical_width)
    moreover have "temp_ban_matching_local_cidr N b (xm_locals m) = None"
      using b by (simp add: installable_ban_iff temp_ban_matches_local_interface_def)
    ultimately show ?thesis using temp_ban_local_None_iff [OF assms(1)] assms(8) by blast
  qed
  then show "\<not> temp_ban_active B m' (family_of (lc_ip l)) proto dport (addr_bytes (lc_ip l))"
    unfolding temp_ban_active_iff [OF assms(1-7)] ban_hits_def by blast
  have norule: "xr_action r \<noteq> Deny" if r: "r \<in> set (installable_rules N (xm_locals m) p)"
    and h: "rule_hits r (lc_ip l) c" for r c
  proof
    assume deny: "xr_action r = Deny"
    have "unat (xr_prefix r) \<le> ip_width (xr_addr r)"
      using installable_rule_wf [OF assms(2) r] by (simp add: wf_rule_def canonical_width)
    moreover have "deny_rule_matching_local_cidr N r (xm_locals m) = None"
      using r by (simp add: installable_rule_cases deny_rule_matches_local_interface_def)
    ultimately show False
      using deny_rule_local_None_iff [OF assms(1)] assms(8) deny h unfolding rule_hits_def by blast
  qed
  obtain d where d: "lookup_rule B m' (family_of (lc_ip l)) proto dport (addr_bytes (lc_ip l)) = map_option rule_value d"
    "rule_decision (installable_rules N (xm_locals m) p) (lc_ip l) proto dport d"
    using lookup_rule_decision [OF assms(2-5)] by blast
  then have "d = None \<or> (\<exists>r c. d = Some r \<and> r \<in> set (installable_rules N (xm_locals m) p) \<and> rule_hits r (lc_ip l) c)"
    by (auto simp: rule_decision_def split: option.splits)
  then show "lookup_rule B m' (family_of (lc_ip l)) proto dport (addr_bytes (lc_ip l)) \<notin>
      {Some v | v. rv_action v = ACTION_DENY}"
    using norule d(1) by (auto simp: rule_value_def)
qed

lemma own_addresses_never_blocked_witness:
  "\<not> temp_ban_active (ref_bpf 5000000000) sample_installed (family_of (V4 0xC0000201)) 6 0x1600
       (addr_bytes (V4 0xC0000201)) \<and>
   lookup_rule (ref_bpf 5000000000) sample_installed (family_of (V4 0xC0000201)) 6 0x1600
       (addr_bytes (V4 0xC0000201)) \<notin> {Some v | v. rv_action v = ACTION_DENY}"
proof -
  have "\<lparr>lc_ip = V4 0xC0000201, lc_prefix = 24\<rparr> \<in> set (xm_locals sample_manager)"
    by (simp add: sample_manager_def)
  from own_addresses_never_blocked [OF ref_net.ipnet_spec_axioms sample_wf ref_bpf_ok sample_distinct(2)
      sample_apply_ok sample_clock sample_representable this]
  show ?thesis by (simp del: addr_bytes.simps)
qed

section \<open>Applying a policy\<close>






text \<open>C7: progress: when the old and the new keys together fit every map, the clock is readable and no
  expiry overflows, applying the policy to the current maps succeeds.\<close>

theorem apply_succeeds_with_room:
  assumes "required_policy_map_sizes N m p = Inr req" and "fits req (xm_map_sizes m)"
    and "env_bounded E (xm_map_sizes m)" and "all_maps_distinct m"
    and "xe_set_defense E" and "monotonic_now_ns (xe_timespec E) = Inr clock"
    and "room_for m (build_pending_policy_keys N (xm_locals m) p now)"
    and "list_all (\<lambda>b. \<exists>ov. temp_ban_value b now clock = Inr ov) (cp_temp_bans p)"
  shows "\<exists>m'. apply_to_current_maps N E now p m = (m', Inr ())"
  using apply_current_ok [OF assms(1-7)] assms(8) by (simp add: list_all_iff)

lemma apply_succeeds_with_room_witness:
  "\<exists>m'. apply_to_current_maps ref_ipnet sample_env 1000 sample_policy sample_manager = (m', Inr ())"
proof (rule apply_succeeds_with_room [OF sample_required_ok _ sample_env_bounded sample_distinct(1) _
      sample_clock sample_room])
  show "fits sample_required (xm_map_sizes sample_manager)" by code_simp
  show "xe_set_defense sample_env" by (simp add: sample_env_def)
  show "list_all (\<lambda>b. \<exists>ov. temp_ban_value b 1000 5000000000 = Inr ov) (cp_temp_bans sample_policy)"
    using sample_ban_value by (simp add: list_all_iff)
qed

text \<open>The write passes run before the clean-up passes, so a rule map that is full of old entries
  makes every policy with a new key fail, even one whose own entries fit the map (the case the
  capacity check admits): the old policy then stays until the maps are recreated.\<close>

theorem full_map_blocks_update:
  assumes "kernel_map (xe_rules E) cap" and "cap \<le> length (xm_rule_cidrs m)"
    and "\<exists>q\<in>set (pk_rules (build_pending_policy_keys N (xm_locals m) p now)).
           fst q \<notin> kmap_dom (xm_rule_cidrs m)"
  shows "snd (apply_to_current_maps N E now p m) \<noteq> Inr u"
  using full_rule_map_fails [OF assms] .

definition one_entry_sizes :: xdp_map_sizes where
  "one_entry_sizes = sample_sizes\<lparr>rule_entries := 2\<rparr>"

definition full_manager :: linux_xdp_manager where
  "full_manager = sample_manager
     \<lparr>xm_map_sizes := one_entry_sizes,
      xm_rule_cidrs := [(rule_key (V4 0xC6336500) 24 Tcp 22, rule_value (hd (cp_rules sample_policy))),
                        (rule_key (V4 0xC6336600) 24 Tcp 22, rule_value (hd (cp_rules sample_policy)))]\<rparr>"

lemma full_map_blocks_update_witness:
  "required_policy_map_sizes ref_ipnet full_manager sample_policy = Inr sample_required \<and>
   fits sample_required (xm_map_sizes full_manager) \<and>
   snd (apply_to_current_maps ref_ipnet (sample_env\<lparr>xe_rules := bounded_env 2\<rparr>) 1000 sample_policy full_manager)
     \<noteq> Inr ()"
proof (intro conjI)
  show "required_policy_map_sizes ref_ipnet full_manager sample_policy = Inr sample_required" by code_simp
  show "fits sample_required (xm_map_sizes full_manager)" by code_simp
  have "kernel_map (xe_rules (sample_env\<lparr>xe_rules := bounded_env 2\<rparr>)) 2"
    by (simp add: bounded.kernel_map_axioms)
  moreover have "2 \<le> length (xm_rule_cidrs full_manager)" by (simp add: full_manager_def)
  moreover have "\<exists>q\<in>set (pk_rules (build_pending_policy_keys ref_ipnet (xm_locals full_manager) sample_policy 1000)).
      fst q \<notin> kmap_dom (xm_rule_cidrs full_manager)"
    unfolding kmap_dom_def by code_simp
  ultimately show "snd (apply_to_current_maps ref_ipnet (sample_env\<lparr>xe_rules := bounded_env 2\<rparr>) 1000
      sample_policy full_manager) \<noteq> Inr ()"
    by (rule full_map_blocks_update)
qed

text \<open>C8: the growth rule: it asks for no resize exactly when everything fits, what it asks for fits
  and leaves the rate map alone, and it refuses only when a map would have to exceed 2^31 entries.\<close>

theorem resize_rule:
  "case resized_map_sizes current required of
     Inr None \<Rightarrow> fits required current
   | Inr (Some s) \<Rightarrow> fits required s \<and> rate_entries s = rate_entries current \<and> \<not> fits required current
   | Inl e \<Rightarrow>
       outgrown (rule_entries current) (rule_entries required) \<or>
       outgrown (geo_entries current) (geo_entries required) \<or>
       outgrown (trusted_entries current) (trusted_entries required) \<or>
       outgrown (country_entries current) (country_entries required) \<or>
       outgrown (custom_rate_limit_entries current) (custom_rate_limit_entries required) \<or>
       outgrown (temp_ban_entries current) (temp_ban_entries required)"
  using resized_None_iff [of current required] resized_Some [of current required]
    resized_Inl [of current required]
  by (cases "resized_map_sizes current required") (simp_all split: option.split)

text \<open>Applying with resizing: with automatic resizing off, a policy that does not fit is refused and
  the manager, its maps and its attachment stay as they were; a successful apply always ends in maps
  the policy fits.\<close>

theorem apply_policy_capacity:
  assumes "required_policy_map_sizes N m p = Inr required"
  shows "(\<not> ao_auto_resize_maps (xm_attach_options m) \<and> \<not> fits required (xm_map_sizes m) \<longrightarrow>
            fst (apply_policy N E now p m) = m \<and> snd (apply_policy N E now p m) \<noteq> Inr ()) \<and>
         (snd (apply_policy N E now p m) = Inr () \<longrightarrow>
            (\<exists>req. required_policy_map_sizes N (fst (apply_policy N E now p m)) p = Inr req \<and>
                   fits req (xm_map_sizes (fst (apply_policy N E now p m)))))"
proof (intro conjI impI)
  assume h: "\<not> ao_auto_resize_maps (xm_attach_options m) \<and> \<not> fits required (xm_map_sizes m)"
  then have v: "validate_map_capacity required (xm_map_sizes m) \<noteq> Inr ()"
    by (simp add: validate_map_capacity_iff)
  then obtain e where e: "validate_map_capacity required (xm_map_sizes m) = Inl e"
    by (cases "validate_map_capacity required (xm_map_sizes m)") auto
  have "resized_map_sizes (xm_map_sizes m) required \<noteq> Inr None"
    using h by (simp add: resized_None_iff)
  then show "fst (apply_policy N E now p m) = m" and "snd (apply_policy N E now p m) \<noteq> Inr ()"
    using assms h e by (auto simp: apply_policy_def then_step_def split: sum.split option.split)
next
  assume ok: "snd (apply_policy N E now p m) = Inr ()"
  then obtain m1 where m1: "apply_to_current_maps N E now p m1 = (fst (apply_policy N E now p m), Inr ())"
    using assms
    by (auto simp: apply_policy_def then_step_def prod_eq_iff split: sum.splits option.splits if_splits)
  from apply_map_steps(9,11) [OF m1]
  have "xm_map_sizes (fst (apply_policy N E now p m)) = xm_map_sizes m1"
    and "\<exists>req. required_policy_map_sizes N m1 p = Inr req \<and> fits req (xm_map_sizes m1)" by blast+
  then show "\<exists>req. required_policy_map_sizes N (fst (apply_policy N E now p m)) p = Inr req \<and>
      fits req (xm_map_sizes (fst (apply_policy N E now p m)))"
    by (simp add: required_policy_map_sizes_def)
qed

definition small_manager :: linux_xdp_manager where
  "small_manager = sample_manager
     \<lparr>xm_attach_options := default_attach_options\<lparr>ao_auto_resize_maps := False\<rparr>,
      xm_map_sizes := sample_sizes\<lparr>rule_entries := 1\<rparr>\<rparr>"

lemma apply_policy_capacity_witness:
  "fst (apply_policy ref_ipnet sample_env 1000 sample_policy small_manager) = small_manager \<and>
   snd (apply_policy ref_ipnet sample_env 1000 sample_policy small_manager) \<noteq> Inr ()"
proof -
  have r: "required_policy_map_sizes ref_ipnet small_manager sample_policy = Inr sample_required" by code_simp
  have "\<not> ao_auto_resize_maps (xm_attach_options small_manager)"
    "\<not> fits sample_required (xm_map_sizes small_manager)" by code_simp+
  with apply_policy_capacity [OF r, of sample_env 1000] show ?thesis by blast
qed

section \<open>The rate limiter, the counters, the compiler\<close>

text \<open>C9: the token bucket is a rate limiter: from a bucket that holds at most its burst, the packets it
  lets through among arrivals in a window of \<open>e - s\<close> nanoseconds are at most what the bucket held plus
  the configured rate over the time since its last refill (scaled by 10^9 to stay in whole numbers).
  The wrapping product of the code only lowers the count.\<close>

theorem token_bucket_rate:
  assumes "bucket_ok burst b" and "unat (rb_updated_ns b) \<le> s"
    and "sorted (map unat ts)" and "list_all (\<lambda>t. s \<le> unat t \<and> unat t \<le> e) ts" and "s \<le> e"
  shows "snd (bucket_run pps burst block ts b) * 1000000000
           \<le> unat (rb_tokens b) * 1000000000 + unat pps * (e - unat (rb_updated_ns b))"
proof -
  have "snd (bucket_run pps burst block ts b) * ns \<le> potential pps s b + unat pps * (e - s)"
    using bucket_run_bound [OF assms(1-3) _ assms(5)] assms(4) by (simp add: list_all_iff)
  also have "\<dots> = unat (rb_tokens b) * ns + unat pps * (e - unat (rb_updated_ns b))"
    using assms(2,5) by (simp add: potential_def distrib_left [symmetric])
  finally show ?thesis .
qed

lemma token_bucket_rate_witness:
  "snd (bucket_run 2 3 0 [1000000000, 1000000001, 1500000000, 1600000000]
          \<lparr>rb_tokens = 1, rb_updated_ns = 900000000, rb_blocked_until_ns = 0\<rparr>) * 1000000000
     \<le> 1 * 1000000000 + 2 * (1600000000 - 900000000)"
proof -
  let ?b = "\<lparr>rb_tokens = 1, rb_updated_ns = 900000000, rb_blocked_until_ns = 0\<rparr>"
  let ?ts = "[1000000000, 1000000001, 1500000000, 1600000000] :: u64 list"
  have "bucket_ok 3 ?b" and "unat (rb_updated_ns ?b) \<le> 900000000" and "sorted (map unat ?ts)"
    and "list_all (\<lambda>t. 900000000 \<le> unat t \<and> unat t \<le> 1600000000) ?ts"
    and "(900000000 :: nat) \<le> 1600000000"
    by (simp_all add: bucket_ok_def)
  from token_bucket_rate [OF this, of 2 0] show ?thesis by simp
qed

text \<open>C10: accounting: every IP packet increments exactly one counter by one, the pass counter exactly when
  it passes, and when monitoring is on every drop reports exactly one event with that reason and the
  packet's source address.\<close>

theorem every_packet_counted_once:
  assumes "ip_packet pkt"
  shows "\<exists>i. unat i < 8 \<and> counted m (packet_source pkt) s (fst (xdp_firewall B m pkt s)) i \<and>
             (snd (xdp_firewall B m pkt s) = XdpPass \<longleftrightarrow> i = STAT_PASS)"
  using xdp_firewall_counts [OF assms] by (simp add: one_verdict_def)

lemma every_packet_counted_once_witness:
  "\<exists>i. unat i < 8 \<and>
     counted sample_manager (packet_source (replicate 12 0 @ [0x08, 0x00] @ replicate 20 0)) idle_state
       (fst (xdp_firewall (ref_bpf 0) sample_manager (replicate 12 0 @ [0x08, 0x00] @ replicate 20 0) idle_state)) i"
  using every_packet_counted_once [of "replicate 12 0 @ [0x08, 0x00] @ replicate 20 0" sample_manager idle_state "ref_bpf 0"]
  by (auto simp: ip_packet_def nth_append)

text \<open>Compilation accepts a snapshot exactly when its dynamic defense and rate limits are valid and
  every country code it names is well-formed.\<close>

theorem compile_accepts:
  "(\<exists>p. compile_policy N clock s = Inr p) \<longleftrightarrow> snapshot_ok s"
  by (rule compile_policy_ok_iff)




text \<open>Country codes: decoding an encoded country gives the normalized code back, so two values
  share a kernel key exactly when they normalize to the same country.\<close>

theorem country_roundtrip:
  assumes "encode_country v = Inr w"
  shows "decode_country w = normalize_country v \<and>
         (encode_country v' = Inr w \<longleftrightarrow> normalize_country v' = normalize_country v)"
proof
  show "decode_country w = normalize_country v" by (rule decode_encode [OF assms])
  show "encode_country v' = Inr w \<longleftrightarrow> normalize_country v' = normalize_country v"
  proof
    assume "encode_country v' = Inr w"
    then show "normalize_country v' = normalize_country v"
      using decode_encode [OF assms] decode_encode [of v' w] by simp
  next
    assume "normalize_country v' = normalize_country v"
    then have "encode_country v' = encode_country v" unfolding encode_country_def by (rule arg_cong)
    with assms show "encode_country v' = Inr w" by simp
  qed
qed

lemma country_roundtrip_witness: "decode_country 0x434E = Inr ''CN''"
proof -
  have "encode_country '' cn'' = Inr 0x434E" by code_simp
  moreover have "normalize_country '' cn'' = Inr ''CN''" by code_simp
  ultimately show ?thesis using country_roundtrip [of "'' cn''"] by simp
qed

text \<open>A temporary ban that touches none of the agent's addresses can still be lost: the broader ban
  that supersedes it in the compaction is refused afterwards because it contains the agent's address,
  and nothing is installed for either.\<close>

theorem narrow_ban_lost:
  "let narrow = \<lparr>xb_addr = V4 0xC0000280, xb_prefix = 25, xb_protocol = AnyProto, xb_port = 0, xb_expires_at = 500\<rparr>;
       broad = \<lparr>xb_addr = V4 0xC0000200, xb_prefix = 24, xb_protocol = AnyProto, xb_port = 0, xb_expires_at = 900\<rparr>;
       locals = [\<lparr>lc_ip = V4 0xC0000201, lc_prefix = 24\<rparr>]
   in pending_temp_bans ref_ipnet locals [narrow, broad] 100 = ({}, []) \<and>
      snd (pending_temp_bans ref_ipnet locals [narrow] 100) = [(xb_key narrow, narrow)]"
  unfolding Let_def by (intro conjI) code_simp+

text \<open>Keys and packets: an installed key of prefix length \<open>p\<close> matches a packet in the kernel's
  longest-prefix map exactly when the protocol and port fields agree and the source lies in the prefix,
  for both families; two rule keys are equal exactly when all four components are.\<close>

theorem key_matches_prefix:
  assumes "unat p \<le> ip_width a"
  shows "(lpm_matches l4_bits (rule_key a p proto port) (l4_probe (family_of ip) pr d (addr_bytes ip)) \<longleftrightarrow>
            proto_code proto = pr \<and> to_be port = d \<and> in_prefix a (unat p) ip) \<and>
         (lpm_matches l3_bits (trusted_key a p) (l3_probe (family_of ip) (addr_bytes ip)) \<longleftrightarrow>
            in_prefix a (unat p) ip) \<and>
         (rule_key a p proto port = rule_key a' p' proto' port' \<longleftrightarrow>
            a = a' \<and> p = p' \<and> proto = proto' \<and> port = port')"
proof (intro conjI)
  show "lpm_matches l4_bits (rule_key a p proto port) (l4_probe (family_of ip) pr d (addr_bytes ip)) \<longleftrightarrow>
      proto_code proto = pr \<and> to_be port = d \<and> in_prefix a (unat p) ip"
    using l4_key_matches [OF assms] by (simp add: rule_key_def flip: family_of_def)
  show "lpm_matches l3_bits (trusted_key a p) (l3_probe (family_of ip) (addr_bytes ip)) \<longleftrightarrow>
      in_prefix a (unat p) ip"
    using l3_key_matches [OF assms] by (simp add: trusted_key_def flip: family_of_def)
  show "rule_key a p proto port = rule_key a' p' proto' port' \<longleftrightarrow>
      a = a' \<and> p = p' \<and> proto = proto' \<and> port = port'"
    using rule_key_id_eq_iff by metis
qed

lemma key_matches_prefix_witness:
  "lpm_matches l3_bits (trusted_key (V4 0x0A000000) 8) (l3_probe 4 [10, 9, 8, 7, 0,0,0,0,0,0,0,0,0,0,0,0])"
proof -
  have "unat (8 :: u8) \<le> ip_width (V4 0x0A000000)" by simp
  from key_matches_prefix [OF this, where ip = "V4 0x0A090807"]
  have "lpm_matches l3_bits (trusted_key (V4 0x0A000000) 8)
      (l3_probe (family_of (V4 0x0A090807)) (addr_bytes (V4 0x0A090807))) \<longleftrightarrow>
      in_prefix (V4 0x0A000000) (unat (8 :: u8)) (V4 0x0A090807)" by blast
  moreover have "in_prefix (V4 0x0A000000) (unat (8 :: u8)) (V4 0x0A090807)" by code_simp
  moreover have "family_of (V4 0x0A090807) = 4" by (simp add: family_of_def)
  moreover have "addr_bytes (V4 0x0A090807) = [10, 9, 8, 7, 0,0,0,0,0,0,0,0,0,0,0,0]" by code_simp
  ultimately show ?thesis by simp
qed

end
