(* ===== verification/Db_Rows.thy ===== *)
theory Db_Rows
  imports Policy_Model "HOL-Library.List_Lexorder" "HOL-Library.Char_ord"
begin

text \<open>
  The database the control plane keeps: one record per entity of \<^verbatim>\<open>db/entities\<close>, a database state with
  one list of rows per table, the policy version counter of \<^verbatim>\<open>db/policy_version.rs\<close> and the integer
  conversions of \<^verbatim>\<open>db/scalars.rs\<close>. A table is the list of its rows in the order the engine returns
  them; \<open>order_by\<close> is the stable sort the queries ask for. A transaction is a function on the whole
  state that either returns the new state or, on an error, leaves the old one.
\<close>

section \<open>Rows\<close>

record policy_version_row =
  pvr_policy_name :: string
  pvr_version :: i64
  pvr_updated_at :: datetime

record firewall_rule_row =
  frr_id :: i32
  frr_policy_name :: string
  frr_rule_key :: string
  frr_enabled :: bool
  frr_priority :: i32
  frr_action :: string
  frr_cidr :: string
  frr_protocol :: "string option"
  frr_port :: "i32 option"
  frr_comment :: "string option"
  frr_updated_at :: datetime

record geo_country_policy_row =
  gcr_id :: i32
  gcr_policy_name :: string
  gcr_enabled :: bool
  gcr_country :: string
  gcr_action :: string
  gcr_packets_per_second :: "i32 option"
  gcr_burst :: "i32 option"
  gcr_updated_at :: datetime

record geo_ip_prefix_row =
  gpr_id :: i32
  gpr_country :: string
  gpr_cidrs_json :: string
  gpr_updated_at :: datetime

record dynamic_defense_row =
  ddr_policy_name :: string
  ddr_enabled :: bool
  ddr_ip_rate_limit_enabled :: bool
  ddr_ip_packets_per_second :: "i32 option"
  ddr_ip_burst :: "i32 option"
  ddr_flood_enabled :: bool
  ddr_flood_packets_per_second :: "i32 option"
  ddr_flood_burst :: "i32 option"
  ddr_flood_block_seconds :: "i32 option"
  ddr_updated_at :: datetime

record dynamic_rate_limit_row =
  drr_id :: i32
  drr_policy_name :: string
  drr_enabled :: bool
  drr_priority :: i32
  drr_protocol :: string
  drr_port :: "i32 option"
  drr_packets_per_second :: i32
  drr_burst :: i32
  drr_comment :: "string option"
  drr_updated_at :: datetime

record temp_ban_row =
  tbr_id :: i32
  tbr_policy_name :: string
  tbr_cidr :: string
  tbr_protocol :: string
  tbr_port :: "i32 option"
  tbr_expires_at :: datetime
  tbr_comment :: "string option"
  tbr_created_at :: datetime

record trusted_cidr_row =
  tcr_id :: i32
  tcr_policy_name :: string
  tcr_enabled :: bool
  tcr_cidr :: string
  tcr_comment :: "string option"
  tcr_updated_at :: datetime

record threat_source_row =
  tsr_id :: i32
  tsr_policy_name :: string
  tsr_enabled :: bool
  tsr_name :: string
  tsr_url :: string
  tsr_format :: string
  tsr_min_score :: "i32 option"
  tsr_updated_at :: datetime

record threat_prefix_row =
  tpr_id :: i32
  tpr_policy_name :: string
  tpr_source_name :: string
  tpr_cidrs_json :: string
  tpr_updated_at :: datetime

record threat_source_state_row =
  tss_id :: i32
  tss_policy_name :: string
  tss_source_name :: string
  tss_fingerprint :: string
  tss_prefix_count :: i32
  tss_last_checked_at :: datetime
  tss_last_changed_at :: "datetime option"
  tss_updated_at :: datetime

record geo_ip_list_state_row =
  gls_id :: i32
  gls_country :: string
  gls_url :: string
  gls_last_modified :: "string option"
  gls_etag :: "string option"
  gls_prefix_count :: i32
  gls_last_checked_at :: datetime
  gls_last_downloaded_at :: "datetime option"
  gls_updated_at :: datetime

record geo_country_catalog_row =
  gcc_id :: i32
  gcc_code :: string
  gcc_name :: string
  gcc_url :: string
  gcc_last_modified :: "string option"
  gcc_size_bytes :: "i64 option"
  gcc_last_checked_at :: datetime
  gcc_updated_at :: datetime

record node_row =
  ndr_node_id :: string
  ndr_policy_name :: string
  ndr_interface_name :: string
  ndr_interface_ips :: string
  ndr_last_seen_at :: datetime
  ndr_last_applied_version :: i64
  ndr_status :: string
  ndr_error :: "string option"

record firewall_db =
  db_policy_versions :: "policy_version_row list"
  db_firewall_rules :: "firewall_rule_row list"
  db_geo_countries :: "geo_country_policy_row list"
  db_geo_prefixes :: "geo_ip_prefix_row list"
  db_dynamic_defense :: "dynamic_defense_row list"
  db_rate_limits :: "dynamic_rate_limit_row list"
  db_temp_bans :: "temp_ban_row list"
  db_trusted_cidrs :: "trusted_cidr_row list"
  db_threat_sources :: "threat_source_row list"
  db_threat_prefixes :: "threat_prefix_row list"
  db_threat_states :: "threat_source_state_row list"
  db_geo_list_states :: "geo_ip_list_state_row list"
  db_geo_catalog :: "geo_country_catalog_row list"
  db_nodes :: "node_row list"

definition empty_db :: firewall_db where
  "empty_db =
     \<lparr>db_policy_versions = [], db_firewall_rules = [], db_geo_countries = [], db_geo_prefixes = [],
      db_dynamic_defense = [], db_rate_limits = [], db_temp_bans = [], db_trusted_cidrs = [],
      db_threat_sources = [], db_threat_prefixes = [], db_threat_states = [],
      db_geo_list_states = [], db_geo_catalog = [], db_nodes = []\<rparr>"

definition order_by :: "('a \<Rightarrow> 'k::linorder) \<Rightarrow> 'a list \<Rightarrow> 'a list" where
  "order_by key = sort_key key"

lemma set_order_by [simp]: "set (order_by key rows) = set rows"
  by (simp add: order_by_def)

lemma sorted_order_by: "sorted (map key (order_by key rows))"
  by (simp add: order_by_def)

lemma length_order_by [simp]: "length (order_by key rows) = length rows"
  by (simp add: order_by_def)

section \<open>Integer columns\<close>

definition i32_to_u32 :: "string \<Rightarrow> i32 \<Rightarrow> u32 res" where
  "i32_to_u32 label v = ok_or (OutOfRange label) (u32_try_from_i32 v)"

definition optional_u32_to_i32 :: "string \<Rightarrow> u32 option \<Rightarrow> i32 option res" where
  "optional_u32_to_i32 label v = transposeE (\<lambda>x. ok_or (OutOfRange label) (i32_try_from_u32 x)) v"

definition optional_i32_to_u32 :: "string \<Rightarrow> i32 option \<Rightarrow> u32 option res" where
  "optional_i32_to_u32 label v = transposeE (i32_to_u32 label) v"

lemma optional_scalar_roundtrip:
  "optional_u32_to_i32 l v = Inr w \<Longrightarrow> optional_i32_to_u32 l' w = Inr v"
  by (cases v)
    (auto simp: optional_u32_to_i32_def optional_i32_to_u32_def i32_to_u32_def res_simps
      dest: u32_i32_roundtrip)

lemma i32_to_u32_Inr_iff: "i32_to_u32 l v = Inr w \<longleftrightarrow> 0 \<le> sint v \<and> w = v"
  by (auto simp: i32_to_u32_def u32_try_from_i32_def)

section \<open>The policy version\<close>

definition find_policy_version :: "firewall_db \<Rightarrow> string \<Rightarrow> policy_version_row option" where
  "find_policy_version db name = find (\<lambda>r. pvr_policy_name r = name) (db_policy_versions db)"

definition latest_version :: "firewall_db \<Rightarrow> i64" where
  "latest_version db =
     (case find_policy_version db default_policy_name of None \<Rightarrow> 0 | Some r \<Rightarrow> pvr_version r)"

text \<open>\<^verbatim>\<open>row.version + 1\<close> overflows only at \<^verbatim>\<open>i64::MAX\<close>; the word wraps as a release build does.\<close>

definition next_policy_version_in_transaction ::
    "datetime \<Rightarrow> string \<Rightarrow> firewall_db \<Rightarrow> firewall_db \<times> i64" where
  "next_policy_version_in_transaction now name db =
     (case find_policy_version db name of
        Some row \<Rightarrow>
          (let next = pvr_version row + 1 in
           (db\<lparr>db_policy_versions := map (\<lambda>r. if pvr_policy_name r = name
                  then r\<lparr>pvr_version := next, pvr_updated_at := now\<rparr> else r) (db_policy_versions db)\<rparr>, next))
      | None \<Rightarrow>
          (db\<lparr>db_policy_versions := db_policy_versions db @
                [\<lparr>pvr_policy_name = name, pvr_version = 1, pvr_updated_at = now\<rparr>]\<rparr>, 1))"

text \<open>The connection-level variant issues the same statements outside a transaction.\<close>

definition next_policy_version :: "datetime \<Rightarrow> string \<Rightarrow> firewall_db \<Rightarrow> firewall_db \<times> i64" where
  "next_policy_version now name db = next_policy_version_in_transaction now name db"

abbreviation bump :: "datetime \<Rightarrow> firewall_db \<Rightarrow> firewall_db \<times> i64" where
  "bump now db \<equiv> next_policy_version_in_transaction now default_policy_name db"

lemma find_map_version:
  "find (\<lambda>r. pvr_policy_name r = n) (map (\<lambda>r. if pvr_policy_name r = n
      then r\<lparr>pvr_version := v, pvr_updated_at := t\<rparr> else r) rows) =
   map_option (\<lambda>r. r\<lparr>pvr_version := v, pvr_updated_at := t\<rparr>) (find (\<lambda>r. pvr_policy_name r = n) rows)"
  by (induction rows) auto

lemma find_append_version:
  "find P (xs @ ys) = (case find P xs of None \<Rightarrow> find P ys | Some x \<Rightarrow> Some x)"
  by (induction xs) auto

lemma bump_version:
  "latest_version (fst (bump now db)) = latest_version db + 1"
  "snd (bump now db) = latest_version db + 1"
  by (auto simp: latest_version_def next_policy_version_in_transaction_def find_policy_version_def
      Let_def find_map_version find_append_version split: option.splits)

lemma bump_tables [simp]:
  "db_firewall_rules (fst (next_policy_version_in_transaction now n db)) = db_firewall_rules db"
  "db_geo_countries (fst (next_policy_version_in_transaction now n db)) = db_geo_countries db"
  "db_geo_prefixes (fst (next_policy_version_in_transaction now n db)) = db_geo_prefixes db"
  "db_dynamic_defense (fst (next_policy_version_in_transaction now n db)) = db_dynamic_defense db"
  "db_rate_limits (fst (next_policy_version_in_transaction now n db)) = db_rate_limits db"
  "db_temp_bans (fst (next_policy_version_in_transaction now n db)) = db_temp_bans db"
  "db_trusted_cidrs (fst (next_policy_version_in_transaction now n db)) = db_trusted_cidrs db"
  "db_threat_sources (fst (next_policy_version_in_transaction now n db)) = db_threat_sources db"
  "db_threat_prefixes (fst (next_policy_version_in_transaction now n db)) = db_threat_prefixes db"
  "db_threat_states (fst (next_policy_version_in_transaction now n db)) = db_threat_states db"
  "db_geo_list_states (fst (next_policy_version_in_transaction now n db)) = db_geo_list_states db"
  "db_geo_catalog (fst (next_policy_version_in_transaction now n db)) = db_geo_catalog db"
  "db_nodes (fst (next_policy_version_in_transaction now n db)) = db_nodes db"
  by (simp_all add: next_policy_version_in_transaction_def Let_def split: option.splits)

end
