(* ===== verification/Ip_Text.thy ===== *)
theory Ip_Text
  imports Ip_Net
begin

text \<open>
  Addresses as text: the standard library's \<^verbatim>\<open>FromStr\<close> and \<^verbatim>\<open>Display\<close> of \<^verbatim>\<open>IpAddr\<close> (the parser reads
  numbers of bounded width, an IPv6 address may end in an IPv4 address and elide one run of zero
  groups), the decimal integers of the formatted strings, and the text interface of the network
  crate. The lemmas prove the round trip of every address through its text.
\<close>

section \<open>Numbers\<close>

definition digit :: "nat \<Rightarrow> char" where
  "digit n = char_of (if n < 10 then 48 + n else 87 + n)"

definition digit_value :: "nat \<Rightarrow> char \<Rightarrow> nat option" where
  "digit_value radix c =
     (let k = (of_char c :: nat);
          v = (if 48 \<le> k \<and> k \<le> 57 then k - 48 else if 97 \<le> k \<and> k \<le> 122 then k - 87
               else if 65 \<le> k \<and> k \<le> 90 then k - 55 else 36)
      in if v < radix then Some v else None)"

definition is_digit :: "nat \<Rightarrow> char \<Rightarrow> bool" where
  "is_digit radix c \<longleftrightarrow> digit_value radix c \<noteq> None"

fun show_nat :: "nat \<Rightarrow> nat \<Rightarrow> string" where
  "show_nat radix n =
     (if n < radix \<or> radix < 2 then [digit n] else show_nat radix (n div radix) @ [digit (n mod radix)])"

declare show_nat.simps [simp del]

abbreviation dec_nat :: "nat \<Rightarrow> string" where
  "dec_nat n \<equiv> show_nat 10 n"

definition dec_int :: "int \<Rightarrow> string" where
  "dec_int i = (if i < 0 then ''-'' @ dec_nat (nat (- i)) else dec_nat (nat i))"

definition digits_value :: "nat \<Rightarrow> string \<Rightarrow> nat" where
  "digits_value radix = foldl (\<lambda>acc c. acc * radix + the (digit_value radix c)) 0"

text \<open>\<^verbatim>\<open>read_number\<close>: at most \<open>max_digits\<close> digits, no superfluous leading zero unless allowed.\<close>

definition read_number :: "nat \<Rightarrow> nat \<Rightarrow> bool \<Rightarrow> nat \<Rightarrow> string \<Rightarrow> (nat \<times> string) option" where
  "read_number radix max_digits allow_zero_prefix bound s =
     (let ds = takeWhile (is_digit radix) s in
      if length ds > max_digits \<or> ds = [] then None
      else if \<not> allow_zero_prefix \<and> hd ds = CHR ''0'' \<and> length ds > 1 then None
      else if digits_value radix ds < bound then Some (digits_value radix ds, dropWhile (is_digit radix) s)
      else None)"

lemma of_char_digit: "n < 36 \<Longrightarrow> of_char (digit n) = (if n < 10 then 48 + n else 87 + n :: nat)"
  by (simp add: digit_def)

lemma digit_value_digit [simp]: "n < radix \<Longrightarrow> radix \<le> 36 \<Longrightarrow> digit_value radix (digit n) = Some n"
  by (simp add: digit_value_def of_char_digit Let_def)

lemma show_nat_digits:
  "2 \<le> radix \<Longrightarrow> radix \<le> 36 \<Longrightarrow> \<forall>c\<in>set (show_nat radix n). is_digit radix c"
proof (induction radix n rule: show_nat.induct)
  case (1 radix n)
  then show ?case
    by (subst show_nat.simps) (auto simp: is_digit_def)
qed

lemma digits_value_append:
  "digits_value radix (ds @ [c]) = digits_value radix ds * radix + the (digit_value radix c)"
  by (simp add: digits_value_def)

lemma digits_value_show: "2 \<le> radix \<Longrightarrow> radix \<le> 36 \<Longrightarrow> digits_value radix (show_nat radix n) = n"
proof (induction radix n rule: show_nat.induct)
  case (1 radix n)
  show ?case
  proof (cases "n < radix")
    case True
    then show ?thesis using 1 by (simp add: show_nat.simps [of radix n] digits_value_def)
  next
    case False
    then show ?thesis using 1
      by (simp add: show_nat.simps [of radix n] digits_value_append div_mult_mod_eq)
  qed
qed

lemma show_nat_inj: "2 \<le> radix \<Longrightarrow> radix \<le> 36 \<Longrightarrow> show_nat radix n = show_nat radix m \<Longrightarrow> n = m"
  by (metis digits_value_show)

lemma show_nat_not_Nil [simp]: "show_nat radix n \<noteq> []"
  by (subst show_nat.simps) simp

lemma show_nat_length:
  "2 \<le> radix \<Longrightarrow> 0 < k \<Longrightarrow> n < radix ^ k \<Longrightarrow> length (show_nat radix n) \<le> k"
proof (induction radix n arbitrary: k rule: show_nat.induct)
  case (1 radix n)
  show ?case
  proof (cases "n < radix")
    case True
    then show ?thesis using 1 by (simp add: show_nat.simps [of radix n])
  next
    case False
    then have k: "1 < k" using 1(4) by (cases "k = 1") (use 1(3) in auto)
    have "n div radix < radix ^ (k - 1)"
      using 1(2,4) k by (metis Suc_diff_1 less_mult_imp_div_less 1(3) power_Suc2)
    then have "length (show_nat radix (n div radix)) \<le> k - 1"
      using 1(1) [of "k - 1"] False 1(2) k by simp
    then show ?thesis using False 1(2) k by (simp add: show_nat.simps [of radix n])
  qed
qed

lemma show_nat_no_leading_zero:
  "2 \<le> radix \<Longrightarrow> radix \<le> 36 \<Longrightarrow> hd (show_nat radix n) = CHR ''0'' \<Longrightarrow> length (show_nat radix n) = 1"
proof (induction radix n rule: show_nat.induct)
  case (1 radix n)
  show ?case
  proof (cases "n < radix")
    case True
    then show ?thesis by (simp add: show_nat.simps [of radix n])
  next
    case False
    let ?m = "n div radix"
    have hd: "hd (show_nat radix ?m) = CHR ''0''"
      using 1(4) False 1(2) by (simp add: show_nat.simps [of radix n] hd_append)
    then have "length (show_nat radix ?m) = 1" using 1 False by simp
    then have "show_nat radix ?m = [CHR ''0'']" using hd by (cases "show_nat radix ?m") auto
    then have "?m = 0" using digits_value_show [of radix ?m] 1(2,3)
      by (simp add: digits_value_def digit_value_def Let_def)
    then show ?thesis using False 1(2) by (simp add: div_eq_0_iff)
  qed
qed

lemma take_digits:
  assumes "\<forall>c\<in>set ds. P c" "rest = [] \<or> \<not> P (hd rest)"
  shows "takeWhile P (ds @ rest) = ds" "dropWhile P (ds @ rest) = rest"
  using assms by (cases rest; simp add: takeWhile_append dropWhile_append)+

lemma read_number_show:
  assumes "2 \<le> radix" "radix \<le> 36" "0 < k" "n < radix ^ k" "n < bound"
    and "rest = [] \<or> \<not> is_digit radix (hd rest)"
  shows "read_number radix k allow bound (show_nat radix n @ rest) = Some (n, rest)"
proof -
  note d = take_digits [OF show_nat_digits [OF assms(1,2)] assms(6), of n]
  show ?thesis
    unfolding read_number_def Let_def d
    using show_nat_length [OF assms(1,3,4)] show_nat_no_leading_zero [OF assms(1,2), of n]
      digits_value_show [OF assms(1,2)] assms(5)
    by auto
qed

section \<open>IPv4\<close>

text \<open>Big-endian bytes and 16-bit groups, as the conversions from arrays read them.\<close>

definition word_of_bits :: "bool list \<Rightarrow> 'a::len word" where
  "word_of_bits bs = horner_sum of_bool 2 (rev bs)"

lemma word_of_word_bits [simp]: "word_of_bits (word_bits (w :: 'a::len word)) = w"
proof -
  have "rev (word_bits w) = map (bit w) [0..<LENGTH('a)]" by (simp add: word_bits_def rev_map)
  then show ?thesis by (simp add: word_of_bits_def horner_sum_bit_eq_take_bit)
qed

definition ip4_of_octets :: "u8 list \<Rightarrow> 32 word" where
  "ip4_of_octets bs = word_of_bits (concat (map word_bits bs))"

lemma ip4_of_octets4 [simp]: "ip4_of_octets (octets4 w) = w"
  using bytes_bits_octets4 [of w] by (simp add: ip4_of_octets_def bytes_bits_def)

definition read_char :: "char \<Rightarrow> string \<Rightarrow> string option" where
  "read_char c s = (case s of [] \<Rightarrow> None | x # xs \<Rightarrow> if x = c then Some xs else None)"

definition read_octet :: "string \<Rightarrow> (u8 \<times> string) option" where
  "read_octet s = map_option (\<lambda>(n, r). (word_of_nat n, r)) (read_number 10 3 False 256 s)"

primrec read_octets :: "nat \<Rightarrow> string \<Rightarrow> (u8 list \<times> string) option" where
  "read_octets 0 s = Some ([], s)"
| "read_octets (Suc k) s =
     (case read_char CHR ''.'' s of None \<Rightarrow> None
      | Some s \<Rightarrow> (case read_octet s of None \<Rightarrow> None
                   | Some (b, s) \<Rightarrow> map_option (\<lambda>(bs, r). (b # bs, r)) (read_octets k s)))"

definition read_ipv4_addr :: "string \<Rightarrow> (32 word \<times> string) option" where
  "read_ipv4_addr s =
     (case read_octet s of None \<Rightarrow> None
      | Some (b, s) \<Rightarrow> map_option (\<lambda>(bs, r). (ip4_of_octets (b # bs), r)) (read_octets 3 s))"

definition show_octet :: "u8 \<Rightarrow> string" where
  "show_octet b = dec_nat (unat b)"

fun show_octets :: "u8 list \<Rightarrow> string" where
  "show_octets [] = []"
| "show_octets [b] = show_octet b"
| "show_octets (b # bs) = show_octet b @ CHR ''.'' # show_octets bs"

definition show_ipv4 :: "32 word \<Rightarrow> string" where
  "show_ipv4 w = show_octets (octets4 w)"

abbreviation no_digit :: "string \<Rightarrow> bool" where
  "no_digit rest \<equiv> rest = [] \<or> \<not> is_digit 10 (hd rest)"

lemma read_octet_show: "no_digit rest \<Longrightarrow> read_octet (show_octet b @ rest) = Some (b, rest)"
proof -
  assume r: "no_digit rest"
  have "unat b < 256" using unsigned_less [of b] by simp
  then have "read_number 10 3 False 256 (dec_nat (unat b) @ rest) = Some (unat b, rest)"
    by (intro read_number_show r) simp_all
  then show ?thesis by (simp add: read_octet_def show_octet_def)
qed

lemma dot_no_digit [simp]: "\<not> is_digit 10 CHR ''.''" "\<not> is_digit 10 CHR '':''" "\<not> is_digit 16 CHR '':''"
  "\<not> is_digit 10 CHR ''/''" "\<not> is_digit 16 CHR ''/''" "\<not> is_digit 10 CHR ''f''"
  by (simp_all add: is_digit_def digit_value_def Let_def)

lemma read_octets_show:
  "bs \<noteq> [] \<Longrightarrow> no_digit rest \<Longrightarrow>
   read_octets (length bs) (CHR ''.'' # show_octets bs @ rest) = Some (bs, rest)"
proof (induction bs rule: show_octets.induct)
  case (2 b)
  then show ?case by (simp add: read_char_def read_octet_show)
next
  case (3 b c bs)
  have "read_octet (show_octet b @ CHR ''.'' # show_octets (c # bs) @ rest) =
      Some (b, CHR ''.'' # show_octets (c # bs) @ rest)"
    by (rule read_octet_show) simp
  then show ?case using 3 by (simp add: read_char_def del: show_octets.simps(3) add: show_octets.simps(3) [of b c bs])
qed simp

lemma read_show_ipv4:
  assumes "no_digit rest"
  shows "read_ipv4_addr (show_ipv4 w @ rest) = Some (w, rest)"
proof -
  obtain b bs where o: "octets4 w = b # bs" "length bs = 3" by (simp add: octets4_def)
  then have s: "show_ipv4 w @ rest = show_octet b @ CHR ''.'' # show_octets bs @ rest"
    by (cases bs) (simp_all add: show_ipv4_def)
  have 1: "read_octet (show_octet b @ CHR ''.'' # show_octets bs @ rest) = Some (b, CHR ''.'' # show_octets bs @ rest)"
    by (rule read_octet_show) simp
  have 2: "read_octets 3 (CHR ''.'' # show_octets bs @ rest) = Some (bs, rest)"
    using read_octets_show [of bs rest] o(2) assms by fastforce
  have "ip4_of_octets (b # bs) = w" using ip4_of_octets4 [of w] o(1) by simp
  then show ?thesis unfolding read_ipv4_addr_def s 1 using 2 by simp
qed

lemma read_ipv4_needs_dot: "read_ipv4_addr s = Some (w, r) \<Longrightarrow> CHR ''.'' \<in> set s"
proof -
  assume h: "read_ipv4_addr s = Some (w, r)"
  then obtain b s' where o: "read_octet s = Some (b, s')" and os: "read_octets 3 s' \<noteq> None"
    by (auto simp: read_ipv4_addr_def split: option.splits)
  from o have "s' = dropWhile (is_digit 10) s"
    by (auto simp: read_octet_def read_number_def Let_def split: if_splits)
  moreover have "s' \<noteq> [] \<and> hd s' = CHR ''.''"
    using os by (cases s') (auto simp: numeral_3_eq_3 read_char_def split: if_splits)
  ultimately show ?thesis by (metis hd_in_set set_dropWhileD)
qed

section \<open>IPv6\<close>

text \<open>\<open>read_groups limit first s\<close>: up to \<open>limit\<close> groups, each but the first behind a colon; the flag
  tells that the last two came from an embedded IPv4 address.\<close>

definition after_colon :: "bool \<Rightarrow> string \<Rightarrow> string option" where
  "after_colon first s = (if first then Some s else read_char CHR '':'' s)"

definition read_group :: "string \<Rightarrow> (u16 \<times> string) option" where
  "read_group s = map_option (\<lambda>(n, r). (word_of_nat n, r)) (read_number 16 4 True 65536 s)"

primrec read_groups :: "nat \<Rightarrow> bool \<Rightarrow> string \<Rightarrow> u16 list \<times> bool \<times> string" where
  "read_groups 0 first s = ([], False, s)"
| "read_groups (Suc k) first s =
     (case (if 0 < k then Option.bind (after_colon first s) read_ipv4_addr else None) of
        Some (w, r) \<Rightarrow> ([ucast (drop_bit 16 w), ucast w], True, r)
      | None \<Rightarrow>
          (case Option.bind (after_colon first s) read_group of
             Some (g, r) \<Rightarrow> (case read_groups k False r of (gs, b, r') \<Rightarrow> (g # gs, b, r'))
           | None \<Rightarrow> ([], False, s)))"

definition ip6_of_groups :: "u16 list \<Rightarrow> 128 word" where
  "ip6_of_groups gs = word_of_bits (concat (map word_bits gs))"

definition read_ipv6_addr :: "string \<Rightarrow> (128 word \<times> string) option" where
  "read_ipv6_addr s =
     (case read_groups 8 True s of (front, embedded, r) \<Rightarrow>
        if length front = 8 then Some (ip6_of_groups front, r)
        else if embedded then None
        else (case Option.bind (read_char CHR '':'' r) (read_char CHR '':'') of
                None \<Rightarrow> None
              | Some r \<Rightarrow>
                  (case read_groups (8 - (length front + 1)) True r of (back, _, r') \<Rightarrow>
                     Some (ip6_of_groups
                       (front @ replicate (8 - length front - length back) 0 @ back), r'))))"

definition parse_ip :: "string \<Rightarrow> ipaddr option" where
  "parse_ip s =
     (case read_ipv4_addr s of
        Some (w, r) \<Rightarrow> if r = [] then Some (V4 w) else None
      | None \<Rightarrow> (case read_ipv6_addr s of
                  Some (w, r) \<Rightarrow> if r = [] then Some (V6 w) else None
                | None \<Rightarrow> None))"

definition groups6 :: "128 word \<Rightarrow> u16 list" where
  "groups6 w = map (\<lambda>k. ucast (drop_bit k w)) [112, 96, 80, 64, 48, 32, 16, 0]"

definition show_group :: "u16 \<Rightarrow> string" where
  "show_group g = show_nat 16 (unat g)"

fun show_groups :: "u16 list \<Rightarrow> string" where
  "show_groups [] = []"
| "show_groups [g] = show_group g"
| "show_groups (g # gs) = show_group g @ CHR '':'' # show_groups gs"

text \<open>The loop over the groups keeps the current and the longest span of zero groups, as
  (start, length); the first of several longest ones stays.\<close>

definition span_step :: "(nat \<times> nat) \<times> (nat \<times> nat) \<Rightarrow> nat \<times> u16 \<Rightarrow> (nat \<times> nat) \<times> (nat \<times> nat)" where
  "span_step st ig =
     (let ((cstart, clen), longest) = st; (i, g) = ig in
      if g = 0
      then (let current = (if clen = 0 then i else cstart, clen + 1) in
            (current, if snd current > snd longest then current else longest))
      else ((0, 0), longest))"

definition zero_span :: "u16 list \<Rightarrow> nat \<times> nat" where
  "zero_span gs = snd (foldl span_step ((0, 0), (0, 0)) (enumerate 0 gs))"

definition show_ipv6 :: "128 word \<Rightarrow> string" where
  "show_ipv6 w =
     (let gs = groups6 w in
      if take 6 gs = [0, 0, 0, 0, 0, 0xffff] then ''::ffff:'' @ show_ipv4 (ucast w)
      else (let (start, len) = zero_span gs in
            if len > 1 then show_groups (take start gs) @ ''::'' @ show_groups (drop (start + len) gs)
            else show_groups gs))"

fun show_ip :: "ipaddr \<Rightarrow> string" where
  "show_ip (V4 w) = show_ipv4 w"
| "show_ip (V6 w) = show_ipv6 w"

section \<open>Every address survives its text\<close>

lemma rev_upt_128_16: "rev [0..<128] =
     rev [112..<128] @ rev [96..<112] @ rev [80..<96] @ rev [64..<80] @ rev [48..<64] @
     rev [32..<48] @ rev [16..<32] @ rev [0..<16]"
  by code_simp

lemma word_bits_group:
  assumes "n + 16 \<le> LENGTH('a)"
  shows "word_bits (ucast (drop_bit n (w :: 'a::len word)) :: u16) = map (bit w) (rev [n..<n + 16])"
proof (rule nth_equalityI)
  show "length (word_bits (ucast (drop_bit n w) :: u16)) = length (map (bit w) (rev [n..<n + 16]))"
    by simp
next
  fix i
  assume "i < length (word_bits (ucast (drop_bit n w) :: u16))"
  then have i: "i < 16" by simp
  then have "n + (15 - i) = n + 16 - Suc i" and "15 - i < 16" by simp_all
  with i show "word_bits (ucast (drop_bit n w) :: u16) ! i = map (bit w) (rev [n..<n + 16]) ! i"
    using assms by (simp add: word_bits_nth rev_nth bit_simps)
qed

lemma ip6_of_groups6 [simp]: "ip6_of_groups (groups6 w) = w"
proof -
  have o: "word_bits (ucast (drop_bit n w) :: u16) = map (bit w) (rev [n..<n + 16])" if "n \<le> 112" for n
    using that by (simp add: word_bits_group)
  have "word_bits w = map (bit w) (rev [0..<128])" by (simp add: word_bits_def del: upt_rec_numeral)
  then have "concat (map word_bits (groups6 w)) = word_bits w"
    unfolding rev_upt_128_16 groups6_def
    by (simp add: o word_bits_group [of 0 w, simplified] del: upt_rec_numeral)
  then show ?thesis by (simp add: ip6_of_groups_def)
qed

lemma length_groups6 [simp]: "length (groups6 w) = 8"
  by (simp add: groups6_def)

abbreviation no_hex :: "string \<Rightarrow> bool" where
  "no_hex rest \<equiv> rest = [] \<or> \<not> is_digit 16 (hd rest)"

lemma read_group_show: "no_hex rest \<Longrightarrow> read_group (show_group g @ rest) = Some (g, rest)"
proof -
  assume r: "no_hex rest"
  have "unat g < 65536" using unsigned_less [of g] by simp
  then have "read_number 16 4 True 65536 (show_nat 16 (unat g) @ rest) = Some (unat g, rest)"
    by (intro read_number_show r) simp_all
  then show ?thesis by (simp add: read_group_def show_group_def)
qed

lemma read_group_stop: "no_hex s \<Longrightarrow> read_group s = None"
  by (cases s) (auto simp: read_group_def read_number_def Let_def)

lemma read_ipv4_stop: "no_digit s \<Longrightarrow> read_ipv4_addr s = None"
  by (cases s) (auto simp: read_ipv4_addr_def read_octet_def read_number_def Let_def)

lemma dot_not_in_group: "CHR ''.'' \<notin> set (show_group g)"
proof
  assume "CHR ''.'' \<in> set (show_group g)"
  then have "is_digit 16 CHR ''.''" using show_nat_digits [of 16 "unat g"] by (auto simp: show_group_def)
  then show False by (simp add: is_digit_def digit_value_def Let_def)
qed

lemma dot_not_in_groups: "CHR ''.'' \<notin> set (show_groups gs)"
  by (induction gs rule: show_groups.induct) (auto simp: dot_not_in_group)

lemma no_dot_no_ipv4: "CHR ''.'' \<notin> set s \<Longrightarrow> read_ipv4_addr s = None"
  using read_ipv4_needs_dot by (metis option.exhaust surj_pair)

text \<open>Where a list of groups stops: at the end, or at the double colon.\<close>

definition group_stop :: "string \<Rightarrow> bool" where
  "group_stop rest \<longleftrightarrow> CHR ''.'' \<notin> set rest \<and> (rest = [] \<or> (\<exists>r. rest = CHR '':'' # CHR '':'' # r))"

lemma read_groups_stop: "group_stop rest \<Longrightarrow> read_groups k first rest = ([], False, rest)"
proof (cases k)
  case (Suc j)
  assume h: "group_stop rest"
  consider "after_colon first rest = None" | s where "after_colon first rest = Some s" "no_hex s" "no_digit s"
    using h by (cases first) (auto simp: group_stop_def after_colon_def read_char_def)
  then show ?thesis using Suc read_group_stop read_ipv4_stop by cases simp_all
qed simp

lemma read_groups_none: "no_hex s \<Longrightarrow> no_digit s \<Longrightarrow> read_groups k True s = ([], False, s)"
  using read_group_stop [of s] read_ipv4_stop [of s] by (cases k) (simp_all add: after_colon_def)

lemma read_groups_show:
  assumes "gs \<noteq> []" "length gs \<le> k" "group_stop rest"
  shows "read_groups k first ((if first then [] else '':'') @ show_groups gs @ rest) = (gs, False, rest)"
  using assms
proof (induction gs arbitrary: k first rule: show_groups.induct)
  case (2 g)
  then obtain j where k: "k = Suc j" by (cases k) auto
  have d: "CHR ''.'' \<notin> set (show_group g @ rest)" "no_hex rest"
    using 2 dot_not_in_group by (auto simp: group_stop_def)
  have c: "after_colon first ((if first then [] else '':'') @ show_group g @ rest) = Some (show_group g @ rest)"
    by (simp add: after_colon_def read_char_def)
  show ?case
    using c no_dot_no_ipv4 [OF d(1)] read_group_show [OF d(2)] read_groups_stop [OF 2(3)] by (simp add: k)
next
  case (3 g h gs)
  then obtain j where k: "k = Suc j" by (cases k) auto
  have j: "0 < j" using 3(3) k by simp
  let ?t = "show_groups (h # gs) @ rest"
  have d: "CHR ''.'' \<notin> set (show_group g @ '':'' @ ?t)"
    using 3(4) dot_not_in_group dot_not_in_groups by (auto simp: group_stop_def)
  have c: "after_colon first ((if first then [] else '':'') @ show_group g @ '':'' @ ?t) = Some (show_group g @ '':'' @ ?t)"
    by (simp add: after_colon_def read_char_def)
  have g: "read_group (show_group g @ '':'' @ ?t) = Some (g, '':'' @ ?t)"
    by (rule read_group_show) simp
  have ih: "read_groups j False ('':'' @ ?t) = (h # gs, False, rest)"
    using "3.IH" [of j False] 3(3,4) k by simp
  have s: "show_groups (g # h # gs) @ rest = show_group g @ '':'' @ ?t" by simp
  show ?case unfolding s k using c no_dot_no_ipv4 [OF d] g ih j by simp
qed simp

lemma span_inv:
  "case foldl span_step ((0, 0), (0, 0)) (enumerate 0 gs) of ((cs, cl), (ls, ll)) \<Rightarrow>
     (cl = 0 \<or> cs + cl = length gs \<and> (\<forall>j. cs \<le> j \<and> j < length gs \<longrightarrow> gs ! j = 0)) \<and>
     ls + ll \<le> length gs \<and> (\<forall>j. ls \<le> j \<and> j < ls + ll \<longrightarrow> gs ! j = 0)"
proof (induction gs rule: rev_induct)
  case (snoc g gs)
  obtain cs cl ls ll where st: "foldl span_step ((0, 0), (0, 0)) (enumerate 0 gs) = ((cs, cl), (ls, ll))"
    by (metis surj_pair)
  have ih: "(cl = 0 \<or> cs + cl = length gs \<and> (\<forall>j. cs \<le> j \<and> j < length gs \<longrightarrow> gs ! j = 0)) \<and>
     ls + ll \<le> length gs \<and> (\<forall>j. ls \<le> j \<and> j < ls + ll \<longrightarrow> gs ! j = 0)"
    using snoc unfolding st by simp
  have e: "foldl span_step ((0, 0), (0, 0)) (enumerate 0 (gs @ [g])) = span_step ((cs, cl), (ls, ll)) (length gs, g)"
    using st by (simp add: enumerate_append_eq)
  show ?case
    unfolding e using ih by (auto simp: span_step_def Let_def nth_append less_Suc_eq)
qed simp

lemma zero_span_split:
  assumes "zero_span gs = (start, len)"
  shows "start + len \<le> length gs"
    and "take start gs @ replicate len 0 @ drop (start + len) gs = gs"
proof -
  have b: "start + len \<le> length gs" and z: "\<forall>j. start \<le> j \<and> j < start + len \<longrightarrow> gs ! j = 0"
    using span_inv [of gs] assms by (auto simp: zero_span_def split: prod.splits)
  show "start + len \<le> length gs" by (rule b)
  have "take len (drop start gs) = replicate len 0"
    by (rule nth_equalityI) (use b z in auto)
  then show "take start gs @ replicate len 0 @ drop (start + len) gs = gs"
    by (metis add.commute append_take_drop_id drop_drop)
qed

lemma mapped_groups:
  "[ucast (drop_bit 16 (ucast w :: 32 word)), ucast (ucast w :: 32 word)] = drop 6 (groups6 w)"
  by (auto simp: groups6_def intro!: bit_word_eqI simp: bit_simps)

lemma read_show_mapped:
  assumes "take 6 (groups6 w) = [0, 0, 0, 0, 0, 0xffff]"
  shows "read_ipv6_addr (''::ffff:'' @ show_ipv4 (ucast w)) = Some (w, [])"
proof -
  let ?v = "ucast w :: 32 word"
  have 1: "read_groups 8 True (''::ffff:'' @ show_ipv4 ?v) = ([], False, ''::ffff:'' @ show_ipv4 ?v)"
    by (rule read_groups_none) simp_all
  have r: "read_groups (Suc (Suc j)) False ('':'' @ show_ipv4 ?v) = (drop 6 (groups6 w), True, [])" for j
    using read_show_ipv4 [of "[]" ?v] mapped_groups [of w] by (simp add: after_colon_def read_char_def)
  have f: "read_group (show_group 0xffff @ '':'' @ show_ipv4 ?v) = Some (0xffff, '':'' @ show_ipv4 ?v)"
    by (rule read_group_show) simp
  have sf: "show_group 0xffff = ''ffff''"
    by (simp add: show_group_def show_nat.simps digit_def char_of_def bit_iff_odd)
  have n: "read_ipv4_addr (''ffff:'' @ show_ipv4 ?v) = None"
    by (rule read_ipv4_stop) simp
  have 2: "read_groups (Suc (Suc (Suc j))) True (''ffff:'' @ show_ipv4 ?v) = (0xffff # drop 6 (groups6 w), True, [])" for j
    using n f r [of j] unfolding sf by (simp add: after_colon_def)
  have g: "replicate 5 0 @ 0xffff # drop 6 (groups6 w) = groups6 w"
    using append_take_drop_id [of 6 "groups6 w"] unfolding assms by (simp add: numeral_eq_Suc)
  have 3: "read_groups 7 True (''ffff:'' @ show_ipv4 ?v) = (0xffff # drop 6 (groups6 w), True, [])"
    using 2 [of 4] by (simp add: numeral_eq_Suc)
  show ?thesis
    using 1 3 g by (simp add: read_ipv6_addr_def read_char_def)
qed

lemma read_show_ipv6: "read_ipv6_addr (show_ipv6 w) = Some (w, [])"
proof -
  let ?gs = "groups6 w"
  obtain st len where z: "zero_span ?gs = (st, len)" by (metis surj_pair)
  consider (mapped) "take 6 ?gs = [0, 0, 0, 0, 0, 0xffff]"
    | (plain) "take 6 ?gs \<noteq> [0, 0, 0, 0, 0, 0xffff]" "\<not> len > 1"
    | (elided) "take 6 ?gs \<noteq> [0, 0, 0, 0, 0, 0xffff]" "len > 1" by blast
  then show ?thesis
  proof cases
    case mapped
    then show ?thesis using read_show_mapped [OF mapped] by (simp add: show_ipv6_def Let_def)
  next
    case plain
    then have s: "show_ipv6 w = show_groups ?gs" using z by (simp add: show_ipv6_def Let_def)
    have "?gs \<noteq> []" by (simp add: groups6_def)
    then have "read_groups 8 True (show_groups ?gs) = (?gs, False, [])"
      using read_groups_show [of ?gs 8 "[]" True] by (simp add: group_stop_def)
    then show ?thesis by (simp add: s read_ipv6_addr_def)
  next
    case elided
    let ?f = "take st ?gs" and ?b = "drop (st + len) ?gs"
    have s: "show_ipv6 w = show_groups ?f @ ''::'' @ show_groups ?b"
      using elided z by (simp add: show_ipv6_def Let_def)
    note sp = zero_span_split [OF z]
    have stop: "group_stop (''::'' @ show_groups ?b)" using dot_not_in_groups by (simp add: group_stop_def)
    have 1: "read_groups 8 True (show_groups ?f @ ''::'' @ show_groups ?b) = (?f, False, ''::'' @ show_groups ?b)"
    proof (cases "?f = []")
      case True
      show ?thesis unfolding True using read_groups_stop [OF stop] by simp
    next
      case False
      then show ?thesis using read_groups_show [OF False _ stop, of 8 True] by simp
    qed
    have lf: "length ?f = st" "length ?f \<noteq> 8" using sp(1) elided(2) by auto
    have 2: "read_groups (8 - (st + 1)) True (show_groups ?b) = (?b, False, [])"
    proof (cases "?b = []")
      case True
      then show ?thesis using read_groups_none [of "[]"] by simp
    next
      case False
      then show ?thesis using read_groups_show [OF False, of "8 - (st + 1)" "[]" True] elided(2)
        by (simp add: group_stop_def)
    qed
    have "8 - st - length ?b = len" using sp(1) by simp
    then have "?f @ replicate (8 - st - length ?b) 0 @ ?b = ?gs" using sp(2) by metis
    then show ?thesis
      unfolding s read_ipv6_addr_def 1 using lf 2 by (simp add: read_char_def)
  qed
qed

theorem parse_show_ip: "parse_ip (show_ip a) = Some a"
proof (cases a)
  case (V4 w)
  then show ?thesis using read_show_ipv4 [of "[]" w] by (simp add: parse_ip_def)
next
  case (V6 w)
  have "read_ipv4_addr (show_ipv6 w) = None"
  proof (cases "take 6 (groups6 w) = [0, 0, 0, 0, 0, 0xffff]")
    case True
    then have s: "show_ipv6 w = ''::ffff:'' @ show_ipv4 (ucast w)" by (simp add: show_ipv6_def Let_def)
    show ?thesis unfolding s by (rule read_ipv4_stop) simp
  next
    case False
    then have "CHR ''.'' \<notin> set (show_ipv6 w)"
      using dot_not_in_groups by (auto simp: show_ipv6_def Let_def split: prod.splits)
    then show ?thesis by (rule no_dot_no_ipv4)
  qed
  then show ?thesis using V6 read_show_ipv6 [of w] by (simp add: parse_ip_def)
qed

corollary show_ip_inj: "show_ip a = show_ip b \<Longrightarrow> a = b"
  by (metis option.inject parse_show_ip)

end
