(* ===== verification/Refresh_Lock.thy ===== *)
theory Refresh_Lock
  imports Db_Rows Ip_Text
begin

text \<open>
  The database locks that keep two control-plane processes from refreshing the same intelligence at
  once: \<^verbatim>\<open>intelligence/refresh_lock.rs\<close>, \<^verbatim>\<open>intelligence/threat/lock.rs\<close> and
  \<^verbatim>\<open>intelligence/geo/lock.rs\<close>. Each lock is one table row, changed by single SQL statements; the
  statements are the functions below, one per function of the code, on the row's columns. The locale
  \<open>row_lock\<close> states what both kinds of row promise, the interleavings of acquiring and releasing
  actors are the step relation \<open>lock_step\<close>, and mutual exclusion is proved once, for both.
\<close>

section \<open>Owners and leases\<close>

text \<open>\<^verbatim>\<open>timestamp_nanos_opt\<close> is \<^verbatim>\<open>None\<close> outside \<^verbatim>\<open>i64\<close>; the fallback product then wraps.\<close>

definition timestamp_nanos :: "datetime \<Rightarrow> int" where
  "timestamp_nanos now =
     (if - (2 ^ 63) \<le> now \<and> now < 2 ^ 63 then now
      else signed_take_bit 63 (now div 1000 * 1000))"

definition lock_owner :: "nat \<Rightarrow> datetime \<Rightarrow> string" where
  "lock_owner pid now = dec_nat pid @ '':'' @ dec_int (timestamp_nanos now)"

text \<open>\<^verbatim>\<open>num_seconds\<close> truncates towards zero.\<close>

definition num_seconds :: "int \<Rightarrow> int" where
  "num_seconds d = (if d < 0 then - ((- d) div nanos_per_second) else d div nanos_per_second)"

definition lease_is_fresh :: "datetime \<Rightarrow> datetime \<Rightarrow> datetime \<Rightarrow> int \<Rightarrow> bool" where
  "lease_is_fresh last_checked_at updated_at now stale_seconds \<longleftrightarrow>
     num_seconds (now - max last_checked_at updated_at) < stale_seconds"

section \<open>The threat-intelligence lock row\<close>

text \<open>A new row's \<^verbatim>\<open>id\<close> is the database's choice; nothing reads it.\<close>

definition threat_stale_seconds :: int where "threat_stale_seconds = 900"

definition running_prefix :: string where "running_prefix = ''running:''"

definition new_threat_lock_row :: "datetime \<Rightarrow> threat_source_state_row" where
  "new_threat_lock_row now =
     \<lparr>tss_id = 0, tss_policy_name = ''__threat_refresh_lock__'',
      tss_source_name = default_policy_name, tss_fingerprint = ''idle'', tss_prefix_count = 0, tss_last_checked_at = now,
      tss_last_changed_at = None, tss_updated_at = now\<rparr>"

definition ensure_threat_refresh_lock_row ::
    "datetime \<Rightarrow> threat_source_state_row option \<Rightarrow> threat_source_state_row option" where
  "ensure_threat_refresh_lock_row now row =
     (case row of None \<Rightarrow> Some (new_threat_lock_row now) | Some r \<Rightarrow> Some r)"

definition threat_refresh_lock_is_busy :: "threat_source_state_row \<Rightarrow> datetime \<Rightarrow> bool" where
  "threat_refresh_lock_is_busy existing now \<longleftrightarrow>
     take (length running_prefix) (tss_fingerprint existing) = running_prefix \<and>
     lease_is_fresh (tss_last_checked_at existing) (tss_updated_at existing) now threat_stale_seconds"

definition mark_threat_refresh_lock_running ::
    "threat_source_state_row \<Rightarrow> datetime \<Rightarrow> string \<Rightarrow> threat_source_state_row \<Rightarrow> threat_source_state_row \<times> bool" where
  "mark_threat_refresh_lock_running existing now owner row =
     (if tss_last_checked_at row = tss_last_checked_at existing
      then (row\<lparr>tss_fingerprint := running_prefix @ owner, tss_last_checked_at := now,
                tss_last_changed_at := Some now\<rparr>, True)
      else (row, False))"

definition release_threat_refresh_lock ::
    "datetime \<Rightarrow> string \<Rightarrow> threat_source_state_row \<Rightarrow> threat_source_state_row" where
  "release_threat_refresh_lock now owner row =
     (if tss_fingerprint row = running_prefix @ owner
      then row\<lparr>tss_fingerprint := ''idle'', tss_last_checked_at := now\<rparr> else row)"

section \<open>The country-list lock row\<close>

definition geo_stale_seconds :: int where "geo_stale_seconds = 30 * 60"

definition new_geo_lock_row :: "datetime \<Rightarrow> geo_ip_list_state_row" where
  "new_geo_lock_row now =
     \<lparr>gls_id = 0, gls_country = ''__refresh_lock__'', gls_url = ''https://www.ipdeny.com/ipblocks/'',
      gls_last_modified = Some ''idle'', gls_etag = None, gls_prefix_count = 0,
      gls_last_checked_at = now, gls_last_downloaded_at = None, gls_updated_at = now\<rparr>"

definition ensure_lock_row :: "datetime \<Rightarrow> geo_ip_list_state_row option \<Rightarrow> geo_ip_list_state_row option" where
  "ensure_lock_row now row = (case row of None \<Rightarrow> Some (new_geo_lock_row now) | Some r \<Rightarrow> Some r)"

definition lock_is_busy :: "geo_ip_list_state_row \<Rightarrow> datetime \<Rightarrow> bool" where
  "lock_is_busy existing now \<longleftrightarrow> gls_last_modified existing = Some ''running'' \<and>
     lease_is_fresh (gls_last_checked_at existing) (gls_updated_at existing) now geo_stale_seconds"

definition mark_lock_running ::
    "geo_ip_list_state_row \<Rightarrow> datetime \<Rightarrow> string \<Rightarrow> geo_ip_list_state_row \<Rightarrow> geo_ip_list_state_row \<times> bool" where
  "mark_lock_running existing now owner row =
     (if gls_last_checked_at row = gls_last_checked_at existing
      then (row\<lparr>gls_last_modified := Some ''running'', gls_etag := Some owner,
                gls_last_checked_at := now\<rparr>, True)
      else (row, False))"

definition release_lock :: "datetime \<Rightarrow> string \<Rightarrow> geo_ip_list_state_row \<Rightarrow> geo_ip_list_state_row" where
  "release_lock now owner row =
     (if gls_etag row = Some owner
      then row\<lparr>gls_last_modified := Some ''idle'', gls_etag := None, gls_last_checked_at := now\<rparr>
      else row)"

section \<open>Owner strings tell attempts apart\<close>

lemma split_at_separator:
  assumes "as @ c # bs = as' @ c # bs'" and "c \<notin> set as" and "c \<notin> set as'"
  shows "as = as' \<and> bs = bs'"
proof -
  have t: "takeWhile (\<lambda>x. x \<noteq> c) (xs @ c # ys) = xs" if "c \<notin> set xs" for xs ys
    using that by (induction xs) auto
  have "as = as'" using t [OF assms(2), of bs] t [OF assms(3), of bs'] assms(1) by simp
  with assms(1) show ?thesis by simp
qed

lemma lock_owner_time:
  assumes "lock_owner p n = lock_owner q m" and "0 \<le> n" "n < 2 ^ 63" "0 \<le> m" "m < 2 ^ 63"
  shows "n = m"
proof -
  have c: "CHR '':'' \<notin> set (dec_nat k)" for k
    using show_nat_digits [of 10 k] by auto
  from assms(1) have "dec_int (timestamp_nanos n) = dec_int (timestamp_nanos m)"
    using split_at_separator [of "dec_nat p" "CHR '':''" _ "dec_nat q"] c by (simp add: lock_owner_def)
  then have "dec_nat (nat n) = dec_nat (nat m)"
    using assms by (simp add: timestamp_nanos_def dec_int_def)
  then have "nat n = nat m" by (rule show_nat_inj [rotated 2]) simp_all
  with assms show ?thesis by simp
qed

section \<open>Interleavings\<close>

record 'r lock_ops =
  lk_ensure :: "datetime \<Rightarrow> 'r option \<Rightarrow> 'r option"
  lk_busy :: "'r \<Rightarrow> datetime \<Rightarrow> bool"
  lk_mark :: "'r \<Rightarrow> datetime \<Rightarrow> string \<Rightarrow> 'r \<Rightarrow> 'r \<times> bool"
  lk_release :: "datetime \<Rightarrow> string \<Rightarrow> 'r \<Rightarrow> 'r"

definition threat_lock_ops :: "threat_source_state_row lock_ops" where
  "threat_lock_ops =
     \<lparr>lk_ensure = ensure_threat_refresh_lock_row, lk_busy = threat_refresh_lock_is_busy,
      lk_mark = mark_threat_refresh_lock_running, lk_release = release_threat_refresh_lock\<rparr>"

definition geo_lock_ops :: "geo_ip_list_state_row lock_ops" where
  "geo_lock_ops =
     \<lparr>lk_ensure = ensure_lock_row, lk_busy = lock_is_busy, lk_mark = mark_lock_running,
      lk_release = release_lock\<rparr>"

text \<open>Where an actor is inside \<^verbatim>\<open>try_acquire\<close>, with the \<^verbatim>\<open>now\<close> it read at its start.\<close>

datatype 'r lock_phase =
    Idle
  | Started datetime
  | Ensured datetime
  | Loaded datetime 'r
  | Held datetime

record 'r lock_world =
  lw_row :: "'r option"
  lw_actors :: "nat \<Rightarrow> 'r lock_phase"
  lw_clock :: datetime

definition set_phase :: "nat \<Rightarrow> 'r lock_phase \<Rightarrow> 'r lock_world \<Rightarrow> 'r lock_world" where
  "set_phase a ph w = w\<lparr>lw_actors := (lw_actors w)(a := ph)\<rparr>"

inductive lock_step :: "'r lock_ops \<Rightarrow> (nat \<Rightarrow> nat) \<Rightarrow> 'r lock_world \<Rightarrow> 'r lock_world \<Rightarrow> bool"
  for L :: "'r lock_ops" and pid :: "nat \<Rightarrow> nat" where
  begins: "lw_actors w a = Idle \<Longrightarrow> 0 \<le> lw_clock w \<Longrightarrow> lw_clock w < 2 ^ 63 \<Longrightarrow>
     lock_step L pid w (set_phase a (Started (lw_clock w)) (w\<lparr>lw_clock := lw_clock w + 1\<rparr>))"
| waits: "lw_clock w \<le> t \<Longrightarrow> lock_step L pid w (w\<lparr>lw_clock := t\<rparr>)"
| ensures: "lw_actors w a = Started n \<Longrightarrow>
     lock_step L pid w (set_phase a (Ensured n) (w\<lparr>lw_row := lk_ensure L n (lw_row w)\<rparr>))"
| load_busy: "lw_actors w a = Ensured n \<Longrightarrow> lw_row w = Some r \<Longrightarrow> lk_busy L r n \<Longrightarrow>
     lock_step L pid w (set_phase a Idle w)"
| load_free: "lw_actors w a = Ensured n \<Longrightarrow> lw_row w = Some r \<Longrightarrow> \<not> lk_busy L r n \<Longrightarrow>
     lock_step L pid w (set_phase a (Loaded n r) w)"
| marks: "lw_actors w a = Loaded n e \<Longrightarrow> lw_row w = Some r \<Longrightarrow>
     lk_mark L e n (lock_owner (pid a) n) r = (r', won) \<Longrightarrow>
     lock_step L pid w (set_phase a (if won then Held n else Idle) (w\<lparr>lw_row := Some r'\<rparr>))"
| releases: "lw_actors w a = Held n \<Longrightarrow> lw_row w = Some r \<Longrightarrow>
     lock_step L pid w (set_phase a Idle (w\<lparr>lw_row := Some (lk_release L (lw_clock w) (lock_owner (pid a) n) r),
        lw_clock := lw_clock w + 1\<rparr>))"
| crashes: "lock_step L pid w (set_phase a Idle w)"

inductive lock_reach :: "'r lock_ops \<Rightarrow> (nat \<Rightarrow> nat) \<Rightarrow> 'r lock_world \<Rightarrow> 'r lock_world \<Rightarrow> bool"
  for L :: "'r lock_ops" and pid :: "nat \<Rightarrow> nat" and w0 :: "'r lock_world" where
  start: "lock_reach L pid w0 w0"
| more: "lock_reach L pid w0 w \<Longrightarrow> lock_step L pid w w' \<Longrightarrow> lock_reach L pid w0 w'"

text \<open>The row exists, nobody is inside, and the row was last touched in the past.\<close>

definition quiet_world :: "('r \<Rightarrow> datetime) \<Rightarrow> 'r lock_world \<Rightarrow> bool" where
  "quiet_world checked w \<longleftrightarrow> (\<forall>a. lw_actors w a = Idle) \<and>
     (\<exists>r. lw_row w = Some r \<and> checked r < lw_clock w)"

fun pre_time :: "'r lock_phase \<Rightarrow> datetime option" where
  "pre_time (Started n) = Some n"
| "pre_time (Ensured n) = Some n"
| "pre_time (Loaded n r) = Some n"
| "pre_time _ = None"

fun any_time :: "'r lock_phase \<Rightarrow> datetime option" where
  "any_time Idle = None"
| "any_time (Started n) = Some n"
| "any_time (Ensured n) = Some n"
| "any_time (Loaded n r) = Some n"
| "any_time (Held n) = Some n"

lemma set_phase_fields:
  "lw_actors (set_phase a ph w) = (lw_actors w)(a := ph)"
  "lw_row (set_phase a ph w) = lw_row w" "lw_clock (set_phase a ph w) = lw_clock w"
  by (simp_all add: set_phase_def)

lemma pre_time_any: "pre_time ph = Some n \<Longrightarrow> any_time ph = Some n"
  by (cases ph) auto

section \<open>The contract of a lock row\<close>

locale row_lock =
  fixes L :: "'r lock_ops" and checked :: "'r \<Rightarrow> datetime" and held_by :: "string \<Rightarrow> 'r \<Rightarrow> bool"
    and lease :: int
  assumes ensure_present: "lk_ensure L n (Some r) = Some r"
    and mark_won_iff: "snd (lk_mark L e n ow r) \<longleftrightarrow> checked r = checked e"
    and mark_won: "snd (lk_mark L e n ow r) \<Longrightarrow>
          checked (fst (lk_mark L e n ow r)) = n \<and> held_by ow (fst (lk_mark L e n ow r))"
    and mark_lost: "\<not> snd (lk_mark L e n ow r) \<Longrightarrow> fst (lk_mark L e n ow r) = r"
    and release_cases: "lk_release L t ow r = r \<or>
          checked (lk_release L t ow r) = t \<and> (\<forall>ow'. held_by ow' r \<longrightarrow> ow' = ow)"
    and busy_lease: "held_by ow r \<Longrightarrow> \<not> lk_busy L r n \<Longrightarrow> checked r + lease \<le> n"
begin

definition lock_inv :: "(nat \<Rightarrow> nat) \<Rightarrow> 'r lock_world \<Rightarrow> bool" where
  "lock_inv pid w \<longleftrightarrow>
     (\<forall>a b n. any_time (lw_actors w a) = Some n \<and> any_time (lw_actors w b) = Some n \<longrightarrow> a = b) \<and>
     (\<forall>a n. any_time (lw_actors w a) = Some n \<longrightarrow> 0 \<le> n \<and> n < 2 ^ 63 \<and> n < lw_clock w) \<and>
     (\<exists>r. lw_row w = Some r \<and> checked r < lw_clock w \<and>
        (\<forall>a n. pre_time (lw_actors w a) = Some n \<longrightarrow> checked r \<noteq> n)) \<and>
     (\<forall>a n e. lw_actors w a = Loaded n e \<longrightarrow> checked e < lw_clock w \<and> \<not> lk_busy L e n \<and>
        (\<forall>b m. pre_time (lw_actors w b) = Some m \<longrightarrow> checked e \<noteq> m) \<and>
        (\<forall>r. lw_row w = Some r \<and> checked r = checked e \<longrightarrow> r = e)) \<and>
     (\<forall>a n. lw_actors w a = Held n \<longrightarrow> n + lease \<le> lw_clock w \<or>
        (\<exists>r. lw_row w = Some r \<and> held_by (lock_owner (pid a) n) r \<and> checked r = n))"

lemma quiet_inv: "quiet_world checked w \<Longrightarrow> lock_inv pid w"
  by (auto simp: quiet_world_def lock_inv_def)

lemma inv_clock: "lock_inv pid w \<Longrightarrow> any_time (lw_actors w a) = Some n \<Longrightarrow> 0 \<le> n \<and> n < 2 ^ 63 \<and> n < lw_clock w"
  by (simp add: lock_inv_def)

lemma inv_distinct:
  "lock_inv pid w \<Longrightarrow> any_time (lw_actors w a) = Some n \<Longrightarrow> any_time (lw_actors w b) = Some n \<Longrightarrow> a = b"
  unfolding lock_inv_def by blast

lemma inv_begins:
  assumes "lock_inv pid w" "lw_actors w a = Idle" "0 \<le> lw_clock w" "lw_clock w < 2 ^ 63"
  shows "lock_inv pid (set_phase a (Started (lw_clock w)) (w\<lparr>lw_clock := lw_clock w + 1\<rparr>))"
  using assms unfolding lock_inv_def set_phase_def
  by (auto split: if_splits dest!: pre_time_any) fastforce+

lemma inv_waits: "lock_inv pid w \<Longrightarrow> lw_clock w \<le> t \<Longrightarrow> lock_inv pid (w\<lparr>lw_clock := t\<rparr>)"
  unfolding lock_inv_def by fastforce

lemma inv_crashes: "lock_inv pid w \<Longrightarrow> lock_inv pid (set_phase a Idle w)"
  unfolding lock_inv_def set_phase_def by auto

lemma inv_same_times:
  assumes inv: "lock_inv pid w"
    and times: "any_time ph = any_time (lw_actors w a)" "pre_time ph = pre_time (lw_actors w a)"
    and ph: "\<And>n. ph \<noteq> Held n" "\<And>n e. ph = Loaded n e \<Longrightarrow> lw_row w = Some e \<and> \<not> lk_busy L e n"
  shows "lock_inv pid (set_phase a ph w)"
proof -
  have t: "any_time (((lw_actors w)(a := ph)) b) = any_time (lw_actors w b)"
    "pre_time (((lw_actors w)(a := ph)) b) = pre_time (lw_actors w b)" for b
    using times by simp_all
  have row: "checked e < lw_clock w \<and> (\<forall>b m. pre_time (lw_actors w b) = Some m \<longrightarrow> checked e \<noteq> m)"
    if "lw_row w = Some e" for e
    using inv that unfolding lock_inv_def by auto
  show ?thesis
    using inv ph row unfolding lock_inv_def set_phase_fields t
    by (auto split: if_splits)
qed

lemma inv_ensures:
  assumes "lock_inv pid w" "lw_actors w a = Started n"
  shows "lock_inv pid (set_phase a (Ensured n) (w\<lparr>lw_row := lk_ensure L n (lw_row w)\<rparr>))"
proof -
  have "lk_ensure L n (lw_row w) = lw_row w"
    using assms(1) unfolding lock_inv_def by (auto simp: ensure_present)
  then show ?thesis using inv_same_times [OF assms(1), of "Ensured n" a] assms(2) by simp
qed

lemma inv_load_free:
  assumes "lock_inv pid w" "lw_actors w a = Ensured n" "lw_row w = Some r" "\<not> lk_busy L r n"
  shows "lock_inv pid (set_phase a (Loaded n r) w)"
  using inv_same_times [OF assms(1), of "Loaded n r" a] assms by simp

lemma inv_loaded:
  assumes "lock_inv pid w" "lw_actors w b = Loaded k e"
  shows "checked e < lw_clock w" "\<not> lk_busy L e k"
    "\<And>c m. pre_time (lw_actors w c) = Some m \<Longrightarrow> checked e \<noteq> m"
  using assms unfolding lock_inv_def by blast+

lemma inv_row_change:
  assumes inv: "lock_inv pid w"
    and acts: "lw_actors w' = (lw_actors w)(a := ph)"
    and ph: "any_time ph = None \<or> any_time ph = any_time (lw_actors w a)" "pre_time ph = None"
    and row: "lw_row w' = Some r'" "lw_clock w \<le> lw_clock w'" "checked r' < lw_clock w'"
    and pre: "\<And>b m. b \<noteq> a \<Longrightarrow> pre_time (lw_actors w b) = Some m \<Longrightarrow> checked r' \<noteq> m"
    and loaded: "\<And>b k e. b \<noteq> a \<Longrightarrow> lw_actors w b = Loaded k e \<Longrightarrow> checked r' \<noteq> checked e"
    and held: "\<And>b h. b \<noteq> a \<Longrightarrow> lw_actors w b = Held h \<Longrightarrow> h + lease \<le> lw_clock w'"
    and own: "\<And>n. ph = Held n \<Longrightarrow> held_by (lock_owner (pid a) n) r' \<and> checked r' = n"
  shows "lock_inv pid w'"
proof -
  have any: "any_time (lw_actors w b) = Some n" if "any_time (lw_actors w' b) = Some n" for b n
    using that ph(1) by (auto simp: acts split: if_splits)
  have pre': "b \<noteq> a \<and> pre_time (lw_actors w b) = Some n" if "pre_time (lw_actors w' b) = Some n" for b n
    using that ph(2) by (auto simp: acts split: if_splits)
  have ld: "b \<noteq> a \<and> lw_actors w b = Loaded n e" if "lw_actors w' b = Loaded n e" for b n e
    using that ph(2) by (auto simp: acts split: if_splits)
  have hd: "b = a \<and> ph = Held n \<or> b \<noteq> a \<and> lw_actors w b = Held n" if "lw_actors w' b = Held n" for b n
    using that by (auto simp: acts split: if_splits)
  have 1: "c = b" if "any_time (lw_actors w' c) = Some n" "any_time (lw_actors w' b) = Some n" for b c n
    using inv_distinct [OF inv any any] that .
  have 2: "0 \<le> n \<and> n < 2 ^ 63 \<and> n < lw_clock w'" if "any_time (lw_actors w' b) = Some n" for b n
    using inv_clock [OF inv any [OF that]] row(2) by linarith
  have 3: "checked e < lw_clock w' \<and> \<not> lk_busy L e n \<and>
      (\<forall>c m. pre_time (lw_actors w' c) = Some m \<longrightarrow> checked e \<noteq> m) \<and> checked r' \<noteq> checked e"
    if b: "lw_actors w' b = Loaded n e" for b n e
    using inv_loaded [OF inv, of b n e] ld [OF b] pre' loaded [of b n e] row(2) by auto
  have 4: "n + lease \<le> lw_clock w' \<or> held_by (lock_owner (pid b) n) r' \<and> checked r' = n"
    if "lw_actors w' b = Held n" for b n
    using hd [OF that] held own by blast
  have 5: "checked r' \<noteq> n" if "pre_time (lw_actors w' b) = Some n" for b n
    using pre' [OF that] pre by blast
  show ?thesis
    unfolding lock_inv_def row(1) option.inject
    using 1 2 3 4 5 row(3) by blast
qed

lemma inv_held:
  assumes "lock_inv pid w" "lw_actors w b = Held h" "lw_row w = Some r"
  shows "h + lease \<le> lw_clock w \<or> held_by (lock_owner (pid b) h) r \<and> checked r = h"
  using assms unfolding lock_inv_def by auto

lemma inv_marks:
  assumes inv: "lock_inv pid w" and a: "lw_actors w a = Loaded n e" and r: "lw_row w = Some r"
    and m: "lk_mark L e n (lock_owner (pid a) n) r = (r', won)"
  shows "lock_inv pid (set_phase a (if won then Held n else Idle) (w\<lparr>lw_row := Some r'\<rparr>))"
proof (cases won)
  case False
  then have "r' = r" using mark_lost [of e n "lock_owner (pid a) n" r] m by simp
  then have "w\<lparr>lw_row := Some r'\<rparr> = w" using r by simp
  then show ?thesis using inv_crashes [OF inv] False by simp
next
  case True
  have t: "any_time (lw_actors w a) = Some n" "pre_time (lw_actors w a) = Some n"
    using a by simp_all
  have c: "checked r' = n" "held_by (lock_owner (pid a) n) r'" "checked r = checked e"
    using mark_won_iff [of e n "lock_owner (pid a) n" r] mark_won [of e n "lock_owner (pid a) n" r] m True
    by simp_all
  have e: "r = e" "\<not> lk_busy L e n" using inv a r c unfolding lock_inv_def by auto
  have clk: "n < lw_clock w" using inv_clock [OF inv t(1)] by simp
  have held: "h + lease \<le> lw_clock w" if "lw_actors w b = Held h" for b h
    using inv_held [OF inv that r] busy_lease [of "lock_owner (pid b) h" r n] e clk by auto
  have loaded: "n \<noteq> checked e'" if "lw_actors w b = Loaded k e'" for b k e'
    using inv_loaded(3) [OF inv that t(2)] by simp
  have pre: "n \<noteq> k" if "b \<noteq> a" "pre_time (lw_actors w b) = Some k" for b k
    using inv_distinct [OF inv t(1)] pre_time_any [OF that(2)] that(1) by auto
  show ?thesis
    by (rule inv_row_change [OF inv, where a = a and ph = "Held n" and r' = r'])
      (use True c clk held loaded pre t in \<open>auto simp: set_phase_fields\<close>)
qed

lemma inv_releases:
  assumes inv: "lock_inv pid w" and a: "lw_actors w a = Held n" and r: "lw_row w = Some r"
  shows "lock_inv pid (set_phase a Idle
    (w\<lparr>lw_row := Some (lk_release L (lw_clock w) (lock_owner (pid a) n) r), lw_clock := lw_clock w + 1\<rparr>))"
    (is "lock_inv pid (set_phase a Idle (w\<lparr>lw_row := Some ?r, lw_clock := _\<rparr>))")
proof (cases "?r = r")
  case True
  then have "w\<lparr>lw_row := Some ?r, lw_clock := lw_clock w + 1\<rparr> = w\<lparr>lw_clock := lw_clock w + 1\<rparr>"
    using r by simp
  then show ?thesis using inv_crashes [OF inv_waits [OF inv, of "lw_clock w + 1"]] by simp
next
  case False
  with release_cases [of "lw_clock w" "lock_owner (pid a) n" r]
  have c: "checked ?r = lw_clock w" "\<And>ow. held_by ow r \<Longrightarrow> ow = lock_owner (pid a) n" by auto
  have ta: "any_time (lw_actors w a) = Some n" using a by simp
  have held: "h + lease \<le> lw_clock w + 1" if ab: "b \<noteq> a" and b: "lw_actors w b = Held h" for b h
  proof (rule ccontr)
    assume "\<not> ?thesis"
    then have "held_by (lock_owner (pid b) h) r" using inv_held [OF inv b r] by linarith
    then have o: "lock_owner (pid b) h = lock_owner (pid a) n" by (rule c(2))
    have tb: "any_time (lw_actors w b) = Some h" using b by simp
    have "h = n" using lock_owner_time [OF o] inv_clock [OF inv ta] inv_clock [OF inv tb] by simp
    then have "b = a" using inv_distinct [OF inv tb] ta by simp
    with ab show False by simp
  qed
  have pre: "lw_clock w \<noteq> m" if "pre_time (lw_actors w b) = Some m" for b m
    using inv_clock [OF inv pre_time_any [OF that]] by simp
  have loaded: "lw_clock w \<noteq> checked e" if "lw_actors w b = Loaded k e" for b k e
    using inv_loaded(1) [OF inv that] by simp
  show ?thesis
    by (rule inv_row_change [OF inv, where a = a and ph = Idle and r' = ?r])
      (use c held pre loaded in \<open>auto simp: set_phase_fields\<close>)
qed

lemma inv_step: "lock_step L pid w w' \<Longrightarrow> lock_inv pid w \<Longrightarrow> lock_inv pid w'"
  by (induction rule: lock_step.induct)
    (simp_all add: inv_begins inv_waits inv_ensures inv_crashes inv_load_free inv_marks inv_releases)

lemma inv_reach: "lock_reach L pid w0 w \<Longrightarrow> lock_inv pid w0 \<Longrightarrow> lock_inv pid w"
  by (induction rule: lock_reach.induct) (auto intro: inv_step)

lemma exclusive:
  assumes "lock_reach L pid w0 w" "quiet_world checked w0"
    and a: "lw_actors w a = Held n" "lw_clock w < n + lease"
    and b: "lw_actors w b = Held m" "lw_clock w < m + lease"
  shows "a = b"
proof -
  have inv: "lock_inv pid w" using inv_reach [OF assms(1) quiet_inv [OF assms(2)]] .
  obtain r where r: "lw_row w = Some r" using inv unfolding lock_inv_def by auto
  have "n = m" using inv_held [OF inv a(1) r] inv_held [OF inv b(1) r] a(2) b(2) by linarith
  then have "any_time (lw_actors w a) = Some n" "any_time (lw_actors w b) = Some n" using a b by simp_all
  then show ?thesis by (rule inv_distinct [OF inv])
qed

end

section \<open>Both rows keep the contract\<close>

definition threat_held_by :: "string \<Rightarrow> threat_source_state_row \<Rightarrow> bool" where
  "threat_held_by ow r \<longleftrightarrow> tss_fingerprint r = running_prefix @ ow"

definition geo_held_by :: "string \<Rightarrow> geo_ip_list_state_row \<Rightarrow> bool" where
  "geo_held_by ow r \<longleftrightarrow> gls_last_modified r = Some ''running'' \<and> gls_etag r = Some ow"

lemma stale_lease:
  assumes "\<not> lease_is_fresh c u now s" "0 < s"
  shows "c + s * nanos_per_second \<le> now"
proof -
  have s: "s \<le> num_seconds (now - max c u)" using assms by (simp add: lease_is_fresh_def)
  then have "0 \<le> now - max c u" using assms(2) by (auto simp: num_seconds_def split: if_splits)
  with s have "s \<le> (now - max c u) div nanos_per_second" by (simp add: num_seconds_def)
  then have "s * nanos_per_second \<le> now - max c u"
    by linarith
  then show ?thesis by simp
qed

interpretation threat_lock: row_lock threat_lock_ops tss_last_checked_at threat_held_by
    "threat_stale_seconds * nanos_per_second"
  by unfold_locales
    (auto simp: threat_lock_ops_def ensure_threat_refresh_lock_row_def mark_threat_refresh_lock_running_def
      threat_held_by_def release_threat_refresh_lock_def threat_refresh_lock_is_busy_def
      threat_stale_seconds_def dest: stale_lease)

interpretation geo_lock: row_lock geo_lock_ops gls_last_checked_at geo_held_by
    "geo_stale_seconds * nanos_per_second"
  by unfold_locales
    (auto simp: geo_lock_ops_def ensure_lock_row_def mark_lock_running_def
      geo_held_by_def release_lock_def lock_is_busy_def geo_stale_seconds_def dest: stale_lease)

end
