(* ===== verification/Refresh_Gate.thy ===== *)
theory Refresh_Gate
  imports Db_Rows
begin

text \<open>
  When the control plane starts its periodic work: \<^verbatim>\<open>xds/refresh.rs\<close> and \<^verbatim>\<open>xds/refresh/\<close>
  (\<^verbatim>\<open>gate\<close>, \<^verbatim>\<open>geo_ip\<close>, \<^verbatim>\<open>threat_source\<close>, \<^verbatim>\<open>temp_ban\<close>). Each mutex-protected section is one function
  on the state it protects; the steps between them interleave in \<open>refresh_step\<close>. Logging is left out,
  and what a refresh itself does is its outcome here.
\<close>

section \<open>The gate\<close>

text \<open>\<^verbatim>\<open>Instant::checked_duration_since\<close>.\<close>

definition checked_duration_since :: "instant \<Rightarrow> instant \<Rightarrow> duration option" where
  "checked_duration_since now earlier = (if earlier \<le> now then Some (now - earlier) else None)"

definition elapsed_less_than :: "instant option \<Rightarrow> instant \<Rightarrow> duration \<Rightarrow> bool" where
  "elapsed_less_than prev now interval =
     (case Option.bind prev (checked_duration_since now) of
        None \<Rightarrow> False | Some elapsed \<Rightarrow> elapsed < interval)"

record refresh_gate_t =
  rg_running :: bool
  rg_retry_throttled :: bool
  rg_within_interval :: bool

datatype refresh_skip = SkipRunning | SkipRetryThrottled | SkipWithinInterval

definition refresh_gate ::
    "bool \<Rightarrow> instant option \<Rightarrow> instant option \<Rightarrow> instant \<Rightarrow> duration \<Rightarrow> duration \<Rightarrow> refresh_gate_t" where
  "refresh_gate running last_success last_attempt started_at interval retry_interval =
     \<lparr>rg_running = running,
      rg_retry_throttled = elapsed_less_than last_attempt started_at retry_interval,
      rg_within_interval = elapsed_less_than last_success started_at interval\<rparr>"

definition refresh_skip_without_missing :: "refresh_gate_t \<Rightarrow> refresh_skip option" where
  "refresh_skip_without_missing gate =
     (if rg_running gate then Some SkipRunning
      else if rg_retry_throttled gate then Some SkipRetryThrottled
      else None)"

definition refresh_skip_with_missing :: "refresh_gate_t \<Rightarrow> bool \<Rightarrow> refresh_skip option" where
  "refresh_skip_with_missing gate missing_data =
     (case refresh_skip_without_missing gate of
        Some skip \<Rightarrow> Some skip
      | None \<Rightarrow> if rg_within_interval gate \<and> \<not> missing_data then Some SkipWithinInterval else None)"

section \<open>The timed state\<close>

record timed_refresh_state =
  tr_last_success :: "instant option"
  tr_last_attempt :: "instant option"
  tr_running :: bool

definition new_successful :: "instant \<Rightarrow> timed_refresh_state" where
  "new_successful now = \<lparr>tr_last_success = Some now, tr_last_attempt = None, tr_running = False\<rparr>"

definition timed_gate ::
    "timed_refresh_state \<Rightarrow> instant \<Rightarrow> duration \<Rightarrow> duration \<Rightarrow> refresh_gate_t" where
  "timed_gate s started_at interval retry_interval =
     refresh_gate (tr_running s) (tr_last_success s) (tr_last_attempt s) started_at interval retry_interval"

definition timed_try_start ::
    "timed_refresh_state \<Rightarrow> instant \<Rightarrow> duration \<Rightarrow> duration \<Rightarrow> bool \<Rightarrow>
       refresh_skip option \<times> timed_refresh_state" where
  "timed_try_start s started_at interval retry_interval missing =
     (case refresh_skip_with_missing (timed_gate s started_at interval retry_interval) missing of
        Some skip \<Rightarrow> (Some skip, s)
      | None \<Rightarrow> (None, s\<lparr>tr_running := True, tr_last_attempt := Some started_at\<rparr>))"

definition timed_finish :: "timed_refresh_state \<Rightarrow> timed_refresh_state" where
  "timed_finish s = s\<lparr>tr_running := False\<rparr>"

definition timed_finish_success :: "instant \<Rightarrow> timed_refresh_state \<Rightarrow> timed_refresh_state" where
  "timed_finish_success started_at s =
     s\<lparr>tr_running := False, tr_last_success := Some started_at\<rparr>"

section \<open>The refreshers\<close>

abbreviation minutes :: "int \<Rightarrow> duration" where
  "minutes n \<equiv> n * 60 * nanos_per_second"

definition auto_refresh_interval :: duration where "auto_refresh_interval = minutes (24 * 60)"
definition geo_ip_refresh_retry_interval :: duration where "geo_ip_refresh_retry_interval = minutes 5"
definition threat_refresh_retry_interval :: duration where "threat_refresh_retry_interval = minutes 5"
definition temp_ban_cleanup_interval :: duration where "temp_ban_cleanup_interval = minutes 1"

record geo_refresh_report =
  gr_countries :: "string list"
  gr_checked_country_count :: nat
  gr_changed_country_count :: nat
  gr_unchanged_country_count :: nat
  gr_failed_country_count :: nat
  gr_prefix_count :: nat
  gr_provider_base_url :: string
  gr_refresh_status :: string
  gr_cached :: bool
  gr_running :: bool
  gr_errors :: "string list"

definition geo_report_empty :: "string \<Rightarrow> geo_refresh_report" where
  "geo_report_empty status =
     \<lparr>gr_countries = [], gr_checked_country_count = 0, gr_changed_country_count = 0,
      gr_unchanged_country_count = 0, gr_failed_country_count = 0, gr_prefix_count = 0,
      gr_provider_base_url = ''https://www.ipdeny.com/ipblocks/'', gr_refresh_status = status,
      gr_cached = False, gr_running = False, gr_errors = []\<rparr>"

definition geo_report_running :: geo_refresh_report where
  "geo_report_running = (geo_report_empty ''running'')\<lparr>gr_running := True\<rparr>"

record threat_refresh_report =
  tf_enabled_source_count :: u64
  tf_changed_source_count :: u64
  tf_prefix_count :: nat
  tf_refreshed :: bool
  tf_refresh_status :: string
  tf_cached :: bool
  tf_running :: bool

definition threat_report_empty :: "string \<Rightarrow> threat_refresh_report" where
  "threat_report_empty status =
     \<lparr>tf_enabled_source_count = 0, tf_changed_source_count = 0, tf_prefix_count = 0,
      tf_refreshed = False, tf_refresh_status = status, tf_cached = False, tf_running = False\<rparr>"

text \<open>
  A tick of \<^verbatim>\<open>maybe_run\<close> has two atomic sections. The first reads the gate; the tick goes on when
  nothing runs and the retry interval has passed. It then asks the database for missing data, only
  when the gate is within the interval, and the second section starts the refresh or skips it.
\<close>

definition tick_gate ::
    "duration \<Rightarrow> duration \<Rightarrow> instant \<Rightarrow> timed_refresh_state \<Rightarrow> refresh_gate_t option" where
  "tick_gate interval retry started_at s =
     (let gate = timed_gate s started_at interval retry in
      case refresh_skip_without_missing gate of Some skip \<Rightarrow> None | None \<Rightarrow> Some gate)"

definition tick_missing :: "refresh_gate_t \<Rightarrow> bool \<Rightarrow> bool" where
  "tick_missing gate db_missing = (if rg_within_interval gate then db_missing else False)"

definition tick_start ::
    "duration \<Rightarrow> duration \<Rightarrow> instant \<Rightarrow> refresh_gate_t \<Rightarrow> bool \<Rightarrow> timed_refresh_state \<Rightarrow>
       bool \<times> timed_refresh_state" where
  "tick_start interval retry started_at gate db_missing s =
     (let missing = tick_missing gate db_missing in
      case refresh_skip_with_missing gate missing of
        Some skip \<Rightarrow> (False, s)
      | None \<Rightarrow> (case timed_try_start s started_at interval retry missing of
                  (Some skip, s') \<Rightarrow> (False, s')
                | (None, s') \<Rightarrow> (True, s')))"

definition geo_gate :: "duration \<Rightarrow> instant \<Rightarrow> timed_refresh_state \<Rightarrow> refresh_gate_t" where
  "geo_gate interval started_at s = timed_gate s started_at interval geo_ip_refresh_retry_interval"

definition finish_geo_refresh ::
    "instant \<Rightarrow> geo_refresh_report res \<Rightarrow> timed_refresh_state \<Rightarrow> timed_refresh_state" where
  "finish_geo_refresh started_at result s =
     (let s = timed_finish s in
      case result of
        Inr report \<Rightarrow>
          if gr_failed_country_count report = 0 \<and> \<not> gr_running report
          then timed_finish_success started_at s else s
      | Inl e \<Rightarrow> s)"

definition finish_threat_refresh ::
    "instant \<Rightarrow> threat_refresh_report res \<Rightarrow> timed_refresh_state \<Rightarrow> timed_refresh_state" where
  "finish_threat_refresh started_at result s =
     (case result of
        Inr report \<Rightarrow> if tf_running report then timed_finish s else timed_finish_success started_at s
      | Inl e \<Rightarrow> s\<lparr>tr_running := False\<rparr>)"

section \<open>The temporary-ban cleanup\<close>

record temp_ban_cleanup_state =
  tbc_last_success :: "instant option"
  tbc_running :: bool

definition cleanup_within_interval :: "duration \<Rightarrow> temp_ban_cleanup_state \<Rightarrow> instant \<Rightarrow> bool" where
  "cleanup_within_interval interval s started_at =
     (case Option.bind (tbc_last_success s) (checked_duration_since started_at) of
        None \<Rightarrow> False | Some elapsed \<Rightarrow> elapsed < interval)"

definition cleanup_try_start ::
    "duration \<Rightarrow> instant \<Rightarrow> temp_ban_cleanup_state \<Rightarrow> bool \<times> temp_ban_cleanup_state" where
  "cleanup_try_start interval started_at s =
     (if tbc_running s \<or> cleanup_within_interval interval s started_at then (False, s)
      else (True, s\<lparr>tbc_running := True\<rparr>))"

definition cleanup_finish :: "instant \<Rightarrow> bool \<Rightarrow> temp_ban_cleanup_state \<Rightarrow> temp_ban_cleanup_state" where
  "cleanup_finish started_at succeeded s =
     (let s = s\<lparr>tbc_running := False\<rparr> in
      if succeeded then s\<lparr>tbc_last_success := Some started_at\<rparr> else s)"

definition next_version_after_temp_ban_delete ::
    "datetime \<Rightarrow> nat \<Rightarrow> firewall_db \<Rightarrow> firewall_db \<times> i64 option" where
  "next_version_after_temp_ban_delete now deleted db =
     (if deleted = 0 then (db, None)
      else (let (db', v) = bump now db in (db', Some v)))"

definition cleanup_expired_temp_bans :: "datetime \<Rightarrow> firewall_db \<Rightarrow> firewall_db \<times> nat \<times> i64 option" where
  "cleanup_expired_temp_bans now db =
     (let expired = (\<lambda>r. tbr_policy_name r = default_policy_name \<and> tbr_expires_at r \<le> now);
          deleted = length (filter expired (db_temp_bans db));
          db = db\<lparr>db_temp_bans := filter (\<lambda>r. \<not> expired r) (db_temp_bans db)\<rparr>;
          (db, version) = next_version_after_temp_ban_delete now deleted db
      in (db, deleted, version))"

text \<open>One call by a single actor: what the database ends up with when the transaction succeeds.\<close>

definition cleanup_maybe_run ::
    "bool \<Rightarrow> duration \<Rightarrow> instant \<Rightarrow> datetime \<Rightarrow> temp_ban_cleanup_state \<times> firewall_db \<Rightarrow>
       temp_ban_cleanup_state \<times> firewall_db" where
  "cleanup_maybe_run standby interval started_at now st =
     (if standby then st
      else (let (started, s) = cleanup_try_start interval started_at (fst st) in
        if \<not> started then (s, snd st)
        else (cleanup_finish started_at True s, fst (cleanup_expired_temp_bans now (snd st)))))"

lemma cleanup_removes_expired:
  "set (db_temp_bans (fst (cleanup_expired_temp_bans now db))) =
     {r \<in> set (db_temp_bans db). tbr_policy_name r \<noteq> default_policy_name \<or> now < tbr_expires_at r}"
proof -
  have "db_temp_bans (fst (cleanup_expired_temp_bans now db)) =
      filter (\<lambda>r. \<not> (tbr_policy_name r = default_policy_name \<and> tbr_expires_at r \<le> now)) (db_temp_bans db)"
    by (simp add: cleanup_expired_temp_bans_def next_version_after_temp_ban_delete_def Let_def split_beta)
  then show ?thesis by auto
qed

section \<open>Interleavings of one refresher\<close>

text \<open>
  One loop per refresher calls \<^verbatim>\<open>maybe_run\<close> and sleeps, so one tick at a time is inside it; a
  started refresh is a task of its own. \<open>rw_starts\<close> lists the starts, latest first. A task may
  also vanish without finishing (a panic or a shut-down), which leaves the state as it is. The
  outcome \<open>True\<close> is a clean report, \<open>False\<close> a failed one or one that found the lock taken.
\<close>

datatype tick_phase = Sleeping | Gated instant refresh_gate_t

record refresh_world =
  rw_state :: timed_refresh_state
  rw_clock :: instant
  rw_tick :: tick_phase
  rw_tasks :: "instant list"
  rw_starts :: "instant list"

definition finish_task :: "instant \<Rightarrow> bool \<Rightarrow> timed_refresh_state \<Rightarrow> timed_refresh_state" where
  "finish_task started_at clean s =
     (if clean then timed_finish_success started_at (timed_finish s) else timed_finish s)"

lemma finish_geo_task:
  "finish_geo_refresh t r s = finish_task t
     (case r of Inr rep \<Rightarrow> gr_failed_country_count rep = 0 \<and> \<not> gr_running rep | Inl e \<Rightarrow> False) s"
  by (cases r) (simp_all add: finish_geo_refresh_def finish_task_def)

lemma finish_threat_task:
  "finish_threat_refresh t r s = finish_task t (case r of Inr rep \<Rightarrow> \<not> tf_running rep | Inl e \<Rightarrow> False) s"
  by (cases r) (simp_all add: finish_threat_refresh_def finish_task_def timed_finish_def timed_finish_success_def)

inductive refresh_step :: "duration \<Rightarrow> duration \<Rightarrow> refresh_world \<Rightarrow> refresh_world \<Rightarrow> bool"
  for interval retry :: duration where
  passes: "rw_clock w \<le> t \<Longrightarrow> refresh_step interval retry w (w\<lparr>rw_clock := t\<rparr>)"
| skips: "rw_tick w = Sleeping \<Longrightarrow> tick_gate interval retry (rw_clock w) (rw_state w) = None \<Longrightarrow>
     refresh_step interval retry w w"
| gates: "rw_tick w = Sleeping \<Longrightarrow> tick_gate interval retry (rw_clock w) (rw_state w) = Some g \<Longrightarrow>
     refresh_step interval retry w (w\<lparr>rw_tick := Gated (rw_clock w) g\<rparr>)"
| fails: "rw_tick w = Gated t g \<Longrightarrow> refresh_step interval retry w (w\<lparr>rw_tick := Sleeping\<rparr>)"
| skips_late: "rw_tick w = Gated t g \<Longrightarrow>
     tick_start interval retry t g missing (rw_state w) = (False, s') \<Longrightarrow>
     refresh_step interval retry w (w\<lparr>rw_tick := Sleeping, rw_state := s'\<rparr>)"
| starts: "rw_tick w = Gated t g \<Longrightarrow>
     tick_start interval retry t g missing (rw_state w) = (True, s') \<Longrightarrow>
     refresh_step interval retry w (w\<lparr>rw_tick := Sleeping, rw_state := s',
        rw_tasks := t # rw_tasks w, rw_starts := t # rw_starts w\<rparr>)"
| finishes: "t \<in> set (rw_tasks w) \<Longrightarrow>
     refresh_step interval retry w (w\<lparr>rw_state := finish_task t clean (rw_state w),
        rw_tasks := remove1 t (rw_tasks w)\<rparr>)"
| vanishes: "t \<in> set (rw_tasks w) \<Longrightarrow> refresh_step interval retry w (w\<lparr>rw_tasks := remove1 t (rw_tasks w)\<rparr>)"

inductive refresh_reach :: "duration \<Rightarrow> duration \<Rightarrow> instant \<Rightarrow> refresh_world \<Rightarrow> bool"
  for interval retry :: duration and t0 :: instant where
  boot: "refresh_reach interval retry t0
     \<lparr>rw_state = new_successful t0, rw_clock = t0, rw_tick = Sleeping, rw_tasks = [], rw_starts = []\<rparr>"
| more: "refresh_reach interval retry t0 w \<Longrightarrow> refresh_step interval retry w w' \<Longrightarrow>
     refresh_reach interval retry t0 w'"

section \<open>The invariant\<close>

definition tasks_inv :: "refresh_world \<Rightarrow> bool" where
  "tasks_inv w \<longleftrightarrow> length (rw_tasks w) \<le> 1 \<and> (rw_tasks w \<noteq> [] \<longrightarrow> tr_running (rw_state w))"

definition starts_inv :: "duration \<Rightarrow> refresh_world \<Rightarrow> bool" where
  "starts_inv retry w \<longleftrightarrow>
     tr_last_attempt (rw_state w) = (case rw_starts w of [] \<Rightarrow> None | t # _ \<Rightarrow> Some t) \<and>
     (\<forall>t\<in>set (rw_starts w). t \<le> rw_clock w) \<and>
     (\<forall>t g. rw_tick w = Gated t g \<longrightarrow> t \<le> rw_clock w \<and> (\<forall>a\<in>set (rw_starts w). a \<le> t)) \<and>
     sorted_wrt (\<lambda>later earlier. earlier + retry \<le> later) (rw_starts w)"

definition refresh_inv :: "duration \<Rightarrow> refresh_world \<Rightarrow> bool" where
  "refresh_inv retry w \<longleftrightarrow> tasks_inv w \<and> starts_inv retry w"

lemma elapsed_simps [simp]:
  "elapsed_less_than None now i = False"
  "elapsed_less_than (Some a) now i \<longleftrightarrow> a \<le> now \<and> now - a < i"
  by (auto simp: elapsed_less_than_def checked_duration_since_def)

lemma tick_start_True:
  assumes "tick_start interval retry t g missing s = (True, s')"
  shows "s' = s\<lparr>tr_running := True, tr_last_attempt := Some t\<rparr> \<and> \<not> tr_running s \<and>
    \<not> elapsed_less_than (tr_last_attempt s) t retry \<and>
    (elapsed_less_than (tr_last_success s) t interval \<longrightarrow> missing \<and> rg_within_interval g)"
  using assms
  by (auto simp: tick_start_def timed_try_start_def timed_gate_def refresh_gate_def tick_missing_def
      refresh_skip_with_missing_def refresh_skip_without_missing_def Let_def
      split: option.splits prod.splits if_splits)

lemma tick_start_False: "tick_start interval retry t g missing s = (False, s') \<Longrightarrow> s' = s"
  by (auto simp: tick_start_def timed_try_start_def Let_def split: option.splits prod.splits if_splits)

lemma finish_task_fields [simp]:
  "tr_last_attempt (finish_task t c s) = tr_last_attempt s" "\<not> tr_running (finish_task t c s)"
  by (simp_all add: finish_task_def timed_finish_def timed_finish_success_def)

lemma spaced_cons:
  assumes "sorted_wrt (\<lambda>later earlier. earlier + retry \<le> later) (a # ss)" "a + retry \<le> t" "0 \<le> (retry :: int)"
  shows "sorted_wrt (\<lambda>later earlier. earlier + retry \<le> later) (t # a # ss)"
  using assms by force

lemma tasks_inv_step: "refresh_step interval retry w w' \<Longrightarrow> tasks_inv w \<Longrightarrow> tasks_inv w'"
proof (induction rule: refresh_step.induct)
  case (starts w t g missing s')
  then show ?case using tick_start_True [OF starts(2)] by (simp add: tasks_inv_def)
next
  case (skips_late w t g missing s')
  then show ?case using tick_start_False [OF skips_late(2)] by (simp add: tasks_inv_def)
next
  case (finishes t w clean)
  then show ?case by (cases "rw_tasks w") (auto simp: tasks_inv_def)
next
  case (vanishes t w)
  then show ?case by (cases "rw_tasks w") (auto simp: tasks_inv_def)
qed (simp_all add: tasks_inv_def)

lemma starts_inv_step:
  "refresh_step interval retry w w' \<Longrightarrow> starts_inv retry w \<Longrightarrow> 0 \<le> retry \<Longrightarrow> starts_inv retry w'"
proof (induction rule: refresh_step.induct)
  case (starts w t g missing s')
  note s = tick_start_True [OF starts(2)]
  have t: "t \<le> rw_clock w" "\<forall>a\<in>set (rw_starts w). a \<le> t"
    using starts by (auto simp: starts_inv_def)
  have "sorted_wrt (\<lambda>later earlier. earlier + retry \<le> later) (t # rw_starts w)"
  proof (cases "rw_starts w")
    case (Cons a ss)
    then have "a \<le> t" "tr_last_attempt (rw_state w) = Some a" using starts t by (auto simp: starts_inv_def)
    then have "a + retry \<le> t" using s by simp
    moreover have "sorted_wrt (\<lambda>later earlier. earlier + retry \<le> later) (a # ss)"
      using starts.prems(1) Cons unfolding starts_inv_def by metis
    ultimately show ?thesis using spaced_cons starts.prems(2) unfolding Cons by blast
  qed simp
  moreover have "\<forall>a\<in>set (rw_starts w). a \<le> rw_clock w" using t by force
  ultimately show ?case using t s by (simp add: starts_inv_def)
next
  case (skips_late w t g missing s')
  then show ?case using tick_start_False [OF skips_late(2)] by (simp add: starts_inv_def)
next
  case (passes w t)
  then show ?case by (fastforce simp: starts_inv_def)
qed (simp_all add: starts_inv_def)

lemma refresh_inv_step:
  "refresh_step interval retry w w' \<Longrightarrow> refresh_inv retry w \<Longrightarrow> 0 \<le> retry \<Longrightarrow> refresh_inv retry w'"
  using tasks_inv_step starts_inv_step by (simp add: refresh_inv_def)

lemma refresh_inv_reach: "refresh_reach interval retry t0 w \<Longrightarrow> 0 \<le> retry \<Longrightarrow> refresh_inv retry w"
proof (induction rule: refresh_reach.induct)
  case boot
  show ?case by (simp add: refresh_inv_def tasks_inv_def starts_inv_def new_successful_def)
next
  case (more w w')
  then show ?case using refresh_inv_step by blast
qed

end
