(* ===== verification/Control_Plane_Claims.thy ===== *)
theory Control_Plane_Claims
  imports Refresh_Lock Refresh_Gate
begin

text \<open>
  The properties of the control plane's components, each with a witness at concrete inputs where it
  has hypotheses.
\<close>

section \<open>The refresh locks\<close>

lemma lock_chain:
  "lock_reach L pid w0 w \<Longrightarrow> lock_step L pid w w' \<Longrightarrow> w' = w'' \<Longrightarrow> lock_reach L pid w0 w''"
  by (auto intro: lock_reach.more)

definition two_actors :: "'r lock_phase \<Rightarrow> 'r lock_phase \<Rightarrow> nat \<Rightarrow> 'r lock_phase" where
  "two_actors p q = (\<lambda>a. if a = 0 then p else if a = 1 then q else Idle)"

lemma two_actors_simps [simp]:
  "two_actors p q 0 = p" "two_actors p q (Suc 0) = q"
  "(two_actors p q)(0 := p') = two_actors p' q" "(two_actors p q)(Suc 0 := q') = two_actors p q'"
  by (auto simp: two_actors_def)

definition lock_world_of :: "'r option \<Rightarrow> 'r lock_phase \<Rightarrow> 'r lock_phase \<Rightarrow> datetime \<Rightarrow> 'r lock_world" where
  "lock_world_of row p q t = \<lparr>lw_row = row, lw_actors = two_actors p q, lw_clock = t\<rparr>"

lemma set_phase_of [simp]:
  "set_phase 0 p' (lock_world_of row p q t) = lock_world_of row p' q t"
  "set_phase (Suc 0) q' (lock_world_of row p q t) = lock_world_of row p q' t"
  by (simp_all add: set_phase_def lock_world_of_def)

lemma lock_world_of_simps [simp]:
  "lw_row (lock_world_of row p q t) = row" "lw_clock (lock_world_of row p q t) = t"
  "lw_actors (lock_world_of row p q t) = two_actors p q"
  "lock_world_of row p q t\<lparr>lw_row := row'\<rparr> = lock_world_of row' p q t"
  "lock_world_of row p q t\<lparr>lw_clock := t'\<rparr> = lock_world_of row p q t'"
  by (simp_all add: lock_world_of_def)






text \<open>The same holds of the country-list lock, with its lease of 30 minutes.\<close>

theorem geo_lock_exclusive:
  assumes "lock_reach geo_lock_ops pid w0 w" "quiet_world gls_last_checked_at w0"
    and "lw_actors w a = Held n" "lw_clock w < n + 1800 * nanos_per_second"
    and "lw_actors w b = Held m" "lw_clock w < m + 1800 * nanos_per_second"
  shows "a = b"
  using geo_lock.exclusive [OF assms(1,2), of a n b m] assms(3-) by (simp add: geo_stale_seconds_def)

definition geo_held_row :: geo_ip_list_state_row where
  "geo_held_row = fst (mark_lock_running (new_geo_lock_row 4) 5 (lock_owner 7 5) (new_geo_lock_row 4))"

lemma geo_lock_taken:
  "lock_reach geo_lock_ops (\<lambda>a. 7) (lock_world_of (Some (new_geo_lock_row 4)) Idle Idle 5)
     (lock_world_of (Some geo_held_row) (Held 5) Idle 6)"
proof -
  let ?L = geo_lock_ops and ?pid = "\<lambda>a::nat. 7::nat" and ?r = "new_geo_lock_row 4"
  let ?w0 = "lock_world_of (Some ?r) Idle Idle 5"
  have 1: "lock_reach ?L ?pid ?w0 (lock_world_of (Some ?r) (Started 5) Idle 6)"
    by (rule lock_chain [OF lock_reach.start lock_step.begins [where a = 0]]) simp_all
  have 2: "lock_reach ?L ?pid ?w0 (lock_world_of (Some ?r) (Ensured 5) Idle 6)"
    by (rule lock_chain [OF 1 lock_step.ensures [where a = 0 and n = 5]])
      (simp_all add: geo_lock_ops_def ensure_lock_row_def)
  have 3: "lock_reach ?L ?pid ?w0 (lock_world_of (Some ?r) (Loaded 5 ?r) Idle 6)"
    by (rule lock_chain [OF 2 lock_step.load_free [where a = 0 and n = 5 and r = ?r]])
      (simp_all add: geo_lock_ops_def lock_is_busy_def new_geo_lock_row_def)
  show ?thesis
    by (rule lock_chain [OF 3 lock_step.marks [where a = 0 and n = 5 and e = ?r and r = ?r
          and r' = geo_held_row and won = True]])
      (simp_all add: geo_lock_ops_def geo_held_row_def mark_lock_running_def)
qed

theorem geo_lock_exclusive_witness:
  "lw_actors (lock_world_of (Some geo_held_row) (Held 5) Idle 6) 0 = Held 5 \<and> (0::nat) = 0"
proof -
  have "quiet_world gls_last_checked_at (lock_world_of (Some (new_geo_lock_row 4)) Idle Idle 5)"
    by (simp add: quiet_world_def two_actors_def new_geo_lock_row_def)
  from geo_lock_exclusive [OF geo_lock_taken this, of 0 5 0 5] show ?thesis by simp
qed

text \<open>On the very first use the threat lock excludes nobody: the row an attempt creates carries
  the attempt's own start time, its winning update writes that same time back, and a second attempt
  that read the fresh row then passes the same comparison. Both hold the lock.\<close>

theorem fresh_lock_row_race:
  "\<exists>r. lock_reach threat_lock_ops (\<lambda>a. 7 + a) (lock_world_of None Idle Idle 1)
     (lock_world_of (Some r) (Held 1) (Held 2) 3)"
proof -
  let ?L = threat_lock_ops and ?pid = "\<lambda>a::nat. 7 + a" and ?r = "new_threat_lock_row 1"
  let ?w0 = "lock_world_of None Idle Idle 1"
  let ?m0 = "fst (mark_threat_refresh_lock_running ?r 1 (lock_owner 7 1) ?r)"
  let ?m1 = "fst (mark_threat_refresh_lock_running ?r 2 (lock_owner 8 2) ?m0)"
  note ops = threat_lock_ops_def ensure_threat_refresh_lock_row_def threat_refresh_lock_is_busy_def
    new_threat_lock_row_def running_prefix_def mark_threat_refresh_lock_running_def
  have 1: "lock_reach ?L ?pid ?w0 (lock_world_of None (Started 1) Idle 2)"
    by (rule lock_chain [OF lock_reach.start lock_step.begins [where a = 0]]) simp_all
  have 2: "lock_reach ?L ?pid ?w0 (lock_world_of (Some ?r) (Ensured 1) Idle 2)"
    by (rule lock_chain [OF 1 lock_step.ensures [where a = 0 and n = 1]]) (simp_all add: ops)
  have 3: "lock_reach ?L ?pid ?w0 (lock_world_of (Some ?r) (Loaded 1 ?r) Idle 2)"
    by (rule lock_chain [OF 2 lock_step.load_free [where a = 0 and n = 1 and r = ?r]]) (simp_all add: ops)
  have 4: "lock_reach ?L ?pid ?w0 (lock_world_of (Some ?r) (Loaded 1 ?r) (Started 2) 3)"
    by (rule lock_chain [OF 3 lock_step.begins [where a = "Suc 0"]]) simp_all
  have 5: "lock_reach ?L ?pid ?w0 (lock_world_of (Some ?r) (Loaded 1 ?r) (Ensured 2) 3)"
    by (rule lock_chain [OF 4 lock_step.ensures [where a = "Suc 0" and n = 2]]) (simp_all add: ops)
  have 6: "lock_reach ?L ?pid ?w0 (lock_world_of (Some ?r) (Loaded 1 ?r) (Loaded 2 ?r) 3)"
    by (rule lock_chain [OF 5 lock_step.load_free [where a = "Suc 0" and n = 2 and r = ?r]]) (simp_all add: ops)
  have 7: "lock_reach ?L ?pid ?w0 (lock_world_of (Some ?m0) (Held 1) (Loaded 2 ?r) 3)"
    by (rule lock_chain [OF 6 lock_step.marks [where a = 0 and n = 1 and e = ?r and r = ?r
          and r' = ?m0 and won = True]]) (simp_all add: ops)
  have 8: "lock_reach ?L ?pid ?w0 (lock_world_of (Some ?m1) (Held 1) (Held 2) 3)"
    by (rule lock_chain [OF 7 lock_step.marks [where a = "Suc 0" and n = 2 and e = ?r and r = ?m0
          and r' = ?m1 and won = True]]) (simp_all add: ops)
  show ?thesis using 8 by blast
qed

section \<open>Periodic refreshes\<close>

text \<open>C13: At any moment at most one background refresh of a kind is running in a process, and two of
  its starts are at least the retry interval apart, whatever the outcomes of the refreshes, the
  answers of the database and the timing of the ticks.\<close>

theorem refresh_single_and_spaced:
  assumes "refresh_reach interval retry t0 w" "0 \<le> retry"
  shows "length (rw_tasks w) \<le> 1 \<and>
    sorted_wrt (\<lambda>later earlier. earlier + retry \<le> later) (rw_starts w)"
  using refresh_inv_reach [OF assms] by (simp add: refresh_inv_def tasks_inv_def starts_inv_def)

definition first_refresh_world :: refresh_world where
  "first_refresh_world =
     \<lparr>rw_state = \<lparr>tr_last_success = Some 0, tr_last_attempt = Some auto_refresh_interval, tr_running = True\<rparr>,
      rw_clock = auto_refresh_interval, rw_tick = Sleeping, rw_tasks = [auto_refresh_interval],
      rw_starts = [auto_refresh_interval]\<rparr>"

lemma first_refresh_reached:
  "refresh_reach auto_refresh_interval threat_refresh_retry_interval 0 first_refresh_world"
proof -
  let ?i = auto_refresh_interval and ?r = threat_refresh_retry_interval
  let ?g = "\<lparr>rg_running = False, rg_retry_throttled = False, rg_within_interval = False\<rparr>"
  let ?w0 = "\<lparr>rw_state = new_successful 0, rw_clock = 0, rw_tick = Sleeping, rw_tasks = [], rw_starts = []\<rparr>"
  have 1: "refresh_reach ?i ?r 0 (?w0\<lparr>rw_clock := ?i\<rparr>)"
    by (rule refresh_reach.more [OF refresh_reach.boot refresh_step.passes])
      (simp add: auto_refresh_interval_def)
  have 2: "refresh_reach ?i ?r 0 (?w0\<lparr>rw_clock := ?i, rw_tick := Gated ?i ?g\<rparr>)"
    using refresh_reach.more [OF 1 refresh_step.gates [where g = ?g]]
    by (simp add: tick_gate_def timed_gate_def refresh_gate_def new_successful_def Let_def
        refresh_skip_without_missing_def auto_refresh_interval_def)
  have 3: "refresh_step ?i ?r (?w0\<lparr>rw_clock := ?i, rw_tick := Gated ?i ?g\<rparr>) first_refresh_world"
    using refresh_step.starts [where w = "?w0\<lparr>rw_clock := ?i, rw_tick := Gated ?i ?g\<rparr>"
        and t = ?i and g = ?g and missing = False and interval = ?i and retry = ?r
        and s' = "rw_state first_refresh_world"]
    by (simp add: tick_start_def tick_missing_def refresh_skip_with_missing_def
        refresh_skip_without_missing_def timed_try_start_def timed_gate_def refresh_gate_def Let_def
        new_successful_def first_refresh_world_def auto_refresh_interval_def)
  show ?thesis by (rule refresh_reach.more [OF 2 3])
qed

lemma refresh_single_and_spaced_witness: "length (rw_tasks first_refresh_world) \<le> 1"
  using refresh_single_and_spaced [OF first_refresh_reached]
  by (simp add: threat_refresh_retry_interval_def)

text \<open>When a tick finds no refresh running, the retry interval passed since the last attempt, and
  either the refresh interval passed since the last success or data missing in the database, it
  starts the refresh; in every other state it leaves the refresh state as it was.\<close>

theorem tick_starts_exactly_when_due:
  fixes missing :: bool
  assumes "tick_gate interval retry t s = Some g"
  shows "tick_start interval retry t g missing s =
    (if tr_last_success s \<noteq> None \<and> the (tr_last_success s) \<le> t \<and>
        t - the (tr_last_success s) < interval \<and> \<not> missing
     then (False, s) else (True, s\<lparr>tr_running := True, tr_last_attempt := Some t\<rparr>))"
  using assms
  by (cases "tr_last_success s")
    (auto simp: tick_gate_def tick_start_def tick_missing_def timed_try_start_def timed_gate_def
      refresh_gate_def refresh_skip_with_missing_def refresh_skip_without_missing_def Let_def
      split: option.splits if_splits)

lemma tick_starts_exactly_when_due_witness:
  "tick_start (minutes 60) (minutes 5) (minutes 30)
     \<lparr>rg_running = False, rg_retry_throttled = False, rg_within_interval = True\<rparr> True (new_successful 0)
   = (True, \<lparr>tr_last_success = Some 0, tr_last_attempt = Some (minutes 30), tr_running = True\<rparr>)"
proof -
  have "tick_gate (minutes 60) (minutes 5) (minutes 30) (new_successful 0) =
      Some \<lparr>rg_running = False, rg_retry_throttled = False, rg_within_interval = True\<rparr>"
    by (simp add: tick_gate_def timed_gate_def refresh_gate_def refresh_skip_without_missing_def
        new_successful_def Let_def)
  from tick_starts_exactly_when_due [OF this, of True] show ?thesis by (simp add: new_successful_def)
qed

text \<open>A report that another process is refreshing frees the gate without counting as a success,
  for both kinds of refresh, so the next due tick tries again.\<close>

theorem running_report_is_no_success:
  "finish_geo_refresh t (Inr (rep\<lparr>gr_running := True\<rparr>)) s = s\<lparr>tr_running := False\<rparr> \<and>
   finish_threat_refresh t (Inr (trep\<lparr>tf_running := True\<rparr>)) s = s\<lparr>tr_running := False\<rparr> \<and>
   finish_geo_refresh t (Inl e) s = s\<lparr>tr_running := False\<rparr> \<and>
   finish_threat_refresh t (Inl e) s = s\<lparr>tr_running := False\<rparr>"
  by (simp add: finish_geo_refresh_def finish_threat_refresh_def timed_finish_def)

text \<open>A cleanup deletes exactly the expired bans of the policy and moves the policy version up by
  one when it deleted any, and leaves the version alone otherwise; a standby never writes.\<close>

theorem cleanup_expired_exact:
  "db_temp_bans (fst (cleanup_expired_temp_bans now db)) =
     filter (\<lambda>r. \<not> (tbr_policy_name r = default_policy_name \<and> tbr_expires_at r \<le> now)) (db_temp_bans db) \<and>
   latest_version (fst (cleanup_expired_temp_bans now db)) =
     latest_version db + (if \<exists>r\<in>set (db_temp_bans db). tbr_policy_name r = default_policy_name \<and>
        tbr_expires_at r \<le> now then 1 else 0) \<and>
   cleanup_maybe_run True interval t now st = st"
proof -
  have lv: "latest_version (d\<lparr>db_temp_bans := x\<rparr>) = latest_version d" for d x
    by (simp add: latest_version_def find_policy_version_def)
  have b: "latest_version (fst (bump now (db\<lparr>db_temp_bans := x\<rparr>))) = latest_version db + 1" for x
    using bump_version(1) [of now "db\<lparr>db_temp_bans := x\<rparr>"] lv by simp
  show ?thesis
    by (auto simp: cleanup_expired_temp_bans_def next_version_after_temp_ban_delete_def Let_def split_beta
        lv b cleanup_maybe_run_def filter_empty_conv)
qed

end
