(* ===== verification/Threat_Feed.thy ===== *)
theory Threat_Feed
  imports Policy_Model Ip_Text
begin

text \<open>
  Threat-intelligence feeds: \<^verbatim>\<open>intelligence/threat/source_fetch/\<close> (lines, tokens, scores, prefixes,
  normal form and fingerprint), \<^verbatim>\<open>source_fetch.rs\<close> (one download per source) and
  \<^verbatim>\<open>intelligence/http_limited.rs\<close> (size-limited bodies read chunk by chunk). Bytes are characters. The
  network crate's text form and the JSON crate are the parameters \<open>net_text\<close> and \<open>json_lib\<close>.
\<close>

section \<open>Text\<close>

fun split_on :: "(char \<Rightarrow> bool) \<Rightarrow> string \<Rightarrow> string list" where
  "split_on P [] = [[]]"
| "split_on P (c # cs) =
     (if P c then [] # split_on P cs
      else (case split_on P cs of [] \<Rightarrow> [[c]] | w # ws \<Rightarrow> (c # w) # ws))"

definition split_whitespace :: "string \<Rightarrow> string list" where
  "split_whitespace s = filter (\<lambda>w. w \<noteq> []) (split_on is_space s)"

definition trim_matches :: "char \<Rightarrow> string \<Rightarrow> string" where
  "trim_matches c s = rev (dropWhile (\<lambda>x. x = c) (rev (dropWhile (\<lambda>x. x = c) s)))"

text \<open>\<^verbatim>\<open>str::parse::<u32>\<close> and \<^verbatim>\<open>::<usize>\<close>: an optional plus sign, digits, no overflow.\<close>

definition parse_uint :: "nat \<Rightarrow> string \<Rightarrow> nat option" where
  "parse_uint bound s =
     (let ds = (case s of CHR ''+'' # r \<Rightarrow> r | _ \<Rightarrow> s) in
      if ds \<noteq> [] \<and> list_all (is_digit 10) ds \<and> digits_value 10 ds < bound
      then Some (digits_value 10 ds) else None)"

definition newline :: char where "newline = CHR 0x0A"
definition carriage :: char where "carriage = CHR 0x0D"

definition strip_carriage :: "string \<Rightarrow> string" where
  "strip_carriage s = (if s \<noteq> [] \<and> last s = carriage then butlast s else s)"

text \<open>\<^verbatim>\<open>str::lines\<close>.\<close>

definition str_lines :: "string \<Rightarrow> string list" where
  "str_lines s =
     (let ws = split_on (\<lambda>c. c = newline) s in
      map strip_carriage (if last ws = [] then butlast ws else ws))"

section \<open>The libraries the feed code calls\<close>

datatype json = JString string | JArray "json list" | JObject "(string \<times> json) list" | JOther

text \<open>
  \<open>nt_parse\<close> is \<^verbatim>\<open>str::parse::<IpNet>\<close>. \<open>js_value\<close>, \<open>js_strings\<close> are \<^verbatim>\<open>serde_json::from_str\<close> into a
  value and a list of strings, \<open>js_show_strings\<close> is \<^verbatim>\<open>serde_json::to_string\<close> of such a list and
  \<open>js_seq\<close> the streaming reader of an array: the strings it delivers and whether the array ended well.
\<close>

record net_text =
  nt_parse :: "string \<Rightarrow> ipnet option"

record json_lib =
  js_value :: "string \<Rightarrow> json option"
  js_strings :: "string \<Rightarrow> string list option"
  js_show_strings :: "string list \<Rightarrow> string"
  js_seq :: "string \<Rightarrow> string list \<times> bool"

definition cidr_text :: "ipaddr \<Rightarrow> u8 \<Rightarrow> string" where
  "cidr_text a p = show_ip a @ CHR ''/'' # dec_nat (unat p)"

locale net_text_spec =
  fixes T :: net_text
  assumes parse_valid: "nt_parse T s = Some n \<Longrightarrow> valid_net n"
    and parse_show: "unat p \<le> ip_width a \<Longrightarrow> nt_parse T (cidr_text a p) = Some (Net a p)"

text \<open>An instance: the address and the length around the slash.\<close>

definition ref_net_parse :: "string \<Rightarrow> ipnet option" where
  "ref_net_parse s =
     (case split_on (\<lambda>c. c = CHR ''/'') s of
        [a, l] \<Rightarrow> (case (parse_ip a, parse_uint 129 l) of
                    (Some ip, Some n) \<Rightarrow> if n \<le> ip_width ip then Some (Net ip (word_of_nat n)) else None
                  | _ \<Rightarrow> None)
      | _ \<Rightarrow> None)"

definition ref_net_text :: net_text where
  "ref_net_text = \<lparr>nt_parse = ref_net_parse\<rparr>"

section \<open>Prefixes\<close>

definition parse_prefix :: "ipnet_lib \<Rightarrow> net_text \<Rightarrow> string \<Rightarrow> threat_prefix res" where
  "parse_prefix N T value =
     (let value = trim_matches CHR 0x22 (trim_matches CHR '','' (trim value)) in
      case nt_parse T value of
        Some net \<Rightarrow> Inr \<lparr>tp_addr = net_network N net, tp_prefix = net_prefix_len net\<rparr>
      | None \<Rightarrow> bindE (ok_or (InvalidCidr value) (parse_ip value)) (\<lambda>addr.
          Inr \<lparr>tp_addr = addr, tp_prefix = (if is_ipv4 addr then 32 else 128)\<rparr>))"

definition normalize_prefixes :: "threat_prefix list \<Rightarrow> threat_prefix list" where
  "normalize_prefixes prefixes =
     sort_key (\<lambda>p. (is_ipv6 (tp_addr p), tp_addr p, tp_prefix p)) (snd (unique_by id {} prefixes))"

definition hash_byte :: "u64 \<Rightarrow> u8 \<Rightarrow> u64" where
  "hash_byte hash b = (hash XOR ucast b) * 0x100000001b3"

definition hash_bytes :: "u64 \<Rightarrow> u8 list \<Rightarrow> u64" where
  "hash_bytes = foldl hash_byte"

definition prefix_hash :: "u64 \<Rightarrow> threat_prefix \<Rightarrow> u64" where
  "prefix_hash hash p =
     (let hash = hash_bytes hash (map char_byte (show_ip (tp_addr p)));
          hash = hash_byte hash (char_byte CHR ''/'');
          hash = hash_bytes hash (map char_byte (dec_nat (unat (tp_prefix p))))
      in hash_byte hash (char_byte newline))"

text \<open>\<^verbatim>\<open>{hash:016x}\<close>.\<close>

definition hex16 :: "u64 \<Rightarrow> string" where
  "hex16 h = (let s = show_nat 16 (unat h) in replicate (16 - length s) CHR ''0'' @ s)"

definition threat_prefix_fingerprint :: "threat_prefix list \<Rightarrow> string" where
  "threat_prefix_fingerprint prefixes = hex16 (foldl prefix_hash 0xcbf29ce484222325 prefixes)"

definition prefix_to_cidr :: "threat_prefix \<Rightarrow> string" where
  "prefix_to_cidr p = cidr_text (tp_addr p) (tp_prefix p)"

section \<open>Lines\<close>

definition strip_comment :: "string \<Rightarrow> string" where
  "strip_comment line = trim (hd (split_on (\<lambda>c. c = CHR ''#'' \<or> c = CHR '';'') line))"

definition first_prefix_token :: "string \<Rightarrow> string option" where
  "first_prefix_token line =
     find (\<lambda>t. parse_ip t \<noteq> None \<or> CHR ''/'' \<in> set t) (split_whitespace (strip_comment line))"

definition parse_lenient_line_prefix :: "ipnet_lib \<Rightarrow> net_text \<Rightarrow> string \<Rightarrow> threat_prefix option" where
  "parse_lenient_line_prefix N T line =
     (case first_prefix_token line of None \<Rightarrow> None
      | Some t \<Rightarrow> (case parse_prefix N T t of Inr p \<Rightarrow> Some p | Inl e \<Rightarrow> None))"

definition parse_ipsum_line :: "ipnet_lib \<Rightarrow> net_text \<Rightarrow> string \<Rightarrow> u32 \<Rightarrow> threat_prefix option res" where
  "parse_ipsum_line N T line min_score =
     (case split_whitespace (strip_comment line) of
        [] \<Rightarrow> Inr None
      | ip # parts \<Rightarrow>
          (let score = (case parts of [] \<Rightarrow> 1
                        | v # _ \<Rightarrow> unwrap_or 1 (parse_uint (2 ^ 32) v))
           in if unat min_score \<le> score then mapE Some (parse_prefix N T ip) else Inr None))"

definition parse_lenient_ipsum_line ::
    "ipnet_lib \<Rightarrow> net_text \<Rightarrow> string \<Rightarrow> u32 \<Rightarrow> threat_prefix option" where
  "parse_lenient_ipsum_line N T line min_score =
     (case parse_ipsum_line N T line min_score of Inr p \<Rightarrow> p | Inl e \<Rightarrow> None)"

definition json_get :: "string \<Rightarrow> (string \<times> json) list \<Rightarrow> json option" where
  "json_get k m = map_of m k"

fun collect_json_cidrs :: "ipnet_lib \<Rightarrow> net_text \<Rightarrow> json \<Rightarrow> threat_prefix list \<Rightarrow> threat_prefix list" where
  "collect_json_cidrs N T (JArray vs) prefixes = foldl (\<lambda>ps v. collect_json_cidrs N T v ps) prefixes vs"
| "collect_json_cidrs N T (JObject m) prefixes =
     (case (case json_get ''cidr'' m of Some v \<Rightarrow> Some v | None \<Rightarrow> json_get ''prefix'' m) of
        Some (JString cidr) \<Rightarrow>
          (case parse_prefix N T cidr of Inr p \<Rightarrow> prefixes @ [p] | Inl e \<Rightarrow> prefixes)
      | _ \<Rightarrow> prefixes)"
| "collect_json_cidrs N T (JString s) prefixes = prefixes"
| "collect_json_cidrs N T JOther prefixes = prefixes"

definition parse_spamhaus_drop :: "ipnet_lib \<Rightarrow> net_text \<Rightarrow> json_lib \<Rightarrow> string \<Rightarrow> threat_prefix list" where
  "parse_spamhaus_drop N T J body =
     (let from_json = (case js_value J body of None \<Rightarrow> [] | Some v \<Rightarrow> collect_json_cidrs N T v []) in
      if from_json \<noteq> [] then from_json
      else List.map_filter (parse_lenient_line_prefix N T) (str_lines body))"

section \<open>Size-limited bodies\<close>

text \<open>\<^verbatim>\<open>std::str::from_utf8\<close>: well-formed UTF-8.\<close>

abbreviation byte_of :: "char \<Rightarrow> nat" where "byte_of c \<equiv> of_char c"

definition is_cont :: "char \<Rightarrow> bool" where
  "is_cont c \<longleftrightarrow> 128 \<le> byte_of c \<and> byte_of c \<le> 191"

fun utf8_ok :: "string \<Rightarrow> bool" where
  "utf8_ok [] = True"
| "utf8_ok (a # r) =
     (let x = byte_of a in
      if x < 128 then utf8_ok r
      else if 194 \<le> x \<and> x \<le> 223 then
        (case r of b # r' \<Rightarrow> is_cont b \<and> utf8_ok r' | _ \<Rightarrow> False)
      else if 224 \<le> x \<and> x \<le> 239 then
        (case r of b # c # r' \<Rightarrow>
            is_cont b \<and> (x = 224 \<longrightarrow> 160 \<le> byte_of b) \<and> (x = 237 \<longrightarrow> byte_of b \<le> 159) \<and>
            is_cont c \<and> utf8_ok r' | _ \<Rightarrow> False)
      else if 240 \<le> x \<and> x \<le> 244 then
        (case r of b # c # d # r' \<Rightarrow>
            is_cont b \<and> (x = 240 \<longrightarrow> 144 \<le> byte_of b) \<and> (x = 244 \<longrightarrow> byte_of b \<le> 143) \<and>
            is_cont c \<and> is_cont d \<and> utf8_ok r' | _ \<Rightarrow> False)
      else False)"

record http_response =
  hr_status_redirection :: bool
  hr_status_error :: bool
  hr_content_length :: "u64 option"
  hr_chunks :: "(string res) list"

definition reject_oversized_content_length :: "http_response \<Rightarrow> nat \<Rightarrow> string \<Rightarrow> unit res" where
  "reject_oversized_content_length resp max_bytes label =
     (case hr_content_length resp of
        Some len \<Rightarrow> if unat len > max_bytes then Inl (ResponseTooLarge label) else Inr ()
      | None \<Rightarrow> Inr ())"

primrec read_chunks :: "nat \<Rightarrow> string \<Rightarrow> string \<Rightarrow> (string res) list \<Rightarrow> string res" where
  "read_chunks max_bytes label body [] = Inr body"
| "read_chunks max_bytes label body (r # rs) =
     bindE r (\<lambda>chunk.
       if length body + length chunk > max_bytes then Inl (ResponseTooLarge label)
       else read_chunks max_bytes label (body @ chunk) rs)"

definition read_limited_body :: "http_response \<Rightarrow> nat \<Rightarrow> string \<Rightarrow> string res" where
  "read_limited_body resp max_bytes label =
     bindE (reject_oversized_content_length resp max_bytes label) (\<lambda>_.
     bindE (read_chunks max_bytes label [] (hr_chunks resp)) (\<lambda>body.
       if utf8_ok body then Inr body else Inl (NonUtf8 label)))"

definition trim_line_ending :: "string \<Rightarrow> string" where
  "trim_line_ending line =
     strip_carriage (if line \<noteq> [] \<and> last line = newline then butlast line else line)"

definition parse_utf8_line ::
    "string \<Rightarrow> (string \<Rightarrow> 'a option res) \<Rightarrow> string \<Rightarrow> 'a list \<Rightarrow> 'a list res" where
  "parse_utf8_line label parse_line line parsed =
     (if \<not> utf8_ok line then Inl (NonUtf8 label)
      else mapE (\<lambda>v. case v of None \<Rightarrow> parsed | Some x \<Rightarrow> parsed @ [x]) (parse_line line))"

text \<open>One turn takes the bytes up to and including the first newline off the carry.\<close>

function drain_complete_lines ::
    "string \<Rightarrow> (string \<Rightarrow> 'a option res) \<Rightarrow> string \<Rightarrow> 'a list \<Rightarrow> (string \<times> 'a list) res" where
  "drain_complete_lines label parse_line carry parsed =
     (if newline \<notin> set carry then Inr (carry, parsed)
      else (let line = takeWhile (\<lambda>c. c \<noteq> newline) carry @ [newline];
                carry = tl (dropWhile (\<lambda>c. c \<noteq> newline) carry)
            in bindE (parse_utf8_line label parse_line (trim_line_ending line) parsed) (\<lambda>parsed.
                 drain_complete_lines label parse_line carry parsed)))"
  by pat_completeness auto
termination
proof (relation "measure (\<lambda>(_, _, carry, _). length carry)")
  fix label :: string and parse_line :: "string \<Rightarrow> 'a option res" and carry parsed line c p
  assume n: "\<not> newline \<notin> set carry" and c: "c = tl (dropWhile (\<lambda>c. c \<noteq> newline) carry)"
  then have "dropWhile (\<lambda>c. c \<noteq> newline) carry \<noteq> []" by (auto simp: dropWhile_eq_Nil_conv)
  moreover have "length (dropWhile (\<lambda>c. c \<noteq> newline) carry) \<le> length carry" by (rule length_dropWhile_le)
  ultimately have "length c < length carry" unfolding c by (cases "dropWhile (\<lambda>c. c \<noteq> newline) carry") auto
  then show "((label, parse_line, c, p), (label, parse_line, carry, parsed)) \<in>
      measure (\<lambda>(_, _, carry, _). length carry)" by simp
qed simp

declare drain_complete_lines.simps [simp del]

definition parse_remaining_line ::
    "string \<Rightarrow> (string \<Rightarrow> 'a option res) \<Rightarrow> string \<Rightarrow> 'a list \<Rightarrow> 'a list res" where
  "parse_remaining_line label parse_line carry parsed =
     (if carry = [] then Inr parsed
      else parse_utf8_line label parse_line (trim_line_ending carry) parsed)"

primrec read_line_chunks ::
    "nat \<Rightarrow> string \<Rightarrow> (string \<Rightarrow> 'a option res) \<Rightarrow> nat \<Rightarrow> string \<Rightarrow> 'a list \<Rightarrow> (string res) list \<Rightarrow>
       (string \<times> 'a list) res" where
  "read_line_chunks max_bytes label parse_line count carry parsed [] = Inr (carry, parsed)"
| "read_line_chunks max_bytes label parse_line count carry parsed (r # rs) =
     bindE r (\<lambda>chunk.
       let count = count + length chunk in
       if count > max_bytes then Inl (ResponseTooLarge label)
       else bindE (drain_complete_lines label parse_line (carry @ chunk) parsed) (\<lambda>(carry, parsed).
              read_line_chunks max_bytes label parse_line count carry parsed rs))"

definition read_limited_lines ::
    "http_response \<Rightarrow> nat \<Rightarrow> string \<Rightarrow> (string \<Rightarrow> 'a option res) \<Rightarrow> 'a list res" where
  "read_limited_lines resp max_bytes label parse_line =
     bindE (reject_oversized_content_length resp max_bytes label) (\<lambda>_.
     bindE (read_line_chunks max_bytes label parse_line 0 [] [] (hr_chunks resp)) (\<lambda>(carry, parsed).
       parse_remaining_line label parse_line carry parsed))"

section \<open>Chunk boundaries do not matter\<close>

primrec parse_lines ::
    "string \<Rightarrow> (string \<Rightarrow> 'a option res) \<Rightarrow> string list \<Rightarrow> 'a list \<Rightarrow> 'a list res" where
  "parse_lines label parse_line [] parsed = Inr parsed"
| "parse_lines label parse_line (l # ls) parsed =
     bindE (parse_utf8_line label parse_line l parsed) (parse_lines label parse_line ls)"

lemma bindE_assoc: "bindE (bindE r f) g = bindE r (\<lambda>x. bindE (f x) g)"
  by (cases r) simp_all

lemma bindE_fun: "(\<And>x. f x = g x) \<Longrightarrow> bindE r f = bindE r g"
  by (cases r) simp_all

lemma bindE_Inr [simp]: "bindE r Inr = r"
  by (cases r) simp_all

lemma parse_lines_Nil_fun [simp]: "parse_lines label pl [] = Inr"
  by (rule ext) simp

lemma parse_lines_append:
  "parse_lines label pl (as @ bs) parsed = bindE (parse_lines label pl as parsed) (parse_lines label pl bs)"
  by (induction as arbitrary: parsed) (auto simp: bindE_assoc intro!: bindE_fun)

lemma split_on_not_Nil [simp]: "split_on P s \<noteq> []"
  by (induction s) (auto split: list.splits)

lemma split_on_none: "\<forall>c\<in>set s. \<not> P c \<Longrightarrow> split_on P s = [s]"
  by (induction s) auto

lemma split_on_sep: "\<forall>c\<in>set s. \<not> P c \<Longrightarrow> P d \<Longrightarrow> split_on P (s @ d # r) = s # split_on P r"
  by (induction s) auto

lemma split_on_append:
  "split_on P (a @ b) = butlast (split_on P a) @ split_on P (last (split_on P a) @ b)"
proof (induction a)
  case (Cons c a)
  show ?case
  proof (cases "P c")
    case True
    then show ?thesis using Cons by simp
  next
    case False
    obtain w ws where w: "split_on P a = w # ws" by (cases "split_on P a") auto
    show ?thesis
    proof (cases "ws = []")
      case True
      then show ?thesis using Cons False w by simp
    next
      case ws: False
      then show ?thesis using Cons False w by simp
    qed
  qed
qed simp

lemma last_split_on: "\<forall>c\<in>set (last (split_on P s)). \<not> P c"
proof (induction s)
  case (Cons c s)
  then show ?case by (cases "split_on P s") auto
qed simp

abbreviation nl_split :: "string \<Rightarrow> string list" where
  "nl_split s \<equiv> split_on (\<lambda>c. c = newline) s"

definition whole_lines :: "string \<Rightarrow> string list" where
  "whole_lines s = map strip_carriage (butlast (nl_split s))"

definition open_line :: "string \<Rightarrow> string" where
  "open_line s = last (nl_split s)"

lemma whole_lines_append: "whole_lines (a @ b) = whole_lines a @ whole_lines (open_line a @ b)"
  unfolding whole_lines_def open_line_def by (subst split_on_append) (simp add: butlast_append)

lemma open_line_append: "open_line (a @ b) = open_line (open_line a @ b)"
  unfolding open_line_def by (subst split_on_append) simp

lemma drain_lines:
  "drain_complete_lines label pl carry parsed =
     bindE (parse_lines label pl (whole_lines carry) parsed) (\<lambda>p. Inr (open_line carry, p))"
proof (induction label pl carry parsed rule: drain_complete_lines.induct)
  case (1 label pl carry parsed)
  show ?case
  proof (cases "newline \<in> set carry")
    case False
    then have "nl_split carry = [carry]" by (intro split_on_none) auto
    then show ?thesis using False
      by (simp add: drain_complete_lines.simps [of label pl carry] whole_lines_def open_line_def)
  next
    case True
    let ?l = "takeWhile (\<lambda>c. c \<noteq> newline) carry" and ?d = "dropWhile (\<lambda>c. c \<noteq> newline) carry"
    have d: "?d = newline # tl ?d"
      using True by (metis (mono_tags, lifting) dropWhile_eq_Nil_conv hd_dropWhile list.collapse)
    have c: "carry = ?l @ newline # tl ?d" using d by (metis takeWhile_dropWhile_id)
    have "nl_split carry = ?l # nl_split (tl ?d)"
      using split_on_sep [of ?l "\<lambda>c. c = newline" newline "tl ?d"] c by (auto dest: set_takeWhileD)
    then have w: "whole_lines carry = strip_carriage ?l # whole_lines (tl ?d)"
      "open_line carry = open_line (tl ?d)"
      by (simp_all add: whole_lines_def open_line_def)
    have t: "trim_line_ending (?l @ [newline]) = strip_carriage ?l" by (simp add: trim_line_ending_def)
    show ?thesis
    proof (cases "parse_utf8_line label pl (strip_carriage ?l) parsed")
      case (Inl e)
      then show ?thesis using True w t by (simp add: drain_complete_lines.simps [of label pl carry] Let_def)
    next
      case (Inr p)
      then show ?thesis using True w t 1 [of "?l @ [newline]" "tl ?d" p]
        by (simp add: drain_complete_lines.simps [of label pl carry] Let_def)
    qed
  qed
qed

lemma read_line_chunks_spec:
  "count + length (concat chunks) \<le> max_bytes \<Longrightarrow> open_line carry = carry \<Longrightarrow> whole_lines carry = [] \<Longrightarrow>
   read_line_chunks max_bytes label pl count carry parsed (map Inr chunks) =
     bindE (parse_lines label pl (whole_lines (carry @ concat chunks)) parsed)
       (\<lambda>p. Inr (open_line (carry @ concat chunks), p))"
proof (induction chunks arbitrary: count carry parsed)
  case (Cons chunk chunks)
  have o: "open_line (open_line s) = open_line s" "whole_lines (open_line s) = []" for s
    using last_split_on [of "\<lambda>c. c = newline" s] split_on_none [of "last (nl_split s)" "\<lambda>c. c = newline"]
    by (simp_all add: open_line_def whole_lines_def)
  have ih: "read_line_chunks max_bytes label pl (count + length chunk) (open_line (carry @ chunk)) p (map Inr chunks) =
     bindE (parse_lines label pl (whole_lines (open_line (carry @ chunk) @ concat chunks)) p)
       (\<lambda>p. Inr (open_line (open_line (carry @ chunk) @ concat chunks), p))" for p
    using Cons.IH [of "count + length chunk" "open_line (carry @ chunk)" p] o Cons.prems(1) by simp
  show ?case
    using Cons.prems(1) whole_lines_append [of "carry @ chunk" "concat chunks"]
      open_line_append [of "carry @ chunk" "concat chunks"]
    by (simp add: Let_def drain_lines bindE_assoc ih parse_lines_append)
qed simp

lemma str_lines_split:
  "str_lines s = whole_lines s @ (if open_line s = [] then [] else [strip_carriage (open_line s)])"
proof -
  have "nl_split s = butlast (nl_split s) @ [last (nl_split s)]" by simp
  then have "map strip_carriage (nl_split s) = whole_lines s @ [strip_carriage (open_line s)]"
    unfolding whole_lines_def open_line_def by (metis list.simps(8) list.simps(9) map_append)
  then show ?thesis by (simp add: str_lines_def Let_def whole_lines_def open_line_def)
qed

lemma read_limited_lines_spec:
  assumes "hr_chunks resp = map Inr chunks" "length (concat chunks) \<le> max_bytes"
    and "\<forall>n. hr_content_length resp = Some n \<longrightarrow> unat n \<le> max_bytes"
  shows "read_limited_lines resp max_bytes label pl = parse_lines label pl (str_lines (concat chunks)) []"
proof -
  have r: "reject_oversized_content_length resp max_bytes label = Inr ()"
    using assms(3) by (auto simp: reject_oversized_content_length_def split: option.splits)
  have e: "open_line [] = []" "whole_lines [] = []" by (simp_all add: open_line_def whole_lines_def)
  have t: "trim_line_ending (open_line s) = strip_carriage (open_line s)" for s
    using last_split_on [of "\<lambda>c. c = newline" s]
    by (auto simp: trim_line_ending_def open_line_def dest: last_in_set)
  show ?thesis
    using read_line_chunks_spec [of 0 chunks max_bytes "[]" label pl "[]"] assms(1,2) e t
    by (simp add: read_limited_lines_def r str_lines_split parse_lines_append bindE_assoc parse_remaining_line_def
        cong: if_cong) (auto intro!: bindE_fun)
qed

section \<open>The normal form\<close>

abbreviation prefix_key :: "threat_prefix \<Rightarrow> bool \<times> ipaddr \<times> u8" where
  "prefix_key p \<equiv> (is_ipv6 (tp_addr p), tp_addr p, tp_prefix p)"

lemma prefix_key_inj: "inj_on prefix_key A"
  by (auto simp: inj_on_def intro: threat_prefix.equality)

lemma set_normalize [simp]: "set (normalize_prefixes xs) = set xs"
  using snd_unique_by_keys [of id "{}" xs] by (simp add: normalize_prefixes_def)

lemma distinct_normalize: "distinct (normalize_prefixes xs)"
  using snd_unique_by_distinct [of id "{}" xs] by (simp add: normalize_prefixes_def)

lemma sorted_normalize: "sorted (map prefix_key (normalize_prefixes xs))"
  by (simp add: normalize_prefixes_def)

lemma normalize_set_eq:
  assumes "set xs = set ys"
  shows "normalize_prefixes xs = normalize_prefixes ys"
proof (rule map_inj_on [OF _ prefix_key_inj])
  show "map prefix_key (normalize_prefixes xs) = map prefix_key (normalize_prefixes ys)"
  proof (rule sorted_distinct_set_unique)
    show "distinct (map prefix_key (normalize_prefixes xs))" "distinct (map prefix_key (normalize_prefixes ys))"
      using distinct_normalize prefix_key_inj by (simp_all add: distinct_map)
    show "set (map prefix_key (normalize_prefixes xs)) = set (map prefix_key (normalize_prefixes ys))"
      using assms by simp
  qed (rule sorted_normalize)+
qed

section \<open>Round trip of a stored prefix\<close>

definition addr_char :: "char \<Rightarrow> bool" where
  "addr_char c \<longleftrightarrow> is_digit 16 c \<or> c = CHR ''.'' \<or> c = CHR '':''"

definition plain_char :: "char \<Rightarrow> bool" where
  "plain_char c \<longleftrightarrow> addr_char c \<or> c = CHR ''/''"

lemma plain_not_space: "plain_char c \<Longrightarrow> \<not> is_space c \<and> c \<noteq> CHR '','' \<and> c \<noteq> CHR 0x22"
  by (auto simp: plain_char_def addr_char_def is_space_def is_digit_def digit_value_def Let_def split: if_splits)

lemma addr_char_simps [simp]:
  "addr_char CHR ''.''" "addr_char CHR '':''" "addr_char CHR ''f''" "\<not> addr_char CHR ''/''"
  by (simp_all add: addr_char_def is_digit_def digit_value_def Let_def)

lemma addr_digit: "is_digit 10 c \<Longrightarrow> addr_char c"
  by (auto simp: addr_char_def is_digit_def digit_value_def Let_def split: if_splits)

lemma addr_dec: "c \<in> set (dec_nat n) \<Longrightarrow> addr_char c"
  using show_nat_digits [of 10 n] addr_digit by auto

lemma addr_octets: "c \<in> set (show_octets bs) \<Longrightarrow> addr_char c"
  by (induction bs rule: show_octets.induct) (auto simp: show_octet_def addr_dec)

lemma addr_group: "c \<in> set (show_group g) \<Longrightarrow> addr_char c"
  using show_nat_digits [of 16 "unat g"] by (auto simp: show_group_def addr_char_def)

lemma addr_groups: "c \<in> set (show_groups gs) \<Longrightarrow> addr_char c"
  by (induction gs rule: show_groups.induct) (auto simp: addr_group)

lemma addr_ip: "c \<in> set (show_ip a) \<Longrightarrow> addr_char c"
proof (cases a)
  case (V6 w)
  assume "c \<in> set (show_ip a)"
  then have "c \<in> set (show_ipv6 w)" using V6 by simp
  then consider "c = CHR ''f''" | "c = CHR '':''" | "c \<in> set (show_ipv4 (ucast w))"
    | gs where "c \<in> set (show_groups gs)"
    by (auto simp: show_ipv6_def Let_def split: if_splits prod.splits)
  then show ?thesis by cases (auto simp: addr_octets addr_groups show_ipv4_def)
qed (simp add: show_ipv4_def addr_octets)

lemma plain_cidr: "c \<in> set (cidr_text a p) \<Longrightarrow> plain_char c"
  by (auto simp: cidr_text_def plain_char_def addr_ip addr_dec)

lemma cidr_text_not_Nil: "cidr_text a p \<noteq> []"
  by (simp add: cidr_text_def)

lemma plain_trims:
  assumes "\<forall>c\<in>set s. plain_char c" "s \<noteq> []"
  shows "trim_matches CHR 0x22 (trim_matches CHR '','' (trim s)) = s"
proof -
  have t: "trim s = s" using assms plain_not_space by (intro trim_fixed) auto
  have m: "trim_matches d s = s" if "d \<notin> set s" for d
  proof -
    have f: "dropWhile (\<lambda>x. x = d) r = r" if "d \<notin> set r" for r using that by (cases r) auto
    show ?thesis using f [of s] f [of "rev s"] that by (simp add: trim_matches_def)
  qed
  have "CHR '','' \<notin> set s" "CHR 0x22 \<notin> set s" using assms(1) plain_not_space by blast+
  then show ?thesis using t m by simp
qed

context net_text_spec
begin

lemma parse_stored_prefix:
  assumes "ipnet_spec N" "canonical (tp_addr p) (unat (tp_prefix p))"
  shows "parse_prefix N T (prefix_to_cidr p) = Inr p"
proof -
  have w: "unat (tp_prefix p) \<le> ip_width (tp_addr p)" using assms(2) by (simp add: canonical_def)
  then have v: "valid_net (Net (tp_addr p) (tp_prefix p))" by (simp add: valid_net_def)
  have "net_network N (Net (tp_addr p) (tp_prefix p)) = tp_addr p"
    using ipnet_spec.network_of_canonical [OF assms(1) v] assms(2) by simp
  moreover have "trim_matches CHR 0x22 (trim_matches CHR '','' (trim (prefix_to_cidr p))) = prefix_to_cidr p"
    unfolding prefix_to_cidr_def by (intro plain_trims) (auto simp: plain_cidr cidr_text_not_Nil)
  ultimately show ?thesis
    using parse_show [OF w] by (simp add: parse_prefix_def Let_def prefix_to_cidr_def)
qed

lemma parsed_prefix_canonical:
  assumes "ipnet_spec N" "parse_prefix N T s = Inr p"
  shows "canonical (tp_addr p) (unat (tp_prefix p))"
proof (cases "nt_parse T (trim_matches CHR 0x22 (trim_matches CHR '','' (trim s)))")
  case (Some n)
  then show ?thesis
    using assms(2) ipnet_spec.network_canonical [OF assms(1) parse_valid [OF Some]]
    by (auto simp: parse_prefix_def)
next
  case None
  then obtain a where a: "p = \<lparr>tp_addr = a, tp_prefix = (if is_ipv4 a then 32 else 128)\<rparr>"
    using assms(2) by (auto simp: parse_prefix_def Let_def res_simps)
  show ?thesis by (cases a) (simp_all add: \<open>p = _\<close> canonical_def)
qed

end

lemma parse_uint_dec: "n < bound \<Longrightarrow> parse_uint bound (dec_nat n) = Some n"
proof -
  assume b: "n < bound"
  have d: "\<forall>c\<in>set (dec_nat n). is_digit 10 c" by (rule show_nat_digits) simp_all
  have "\<not> is_digit 10 CHR ''+''" by (simp add: is_digit_def digit_value_def Let_def)
  then have "CHR ''+'' \<notin> set (dec_nat n)" using d by auto
  then have "(case dec_nat n of CHR ''+'' # r \<Rightarrow> r | _ \<Rightarrow> dec_nat n) = dec_nat n"
    by (auto split: list.splits char.splits bool.splits)
  then show ?thesis
    using b d digits_value_show [of 10 n] by (simp add: parse_uint_def list_all_iff)
qed

interpretation ref_text: net_text_spec ref_net_text
proof
  fix s n
  assume "nt_parse ref_net_text s = Some n"
  then obtain ip k where "n = Net ip (word_of_nat k)" "k \<le> ip_width ip"
    by (auto simp: ref_net_text_def ref_net_parse_def split: list.splits option.splits if_splits)
  moreover have "ip_width ip \<le> 128" by (cases ip) simp_all
  ultimately show "valid_net n" by (simp add: valid_net_def unsigned_of_nat take_bit_nat_eq_self)
next
  fix p :: u8 and a
  assume w: "unat p \<le> ip_width a"
  have "ip_width a \<le> 128" by (cases a) simp_all
  then have u: "parse_uint 129 (dec_nat (unat p)) = Some (unat p)" using w by (intro parse_uint_dec) simp
  have a: "CHR ''/'' \<notin> set (show_ip a)" "CHR ''/'' \<notin> set (dec_nat (unat p))"
    using addr_ip addr_dec addr_char_simps(4) by blast+
  then have "split_on (\<lambda>c. c = CHR ''/'') (cidr_text a p) = [show_ip a, dec_nat (unat p)]"
    unfolding cidr_text_def by (subst split_on_sep) (auto intro!: split_on_none)
  then show "nt_parse ref_net_text (cidr_text a p) = Some (Net a p)"
    using u w by (simp add: ref_net_text_def ref_net_parse_def parse_show_ip)
qed

end
