(* ===== verification/Policy_Load.thy ===== *)
theory Policy_Load
  imports Db_Rows Threat_Feed Policy_Compile
begin

text \<open>
  From database rows to the policy snapshot: \<^verbatim>\<open>policy/firewall.rs\<close>, \<^verbatim>\<open>firewall/loaders.rs\<close>,
  \<^verbatim>\<open>firewall/parse.rs\<close>, \<^verbatim>\<open>firewall/parse/common.rs\<close>, the threat-source conversion of
  \<^verbatim>\<open>intelligence/threat.rs\<close>, the stored threat prefixes (\<^verbatim>\<open>threat/persisted.rs\<close>) and the stored
  country lists with their pages (\<^verbatim>\<open>geo/persisted.rs\<close>, \<^verbatim>\<open>geo/persisted/\<close>). The network crate, its text
  form, the JSON crate and the clock are parameters.
\<close>

section \<open>Parsing rows\<close>

definition parse_action :: "string \<Rightarrow> rule_action res" where
  "parse_action value =
     (let v = to_lower value in
      if v = ''allow'' then Inr Allow
      else if v = ''deny'' \<or> v = ''drop'' then Inr Deny
      else Inl (UnsupportedAction value))"

definition parse_protocol :: "string \<Rightarrow> l4_protocol res" where
  "parse_protocol value =
     (let v = to_lower value in
      if v = ''any'' then Inr AnyProto
      else if v = ''tcp'' then Inr Tcp
      else if v = ''udp'' then Inr Udp
      else if v = ''icmp'' then Inr Icmp
      else Inl (UnsupportedProtocol value))"

definition parse_optional_port :: "i32 option \<Rightarrow> string \<Rightarrow> u16 option res" where
  "parse_optional_port value label =
     transposeE (\<lambda>port. ok_or (OutOfRange label) (u16_try_from_i32 port)) value"

definition parse_cidr :: "net_text \<Rightarrow> string \<Rightarrow> ipnet res" where
  "parse_cidr T s = ok_or (InvalidCidr s) (nt_parse T s)"

definition parse_rule :: "net_text \<Rightarrow> firewall_rule_row \<Rightarrow> firewall_rule res" where
  "parse_rule T row =
     bindE (parse_action (frr_action row)) (\<lambda>action.
     bindE (parse_cidr T (frr_cidr row)) (\<lambda>cidr.
     bindE (transposeE parse_protocol (frr_protocol row)) (\<lambda>protocol.
     bindE (parse_optional_port (frr_port row) ''firewall rule port'') (\<lambda>port.
     Inr \<lparr>fr_priority = frr_priority row, fr_action = action, fr_cidr = cidr,
          fr_protocol = unwrap_or AnyProto protocol, fr_port = port, fr_comment = frr_comment row\<rparr>))))"

definition parse_geo_country_policy :: "geo_country_policy_row \<Rightarrow> geo_country_policy res" where
  "parse_geo_country_policy row =
     bindE (normalize_country (gcr_country row)) (\<lambda>country.
     bindE (parse_action (gcr_action row)) (\<lambda>action.
     Inr \<lparr>gc_country = country, gc_action = action\<rparr>))"

record geo_prefix =
  gx_addr :: ipaddr
  gx_prefix :: u8
  gx_country :: u16

definition geo_prefix_to_ipnet :: "ipnet_lib \<Rightarrow> ipaddr \<Rightarrow> u8 \<Rightarrow> ipnet res" where
  "geo_prefix_to_ipnet N addr prefix = ok_or (InvalidCidr (cidr_text addr prefix)) (net_new N addr prefix)"

definition parse_geo_prefix :: "ipnet_lib \<Rightarrow> geo_prefix \<Rightarrow> geo_ip_prefix_policy res" where
  "parse_geo_prefix N p =
     bindE (geo_prefix_to_ipnet N (gx_addr p) (gx_prefix p)) (\<lambda>cidr.
     bindE (decode_country (gx_country p)) (\<lambda>c.
     Inr \<lparr>gp_cidr = cidr, gp_country = c\<rparr>))"

definition parse_dynamic_defense :: "dynamic_defense_row \<Rightarrow> dynamic_defense_policy res" where
  "parse_dynamic_defense row =
     bindE (optional_i32_to_u32 ''dynamic defense ip_packets_per_second'' (ddr_ip_packets_per_second row)) (\<lambda>ipps.
     bindE (optional_i32_to_u32 ''dynamic defense ip_burst'' (ddr_ip_burst row)) (\<lambda>ipb.
     bindE (optional_i32_to_u32 ''dynamic defense flood_packets_per_second'' (ddr_flood_packets_per_second row)) (\<lambda>fpps.
     bindE (optional_i32_to_u32 ''dynamic defense flood_burst'' (ddr_flood_burst row)) (\<lambda>fb.
     bindE (optional_i32_to_u32 ''dynamic defense flood_block_seconds'' (ddr_flood_block_seconds row)) (\<lambda>fbs.
     Inr \<lparr>dd_enabled = ddr_enabled row, dd_ip_rate_limit_enabled = ddr_ip_rate_limit_enabled row,
          dd_ip_packets_per_second = ipps, dd_ip_burst = ipb, dd_flood_enabled = ddr_flood_enabled row,
          dd_flood_packets_per_second = fpps, dd_flood_burst = fb, dd_flood_block_seconds = fbs\<rparr>)))))"

definition parse_dynamic_rate_limit :: "dynamic_rate_limit_row \<Rightarrow> dynamic_rate_limit_policy res" where
  "parse_dynamic_rate_limit row =
     bindE (parse_protocol (drr_protocol row)) (\<lambda>protocol.
     bindE (parse_optional_port (drr_port row) ''dynamic rate limit port'') (\<lambda>port.
     bindE (i32_to_u32 ''dynamic rate limit packets_per_second'' (drr_packets_per_second row)) (\<lambda>pps.
     bindE (i32_to_u32 ''dynamic rate limit burst'' (drr_burst row)) (\<lambda>burst.
     let policy = \<lparr>dr_priority = drr_priority row, dr_protocol = protocol, dr_port = port,
                   dr_packets_per_second = pps, dr_burst = burst, dr_comment = drr_comment row\<rparr>
     in mapE (\<lambda>_. policy) (validate_dynamic_rate_limit_policy policy)))))"

definition parse_temp_ban :: "net_text \<Rightarrow> temp_ban_row \<Rightarrow> temp_ban_policy res" where
  "parse_temp_ban T row =
     bindE (parse_cidr T (tbr_cidr row)) (\<lambda>cidr.
     bindE (parse_protocol (tbr_protocol row)) (\<lambda>protocol.
     bindE (parse_optional_port (tbr_port row) ''temporary ban port'') (\<lambda>port.
     let policy = \<lparr>tb_cidr = cidr, tb_protocol = protocol, tb_port = port,
                   tb_expires_at = tbr_expires_at row, tb_comment = tbr_comment row\<rparr>
     in mapE (\<lambda>_. policy) (validate_temp_ban_policy policy))))"

definition parse_trusted_cidr :: "net_text \<Rightarrow> trusted_cidr_row \<Rightarrow> trusted_cidr_policy res" where
  "parse_trusted_cidr T row =
     bindE (parse_cidr T (tcr_cidr row)) (\<lambda>cidr. Inr \<lparr>tc_cidr = cidr, tc_comment = tcr_comment row\<rparr>)"

definition parse_format :: "string \<Rightarrow> threat_format res" where
  "parse_format value =
     (let v = to_lower value in
      if v = ''cidr'' then Inr FmtCidr
      else if v = ''ips'' then Inr FmtIps
      else if v = ''ipsum'' then Inr FmtIpsum
      else if v = ''voipbl'' \<or> v = ''voipbl_cidr'' \<or> v = ''voipbl-cidr'' then Inr FmtVoipbl
      else if v = ''spamhaus_drop'' \<or> v = ''spamhaus-drop'' then Inr FmtSpamhausDrop
      else Inl (UnsupportedFormat value))"

definition threat_source_try_from :: "threat_source_row \<Rightarrow> threat_source res" where
  "threat_source_try_from row =
     bindE (parse_format (tsr_format row)) (\<lambda>format.
     bindE (optional_i32_to_u32 ''threat min_score'' (tsr_min_score row)) (\<lambda>min_score.
     Inr \<lparr>ts_name = tsr_name row, ts_url = tsr_url row, ts_format = format, ts_min_score = min_score\<rparr>))"

section \<open>Stored threat prefixes\<close>

definition persisted_prefixes ::
    "ipnet_lib \<Rightarrow> net_text \<Rightarrow> json_lib \<Rightarrow> threat_prefix_row \<Rightarrow> threat_prefix list res" where
  "persisted_prefixes N T J row =
     bindE (ok_or (Internal ''invalid persisted threat CIDR list'') (js_strings J (tpr_cidrs_json row)))
       (traverse (parse_prefix N T))"

definition cidrs_json_from_prefixes :: "json_lib \<Rightarrow> threat_prefix list \<Rightarrow> string" where
  "cidrs_json_from_prefixes J prefixes = js_show_strings J (map prefix_to_cidr prefixes)"

definition load_persisted_threat_prefixes ::
    "ipnet_lib \<Rightarrow> net_text \<Rightarrow> json_lib \<Rightarrow> firewall_db \<Rightarrow> string \<Rightarrow> string list \<Rightarrow> threat_prefix list res" where
  "load_persisted_threat_prefixes N T J db policy_name source_names =
     (if source_names = [] then Inr []
      else mapE (\<lambda>ps. normalize_prefixes (concat ps))
        (traverse (persisted_prefixes N T J)
          (order_by tpr_source_name (filter (\<lambda>r. tpr_policy_name r = policy_name \<and>
             tpr_source_name r \<in> set source_names) (db_threat_prefixes db)))))"

definition persist_threat_source_prefixes ::
    "json_lib \<Rightarrow> i32 \<Rightarrow> string \<Rightarrow> string \<Rightarrow> threat_prefix list \<Rightarrow> datetime \<Rightarrow> firewall_db \<Rightarrow> firewall_db" where
  "persist_threat_source_prefixes J row_id policy_name source_name prefixes now db =
     db\<lparr>db_threat_prefixes :=
          filter (\<lambda>r. \<not> (tpr_policy_name r = policy_name \<and> tpr_source_name r = source_name)) (db_threat_prefixes db)
          @ [\<lparr>tpr_id = row_id, tpr_policy_name = policy_name, tpr_source_name = source_name,
              tpr_cidrs_json = cidrs_json_from_prefixes J prefixes, tpr_updated_at = now\<rparr>]\<rparr>"

definition delete_persisted_threat_prefixes_by_name :: "string list \<Rightarrow> firewall_db \<Rightarrow> firewall_db" where
  "delete_persisted_threat_prefixes_by_name names db =
     (if names = [] then db
      else db\<lparr>db_threat_prefixes := filter (\<lambda>r. \<not> (tpr_policy_name r = default_policy_name \<and>
             tpr_source_name r \<in> set names)) (db_threat_prefixes db)\<rparr>)"

definition has_threat_source_state :: "firewall_db \<Rightarrow> string \<Rightarrow> bool" where
  "has_threat_source_state db source_name \<longleftrightarrow>
     find (\<lambda>r. tss_policy_name r = default_policy_name \<and> tss_source_name r = source_name) (db_threat_states db) \<noteq> None"

definition has_threat_source_prefixes :: "firewall_db \<Rightarrow> string \<Rightarrow> bool" where
  "has_threat_source_prefixes db source_name \<longleftrightarrow>
     find (\<lambda>r. tpr_policy_name r = default_policy_name \<and> tpr_source_name r = source_name) (db_threat_prefixes db) \<noteq> None"

definition threat_source_state_missing :: "firewall_db \<Rightarrow> string \<Rightarrow> bool" where
  "threat_source_state_missing db source_name \<longleftrightarrow>
     \<not> has_threat_source_state db source_name \<or> \<not> has_threat_source_prefixes db source_name"

definition enabled_threat_source_states_missing :: "firewall_db \<Rightarrow> bool" where
  "enabled_threat_source_states_missing db \<longleftrightarrow>
     list_ex (\<lambda>s. threat_source_state_missing db (tsr_name s))
       (filter (\<lambda>r. tsr_policy_name r = default_policy_name \<and> tsr_enabled r) (db_threat_sources db))"

section \<open>Stored country lists\<close>

definition geo_prefix_from_net :: "ipnet_lib \<Rightarrow> ipnet \<Rightarrow> u16 \<Rightarrow> geo_prefix" where
  "geo_prefix_from_net N net country =
     \<lparr>gx_addr = net_network N net, gx_prefix = net_prefix_len net, gx_country = country\<rparr>"

definition geo_prefix_to_cidr :: "geo_prefix \<Rightarrow> string" where
  "geo_prefix_to_cidr p = cidr_text (gx_addr p) (gx_prefix p)"

text \<open>The hand-written JSON text of a country list.\<close>

fun join_with :: "string \<Rightarrow> string list \<Rightarrow> string" where
  "join_with sep [] = []"
| "join_with sep [x] = x"
| "join_with sep (x # xs) = x @ sep @ join_with sep xs"

definition quote_text :: "string \<Rightarrow> string" where
  "quote_text s = CHR 0x22 # s @ [CHR 0x22]"

definition geo_cidrs_json :: "geo_prefix list \<Rightarrow> string" where
  "geo_cidrs_json prefixes =
     CHR ''['' # join_with '','' (map (\<lambda>p. quote_text (geo_prefix_to_cidr p)) prefixes) @ '']''"

text \<open>
  \<open>for_each_persisted_cidr\<close> hands the networks over one by one while the array is being read, so a
  malformed element or a broken end comes after the networks before it: the networks and the result.
\<close>

definition for_each_persisted_cidr :: "net_text \<Rightarrow> json_lib \<Rightarrow> geo_ip_prefix_row \<Rightarrow> ipnet list \<times> bool" where
  "for_each_persisted_cidr T J row =
     (let (elems, closed) = js_seq J (gpr_cidrs_json row);
          good = takeWhile (\<lambda>e. nt_parse T e \<noteq> None) elems
      in (map (\<lambda>e. the (nt_parse T e)) good, closed \<and> length good = length elems))"

definition load_geo_ip_prefix_row :: "firewall_db \<Rightarrow> string \<Rightarrow> geo_ip_prefix_row option" where
  "load_geo_ip_prefix_row db country = find (\<lambda>r. gpr_country r = country) (db_geo_prefixes db)"

text \<open>What a country contributes; a missing or malformed list is only logged.\<close>

definition country_prefixes ::
    "ipnet_lib \<Rightarrow> net_text \<Rightarrow> json_lib \<Rightarrow> firewall_db \<Rightarrow> string \<Rightarrow> geo_prefix list res" where
  "country_prefixes N T J db country =
     bindE (normalize_country country) (\<lambda>country.
     bindE (encode_country country) (\<lambda>code.
     case load_geo_ip_prefix_row db country of
       None \<Rightarrow> Inr []
     | Some row \<Rightarrow> Inr (map (\<lambda>net. geo_prefix_from_net N net code) (fst (for_each_persisted_cidr T J row)))))"

definition load_persisted_geo_prefixes ::
    "ipnet_lib \<Rightarrow> net_text \<Rightarrow> json_lib \<Rightarrow> firewall_db \<Rightarrow> string list \<Rightarrow> geo_prefix list res" where
  "load_persisted_geo_prefixes N T J db countries =
     mapE concat (traverse (country_prefixes N T J db) countries)"

section \<open>Loaders\<close>

definition load_policy_version :: "firewall_db \<Rightarrow> string \<Rightarrow> i64" where
  "load_policy_version db policy_name =
     (case find_policy_version db policy_name of None \<Rightarrow> 0 | Some r \<Rightarrow> pvr_version r)"

definition load_firewall_rules :: "net_text \<Rightarrow> firewall_db \<Rightarrow> string \<Rightarrow> firewall_rule list res" where
  "load_firewall_rules T db policy_name =
     traverse (parse_rule T) (order_by (\<lambda>r. sint (frr_priority r))
       (filter (\<lambda>r. frr_policy_name r = policy_name \<and> frr_enabled r) (db_firewall_rules db)))"

definition load_geo_countries :: "firewall_db \<Rightarrow> string \<Rightarrow> geo_country_policy list res" where
  "load_geo_countries db policy_name =
     traverse parse_geo_country_policy
       (filter (\<lambda>r. gcr_policy_name r = policy_name \<and> gcr_enabled r) (db_geo_countries db))"

definition load_threat_sources :: "firewall_db \<Rightarrow> string \<Rightarrow> threat_source list res" where
  "load_threat_sources db policy_name =
     traverse threat_source_try_from
       (filter (\<lambda>r. tsr_policy_name r = policy_name \<and> tsr_enabled r) (db_threat_sources db))"

definition load_dynamic_defense :: "firewall_db \<Rightarrow> string \<Rightarrow> dynamic_defense_policy res" where
  "load_dynamic_defense db policy_name =
     bindE (transposeE parse_dynamic_defense
              (find (\<lambda>r. ddr_policy_name r = policy_name) (db_dynamic_defense db))) (\<lambda>parsed.
     let policy = unwrap_or default_dynamic_defense parsed in
     mapE (\<lambda>_. policy) (validate_dynamic_defense_policy policy))"

definition load_dynamic_rate_limits :: "firewall_db \<Rightarrow> string \<Rightarrow> dynamic_rate_limit_policy list res" where
  "load_dynamic_rate_limits db policy_name =
     traverse parse_dynamic_rate_limit (order_by (\<lambda>r. sint (drr_priority r))
       (filter (\<lambda>r. drr_policy_name r = policy_name \<and> drr_enabled r) (db_rate_limits db)))"

definition load_active_temp_bans :: "net_text \<Rightarrow> datetime \<Rightarrow> firewall_db \<Rightarrow> string \<Rightarrow> temp_ban_policy list res" where
  "load_active_temp_bans T now db policy_name =
     traverse (parse_temp_ban T) (order_by tbr_expires_at
       (filter (\<lambda>r. tbr_policy_name r = policy_name \<and> now < tbr_expires_at r) (db_temp_bans db)))"

definition load_trusted_cidrs :: "net_text \<Rightarrow> firewall_db \<Rightarrow> string \<Rightarrow> trusted_cidr_policy list res" where
  "load_trusted_cidrs T db policy_name =
     traverse (parse_trusted_cidr T) (order_by tcr_cidr
       (filter (\<lambda>r. tcr_policy_name r = policy_name \<and> tcr_enabled r) (db_trusted_cidrs db)))"

definition load_geo_prefixes ::
    "ipnet_lib \<Rightarrow> net_text \<Rightarrow> json_lib \<Rightarrow> firewall_db \<Rightarrow> string list \<Rightarrow> bool \<Rightarrow> geo_ip_prefix_policy list res" where
  "load_geo_prefixes N T J db country_codes include =
     (if \<not> include then Inr []
      else bindE (load_persisted_geo_prefixes N T J db country_codes) (traverse (parse_geo_prefix N)))"

text \<open>
  The queries run one after the other, outside a transaction, so each sees the database at its own
  moment: \<open>dbs k\<close> is the state the \<open>k\<close>-th group of queries reads.
\<close>

definition load_policy_with_geo_prefixes ::
    "ipnet_lib \<Rightarrow> net_text \<Rightarrow> json_lib \<Rightarrow> datetime \<Rightarrow> (nat \<Rightarrow> firewall_db) \<Rightarrow> string \<Rightarrow> bool \<Rightarrow>
       policy_snapshot res" where
  "load_policy_with_geo_prefixes N T J now dbs policy_name include =
     (let version = load_policy_version (dbs 0) policy_name in
     bindE (load_firewall_rules T (dbs 1) policy_name) (\<lambda>rules.
     bindE (load_geo_countries (dbs 2) policy_name) (\<lambda>geo_countries.
     bindE (load_geo_prefixes N T J (dbs 3) (map gc_country geo_countries) include) (\<lambda>geo_prefixes.
     bindE (load_threat_sources (dbs 4) policy_name) (\<lambda>threat_sources.
     bindE (load_persisted_threat_prefixes N T J (dbs 5) policy_name (map ts_name threat_sources)) (\<lambda>threat_prefixes.
     bindE (load_dynamic_defense (dbs 6) policy_name) (\<lambda>dynamic_defense.
     bindE (load_dynamic_rate_limits (dbs 7) policy_name) (\<lambda>dynamic_rate_limits.
     bindE (load_active_temp_bans T now (dbs 8) policy_name) (\<lambda>temp_bans.
     bindE (load_trusted_cidrs T (dbs 9) policy_name) (\<lambda>trusted_cidrs.
     Inr \<lparr>ps_policy_name = policy_name, ps_version = version,
          ps_rules = rules, ps_geo_countries = geo_countries, ps_geo_prefixes = geo_prefixes,
          ps_temp_bans = temp_bans, ps_dynamic_defense = dynamic_defense,
          ps_dynamic_rate_limits = dynamic_rate_limits, ps_trusted_cidrs = trusted_cidrs,
          ps_threat_sources = threat_sources, ps_threat_prefixes = threat_prefixes\<rparr>))))))))))"

definition load_policy ::
    "ipnet_lib \<Rightarrow> net_text \<Rightarrow> json_lib \<Rightarrow> datetime \<Rightarrow> (nat \<Rightarrow> firewall_db) \<Rightarrow> string \<Rightarrow> policy_snapshot res" where
  "load_policy N T J now dbs policy_name = load_policy_with_geo_prefixes N T J now dbs policy_name True"

definition load_policy_without_geo_prefixes ::
    "ipnet_lib \<Rightarrow> net_text \<Rightarrow> json_lib \<Rightarrow> datetime \<Rightarrow> (nat \<Rightarrow> firewall_db) \<Rightarrow> string \<Rightarrow> policy_snapshot res" where
  "load_policy_without_geo_prefixes N T J now dbs policy_name =
     load_policy_with_geo_prefixes N T J now dbs policy_name False"

section \<open>What a loaded policy satisfies\<close>

lemma traverse_all:
  assumes "traverse f xs = Inr ys" "\<And>x y. f x = Inr y \<Longrightarrow> Q y"
  shows "\<forall>y\<in>set ys. Q y"
  using traverse_set_back [OF assms(1)] assms(2) by blast

lemma encode_normalized: "normalize_country v = Inr c \<Longrightarrow> \<exists>k. encode_country c = Inr k"
  using normalize_country_idem [of v c] by (simp add: encode_country_def)

lemma loaded_countries_encode:
  "load_geo_countries db n = Inr gs \<Longrightarrow> \<forall>g\<in>set gs. \<exists>k. encode_country (gc_country g) = Inr k"
  unfolding load_geo_countries_def
  by (erule traverse_all) (auto simp: parse_geo_country_policy_def res_simps encode_normalized)

lemma decoded_encode: "decode_country k = Inr c \<Longrightarrow> \<exists>k'. encode_country c = Inr k'"
  by (auto simp: decode_country_def Let_def encode_normalized split: if_splits)

lemma loaded_geo_prefixes_encode:
  "load_geo_prefixes N T J db cs include = Inr gs \<Longrightarrow> \<forall>g\<in>set gs. \<exists>k. encode_country (gp_country g) = Inr k"
  by (auto simp: load_geo_prefixes_def res_simps parse_geo_prefix_def decoded_encode
      dest!: traverse_set_back split: if_splits)

lemma loaded_defense_ok: "load_dynamic_defense db n = Inr d \<Longrightarrow> defense_ok d"
  by (auto simp: load_dynamic_defense_def res_simps Let_def validate_dynamic_defense_iff)

lemma loaded_rate_limits_ok: "load_dynamic_rate_limits db n = Inr ls \<Longrightarrow> \<forall>l\<in>set ls. rate_limit_ok l"
  unfolding load_dynamic_rate_limits_def
  by (erule traverse_all)
    (auto simp: parse_dynamic_rate_limit_def res_simps Let_def rate_limit_ok_def validate_rate_limit_iff)

lemma load_policy_parts:
  assumes "load_policy_with_geo_prefixes N T J now dbs n include = Inr s"
  shows "load_firewall_rules T (dbs 1) n = Inr (ps_rules s)"
    and "load_geo_countries (dbs 2) n = Inr (ps_geo_countries s)"
    and "load_geo_prefixes N T J (dbs 3) (map gc_country (ps_geo_countries s)) include = Inr (ps_geo_prefixes s)"
    and "load_threat_sources (dbs 4) n = Inr (ps_threat_sources s)"
    and "load_persisted_threat_prefixes N T J (dbs 5) n (map ts_name (ps_threat_sources s)) = Inr (ps_threat_prefixes s)"
    and "load_dynamic_defense (dbs 6) n = Inr (ps_dynamic_defense s)"
    and "load_dynamic_rate_limits (dbs 7) n = Inr (ps_dynamic_rate_limits s)"
    and "load_active_temp_bans T now (dbs 8) n = Inr (ps_temp_bans s)"
    and "load_trusted_cidrs T (dbs 9) n = Inr (ps_trusted_cidrs s)"
    and "ps_policy_name s = n" "ps_version s = load_policy_version (dbs 0) n"
proof -
  obtain rules gcs gps tss tps d ls bans trs where parts:
    "load_firewall_rules T (dbs 1) n = Inr rules" "load_geo_countries (dbs 2) n = Inr gcs"
    "load_geo_prefixes N T J (dbs 3) (map gc_country gcs) include = Inr gps"
    "load_threat_sources (dbs 4) n = Inr tss"
    "load_persisted_threat_prefixes N T J (dbs 5) n (map ts_name tss) = Inr tps"
    "load_dynamic_defense (dbs 6) n = Inr d" "load_dynamic_rate_limits (dbs 7) n = Inr ls"
    "load_active_temp_bans T now (dbs 8) n = Inr bans" "load_trusted_cidrs T (dbs 9) n = Inr trs"
    and s: "Inr \<lparr>ps_policy_name = n, ps_version = load_policy_version (dbs 0) n,
          ps_rules = rules, ps_geo_countries = gcs, ps_geo_prefixes = gps,
          ps_temp_bans = bans, ps_dynamic_defense = d, ps_dynamic_rate_limits = ls,
          ps_trusted_cidrs = trs, ps_threat_sources = tss, ps_threat_prefixes = tps\<rparr> = (Inr s :: _ res)"
    using assms unfolding load_policy_with_geo_prefixes_def Let_def bindE_Inr_iff by blast
  show "load_firewall_rules T (dbs 1) n = Inr (ps_rules s)" using parts(1) s by force
  show "load_geo_countries (dbs 2) n = Inr (ps_geo_countries s)" using parts(2) s by force
  show "load_geo_prefixes N T J (dbs 3) (map gc_country (ps_geo_countries s)) include = Inr (ps_geo_prefixes s)"
    using parts(3) s by force
  show "load_threat_sources (dbs 4) n = Inr (ps_threat_sources s)" using parts(4) s by force
  show "load_persisted_threat_prefixes N T J (dbs 5) n (map ts_name (ps_threat_sources s)) = Inr (ps_threat_prefixes s)"
    using parts(5) s by force
  show "load_dynamic_defense (dbs 6) n = Inr (ps_dynamic_defense s)" using parts(6) s by force
  show "load_dynamic_rate_limits (dbs 7) n = Inr (ps_dynamic_rate_limits s)" using parts(7) s by force
  show "load_active_temp_bans T now (dbs 8) n = Inr (ps_temp_bans s)" using parts(8) s by force
  show "load_trusted_cidrs T (dbs 9) n = Inr (ps_trusted_cidrs s)" using parts(9) s by force
  show "ps_policy_name s = n" "ps_version s = load_policy_version (dbs 0) n" using s by force+
qed

lemma loaded_snapshot_ok:
  assumes "load_policy_with_geo_prefixes N T J now dbs n include = Inr s"
  shows "snapshot_ok s"
  unfolding snapshot_ok_def list_all_iff
  using loaded_countries_encode [OF load_policy_parts(2) [OF assms]]
    loaded_geo_prefixes_encode [OF load_policy_parts(3) [OF assms]]
    loaded_defense_ok [OF load_policy_parts(6) [OF assms]]
    loaded_rate_limits_ok [OF load_policy_parts(7) [OF assms]]
  by blast

lemma list_all2_map_key:
  "list_all2 (\<lambda>x y. f x = Inr y) xs ys \<Longrightarrow> (\<And>x y. f x = Inr y \<Longrightarrow> g y = h x) \<Longrightarrow> map g ys = map h xs"
  by (induction rule: list_all2_induct) auto

lemma loaded_rules_sorted:
  assumes "load_firewall_rules T db n = Inr rs"
  shows "sorted (map (\<lambda>r. sint (fr_priority r)) rs)"
proof -
  have "map (\<lambda>r. sint (fr_priority r)) rs = map (\<lambda>r. sint (frr_priority r))
      (order_by (\<lambda>r. sint (frr_priority r)) (filter (\<lambda>r. frr_policy_name r = n \<and> frr_enabled r) (db_firewall_rules db)))"
    using assms unfolding load_firewall_rules_def traverse_Inr_iff
    by (rule list_all2_map_key) (auto simp: parse_rule_def bindE_Inr_iff)
  then show ?thesis by (simp only: sorted_order_by)
qed

end
