(* ===== verification/Policy_View.thy ===== *)
theory Policy_View
  imports Policy_Load
begin

text \<open>
  The part of the database a policy load depends on: the enabled rows of the default policy, its bans
  and defense settings, and the stored lists of its enabled countries and sources. Loads agree on
  states with the same view, and a history in which every change of the view comes with a new
  version lets a load be checked against the version alone.
\<close>

section \<open>The view\<close>

definition active_rules :: "firewall_db \<Rightarrow> firewall_rule_row list" where
  "active_rules db = filter (\<lambda>r. frr_policy_name r = default_policy_name \<and> frr_enabled r) (db_firewall_rules db)"

definition active_countries :: "firewall_db \<Rightarrow> geo_country_policy_row list" where
  "active_countries db = filter (\<lambda>r. gcr_policy_name r = default_policy_name \<and> gcr_enabled r) (db_geo_countries db)"

definition active_limits :: "firewall_db \<Rightarrow> dynamic_rate_limit_row list" where
  "active_limits db = filter (\<lambda>r. drr_policy_name r = default_policy_name \<and> drr_enabled r) (db_rate_limits db)"

definition active_trusted :: "firewall_db \<Rightarrow> trusted_cidr_row list" where
  "active_trusted db = filter (\<lambda>r. tcr_policy_name r = default_policy_name \<and> tcr_enabled r) (db_trusted_cidrs db)"

definition active_sources :: "firewall_db \<Rightarrow> threat_source_row list" where
  "active_sources db = filter (\<lambda>r. tsr_policy_name r = default_policy_name \<and> tsr_enabled r) (db_threat_sources db)"

definition policy_bans :: "firewall_db \<Rightarrow> temp_ban_row list" where
  "policy_bans db = filter (\<lambda>r. tbr_policy_name r = default_policy_name) (db_temp_bans db)"

definition policy_defense :: "firewall_db \<Rightarrow> dynamic_defense_row option" where
  "policy_defense db = find (\<lambda>r. ddr_policy_name r = default_policy_name) (db_dynamic_defense db)"

definition source_prefix_rows :: "string set \<Rightarrow> firewall_db \<Rightarrow> threat_prefix_row list" where
  "source_prefix_rows names db =
     filter (\<lambda>r. tpr_policy_name r = default_policy_name \<and> tpr_source_name r \<in> names) (db_threat_prefixes db)"

definition same_country_list :: "firewall_db \<Rightarrow> firewall_db \<Rightarrow> string \<Rightarrow> bool" where
  "same_country_list a b country \<longleftrightarrow>
     (case normalize_country country of
        Inl e \<Rightarrow> True | Inr c \<Rightarrow> load_geo_ip_prefix_row a c = load_geo_ip_prefix_row b c)"

definition same_policy_tables :: "firewall_db \<Rightarrow> firewall_db \<Rightarrow> bool" where
  "same_policy_tables a b \<longleftrightarrow>
     active_rules a = active_rules b \<and> active_countries a = active_countries b \<and>
     active_limits a = active_limits b \<and> active_trusted a = active_trusted b \<and>
     active_sources a = active_sources b \<and> policy_bans a = policy_bans b \<and>
     policy_defense a = policy_defense b \<and>
     source_prefix_rows (tsr_name ` set (active_sources a)) a = source_prefix_rows (tsr_name ` set (active_sources a)) b \<and>
     list_all (\<lambda>r. same_country_list a b (gcr_country r)) (active_countries a)"

lemma same_policy_tables_refl [simp]: "same_policy_tables a a"
  by (simp add: same_policy_tables_def same_country_list_def list_all_iff split: sum.split)

lemma same_country_list_sym: "same_country_list a b c = same_country_list b a c"
  by (auto simp: same_country_list_def split: sum.split)

lemma same_policy_tables_sym: "same_policy_tables a b \<Longrightarrow> same_policy_tables b a"
  by (auto simp: same_policy_tables_def same_country_list_sym [of b a])

lemma same_policy_tables_trans:
  "same_policy_tables a b \<Longrightarrow> same_policy_tables b c \<Longrightarrow> same_policy_tables a c"
  by (simp add: same_policy_tables_def same_country_list_def list_all_iff split: sum.splits)

section \<open>Loads agree on the same view\<close>

lemma bindE_cong_Inr: "(\<And>x. r = Inr x \<Longrightarrow> f x = g x) \<Longrightarrow> bindE r f = bindE r g"
  by (cases r) simp_all

lemma country_prefixes_same_list:
  "same_country_list a b c \<Longrightarrow> country_prefixes N T J a c = country_prefixes N T J b c"
  by (auto simp: same_country_list_def country_prefixes_def split: sum.splits)

lemma traverse_cong: "(\<And>x. x \<in> set xs \<Longrightarrow> f x = g x) \<Longrightarrow> traverse f xs = traverse g xs"
  by (induction xs) simp_all

lemma loaded_country_lists:
  assumes s: "same_policy_tables a b" and l: "load_geo_countries b default_policy_name = Inr cs"
    and c: "c \<in> set (map gc_country cs)"
  shows "country_prefixes N T J a c = country_prefixes N T J b c"
proof -
  obtain r where r: "r \<in> set (active_countries b)" "normalize_country (gcr_country r) = Inr c"
    using c traverse_set_back [OF l [unfolded load_geo_countries_def]]
    by (fastforce simp: active_countries_def parse_geo_country_policy_def res_simps)
  then have "same_country_list a b (gcr_country r)" using s by (auto simp: same_policy_tables_def list_all_iff)
  then have "same_country_list a b c"
    using r(2) normalize_country_idem [OF r(2)] by (simp add: same_country_list_def)
  then show ?thesis by (rule country_prefixes_same_list)
qed

lemma parsed_source_name: "threat_source_try_from r = Inr x \<Longrightarrow> ts_name x = tsr_name r"
  by (auto simp: threat_source_try_from_def res_simps)

lemma traverse_names:
  "traverse threat_source_try_from rs = Inr ss \<Longrightarrow> map ts_name ss = map tsr_name rs"
  by (induction rs arbitrary: ss) (auto simp: res_simps parsed_source_name)

lemma loaded_source_names:
  "load_threat_sources db default_policy_name = Inr ss \<Longrightarrow> map ts_name ss = map tsr_name (active_sources db)"
  unfolding load_threat_sources_def active_sources_def by (rule traverse_names)

lemma same_loads:
  assumes "same_policy_tables a b"
  shows "load_firewall_rules T a default_policy_name = load_firewall_rules T b default_policy_name"
    "load_geo_countries a default_policy_name = load_geo_countries b default_policy_name"
    "load_threat_sources a default_policy_name = load_threat_sources b default_policy_name"
    "load_dynamic_defense a default_policy_name = load_dynamic_defense b default_policy_name"
    "load_dynamic_rate_limits a default_policy_name = load_dynamic_rate_limits b default_policy_name"
    "load_active_temp_bans T now a default_policy_name = load_active_temp_bans T now b default_policy_name"
    "load_trusted_cidrs T a default_policy_name = load_trusted_cidrs T b default_policy_name"
proof -
  have bans: "filter (\<lambda>r. tbr_policy_name r = default_policy_name \<and> now < tbr_expires_at r) (db_temp_bans db) =
      filter (\<lambda>r. now < tbr_expires_at r) (policy_bans db)" for db
    by (simp add: policy_bans_def conj_commute)
  show "load_firewall_rules T a default_policy_name = load_firewall_rules T b default_policy_name"
    "load_geo_countries a default_policy_name = load_geo_countries b default_policy_name"
    "load_threat_sources a default_policy_name = load_threat_sources b default_policy_name"
    "load_dynamic_defense a default_policy_name = load_dynamic_defense b default_policy_name"
    "load_dynamic_rate_limits a default_policy_name = load_dynamic_rate_limits b default_policy_name"
    "load_active_temp_bans T now a default_policy_name = load_active_temp_bans T now b default_policy_name"
    "load_trusted_cidrs T a default_policy_name = load_trusted_cidrs T b default_policy_name"
    using assms
    unfolding same_policy_tables_def load_firewall_rules_def active_rules_def load_geo_countries_def active_countries_def
      load_threat_sources_def active_sources_def load_dynamic_defense_def policy_defense_def
      load_dynamic_rate_limits_def active_limits_def load_active_temp_bans_def bans load_trusted_cidrs_def active_trusted_def
    by simp_all
qed

lemma same_persisted_threats:
  assumes "same_policy_tables a b" "set names = tsr_name ` set (active_sources b)"
  shows "load_persisted_threat_prefixes N T J a default_policy_name names =
    load_persisted_threat_prefixes N T J b default_policy_name names"
proof -
  have "active_sources a = active_sources b" using assms(1) by (simp add: same_policy_tables_def)
  then have "source_prefix_rows (set names) a = source_prefix_rows (set names) b"
    using assms by (simp add: same_policy_tables_def)
  then show ?thesis by (simp add: load_persisted_threat_prefixes_def source_prefix_rows_def)
qed

lemma load_policy_cong:
  assumes same: "\<And>k. same_policy_tables (dbs k) db" and v: "latest_version (dbs 0) = latest_version db"
  shows "load_policy_with_geo_prefixes N T J now dbs default_policy_name include =
    load_policy_with_geo_prefixes N T J now (\<lambda>_. db) default_policy_name include"
proof -
  have ver: "load_policy_version (dbs 0) default_policy_name = load_policy_version db default_policy_name"
    using v by (simp add: load_policy_version_def latest_version_def)
  note l = same_loads [OF same]
  have geo: "load_geo_prefixes N T J (dbs 3) (map gc_country cs) include = load_geo_prefixes N T J db (map gc_country cs) include"
    if "load_geo_countries db default_policy_name = Inr cs" for cs
    using traverse_cong [of "map gc_country cs" "country_prefixes N T J (dbs 3)" "country_prefixes N T J db"]
      loaded_country_lists [OF same that] by (simp add: load_geo_prefixes_def load_persisted_geo_prefixes_def)
  have thr: "load_persisted_threat_prefixes N T J (dbs 5) default_policy_name (map ts_name ss) =
      load_persisted_threat_prefixes N T J db default_policy_name (map ts_name ss)"
    if "load_threat_sources db default_policy_name = Inr ss" for ss
    using loaded_source_names [OF that] by (intro same_persisted_threats [OF same]) (metis list.set_map)
  show ?thesis
    unfolding load_policy_with_geo_prefixes_def Let_def ver l
    by (cases "load_geo_countries db default_policy_name"; cases "load_threat_sources db default_policy_name")
       (simp_all add: geo thr)
qed

section \<open>Histories\<close>

text \<open>
  A history of the database under the discipline every writer keeps: the version never falls, and
  the view only changes together with it.
\<close>

definition versioned_history :: "(nat \<Rightarrow> firewall_db) \<Rightarrow> bool" where
  "versioned_history h \<longleftrightarrow> (\<forall>s t. s \<le> t \<longrightarrow>
     sint (latest_version (h s)) \<le> sint (latest_version (h t)) \<and>
     (latest_version (h s) = latest_version (h t) \<longrightarrow> same_policy_tables (h s) (h t)))"

text \<open>One write: the view stays, or the version goes up by one.\<close>

definition versioned_write :: "firewall_db \<Rightarrow> firewall_db \<Rightarrow> bool" where
  "versioned_write a b \<longleftrightarrow>
     latest_version b = latest_version a \<and> same_policy_tables a b \<or>
     latest_version b = latest_version a + 1"

lemma history_between:
  assumes h: "versioned_history h" and st: "s \<le> u" "u \<le> t" and v: "latest_version (h s) = latest_version (h t)"
  shows "same_policy_tables (h u) (h t)" "latest_version (h u) = latest_version (h t)"
proof -
  have "sint (latest_version (h s)) \<le> sint (latest_version (h u))"
    "sint (latest_version (h u)) \<le> sint (latest_version (h t))"
    using h st unfolding versioned_history_def by blast+
  then have "sint (latest_version (h u)) = sint (latest_version (h t))" using v by simp
  then show e: "latest_version (h u) = latest_version (h t)" by (rule signed_word_eqI)
  show "same_policy_tables (h u) (h t)" using h st(2) e unfolding versioned_history_def by blast
qed

lemma sint_succ:
  assumes "sint w < 2 ^ 63 - 1"
  shows "sint (w + 1 :: i64) = sint w + 1"
proof -
  have "- (2 ^ 63) \<le> sint w" using sint_greater_eq [of w] by simp
  then have "signed_take_bit 63 (sint w + 1) = sint w + 1"
    using assms by (intro signed_take_bit_int_eq_self) simp_all
  then show ?thesis by (simp add: sint_word_ariths)
qed

lemma versioned_history_writes:
  assumes w: "\<And>k. versioned_write (h k) (h (Suc k))" and b: "\<And>k. sint (latest_version (h k)) < 2 ^ 63 - 1"
  shows "versioned_history h"
proof -
  have mono: "sint (latest_version (h s)) \<le> sint (latest_version (h (s + d)))" for s d
  proof (induction d)
    case (Suc d)
    have "sint (latest_version (h (s + d))) \<le> sint (latest_version (h (Suc (s + d))))"
      using w [of "s + d"] sint_succ [OF b [of "s + d"]] by (auto simp: versioned_write_def)
    then show ?case using Suc by simp
  qed simp
  have same: "latest_version (h s) = latest_version (h (s + d)) \<Longrightarrow> same_policy_tables (h s) (h (s + d))" for s d
  proof (induction d)
    case (Suc d)
    have "sint (latest_version (h (s + d))) = sint (latest_version (h s))"
      "sint (latest_version (h (Suc (s + d)))) = sint (latest_version (h s))"
      using Suc.prems mono [of s d] mono [of "s + d" 1] by simp_all
    then have "latest_version (h (s + d)) = latest_version (h s)" "latest_version (h (Suc (s + d))) \<noteq> latest_version (h (s + d)) + 1"
      using sint_succ [OF b [of "s + d"]] by (auto intro: signed_word_eqI)
    then show ?case
      using Suc.IH w [of "s + d"] same_policy_tables_trans unfolding versioned_write_def by (metis add_Suc_right)
  qed simp
  show ?thesis unfolding versioned_history_def using mono same by (metis le_add_diff_inverse)
qed

end
