(* ===== verification/Xds_State.thy ===== *)
theory Xds_State
  imports Policy_View Refresh_Gate Cover_Compaction "HOL-Library.Multiset"
begin

text \<open>
  What the control plane pushes to its agents: the runtime trusted CIDRs
  (\<^verbatim>\<open>xds/runtime_cidrs.rs\<close>, \<^verbatim>\<open>runtime_cidrs/\<close>), policy updates (\<^verbatim>\<open>xds/state/snapshot.rs\<close>,
  \<^verbatim>\<open>xds/fetch.rs\<close>), the push loop of one stream (\<^verbatim>\<open>xds/policy_stream.rs\<close>,
  \<^verbatim>\<open>policy_stream/drop_monitor.rs\<close>) and the registry of drop-event subscriptions
  (\<^verbatim>\<open>xds/drop_events/subscriptions.rs\<close>). The JSON form of a snapshot is the parameter
  \<open>snapshot_codec\<close>.
\<close>

section \<open>Runtime trusted CIDRs\<close>

definition cidr_covers :: "ipnet_lib \<Rightarrow> ipnet \<Rightarrow> ipnet \<Rightarrow> bool" where
  "cidr_covers N cover cidr =
     (if cover = cidr \<or> net_prefix_len cover > net_prefix_len cidr then False
      else if is_ipv4 (net_addr cover) = is_ipv4 (net_addr cidr)
      then net_contains N cover (net_network N cidr) else False)"

record cidr_compaction =
  cx_cidrs :: "ipnet list"
  cx_covered :: nat

definition compact_covered_cidrs :: "ipnet_lib \<Rightarrow> ipnet list \<Rightarrow> cidr_compaction" where
  "compact_covered_cidrs N cidrs =
     (let compacted = compact_by (cidr_covers N) cidrs in
      \<lparr>cx_cidrs = compacted, cx_covered = length cidrs - length compacted\<rparr>)"

definition net_text_of :: "ipnet \<Rightarrow> string" where
  "net_text_of n = cidr_text (net_addr n) (net_prefix_len n)"

definition cidr_fingerprint :: "ipnet list \<Rightarrow> string" where
  "cidr_fingerprint cidrs = join_with '','' (sort (map net_text_of cidrs))"

definition normalize_runtime_trusted_cidrs :: "net_text \<Rightarrow> string list \<Rightarrow> ipnet list res" where
  "normalize_runtime_trusted_cidrs T values =
     mapE (\<lambda>cs. snd (unique_by id {} cs))
       (traverse (parse_cidr T)
          (filter (\<lambda>v. v \<noteq> []) (map trim (concat (map (split_on (\<lambda>c. c = CHR '','')) values)))))"

record runtime_snapshot =
  rt_configured :: "ipnet list"
  rt_all :: "ipnet list"
  rt_inject :: "ipnet list"
  rt_covered :: nat

record k8s_discovery_cache =
  kc_cidrs :: "ipnet list"
  kc_initialized :: bool
  kc_service_cidr_partial :: bool
  kc_last_refresh_failed :: bool

definition default_k8s_cache :: k8s_discovery_cache where
  "default_k8s_cache =
     \<lparr>kc_cidrs = [], kc_initialized = False, kc_service_cidr_partial = False, kc_last_refresh_failed = False\<rparr>"

text \<open>\<open>rc_discovery\<close> tells whether Kubernetes discovery is configured.\<close>

record runtime_trusted_cidrs =
  rc_configured :: "ipnet list"
  rc_discovery :: bool
  rc_cache :: k8s_discovery_cache

definition runtime_enabled :: "runtime_trusted_cidrs \<Rightarrow> bool" where
  "runtime_enabled r \<longleftrightarrow> rc_configured r \<noteq> [] \<or> rc_discovery r"

definition current_snapshot :: "ipnet_lib \<Rightarrow> runtime_trusted_cidrs \<Rightarrow> runtime_snapshot" where
  "current_snapshot N r =
     (let (seen, configured) = unique_by id {} (rc_configured r) in
      if \<not> rc_discovery r then
        (let c = compact_covered_cidrs N configured in
         \<lparr>rt_configured = cx_cidrs c, rt_all = cx_cidrs c, rt_inject = cx_cidrs c, rt_covered = cx_covered c\<rparr>)
      else
        (let cidrs = configured @ snd (unique_by id seen (kc_cidrs (rc_cache r)));
             conf = compact_covered_cidrs N configured;
             c = compact_covered_cidrs N cidrs
         in \<lparr>rt_configured = cx_cidrs conf, rt_all = cx_cidrs c, rt_inject = cx_cidrs c, rt_covered = cx_covered c\<rparr>))"

text \<open>A discovery answer: the networks and whether the service networks are partial.\<close>

definition refresh_k8s_discovery_cache ::
    "(ipnet list \<times> bool) res \<Rightarrow> k8s_discovery_cache \<Rightarrow> k8s_discovery_cache res" where
  "refresh_k8s_discovery_cache discovered cache =
     mapE (\<lambda>(cidrs, partial).
       cache\<lparr>kc_cidrs := cidrs, kc_initialized := True, kc_service_cidr_partial := partial,
             kc_last_refresh_failed := False\<rparr>) discovered"

definition mark_k8s_discovery_failed :: "k8s_discovery_cache \<Rightarrow> k8s_discovery_cache" where
  "mark_k8s_discovery_failed cache = cache\<lparr>kc_last_refresh_failed := True\<rparr>"

text \<open>One turn of the watch loop: what the watch reported, and what a refresh would discover.\<close>

definition k8s_watch_turn ::
    "bool res \<Rightarrow> (ipnet list \<times> bool) res \<Rightarrow> k8s_discovery_cache \<Rightarrow> k8s_discovery_cache" where
  "k8s_watch_turn outcome discovered cache =
     (case outcome of
        Inr True \<Rightarrow> (case refresh_k8s_discovery_cache discovered cache of
                      Inr c \<Rightarrow> c | Inl e \<Rightarrow> mark_k8s_discovery_failed cache)
      | Inr False \<Rightarrow> cache
      | Inl e \<Rightarrow> mark_k8s_discovery_failed cache)"

definition compact_runtime_trusted_cidrs_with_snapshot ::
    "ipnet_lib \<Rightarrow> policy_snapshot \<Rightarrow> runtime_snapshot \<Rightarrow> runtime_snapshot" where
  "compact_runtime_trusted_cidrs_with_snapshot N snapshot runtime =
     (let static_cidrs = map tc_cidr (ps_trusted_cidrs snapshot) in
      if rt_all runtime = [] \<or> static_cidrs = [] then runtime
      else (let compacted = compact_covered_cidrs N (static_cidrs @ rt_all runtime);
                effective = filter (\<lambda>c. c \<notin> set static_cidrs) (cx_cidrs compacted)
            in \<lparr>rt_configured = rt_configured runtime, rt_all = effective, rt_inject = effective,
                rt_covered = rt_covered runtime + (length (rt_all runtime) - length effective)\<rparr>))"

definition inject_runtime_trusted_cidrs :: "policy_snapshot \<Rightarrow> ipnet list \<Rightarrow> policy_snapshot" where
  "inject_runtime_trusted_cidrs snapshot cidrs =
     snapshot\<lparr>ps_trusted_cidrs := ps_trusted_cidrs snapshot @
       map (\<lambda>c. \<lparr>tc_cidr = c, tc_comment = Some ''runtime xDS trusted CIDR''\<rparr>)
         (snd (unique_by id (set (map tc_cidr (ps_trusted_cidrs snapshot))) cidrs))\<rparr>"

section \<open>Policy updates\<close>

record snapshot_codec =
  sc_show :: "policy_snapshot \<Rightarrow> string"
  sc_parse :: "string \<Rightarrow> policy_snapshot option"

record policy_update =
  pu_version :: i64
  pu_policy_json :: string
  pu_drop_monitor_enabled :: bool
  pu_external_geo_prefixes :: bool
  pu_geo_prefix_version :: i64

record crates =
  cr_net :: ipnet_lib
  cr_text :: net_text
  cr_json :: json_lib
  cr_codec :: snapshot_codec

definition load_policy_snapshot ::
    "crates \<Rightarrow> datetime \<Rightarrow> (nat \<Rightarrow> firewall_db) \<Rightarrow> runtime_snapshot \<Rightarrow> bool \<Rightarrow> policy_snapshot res" where
  "load_policy_snapshot K now dbs runtime external =
     bindE (if external
            then load_policy_without_geo_prefixes (cr_net K) (cr_text K) (cr_json K) now dbs default_policy_name
            else load_policy (cr_net K) (cr_text K) (cr_json K) now dbs default_policy_name) (\<lambda>snapshot.
     Inr (inject_runtime_trusted_cidrs snapshot
       (rt_inject (compact_runtime_trusted_cidrs_with_snapshot (cr_net K) snapshot runtime))))"

definition policy_update_unchanged ::
    "i64 \<Rightarrow> i64 \<Rightarrow> runtime_trusted_cidrs \<Rightarrow> string option \<Rightarrow> string \<Rightarrow> bool" where
  "policy_update_unchanged version current_version runtime current_fp fp \<longleftrightarrow>
     sint version \<le> sint current_version \<and> (\<not> runtime_enabled runtime \<or> current_fp = Some fp)"

definition make_policy_update :: "crates \<Rightarrow> i64 \<Rightarrow> policy_snapshot \<Rightarrow> bool \<Rightarrow> policy_update" where
  "make_policy_update K version snapshot external =
     \<lparr>pu_version = version, pu_policy_json = sc_show (cr_codec K) snapshot,
      pu_drop_monitor_enabled = False, pu_external_geo_prefixes = external,
      pu_geo_prefix_version = (if external then version else 0)\<rparr>"

text \<open>
  The ban cleanup has run before; \<open>dbv\<close> is the state the version query sees and \<open>dbs\<close> those of the
  queries of the policy.
\<close>

definition build_policy_update ::
    "crates \<Rightarrow> datetime \<Rightarrow> firewall_db \<Rightarrow> (nat \<Rightarrow> firewall_db) \<Rightarrow> i64 \<Rightarrow> string option \<Rightarrow>
       runtime_trusted_cidrs \<Rightarrow> bool \<Rightarrow> (policy_update \<times> string) option res" where
  "build_policy_update K now dbv dbs current_version current_fp runtime external =
     (let version = latest_version dbv;
          runtime_cidrs = current_snapshot (cr_net K) runtime;
          fp = cidr_fingerprint (rt_all runtime_cidrs)
      in if policy_update_unchanged version current_version runtime current_fp fp then Inr None
         else bindE (load_policy_snapshot K now dbs runtime_cidrs external) (\<lambda>snapshot.
           Inr (Some (make_policy_update K version snapshot external, fp))))"

definition load_xds_snapshot ::
    "crates \<Rightarrow> datetime \<Rightarrow> (nat \<Rightarrow> firewall_db) \<Rightarrow> runtime_trusted_cidrs \<Rightarrow> bool \<Rightarrow> (policy_snapshot \<times> string) res" where
  "load_xds_snapshot K now dbs runtime include_geo_prefixes =
     (let runtime_cidrs = current_snapshot (cr_net K) runtime;
          fp = cidr_fingerprint (rt_all runtime_cidrs)
      in mapE (\<lambda>s. (s, fp)) (load_policy_snapshot K now dbs runtime_cidrs (\<not> include_geo_prefixes)))"

record fetch_policy_response =
  fp_version :: i64
  fp_unchanged :: bool
  fp_policy_json :: string
  fp_external_geo_prefixes :: bool
  fp_geo_prefix_version :: i64

definition unchanged_policy_response :: "i64 \<Rightarrow> fetch_policy_response" where
  "unchanged_policy_response version =
     \<lparr>fp_version = version, fp_unchanged = True, fp_policy_json = [],
      fp_external_geo_prefixes = False, fp_geo_prefix_version = 0\<rparr>"

definition fetch_policy_response ::
    "crates \<Rightarrow> datetime \<Rightarrow> firewall_db \<Rightarrow> (nat \<Rightarrow> firewall_db) \<Rightarrow> i64 \<Rightarrow> bool \<Rightarrow> runtime_trusted_cidrs \<Rightarrow>
       fetch_policy_response res" where
  "fetch_policy_response K now dbv dbs current_version external runtime =
     (let version = latest_version dbv in
      if sint version \<le> sint current_version \<and> \<not> runtime_enabled runtime
      then Inr (unchanged_policy_response version)
      else bindE (load_xds_snapshot K now dbs runtime (\<not> external)) (\<lambda>(snapshot, fp).
        Inr \<lparr>fp_version = version, fp_unchanged = False, fp_policy_json = sc_show (cr_codec K) snapshot,
             fp_external_geo_prefixes = external,
             fp_geo_prefix_version = (if external then version else 0)\<rparr>))"

section \<open>The push loop of a stream\<close>

text \<open>The channel to the client holds at most eight messages; \<open>ch_closed\<close> is its state.\<close>

record stream_channel =
  ch_queue :: "policy_update res list"
  ch_closed :: bool

definition try_send :: "policy_update res \<Rightarrow> stream_channel \<Rightarrow> bool \<times> stream_channel" where
  "try_send m ch =
     (if ch_closed ch \<or> length (ch_queue ch) \<ge> 8 then (False, ch)
      else (True, ch\<lparr>ch_queue := ch_queue ch @ [m]\<rparr>))"

record policy_stream_cursor =
  pc_version :: i64
  pc_runtime_fingerprint :: "string option"
  pc_drop_monitor_enabled :: bool

definition new_cursor :: "i64 \<Rightarrow> bool \<Rightarrow> policy_stream_cursor" where
  "new_cursor current_version enabled =
     \<lparr>pc_version = current_version, pc_runtime_fingerprint = None, pc_drop_monitor_enabled = enabled\<rparr>"

definition send_policy_update :: "policy_update \<Rightarrow> stream_channel \<Rightarrow> bool \<times> stream_channel" where
  "send_policy_update update ch = try_send (Inr update) ch"

definition send_available_policy_update ::
    "(policy_update \<times> string) option res \<Rightarrow> bool \<Rightarrow> policy_stream_cursor \<times> stream_channel \<Rightarrow>
       bool \<times> policy_stream_cursor \<times> stream_channel" where
  "send_available_policy_update built enabled st =
     (let (cursor, ch) = st in
      case built of
        Inr (Some (update, fp)) \<Rightarrow>
          (let update = update\<lparr>pu_drop_monitor_enabled := enabled\<rparr>;
               (sent, ch) = send_policy_update update ch
           in if \<not> sent then (False, cursor, ch)
              else (True, cursor\<lparr>pc_version := pu_version update, pc_runtime_fingerprint := Some fp,
                                 pc_drop_monitor_enabled := pu_drop_monitor_enabled update\<rparr>, ch))
      | Inr None \<Rightarrow> (True, cursor, ch)
      | Inl e \<Rightarrow> (False, cursor, snd (try_send (Inl e) ch)))"

definition send_drop_monitor_update ::
    "policy_stream_cursor \<Rightarrow> stream_channel \<Rightarrow> bool \<times> stream_channel" where
  "send_drop_monitor_update cursor ch =
     try_send (Inr \<lparr>pu_version = (if sint (pc_version cursor) < 0 then 0 else pc_version cursor),
        pu_policy_json = [], pu_drop_monitor_enabled = pc_drop_monitor_enabled cursor,
        pu_external_geo_prefixes = False, pu_geo_prefix_version = 0\<rparr>) ch"

definition send_drop_monitor_change ::
    "bool \<Rightarrow> policy_stream_cursor \<times> stream_channel \<Rightarrow> bool \<times> policy_stream_cursor \<times> stream_channel" where
  "send_drop_monitor_change enabled st =
     (let (cursor, ch) = st in
      if enabled = pc_drop_monitor_enabled cursor then (True, cursor, ch)
      else (let cursor = cursor\<lparr>pc_drop_monitor_enabled := enabled\<rparr>;
                (sent, ch) = send_drop_monitor_update cursor ch
            in (sent, cursor, ch)))"

section \<open>Drop-event subscriptions\<close>

definition normalize_drop_node_filter :: "string option \<Rightarrow> string option" where
  "normalize_drop_node_filter node_id =
     (case node_id of None \<Rightarrow> None
      | Some v \<Rightarrow> (let v = trim v in if v = [] \<or> to_lower v = ''all'' then None else Some v))"

record drop_registry =
  dr_subscriptions :: "string option \<rightharpoonup> nat"
  dr_change_version :: nat

definition new_registry :: drop_registry where
  "new_registry = \<lparr>dr_subscriptions = (\<lambda>_. None), dr_change_version = 0\<rparr>"

definition notify_changed :: "drop_registry \<Rightarrow> drop_registry" where
  "notify_changed r = r\<lparr>dr_change_version := dr_change_version r + 1\<rparr>"

definition registry_add :: "string option \<Rightarrow> drop_registry \<Rightarrow> string option \<times> drop_registry" where
  "registry_add node_id r =
     (let node_id = normalize_drop_node_filter node_id in
      (node_id, notify_changed
         (r\<lparr>dr_subscriptions := (dr_subscriptions r)(node_id \<mapsto> unwrap_or 0 (dr_subscriptions r node_id) + 1)\<rparr>)))"

definition registry_remove :: "string option \<Rightarrow> drop_registry \<Rightarrow> drop_registry" where
  "registry_remove node_id r =
     notify_changed (case dr_subscriptions r node_id of
        None \<Rightarrow> r
      | Some n \<Rightarrow>
          (let n = n - 1 in
           if n = 0 then r\<lparr>dr_subscriptions := (dr_subscriptions r)(node_id := None)\<rparr>
           else r\<lparr>dr_subscriptions := (dr_subscriptions r)(node_id \<mapsto> n)\<rparr>))"

definition enabled_for_node :: "drop_registry \<Rightarrow> string \<Rightarrow> bool" where
  "enabled_for_node r node_id \<longleftrightarrow>
     unwrap_or 0 (dr_subscriptions r None) > 0 \<or> unwrap_or 0 (dr_subscriptions r (Some node_id)) > 0"

section \<open>Compaction loses no address of truncated networks\<close>

definition net_addresses :: "ipnet \<Rightarrow> ipaddr set" where
  "net_addresses n = {ip. in_prefix (net_addr n) (unat (net_prefix_len n)) ip}"

definition truncated_net :: "ipnet \<Rightarrow> bool" where
  "truncated_net n \<longleftrightarrow> canonical (net_addr n) (unat (net_prefix_len n))"

lemma truncated_valid: "truncated_net n \<Longrightarrow> valid_net n"
  by (simp add: truncated_net_def canonical_def valid_net_def)

context ipnet_spec
begin

lemma cidr_covers_iff:
  assumes "valid_net c" "valid_net d"
  shows "cidr_covers N c d \<longleftrightarrow> c \<noteq> d \<and>
    net_covers (net_addr c) (unat (net_prefix_len c)) (net_addr d) (unat (net_prefix_len d))"
proof -
  have "in_prefix (net_addr c) (unat (net_prefix_len c)) (net_network N d) \<longleftrightarrow>
      in_prefix (net_addr c) (unat (net_prefix_len c)) (net_addr d)"
    if "unat (net_prefix_len c) \<le> unat (net_prefix_len d)"
    using in_prefix_mono [OF network_in_prefix [OF assms(2)] that] in_prefix_sym in_prefix_trans by blast
  then show ?thesis
    by (auto simp: cidr_covers_def contains_eq [OF assms(1)] net_covers_def word_less_nat_alt
        dest: in_prefix_family)
qed

lemma net_cover_meaning: "cover_meaning truncated_net (cidr_covers N) net_addresses"
proof
  fix x y z :: ipnet
  show "\<not> cidr_covers N x x" by (simp add: cidr_covers_def)
  assume w: "truncated_net x" "truncated_net y"
  note xy = cidr_covers_iff [OF truncated_valid [OF w(1)] truncated_valid [OF w(2)]]
  show "cidr_covers N x y \<Longrightarrow> net_addresses y \<subseteq> net_addresses x"
    using xy net_covers_in_prefix by (auto simp: net_addresses_def)
  assume z: "truncated_net z"
  note yz = cidr_covers_iff [OF truncated_valid [OF w(2)] truncated_valid [OF z]]
  note xz = cidr_covers_iff [OF truncated_valid [OF w(1)] truncated_valid [OF z]]
  assume c: "cidr_covers N x y" "cidr_covers N y z"
  have "x \<noteq> z"
  proof
    assume "x = z"
    then have "net_addr x = net_addr y \<and> unat (net_prefix_len x) = unat (net_prefix_len y)"
      using c w xy yz by (intro net_covers_antisym) (auto simp: truncated_net_def)
    then have "x = y" by (cases x; cases y) (simp add: word_unat_eq_iff)
    then show False using c xy by simp
  qed
  then show "cidr_covers N x z" using c xy yz xz net_covers_trans by blast
qed

end

interpretation ref_cidr: cover_meaning truncated_net "cidr_covers ref_ipnet" net_addresses
  by (rule ref_net.net_cover_meaning)

lemma compacted_addresses:
  assumes "ipnet_spec N" "\<And>n. n \<in> set cidrs \<Longrightarrow> truncated_net n"
  shows "(\<Union>n\<in>set (cx_cidrs (compact_covered_cidrs N cidrs)). net_addresses n) = (\<Union>n\<in>set cidrs. net_addresses n)"
  using cover_meaning.compact_meaning [OF ipnet_spec.net_cover_meaning [OF assms(1)] assms(2)]
  by (simp add: compact_covered_cidrs_def Let_def)

lemma set_unique_id [simp]: "set (snd (unique_by id seen xs)) = set xs - seen"
  using snd_unique_by_keys [of id seen xs] by simp

definition runtime_nets :: "runtime_trusted_cidrs \<Rightarrow> ipnet set" where
  "runtime_nets r = set (rc_configured r) \<union> (if rc_discovery r then set (kc_cidrs (rc_cache r)) else {})"

lemma current_snapshot_nets:
  "set (rt_all (current_snapshot N r)) \<subseteq> runtime_nets r"
  "rt_inject (current_snapshot N r) = rt_all (current_snapshot N r)"
  using set_compact_by_subset [of "cidr_covers N"]
  by (fastforce simp: current_snapshot_def Let_def compact_covered_cidrs_def runtime_nets_def split_beta)+

lemma current_snapshot_addresses:
  assumes "ipnet_spec N" "\<And>n. n \<in> runtime_nets r \<Longrightarrow> truncated_net n"
  shows "(\<Union>n\<in>set (rt_all (current_snapshot N r)). net_addresses n) = (\<Union>n\<in>runtime_nets r. net_addresses n)"
proof (cases "rc_discovery r")
  case False
  have "rt_all (current_snapshot N r) = cx_cidrs (compact_covered_cidrs N (snd (unique_by id {} (rc_configured r))))"
    using False by (simp add: current_snapshot_def Let_def split_beta)
  then show ?thesis
    using compacted_addresses [OF assms(1), of "snd (unique_by id {} (rc_configured r))"] assms(2) False
    by (simp add: runtime_nets_def)
next
  case True
  have "rt_all (current_snapshot N r) = cx_cidrs (compact_covered_cidrs N
      (snd (unique_by id {} (rc_configured r)) @
       snd (unique_by id (set (rc_configured r)) (kc_cidrs (rc_cache r)))))"
    using True by (simp add: current_snapshot_def Let_def split_beta)
  moreover have "set (snd (unique_by id {} (rc_configured r)) @
       snd (unique_by id (set (rc_configured r)) (kc_cidrs (rc_cache r)))) = runtime_nets r"
    using True by (auto simp: runtime_nets_def)
  ultimately show ?thesis using compacted_addresses [OF assms(1)] assms(2) by metis
qed

lemma merged_addresses:
  assumes N: "ipnet_spec N" and st: "\<And>t. t \<in> set (ps_trusted_cidrs s) \<Longrightarrow> valid_net (tc_cidr t)"
    and rt: "\<And>n. n \<in> set (rt_all r) \<Longrightarrow> truncated_net n" and inj: "rt_inject r = rt_all r"
  shows "(\<Union>n\<in>set (rt_all r). net_addresses n) \<subseteq>
    (\<Union>t\<in>set (ps_trusted_cidrs s). net_addresses (tc_cidr t)) \<union>
    (\<Union>n\<in>set (rt_inject (compact_runtime_trusted_cidrs_with_snapshot N s r)). net_addresses n)"
proof (rule UN_least)
  fix n
  assume n: "n \<in> set (rt_all r)"
  let ?st = "map tc_cidr (ps_trusted_cidrs s)" and ?c = "compact_runtime_trusted_cidrs_with_snapshot N s r"
  show "net_addresses n \<subseteq> (\<Union>t\<in>set (ps_trusted_cidrs s). net_addresses (tc_cidr t)) \<union>
    (\<Union>n\<in>set (rt_inject ?c). net_addresses n)"
  proof (cases "ps_trusted_cidrs s = []")
    case True
    then have "?c = r" by (simp add: compact_runtime_trusted_cidrs_with_snapshot_def Let_def)
    then show ?thesis using n inj by auto
  next
    case False
    then have c: "rt_inject ?c = filter (\<lambda>c. c \<notin> set ?st) (compact_by (cidr_covers N) (?st @ rt_all r))"
      using n by (auto simp: compact_runtime_trusted_cidrs_with_snapshot_def Let_def compact_covered_cidrs_def)
    note cm = ipnet_spec.net_cover_meaning [OF N]
    note sc = cover_meaning.axioms(1) [OF cm]
    obtain m where m: "m \<in> set (rt_all r)" "m = n \<or> cidr_covers N m n" "\<forall>y\<in>set (rt_all r). \<not> cidr_covers N y m"
      using strict_cover.maximal_above [OF sc, of "set (rt_all r)" n] rt n by auto
    have sub: "net_addresses n \<subseteq> net_addresses m" using m cover_meaning.covers_meaning [OF cm] rt n by blast
    consider (static) t where "t \<in> set ?st" "t = m \<or> cidr_covers N t m"
      | (free) "m \<notin> set ?st" "\<forall>y\<in>set (?st @ rt_all r). \<not> cidr_covers N y m"
      using m(3) by auto
    then show ?thesis
    proof cases
      case static
      then obtain t' where t': "t' \<in> set (ps_trusted_cidrs s)" "t = tc_cidr t'" by auto
      have "net_addresses m \<subseteq> net_addresses t"
        using static(2) ipnet_spec.cidr_covers_iff [OF N] st [OF t'(1)] t'(2) truncated_valid [OF rt [OF m(1)]]
          net_covers_in_prefix by (auto simp: net_addresses_def)
      then show ?thesis using sub t' by blast
    next
      case free
      then have "m \<in> set (rt_inject ?c)" unfolding c using m(1) by (auto intro: compact_byI)
      then show ?thesis using sub by blast
    qed
  qed
qed

lemma injected_addresses:
  "(\<Union>t\<in>set (ps_trusted_cidrs s). net_addresses (tc_cidr t)) \<union> (\<Union>n\<in>set cidrs. net_addresses n) \<subseteq>
     (\<Union>t\<in>set (ps_trusted_cidrs (inject_runtime_trusted_cidrs s cidrs)). net_addresses (tc_cidr t))"
  by (auto simp: inject_runtime_trusted_cidrs_def image_iff)

lemma loaded_trusted_valid:
  assumes "net_text_spec T" "load_policy_with_geo_prefixes N T J now dbs name include = Inr s"
    and "t \<in> set (ps_trusted_cidrs s)"
  shows "valid_net (tc_cidr t)"
proof -
  obtain r where r: "load_trusted_cidrs T r name = Inr (ps_trusted_cidrs s)"
    using assms(2) by (auto simp: load_policy_with_geo_prefixes_def Let_def res_simps)
  then obtain row where "parse_trusted_cidr T row = Inr t"
    using traverse_set_back assms(3) unfolding load_trusted_cidrs_def by fastforce
  then show ?thesis
    using net_text_spec.parse_valid [OF assms(1)] by (auto simp: parse_trusted_cidr_def parse_cidr_def res_simps)
qed

section \<open>Updates against a changing database\<close>

lemma load_snapshot_cong:
  assumes "\<And>k. same_policy_tables (dbs k) db" "latest_version (dbs 0) = latest_version db"
  shows "load_policy_snapshot K now dbs r ext = load_policy_snapshot K now (\<lambda>_. db) r ext"
  unfolding load_policy_snapshot_def load_policy_def load_policy_without_geo_prefixes_def
    load_policy_cong [where dbs = dbs and db = db, OF assms] ..

lemma built_version:
  "build_policy_update K now dbv dbs cur fp rt ext = Inr (Some (u, f)) \<Longrightarrow>
     pu_version u = latest_version dbv \<and> f = cidr_fingerprint (rt_all (current_snapshot (cr_net K) rt)) \<and>
     (\<exists>s. load_policy_snapshot K now dbs (current_snapshot (cr_net K) rt) ext = Inr s \<and>
          u = make_policy_update K (latest_version dbv) s ext)"
  by (auto simp: build_policy_update_def Let_def bindE_Inr_iff make_policy_update_def split: if_splits)

lemma loaded_snapshot_version:
  "load_policy_snapshot K now (\<lambda>_. db) r ext = Inr s \<Longrightarrow> ps_version s = latest_version db"
  by (auto simp: load_policy_snapshot_def load_policy_def load_policy_without_geo_prefixes_def
      load_policy_with_geo_prefixes_def res_simps inject_runtime_trusted_cidrs_def load_policy_version_def
      latest_version_def Let_def split: if_splits)

section \<open>The registry counts the live subscriptions\<close>

inductive registry_reach :: "drop_registry \<Rightarrow> string option multiset \<Rightarrow> bool" where
  fresh: "registry_reach new_registry {#}"
| subscribed: "registry_reach r live \<Longrightarrow> registry_add node_id r = (k, r') \<Longrightarrow> registry_reach r' (add_mset k live)"
| dropped: "registry_reach r live \<Longrightarrow> k \<in># live \<Longrightarrow> registry_reach (registry_remove k r) (live - {#k#})"

lemma count_option_add:
  "(\<lambda>x. if x \<in># add_mset k live then Some (count (add_mset k live) x) else None) =
     (\<lambda>x. if x \<in># live then Some (count live x) else None)(k \<mapsto> count live k + 1)"
  by (rule ext) simp

lemma count_option_remove:
  assumes "k \<in># live"
  shows "(\<lambda>x. if x \<in># live - {#k#} then Some (count (live - {#k#}) x) else None) =
     (\<lambda>x. if x \<in># live then Some (count live x) else None)
       (k := if count live k - 1 = 0 then None else Some (count live k - 1))"
proof (rule ext)
  fix x
  have "x \<in># live - {#k#} \<longleftrightarrow> count (live - {#k#}) x > 0" by (rule count_greater_zero_iff [symmetric])
  then show "(if x \<in># live - {#k#} then Some (count (live - {#k#}) x) else None) =
     ((\<lambda>x. if x \<in># live then Some (count live x) else None)
       (k := if count live k - 1 = 0 then None else Some (count live k - 1))) x"
    by (cases "x = k") (simp_all split: if_splits)
qed

lemma registry_counts:
  "registry_reach r live \<Longrightarrow> dr_subscriptions r = (\<lambda>k. if k \<in># live then Some (count live k) else None)"
proof (induction rule: registry_reach.induct)
  case fresh
  show ?case by (simp add: new_registry_def)
next
  case (subscribed r live node_id k r')
  have k: "k = normalize_drop_node_filter node_id"
    and r': "dr_subscriptions r' = (dr_subscriptions r)(k \<mapsto> unwrap_or 0 (dr_subscriptions r k) + 1)"
    using subscribed.hyps(2) by (auto simp: registry_add_def notify_changed_def Let_def)
  have "unwrap_or 0 (dr_subscriptions r k) = count live k"
    by (simp add: subscribed.IH not_in_iff)
  then show ?case unfolding count_option_add r' by (simp only: subscribed.IH)
next
  case (dropped r live k)
  have s: "dr_subscriptions r k = Some (count live k)" using dropped by simp
  have "dr_subscriptions (registry_remove k r) =
      (dr_subscriptions r)(k := if count live k - 1 = 0 then None else Some (count live k - 1))"
    unfolding registry_remove_def s by (simp add: notify_changed_def Let_def)
  then show ?case unfolding count_option_remove [OF dropped.hyps(2)] dropped.IH .
qed

lemma registry_notifies:
  "registry_add n r = (k, r') \<Longrightarrow> dr_change_version r' = dr_change_version r + 1"
  "dr_change_version (registry_remove k r) = dr_change_version r + 1"
  by (auto simp: registry_add_def registry_remove_def notify_changed_def Let_def split: option.splits)

end
