(* ===== verification/Geo_Pages.thy ===== *)
theory Geo_Pages
  imports Xds_State
begin

text \<open>
  Country prefixes outside the policy message: the page reader (\<^verbatim>\<open>geo/persisted/page.rs\<close>), the request
  handler (\<^verbatim>\<open>xds/fetch/geo_prefixes.rs\<close>) and the agent's loop over the pages
  (\<^verbatim>\<open>xds/client/geo_prefixes.rs\<close>). The lemmas show that the pages put together are the stored lists in
  full and that the loop ends.
\<close>

section \<open>One page\<close>

record geo_prefix_page =
  gpp_prefixes :: "geo_prefix list"
  gpp_next_page_token :: "string option"

record page_builder =
  pb_prefixes :: "geo_prefix list"
  pb_next_page_token :: "string option"
  pb_page_size :: nat

definition new_page_builder :: "nat \<Rightarrow> page_builder" where
  "new_page_builder page_size =
     \<lparr>pb_prefixes = [], pb_next_page_token = None, pb_page_size = page_size\<rparr>"

definition page_token_text :: "nat \<Rightarrow> nat \<Rightarrow> string" where
  "page_token_text country_index prefix_offset = dec_nat country_index @ CHR '':'' # dec_nat prefix_offset"

definition collect_prefix :: "ipnet_lib \<Rightarrow> ipnet \<Rightarrow> nat \<Rightarrow> nat \<Rightarrow> u16 \<Rightarrow> page_builder \<Rightarrow> page_builder" where
  "collect_prefix N net country_index prefix_offset code b =
     (if length (pb_prefixes b) < pb_page_size b
      then b\<lparr>pb_prefixes := pb_prefixes b @ [geo_prefix_from_net N net code]\<rparr>
      else if pb_next_page_token b = None
      then b\<lparr>pb_next_page_token := Some (page_token_text country_index prefix_offset)\<rparr>
      else b)"

text \<open>A malformed list is logged by the caller; what was delivered before stays on the page.\<close>

definition collect_country ::
    "ipnet_lib \<Rightarrow> net_text \<Rightarrow> json_lib \<Rightarrow> geo_ip_prefix_row \<Rightarrow> nat \<Rightarrow> nat \<Rightarrow> u16 \<Rightarrow> page_builder \<Rightarrow> page_builder" where
  "collect_country N T J row country_index skip_until code b =
     fst (fold (\<lambda>net (b, offset).
         (if skip_until \<le> offset then collect_prefix N net country_index offset code b else b, offset + 1))
       (fst (for_each_persisted_cidr T J row)) (b, 0))"

definition collect_country_page ::
    "ipnet_lib \<Rightarrow> net_text \<Rightarrow> json_lib \<Rightarrow> firewall_db \<Rightarrow> string \<Rightarrow> nat \<Rightarrow> nat \<Rightarrow> nat \<Rightarrow> page_builder \<Rightarrow>
       page_builder res" where
  "collect_country_page N T J db country country_index start_country_index start_prefix_offset page =
     bindE (normalize_country country) (\<lambda>country.
     bindE (encode_country country) (\<lambda>code.
     case load_geo_ip_prefix_row db country of
       None \<Rightarrow> Inr page
     | Some row \<Rightarrow>
         (let skip_until = (if country_index = start_country_index then start_prefix_offset else 0)
          in Inr (collect_country N T J row country_index skip_until code page))))"

definition page_finish :: "page_builder \<Rightarrow> geo_prefix_page" where
  "page_finish b = \<lparr>gpp_prefixes = pb_prefixes b, gpp_next_page_token = pb_next_page_token b\<rparr>"

definition split_once :: "char \<Rightarrow> string \<Rightarrow> (string \<times> string) option" where
  "split_once c s =
     (case dropWhile (\<lambda>x. x \<noteq> c) s of [] \<Rightarrow> None | _ # rest \<Rightarrow> Some (takeWhile (\<lambda>x. x \<noteq> c) s, rest))"

abbreviation usize_bound :: nat where "usize_bound \<equiv> 2 ^ 64"

definition parse_geo_prefix_page_token :: "string \<Rightarrow> (nat \<times> nat) res" where
  "parse_geo_prefix_page_token page_token =
     (let t = trim page_token in
      if t = [] then Inr (0, 0)
      else case split_once CHR '':'' t of
        None \<Rightarrow> Inl (BadRequest ''invalid GeoIP page token'')
      | Some (i, o') \<Rightarrow>
          bindE (ok_or (BadRequest ''invalid GeoIP page token country index'') (parse_uint usize_bound i)) (\<lambda>i.
          bindE (ok_or (BadRequest ''invalid GeoIP page token prefix offset'') (parse_uint usize_bound o')) (\<lambda>o'.
          Inr (i, o'))))"

text \<open>The loop over the countries from the start index on; country \<open>i\<close> is read in state \<open>dbs i\<close>.\<close>

fun page_countries ::
    "ipnet_lib \<Rightarrow> net_text \<Rightarrow> json_lib \<Rightarrow> (nat \<Rightarrow> firewall_db) \<Rightarrow> nat \<Rightarrow> nat \<Rightarrow> (nat \<times> string) list \<Rightarrow>
       page_builder \<Rightarrow> page_builder res" where
  "page_countries N T J dbs start skip [] page = Inr page"
| "page_countries N T J dbs start skip ((i, country) # rest) page =
     bindE (collect_country_page N T J (dbs i) country i start skip page) (\<lambda>page.
       if pb_next_page_token page \<noteq> None then Inr page
       else page_countries N T J dbs start skip rest page)"

definition load_persisted_geo_prefix_page ::
    "ipnet_lib \<Rightarrow> net_text \<Rightarrow> json_lib \<Rightarrow> (nat \<Rightarrow> firewall_db) \<Rightarrow> string list \<Rightarrow> string \<Rightarrow> nat \<Rightarrow>
       geo_prefix_page res" where
  "load_persisted_geo_prefix_page N T J dbs countries page_token page_size =
     bindE (parse_geo_prefix_page_token page_token) (\<lambda>(start, skip).
       mapE page_finish (page_countries N T J dbs start skip (drop start (enumerate 0 countries))
         (new_page_builder (max 1 page_size))))"

section \<open>The request\<close>

definition enabled_geo_countries :: "firewall_db \<Rightarrow> string list" where
  "enabled_geo_countries db =
     map gcr_country (order_by gcr_country
       (filter (\<lambda>r. gcr_policy_name r = default_policy_name \<and> gcr_enabled r) (db_geo_countries db)))"

definition geo_prefix_page_size_default :: u32 where "geo_prefix_page_size_default = 4096"
definition max_geo_prefix_page_size :: u32 where "max_geo_prefix_page_size = 10000"

definition geo_prefix_page_size :: "u32 \<Rightarrow> nat" where
  "geo_prefix_page_size requested =
     (if requested = 0 then unat geo_prefix_page_size_default
      else unat (min requested max_geo_prefix_page_size))"

definition ensure_geo_prefix_version_current :: "i64 \<Rightarrow> i64 \<Rightarrow> unit res" where
  "ensure_geo_prefix_version_current requested current =
     (if 0 < sint requested \<and> requested \<noteq> current
      then Inl (ConflictErr ''GeoIP prefix version changed; refetch policy'') else Inr ())"

record proto_geo_prefix =
  pgp_cidr :: string
  pgp_country :: string

record fetch_geo_prefixes_reply =
  fgp_version :: i64
  fgp_prefixes :: "proto_geo_prefix list"
  fgp_next_page_token :: string

definition proto_geo_prefix_of :: "geo_prefix \<Rightarrow> proto_geo_prefix res" where
  "proto_geo_prefix_of p =
     mapE (\<lambda>c. \<lparr>pgp_cidr = geo_prefix_to_cidr p, pgp_country = c\<rparr>) (decode_country (gx_country p))"

text \<open>State 0 answers the version query, state 1 the country query, state \<open>i + 2\<close> the \<open>i\<close>-th list.\<close>

definition fetch_geo_prefixes_response ::
    "crates \<Rightarrow> (nat \<Rightarrow> firewall_db) \<Rightarrow> i64 \<Rightarrow> u32 \<Rightarrow> string \<Rightarrow> fetch_geo_prefixes_reply res" where
  "fetch_geo_prefixes_response K dbs version page_size page_token =
     (let current = latest_version (dbs 0) in
      bindE (ensure_geo_prefix_version_current version current) (\<lambda>_.
      bindE (load_persisted_geo_prefix_page (cr_net K) (cr_text K) (cr_json K) (\<lambda>i. dbs (i + 2))
               (enabled_geo_countries (dbs 1)) page_token (geo_prefix_page_size page_size)) (\<lambda>page.
      bindE (traverse proto_geo_prefix_of (gpp_prefixes page)) (\<lambda>prefixes.
      Inr \<lparr>fgp_version = current, fgp_prefixes = prefixes,
           fgp_next_page_token = unwrap_or [] (gpp_next_page_token page)\<rparr>))))"

section \<open>The loop of the agent\<close>

definition geo_prefix_policy :: "net_text \<Rightarrow> proto_geo_prefix \<Rightarrow> geo_ip_prefix_policy res" where
  "geo_prefix_policy T p =
     bindE (parse_cidr T (pgp_cidr p)) (\<lambda>cidr.
     bindE (normalize_country (pgp_country p)) (\<lambda>country.
     Inr \<lparr>gp_cidr = cidr, gp_country = country\<rparr>))"

text \<open>
  \<open>fetch_geo_prefixes fuel T serve k token acc\<close>: the loop from its \<open>k\<close>-th request on, \<open>serve k token\<close>
  being the answer to that request; without fuel it is still running.
\<close>

fun fetch_geo_prefixes ::
    "nat \<Rightarrow> net_text \<Rightarrow> (nat \<Rightarrow> string \<Rightarrow> fetch_geo_prefixes_reply res) \<Rightarrow> nat \<Rightarrow> string \<Rightarrow>
       geo_ip_prefix_policy list \<Rightarrow> geo_ip_prefix_policy list res option" where
  "fetch_geo_prefixes 0 T serve k token acc = None"
| "fetch_geo_prefixes (Suc fuel) T serve k token acc =
     (case serve k token of
        Inl e \<Rightarrow> Some (Inl e)
      | Inr page \<Rightarrow>
          (case traverse (geo_prefix_policy T) (fgp_prefixes page) of
             Inl e \<Rightarrow> Some (Inl e)
           | Inr ps \<Rightarrow>
               (if trim (fgp_next_page_token page) = [] then Some (Inr (acc @ ps))
                else fetch_geo_prefixes fuel T serve (k + 1) (fgp_next_page_token page) (acc @ ps))))"

section \<open>Pages of a list of lists\<close>

fun flat_pos :: "'a list list \<Rightarrow> nat \<Rightarrow> nat \<times> nat" where
  "flat_pos [] n = (0, n)"
| "flat_pos (xs # xss) n =
     (if n < length xs then (0, n) else (let (i, j) = flat_pos xss (n - length xs) in (Suc i, j)))"

lemma flat_pos_drop:
  "n < length (concat xss) \<Longrightarrow> flat_pos xss n = (i, j) \<Longrightarrow>
     i < length xss \<and> j < length (xss ! i) \<and> drop n (concat xss) = drop j (xss ! i) @ concat (drop (Suc i) xss)"
proof (induction xss n arbitrary: i rule: flat_pos.induct)
  case (1 n)
  then show ?case by simp
next
  case (2 xs xss n)
  show ?case
  proof (cases "n < length xs")
    case True
    then show ?thesis using 2 by auto
  next
    case False
    obtain i' where "flat_pos xss (n - length xs) = (i', j)" "i = Suc i'"
      using 2(3) False by (auto split: prod.splits)
    then show ?thesis using 2(1) [of i'] 2(2) False by simp
  qed
qed

text \<open>The stored lists with the position of every element.\<close>

definition positioned :: "'a list list \<Rightarrow> (nat \<times> nat \<times> 'a) list list" where
  "positioned xss = map (\<lambda>(i, xs). map (\<lambda>(j, x). (i, j, x)) (enumerate 0 xs)) (enumerate 0 xss)"

lemma length_positioned [simp]: "length (positioned xss) = length xss"
  by (simp add: positioned_def)

lemma nth_positioned: "i < length xss \<Longrightarrow> positioned xss ! i = map (\<lambda>(j, x). (i, j, x)) (enumerate 0 (xss ! i))"
  by (simp add: positioned_def nth_enumerate_eq)

lemma values_positioned: "map (\<lambda>(i, j, x). x) (concat (positioned xss)) = concat xss"
proof -
  have "map (map (\<lambda>(i, j, x). x)) (positioned xss) = xss"
    by (rule nth_equalityI) (simp_all add: nth_positioned comp_def case_prod_beta' nth_enumerate_eq map_snd_enumerate [unfolded snd_def])
  then show ?thesis by (simp add: map_concat)
qed

lemma positioned_drop:
  assumes "n < length (concat (positioned xss))" "concat (positioned xss) ! n = (i, j, x)"
  shows "i < length xss \<and> j < length (xss ! i) \<and>
    drop n (concat (positioned xss)) = drop j (positioned xss ! i) @ concat (drop (Suc i) (positioned xss))"
proof -
  obtain i' j' where p: "flat_pos (positioned xss) n = (i', j')" by (cases "flat_pos (positioned xss) n")
  note d = flat_pos_drop [OF assms(1) p]
  then have "concat (positioned xss) ! n = positioned xss ! i' ! j'"
    using hd_drop_conv_nth [OF assms(1)] hd_drop_conv_nth [of j' "positioned xss ! i'"] by simp
  moreover have e: "positioned xss ! i' = map (\<lambda>(j, x). (i', j, x)) (enumerate 0 (xss ! i'))"
    using d by (intro nth_positioned) simp
  moreover have l: "j' < length (xss ! i')" using d unfolding e by simp
  ultimately have "(i, j) = (i', j')"
    using assms(2) by (simp add: nth_enumerate_eq)
  then show ?thesis using d l by simp
qed

section \<open>What the builder holds\<close>

definition page_state :: "nat \<Rightarrow> (nat \<times> nat \<times> geo_prefix) list \<Rightarrow> page_builder" where
  "page_state sz es =
     \<lparr>pb_prefixes = take sz (map (\<lambda>(i, j, p). p) es),
      pb_next_page_token = (if sz < length es
         then Some (case es ! sz of (i, j, p) \<Rightarrow> page_token_text i j) else None),
      pb_page_size = sz\<rparr>"

lemma page_state_more: "sz < length es \<Longrightarrow> page_state sz (es @ fs) = page_state sz es"
  by (simp add: page_state_def nth_append)

lemma collect_prefix_state:
  "collect_prefix N net i j code (page_state sz es) = page_state sz (es @ [(i, j, geo_prefix_from_net N net code)])"
  by (auto simp: collect_prefix_def page_state_def nth_append)

lemma collect_fold:
  "fst (fold (\<lambda>net (b, offset). (if skip \<le> offset then collect_prefix N net i offset code b else b, offset + 1))
     nets (page_state sz es, k)) =
   page_state sz (es @ drop (skip - k) (map (\<lambda>(j, net). (i, j, geo_prefix_from_net N net code)) (enumerate k nets)))"
proof (induction nets arbitrary: es k)
  case Nil
  show ?case by simp
next
  case (Cons net nets)
  show ?case
  proof (cases "skip \<le> k")
    case True
    then show ?thesis using Cons [of "es @ [(i, k, geo_prefix_from_net N net code)]" "Suc k"]
      by (simp add: collect_prefix_state)
  next
    case False
    then have "skip - k = Suc (skip - Suc k)" by simp
    then show ?thesis using Cons [of es "Suc k"] False by simp
  qed
qed

lemma enumerate_map: "enumerate k (map f xs) = map (\<lambda>(j, x). (j, f x)) (enumerate k xs)"
  by (induction xs arbitrary: k) simp_all

lemma collect_country_page_state:
  assumes "country_prefixes N T J db country = Inr ps"
  shows "collect_country_page N T J db country i start skip (page_state sz es) =
    Inr (page_state sz (es @ drop (if i = start then skip else 0) (map (\<lambda>(j, p). (i, j, p)) (enumerate 0 ps))))"
proof -
  obtain c where c: "normalize_country country = Inr c"
    using assms by (auto simp: country_prefixes_def res_simps)
  obtain k where k: "encode_country c = Inr k" using encode_normalized [OF c] by blast
  show ?thesis
  proof (cases "load_geo_ip_prefix_row db c")
    case None
    then have "ps = []" using assms c k by (simp add: country_prefixes_def)
    then show ?thesis using None c k by (simp add: collect_country_page_def)
  next
    case (Some row)
    then have ps: "ps = map (\<lambda>net. geo_prefix_from_net N net k) (fst (for_each_persisted_cidr T J row))"
      using assms c k by (simp add: country_prefixes_def)
    show ?thesis
      using collect_fold [of "if i = start then skip else 0" N i k "fst (for_each_persisted_cidr T J row)" sz es 0]
      by (simp add: collect_country_page_def c k Some collect_country_def Let_def ps enumerate_map
          comp_def case_prod_beta')
  qed
qed

lemma page_countries_state:
  assumes "list_all2 (\<lambda>(i, country) ps. country_prefixes N T J (dbs i) country = Inr ps) cs pss"
  shows "page_countries N T J dbs start skip cs (page_state sz es) =
    Inr (page_state sz (es @ concat (map2 (\<lambda>(i, country) ps.
      drop (if i = start then skip else 0) (map (\<lambda>(j, p). (i, j, p)) (enumerate 0 ps))) cs pss)))"
  using assms
proof (induction cs pss arbitrary: es rule: list_all2_induct)
  case Nil
  show ?case by simp
next
  case (Cons c cs ps pss)
  obtain i country where c: "c = (i, country)" by (cases c)
  let ?e = "drop (if i = start then skip else 0) (map (\<lambda>(j, p). (i, j, p)) (enumerate 0 ps))"
  have "collect_country_page N T J (dbs i) country i start skip (page_state sz es) = Inr (page_state sz (es @ ?e))"
    using Cons.hyps(1) c by (intro collect_country_page_state) simp
  then show ?case
    using Cons.IH [of "es @ ?e"] page_state_more [of sz "es @ ?e"]
    by (auto simp: c page_state_def)
qed

lemma entries_from:
  assumes "length countries = length pss" "i < length pss"
  shows "concat (map2 (\<lambda>(i', country) ps. drop (if i' = i then j else 0) (map (\<lambda>(j, p). (i', j, p)) (enumerate 0 ps)))
      (drop i (enumerate 0 countries)) (drop i pss)) =
    drop j (positioned pss ! i) @ concat (drop (Suc i) (positioned pss))" (is "concat (map2 ?f _ _) = _")
proof -
  have r: "map2 ?f (drop (Suc i) (enumerate 0 countries)) (drop (Suc i) pss) = drop (Suc i) (positioned pss)"
  proof (rule nth_equalityI)
    fix k
    assume l: "k < length (map2 ?f (drop (Suc i) (enumerate 0 countries)) (drop (Suc i) pss))"
    then have k: "Suc i + k < length pss" "Suc i + k < length countries" using assms(1) by auto
    have "positioned pss ! (Suc i + k) = map (\<lambda>(j, p). (Suc i + k, j, p)) (enumerate 0 (pss ! (Suc i + k)))"
      using k by (intro nth_positioned)
    then show "map2 ?f (drop (Suc i) (enumerate 0 countries)) (drop (Suc i) pss) ! k = drop (Suc i) (positioned pss) ! k"
      using l k by (simp add: nth_enumerate_eq)
  qed (use assms in simp)
  have "drop i (enumerate 0 countries) = (i, countries ! i) # drop (Suc i) (enumerate 0 countries)"
    using assms Cons_nth_drop_Suc [of i "enumerate 0 countries"] by (simp add: nth_enumerate_eq)
  moreover have "drop i pss = pss ! i # drop (Suc i) pss" using assms(2) by (simp add: Cons_nth_drop_Suc)
  ultimately show ?thesis using r assms(2) by (simp add: nth_positioned)
qed

text \<open>The token of the \<open>n\<close>-th prefix; the first page is asked for without one.\<close>

definition token_at :: "geo_prefix list list \<Rightarrow> nat \<Rightarrow> string" where
  "token_at pss n = (case concat (positioned pss) ! n of (i, j, p) \<Rightarrow> page_token_text i j)"

definition token_names :: "geo_prefix list list \<Rightarrow> nat \<Rightarrow> string \<Rightarrow> bool" where
  "token_names pss n tok \<longleftrightarrow> n = 0 \<and> tok = [] \<or> n < length (concat pss) \<and> tok = token_at pss n"

lemma length_entries [simp]: "length (concat (positioned pss)) = length (concat pss)"
  using arg_cong [OF values_positioned [of pss], of length] by simp

lemma digit_chars: "c \<in> set (dec_nat n) \<Longrightarrow> \<not> is_space c \<and> c \<noteq> CHR '':''"
proof -
  assume "c \<in> set (dec_nat n)"
  then have "is_digit 10 c" using show_nat_digits [of 10 n] by auto
  then show ?thesis
    by (auto simp: is_digit_def digit_value_def Let_def is_space_def split: if_splits)
qed

lemma token_text:
  "trim (page_token_text i j) = page_token_text i j" "page_token_text i j \<noteq> []"
proof -
  have "\<not> is_space CHR '':''" by (simp add: is_space_def)
  then show "trim (page_token_text i j) = page_token_text i j"
    using digit_chars [OF hd_in_set [OF show_nat_not_Nil [of 10 i]]] digit_chars [OF last_in_set [OF show_nat_not_Nil [of 10 j]]]
    by (intro trim_fixed) (simp add: page_token_text_def)
  show "page_token_text i j \<noteq> []" by (simp add: page_token_text_def)
qed

lemma parse_token_text:
  assumes "i < usize_bound" "j < usize_bound"
  shows "parse_geo_prefix_page_token (page_token_text i j) = Inr (i, j)"
proof -
  have "takeWhile (\<lambda>x. x \<noteq> CHR '':'') (page_token_text i j) = dec_nat i"
    "dropWhile (\<lambda>x. x \<noteq> CHR '':'') (page_token_text i j) = CHR '':'' # dec_nat j"
    unfolding page_token_text_def using digit_chars by (simp_all add: takeWhile_append2 dropWhile_append2)
  then have "split_once CHR '':'' (page_token_text i j) = Some (dec_nat i, dec_nat j)"
    by (simp add: split_once_def)
  then show ?thesis
    using parse_uint_dec [OF assms(1)] parse_uint_dec [OF assms(2)]
    by (simp add: parse_geo_prefix_page_token_def token_text)
qed

lemma parse_token_named:
  assumes "token_names pss n tok" "length pss < usize_bound" "length (concat pss) < usize_bound"
  shows "\<exists>i j. parse_geo_prefix_page_token tok = Inr (i, j) \<and>
    (i < length pss \<and> drop j (positioned pss ! i) @ concat (drop (Suc i) (positioned pss)) = drop n (concat (positioned pss)) \<or>
     pss = [] \<and> i = 0)"
proof (cases "tok = []")
  case True
  then have "n = 0" using assms(1) by (auto simp: token_names_def token_at_def token_text(2) [THEN not_sym] split: prod.splits)
  moreover have "parse_geo_prefix_page_token tok = Inr (0, 0)"
    using True by (simp add: parse_geo_prefix_page_token_def trim_def)
  moreover have "pss \<noteq> [] \<Longrightarrow> positioned pss ! 0 @ concat (drop (Suc 0) (positioned pss)) = concat (positioned pss)"
    using length_positioned [of pss] by (cases "positioned pss") simp_all
  ultimately show ?thesis by (cases "pss = []") auto
next
  case False
  then have n: "n < length (concat (positioned pss))" "tok = token_at pss n" using assms(1) by (auto simp: token_names_def)
  obtain i j p where e: "concat (positioned pss) ! n = (i, j, p)" by (cases "concat (positioned pss) ! n") auto
  note d = positioned_drop [OF n(1) e]
  have "length (pss ! i) \<le> length (concat pss)"
    using d member_le_sum_list [of "length (pss ! i)" "map length pss"] by (auto simp: length_concat)
  then have "parse_geo_prefix_page_token tok = Inr (i, j)"
    using d n e assms by (simp add: token_at_def parse_token_text)
  then show ?thesis using d by auto
qed

section \<open>The pages put together\<close>

text \<open>Every state a request sees has the tables and the version of \<open>db\<close>.\<close>

definition settled :: "i64 \<Rightarrow> (nat \<Rightarrow> firewall_db) \<Rightarrow> firewall_db \<Rightarrow> bool" where
  "settled v dbs db \<longleftrightarrow> (\<forall>k. same_policy_tables (dbs k) db \<and> (0 < sint v \<longrightarrow> latest_version (dbs k) = v))"

lemma stored_page:
  assumes st: "\<And>i c. c \<in> set countries \<Longrightarrow> country_prefixes N T J (dbs i) c = country_prefixes N T J db c"
    and pss: "traverse (country_prefixes N T J db) countries = Inr pss"
    and tok: "token_names pss n tok"
    and bounds: "length pss < usize_bound" "length (concat pss) < usize_bound"
  shows "load_persisted_geo_prefix_page N T J dbs countries tok page_size =
    Inr \<lparr>gpp_prefixes = take (max 1 page_size) (drop n (concat pss)),
         gpp_next_page_token = (if n + max 1 page_size < length (concat pss)
            then Some (token_at pss (n + max 1 page_size)) else None)\<rparr>"
proof -
  let ?sz = "max 1 page_size" and ?es = "drop n (concat (positioned pss))"
  obtain i j where ij: "parse_geo_prefix_page_token tok = Inr (i, j)"
    and w: "i < length pss \<and> drop j (positioned pss ! i) @ concat (drop (Suc i) (positioned pss)) = ?es \<or>
      pss = [] \<and> i = 0"
    using parse_token_named [OF tok bounds] by blast
  have len: "length countries = length pss" using traverse_length [OF pss] by simp
  have "list_all2 (\<lambda>(i, country) ps. country_prefixes N T J (dbs i) country = Inr ps)
      (drop i (enumerate 0 countries)) (drop i pss)"
    using pss len by (auto simp: traverse_Inr_iff list_all2_conv_all_nth nth_enumerate_eq st)
  from page_countries_state [OF this, of i j ?sz "[]"]
  have run: "page_countries N T J dbs i j (drop i (enumerate 0 countries)) (new_page_builder ?sz) = Inr (page_state ?sz ?es)"
    using w entries_from [OF len, of i j] len by (auto simp: new_page_builder_def page_state_def positioned_def)
  have "map (\<lambda>(i, j, p). p) ?es = drop n (concat pss)"
    by (simp only: drop_map [symmetric] values_positioned)
  then have "page_finish (page_state ?sz ?es) = \<lparr>gpp_prefixes = take ?sz (drop n (concat pss)),
         gpp_next_page_token = (if n + ?sz < length (concat pss) then Some (token_at pss (n + ?sz)) else None)\<rparr>"
    by (auto simp: page_finish_def page_state_def token_at_def)
  then show ?thesis
    by (simp only: load_persisted_geo_prefix_page_def ij run bindE.simps mapE.simps prod.case)
qed

lemma proto_round:
  assumes N: "ipnet_spec N" and T: "net_text_spec T" and p: "parse_geo_prefix N p = Inr g"
  shows "\<exists>q. proto_geo_prefix_of p = Inr q \<and> geo_prefix_policy T q = Inr g"
proof -
  obtain cidr c where cidr: "net_new N (gx_addr p) (gx_prefix p) = Some cidr" and c: "decode_country (gx_country p) = Inr c"
    and g: "g = \<lparr>gp_cidr = cidr, gp_country = c\<rparr>"
    using p by (auto simp: parse_geo_prefix_def geo_prefix_to_ipnet_def res_simps)
  have v: "unat (gx_prefix p) \<le> ip_width (gx_addr p)" "cidr = Net (gx_addr p) (gx_prefix p)"
    using cidr ipnet_spec.new_Some_iff [OF N] by auto
  have "normalize_country c = Inr c"
    using c normalize_country_idem by (auto simp: decode_country_def Let_def split: if_splits)
  then show ?thesis
    using net_text_spec.parse_show [OF T v(1)] c v g
    by (simp add: proto_geo_prefix_of_def geo_prefix_policy_def parse_cidr_def geo_prefix_to_cidr_def)
qed

lemma protos_round:
  assumes "ipnet_spec N" "net_text_spec T" "traverse (parse_geo_prefix N) ps = Inr gs"
  shows "\<exists>qs. traverse proto_geo_prefix_of ps = Inr qs \<and> traverse (geo_prefix_policy T) qs = Inr gs"
  using assms(3)
proof (induction ps arbitrary: gs)
  case Nil
  then show ?case by simp
next
  case (Cons p ps)
  then obtain g gs' where g: "parse_geo_prefix N p = Inr g" "traverse (parse_geo_prefix N) ps = Inr gs'" "gs = g # gs'"
    by (auto simp: res_simps)
  obtain q where "proto_geo_prefix_of p = Inr q" "geo_prefix_policy T q = Inr g"
    using proto_round [OF assms(1,2) g(1)] by blast
  moreover obtain qs where "traverse proto_geo_prefix_of ps = Inr qs" "traverse (geo_prefix_policy T) qs = Inr gs'"
    using Cons.IH [OF g(2)] by blast
  ultimately show ?case using g(3) by simp
qed

lemma traverse_take_drop:
  "traverse f xs = Inr ys \<Longrightarrow> traverse f (take m (drop n xs)) = Inr (take m (drop n ys))"
  by (auto simp: traverse_Inr_iff list_all2_conv_all_nth)

lemma enabled_geo_countries_active:
  "enabled_geo_countries db = map gcr_country (order_by gcr_country (active_countries db))"
  by (simp add: enabled_geo_countries_def active_countries_def)

lemma same_enabled_countries: "same_policy_tables a b \<Longrightarrow> enabled_geo_countries a = enabled_geo_countries b"
  by (simp add: enabled_geo_countries_active same_policy_tables_def)

lemma same_enabled_lists:
  assumes "same_policy_tables a b" "c \<in> set (enabled_geo_countries b)"
  shows "same_country_list a b c"
proof -
  have "\<forall>c\<in>gcr_country ` set (active_countries b). same_country_list a b c"
    using assms(1) by (auto simp: same_policy_tables_def list_all_iff)
  moreover have "c \<in> gcr_country ` set (active_countries b)"
    using assms(2) by (auto simp: enabled_geo_countries_active)
  ultimately show ?thesis by blast
qed

lemma served_page:
  assumes N: "ipnet_spec (cr_net K)" and T: "net_text_spec (cr_text K)" and st: "settled v dbs db"
    and pss: "traverse (country_prefixes (cr_net K) (cr_text K) (cr_json K) db) (enabled_geo_countries db) = Inr pss"
    and gs: "traverse (parse_geo_prefix (cr_net K)) (concat pss) = Inr gs"
    and tok: "token_names pss n tok"
    and bounds: "length pss < usize_bound" "length (concat pss) < usize_bound"
    and sz: "sz = max 1 (geo_prefix_page_size page_size)"
  shows "\<exists>qs. traverse (geo_prefix_policy (cr_text K)) qs = Inr (take sz (drop n gs)) \<and>
    fetch_geo_prefixes_response K dbs v page_size tok =
      Inr \<lparr>fgp_version = latest_version (dbs 0), fgp_prefixes = qs,
           fgp_next_page_token = (if n + sz < length (concat pss) then token_at pss (n + sz) else [])\<rparr>"
proof -
  have same: "same_policy_tables (dbs k) db" for k using st by (simp add: settled_def)
  have "country_prefixes (cr_net K) (cr_text K) (cr_json K) (dbs (i + 2)) c =
      country_prefixes (cr_net K) (cr_text K) (cr_json K) db c" if "c \<in> set (enabled_geo_countries db)" for i c
    using that by (intro country_prefixes_same_list same_enabled_lists [OF same])
  note page = stored_page [where dbs = "\<lambda>i. dbs (i + 2)" and db = db and page_size = "geo_prefix_page_size page_size",
    OF this pss tok bounds, folded sz]
  have e: "enabled_geo_countries (dbs 1) = enabled_geo_countries db"
    by (rule same_enabled_countries [OF same])
  have v: "ensure_geo_prefix_version_current v (latest_version (dbs 0)) = Inr ()"
    using st by (auto simp: ensure_geo_prefix_version_current_def settled_def)
  obtain qs where qs: "traverse proto_geo_prefix_of (take sz (drop n (concat pss))) = Inr qs"
    "traverse (geo_prefix_policy (cr_text K)) qs = Inr (take sz (drop n gs))"
    using protos_round [OF N T traverse_take_drop [OF gs]] by blast
  then show ?thesis
    unfolding fetch_geo_prefixes_response_def Let_def e v bindE.simps
    using page
    by (intro exI [of _ qs]) simp
qed

lemma pages_collected:
  assumes N: "ipnet_spec (cr_net K)" and T: "net_text_spec (cr_text K)" and st: "\<And>k. settled v (dbs k) db"
    and pss: "traverse (country_prefixes (cr_net K) (cr_text K) (cr_json K) db) (enabled_geo_countries db) = Inr pss"
    and gs: "traverse (parse_geo_prefix (cr_net K)) (concat pss) = Inr gs"
    and bounds: "length pss < usize_bound" "length (concat pss) < usize_bound"
  shows "token_names pss n tok \<Longrightarrow> length gs - n < fuel \<Longrightarrow>
    fetch_geo_prefixes fuel (cr_text K) (\<lambda>k. fetch_geo_prefixes_response K (dbs k) v page_size) k tok (take n gs) =
      Some (Inr gs)"
proof (induction fuel arbitrary: n tok k)
  case 0
  then show ?case by simp
next
  case (Suc fuel)
  define sz where "sz = max 1 (geo_prefix_page_size page_size)"
  then have pos: "0 < sz" by simp
  have len: "length gs = length (concat pss)" using traverse_length [OF gs] by simp
  obtain qs where qs: "traverse (geo_prefix_policy (cr_text K)) qs = Inr (take sz (drop n gs))"
    "fetch_geo_prefixes_response K (dbs k) v page_size tok =
      Inr \<lparr>fgp_version = latest_version (dbs k 0), fgp_prefixes = qs,
           fgp_next_page_token = (if n + sz < length (concat pss) then token_at pss (n + sz) else [])\<rparr>"
    using served_page [OF N T st [of k] pss gs Suc.prems(1) bounds sz_def] by blast
  have acc: "take n gs @ take sz (drop n gs) = take (n + sz) gs" by (simp add: take_add)
  show ?case
  proof (cases "n + sz < length (concat pss)")
    case True
    have "trim (token_at pss (n + sz)) \<noteq> []"
      by (auto simp: token_at_def token_text split: prod.splits)
    moreover have "fetch_geo_prefixes fuel (cr_text K) (\<lambda>k. fetch_geo_prefixes_response K (dbs k) v page_size)
        (k + 1) (token_at pss (n + sz)) (take (n + sz) gs) = Some (Inr gs)"
      using True Suc.prems(2) pos len by (intro Suc.IH) (auto simp: token_names_def)
    ultimately show ?thesis using True qs acc by simp
  next
    case False
    then show ?thesis using qs acc len by (simp add: trim_def)
  qed
qed

text \<open>The same countries in the order of the policy load: the same prefixes, as a set.\<close>

lemma enabled_countries_set:
  assumes "load_geo_countries db default_policy_name = Inr cs"
  shows "\<forall>c\<in>set (enabled_geo_countries db). \<exists>d\<in>set (map gc_country cs). normalize_country c = Inr d"
    and "\<forall>d\<in>set (map gc_country cs). \<exists>c\<in>set (enabled_geo_countries db). normalize_country c = Inr d"
proof -
  have p: "parse_geo_country_policy r = Inr c \<Longrightarrow> normalize_country (gcr_country r) = Inr (gc_country c)" for r c
    by (auto simp: parse_geo_country_policy_def res_simps)
  show "\<forall>c\<in>set (enabled_geo_countries db). \<exists>d\<in>set (map gc_country cs). normalize_country c = Inr d"
    using traverse_set_fwd [OF assms [unfolded load_geo_countries_def]] p
    by (fastforce simp: enabled_geo_countries_def)
  show "\<forall>d\<in>set (map gc_country cs). \<exists>c\<in>set (enabled_geo_countries db). normalize_country c = Inr d"
    using traverse_set_back [OF assms [unfolded load_geo_countries_def]] p
    by (fastforce simp: enabled_geo_countries_def)
qed

lemma country_prefixes_normal:
  "normalize_country c = Inr d \<Longrightarrow> country_prefixes N T J db c = country_prefixes N T J db d"
  using normalize_country_idem [of c d] by (simp add: country_prefixes_def)

end
