(* ===== verification/Agent_Runtime.thy ===== *)
theory Agent_Runtime
  imports Geo_Pages Xdp_Handle
begin

text \<open>
  The agent: the trust it adds for its control plane (\<^verbatim>\<open>agent/policy_apply/control_plane_trust.rs\<close>), the
  decoding of policy messages (\<^verbatim>\<open>xds/client/policy.rs\<close>), the TLS decision (\<^verbatim>\<open>xds/client.rs\<close>), offline
  handling (\<^verbatim>\<open>agent/offline.rs\<close>, \<^verbatim>\<open>offline_handling.rs\<close>), the drop monitor switch
  (\<^verbatim>\<open>agent/drop_monitor.rs\<close>) and the connection and stream loop (\<^verbatim>\<open>agent/sync/runtime\<close>) as a step
  relation. What the network answers is an argument of each handler; delays and log lines are left out.
\<close>

section \<open>Trusting the control plane\<close>

definition strip_prefix :: "string \<Rightarrow> string \<Rightarrow> string option" where
  "strip_prefix p s = (if take (length p) s = p then Some (drop (length p) s) else None)"

definition rsplit_once :: "char \<Rightarrow> string \<Rightarrow> (string \<times> string) option" where
  "rsplit_once c s = map_option (\<lambda>(a, b). (rev b, rev a)) (split_once c (rev s))"

definition parse_port :: "string \<Rightarrow> u16 res" where
  "parse_port s = mapE word_of_nat (ok_or (BadRequest ''invalid xDS control URL port'') (parse_uint 65536 s))"

definition default_xds_port :: u16 where "default_xds_port = 50051"

definition bracketed_host_port :: "string \<Rightarrow> (string \<times> u16) res" where
  "bracketed_host_port authority =
     bindE (ok_or (BadRequest ''invalid bracketed IPv6 xDS control URL host'') (split_once CHR '']'' authority)) (\<lambda>(host, rest).
     bindE (transposeE parse_port (strip_prefix '':'' rest)) (\<lambda>port.
     Inr (host, unwrap_or default_xds_port port)))"

definition unbracketed_host_port :: "string \<Rightarrow> (string \<times> u16) res" where
  "unbracketed_host_port authority =
     mapE (unwrap_or (authority, default_xds_port))
       (transposeE (\<lambda>(host, port). mapE (\<lambda>p. (host, p)) (parse_port port)) (rsplit_once CHR '':'' authority))"

definition control_plane_host_port :: "string \<Rightarrow> (string \<times> u16) res" where
  "control_plane_host_port control_url =
     (let without_scheme =
            (case strip_prefix ''http://'' control_url of
               Some r \<Rightarrow> r
             | None \<Rightarrow> unwrap_or control_url (strip_prefix ''https://'' control_url));
          authority = hd (split_on (\<lambda>c. c = CHR ''/'') without_scheme)
      in if authority = [] then Inl (BadRequest ''xDS control URL is missing a host'')
         else case strip_prefix ''['' authority of
                Some host \<Rightarrow> bracketed_host_port host
              | None \<Rightarrow> unbracketed_host_port authority)"

definition ip_literal_prefix :: "ipnet_lib \<Rightarrow> ipaddr \<Rightarrow> ipnet res" where
  "ip_literal_prefix N ip = ok_or (InvalidCidr (show_ip ip)) (net_new N ip (if is_ipv4 ip then 32 else 128))"

definition resolve_control_plane_prefixes :: "ipnet_lib \<Rightarrow> string \<Rightarrow> ipnet list res" where
  "resolve_control_plane_prefixes N control_url =
     bindE (control_plane_host_port control_url) (\<lambda>(host, _).
     case parse_ip host of
       Some ip \<Rightarrow> mapE (\<lambda>n. [n]) (ip_literal_prefix N ip)
     | None \<Rightarrow> Inr [])"

definition add_control_plane_trusted_cidr :: "ipnet \<Rightarrow> policy_snapshot \<Rightarrow> policy_snapshot" where
  "add_control_plane_trusted_cidr cidr snapshot =
     (if list_ex (\<lambda>t. tc_cidr t = cidr) (ps_trusted_cidrs snapshot) then snapshot
      else snapshot\<lparr>ps_trusted_cidrs := ps_trusted_cidrs snapshot @
             [\<lparr>tc_cidr = cidr, tc_comment = Some ''local xDS control-plane allow''\<rparr>]\<rparr>)"

definition add_control_plane_trusted_cidrs :: "ipnet_lib \<Rightarrow> string \<Rightarrow> policy_snapshot \<Rightarrow> policy_snapshot res" where
  "add_control_plane_trusted_cidrs N control_url snapshot =
     mapE (\<lambda>prefixes. fold add_control_plane_trusted_cidr prefixes snapshot)
       (resolve_control_plane_prefixes N control_url)"

text \<open>The kernel calls and clocks an apply meets.\<close>

record agent_env =
  av_net :: ipnet_lib
  av_xdp :: xdp_env
  av_wall :: datetime
  av_clock :: "nat \<Rightarrow> datetime"
  av_pin_path :: bool

definition apply_latest ::
    "agent_env \<Rightarrow> policy_snapshot \<Rightarrow> string \<Rightarrow> linux_xdp_manager \<Rightarrow> linux_xdp_manager \<times> i64 res" where
  "apply_latest V snapshot control_url xdp =
     (case bindE (add_control_plane_trusted_cidrs (av_net V) control_url snapshot)
             (compile_policy (av_net V) (av_clock V)) of
        Inl e \<Rightarrow> (xdp, Inl e)
      | Inr compiled \<Rightarrow>
          (let (xdp, r) = apply_policy (av_net V) (av_xdp V) (av_wall V) compiled xdp
           in (xdp, mapE (\<lambda>_. cp_version compiled) r)))"

section \<open>Policy messages\<close>

text \<open>An external prefix error is \<open>ExternalGeoPrefixes True\<close> when it is a status of the control plane.\<close>

datatype policy_update_error = InvalidPolicyJson | ExternalGeoPrefixes bool

fun is_control_plane_failure :: "policy_update_error \<Rightarrow> bool" where
  "is_control_plane_failure InvalidPolicyJson = False"
| "is_control_plane_failure (ExternalGeoPrefixes status) = status"

definition policy_snapshot_from_update ::
    "snapshot_codec \<Rightarrow> policy_update \<Rightarrow> policy_update_error + policy_snapshot option" where
  "policy_snapshot_from_update C update =
     (if trim (pu_policy_json update) = [] then Inr None
      else case sc_parse C (pu_policy_json update) of
             None \<Rightarrow> Inl InvalidPolicyJson | Some s \<Rightarrow> Inr (Some s))"

text \<open>\<open>geo v\<close> is what the loop over the pages returns for version \<open>v\<close>.\<close>

definition policy_from_update ::
    "snapshot_codec \<Rightarrow> (i64 \<Rightarrow> bool + geo_ip_prefix_policy list) \<Rightarrow> policy_update \<Rightarrow>
       policy_update_error + i64 \<times> policy_snapshot option \<times> bool" where
  "policy_from_update C geo update =
     bindE (policy_snapshot_from_update C update) (\<lambda>snapshot.
     bindE (case snapshot of
              None \<Rightarrow> Inr None
            | Some s \<Rightarrow>
                (if pu_external_geo_prefixes update
                 then (case geo (pu_geo_prefix_version update) of
                         Inl status \<Rightarrow> Inl (ExternalGeoPrefixes status)
                       | Inr ps \<Rightarrow> Inr (Some (s\<lparr>ps_geo_prefixes := ps\<rparr>)))
                 else Inr (Some s))) (\<lambda>snapshot.
     Inr (pu_version update, snapshot, pu_drop_monitor_enabled update)))"

text \<open>\<^verbatim>\<open>fetch_policy\<close> on a response.\<close>

definition client_fetch_policy ::
    "snapshot_codec \<Rightarrow> (i64 \<Rightarrow> geo_ip_prefix_policy list res) \<Rightarrow> fetch_policy_response res \<Rightarrow>
       (i64 \<times> policy_snapshot) option res" where
  "client_fetch_policy C geo response =
     bindE response (\<lambda>response.
     if fp_unchanged response then Inr None
     else bindE (ok_or (BadRequest ''xDS control plane returned invalid policy JSON'')
                  (sc_parse C (fp_policy_json response))) (\<lambda>snapshot.
          bindE (if fp_external_geo_prefixes response
                 then mapE (\<lambda>ps. snapshot\<lparr>ps_geo_prefixes := ps\<rparr>) (geo (fp_geo_prefix_version response))
                 else Inr snapshot) (\<lambda>snapshot.
          Inr (Some (fp_version response, snapshot)))))"

section \<open>Transport security\<close>

record xds_client_tls =
  xt_ca_cert :: "string option"
  xt_client_cert :: "string option"
  xt_client_key :: "string option"
  xt_insecure :: bool

datatype tls_decision = PlainText | Tls (td_client_identity: bool) (td_skip_verify: bool)

definition decide_tls :: "string \<Rightarrow> xds_client_tls \<Rightarrow> tls_decision res" where
  "decide_tls url tls =
     (if strip_prefix ''https://'' url \<noteq> None then
        (if xt_insecure tls \<and> xt_ca_cert tls \<noteq> None
         then Inl (BadRequest ''--xds-tls-insecure cannot be combined with --xds-ca-cert'')
         else bindE (case (xt_client_cert tls, xt_client_key tls) of
                       (None, None) \<Rightarrow> Inr False
                     | (Some _, Some _) \<Rightarrow> Inr True
                     | (Some _, None) \<Rightarrow> Inl (BadRequest ''--xds-client-cert is set without --xds-client-key'')
                     | (None, Some _) \<Rightarrow> Inl (BadRequest ''--xds-client-key is set without --xds-client-cert'')) (\<lambda>identity.
              Inr (Tls identity (xt_insecure tls))))
      else if strip_prefix ''http://'' url \<noteq> None then
        (if xt_ca_cert tls \<noteq> None \<or> xt_client_cert tls \<noteq> None \<or> xt_client_key tls \<noteq> None \<or> xt_insecure tls
         then Inl (BadRequest ''xDS control URL is http:// but TLS options are configured'')
         else Inr PlainText)
      else Inl (BadRequest ''xDS control plane URL must start with http:// or https://''))"

section \<open>Offline handling\<close>

datatype agent_offline_mode = UnloadRules | KeepRules

record offline_policy_state =
  op_consecutive_failures :: u32
  op_rules_unloaded :: bool

definition default_offline_state :: offline_policy_state where
  "default_offline_state = \<lparr>op_consecutive_failures = 0, op_rules_unloaded = False\<rparr>"

definition record_control_plane_failure :: "offline_policy_state \<Rightarrow> offline_policy_state" where
  "record_control_plane_failure o' =
     o'\<lparr>op_consecutive_failures :=
          (if op_consecutive_failures o' = - 1 then - 1 else op_consecutive_failures o' + 1)\<rparr>"

definition record_control_plane_healthy :: "offline_policy_state \<Rightarrow> offline_policy_state" where
  "record_control_plane_healthy o' = o'\<lparr>op_consecutive_failures := 0\<rparr>"

definition record_policy_applied :: "offline_policy_state \<Rightarrow> offline_policy_state" where
  "record_policy_applied o' = o'\<lparr>op_consecutive_failures := 0, op_rules_unloaded := False\<rparr>"

definition should_unload_rules :: "agent_offline_mode \<Rightarrow> u32 \<Rightarrow> offline_policy_state \<Rightarrow> bool" where
  "should_unload_rules mode failure_limit o' \<longleftrightarrow>
     mode = UnloadRules \<and> \<not> op_rules_unloaded o' \<and> failure_limit \<le> op_consecutive_failures o'"

definition default_xdp_dynamic_defense :: xdp_dynamic_defense where
  "default_xdp_dynamic_defense =
     \<lparr>xd_enabled = False, xd_ip_rate_limit_enabled = False, xd_ip_packets_per_second = 0, xd_ip_burst = 0,
      xd_flood_enabled = False, xd_flood_packets_per_second = 0, xd_flood_burst = 0,
      xd_flood_block_seconds = 0\<rparr>"

definition empty_policy :: "i64 \<Rightarrow> compiled_policy" where
  "empty_policy version =
     \<lparr>cp_version = version, cp_trusted_prefixes = [], cp_rules = [], cp_country_rules = [],
      cp_temp_bans = [], cp_dynamic_defense = default_xdp_dynamic_defense,
      cp_dynamic_rate_limits = [], cp_geo_prefixes = [], cp_threat_prefixes = []\<rparr>"

definition i64_max0 :: "i64 \<Rightarrow> i64" where
  "i64_max0 v = (if sint v < 0 then 0 else v)"

definition unload_firewall_rules_for_offline_mode ::
    "agent_env \<Rightarrow> i64 \<Rightarrow> linux_xdp_manager \<Rightarrow> linux_xdp_manager \<times> unit res" where
  "unload_firewall_rules_for_offline_mode V previous_version xdp =
     apply_policy (av_net V) (av_xdp V) (av_wall V) (empty_policy (i64_max0 previous_version)) xdp"

section \<open>The drop monitor\<close>

text \<open>The handle of the reporting task, as whether there is one.\<close>

definition drop_monitor_disable :: "agent_env \<Rightarrow> linux_xdp_manager \<times> bool \<Rightarrow> linux_xdp_manager \<times> bool" where
  "drop_monitor_disable V st =
     (let (xdp, handle) = st in
      if handle then (fst (set_drop_monitor_enabled (av_xdp V) False xdp), False) else (xdp, False))"

definition drop_monitor_enable :: "agent_env \<Rightarrow> linux_xdp_manager \<times> bool \<Rightarrow> linux_xdp_manager \<times> bool" where
  "drop_monitor_enable V st =
     (let (xdp, handle) = st;
          (xdp, r) = set_drop_monitor_enabled (av_xdp V) True xdp
      in case r of
           Inl e \<Rightarrow> (xdp, handle)
         | Inr _ \<Rightarrow> if av_pin_path V then (xdp, True) else (xdp, handle))"

definition drop_monitor_reconcile ::
    "agent_env \<Rightarrow> bool \<Rightarrow> linux_xdp_manager \<times> bool \<Rightarrow> linux_xdp_manager \<times> bool" where
  "drop_monitor_reconcile V enabled st =
     (if enabled \<and> \<not> snd st then drop_monitor_enable V st
      else if \<not> enabled then drop_monitor_disable V st else st)"

section \<open>The runtime\<close>

record agent_args =
  aa_control_url :: string
  aa_offline_mode :: agent_offline_mode
  aa_offline_failure_limit :: u32

record agent_runtime =
  ar_args :: agent_args
  ar_xdp :: linux_xdp_manager
  ar_applied_version :: i64
  ar_drop_monitor :: bool
  ar_offline :: offline_policy_state

definition attached_agent :: "agent_args \<Rightarrow> linux_xdp_manager \<Rightarrow> agent_runtime" where
  "attached_agent args xdp =
     \<lparr>ar_args = args, ar_xdp = xdp, ar_applied_version = - 1, ar_drop_monitor = False,
      ar_offline = default_offline_state\<rparr>"

definition handle_control_plane_failure :: "agent_env \<Rightarrow> agent_runtime \<Rightarrow> agent_runtime \<times> unit res" where
  "handle_control_plane_failure V a =
     (let a = a\<lparr>ar_offline := record_control_plane_failure (ar_offline a)\<rparr> in
      if should_unload_rules (aa_offline_mode (ar_args a)) (aa_offline_failure_limit (ar_args a)) (ar_offline a)
      then
        (let (xdp, handle) = drop_monitor_disable V (ar_xdp a, ar_drop_monitor a);
             (xdp, r) = unload_firewall_rules_for_offline_mode V (ar_applied_version a) xdp;
             a = a\<lparr>ar_xdp := xdp, ar_drop_monitor := handle\<rparr>
         in case r of
              Inl e \<Rightarrow> (a, Inl e)
            | Inr _ \<Rightarrow> (a\<lparr>ar_applied_version := - 1, ar_offline := (ar_offline a)\<lparr>op_rules_unloaded := True\<rparr>\<rparr>, Inr ()))
      else (a, Inr ()))"

datatype stream_outcome = Continue | Reconnect

text \<open>A failure that ends the stream: the failure is recorded, then the agent reconnects.\<close>

definition fail_and_reconnect :: "agent_env \<Rightarrow> agent_runtime \<Rightarrow> agent_runtime \<times> stream_outcome res" where
  "fail_and_reconnect V a =
     (let (a, r) = handle_control_plane_failure V a in (a, mapE (\<lambda>_. Reconnect) r))"

text \<open>\<open>hb\<close> is whether the heartbeat after a successful apply reaches the control plane.\<close>

definition process_policy_update ::
    "snapshot_codec \<Rightarrow> agent_env \<Rightarrow> (i64 \<Rightarrow> bool + geo_ip_prefix_policy list) \<Rightarrow> bool \<Rightarrow> policy_update \<Rightarrow>
       agent_runtime \<Rightarrow> agent_runtime \<times> stream_outcome res" where
  "process_policy_update C V geo hb update a =
     (case policy_from_update C geo update of
        Inl err \<Rightarrow> if is_control_plane_failure err then fail_and_reconnect V a else (a, Inr Reconnect)
      | Inr (version, snapshot, enabled) \<Rightarrow>
          (let (xdp, handle) = drop_monitor_reconcile V enabled (ar_xdp a, ar_drop_monitor a);
               a = a\<lparr>ar_xdp := xdp, ar_drop_monitor := handle\<rparr>
           in case snapshot of
                None \<Rightarrow> (a, Inr Continue)
              | Some s \<Rightarrow>
                  (let (xdp, r) = apply_latest V s (aa_control_url (ar_args a)) (ar_xdp a);
                       a = a\<lparr>ar_xdp := xdp\<rparr>
                   in case r of
                        Inl e \<Rightarrow> (a, Inr Reconnect)
                      | Inr applied \<Rightarrow>
                          (let a = a\<lparr>ar_applied_version := applied, ar_offline := record_policy_applied (ar_offline a)\<rparr>
                           in if hb then (a\<lparr>ar_offline := record_control_plane_healthy (ar_offline a)\<rparr>, Inr Continue)
                              else fail_and_reconnect V a))))"

datatype stream_message = Update policy_update | StreamClosed | StreamFailed

definition handle_stream_message ::
    "snapshot_codec \<Rightarrow> agent_env \<Rightarrow> (i64 \<Rightarrow> bool + geo_ip_prefix_policy list) \<Rightarrow> bool \<Rightarrow> stream_message \<Rightarrow>
       agent_runtime \<Rightarrow> agent_runtime \<times> stream_outcome res" where
  "handle_stream_message C V geo hb msg a =
     (case msg of
        Update u \<Rightarrow> process_policy_update C V geo hb u a
      | StreamClosed \<Rightarrow> fail_and_reconnect V a
      | StreamFailed \<Rightarrow> fail_and_reconnect V a)"

definition heartbeat_tick :: "agent_env \<Rightarrow> bool \<Rightarrow> agent_runtime \<Rightarrow> agent_runtime \<times> stream_outcome res" where
  "heartbeat_tick V reported a =
     (if reported then (a\<lparr>ar_offline := record_control_plane_healthy (ar_offline a)\<rparr>, Inr Continue)
      else fail_and_reconnect V a)"

text \<open>Whether the connection, the first heartbeat and the subscription succeed; the result is whether
  there is a stream, and the version it was asked for.\<close>

definition connect_and_subscribe ::
    "agent_env \<Rightarrow> bool \<Rightarrow> bool \<Rightarrow> bool \<Rightarrow> agent_runtime \<Rightarrow> agent_runtime \<times> i64 option res" where
  "connect_and_subscribe V connected started subscribed a =
     (if connected \<and> started \<and> subscribed then (a, Inr (Some (ar_applied_version a)))
      else (let (a, r) = handle_control_plane_failure V a in (a, mapE (\<lambda>_. None) r)))"

datatype agent_phase = Connecting | Streaming | Stopped

fun phase_of_stream :: "stream_outcome res \<Rightarrow> agent_phase" where
  "phase_of_stream (Inl e) = Stopped"
| "phase_of_stream (Inr Continue) = Streaming"
| "phase_of_stream (Inr Reconnect) = Connecting"

fun phase_of_connect :: "i64 option res \<Rightarrow> agent_phase" where
  "phase_of_connect (Inl e) = Stopped"
| "phase_of_connect (Inr None) = Connecting"
| "phase_of_connect (Inr (Some v)) = Streaming"

inductive agent_step :: "snapshot_codec \<Rightarrow> agent_phase \<times> agent_runtime \<Rightarrow> agent_phase \<times> agent_runtime \<Rightarrow> bool"
  for C :: snapshot_codec where
  connects: "connect_and_subscribe V connected started subscribed a = (a', r) \<Longrightarrow>
     agent_step C (Connecting, a) (phase_of_connect r, a')"
| receives: "handle_stream_message C V geo hb msg a = (a', r) \<Longrightarrow>
     agent_step C (Streaming, a) (phase_of_stream r, a')"
| ticks: "heartbeat_tick V reported a = (a', r) \<Longrightarrow> agent_step C (Streaming, a) (phase_of_stream r, a')"
| shuts_down: "agent_step C (Streaming, a) (Stopped, a)"

inductive agent_reach :: "snapshot_codec \<Rightarrow> agent_args \<Rightarrow> agent_phase \<times> agent_runtime \<Rightarrow> bool"
  for C :: snapshot_codec and args :: agent_args where
  attached: "agent_reach C args (Connecting, attached_agent args xdp)"
| steps: "agent_reach C args st \<Longrightarrow> agent_step C st st' \<Longrightarrow> agent_reach C args st'"

inductive_cases agent_stepE: "agent_step C (ph, a) st'"

section \<open>What an empty policy leaves\<close>

lemma map_of_all_None: "(\<And>k. map_of m k = None) \<Longrightarrow> m = []"
  by (simp add: fun_eq_iff flip: map_of_eq_empty_iff)

definition maps_empty :: "linux_xdp_manager \<Rightarrow> bool" where
  "maps_empty m \<longleftrightarrow> xm_rule_cidrs m = [] \<and> xm_geo_cidrs m = [] \<and> xm_trusted_cidrs m = [] \<and>
     xm_country_rules m = [] \<and> xm_custom_rate_limits m = [] \<and> xm_temp_bans m = []"

lemma stale_all_removed:
  "kmap_remove_stale E nm key_id {} m = (m', Inr u) \<Longrightarrow> m' = []"
  by (rule map_of_all_None) (simp add: kmap_remove_stale_Inr)

lemma empty_pending:
  "fst (pending_rules N locals (empty_policy v)) = {}"
  "fst (pending_temp_bans N locals [] now) = {}"
  "fst (pending_geo_prefixes []) = {}" "fst (pending_country_rules []) = {}"
  "fst (pending_custom_rate_limits []) = {}" "fst (pending_trusted_keys N []) = {}"
  by (simp_all add: pending_rules_fold installable_rules_def ordered_policy_rules_def empty_policy_def
      pending_temp_bans_fold installable_bans_def compact_temp_bans_def pending_geo_prefixes_def
      pending_country_rules_def pending_custom_rate_limits_def pending_trusted_keys_def compact_trusted_prefixes_def)

lemma empty_policy_fields [simp]:
  "cp_temp_bans (empty_policy v) = []" "cp_geo_prefixes (empty_policy v) = []"
  "cp_country_rules (empty_policy v) = []" "cp_dynamic_rate_limits (empty_policy v) = []"
  "cp_trusted_prefixes (empty_policy v) = []" "cp_dynamic_defense (empty_policy v) = default_xdp_dynamic_defense"
  by (simp_all add: empty_policy_def)

lemma empty_policy_applied:
  assumes "apply_to_current_maps N E now (empty_policy v) m = (m', Inr u)"
  shows "maps_empty m'" "dv_enabled (xm_defense_policy m') = 0"
proof -
  note st = apply_map_steps [OF assms, unfolded empty_policy_fields empty_pending]
  show "maps_empty m'"
    unfolding maps_empty_def using st(1-6) by (blast dest: stale_all_removed)
  show "dv_enabled (xm_defense_policy m') = 0"
    unfolding st(7) by (simp add: defense_value_def default_xdp_dynamic_defense_def u8_of_bool_def)
qed

lemma apply_policy_Inr:
  "apply_policy N E now p m = (m', Inr u) \<Longrightarrow> \<exists>m0. apply_to_current_maps N E now p m0 = (m', Inr u)"
  by (auto simp: apply_policy_def res_simps split: sum.splits option.splits if_splits)

lemma unloaded_maps:
  assumes "unload_firewall_rules_for_offline_mode V v m = (m', Inr u)"
  shows "maps_empty m'" "dv_enabled (xm_defense_policy m') = 0"
  using assms empty_policy_applied
  by (auto simp: unload_firewall_rules_for_offline_mode_def dest!: apply_policy_Inr)

lemma lookups_empty:
  assumes "lookups_ok B"
  shows "be_rule B [] k = None" "be_geo B [] k' = None" "be_trusted B [] k'' = None" "be_temp_ban B [] k3 = None"
proof -
  have e: "lpm_trie bits look \<Longrightarrow> look [] k = None" for bits :: "'d \<Rightarrow> bool list" and look :: "('d lpm_key, 'v) kmap \<Rightarrow> _" and k
    using lpm_trie.look_None [where m = "[]"] by (simp add: kmap_dom_def)
  show "be_rule B [] k = None" "be_geo B [] k' = None" "be_trusted B [] k'' = None" "be_temp_ban B [] k3 = None"
    using assms e unfolding lookups_ok_def by blast+
qed

lemma empty_maps_pass:
  assumes B: "lookups_ok B" and e: "maps_empty m" and d: "dv_enabled (xm_defense_policy m) = 0"
  shows "handle_packet B m family proto dport src s = (incr_stat STAT_PASS s, XdpPass)"
  using e d unfolding maps_empty_def
  by (simp add: handle_packet_def Let_def lookup_trusted_def temp_ban_active_def temp_ban_value_active_def
      lookup_rule_def lookup_geo_def dynamic_defense_limited_def lookups_empty [OF B])

section \<open>Failures\<close>

definition unload_error :: "agent_env \<Rightarrow> agent_runtime \<Rightarrow> bool" where
  "unload_error V a \<longleftrightarrow> (\<exists>e. snd (handle_control_plane_failure V a) = Inl e)"

lemma failure_args [simp]: "ar_args (fst (handle_control_plane_failure V a)) = ar_args a"
  by (simp add: handle_control_plane_failure_def Let_def split: prod.split sum.split)

lemma failure_below_limit:
  assumes "\<not> should_unload_rules (aa_offline_mode (ar_args a)) (aa_offline_failure_limit (ar_args a))
      (record_control_plane_failure (ar_offline a))"
  shows "handle_control_plane_failure V a = (a\<lparr>ar_offline := record_control_plane_failure (ar_offline a)\<rparr>, Inr ())"
  using assms by (simp add: handle_control_plane_failure_def Let_def)

lemma failure_keep_rules:
  "aa_offline_mode (ar_args a) = KeepRules \<Longrightarrow>
     handle_control_plane_failure V a = (a\<lparr>ar_offline := record_control_plane_failure (ar_offline a)\<rparr>, Inr ())"
  by (rule failure_below_limit) (simp add: should_unload_rules_def)

lemma failure_unloaded:
  "op_rules_unloaded (ar_offline a) \<Longrightarrow>
     handle_control_plane_failure V a = (a\<lparr>ar_offline := record_control_plane_failure (ar_offline a)\<rparr>, Inr ())"
  by (rule failure_below_limit) (simp add: should_unload_rules_def record_control_plane_failure_def)

lemma failure_at_limit:
  assumes "should_unload_rules (aa_offline_mode (ar_args a)) (aa_offline_failure_limit (ar_args a))
      (record_control_plane_failure (ar_offline a))"
    and "handle_control_plane_failure V a = (a', Inr u)"
  shows "maps_empty (ar_xdp a')" "dv_enabled (xm_defense_policy (ar_xdp a')) = 0"
    "ar_applied_version a' = - 1" "op_rules_unloaded (ar_offline a')" "\<not> ar_drop_monitor a'"
proof -
  obtain xdp xdp' where x: "drop_monitor_disable V (ar_xdp a, ar_drop_monitor a) = (xdp, False)"
    by (cases "drop_monitor_disable V (ar_xdp a, ar_drop_monitor a)")
       (auto simp: drop_monitor_disable_def split: if_splits)
  then obtain xdp' where u: "unload_firewall_rules_for_offline_mode V (ar_applied_version a) xdp = (xdp', Inr ())"
    and a': "ar_xdp a' = xdp'" "ar_applied_version a' = - 1" "op_rules_unloaded (ar_offline a')" "\<not> ar_drop_monitor a'"
    using assms by (auto simp: handle_control_plane_failure_def Let_def split: prod.splits sum.splits)
  show "maps_empty (ar_xdp a')" "dv_enabled (xm_defense_policy (ar_xdp a')) = 0"
    using unloaded_maps [OF u] a' by simp_all
  show "ar_applied_version a' = - 1" "op_rules_unloaded (ar_offline a')" "\<not> ar_drop_monitor a'" using a' by simp_all
qed

lemma failure_count:
  "op_consecutive_failures (record_control_plane_failure o') =
     (if op_consecutive_failures o' = - 1 then - 1 else op_consecutive_failures o' + 1)"
  "op_rules_unloaded (record_control_plane_failure o') = op_rules_unloaded o'"
  by (simp_all add: record_control_plane_failure_def)

lemma unat_failure:
  "unat (op_consecutive_failures o') + 1 < 2 ^ 32 \<Longrightarrow>
     unat (op_consecutive_failures (record_control_plane_failure o')) = unat (op_consecutive_failures o') + 1"
proof -
  assume h: "unat (op_consecutive_failures o') + 1 < 2 ^ 32"
  have m: "unat (- 1 :: u32) = 2 ^ 32 - 1" by (simp add: unsigned_minus_1_eq_mask mask_eq_exp_minus_1)
  then have "op_consecutive_failures o' \<noteq> - 1" using h by auto
  then show ?thesis using h m
    by (simp add: failure_count unat_word_ariths)
qed

lemma failures_before_limit:
  assumes "op_consecutive_failures (ar_offline a) = 0"
    and "length Vs < unat (aa_offline_failure_limit (ar_args a))"
  shows "\<exists>o'. fold (\<lambda>V a. fst (handle_control_plane_failure V a)) Vs a = a\<lparr>ar_offline := o'\<rparr> \<and>
    unat (op_consecutive_failures o') = length Vs \<and> op_rules_unloaded o' = op_rules_unloaded (ar_offline a)"
  using assms(2)
proof (induction Vs rule: rev_induct)
  case Nil
  show ?case using assms(1) by (intro exI [of _ "ar_offline a"]) simp
next
  case (snoc V Vs)
  then obtain o' where o': "fold (\<lambda>V a. fst (handle_control_plane_failure V a)) Vs a = a\<lparr>ar_offline := o'\<rparr>"
    "unat (op_consecutive_failures o') = length Vs" "op_rules_unloaded o' = op_rules_unloaded (ar_offline a)" by auto
  have b: "unat (aa_offline_failure_limit (ar_args a)) < 2 ^ 32" using unsigned_less [of "aa_offline_failure_limit (ar_args a)"] by simp
  then have n: "unat (op_consecutive_failures (record_control_plane_failure o')) = length Vs + 1"
    using unat_failure [of o'] o'(2) snoc.prems by simp
  have "handle_control_plane_failure V (a\<lparr>ar_offline := o'\<rparr>) = (a\<lparr>ar_offline := record_control_plane_failure o'\<rparr>, Inr ())"
    using n snoc.prems by (subst failure_below_limit) (simp_all add: should_unload_rules_def word_le_nat_alt)
  then show ?case
    using o' n by (intro exI [of _ "record_control_plane_failure o'"]) (simp add: failure_count)
qed

section \<open>The step relation\<close>

definition unloaded_inv :: "agent_runtime \<Rightarrow> bool" where
  "unloaded_inv a \<longleftrightarrow> (op_rules_unloaded (ar_offline a) \<longrightarrow>
     ar_applied_version a = - 1 \<and> aa_offline_mode (ar_args a) = UnloadRules)"

lemma failure_inv:
  assumes "unloaded_inv a"
  shows "unloaded_inv (fst (handle_control_plane_failure V a))"
proof (cases "should_unload_rules (aa_offline_mode (ar_args a)) (aa_offline_failure_limit (ar_args a))
    (record_control_plane_failure (ar_offline a))")
  case False
  then show ?thesis using assms by (simp add: failure_below_limit unloaded_inv_def failure_count)
next
  case True
  then have m: "aa_offline_mode (ar_args a) = UnloadRules" "\<not> op_rules_unloaded (ar_offline a)"
    by (simp_all add: should_unload_rules_def failure_count)
  show ?thesis
  proof (cases "snd (handle_control_plane_failure V a)")
    case (Inr u)
    then have "handle_control_plane_failure V a = (fst (handle_control_plane_failure V a), Inr u)"
      by (metis prod.collapse)
    from failure_at_limit [OF True this] show ?thesis using m by (simp add: unloaded_inv_def)
  next
    case (Inl e)
    then have "\<not> op_rules_unloaded (ar_offline (fst (handle_control_plane_failure V a)))"
      using m(2) by (auto simp: handle_control_plane_failure_def Let_def failure_count split: prod.splits sum.splits if_splits)
    then show ?thesis by (simp add: unloaded_inv_def)
  qed
qed

lemma fst_fail_and_reconnect [simp]:
  "fst (fail_and_reconnect V a) = fst (handle_control_plane_failure V a)"
  by (simp add: fail_and_reconnect_def split: prod.split)

lemma fst_connect:
  "fst (connect_and_subscribe V c s u a) = a \<or>
   fst (connect_and_subscribe V c s u a) = fst (handle_control_plane_failure V a)"
  by (simp add: connect_and_subscribe_def split: prod.split)

lemma fst_tick:
  "fst (heartbeat_tick V ok a) = a\<lparr>ar_offline := record_control_plane_healthy (ar_offline a)\<rparr> \<or>
   fst (heartbeat_tick V ok a) = fst (handle_control_plane_failure V a)"
  by (simp add: heartbeat_tick_def)

text \<open>A property that every part of a handler keeps is kept by the handlers.\<close>

definition kept_by_parts :: "agent_env \<Rightarrow> (agent_runtime \<Rightarrow> bool) \<Rightarrow> bool" where
  "kept_by_parts V P \<longleftrightarrow>
     (\<forall>a. P a \<longrightarrow> P (fst (handle_control_plane_failure V a)) \<and>
        P (a\<lparr>ar_offline := record_control_plane_healthy (ar_offline a)\<rparr>) \<and>
        (\<forall>en xdp h. drop_monitor_reconcile V en (ar_xdp a, ar_drop_monitor a) = (xdp, h) \<longrightarrow>
           P (a\<lparr>ar_xdp := xdp, ar_drop_monitor := h\<rparr>)) \<and>
        (\<forall>s xdp e. apply_latest V s (aa_control_url (ar_args a)) (ar_xdp a) = (xdp, Inl e) \<longrightarrow> P (a\<lparr>ar_xdp := xdp\<rparr>)) \<and>
        (\<forall>s xdp v. apply_latest V s (aa_control_url (ar_args a)) (ar_xdp a) = (xdp, Inr v) \<longrightarrow>
           P (a\<lparr>ar_xdp := xdp, ar_applied_version := v, ar_offline := record_policy_applied (ar_offline a)\<rparr>)))"

lemma kept_failure: "kept_by_parts V P \<Longrightarrow> P a \<Longrightarrow> P (fst (handle_control_plane_failure V a))"
  by (simp add: kept_by_parts_def)

lemma kept_healthy:
  "kept_by_parts V P \<Longrightarrow> P a \<Longrightarrow> P (a\<lparr>ar_offline := record_control_plane_healthy (ar_offline a)\<rparr>)"
  by (simp add: kept_by_parts_def)

lemma kept_reconcile:
  "kept_by_parts V P \<Longrightarrow> P a \<Longrightarrow> drop_monitor_reconcile V en (ar_xdp a, ar_drop_monitor a) = (xdp, h) \<Longrightarrow>
     P (a\<lparr>ar_xdp := xdp, ar_drop_monitor := h\<rparr>)"
  by (simp only: kept_by_parts_def)

lemma kept_apply_error:
  "kept_by_parts V P \<Longrightarrow> P a \<Longrightarrow> apply_latest V s (aa_control_url (ar_args a)) (ar_xdp a) = (xdp, Inl e) \<Longrightarrow>
     P (a\<lparr>ar_xdp := xdp\<rparr>)"
  by (simp only: kept_by_parts_def)

lemma kept_applied:
  "kept_by_parts V P \<Longrightarrow> P a \<Longrightarrow> apply_latest V s (aa_control_url (ar_args a)) (ar_xdp a) = (xdp, Inr v) \<Longrightarrow>
     P (a\<lparr>ar_xdp := xdp, ar_applied_version := v, ar_offline := record_policy_applied (ar_offline a)\<rparr>)"
  by (simp only: kept_by_parts_def)

lemma process_keeps:
  assumes k: "kept_by_parts V P" and a: "P a"
  shows "P (fst (process_policy_update C V geo hb u a))"
proof (cases "policy_from_update C geo u")
  case (Inl e)
  then show ?thesis using k a by (simp add: process_policy_update_def kept_by_parts_def)
next
  case (Inr t)
  obtain v sn en where t: "t = (v, sn, en)" by (cases t)
  obtain xdp h where x: "drop_monitor_reconcile V en (ar_xdp a, ar_drop_monitor a) = (xdp, h)"
    by (cases "drop_monitor_reconcile V en (ar_xdp a, ar_drop_monitor a)")
  define a1 where "a1 = a\<lparr>ar_xdp := xdp, ar_drop_monitor := h\<rparr>"
  have a1: "P a1" unfolding a1_def by (rule kept_reconcile [OF k a x])
  show ?thesis
  proof (cases sn)
    case None
    then show ?thesis using Inr t x a1 by (simp add: process_policy_update_def Let_def a1_def)
  next
    case (Some s)
    obtain xdp' r where ap: "apply_latest V s (aa_control_url (ar_args a1)) (ar_xdp a1) = (xdp', r)"
      by (cases "apply_latest V s (aa_control_url (ar_args a1)) (ar_xdp a1)")
    have e: "process_policy_update C V geo hb u a =
        (case r of Inl e \<Rightarrow> (a1\<lparr>ar_xdp := xdp'\<rparr>, Inr Reconnect)
         | Inr v \<Rightarrow> (let a = a1\<lparr>ar_xdp := xdp', ar_applied_version := v, ar_offline := record_policy_applied (ar_offline a1)\<rparr>
             in if hb then (a\<lparr>ar_offline := record_control_plane_healthy (ar_offline a)\<rparr>, Inr Continue)
                else fail_and_reconnect V a))"
      using Inr t x Some ap by (cases r; cases hb) (simp_all add: process_policy_update_def Let_def a1_def)
    show ?thesis
    proof (cases r)
      case (Inl er)
      then have "P (a1\<lparr>ar_xdp := xdp'\<rparr>)" using kept_apply_error [OF k a1] ap by simp
      then show ?thesis using e Inl by simp
    next
      case (Inr v')
      define a2 where "a2 = a1\<lparr>ar_xdp := xdp', ar_applied_version := v', ar_offline := record_policy_applied (ar_offline a1)\<rparr>"
      have a2: "P a2" unfolding a2_def using kept_applied [OF k a1] ap Inr by simp
      have e2: "fst (process_policy_update C V geo hb u a) =
          (if hb then a2\<lparr>ar_offline := record_control_plane_healthy (ar_offline a2)\<rparr>
           else fst (handle_control_plane_failure V a2))"
        using e Inr by (simp add: Let_def a2_def)
      have "P (fst (handle_control_plane_failure V a2))" "P (a2\<lparr>ar_offline := record_control_plane_healthy (ar_offline a2)\<rparr>)"
        by (rule kept_failure [OF k a2], rule kept_healthy [OF k a2])
      then show ?thesis unfolding e2 by simp
    qed
  qed
qed

lemma step_keeps:
  assumes "agent_step C st st'" "\<And>V. kept_by_parts V P" "P (snd st)"
  shows "P (snd st')"
  using assms(1)
proof cases
  case (connects V c s u a a' r)
  then show ?thesis using assms(2) [of V] assms(3) fst_connect [of V c s u a] by (auto simp: kept_by_parts_def)
next
  case (receives V geo hb msg a a' r)
  then have "a' = fst (handle_stream_message C V geo hb msg a)" by simp
  moreover have "P a" using assms(3) receives by simp
  moreover from this have "P (fst (handle_control_plane_failure V a))" "P (fst (process_policy_update C V geo hb u a))" for u
    using kept_failure [OF assms(2)] process_keeps [OF assms(2)] by blast+
  moreover from this have "P (fst (handle_stream_message C V geo hb msg a))"
    by (cases msg) (simp_all add: handle_stream_message_def)
  ultimately show ?thesis using receives by simp
next
  case (ticks V ok a a' r)
  then show ?thesis using assms(2) [of V] assms(3) fst_tick [of V ok a] by (auto simp: kept_by_parts_def)
next
  case (shuts_down a)
  then show ?thesis using assms(3) by simp
qed

lemma fold_trusted_version: "ps_version (fold add_control_plane_trusted_cidr nets s) = ps_version s"
  by (induction nets arbitrary: s) (simp_all add: add_control_plane_trusted_cidr_def)

lemma apply_latest_version:
  "apply_latest V s url xdp = (xdp', Inr v) \<Longrightarrow> v = ps_version s"
  by (auto simp: apply_latest_def add_control_plane_trusted_cidrs_def fold_trusted_version
      compile_policy_def res_simps split: sum.splits prod.splits)

lemma unloaded_parts: "kept_by_parts V unloaded_inv"
  unfolding kept_by_parts_def
  by (auto simp: failure_inv) (auto simp: unloaded_inv_def record_control_plane_healthy_def record_policy_applied_def)

lemma reach_unloaded_inv: "agent_reach C args st \<Longrightarrow> unloaded_inv (snd st)"
proof (induction rule: agent_reach.induct)
  case (attached xdp)
  show ?case by (simp add: unloaded_inv_def attached_agent_def default_offline_state_def)
next
  case (steps st st')
  then show ?case using step_keeps [OF steps.hyps(2) unloaded_parts] by blast
qed

end
