(* ===== verification/Policy_Stream.thy ===== *)
theory Policy_Stream
  imports Xds_State
begin

text \<open>
  The push loop of one policy stream (\<^verbatim>\<open>run_policy_stream\<close> of \<^verbatim>\<open>xds/policy_stream.rs\<close>) as a step relation:
  turns of the loop against any database, notifications of the drop-monitor registry, the client
  reading a message, and the client going away. \<open>sw_sent\<close> records every message that was put on
  the channel.
\<close>

record stream_request =
  sr_current_version :: i64
  sr_external :: bool

record stream_world =
  sw_cursor :: policy_stream_cursor
  sw_channel :: stream_channel
  sw_sent :: "policy_update list"
  sw_running :: bool

definition empty_channel :: stream_channel where
  "empty_channel = \<lparr>ch_queue = [], ch_closed = False\<rparr>"

definition newly_sent :: "stream_channel \<Rightarrow> stream_channel \<Rightarrow> policy_update list" where
  "newly_sent ch ch' = concat (map (\<lambda>m. case m of Inr u \<Rightarrow> [u] | Inl e \<Rightarrow> []) (drop (length (ch_queue ch)) (ch_queue ch')))"

definition stream_start :: "stream_request \<Rightarrow> bool \<Rightarrow> stream_world" where
  "stream_start req enabled =
     (let cursor = new_cursor (sr_current_version req) enabled in
      if enabled then
        (let (ok, ch) = send_drop_monitor_update cursor empty_channel
         in \<lparr>sw_cursor = cursor, sw_channel = ch, sw_sent = newly_sent empty_channel ch, sw_running = ok\<rparr>)
      else \<lparr>sw_cursor = cursor, sw_channel = empty_channel, sw_sent = [], sw_running = True\<rparr>)"

text \<open>The top of the loop, with what the registry says when the message is sent.\<close>

definition stream_turn ::
    "crates \<Rightarrow> stream_request \<Rightarrow> datetime \<Rightarrow> firewall_db \<Rightarrow> (nat \<Rightarrow> firewall_db) \<Rightarrow> runtime_trusted_cidrs \<Rightarrow> bool \<Rightarrow>
       stream_world \<Rightarrow> stream_world" where
  "stream_turn K req now dbv dbs rt enabled w =
     (if ch_closed (sw_channel w) then w\<lparr>sw_running := False\<rparr>
      else
        (let built = build_policy_update K now dbv dbs (pc_version (sw_cursor w))
               (pc_runtime_fingerprint (sw_cursor w)) rt (sr_external req);
             (ok, cursor, ch) = send_available_policy_update built enabled (sw_cursor w, sw_channel w)
         in w\<lparr>sw_cursor := cursor, sw_channel := ch,
              sw_sent := sw_sent w @ newly_sent (sw_channel w) ch, sw_running := ok\<rparr>))"

definition stream_notified :: "bool \<Rightarrow> stream_world \<Rightarrow> stream_world" where
  "stream_notified enabled w =
     (let (ok, cursor, ch) = send_drop_monitor_change enabled (sw_cursor w, sw_channel w)
      in w\<lparr>sw_cursor := cursor, sw_channel := ch,
           sw_sent := sw_sent w @ newly_sent (sw_channel w) ch, sw_running := ok\<rparr>)"

inductive stream_reach :: "crates \<Rightarrow> stream_request \<Rightarrow> stream_world \<Rightarrow> bool"
  for K :: crates and req :: stream_request where
  starts: "stream_reach K req (stream_start req enabled)"
| turns: "stream_reach K req w \<Longrightarrow> sw_running w \<Longrightarrow> stream_reach K req (stream_turn K req now dbv dbs rt enabled w)"
| notified: "stream_reach K req w \<Longrightarrow> sw_running w \<Longrightarrow> stream_reach K req (stream_notified enabled w)"
| reads: "stream_reach K req w \<Longrightarrow> ch_queue (sw_channel w) = m # rest \<Longrightarrow>
     stream_reach K req (w\<lparr>sw_channel := (sw_channel w)\<lparr>ch_queue := rest\<rparr>\<rparr>)"
| closes: "stream_reach K req w \<Longrightarrow> stream_reach K req (w\<lparr>sw_channel := (sw_channel w)\<lparr>ch_closed := True\<rparr>\<rparr>)"

section \<open>The cursor and what was sent\<close>

definition policy_messages :: "policy_update list \<Rightarrow> policy_update list" where
  "policy_messages us = filter (\<lambda>u. pu_policy_json u \<noteq> []) us"

text \<open>The version a client that reads everything has been told, and the monitor setting.\<close>

definition told_version :: "i64 \<Rightarrow> policy_update list \<Rightarrow> i64" where
  "told_version v us = (if policy_messages us = [] then v else pu_version (last (policy_messages us)))"

definition told_monitor :: "policy_update list \<Rightarrow> bool" where
  "told_monitor us \<longleftrightarrow> us \<noteq> [] \<and> pu_drop_monitor_enabled (last us)"

definition stream_inv :: "stream_request \<Rightarrow> stream_world \<Rightarrow> bool" where
  "stream_inv req w \<longleftrightarrow> length (ch_queue (sw_channel w)) \<le> 8 \<and>
     (sw_running w \<longrightarrow>
        pc_version (sw_cursor w) = told_version (sr_current_version req) (sw_sent w) \<and>
        pc_drop_monitor_enabled (sw_cursor w) = told_monitor (sw_sent w) \<and>
        (\<exists>k\<le>length (sw_sent w). ch_queue (sw_channel w) = map Inr (drop k (sw_sent w))))"

lemma told_append [simp]:
  "told_version v (us @ [u]) = (if pu_policy_json u = [] then told_version v us else pu_version u)"
  "told_monitor (us @ [u]) = pu_drop_monitor_enabled u"
  by (simp_all add: told_version_def policy_messages_def told_monitor_def)

lemma try_send_cases:
  "try_send m ch = (ok, ch') \<Longrightarrow>
     (ok \<and> ch' = ch\<lparr>ch_queue := ch_queue ch @ [m]\<rparr> \<and> length (ch_queue ch) < 8) \<or> (\<not> ok \<and> ch' = ch)"
  by (auto simp: try_send_def split: if_splits)

lemma newly_sent_simps [simp]:
  "newly_sent ch ch = []"
  "newly_sent ch (ch\<lparr>ch_queue := ch_queue ch @ [Inr u]\<rparr>) = [u]"
  "newly_sent ch (ch\<lparr>ch_queue := ch_queue ch @ [Inl e]\<rparr>) = []"
  by (simp_all add: newly_sent_def)

lemma queue_push:
  "\<exists>k\<le>length us. q = map Inr (drop k us) \<Longrightarrow> \<exists>k\<le>length (us @ [u]). q @ [Inr u] = map Inr (drop k (us @ [u]))"
  by (metis Nil_is_map_conv append_Nil2 drop_append diff_is_0_eq' drop0 le_SucI length_append_singleton list.simps(9) map_append)

lemma stream_inv_sends:
  assumes "stream_inv req w" "sw_running w" "length (ch_queue (sw_channel w)) < 8"
    and "pc_version c = told_version (sr_current_version req) (sw_sent w @ [u])"
    and "pc_drop_monitor_enabled c = pu_drop_monitor_enabled u"
  shows "stream_inv req (w\<lparr>sw_cursor := c, sw_channel := (sw_channel w)\<lparr>ch_queue := ch_queue (sw_channel w) @ [Inr u]\<rparr>,
    sw_sent := sw_sent w @ [u], sw_running := True\<rparr>)"
  using assms queue_push [of "sw_sent w" "ch_queue (sw_channel w)" u] by (simp add: stream_inv_def)

lemma stream_inv_stopped:
  "length (ch_queue (sw_channel w)) \<le> 8 \<Longrightarrow> \<not> sw_running w \<Longrightarrow> stream_inv req w"
  by (simp add: stream_inv_def)

lemma built_json:
  "build_policy_update K now dbv dbs cur fp rt ext = Inr (Some (u, f)) \<Longrightarrow>
     \<exists>s. pu_policy_json u = sc_show (cr_codec K) s"
  by (auto simp: build_policy_update_def Let_def res_simps make_policy_update_def split: if_splits)

lemma stream_turn_inv:
  assumes codec: "\<And>s. sc_show (cr_codec K) s \<noteq> []" and w: "stream_inv req w" "sw_running w"
  shows "stream_inv req (stream_turn K req now dbv dbs rt enabled w)"
proof (cases "ch_closed (sw_channel w)")
  case True
  then show ?thesis using w by (simp add: stream_turn_def stream_inv_def)
next
  case open': False
  define built where "built = build_policy_update K now dbv dbs (pc_version (sw_cursor w))
      (pc_runtime_fingerprint (sw_cursor w)) rt (sr_external req)"
  have len: "length (ch_queue (sw_channel w)) \<le> 8" using w by (simp add: stream_inv_def)
  consider (err) e where "built = Inl e" | (same) "built = Inr None" | (new) u f where "built = Inr (Some (u, f))"
    by (metis option.exhaust surj_pair sum.exhaust)
  then show ?thesis
  proof cases
    case err
    obtain ok ch where t: "try_send (Inl e) (sw_channel w) = (ok, ch)" by (cases "try_send (Inl e) (sw_channel w)")
    then have "length (ch_queue ch) \<le> 8" using try_send_cases [OF t] len by auto
    then show ?thesis using open' err t
      by (intro stream_inv_stopped) (simp_all add: stream_turn_def send_available_policy_update_def built_def [symmetric])
  next
    case same
    then have "stream_turn K req now dbv dbs rt enabled w = w\<lparr>sw_running := True\<rparr>" using open' w
      by (simp add: stream_turn_def send_available_policy_update_def built_def [symmetric])
    then show ?thesis using w by (simp add: stream_inv_def)
  next
    case new
    define u' where "u' = u\<lparr>pu_drop_monitor_enabled := enabled\<rparr>"
    obtain ok ch where t: "try_send (Inr u') (sw_channel w) = (ok, ch)" by (cases "try_send (Inr u') (sw_channel w)")
    define c where "c = (sw_cursor w)\<lparr>pc_version := pu_version u', pc_runtime_fingerprint := Some f,
      pc_drop_monitor_enabled := pu_drop_monitor_enabled u'\<rparr>"
    have j: "pu_policy_json u' \<noteq> []" using built_json [OF new [unfolded built_def]] codec by (metis policy_update.simps(4) u'_def policy_update.select_convs(2) policy_update.surjective policy_update.update_convs(3))
    from try_send_cases [OF t] show ?thesis
    proof
      assume ok: "ok \<and> ch = (sw_channel w)\<lparr>ch_queue := ch_queue (sw_channel w) @ [Inr u']\<rparr> \<and> length (ch_queue (sw_channel w)) < 8"
      have "stream_turn K req now dbv dbs rt enabled w = w\<lparr>sw_cursor := c, sw_channel := ch, sw_sent := sw_sent w @ [u'], sw_running := True\<rparr>"
        using open' new t ok
        by (simp add: stream_turn_def send_available_policy_update_def send_policy_update_def built_def [symmetric]
            Let_def u'_def [symmetric] c_def)
      then show ?thesis using stream_inv_sends [OF w, of c u'] ok j by (simp add: c_def)
    next
      assume "\<not> ok \<and> ch = sw_channel w"
      then show ?thesis using open' new t len
        by (intro stream_inv_stopped) (simp_all add: stream_turn_def send_available_policy_update_def
            send_policy_update_def built_def [symmetric] Let_def u'_def [symmetric])
    qed
  qed
qed

lemma stream_notified_inv:
  assumes w: "stream_inv req w" "sw_running w"
  shows "stream_inv req (stream_notified enabled w)"
proof (cases "enabled = pc_drop_monitor_enabled (sw_cursor w)")
  case True
  then show ?thesis using w by (simp add: stream_notified_def send_drop_monitor_change_def stream_inv_def)
next
  case False
  define c where "c = (sw_cursor w)\<lparr>pc_drop_monitor_enabled := enabled\<rparr>"
  define u where "u = \<lparr>pu_version = (if sint (pc_version c) < 0 then 0 else pc_version c), pu_policy_json = [],
     pu_drop_monitor_enabled = pc_drop_monitor_enabled c, pu_external_geo_prefixes = False, pu_geo_prefix_version = 0\<rparr>"
  obtain ok ch where t: "try_send (Inr u) (sw_channel w) = (ok, ch)" by (cases "try_send (Inr u) (sw_channel w)")
  have n: "stream_notified enabled w = w\<lparr>sw_cursor := c, sw_channel := ch, sw_sent := sw_sent w @ newly_sent (sw_channel w) ch, sw_running := ok\<rparr>"
    using False t unfolding u_def
    by (cases "sint (pc_version (sw_cursor w)) < 0")
       (simp_all add: stream_notified_def send_drop_monitor_change_def send_drop_monitor_update_def Let_def c_def)
  from try_send_cases [OF t] show ?thesis
  proof
    assume ok: "ok \<and> ch = (sw_channel w)\<lparr>ch_queue := ch_queue (sw_channel w) @ [Inr u]\<rparr> \<and> length (ch_queue (sw_channel w)) < 8"
    then show ?thesis using stream_inv_sends [OF w, of c u] w n by (simp add: c_def u_def stream_inv_def)
  next
    assume "\<not> ok \<and> ch = sw_channel w"
    then show ?thesis using n w by (simp add: stream_inv_def)
  qed
qed

lemma stream_start_inv: "stream_inv req (stream_start req enabled)"
proof (cases enabled)
  case True
  then show ?thesis
    by (simp add: stream_start_def Let_def send_drop_monitor_update_def try_send_def empty_channel_def newly_sent_def
        stream_inv_def told_version_def told_monitor_def policy_messages_def new_cursor_def)
       (intro conjI impI exI [of _ "0 :: nat"], simp_all)
next
  case False
  then show ?thesis
    by (simp add: stream_start_def empty_channel_def stream_inv_def told_version_def told_monitor_def
        policy_messages_def new_cursor_def)
qed

lemma stream_reach_inv:
  assumes "\<And>s. sc_show (cr_codec K) s \<noteq> []"
  shows "stream_reach K req w \<Longrightarrow> stream_inv req w"
proof (induction rule: stream_reach.induct)
  case (starts enabled)
  show ?case by (rule stream_start_inv)
next
  case (turns w now dbv dbs rt enabled)
  then show ?case using stream_turn_inv [OF assms] by blast
next
  case (notified w enabled)
  then show ?case using stream_notified_inv by blast
next
  case (reads w m rest)
  have "\<exists>j\<le>length (sw_sent w). rest = map Inr (drop j (sw_sent w))"
    if "k \<le> length (sw_sent w)" "m # rest = map Inr (drop k (sw_sent w))" for k
  proof -
    have "rest = map Inr (drop (Suc k) (sw_sent w))"
      using that(2) by (metis drop_Suc list.sel(3) map_tl tl_drop)
    moreover have "Suc k \<le> length (sw_sent w)" using that by (cases "drop k (sw_sent w)") (auto simp: Suc_le_eq not_le [symmetric])
    ultimately show ?thesis by blast
  qed
  then show ?case using reads by (auto simp: stream_inv_def)
next
  case (closes w)
  then show ?case by (simp add: stream_inv_def)
qed

end
