(* ===== verification/Sample_Control.thy ===== *)
theory Sample_Control
  imports Agent_Runtime Policy_Stream Sample_Policy
begin

text \<open>A small control-plane database, library instances and an agent for the witnesses.\<close>

definition sample_json :: json_lib where
  "sample_json =
     \<lparr>js_value = (\<lambda>_. None), js_strings = (\<lambda>_. Some [''198.51.100.0/24'']), js_show_strings = concat,
      js_seq = (\<lambda>_. ([''203.0.114.0/24'', ''203.0.115.0/24''], True))\<rparr>"

definition sample_db :: firewall_db where
  "sample_db = empty_db
     \<lparr>db_policy_versions := [\<lparr>pvr_policy_name = default_policy_name, pvr_version = 5, pvr_updated_at = 0\<rparr>],
      db_firewall_rules :=
        [\<lparr>frr_id = 1, frr_policy_name = default_policy_name, frr_rule_key = ''k'', frr_enabled = True,
          frr_priority = 20, frr_action = ''deny'', frr_cidr = ''198.51.101.0/24'', frr_protocol = Some ''tcp'',
          frr_port = Some 22, frr_comment = None, frr_updated_at = 0\<rparr>],
      db_geo_countries :=
        [\<lparr>gcr_id = 1, gcr_policy_name = default_policy_name, gcr_enabled = True, gcr_country = ''ZZ'',
          gcr_action = ''deny'', gcr_packets_per_second = None, gcr_burst = None, gcr_updated_at = 0\<rparr>],
      db_geo_prefixes := [\<lparr>gpr_id = 1, gpr_country = ''ZZ'', gpr_cidrs_json = ''list'', gpr_updated_at = 0\<rparr>]\<rparr>"

definition sample_runtime :: runtime_trusted_cidrs where
  "sample_runtime = \<lparr>rc_configured = [Net (V4 0x0A000000) 8, Net (V4 0x0A010000) 16], rc_discovery = False,
     rc_cache = default_k8s_cache\<rparr>"

definition sample_geo :: "geo_ip_prefix_policy list" where
  "sample_geo =
     [\<lparr>gp_cidr = Net (V4 0xCB007200) 24, gp_country = ''ZZ''\<rparr>,
      \<lparr>gp_cidr = Net (V4 0xCB007300) 24, gp_country = ''ZZ''\<rparr>]"

definition sample_pushed :: "bool \<Rightarrow> policy_snapshot" where
  "sample_pushed external =
     \<lparr>ps_policy_name = default_policy_name, ps_version = 5,
      ps_rules =
        [\<lparr>fr_priority = 20, fr_action = Deny, fr_cidr = Net (V4 0xC6336500) 24, fr_protocol = Tcp,
          fr_port = Some 22, fr_comment = None\<rparr>],
      ps_geo_countries = [\<lparr>gc_country = ''ZZ'', gc_action = Deny\<rparr>],
      ps_geo_prefixes = (if external then [] else sample_geo),
      ps_temp_bans = [], ps_dynamic_defense = default_dynamic_defense, ps_dynamic_rate_limits = [],
      ps_trusted_cidrs = [\<lparr>tc_cidr = Net (V4 0x0A000000) 8, tc_comment = Some ''runtime xDS trusted CIDR''\<rparr>],
      ps_threat_sources = [], ps_threat_prefixes = []\<rparr>"

text \<open>A codec that knows the one snapshot.\<close>

definition sample_crates :: crates where
  "sample_crates =
     \<lparr>cr_net = ref_ipnet, cr_text = ref_net_text, cr_json = sample_json,
      cr_codec = \<lparr>sc_show = (\<lambda>_. ''{}''), sc_parse = (\<lambda>_. Some (sample_pushed True))\<rparr>\<rparr>"

lemma sample_crates_ok: "ipnet_spec (cr_net sample_crates)" "net_text_spec (cr_text sample_crates)"
  by (simp_all add: sample_crates_def ref_net.ipnet_spec_axioms ref_text.net_text_spec_axioms)

lemma sample_loaded_snapshot:
  "load_policy_snapshot sample_crates 0 (\<lambda>_. sample_db) (current_snapshot ref_ipnet sample_runtime) True =
     Inr (sample_pushed True)"
  "load_policy_snapshot sample_crates 0 (\<lambda>_. sample_db) (current_snapshot ref_ipnet sample_runtime) False =
     Inr (sample_pushed False)"
  by code_simp+

end
