(* ===== verification/Paged_Policy.thy ===== *)
theory Paged_Policy
  imports Agent_Runtime
begin

text \<open>
  A policy fetched with its country prefixes outside the message against the same policy with the
  prefixes inside: the pages read the enabled countries in the order of their names, the policy load
  in the order of the table, so the two prefix lists are permutations of each other.
\<close>

section \<open>Traversing a permutation\<close>

lemma traverse_map_projr: "traverse f xs = Inr ys \<Longrightarrow> ys = map (\<lambda>x. projr (f x)) xs"
  by (induction xs arbitrary: ys) (auto simp: res_simps)

lemma traverse_perm:
  assumes "traverse f xs = Inr ys" "mset xs' = mset xs"
  shows "\<exists>ys'. traverse f xs' = Inr ys' \<and> mset ys' = mset ys"
proof -
  have "\<exists>ys. traverse f xs = Inr ys" using assms(1) by blast
  then have "\<forall>x\<in>set xs'. \<exists>y. f x = Inr y" unfolding traverse_ok_iff mset_eq_setD [OF assms(2)] .
  then obtain ys' where ys': "traverse f xs' = Inr ys'" unfolding traverse_ok_iff [symmetric] by blast
  have "mset ys' = mset ys"
    unfolding traverse_map_projr [OF ys'] traverse_map_projr [OF assms(1)] mset_map assms(2) ..
  then show ?thesis using ys' by blast
qed

lemma mset_concat_perm: "mset xss = mset yss \<Longrightarrow> mset (concat xss) = mset (concat yss)"
proof -
  assume "mset xss = mset yss"
  then have "mset (map mset xss) = mset (map mset yss)" by (simp add: mset_map)
  then show ?thesis by (simp only: mset_concat sum_mset_sum_list [symmetric])
qed

lemma traverse_after:
  assumes "traverse g xs = Inr ys" "\<And>x y. x \<in> set xs \<Longrightarrow> g x = Inr y \<Longrightarrow> h y = f x"
  shows "traverse h ys = traverse f xs"
  using assms
proof (induction xs arbitrary: ys)
  case Nil
  then show ?case by simp
next
  case (Cons a xs)
  then obtain y zs where y: "g a = Inr y" "traverse g xs = Inr zs" "ys = y # zs" by (auto simp: res_simps)
  have "h y = f a" "traverse h zs = traverse f xs" using Cons.prems(2) [OF _ y(1)] Cons.IH [OF y(2)] Cons.prems(2) by auto
  then show ?case using y(3) by simp
qed

section \<open>The pages and the inline list\<close>

lemma inline_lists:
  assumes "load_geo_countries db default_policy_name = Inr cs"
  shows "traverse (country_prefixes N T J db) (map gc_country cs) =
    traverse (\<lambda>r. country_prefixes N T J db (gcr_country r)) (active_countries db)"
proof -
  have "normalize_country c = Inr c' \<Longrightarrow> country_prefixes N T J db c' = country_prefixes N T J db c" for c c'
    using country_prefixes_normal by simp
  then show ?thesis
    unfolding traverse_map
    by (intro traverse_after [OF assms [unfolded load_geo_countries_def, folded active_countries_def]])
      (auto simp: parse_geo_country_policy_def res_simps)
qed

lemma pages_lists:
  assumes "load_geo_countries db default_policy_name = Inr cs"
    and "load_geo_prefixes N T J db (map gc_country cs) True = Inr gs"
  shows "\<exists>pss gs'. traverse (country_prefixes N T J db) (enabled_geo_countries db) = Inr pss \<and>
    traverse (parse_geo_prefix N) (concat pss) = Inr gs' \<and> mset gs' = mset gs \<and> length pss = length cs"
proof -
  obtain qss where q: "traverse (country_prefixes N T J db) (map gc_country cs) = Inr qss"
    "traverse (parse_geo_prefix N) (concat qss) = Inr gs"
    using assms(2) by (auto simp: load_geo_prefixes_def load_persisted_geo_prefixes_def res_simps)
  note q' = q(1) [unfolded inline_lists [OF assms(1)]]
  have m: "mset (order_by gcr_country (active_countries db)) = mset (active_countries db)"
    by (simp add: order_by_def)
  obtain pss where p: "traverse (country_prefixes N T J db) (enabled_geo_countries db) = Inr pss" "mset pss = mset qss"
    using traverse_perm [OF q' m] by (auto simp: enabled_geo_countries_active traverse_map)
  obtain gs' where "traverse (parse_geo_prefix N) (concat pss) = Inr gs'" "mset gs' = mset gs"
    using traverse_perm [OF q(2) mset_concat_perm [OF p(2)]] by blast
  moreover have "length pss = length cs"
    using mset_eq_length [OF p(2)] traverse_length [OF q(1)] by simp
  ultimately show ?thesis using p(1) by blast
qed

lemma pages_inline:
  assumes N: "ipnet_spec (cr_net K)" and T: "net_text_spec (cr_text K)" and st: "\<And>k. settled v (dbs k) db"
    and cs: "load_geo_countries db default_policy_name = Inr cs"
    and gs: "load_geo_prefixes (cr_net K) (cr_text K) (cr_json K) db (map gc_country cs) True = Inr gs"
    and bounds: "length cs < usize_bound" "length gs < usize_bound" and fuel: "length gs < fuel"
  shows "\<exists>gs'. fetch_geo_prefixes fuel (cr_text K) (\<lambda>k. fetch_geo_prefixes_response K (dbs k) v page_size) 0 [] [] =
    Some (Inr gs') \<and> mset gs' = mset gs"
proof -
  obtain pss gs' where p: "traverse (country_prefixes (cr_net K) (cr_text K) (cr_json K) db) (enabled_geo_countries db) = Inr pss"
    "traverse (parse_geo_prefix (cr_net K)) (concat pss) = Inr gs'" "mset gs' = mset gs" "length pss = length cs"
    using pages_lists [OF cs gs] by blast
  have len: "length gs' = length gs" using mset_eq_length [OF p(3)] .
  then have "length (concat pss) = length gs" using traverse_length [OF p(2)] by simp
  then have "fetch_geo_prefixes fuel (cr_text K) (\<lambda>k. fetch_geo_prefixes_response K (dbs k) v page_size) 0 [] (take 0 gs') =
      Some (Inr gs')"
    using bounds p(4) fuel len by (intro pages_collected [OF N T st p(1,2)]) (simp_all add: token_names_def)
  then show ?thesis using p(3) by auto
qed

section \<open>The snapshot inside the message and outside\<close>

text \<open>The inline load is the external one with the stored prefixes put in.\<close>

lemma inline_snapshot:
  assumes "load_policy_snapshot K now (\<lambda>_. db) r False = Inr s"
  shows "load_policy_snapshot K now (\<lambda>_. db) r True = Inr (s\<lparr>ps_geo_prefixes := []\<rparr>)"
    and "load_geo_countries db default_policy_name = Inr (ps_geo_countries s)"
    and "load_geo_prefixes (cr_net K) (cr_text K) (cr_json K) db (map gc_country (ps_geo_countries s)) True = Inr (ps_geo_prefixes s)"
proof -
  obtain s0 where s0: "load_policy_with_geo_prefixes (cr_net K) (cr_text K) (cr_json K) now (\<lambda>_. db) default_policy_name True = Inr s0"
    and s: "s = inject_runtime_trusted_cidrs s0 (rt_inject (compact_runtime_trusted_cidrs_with_snapshot (cr_net K) s0 r))"
    using assms by (auto simp: load_policy_snapshot_def load_policy_def res_simps)
  note parts = load_policy_parts [OF s0]
  show "load_geo_countries db default_policy_name = Inr (ps_geo_countries s)"
    "load_geo_prefixes (cr_net K) (cr_text K) (cr_json K) db (map gc_country (ps_geo_countries s)) True = Inr (ps_geo_prefixes s)"
    using parts(2,3) by (simp_all add: s inject_runtime_trusted_cidrs_def)
  have none: "load_geo_prefixes N T J db' cs' False = Inr []" for N T J db' cs' by (simp add: load_geo_prefixes_def)
  have "load_policy_with_geo_prefixes (cr_net K) (cr_text K) (cr_json K) now (\<lambda>_. db) default_policy_name False =
      Inr (s0\<lparr>ps_geo_prefixes := []\<rparr>)"
    unfolding load_policy_with_geo_prefixes_def Let_def none parts bindE.simps
    using parts(10,11) by (cases s0) simp
  then show "load_policy_snapshot K now (\<lambda>_. db) r True = Inr (s\<lparr>ps_geo_prefixes := []\<rparr>)"
    by (simp add: load_policy_snapshot_def load_policy_without_geo_prefixes_def s inject_runtime_trusted_cidrs_def
        compact_runtime_trusted_cidrs_with_snapshot_def Let_def)
qed

section \<open>Networks of a loaded policy\<close>

lemma parsed_cidr_valid: "net_text_spec T \<Longrightarrow> parse_cidr T v = Inr n \<Longrightarrow> valid_net n"
  by (auto simp: parse_cidr_def res_simps intro: net_text_spec.parse_valid)

lemma loaded_rules_valid:
  "net_text_spec T \<Longrightarrow> load_firewall_rules T db n = Inr rs \<Longrightarrow> \<forall>r\<in>set rs. valid_net (fr_cidr r)"
  unfolding load_firewall_rules_def
  by (erule traverse_all) (auto simp: parse_rule_def res_simps parsed_cidr_valid)

lemma loaded_bans_valid:
  "net_text_spec T \<Longrightarrow> load_active_temp_bans T now db n = Inr bs \<Longrightarrow> \<forall>b\<in>set bs. valid_net (tb_cidr b)"
  unfolding load_active_temp_bans_def
  by (erule traverse_all) (auto simp: parse_temp_ban_def res_simps Let_def parsed_cidr_valid)

lemma loaded_trusted_nets:
  "net_text_spec T \<Longrightarrow> load_trusted_cidrs T db n = Inr ts \<Longrightarrow> \<forall>t\<in>set ts. valid_net (tc_cidr t)"
  unfolding load_trusted_cidrs_def
  by (erule traverse_all) (auto simp: parse_trusted_cidr_def res_simps parsed_cidr_valid)

lemma loaded_geo_valid:
  assumes "ipnet_spec N" "load_geo_prefixes N T J db cs include = Inr gs"
  shows "\<forall>g\<in>set gs. valid_net (gp_cidr g)"
proof (cases "include")
  case True
  then obtain xs where "traverse (parse_geo_prefix N) xs = Inr gs"
    using assms(2) by (auto simp: load_geo_prefixes_def res_simps)
  then show ?thesis
    by (rule traverse_all)
      (auto simp: parse_geo_prefix_def geo_prefix_to_ipnet_def res_simps ipnet_spec.new_Some_iff [OF assms(1)]
        valid_net_def)
next
  case False
  then show ?thesis using assms(2) by (simp add: load_geo_prefixes_def)
qed

lemma loaded_threats_canonical:
  assumes "ipnet_spec N" "net_text_spec T" "load_persisted_threat_prefixes N T J db n names = Inr ps"
  shows "\<forall>p\<in>set ps. canonical (tp_addr p) (unat (tp_prefix p))"
proof (cases "names = []")
  case True
  then show ?thesis using assms(3) by (simp add: load_persisted_threat_prefixes_def)
next
  case False
  then obtain pss rows where p: "traverse (persisted_prefixes N T J) rows = Inr pss" "ps = normalize_prefixes (concat pss)"
    using assms(3) by (auto simp: load_persisted_threat_prefixes_def res_simps)
  have "\<forall>xs\<in>set pss. \<forall>x\<in>set xs. canonical (tp_addr x) (unat (tp_prefix x))"
  proof (rule traverse_all [OF p(1)])
    fix row xs
    assume "persisted_prefixes N T J row = Inr xs"
    then obtain ss where "traverse (parse_prefix N T) ss = Inr xs" by (auto simp: persisted_prefixes_def res_simps)
    then show "\<forall>x\<in>set xs. canonical (tp_addr x) (unat (tp_prefix x))"
      by (rule traverse_all) (rule net_text_spec.parsed_prefix_canonical [OF assms(2,1)])
  qed
  then show ?thesis using p(2) by auto
qed

lemma loaded_nets_valid:
  assumes "ipnet_spec N" "net_text_spec T" "load_policy_with_geo_prefixes N T J now dbs n include = Inr s"
  shows "snapshot_nets_valid s"
  unfolding snapshot_nets_valid_def list_all_iff
  using loaded_rules_valid [OF assms(2) load_policy_parts(1) [OF assms(3)]]
    loaded_geo_valid [OF assms(1) load_policy_parts(3) [OF assms(3)]]
    loaded_threats_canonical [OF assms(1,2) load_policy_parts(5) [OF assms(3)]]
    loaded_bans_valid [OF assms(2) load_policy_parts(8) [OF assms(3)]]
    loaded_trusted_nets [OF assms(2) load_policy_parts(9) [OF assms(3)]]
  by blast

lemma sent_snapshot:
  assumes "ipnet_spec (cr_net K)" "net_text_spec (cr_text K)"
    and "\<And>n. n \<in> runtime_nets rt \<Longrightarrow> valid_net n"
    and "load_policy_snapshot K now dbs (current_snapshot (cr_net K) rt) external = Inr s"
  shows "snapshot_ok s" "snapshot_nets_valid s" "sorted (map (\<lambda>r. sint (fr_priority r)) (ps_rules s))"
proof -
  let ?r = "current_snapshot (cr_net K) rt"
  obtain s0 where s0: "load_policy_with_geo_prefixes (cr_net K) (cr_text K) (cr_json K) now dbs default_policy_name (\<not> external) = Inr s0"
    and s: "s = inject_runtime_trusted_cidrs s0 (rt_inject (compact_runtime_trusted_cidrs_with_snapshot (cr_net K) s0 ?r))"
    using assms(4) by (auto simp: load_policy_snapshot_def load_policy_def load_policy_without_geo_prefixes_def res_simps split: if_splits)
  show "snapshot_ok s" using loaded_snapshot_ok [OF s0] by (simp add: s snapshot_ok_def inject_runtime_trusted_cidrs_def)
  show "sorted (map (\<lambda>r. sint (fr_priority r)) (ps_rules s))"
    using loaded_rules_sorted [OF load_policy_parts(1) [OF s0]] by (simp add: s inject_runtime_trusted_cidrs_def)
  have "set (compact_by (cidr_covers (cr_net K)) (map tc_cidr (ps_trusted_cidrs s0) @ rt_all ?r)) \<subseteq>
      set (map tc_cidr (ps_trusted_cidrs s0) @ rt_all ?r)"
    by (rule set_compact_by_subset)
  then have "set (rt_inject (compact_runtime_trusted_cidrs_with_snapshot (cr_net K) s0 ?r)) \<subseteq> set (rt_all ?r) \<union> tc_cidr ` set (ps_trusted_cidrs s0)"
    using current_snapshot_nets(2) [of "cr_net K" rt]
    by (auto simp: compact_runtime_trusted_cidrs_with_snapshot_def Let_def compact_covered_cidrs_def)
  moreover have "\<forall>n\<in>set (rt_all ?r). valid_net n" using assms(3) current_snapshot_nets(1) by blast
  moreover note loaded_nets_valid [OF assms(1,2) s0]
  ultimately show "snapshot_nets_valid s"
    by (auto simp: s snapshot_nets_valid_def list_all_iff inject_runtime_trusted_cidrs_def)
qed

end
