(* ===== verification/Distribution_Claims.thy ===== *)
theory Distribution_Claims
  imports Sample_Control Paged_Policy
begin

text \<open>
  The properties of policy loading and distribution: what a loaded policy satisfies, what an update
  carries, the stream, the pages of country prefixes, and the agent.
\<close>

section \<open>Updates\<close>



text \<open>Runtime trust is complete: when every configured and discovered network is truncated to its prefix,
  every address of every one of them is trusted by the policy that is sent, through a static trusted CIDR or
  an injected runtime one, although covered networks are dropped twice on the way.\<close>

theorem runtime_cidrs_all_trusted:
  assumes "ipnet_spec (cr_net K)" and "net_text_spec (cr_text K)"
    and "\<And>n. n \<in> runtime_nets rt \<Longrightarrow> truncated_net n"
    and "load_policy_snapshot K now dbs (current_snapshot (cr_net K) rt) external = Inr s"
  shows "(\<Union>n\<in>runtime_nets rt. net_addresses n) \<subseteq> (\<Union>t\<in>set (ps_trusted_cidrs s). net_addresses (tc_cidr t))"
proof -
  let ?r = "current_snapshot (cr_net K) rt"
  obtain s0 where s0: "load_policy_with_geo_prefixes (cr_net K) (cr_text K) (cr_json K) now dbs default_policy_name (\<not> external) = Inr s0"
    and s: "s = inject_runtime_trusted_cidrs s0 (rt_inject (compact_runtime_trusted_cidrs_with_snapshot (cr_net K) s0 ?r))"
    using assms(4) by (auto simp: load_policy_snapshot_def load_policy_def load_policy_without_geo_prefixes_def res_simps split: if_splits)
  have valid: "t \<in> set (ps_trusted_cidrs s0) \<Longrightarrow> valid_net (tc_cidr t)" for t
    by (rule loaded_trusted_valid [OF assms(2) s0])
  have tr: "n \<in> set (rt_all ?r) \<Longrightarrow> truncated_net n" for n
    using assms(3) current_snapshot_nets(1) by blast
  have "(\<Union>n\<in>runtime_nets rt. net_addresses n) = (\<Union>n\<in>set (rt_all ?r). net_addresses n)"
    using current_snapshot_addresses [OF assms(1,3)] by simp
  also have "\<dots> \<subseteq> (\<Union>t\<in>set (ps_trusted_cidrs s0). net_addresses (tc_cidr t)) \<union>
      (\<Union>n\<in>set (rt_inject (compact_runtime_trusted_cidrs_with_snapshot (cr_net K) s0 ?r)). net_addresses n)"
    by (rule merged_addresses [OF assms(1) valid tr current_snapshot_nets(2)])
  also have "\<dots> \<subseteq> (\<Union>t\<in>set (ps_trusted_cidrs s). net_addresses (tc_cidr t))"
    unfolding s by (rule injected_addresses)
  finally show ?thesis .
qed

theorem runtime_cidrs_all_trusted_witness:
  "V4 0x0A010203 \<in> (\<Union>t\<in>set (ps_trusted_cidrs (sample_pushed True)). net_addresses (tc_cidr t))"
proof -
  have n: "cr_net sample_crates = ref_ipnet" by (simp add: sample_crates_def)
  have nets: "runtime_nets sample_runtime = {Net (V4 0x0A000000) 8, Net (V4 0x0A010000) 16}"
    by (simp add: runtime_nets_def sample_runtime_def)
  have "truncated_net (Net (V4 0x0A000000) 8)" "truncated_net (Net (V4 0x0A010000) 16)" by code_simp+
  then have tr: "x \<in> runtime_nets sample_runtime \<Longrightarrow> truncated_net x" for x using nets by auto
  have "V4 0x0A010203 \<in> net_addresses (Net (V4 0x0A010000) 16)" unfolding net_addresses_def by code_simp
  then show ?thesis
    using runtime_cidrs_all_trusted [OF sample_crates_ok tr sample_loaded_snapshot(1) [folded n]] nets by blast
qed

text \<open>Without truncation the compaction can lose everything: configured networks are parsed but not
  truncated, two spellings of the same network cover each other, and both are dropped.\<close>

theorem untruncated_runtime_cidrs_lost:
  "normalize_runtime_trusted_cidrs ref_net_text [''10.0.0.1/8,10.0.0.2/8''] =
     Inr [Net (V4 0x0A000001) 8, Net (V4 0x0A000002) 8] \<and>
   rt_all (current_snapshot ref_ipnet \<lparr>rc_configured = [Net (V4 0x0A000001) 8, Net (V4 0x0A000002) 8],
     rc_discovery = False, rc_cache = default_k8s_cache\<rparr>) = []"
  by (rule conjI; code_simp)

section \<open>Country prefixes outside the message\<close>

text \<open>C16: the loop over the pages ends and is complete: with the tables and the version settled, whatever page
  size is asked for (0 and absurd sizes included), the agent's loop makes at most one request more than
  there are prefixes, and what it collects is exactly the inline prefix list of the policy, each prefix as
  often as there, up to the order of the countries.\<close>

theorem pages_complete:
  assumes "ipnet_spec (cr_net K)" and "net_text_spec (cr_text K)" and "\<And>k. settled v (dbs k) db"
    and "load_geo_countries db default_policy_name = Inr cs"
    and "load_geo_prefixes (cr_net K) (cr_text K) (cr_json K) db (map gc_country cs) True = Inr gs"
    and "length cs < usize_bound" and "length gs < usize_bound"
  shows "\<exists>gs'. fetch_geo_prefixes (length gs + 1) (cr_text K)
      (\<lambda>k. fetch_geo_prefixes_response K (dbs k) v page_size) 0 [] [] = Some (Inr gs') \<and> mset gs' = mset gs"
  by (rule pages_inline [where dbs = dbs, OF assms]) simp

lemma sample_settled: "settled 5 (\<lambda>_. sample_db) sample_db"
proof -
  have "latest_version sample_db = 5" by code_simp
  then show ?thesis by (simp add: settled_def)
qed

lemma sample_inline:
  "load_geo_countries sample_db default_policy_name = Inr [\<lparr>gc_country = ''ZZ'', gc_action = Deny\<rparr>]"
  "load_geo_prefixes (cr_net sample_crates) (cr_text sample_crates) (cr_json sample_crates) sample_db
     (map gc_country [\<lparr>gc_country = ''ZZ'', gc_action = Deny\<rparr>]) True = Inr sample_geo"
  using inline_snapshot(2,3) [OF sample_loaded_snapshot(2)] by (simp_all add: sample_pushed_def)

theorem pages_complete_witness:
  "\<exists>gs'. fetch_geo_prefixes 3 (cr_text sample_crates)
      (\<lambda>k. fetch_geo_prefixes_response sample_crates (\<lambda>_. sample_db) 5 1) 0 [] [] = Some (Inr gs') \<and>
     mset gs' = mset sample_geo"
proof -
  have l: "length sample_geo + 1 = 3" by (simp add: sample_geo_def)
  have b: "length [\<lparr>gc_country = ''ZZ'', gc_action = Deny\<rparr>] < usize_bound" "length sample_geo < usize_bound"
    using l by simp_all
  show ?thesis
    by (rule pages_complete [where dbs = "\<lambda>_ _. sample_db", OF sample_crates_ok sample_settled sample_inline b, unfolded l])
qed

text \<open>C15: the two ways of sending a policy agree: where the inline message carries the snapshot \<open>s\<close>, the message
  with external prefixes, decoded and completed by the agent from the pages, gives the same snapshot and
  the same version, the prefixes up to their order.\<close>

theorem external_policy_is_inline:
  assumes "ipnet_spec (cr_net K)" and "net_text_spec (cr_text K)" and "\<And>k. settled (latest_version db) (dbs k) db"
    and "load_policy_snapshot K now (\<lambda>_. db) (current_snapshot (cr_net K) rt) False = Inr s"
    and "sc_parse (cr_codec K) (sc_show (cr_codec K) (s\<lparr>ps_geo_prefixes := []\<rparr>)) = Some (s\<lparr>ps_geo_prefixes := []\<rparr>)"
    and "trim (sc_show (cr_codec K) (s\<lparr>ps_geo_prefixes := []\<rparr>)) \<noteq> []"
    and "length (ps_geo_countries s) < usize_bound" and "length (ps_geo_prefixes s) < usize_bound"
    and "sint cur < sint (latest_version db)" and "length (ps_geo_prefixes s) < fuel"
  shows "\<exists>u f gs. build_policy_update K now db (\<lambda>_. db) cur fp rt True = Inr (Some (u, f)) \<and>
     policy_from_update (cr_codec K)
       (\<lambda>v. case fetch_geo_prefixes fuel (cr_text K) (\<lambda>k. fetch_geo_prefixes_response K (dbs k) v page_size) 0 [] [] of
              Some (Inr gs) \<Rightarrow> Inr gs | _ \<Rightarrow> Inl True) u =
       Inr (ps_version s, Some (s\<lparr>ps_geo_prefixes := gs\<rparr>), False) \<and>
     mset gs = mset (ps_geo_prefixes s)"
proof -
  note i = inline_snapshot [OF assms(4)]
  have v: "ps_version s = latest_version db" by (rule loaded_snapshot_version [OF assms(4)])
  let ?u = "make_policy_update K (latest_version db) (s\<lparr>ps_geo_prefixes := []\<rparr>) True"
  have b: "build_policy_update K now db (\<lambda>_. db) cur fp rt True =
      Inr (Some (?u, cidr_fingerprint (rt_all (current_snapshot (cr_net K) rt))))"
    using assms(9) i(1) by (simp add: build_policy_update_def Let_def policy_update_unchanged_def)
  obtain gs where g: "fetch_geo_prefixes fuel (cr_text K)
      (\<lambda>k. fetch_geo_prefixes_response K (dbs k) (latest_version db) page_size) 0 [] [] = Some (Inr gs)"
    "mset gs = mset (ps_geo_prefixes s)"
    using pages_inline [where dbs = dbs and page_size = page_size, OF assms(1-3) i(2,3) assms(7,8,10)] by blast
  have "policy_snapshot_from_update (cr_codec K) ?u = Inr (Some (s\<lparr>ps_geo_prefixes := []\<rparr>))"
    using assms(5,6) by (simp add: policy_snapshot_from_update_def make_policy_update_def)
  then show ?thesis
    using b g by (intro exI conjI) (assumption | simp add: policy_from_update_def make_policy_update_def v)+
qed

theorem external_policy_is_inline_witness:
  "\<exists>u f gs. build_policy_update sample_crates 0 sample_db (\<lambda>_. sample_db) (- 1) None sample_runtime True = Inr (Some (u, f)) \<and>
     policy_from_update (cr_codec sample_crates)
       (\<lambda>v. case fetch_geo_prefixes 3 (cr_text sample_crates)
                   (\<lambda>k. fetch_geo_prefixes_response sample_crates (\<lambda>_. sample_db) v 0) 0 [] [] of
              Some (Inr gs) \<Rightarrow> Inr gs | _ \<Rightarrow> Inl True) u =
       Inr (5, Some ((sample_pushed False)\<lparr>ps_geo_prefixes := gs\<rparr>), False) \<and>
     mset gs = mset sample_geo"
proof -
  have v: "latest_version sample_db = 5" by code_simp
  have n: "cr_net sample_crates = ref_ipnet" by (simp add: sample_crates_def)
  have st: "settled (latest_version sample_db) (\<lambda>_. sample_db) sample_db" using sample_settled v by simp
  have s: "(sample_pushed False)\<lparr>ps_geo_prefixes := []\<rparr> = sample_pushed True" by (simp add: sample_pushed_def)
  have c: "sc_parse (cr_codec sample_crates) (sc_show (cr_codec sample_crates) (sample_pushed True)) = Some (sample_pushed True)"
    "trim (sc_show (cr_codec sample_crates) (sample_pushed True)) \<noteq> []"
    by (simp add: sample_crates_def) code_simp
  have l: "length (ps_geo_countries (sample_pushed False)) < usize_bound" "length (ps_geo_prefixes (sample_pushed False)) < usize_bound"
    "length (ps_geo_prefixes (sample_pushed False)) < 3" "ps_version (sample_pushed False) = 5"
    "ps_geo_prefixes (sample_pushed False) = sample_geo"
    by (simp_all add: sample_pushed_def sample_geo_def)
  have "sint (- 1 :: i64) < sint (latest_version sample_db)" by (simp add: v)
  from external_policy_is_inline [where dbs = "\<lambda>_ _. sample_db", OF sample_crates_ok st
      sample_loaded_snapshot(2) [folded n] _ _ l(1,2) this l(3), unfolded s, OF c, unfolded l(4,5)]
  show ?thesis .
qed

text \<open>C17: every policy the control plane sends can be installed: what passes the load of the database compiles,
  with the prefixes inside or outside the message, its networks are well formed, and the compiled rules are
  in the order of their priority.\<close>

theorem sent_policy_compiles:
  assumes "ipnet_spec (cr_net K)" and "net_text_spec (cr_text K)"
    and "\<And>n. n \<in> runtime_nets rt \<Longrightarrow> valid_net n"
    and "load_policy_snapshot K now dbs (current_snapshot (cr_net K) rt) external = Inr s"
  shows "\<exists>p. compile_policy (cr_net K) clock s = Inr p \<and> wf_compiled p \<and>
    sorted (map (\<lambda>r. sint (xr_priority r)) (cp_rules p)) \<and> cp_version p = ps_version s"
proof -
  note l = sent_snapshot [OF assms]
  obtain p where p: "compile_policy (cr_net K) clock s = Inr p" using l(1) compile_policy_ok_iff by blast
  have "map (\<lambda>r. sint (xr_priority r)) (cp_rules p) = map (\<lambda>r. sint (fr_priority r)) (ps_rules s)"
    by (simp add: compile_policy_fields(3) [OF p] compile_firewall_rules_def split: prod.split)
  then show ?thesis
    using p compile_policy_wf [OF assms(1) l(2) p] l(3) compile_policy_fields(1) [OF p] by auto
qed

theorem sent_policy_compiles_witness:
  "\<exists>p. compile_policy ref_ipnet (\<lambda>_. 0) (sample_pushed False) = Inr p \<and> cp_version p = 5"
proof -
  have n: "cr_net sample_crates = ref_ipnet" by (simp add: sample_crates_def)
  have "x \<in> runtime_nets sample_runtime \<Longrightarrow> valid_net x" for x
    by (auto simp: runtime_nets_def sample_runtime_def valid_net_def)
  from sent_policy_compiles [OF sample_crates_ok this sample_loaded_snapshot(2) [folded n], of "\<lambda>_. 0"]
  show ?thesis by (auto simp: n) (auto simp: sample_pushed_def)
qed

section \<open>The stream and the registry\<close>

text \<open>While a stream runs, its cursor says what the client has been told: its version is the one of the last
  policy put on the channel (the client's own before the first), its monitor setting that of the last
  message, and the channel holds the unread tail of what was sent, at most eight messages. A policy whose
  send fails is therefore never taken for delivered.\<close>

theorem stream_cursor_is_sent:
  assumes "\<And>s. sc_show (cr_codec K) s \<noteq> []" and "stream_reach K req w"
  shows "length (ch_queue (sw_channel w)) \<le> 8 \<and>
    (sw_running w \<longrightarrow>
       pc_version (sw_cursor w) = told_version (sr_current_version req) (sw_sent w) \<and>
       pc_drop_monitor_enabled (sw_cursor w) = told_monitor (sw_sent w) \<and>
       (\<exists>k\<le>length (sw_sent w). ch_queue (sw_channel w) = map Inr (drop k (sw_sent w))))"
  using stream_reach_inv [OF assms] by (simp add: stream_inv_def)

theorem stream_cursor_is_sent_witness:
  "told_version (- 1) (sw_sent (stream_turn sample_crates \<lparr>sr_current_version = - 1, sr_external = True\<rparr> 0 sample_db
     (\<lambda>_. sample_db) sample_runtime False (stream_start \<lparr>sr_current_version = - 1, sr_external = True\<rparr> False))) = 5"
proof -
  define req where "req = \<lparr>sr_current_version = (- 1 :: i64), sr_external = True\<rparr>"
  define w where "w = stream_turn sample_crates req 0 sample_db (\<lambda>_. sample_db) sample_runtime False (stream_start req False)"
  have v: "latest_version sample_db = 5" by code_simp
  have n: "cr_net sample_crates = ref_ipnet" by (simp add: sample_crates_def)
  have r: "sw_running w" "pc_version (sw_cursor w) = 5"
    using v sample_loaded_snapshot(1)
    by (simp_all add: w_def req_def stream_turn_def stream_start_def Let_def new_cursor_def empty_channel_def
        build_policy_update_def policy_update_unchanged_def n send_available_policy_update_def
        send_policy_update_def try_send_def make_policy_update_def)
  have "stream_reach sample_crates req w"
    unfolding w_def by (rule stream_reach.turns [OF stream_reach.starts]) (simp add: stream_start_def Let_def)
  moreover have "sc_show (cr_codec sample_crates) s \<noteq> []" for s by (simp add: sample_crates_def)
  ultimately have "told_version (sr_current_version req) (sw_sent w) = 5"
    using stream_cursor_is_sent [of sample_crates req w] r by simp
  then show ?thesis by (simp add: w_def req_def)
qed

text \<open>C18: the drop monitor of a node is asked for exactly while some live subscription covers it: after any
  sequence of subscribing and dropping, the registry enables a node if and only if a live subscription is
  for all nodes or for that node.\<close>

theorem monitor_enabled_iff_subscribed:
  assumes "registry_reach r live"
  shows "enabled_for_node r node_id \<longleftrightarrow> None \<in># live \<or> Some node_id \<in># live"
  using registry_counts [OF assms] by (simp add: enabled_for_node_def)

theorem monitor_enabled_iff_subscribed_witness:
  "enabled_for_node (snd (registry_add (Some ''n1'') new_registry)) ''n1'' \<and>
   \<not> enabled_for_node (snd (registry_add (Some ''n1'') new_registry)) ''n2''"
proof -
  have "fst (registry_add (Some ''n1'') new_registry) = Some ''n1''" by code_simp
  then have "registry_add (Some ''n1'') new_registry = (Some ''n1'', snd (registry_add (Some ''n1'') new_registry))"
    by (metis prod.collapse)
  from registry_reach.subscribed [OF registry_reach.fresh this]
  show ?thesis using monitor_enabled_iff_subscribed by simp
qed

end
