(* ===== verification/Agent_Effects.thy ===== *)
theory Agent_Effects
  imports Paged_Policy Xdp_Progress
begin

text \<open>
  What the agent's handlers do to the packets: unloading succeeds in every state the maps can be in
  and opens the node, and an applied policy always lets the control plane's own address through.
\<close>

section \<open>Unloading succeeds\<close>

definition within_capacity :: "linux_xdp_manager \<Rightarrow> bool" where
  "within_capacity m \<longleftrightarrow>
     card (fst ` set (xm_rule_cidrs m)) \<le> unat (rule_entries (xm_map_sizes m)) \<and>
     card (fst ` set (xm_geo_cidrs m)) \<le> unat (geo_entries (xm_map_sizes m)) \<and>
     card (fst ` set (xm_trusted_cidrs m)) \<le> unat (trusted_entries (xm_map_sizes m)) \<and>
     card (fst ` set (xm_country_rules m)) \<le> unat (country_entries (xm_map_sizes m)) \<and>
     card (fst ` set (xm_custom_rate_limits m)) \<le> unat (custom_rate_limit_entries (xm_map_sizes m)) \<and>
     card (fst ` set (xm_temp_bans m)) \<le> unat (temp_ban_entries (xm_map_sizes m))"

text \<open>The kernel answers every call the unload makes.\<close>

definition unload_answers :: "agent_env \<Rightarrow> linux_xdp_manager \<Rightarrow> bool" where
  "unload_answers V m \<longleftrightarrow> env_bounded (av_xdp V) (xm_map_sizes m) \<and> xe_set_defense (av_xdp V) \<and>
     (\<exists>clock. monotonic_now_ns (xe_timespec (av_xdp V)) = Inr clock)"

lemma empty_pending_lists:
  "snd (pending_rules N locals (empty_policy v)) = []"
  "snd (pending_temp_bans N locals [] now) = []"
  "snd (pending_geo_prefixes []) = []" "snd (pending_country_rules []) = []"
  "snd (pending_custom_rate_limits []) = []" "snd (pending_trusted_keys N []) = []"
  by (simp_all add: pending_rules_fold installable_rules_def ordered_policy_rules_def empty_policy_def
      pending_temp_bans_fold installable_bans_def compact_temp_bans_def pending_geo_prefixes_def
      pending_country_rules_def pending_custom_rate_limits_def pending_trusted_keys_def compact_trusted_prefixes_def)

lemma empty_policy_room:
  "within_capacity m \<Longrightarrow> room_for m (build_pending_policy_keys N (xm_locals m) (empty_policy v) now)"
  unfolding room_for_def pending_fields empty_policy_fields empty_pending_lists within_capacity_def by simp

lemma empty_policy_required:
  "\<exists>req. required_policy_map_sizes N m (empty_policy v) = Inr req \<and> fits req (xm_map_sizes m)"
proof -
  have z: "usize_to_u32 nm 0 = Inr 0" for nm by (simp add: usize_to_u32_code)
  show ?thesis
    by (simp add: required_policy_map_sizes_def empty_policy_def z checked_usize_add_def Let_def fits_def
        compact_trusted_prefixes_def compact_temp_bans_def)
qed

lemma unload_succeeds:
  assumes "unload_answers V m" "all_maps_distinct m" "within_capacity m"
  shows "\<exists>m'. unload_firewall_rules_for_offline_mode V v m = (m', Inr ())"
proof -
  let ?p = "empty_policy (i64_max0 v)"
  obtain clock where c: "monotonic_now_ns (xe_timespec (av_xdp V)) = Inr clock"
    using assms(1) by (auto simp: unload_answers_def)
  obtain req where r: "required_policy_map_sizes (av_net V) m ?p = Inr req" "fits req (xm_map_sizes m)"
    using empty_policy_required by blast
  have "\<exists>m'. apply_to_current_maps (av_net V) (av_xdp V) (av_wall V) ?p m = (m', Inr ())"
    using assms(1) by (intro apply_current_ok [OF r _ assms(2) _ c empty_policy_room [OF assms(3)]])
      (simp_all add: unload_answers_def)
  moreover have "resized_map_sizes (xm_map_sizes m) req = Inr None" using r(2) by (simp add: resized_None_iff)
  ultimately show ?thesis
    using r(1) by (simp add: unload_firewall_rules_for_offline_mode_def apply_policy_def)
qed

lemma disable_fields:
  "fst (drop_monitor_disable V (m, h)) = m \<or> (\<exists>c. fst (drop_monitor_disable V (m, h)) = m\<lparr>xm_drop_config := c\<rparr>)"
  by (auto simp: drop_monitor_disable_def set_drop_monitor_enabled_def)

lemma failure_unloads:
  assumes "should_unload_rules (aa_offline_mode (ar_args a)) (aa_offline_failure_limit (ar_args a))
      (record_control_plane_failure (ar_offline a))"
    and "unload_answers V (ar_xdp a)" "all_maps_distinct (ar_xdp a)" "within_capacity (ar_xdp a)"
  shows "\<exists>a'. handle_control_plane_failure V a = (a', Inr ())"
proof -
  obtain xdp h where x: "drop_monitor_disable V (ar_xdp a, ar_drop_monitor a) = (xdp, h)"
    by (cases "drop_monitor_disable V (ar_xdp a, ar_drop_monitor a)")
  then have "unload_answers V xdp \<and> all_maps_distinct xdp \<and> within_capacity xdp"
    using disable_fields [of V "ar_xdp a" "ar_drop_monitor a"] assms(2-4)
    by (auto simp: unload_answers_def all_maps_distinct_def within_capacity_def)
  then obtain m' where "unload_firewall_rules_for_offline_mode V (ar_applied_version a) xdp = (m', Inr ())"
    using unload_succeeds by blast
  then show ?thesis using assms(1) x by (simp add: handle_control_plane_failure_def Let_def)
qed

section \<open>After an unload\<close>

lemma failures_keep_unloaded:
  "op_rules_unloaded (ar_offline a) \<Longrightarrow>
     ar_xdp (fold (\<lambda>V a. fst (handle_control_plane_failure V a)) Vs a) = ar_xdp a \<and>
     op_rules_unloaded (ar_offline (fold (\<lambda>V a. fst (handle_control_plane_failure V a)) Vs a))"
proof (induction Vs arbitrary: a)
  case (Cons V Vs)
  then show ?case
    using Cons.IH [of "a\<lparr>ar_offline := record_control_plane_failure (ar_offline a)\<rparr>"]
    by (simp add: failure_unloaded failure_count)
qed simp

section \<open>The control plane stays reachable\<close>

lemma resize_attached:
  "resize_maps E sizes m = (m', Inr u) \<longleftrightarrow>
     (\<exists>m1. detach_and_remove_pinned_maps_for_resize E m = (m1, Inr ()) \<and>
        xe_attach E sizes (xm_attach_options m1) = Inr m')"
proof (cases "detach_and_remove_pinned_maps_for_resize E m")
  case (Pair m1 r)
  then show ?thesis
    by (cases r; cases "xe_attach E sizes (xm_attach_options m1)")
      (auto simp: resize_maps_def then_step_def)
qed

lemma apply_policy_current:
  "apply_policy N E now p m = (m', Inr u) \<Longrightarrow>
     apply_to_current_maps N E now p m = (m', Inr u) \<or>
     (\<exists>sizes opts m0. xe_attach E sizes opts = Inr m0 \<and> apply_to_current_maps N E now p m0 = (m', Inr u))"
  by (auto simp: apply_policy_def res_simps resize_attached split: sum.splits option.splits if_splits)

lemma fold_trusted_fields:
  "ps_rules (fold add_control_plane_trusted_cidr nets s) = ps_rules s"
  "ps_temp_bans (fold add_control_plane_trusted_cidr nets s) = ps_temp_bans s"
  "ps_geo_prefixes (fold add_control_plane_trusted_cidr nets s) = ps_geo_prefixes s"
  "ps_threat_prefixes (fold add_control_plane_trusted_cidr nets s) = ps_threat_prefixes s"
  "tc_cidr ` set (ps_trusted_cidrs (fold add_control_plane_trusted_cidr nets s)) = tc_cidr ` set (ps_trusted_cidrs s) \<union> set nets"
  by (induction nets arbitrary: s) (auto simp: add_control_plane_trusted_cidr_def list_ex_iff)

lemma fold_trusted_valid:
  assumes "snapshot_nets_valid s" "\<And>n. n \<in> set nets \<Longrightarrow> valid_net n"
  shows "snapshot_nets_valid (fold add_control_plane_trusted_cidr nets s)"
proof -
  have "\<forall>n\<in>tc_cidr ` set (ps_trusted_cidrs (fold add_control_plane_trusted_cidr nets s)). valid_net n"
    unfolding fold_trusted_fields(5) using assms by (auto simp: snapshot_nets_valid_def list_all_iff)
  then have "\<forall>t\<in>set (ps_trusted_cidrs (fold add_control_plane_trusted_cidr nets s)). valid_net (tc_cidr t)" by blast
  then show ?thesis using assms(1) by (simp add: snapshot_nets_valid_def list_all_iff fold_trusted_fields)
qed

lemma control_plane_trusted:
  assumes N: "ipnet_spec (av_net V)" and nets: "snapshot_nets_valid s"
    and url: "control_plane_host_port url = Inr (host, port)" "parse_ip host = Some ip"
    and ap: "apply_latest V s url m = (m', Inr v)"
  shows "\<exists>p. wf_compiled p \<and> apply_policy (av_net V) (av_xdp V) (av_wall V) p m = (m', Inr ()) \<and>
    (\<exists>x\<in>set (cp_trusted_prefixes p). ip \<in> trusted_addresses x)"
proof -
  define len :: u8 where "len = (if is_ipv4 ip then 32 else 128)"
  let ?n = "Net ip len"
  have w: "unat len = ip_width ip" by (cases ip) (simp_all add: len_def)
  then have vn: "valid_net ?n" by (simp add: valid_net_def)
  have "net_new (av_net V) ip len = Some ?n" using w by (simp add: ipnet_spec.new_eq [OF N])
  then have r: "resolve_control_plane_prefixes (av_net V) url = Inr [?n]"
    using url by (simp add: resolve_control_plane_prefixes_def ip_literal_prefix_def len_def [symmetric])
  let ?s = "fold add_control_plane_trusted_cidr [?n] s"
  obtain p where p: "compile_policy (av_net V) (av_clock V) ?s = Inr p"
    and a: "apply_policy (av_net V) (av_xdp V) (av_wall V) p m = (m', Inr ())"
    using ap r by (auto simp: apply_latest_def add_control_plane_trusted_cidrs_def res_simps
        split: sum.splits prod.splits)
  have v: "snapshot_nets_valid ?s" by (rule fold_trusted_valid [OF nets]) (use vn in auto)
  have "?n \<in> tc_cidr ` set (ps_trusted_cidrs ?s)" unfolding fold_trusted_fields(5) by simp
  then obtain t where t: "t \<in> set (ps_trusted_cidrs ?s)" "tc_cidr t = ?n" by auto
  let ?x = "\<lparr>xt_addr = net_network (av_net V) ?n, xt_prefix = len\<rparr>"
  have "?x \<in> set (cp_trusted_prefixes p)"
    using t by (force simp: compile_policy_fields(2) [OF p] compile_trusted_prefixes_def cidr_network_def)
  moreover have "ip \<in> trusted_addresses ?x"
    using ipnet_spec.network_in_prefix [OF N vn] by (simp add: trusted_addresses_def in_prefix_sym)
  ultimately show ?thesis using compile_policy_wf [OF N v p] a by blast
qed

end
