(* ===== verification/Sample_Agent.thy ===== *)
theory Sample_Agent
  imports Agent_Effects Sample_Control
begin

text \<open>A small agent for the witnesses: its environment, the policy it compiles, and an apply that fails
  after the rules have been written.\<close>

definition sample_agent_env :: agent_env where
  "sample_agent_env = \<lparr>av_net = ref_ipnet, av_xdp = sample_env, av_wall = 1000, av_clock = (\<lambda>_. 1000), av_pin_path = True\<rparr>"

definition sample_url :: string where "sample_url = ''http://198.51.101.10:80''"

definition sample_agent_args :: agent_args where
  "sample_agent_args = \<lparr>aa_control_url = sample_url, aa_offline_mode = UnloadRules, aa_offline_failure_limit = 2\<rparr>"

definition sample_rule :: xdp_prefix_rule where
  "sample_rule = \<lparr>xr_addr = V4 0xC6336500, xr_prefix = 24, xr_priority = 20, xr_action = Deny,
     xr_protocol = Tcp, xr_port = 22, xr_source = FirewallRuleSource\<rparr>"

definition sample_geo_compiled :: "xdp_geo_prefix list" where
  "sample_geo_compiled =
     [\<lparr>xg_addr = V4 0xCB007200, xg_prefix = 24, xg_country = 0x5A5A\<rparr>,
      \<lparr>xg_addr = V4 0xCB007300, xg_prefix = 24, xg_country = 0x5A5A\<rparr>]"

definition sample_compiled :: compiled_policy where
  "sample_compiled =
     \<lparr>cp_version = 5,
      cp_trusted_prefixes = [\<lparr>xt_addr = V4 0x0A000000, xt_prefix = 8\<rparr>, \<lparr>xt_addr = V4 0xC633650A, xt_prefix = 32\<rparr>],
      cp_rules = [sample_rule], cp_country_rules = [\<lparr>xc_country = 0x5A5A, xc_action = Deny\<rparr>],
      cp_temp_bans = [], cp_dynamic_defense = compile_dynamic_defense default_dynamic_defense,
      cp_dynamic_rate_limits = [], cp_geo_prefixes = sample_geo_compiled, cp_threat_prefixes = []\<rparr>"

definition sample_trusting :: policy_snapshot where
  "sample_trusting = add_control_plane_trusted_cidr (Net (V4 0xC633650A) 32) (sample_pushed False)"

lemma sample_compiled_parts:
  "compile_trusted_prefixes ref_ipnet (ps_trusted_cidrs sample_trusting) = cp_trusted_prefixes sample_compiled"
  "compile_firewall_rules ref_ipnet (ps_rules sample_trusting) = cp_rules sample_compiled"
  "compile_active_temp_bans ref_ipnet (\<lambda>_. 1000) (ps_temp_bans sample_trusting) = cp_temp_bans sample_compiled"
  "compile_dynamic_rate_limits (ps_dynamic_rate_limits sample_trusting) = cp_dynamic_rate_limits sample_compiled"
  "compile_threat_prefixes (ps_threat_prefixes sample_trusting) = cp_threat_prefixes sample_compiled"
  "compile_country_rules (ps_geo_countries sample_trusting) = Inr (cp_country_rules sample_compiled)"
  "compile_geo_prefixes ref_ipnet (ps_geo_prefixes sample_trusting) = Inr (cp_geo_prefixes sample_compiled)"
  by code_simp+

lemma sample_trusting_valid: "validate_policy sample_trusting = Inr ()"
  by code_simp

lemma sample_compile:
  "compile_policy ref_ipnet (\<lambda>_. 1000) sample_trusting = Inr sample_compiled"
proof -
  have f: "ps_version sample_trusting = cp_version sample_compiled"
    "compile_dynamic_defense (ps_dynamic_defense sample_trusting) = cp_dynamic_defense sample_compiled"
    by (simp_all add: sample_trusting_def add_control_plane_trusted_cidr_def sample_pushed_def sample_compiled_def)
  show ?thesis
    by (simp add: compile_policy_def sample_trusting_valid sample_compiled_parts f)
qed

lemma sample_url_steps:
  "strip_prefix ''http://'' sample_url = Some ''198.51.101.10:80''"
  "hd (split_on (\<lambda>c. c = CHR ''/'') ''198.51.101.10:80'') = ''198.51.101.10:80''"
  "strip_prefix ''['' ''198.51.101.10:80'' = None"
  "rsplit_once CHR '':'' ''198.51.101.10:80'' = Some (''198.51.101.10'', ''80'')"
  by code_simp+

lemma sample_port: "parse_port ''80'' = Inr 80"
proof -
  have "dec_nat 80 = ''80''" by code_simp
  then have "parse_uint 65536 ''80'' = Some 80" using parse_uint_dec [of 80 65536] by simp
  then show ?thesis by (simp add: parse_port_def)
qed

lemma sample_url_parsed:
  "control_plane_host_port sample_url = Inr (''198.51.101.10'', 80)" "parse_ip ''198.51.101.10'' = Some (V4 0xC633650A)"
  by (simp add: control_plane_host_port_def unbracketed_host_port_def sample_url_steps sample_port) code_simp

lemma sample_url_trusted:
  "add_control_plane_trusted_cidrs ref_ipnet sample_url s = Inr (add_control_plane_trusted_cidr (Net (V4 0xC633650A) 32) s)"
proof -
  have "net_new ref_ipnet (V4 0xC633650A) 32 = Some (Net (V4 0xC633650A) 32)" by code_simp
  then show ?thesis
    by (simp add: add_control_plane_trusted_cidrs_def resolve_control_plane_prefixes_def sample_url_parsed ip_literal_prefix_def)
qed

lemma sample_compiled_required:
  "required_policy_map_sizes ref_ipnet sample_manager sample_compiled =
     Inr \<lparr>rule_entries = 1, geo_entries = 2, trusted_entries = 2, country_entries = 1,
          rate_entries = 8, custom_rate_limit_entries = 0, temp_ban_entries = 0\<rparr>"
  by code_simp

lemma sample_compiled_fits:
  "fits \<lparr>rule_entries = 1, geo_entries = 2, trusted_entries = 2, country_entries = 1,
     rate_entries = 8, custom_rate_limit_entries = 0, temp_ban_entries = 0\<rparr> (xm_map_sizes sample_manager)"
  by code_simp

lemma sample_apply_current:
  "apply_latest (sample_agent_env\<lparr>av_xdp := E\<rparr>) (sample_pushed False) sample_url sample_manager =
     (let (xdp, r) = apply_to_current_maps ref_ipnet E 1000 sample_compiled sample_manager in (xdp, mapE (\<lambda>_. 5) r))"
proof -
  have "resized_map_sizes (xm_map_sizes sample_manager)
      \<lparr>rule_entries = 1, geo_entries = 2, trusted_entries = 2, country_entries = 1,
       rate_entries = 8, custom_rate_limit_entries = 0, temp_ban_entries = 0\<rparr> = Inr None"
    using sample_compiled_fits by (simp only: resized_None_iff)
  then have "apply_policy ref_ipnet E 1000 sample_compiled sample_manager =
      apply_to_current_maps ref_ipnet E 1000 sample_compiled sample_manager"
    by (simp add: apply_policy_def sample_compiled_required)
  moreover have "cp_version sample_compiled = 5" by (simp add: sample_compiled_def)
  ultimately show ?thesis
    by (simp add: apply_latest_def sample_agent_env_def sample_url_trusted sample_trusting_def [symmetric] sample_compile)
qed

lemma sample_agent_applies:
  "\<exists>m'. apply_latest sample_agent_env (sample_pushed False) sample_url sample_manager = (m', Inr 5)"
proof -
  have "room_for sample_manager (build_pending_policy_keys ref_ipnet (xm_locals sample_manager) sample_compiled 1000)"
    by code_simp
  moreover have "xe_set_defense sample_env" by (simp add: sample_env_def)
  moreover have "cp_temp_bans sample_compiled = []" by (simp add: sample_compiled_def)
  ultimately obtain m' where "apply_to_current_maps ref_ipnet sample_env 1000 sample_compiled sample_manager = (m', Inr ())"
    using apply_current_ok [OF sample_compiled_required sample_compiled_fits sample_env_bounded sample_distinct(1) _ sample_clock]
    by fastforce
  moreover have "sample_agent_env\<lparr>av_xdp := sample_env\<rparr> = sample_agent_env" by (simp add: sample_agent_env_def)
  ultimately show ?thesis using sample_apply_current [of sample_env] by simp
qed

section \<open>An apply that fails half-way\<close>

definition full_geo_env :: xdp_env where
  "full_geo_env = sample_env\<lparr>xe_geo := bounded_env 0\<rparr>"

lemma sample_pending:
  "pk_temp_bans (build_pending_policy_keys ref_ipnet (xm_locals sample_manager) sample_compiled 1000) = []"
  "pk_custom_rate_limits (build_pending_policy_keys ref_ipnet (xm_locals sample_manager) sample_compiled 1000) = []"
  "length (pk_trusted_keys (build_pending_policy_keys ref_ipnet (xm_locals sample_manager) sample_compiled 1000)) = 2"
  "pk_rules (build_pending_policy_keys ref_ipnet (xm_locals sample_manager) sample_compiled 1000) = [(xr_key sample_rule, sample_rule)]"
  "length (pk_geo_prefixes (build_pending_policy_keys ref_ipnet (xm_locals sample_manager) sample_compiled 1000)) = 2"
  by code_simp+

lemma half_applied:
  "\<exists>m' e. apply_latest (sample_agent_env\<lparr>av_xdp := full_geo_env\<rparr>) (sample_pushed False) sample_url sample_manager = (m', Inl e) \<and>
     xm_rule_cidrs m' = [(xr_key sample_rule, rule_value sample_rule)]"
proof -
  let ?E = full_geo_env and ?pk = "build_pending_policy_keys ref_ipnet (xm_locals sample_manager) sample_compiled 1000"
  let ?m1 = "sample_manager\<lparr>xm_defense_policy := defense_value (cp_dynamic_defense sample_compiled)\<rparr>"
  have card: "card (fst ` set (xm_trusted_cidrs ?m1) \<union> id ` set (pk_trusted_keys ?pk)) \<le> 8"
    using card_length [of "pk_trusted_keys ?pk"] sample_pending(3) by (simp add: sample_manager_def)
  obtain b where b: "put_trusted_keys ?E (pk_trusted_keys ?pk) ?m1 = (?m1\<lparr>xm_trusted_cidrs := b\<rparr>, Inr ())"
    using put_step_ok [of "xe_trusted ?E" 8 xm_trusted_cidrs ?m1 id "pk_trusted_keys ?pk" "\<lambda>_. Inr (Some 1)"
        "\<lambda>x m. m\<lparr>xm_trusted_cidrs := x\<rparr>" "''trusted_cidrs''"] card bounded.kernel_map_axioms [of 8]
    by (auto simp: put_trusted_keys_def full_geo_env_def sample_env_def sample_manager_def id_def)
  let ?m2 = "?m1\<lparr>xm_trusted_cidrs := b\<rparr>"
  let ?m3 = "?m2\<lparr>xm_rule_cidrs := [(xr_key sample_rule, rule_value sample_rule)]\<rparr>"
  have r: "put_rules ?E (pk_rules ?pk) ?m2 = (?m3, Inr ())"
    unfolding sample_pending
    by (simp add: put_rules_def on_map_def kmap_insert_def full_geo_env_def sample_env_def
        sample_manager_def bounded_env_def)
  obtain g gs where g: "pk_geo_prefixes ?pk = g # gs" using sample_pending(5) by (cases "pk_geo_prefixes ?pk") auto
  obtain m4 er where m4: "put_geo_prefixes ?E (pk_geo_prefixes ?pk) ?m3 = (m4, Inl er)" "xm_rule_cidrs m4 = xm_rule_cidrs ?m3"
    unfolding g
    by (cases g) (simp add: put_geo_prefixes_def on_map_def kmap_insert_def full_geo_env_def sample_env_def
        sample_manager_def bounded_env_def)
  have none: "put_temp_bans ?E 1000 c [] m = (m, Inr ())" "put_custom_rates ?E [] m = (m, Inr ())" for c m
    by (simp_all add: put_temp_bans_def put_custom_rates_def on_map_def)
  have p: "put_pending ?E 1000 c ?pk ?m1 = (m4, Inl er)" for c
    by (simp add: put_pending_def then_step_def sample_pending none b r [unfolded sample_pending] m4(1))
  have v: "validate_map_capacity \<lparr>rule_entries = 1, geo_entries = 2, trusted_entries = 2, country_entries = 1,
     rate_entries = 8, custom_rate_limit_entries = 0, temp_ban_entries = 0\<rparr> (xm_map_sizes sample_manager) = Inr ()"
    using sample_compiled_fits by (simp only: validate_map_capacity_iff)
  have "xe_set_defense ?E" "monotonic_now_ns (xe_timespec ?E) = Inr 5000000000"
    using sample_clock by (simp_all add: full_geo_env_def sample_env_def)
  then have "apply_to_current_maps ref_ipnet ?E 1000 sample_compiled sample_manager = (m4, Inl er)"
    using p by (simp add: apply_to_current_maps_def sample_compiled_required v put_dynamic_defense_def then_step_def Let_def)
  then show ?thesis using m4(2) by (simp add: sample_apply_current)
qed

end
