(* ===== verification/Agent_Claims.thy ===== *)
theory Agent_Claims
  imports Sample_Agent
begin

text \<open>
  The properties of the agent: what happens to the traffic when the control plane is away, what the agent
  asks for when it comes back, and that its rules never cut it off.
\<close>

section \<open>Maps with entries\<close>

definition sample_filled :: linux_xdp_manager where
  "sample_filled = sample_manager
     \<lparr>xm_rule_cidrs := [(xr_key sample_rule, rule_value sample_rule)], xm_country_rules := [(0x5A5A, ACTION_DENY)]\<rparr>"


lemma sample_filled_within: "all_maps_distinct sample_filled" "within_capacity sample_filled"
  by (simp_all add: all_maps_distinct_def within_capacity_def sample_filled_def sample_manager_def sample_sizes_def)

lemma sample_unload_answers: "unload_answers sample_agent_env sample_filled"
proof -
  have "env_bounded sample_env (xm_map_sizes sample_filled)"
    using sample_env_bounded by (simp add: sample_filled_def)
  moreover have "xe_set_defense sample_env" by (simp add: sample_env_def)
  ultimately show ?thesis using sample_clock by (simp add: unload_answers_def sample_agent_env_def)
qed

section \<open>Offline\<close>



text \<open>C21: an agent that has unloaded gets the policy back: in every reachable state with the rules unloaded,
  the subscription asks for version -1, and to that the control plane never answers "unchanged" but with a
  policy (or an error), whatever its version is, the default 0 included.\<close>

theorem unloaded_agent_gets_policy:
  assumes "agent_reach C args (ph, a)" and "op_rules_unloaded (ar_offline a)"
    and "connect_and_subscribe V True True True a = (a', Inr (Some v))"
    and "0 \<le> sint (latest_version dbv)"
  shows "v = - 1 \<and> build_policy_update K now dbv dbs v None rt external \<noteq> Inr None"
proof -
  have "v = - 1" using reach_unloaded_inv [OF assms(1)] assms(2,3) by (simp add: unloaded_inv_def connect_and_subscribe_def)
  then show ?thesis using assms(4)
    by (auto simp: build_policy_update_def Let_def policy_update_unchanged_def res_simps)
qed

lemma unloaded_reached:
  "\<exists>a. agent_reach C (sample_agent_args\<lparr>aa_offline_failure_limit := 1\<rparr>) (Connecting, a) \<and> op_rules_unloaded (ar_offline a)"
proof -
  let ?a = "attached_agent (sample_agent_args\<lparr>aa_offline_failure_limit := 1\<rparr>) sample_filled"
  have s: "should_unload_rules (aa_offline_mode (ar_args ?a)) (aa_offline_failure_limit (ar_args ?a))
      (record_control_plane_failure (ar_offline ?a))"
    by (simp add: attached_agent_def sample_agent_args_def default_offline_state_def should_unload_rules_def
        record_control_plane_failure_def)
  obtain a' where a': "handle_control_plane_failure sample_agent_env ?a = (a', Inr ())"
    using failure_unloads [OF s] sample_unload_answers sample_filled_within by (auto simp: attached_agent_def)
  have "connect_and_subscribe sample_agent_env False False False ?a = (a', Inr None)"
    using a' by (simp add: connect_and_subscribe_def)
  from agent_reach.steps [OF agent_reach.attached agent_step.connects [OF this]]
  show ?thesis using failure_at_limit(4) [OF s a'] by auto
qed

theorem unloaded_agent_gets_policy_witness:
  "\<exists>a. op_rules_unloaded (ar_offline a) \<and> connect_and_subscribe sample_agent_env True True True a = (a, Inr (Some (- 1))) \<and>
     build_policy_update sample_crates 0 sample_db (\<lambda>_. sample_db) (- 1) None sample_runtime True \<noteq> Inr None"
proof -
  obtain a where a: "agent_reach (cr_codec sample_crates) (sample_agent_args\<lparr>aa_offline_failure_limit := 1\<rparr>) (Connecting, a)" "op_rules_unloaded (ar_offline a)"
    using unloaded_reached by blast
  have "latest_version sample_db = 5" by code_simp
  moreover have c: "connect_and_subscribe sample_agent_env True True True a = (a, Inr (Some (ar_applied_version a)))"
    by (simp add: connect_and_subscribe_def)
  ultimately have "ar_applied_version a = - 1 \<and>
      build_policy_update sample_crates 0 sample_db (\<lambda>_. sample_db) (ar_applied_version a) None sample_runtime True \<noteq> Inr None"
    by (intro unloaded_agent_gets_policy [OF a c]) simp
  then show ?thesis using a(2) c by metis
qed

text \<open>A policy that fails half-way after an unload is never cleared again: what the failed apply left in
  the maps stays there through any number of further failures, because the agent still believes its rules
  are unloaded.\<close>

theorem failed_apply_after_unload_sticks:
  assumes "op_rules_unloaded (ar_offline a)"
    and "policy_from_update C geo u = Inr (version, Some s, enabled)"
    and "drop_monitor_reconcile V enabled (ar_xdp a, ar_drop_monitor a) = (xdp0, h)"
    and "apply_latest V s (aa_control_url (ar_args a)) xdp0 = (xdp, Inl e)"
  shows "ar_xdp (fold (\<lambda>V a. fst (handle_control_plane_failure V a)) Vs (fst (process_policy_update C V geo hb u a))) = xdp"
proof -
  have "fst (process_policy_update C V geo hb u a) = a\<lparr>ar_xdp := xdp, ar_drop_monitor := h\<rparr>"
    using assms by (simp add: process_policy_update_def Let_def)
  then show ?thesis using failures_keep_unloaded [of "a\<lparr>ar_xdp := xdp, ar_drop_monitor := h\<rparr>" Vs] assms(1) by simp
qed

definition unloaded_sample :: agent_runtime where
  "unloaded_sample = (attached_agent sample_agent_args sample_manager)
     \<lparr>ar_offline := \<lparr>op_consecutive_failures = 0, op_rules_unloaded = True\<rparr>\<rparr>"

text \<open>The country prefixes find no room, after the deny rule has been written.\<close>

theorem failed_apply_after_unload_sticks_witness:
  "let u = make_policy_update sample_crates 5 (sample_pushed False) False;
       C = \<lparr>sc_show = sc_show (cr_codec sample_crates), sc_parse = (\<lambda>_. Some (sample_pushed False))\<rparr> in
   \<forall>Vs. xm_rule_cidrs (ar_xdp (fold (\<lambda>V a. fst (handle_control_plane_failure V a)) Vs
     (fst (process_policy_update C (sample_agent_env\<lparr>av_xdp := full_geo_env\<rparr>) (\<lambda>_. Inl True) True u unloaded_sample)))) =
     [(xr_key sample_rule, rule_value sample_rule)]"
proof -
  define C where "C = \<lparr>sc_show = sc_show (cr_codec sample_crates), sc_parse = (\<lambda>_. Some (sample_pushed False))\<rparr>"
  define u where "u = make_policy_update sample_crates 5 (sample_pushed False) False"
  have t: "trim ''{}'' \<noteq> []" by code_simp
  have p: "policy_from_update C (\<lambda>_. Inl True) u = Inr (5, Some (sample_pushed False), False)"
    using t by (simp add: C_def u_def policy_from_update_def policy_snapshot_from_update_def make_policy_update_def sample_crates_def)
  have r: "drop_monitor_reconcile (sample_agent_env\<lparr>av_xdp := full_geo_env\<rparr>) False
      (ar_xdp unloaded_sample, ar_drop_monitor unloaded_sample) = (sample_manager, False)"
    by (simp add: drop_monitor_reconcile_def drop_monitor_disable_def unloaded_sample_def attached_agent_def)
  have url: "aa_control_url (ar_args unloaded_sample) = sample_url"
    by (simp add: unloaded_sample_def attached_agent_def sample_agent_args_def)
  obtain m' e where a: "apply_latest (sample_agent_env\<lparr>av_xdp := full_geo_env\<rparr>) (sample_pushed False)
      (aa_control_url (ar_args unloaded_sample)) sample_manager = (m', Inl e)"
    "xm_rule_cidrs m' = [(xr_key sample_rule, rule_value sample_rule)]"
    using half_applied url by metis
  have "op_rules_unloaded (ar_offline unloaded_sample)" by (simp add: unloaded_sample_def)
  note st = failed_apply_after_unload_sticks [OF this p r a(1)]
  show ?thesis unfolding Let_def C_def [symmetric] u_def [symmetric] st using a(2) by blast
qed

section \<open>The agent never locks itself out\<close>



end
