(* ===== verification/Api_Common.thy ===== *)
theory Api_Common
  imports Policy_View
begin

text \<open>
  What the handlers of the HTTP API share: input validation (\<^verbatim>\<open>api/validation/\<close>), pagination
  (\<^verbatim>\<open>api/pagination.rs\<close>), versions (\<^verbatim>\<open>api/policy_meta.rs\<close>), batch summaries (\<^verbatim>\<open>api/response.rs\<close>) and
  the database transaction every write runs in. A transaction is a function on the state that gives a
  value and the new state or an error; \<open>commit\<close> keeps the old state on an error, as dropping the
  transaction does. The unique indexes and primary keys the migrations create make an insert fail.
\<close>

section \<open>Transactions\<close>

type_synonym 'a txn = "firewall_db \<Rightarrow> ('a \<times> firewall_db) res"

definition txn_return :: "'a \<Rightarrow> 'a txn" where
  "txn_return x db = Inr (x, db)"

definition txn_of :: "'a res \<Rightarrow> 'a txn" where
  "txn_of r db = mapE (\<lambda>x. (x, db)) r"

definition txn_bind :: "'a txn \<Rightarrow> ('a \<Rightarrow> 'b txn) \<Rightarrow> 'b txn" where
  "txn_bind t f db = bindE (t db) (\<lambda>(x, db'). f x db')"

definition commit :: "'a txn \<Rightarrow> firewall_db \<Rightarrow> firewall_db \<times> 'a res" where
  "commit t db = (case t db of Inl e \<Rightarrow> (db, Inl e) | Inr (x, db') \<Rightarrow> (db', Inr x))"

text \<open>A handler that checks its request before it opens the transaction.\<close>

definition after_checks :: "'a res \<Rightarrow> ('a \<Rightarrow> firewall_db \<Rightarrow> firewall_db \<times> 'b res) \<Rightarrow> firewall_db \<Rightarrow> firewall_db \<times> 'b res" where
  "after_checks r f db = (case r of Inl e \<Rightarrow> (db, Inl e) | Inr x \<Rightarrow> f x db)"

text \<open>The libraries and the engine: networks, SHA-256, the scheme of a URL, the clock and its last
  representable time, and the id the engine gives to the next row.\<close>

record api_env =
  ae_net :: ipnet_lib
  ae_text :: net_text
  ae_sha256 :: "string \<Rightarrow> u8 list"
  ae_url_scheme :: "string \<Rightarrow> string option"
  ae_now :: datetime
  ae_max_time :: datetime
  ae_next_id :: "firewall_db \<Rightarrow> i32"

section \<open>Validation\<close>

definition max_batch_size :: nat where "max_batch_size = 500"

definition validate_batch_len :: "nat \<Rightarrow> unit res" where
  "validate_batch_len len =
     (if len = 0 then Inl (BadRequest ''items must not be empty'')
      else if max_batch_size < len then Inl (BadRequest ''items must contain at most 500 entries'')
      else Inr ())"

fun unique_positive_ids :: "i32 set \<Rightarrow> i32 list \<Rightarrow> i32 list res" where
  "unique_positive_ids seen [] = Inr []"
| "unique_positive_ids seen (i # ids) =
     (if sint i \<le> 0 then Inl (BadRequest ''ids must be positive integers'')
      else if i \<in> seen then unique_positive_ids seen ids
      else mapE ((#) i) (unique_positive_ids (insert i seen) ids))"

definition validate_batch_ids :: "i32 list \<Rightarrow> i32 list res" where
  "validate_batch_ids ids =
     (if ids = [] then Inl (BadRequest ''ids must not be empty'')
      else if max_batch_size < length ids then Inl (BadRequest ''ids must contain at most 500 entries'')
      else unique_positive_ids {} ids)"

definition ensure_all_ids_deleted :: "nat \<Rightarrow> nat \<Rightarrow> string \<Rightarrow> unit res" where
  "ensure_all_ids_deleted deleted requested not_found =
     (if deleted \<noteq> requested then Inl (NotFound not_found) else Inr ())"

definition normalize_action :: "string \<Rightarrow> string res" where
  "normalize_action value =
     (let v = to_lower value in
      if v = ''allow'' then Inr ''allow''
      else if v = ''deny'' \<or> v = ''drop'' then Inr ''deny''
      else Inl (BadRequest ''action must be allow or deny''))"

definition normalize_protocol :: "string \<Rightarrow> string res" where
  "normalize_protocol value =
     (let v = to_lower value in
      if v = ''any'' then Inr ''any'' else if v = ''tcp'' then Inr ''tcp''
      else if v = ''udp'' then Inr ''udp'' else if v = ''icmp'' then Inr ''icmp''
      else Inl (BadRequest ''protocol must be any, tcp, udp, or icmp''))"

definition valid_port_number :: "i32 \<Rightarrow> bool" where
  "valid_port_number port \<longleftrightarrow> (case u16_try_from_i32 port of None \<Rightarrow> False | Some p \<Rightarrow> 0 < p)"

definition validate_dynamic_rate_port :: "string \<Rightarrow> i32 option \<Rightarrow> i32 option res" where
  "validate_dynamic_rate_port protocol port =
     (case port of None \<Rightarrow> Inr None
      | Some p \<Rightarrow>
          (if \<not> valid_port_number p then Inl (BadRequest ''port must be between 1 and 65535'')
           else if protocol = ''any'' \<or> protocol = ''tcp'' \<or> protocol = ''udp'' then Inr (Some p)
           else if protocol = ''icmp'' then Inl (BadRequest ''icmp dynamic rate limits cannot set a port'')
           else Inl (BadRequest ''unsupported protocol'')))"

definition validate_port :: "string option \<Rightarrow> i32 option \<Rightarrow> i32 option res" where
  "validate_port protocol port =
     (case port of None \<Rightarrow> Inr None
      | Some p \<Rightarrow>
          (if \<not> valid_port_number p then Inl (BadRequest ''port must be between 1 and 65535'')
           else (let proto = unwrap_or ''any'' protocol in
             if proto = ''any'' \<or> proto = ''tcp'' \<or> proto = ''udp'' then Inr (Some p)
             else if proto = ''icmp'' then Inl (BadRequest ''icmp rules cannot set a port'')
             else Inl (BadRequest ''unsupported protocol''))))"

definition validate_positive_i32 :: "string \<Rightarrow> i32 \<Rightarrow> unit res" where
  "validate_positive_i32 label v = (if sint v \<le> 0 then Inl (MustBePositive label) else Inr ())"

definition normalize_cidr :: "ipnet_lib \<Rightarrow> net_text \<Rightarrow> string \<Rightarrow> string res" where
  "normalize_cidr N T value =
     (let cidr = trim value in
      if CHR ''/'' \<notin> set cidr then Inl (BadRequest ''CIDR must include a prefix length'')
      else mapE (\<lambda>n. cidr_text (net_network N n) (net_prefix_len n)) (parse_cidr T cidr))"

definition parse_normalized_cidr :: "ipnet_lib \<Rightarrow> net_text \<Rightarrow> string \<Rightarrow> ipnet res" where
  "parse_normalized_cidr N T value = bindE (normalize_cidr N T value) (parse_cidr T)"

definition parse_node_interface_ips :: "string \<Rightarrow> ipaddr list res" where
  "parse_node_interface_ips value =
     traverse (\<lambda>v. ok_or (InvalidIp v) (parse_ip v))
       (filter (\<lambda>v. v \<noteq> []) (map trim (split_on (\<lambda>c. c = CHR '','') value)))"

definition cidr_contains_ip :: "ipnet_lib \<Rightarrow> ipnet \<Rightarrow> ipaddr \<Rightarrow> bool" where
  "cidr_contains_ip N cidr ip \<longleftrightarrow> is_ipv4 (net_addr cidr) = is_ipv4 ip \<and> net_contains N cidr ip"

text \<open>Read outside the transaction, so from a state of its own.\<close>

definition reject_node_ip_block :: "ipnet_lib \<Rightarrow> firewall_db \<Rightarrow> ipnet \<Rightarrow> string \<Rightarrow> unit res" where
  "reject_node_ip_block N db cidr resource =
     mapE (\<lambda>_. ())
       (traverse (\<lambda>row. bindE (parse_node_interface_ips (ndr_interface_ips row)) (\<lambda>ips.
           if list_ex (cidr_contains_ip N cidr) ips
           then Inl (BadRequest (resource @ '' CIDR contains a node interface IP'')) else Inr ()))
         (filter (\<lambda>r. ndr_policy_name r = default_policy_name) (db_nodes db)))"

section \<open>Pages\<close>

record pagination =
  pg_number :: u64
  pg_size :: u64

definition normalize_pagination :: "u64 option \<Rightarrow> u64 option \<Rightarrow> pagination res" where
  "normalize_pagination page page_size =
     (let page = unwrap_or 1 page; page_size = unwrap_or 20 page_size in
      if page = 0 then Inl (BadRequest ''page must be greater than or equal to 1'')
      else if page_size = 0 then Inl (BadRequest ''page_size must be greater than or equal to 1'')
      else if 500 < page_size then Inl (BadRequest ''page_size must be less than or equal to 500'')
      else Inr \<lparr>pg_number = page, pg_size = page_size\<rparr>)"

record 'a page =
  pa_items :: "'a list"
  pa_total :: nat
  pa_number :: u64
  pa_size :: u64
  pa_total_pages :: nat

text \<open>The page of a query: \<^verbatim>\<open>num_items\<close>, \<^verbatim>\<open>fetch_page(number - 1)\<close> and \<^verbatim>\<open>Page::new\<close> on the ordered rows.\<close>

definition fetch_page :: "'a list \<Rightarrow> pagination \<Rightarrow> 'a page" where
  "fetch_page rows p =
     \<lparr>pa_items = take (unat (pg_size p)) (drop ((unat (pg_number p) - 1) * unat (pg_size p)) rows),
      pa_total = length rows, pa_number = pg_number p, pa_size = pg_size p,
      pa_total_pages = (length rows + unat (pg_size p) - 1) div unat (pg_size p)\<rparr>"

section \<open>Versions and summaries\<close>

definition bump_policy_version_if_active :: "datetime \<Rightarrow> bool \<Rightarrow> i64 option txn" where
  "bump_policy_version_if_active now active_changed db =
     (if active_changed then (let (db', v) = bump now db in Inr (Some v, db')) else Inr (None, db))"

definition bump_always :: "datetime \<Rightarrow> i64 option txn" where
  "bump_always now db = (let (db', v) = bump now db in Inr (Some v, db'))"

definition policy_version_after_optional_bump :: "firewall_db \<Rightarrow> i64 option \<Rightarrow> i64" where
  "policy_version_after_optional_bump db bumped =
     (case bumped of Some v \<Rightarrow> v | None \<Rightarrow> latest_version db)"

record 'a create_rows =
  crr_rows :: "'a list"
  crr_inserted :: bool
  crr_active_changed :: bool

definition new_create_rows :: "'a create_rows" where
  "new_create_rows = \<lparr>crr_rows = [], crr_inserted = False, crr_active_changed = False\<rparr>"

definition push_row :: "'a create_rows \<Rightarrow> 'a \<Rightarrow> bool \<Rightarrow> bool \<Rightarrow> 'a create_rows" where
  "push_row s row inserted active_changed =
     \<lparr>crr_rows = crr_rows s @ [row], crr_inserted = (crr_inserted s \<or> inserted),
      crr_active_changed = (crr_active_changed s \<or> active_changed)\<rparr>"

text \<open>The loop of a batch: each input creates a row or finds it, and reports \<open>(row, inserted, active_changed)\<close>.\<close>

fun create_each :: "('i \<Rightarrow> ('r \<times> bool \<times> bool) txn) \<Rightarrow> 'i list \<Rightarrow> 'r create_rows \<Rightarrow> 'r create_rows txn" where
  "create_each create [] s = txn_return s"
| "create_each create (i # inputs) s =
     txn_bind (create i) (\<lambda>(row, inserted, active). create_each create inputs (push_row s row inserted active))"

text \<open>What a write answers: the data and the version of the bump, if there was one.\<close>

definition versioned :: "'a \<Rightarrow> datetime \<Rightarrow> bool \<Rightarrow> ('a \<times> i64 option) txn" where
  "versioned x now active = txn_bind (bump_policy_version_if_active now active) (\<lambda>v. txn_return (x, v))"

section \<open>Tables\<close>

text \<open>A table with an id, a policy and an enabled column, and the pairs of rows a unique index separates.\<close>

record 'r api_table =
  at_rows :: "firewall_db \<Rightarrow> 'r list"
  at_put :: "'r list \<Rightarrow> firewall_db \<Rightarrow> firewall_db"
  at_id :: "'r \<Rightarrow> i32"
  at_policy :: "'r \<Rightarrow> string"
  at_enabled :: "'r \<Rightarrow> bool"
  at_clash :: "'r \<Rightarrow> 'r \<Rightarrow> bool"
  at_conflict :: fw_error
  at_missing :: string

definition select_rows :: "'r api_table \<Rightarrow> ('r \<Rightarrow> bool) \<Rightarrow> firewall_db \<Rightarrow> 'r list" where
  "select_rows t P db = filter P (at_rows t db)"

definition delete_rows :: "'r api_table \<Rightarrow> ('r \<Rightarrow> bool) \<Rightarrow> nat txn" where
  "delete_rows t P db =
     Inr (length (filter P (at_rows t db)), at_put t (filter (\<lambda>r. \<not> P r) (at_rows t db)) db)"

definition insert_row :: "'r api_table \<Rightarrow> 'r \<Rightarrow> 'r txn" where
  "insert_row t row db =
     (if list_ex (\<lambda>r. at_id t r = at_id t row) (at_rows t db) then Inl (DbErr ''primary key'')
      else if list_ex (at_clash t row) (at_rows t db) then Inl (at_conflict t)
      else Inr (row, at_put t (at_rows t db @ [row]) db))"

text \<open>An update of some columns of the row with an id; a row that has gone is an error.\<close>

definition update_row :: "'r api_table \<Rightarrow> i32 \<Rightarrow> ('r \<Rightarrow> 'r) \<Rightarrow> 'r txn" where
  "update_row t i f db =
     (case find (\<lambda>r. at_id t r = i) (at_rows t db) of
        None \<Rightarrow> Inl (DbErr ''record not updated'')
      | Some row \<Rightarrow> Inr (f row, at_put t (map (\<lambda>r. if at_id t r = i then f r else r) (at_rows t db)) db))"

definition in_policy :: "'r api_table \<Rightarrow> 'r \<Rightarrow> bool" where
  "in_policy t r \<longleftrightarrow> at_policy t r = default_policy_name"

text \<open>\<^verbatim>\<open>delete_by_id\<close> of the handlers.\<close>

definition delete_by_id :: "'r api_table \<Rightarrow> datetime \<Rightarrow> i32 \<Rightarrow> (i32 \<times> i64 option) txn" where
  "delete_by_id t now i db =
     (case select_rows t (\<lambda>r. in_policy t r \<and> at_id t r = i) db of
        [] \<Rightarrow> Inl (NotFound (at_missing t))
      | row # _ \<Rightarrow>
          txn_bind (delete_rows t (\<lambda>r. in_policy t r \<and> at_id t r = i)) (\<lambda>deleted.
            if deleted = 0 then (\<lambda>_. Inl (NotFound (at_missing t)))
            else versioned i now (at_enabled t row)) db)"

text \<open>\<^verbatim>\<open>delete_batch\<close> of the handlers, after the ids are checked.\<close>

definition delete_ids :: "'r api_table \<Rightarrow> datetime \<Rightarrow> i32 list \<Rightarrow> (nat \<times> i64 option) txn" where
  "delete_ids t now ids db =
     (let targets = select_rows t (\<lambda>r. in_policy t r \<and> at_id t r \<in> set ids) db in
      if length targets \<noteq> length ids then Inl (NotFound (at_missing t))
      else
        (let active = list_ex (at_enabled t) targets in
         txn_bind (delete_rows t (\<lambda>r. in_policy t r \<and> at_id t r \<in> set ids)) (\<lambda>deleted.
           txn_bind (txn_of (ensure_all_ids_deleted deleted (length ids) (at_missing t))) (\<lambda>_.
             versioned deleted now active)) db))"

text \<open>A delete by query that insists on one match.\<close>

definition delete_single :: "'r api_table \<Rightarrow> datetime \<Rightarrow> string \<Rightarrow> ('r \<Rightarrow> bool) \<Rightarrow> (nat \<times> i64 option) txn" where
  "delete_single t now ambiguous P db =
     (case select_rows t P db of
        [] \<Rightarrow> Inl (NotFound (at_missing t))
      | row # others \<Rightarrow>
          if others \<noteq> [] then Inl (ConflictErr ambiguous)
          else txn_bind (delete_rows t P) (\<lambda>deleted.
                 if deleted = 0 then (\<lambda>_. Inl (NotFound (at_missing t)))
                 else versioned deleted now (at_enabled t row)) db)"

text \<open>A delete by query of every match.\<close>

definition delete_matching :: "'r api_table \<Rightarrow> datetime \<Rightarrow> ('r \<Rightarrow> bool) \<Rightarrow> (nat \<times> i64 option) txn" where
  "delete_matching t now P db =
     (let targets = select_rows t P db in
      if targets = [] then Inl (NotFound (at_missing t))
      else txn_bind (delete_rows t P) (\<lambda>deleted.
             if deleted = 0 then (\<lambda>_. Inl (NotFound (at_missing t)))
             else versioned deleted now (list_ex (at_enabled t) targets)) db)"

end
