(* ===== verification/Api_Rules.thy ===== *)
theory Api_Rules
  imports Api_Common
begin

text \<open>
  The firewall-rule handlers (\<^verbatim>\<open>api/firewall_rules/\<close>) with the generated rule key of
  \<^verbatim>\<open>db/entities/firewall_rule.rs\<close>.
\<close>

definition rule_table :: "firewall_rule_row api_table" where
  "rule_table =
     \<lparr>at_rows = db_firewall_rules, at_put = (\<lambda>rows db. db\<lparr>db_firewall_rules := rows\<rparr>), at_id = frr_id,
      at_policy = frr_policy_name, at_enabled = frr_enabled,
      at_clash = (\<lambda>a b. frr_rule_key a = frr_rule_key b),
      at_conflict = ConflictErr ''firewall rule_key already exists'', at_missing = ''rule not found''\<rparr>"

section \<open>Rule keys\<close>

definition rule_key_char :: "char \<Rightarrow> bool" where
  "rule_key_char c \<longleftrightarrow> (let n = of_char c :: nat in
     48 \<le> n \<and> n \<le> 57 \<or> 65 \<le> n \<and> n \<le> 90 \<or> 97 \<le> n \<and> n \<le> 122 \<or>
     c = CHR ''-'' \<or> c = CHR ''_'' \<or> c = CHR ''.'' \<or> c = CHR '':'')"

definition normalize_rule_key :: "string option \<Rightarrow> string option res" where
  "normalize_rule_key value =
     (case value of None \<Rightarrow> Inr None
      | Some v \<Rightarrow>
          (let v = trim v in
           if v = [] then Inr None
           else if 128 < length v then Inl (BadRequest ''rule_key must contain at most 128 characters'')
           else if \<not> list_all rule_key_char v then Inl (BadRequest ''rule_key may only contain letters, numbers, '.', '_', '-', and ':' '')
           else Inr (Some v)))"

definition hex_byte :: "u8 \<Rightarrow> string" where
  "hex_byte b = (let h = show_nat 16 (unat b) in if length h < 2 then CHR ''0'' # h else h)"

definition generated_rule_key ::
    "(string \<Rightarrow> u8 list) \<Rightarrow> i32 \<Rightarrow> string \<Rightarrow> string \<Rightarrow> string option \<Rightarrow> i32 option \<Rightarrow> string" where
  "generated_rule_key sha priority action cidr protocol port =
     (let port = (case port of None \<Rightarrow> [] | Some p \<Rightarrow> dec_int (sint p));
          canonical = ''priority='' @ dec_int (sint priority) @ newline # ''action='' @ action @ newline #
            ''cidr='' @ cidr @ newline # ''protocol='' @ unwrap_or ''any'' protocol @ newline #
            ''port='' @ port @ [newline];
          hex = concat (map hex_byte (take 16 (sha canonical)));
          part = (\<lambda>a b. take (b - a) (drop a hex))
      in part 0 8 @ ''-'' @ part 8 12 @ ''-'' @ part 12 16 @ ''-'' @ part 16 20 @ ''-'' @ part 20 32)"

section \<open>Creating\<close>

record create_rule_request =
  cr_rule_key :: "string option"
  cr_enabled :: "bool option"
  cr_priority :: i32
  cr_action :: string
  cr_cidr :: string
  cr_protocol :: "string option"
  cr_port :: "i32 option"
  cr_comment :: "string option"

record rule_input =
  ri_rule_key :: string
  ri_enabled :: bool
  ri_priority :: i32
  ri_action :: string
  ri_cidr :: string
  ri_protocol :: "string option"
  ri_port :: "i32 option"
  ri_comment :: "string option"

definition rule_input_of :: "api_env \<Rightarrow> create_rule_request \<Rightarrow> rule_input res" where
  "rule_input_of E r =
     bindE (normalize_rule_key (cr_rule_key r)) (\<lambda>key.
     bindE (normalize_cidr (ae_net E) (ae_text E) (cr_cidr r)) (\<lambda>cidr.
     bindE (transposeE normalize_protocol (cr_protocol r)) (\<lambda>protocol.
     bindE (validate_port protocol (cr_port r)) (\<lambda>port.
     bindE (normalize_action (cr_action r)) (\<lambda>action.
     Inr \<lparr>ri_rule_key = (case key of Some k \<Rightarrow> k
            | None \<Rightarrow> generated_rule_key (ae_sha256 E) (cr_priority r) action cidr protocol port),
          ri_enabled = unwrap_or True (cr_enabled r), ri_priority = cr_priority r, ri_action = action,
          ri_cidr = cidr, ri_protocol = protocol, ri_port = port, ri_comment = cr_comment r\<rparr>)))))"

definition rule_active_model :: "api_env \<Rightarrow> firewall_db \<Rightarrow> rule_input \<Rightarrow> firewall_rule_row" where
  "rule_active_model E db i =
     \<lparr>frr_id = ae_next_id E db, frr_policy_name = default_policy_name, frr_rule_key = ri_rule_key i,
      frr_enabled = ri_enabled i, frr_priority = ri_priority i, frr_action = ri_action i, frr_cidr = ri_cidr i,
      frr_protocol = ri_protocol i, frr_port = ri_port i, frr_comment = ri_comment i, frr_updated_at = ae_now E\<rparr>"

definition rule_matches_existing :: "rule_input \<Rightarrow> firewall_rule_row \<Rightarrow> bool" where
  "rule_matches_existing i r \<longleftrightarrow>
     frr_enabled r = ri_enabled i \<and> frr_priority r = ri_priority i \<and> frr_action r = ri_action i \<and>
     frr_cidr r = ri_cidr i \<and> frr_protocol r = ri_protocol i \<and> frr_port r = ri_port i \<and> frr_comment r = ri_comment i"

definition create_rule :: "api_env \<Rightarrow> rule_input \<Rightarrow> (firewall_rule_row \<times> bool \<times> bool) txn" where
  "create_rule E i db =
     (case select_rows rule_table (\<lambda>r. in_policy rule_table r \<and> frr_rule_key r = ri_rule_key i) db of
        [] \<Rightarrow> txn_bind (insert_row rule_table (rule_active_model E db i))
               (\<lambda>row. txn_return (row, True, frr_enabled row)) db
      | existing # _ \<Rightarrow>
          if rule_matches_existing i existing then Inr ((existing, False, False), db)
          else Inl (ConflictErr ''firewall rule_key already exists''))"

definition deny_rule_cidr :: "api_env \<Rightarrow> create_rule_request \<Rightarrow> ipnet option res" where
  "deny_rule_cidr E r =
     bindE (normalize_action (cr_action r)) (\<lambda>action.
       if action \<noteq> ''deny'' then Inr None
       else mapE Some (parse_normalized_cidr (ae_net E) (ae_text E) (cr_cidr r)))"

definition reject_deny_rule_node_ip :: "api_env \<Rightarrow> firewall_db \<Rightarrow> create_rule_request \<Rightarrow> unit res" where
  "reject_deny_rule_node_ip E db r =
     bindE (deny_rule_cidr E r) (\<lambda>cidr.
       case cidr of None \<Rightarrow> Inr () | Some c \<Rightarrow> reject_node_ip_block (ae_net E) db c ''deny rule'')"

text \<open>\<open>seen\<close> is the state the node check reads, before the transaction.\<close>

definition create_rule_handler ::
    "api_env \<Rightarrow> firewall_db \<Rightarrow> create_rule_request \<Rightarrow> firewall_db \<Rightarrow>
       firewall_db \<times> ((firewall_rule_row \<times> bool) \<times> i64 option) res" where
  "create_rule_handler E seen r =
     after_checks (bindE (reject_deny_rule_node_ip E seen r) (\<lambda>_. rule_input_of E r)) (\<lambda>input.
       commit (txn_bind (create_rule E input) (\<lambda>(row, inserted, active). versioned (row, inserted) (ae_now E) active)))"

definition create_rules_handler ::
    "api_env \<Rightarrow> firewall_db \<Rightarrow> create_rule_request list \<Rightarrow> firewall_db \<Rightarrow>
       firewall_db \<times> (firewall_rule_row create_rows \<times> i64 option) res" where
  "create_rules_handler E seen rs =
     after_checks (bindE (validate_batch_len (length rs)) (\<lambda>_.
                   bindE (traverse (reject_deny_rule_node_ip E seen) rs) (\<lambda>_.
                   traverse (rule_input_of E) rs))) (\<lambda>inputs.
       commit (txn_bind (create_each (create_rule E) inputs new_create_rows) (\<lambda>s.
         versioned s (ae_now E) (crr_active_changed s))))"

section \<open>Deleting\<close>

definition delete_rule_by_id :: "api_env \<Rightarrow> i32 \<Rightarrow> firewall_db \<Rightarrow> firewall_db \<times> (i32 \<times> i64 option) res" where
  "delete_rule_by_id E i = commit (delete_by_id rule_table (ae_now E) i)"

fun normalized_rule_keys :: "string set \<Rightarrow> string list \<Rightarrow> (string list \<times> nat) res" where
  "normalized_rule_keys seen [] = Inr ([], 0)"
| "normalized_rule_keys seen (k # ks) =
     bindE (normalize_rule_key (Some k)) (\<lambda>v.
       case v of None \<Rightarrow> normalized_rule_keys seen ks
       | Some v \<Rightarrow> mapE (\<lambda>(keys, n). (if v \<in> seen then keys else v # keys, n + 1))
                    (normalized_rule_keys (insert v seen) ks))"

definition validate_batch_delete_request :: "i32 list \<Rightarrow> string list \<Rightarrow> (i32 list \<times> string list) res" where
  "validate_batch_delete_request req_ids req_keys =
     bindE (unique_positive_ids {} req_ids) (\<lambda>ids.
     bindE (normalized_rule_keys {} req_keys) (\<lambda>(keys, n).
       let entries = length req_ids + n in
       if entries = 0 then Inl (BadRequest ''ids or rule_keys must not be empty'')
       else if ids \<noteq> [] \<and> keys \<noteq> [] then Inl (BadRequest ''ids and rule_keys cannot be used together'')
       else if max_batch_size < entries then Inl (BadRequest ''ids and rule_keys must contain at most 500 entries'')
       else Inr (ids, keys)))"

definition batch_delete_selector :: "i32 list \<Rightarrow> string list \<Rightarrow> firewall_rule_row \<Rightarrow> bool" where
  "batch_delete_selector ids keys r \<longleftrightarrow>
     (if ids = [] \<and> keys = [] then True else frr_id r \<in> set ids \<or> frr_rule_key r \<in> set keys)"

definition delete_rules_txn ::
    "datetime \<Rightarrow> (firewall_rule_row \<Rightarrow> bool) \<Rightarrow> (firewall_rule_row \<Rightarrow> bool) \<Rightarrow> (nat \<Rightarrow> nat \<Rightarrow> unit res) \<Rightarrow> (nat \<times> i64 option) txn" where
  "delete_rules_txn now P guard check db =
     (let targets = select_rows rule_table P db; target_ids = map frr_id targets in
      if targets = [] then Inl (NotFound ''rule not found'')
      else txn_bind (delete_rows rule_table (\<lambda>r. guard r \<and> frr_id r \<in> set target_ids)) (\<lambda>deleted.
           txn_bind (txn_of (check deleted (length target_ids))) (\<lambda>_.
           versioned deleted now (list_ex frr_enabled targets))) db)"

definition delete_rules_batch ::
    "api_env \<Rightarrow> i32 list \<Rightarrow> string list \<Rightarrow> firewall_db \<Rightarrow> firewall_db \<times> (nat \<times> i64 option) res" where
  "delete_rules_batch E ids keys =
     after_checks (validate_batch_delete_request ids keys) (\<lambda>(ids, keys).
       commit (delete_rules_txn (ae_now E)
         (\<lambda>r. in_policy rule_table r \<and> batch_delete_selector ids keys r) (in_policy rule_table)
         (\<lambda>deleted requested. ensure_all_ids_deleted deleted requested ''rule not found'')))"

record rule_match_query =
  rq_rule_key :: "string option"
  rq_action :: "string option"
  rq_cidr :: "string option"
  rq_protocol :: "string option"
  rq_port :: "i32 option"
  rq_priority :: "i32 option"

definition protocol_filter :: "string \<Rightarrow> firewall_rule_row \<Rightarrow> bool" where
  "protocol_filter protocol r \<longleftrightarrow>
     (if protocol = ''any'' then frr_protocol r = Some ''any'' \<or> frr_protocol r = None
      else frr_protocol r = Some protocol)"

definition required :: "string \<Rightarrow> 'a option \<Rightarrow> 'a res" where
  "required label v = ok_or (BadRequest (''rule_key or '' @ label @ '' is required'')) v"

definition rule_selector :: "api_env \<Rightarrow> rule_match_query \<Rightarrow> (firewall_rule_row \<Rightarrow> bool) res" where
  "rule_selector E q =
     bindE (normalize_rule_key (rq_rule_key q)) (\<lambda>key.
     case key of
       Some k \<Rightarrow> Inr (\<lambda>r. in_policy rule_table r \<and> frr_rule_key r = k)
     | None \<Rightarrow>
         bindE (required ''priority'' (rq_priority q)) (\<lambda>priority.
         bindE (bindE (required ''action'' (rq_action q)) normalize_action) (\<lambda>action.
         bindE (bindE (required ''cidr'' (rq_cidr q)) (normalize_cidr (ae_net E) (ae_text E))) (\<lambda>cidr.
         bindE (bindE (required ''protocol'' (rq_protocol q)) normalize_protocol) (\<lambda>protocol.
         bindE (required ''port'' (rq_port q)) (\<lambda>port.
         bindE (bindE (validate_port (Some protocol) (Some port)) (required ''port'')) (\<lambda>port.
         Inr (\<lambda>r. in_policy rule_table r \<and> frr_priority r = priority \<and> frr_action r = action \<and>
           frr_cidr r = cidr \<and> protocol_filter protocol r \<and> frr_port r = Some port))))))))"

definition delete_rules_by_query ::
    "api_env \<Rightarrow> rule_match_query \<Rightarrow> firewall_db \<Rightarrow> firewall_db \<times> (nat \<times> i64 option) res" where
  "delete_rules_by_query E q =
     after_checks (rule_selector E q) (\<lambda>P.
       commit (delete_rules_txn (ae_now E) P (\<lambda>_. True)
         (\<lambda>deleted requested. if deleted = 0 then Inl (NotFound ''rule not found'') else Inr ())))"

section \<open>Listing\<close>

record rule_query = rule_match_query +
  rq_page :: "u64 option"
  rq_page_size :: "u64 option"

definition opt_filter :: "('a \<Rightarrow> 'b \<Rightarrow> bool) \<Rightarrow> 'b option \<Rightarrow> 'a \<Rightarrow> bool" where
  "opt_filter P v r \<longleftrightarrow> (case v of None \<Rightarrow> True | Some x \<Rightarrow> P r x)"

definition rule_filters :: "api_env \<Rightarrow> rule_query \<Rightarrow> (firewall_rule_row \<Rightarrow> bool) res" where
  "rule_filters E q =
     bindE (transposeE normalize_action (rq_action q)) (\<lambda>action.
     bindE (normalize_rule_key (rq_rule_key q)) (\<lambda>key.
     bindE (transposeE (normalize_cidr (ae_net E) (ae_text E)) (rq_cidr q)) (\<lambda>cidr.
     bindE (transposeE normalize_protocol (rq_protocol q)) (\<lambda>protocol.
     bindE (validate_port protocol (rq_port q)) (\<lambda>port.
     Inr (\<lambda>r. in_policy rule_table r \<and> opt_filter (\<lambda>r a. frr_action r = a) action r \<and>
       opt_filter (\<lambda>r k. frr_rule_key r = k) key r \<and> opt_filter (\<lambda>r c. frr_cidr r = c) cidr r \<and>
       opt_filter (\<lambda>r p. frr_priority r = p) (rq_priority q) r \<and> opt_filter (\<lambda>r p. protocol_filter p r) protocol r \<and>
       opt_filter (\<lambda>r p. frr_port r = Some p) port r))))))"

definition list_rules :: "api_env \<Rightarrow> rule_query \<Rightarrow> firewall_db \<Rightarrow> firewall_rule_row page res" where
  "list_rules E q db =
     bindE (normalize_pagination (rq_page q) (rq_page_size q)) (\<lambda>p.
     bindE (rule_filters E q) (\<lambda>P.
     Inr (fetch_page (order_by (\<lambda>r. sint (frr_priority r)) (select_rows rule_table P db)) p)))"

end
