(* ===== verification/Api_Network.thy ===== *)
theory Api_Network
  imports Api_Rules
begin

text \<open>
  The handlers for trusted CIDRs (\<^verbatim>\<open>api/trusted_cidrs/\<close>) and temporary bans (\<^verbatim>\<open>api/temp_bans/\<close>).
\<close>

section \<open>Trusted CIDRs\<close>

definition trusted_table :: "trusted_cidr_row api_table" where
  "trusted_table =
     \<lparr>at_rows = db_trusted_cidrs, at_put = (\<lambda>rows db. db\<lparr>db_trusted_cidrs := rows\<rparr>), at_id = tcr_id,
      at_policy = tcr_policy_name, at_enabled = tcr_enabled,
      at_clash = (\<lambda>a b. tcr_policy_name a = tcr_policy_name b \<and> tcr_cidr a = tcr_cidr b),
      at_conflict = DbErr ''unique constraint'', at_missing = ''trusted CIDR not found''\<rparr>"

record create_trusted_cidr_request =
  ct_enabled :: "bool option"
  ct_cidr :: string
  ct_comment :: "string option"

definition trusted_cidr_fields_match :: "trusted_cidr_row \<Rightarrow> bool \<Rightarrow> string option \<Rightarrow> bool" where
  "trusted_cidr_fields_match row en comment \<longleftrightarrow> tcr_enabled row = en \<and> tcr_comment row = comment"

definition trusted_cidr_active_changed :: "trusted_cidr_row \<Rightarrow> bool \<Rightarrow> string option \<Rightarrow> bool" where
  "trusted_cidr_active_changed row en comment \<longleftrightarrow>
     (if tcr_enabled row \<noteq> en then True else en \<and> tcr_comment row \<noteq> comment)"

definition trusted_active_model :: "api_env \<Rightarrow> firewall_db \<Rightarrow> bool \<Rightarrow> string \<Rightarrow> string option \<Rightarrow> trusted_cidr_row" where
  "trusted_active_model E db en cidr comment =
     \<lparr>tcr_id = ae_next_id E db, tcr_policy_name = default_policy_name, tcr_enabled = en, tcr_cidr = cidr,
      tcr_comment = comment, tcr_updated_at = ae_now E\<rparr>"

definition trusted_selector :: "string \<Rightarrow> trusted_cidr_row \<Rightarrow> bool" where
  "trusted_selector cidr r \<longleftrightarrow> in_policy trusted_table r \<and> tcr_cidr r = cidr"

definition trusted_upsert ::
    "api_env \<Rightarrow> create_trusted_cidr_request \<Rightarrow> string option \<Rightarrow> (trusted_cidr_row \<times> bool \<times> bool) txn" where
  "trusted_upsert E r normalized db =
     bindE (case normalized of Some c \<Rightarrow> Inr c | None \<Rightarrow> normalize_cidr (ae_net E) (ae_text E) (ct_cidr r)) (\<lambda>cidr.
     let en = unwrap_or True (ct_enabled r); comment = ct_comment r in
     (case select_rows trusted_table (trusted_selector cidr) db of
        [] \<Rightarrow> txn_bind (insert_row trusted_table (trusted_active_model E db en cidr comment))
               (\<lambda>row. txn_return (row, True, en)) db
      | existing # _ \<Rightarrow>
          if trusted_cidr_fields_match existing en comment then Inr ((existing, False, False), db)
          else txn_bind (update_row trusted_table (tcr_id existing)
                 (\<lambda>r. r\<lparr>tcr_enabled := en, tcr_comment := comment, tcr_updated_at := ae_now E\<rparr>))
               (\<lambda>row. txn_return (row, False, trusted_cidr_active_changed existing en comment)) db))"

definition create_trusted_handler ::
    "api_env \<Rightarrow> create_trusted_cidr_request \<Rightarrow> firewall_db \<Rightarrow>
       firewall_db \<times> ((trusted_cidr_row \<times> bool) \<times> i64 option) res" where
  "create_trusted_handler E r =
     after_checks (normalize_cidr (ae_net E) (ae_text E) (ct_cidr r)) (\<lambda>cidr.
       commit (txn_bind (trusted_upsert E r (Some cidr)) (\<lambda>(row, inserted, active).
         versioned (row, inserted) (ae_now E) active)))"

definition create_trusted_batch_handler ::
    "api_env \<Rightarrow> create_trusted_cidr_request list \<Rightarrow> firewall_db \<Rightarrow>
       firewall_db \<times> (trusted_cidr_row create_rows \<times> i64 option) res" where
  "create_trusted_batch_handler E rs =
     after_checks (validate_batch_len (length rs)) (\<lambda>_.
       commit (txn_bind (create_each (\<lambda>r. trusted_upsert E r None) rs new_create_rows) (\<lambda>s.
         versioned s (ae_now E) (crr_active_changed s))))"

definition delete_trusted_by_id :: "api_env \<Rightarrow> i32 \<Rightarrow> firewall_db \<Rightarrow> firewall_db \<times> (i32 \<times> i64 option) res" where
  "delete_trusted_by_id E i = commit (delete_by_id trusted_table (ae_now E) i)"

definition delete_trusted_batch :: "api_env \<Rightarrow> i32 list \<Rightarrow> firewall_db \<Rightarrow> firewall_db \<times> (nat \<times> i64 option) res" where
  "delete_trusted_batch E ids =
     after_checks (validate_batch_ids ids) (\<lambda>ids. commit (delete_ids trusted_table (ae_now E) ids))"

definition delete_trusted_by_query :: "api_env \<Rightarrow> string \<Rightarrow> firewall_db \<Rightarrow> firewall_db \<times> (nat \<times> i64 option) res" where
  "delete_trusted_by_query E cidr =
     after_checks (normalize_cidr (ae_net E) (ae_text E) cidr) (\<lambda>cidr.
       commit (delete_matching trusted_table (ae_now E) (trusted_selector cidr)))"

definition list_trusted ::
    "api_env \<Rightarrow> u64 option \<Rightarrow> u64 option \<Rightarrow> string option \<Rightarrow> bool option \<Rightarrow> firewall_db \<Rightarrow> trusted_cidr_row page res" where
  "list_trusted E page page_size cidr en db =
     bindE (normalize_pagination page page_size) (\<lambda>p.
     bindE (transposeE (normalize_cidr (ae_net E) (ae_text E)) cidr) (\<lambda>cidr.
     Inr (fetch_page (order_by tcr_cidr (select_rows trusted_table
       (\<lambda>r. in_policy trusted_table r \<and> opt_filter (\<lambda>r c. tcr_cidr r = c) cidr r \<and>
            opt_filter (\<lambda>r e. tcr_enabled r = e) en r) db)) p)))"

section \<open>Temporary bans\<close>

text \<open>A ban has no enabled column: every ban counts.\<close>

definition ban_table :: "temp_ban_row api_table" where
  "ban_table =
     \<lparr>at_rows = db_temp_bans, at_put = (\<lambda>rows db. db\<lparr>db_temp_bans := rows\<rparr>), at_id = tbr_id,
      at_policy = tbr_policy_name, at_enabled = (\<lambda>_. True), at_clash = (\<lambda>_ _. False),
      at_conflict = DbErr ''unique constraint'', at_missing = ''temporary ban not found''\<rparr>"

definition default_temp_ban_seconds :: i64 where "default_temp_ban_seconds = 300"
definition max_temp_ban_seconds :: i64 where "max_temp_ban_seconds = 31536000"

record create_temp_ban_request =
  cb_cidr :: string
  cb_protocol :: "string option"
  cb_port :: "i32 option"
  cb_duration_seconds :: "i64 option"
  cb_comment :: "string option"

definition validate_duration :: "i64 option \<Rightarrow> i64 res" where
  "validate_duration value =
     (let duration = unwrap_or default_temp_ban_seconds value in
      if sint duration \<le> 0 then Inl (BadRequest ''duration_seconds must be greater than 0'')
      else if sint max_temp_ban_seconds < sint duration
      then Inl (BadRequest ''duration_seconds must be less than or equal to 31536000'')
      else Inr duration)"

text \<open>The row without its id, which the engine fills in at the insert.\<close>

definition ban_active_model :: "api_env \<Rightarrow> create_temp_ban_request \<Rightarrow> (i32 \<Rightarrow> temp_ban_row) res" where
  "ban_active_model E r =
     bindE (normalize_cidr (ae_net E) (ae_text E) (cb_cidr r)) (\<lambda>cidr.
     bindE (transposeE normalize_protocol (cb_protocol r)) (\<lambda>proto.
     let protocol = unwrap_or ''any'' proto in
     bindE (validate_dynamic_rate_port protocol (cb_port r)) (\<lambda>port.
     bindE (validate_duration (cb_duration_seconds r)) (\<lambda>duration.
     let expires = ae_now E + sint duration * nanos_per_second in
     if ae_max_time E < expires then Inl (BadRequest ''temporary ban expiration overflowed'')
     else Inr (\<lambda>i. \<lparr>tbr_id = i, tbr_policy_name = default_policy_name, tbr_cidr = cidr, tbr_protocol = protocol,
            tbr_port = port, tbr_expires_at = expires, tbr_comment = cb_comment r, tbr_created_at = ae_now E\<rparr>)))))"

definition insert_ban :: "api_env \<Rightarrow> (i32 \<Rightarrow> temp_ban_row) \<Rightarrow> temp_ban_row txn" where
  "insert_ban E model db = insert_row ban_table (model (ae_next_id E db)) db"

fun insert_bans :: "api_env \<Rightarrow> (i32 \<Rightarrow> temp_ban_row) list \<Rightarrow> temp_ban_row list txn" where
  "insert_bans E [] = txn_return []"
| "insert_bans E (m # ms) =
     txn_bind (insert_ban E m) (\<lambda>row. txn_bind (insert_bans E ms) (\<lambda>rows. txn_return (row # rows)))"

definition reject_temp_ban_node_ip :: "api_env \<Rightarrow> firewall_db \<Rightarrow> create_temp_ban_request \<Rightarrow> unit res" where
  "reject_temp_ban_node_ip E db r =
     bindE (parse_normalized_cidr (ae_net E) (ae_text E) (cb_cidr r)) (\<lambda>c.
       reject_node_ip_block (ae_net E) db c ''temporary ban'')"

definition create_ban_handler ::
    "api_env \<Rightarrow> firewall_db \<Rightarrow> create_temp_ban_request \<Rightarrow> firewall_db \<Rightarrow> firewall_db \<times> (temp_ban_row \<times> i64 option) res" where
  "create_ban_handler E seen r =
     after_checks (bindE (reject_temp_ban_node_ip E seen r) (\<lambda>_. ban_active_model E r)) (\<lambda>m.
       commit (txn_bind (insert_ban E m) (\<lambda>row. versioned row (ae_now E) True)))"

definition create_bans_handler ::
    "api_env \<Rightarrow> firewall_db \<Rightarrow> create_temp_ban_request list \<Rightarrow> firewall_db \<Rightarrow>
       firewall_db \<times> (temp_ban_row list \<times> i64 option) res" where
  "create_bans_handler E seen rs =
     after_checks (bindE (validate_batch_len (length rs)) (\<lambda>_.
                   bindE (traverse (reject_temp_ban_node_ip E seen) rs) (\<lambda>_.
                   traverse (ban_active_model E) rs))) (\<lambda>ms.
       commit (txn_bind (insert_bans E ms) (\<lambda>rows. versioned rows (ae_now E) True)))"

definition delete_ban_by_id :: "api_env \<Rightarrow> i32 \<Rightarrow> firewall_db \<Rightarrow> firewall_db \<times> (i32 \<times> i64 option) res" where
  "delete_ban_by_id E i =
     commit (txn_bind (delete_rows ban_table (\<lambda>r. in_policy ban_table r \<and> tbr_id r = i)) (\<lambda>deleted.
       if deleted = 0 then (\<lambda>_. Inl (NotFound ''temporary ban not found'')) else versioned i (ae_now E) True))"

definition delete_bans_batch :: "api_env \<Rightarrow> i32 list \<Rightarrow> firewall_db \<Rightarrow> firewall_db \<times> (nat \<times> i64 option) res" where
  "delete_bans_batch E ids =
     after_checks (validate_batch_ids ids) (\<lambda>ids.
       commit (txn_bind (delete_rows ban_table (\<lambda>r. in_policy ban_table r \<and> tbr_id r \<in> set ids)) (\<lambda>deleted.
         txn_bind (txn_of (ensure_all_ids_deleted deleted (length ids) ''temporary ban not found'')) (\<lambda>_.
         versioned deleted (ae_now E) True))))"

text \<open>\<^verbatim>\<open>all\<close> in the query stands for no protocol filter.\<close>

definition ban_filters ::
    "api_env \<Rightarrow> string option \<Rightarrow> string option \<Rightarrow> i32 option \<Rightarrow> (temp_ban_row \<Rightarrow> bool) res" where
  "ban_filters E cidr protocol port =
     bindE (transposeE normalize_protocol (if protocol = Some ''all'' then None else protocol)) (\<lambda>protocol.
     bindE (validate_dynamic_rate_port (unwrap_or ''any'' protocol) port) (\<lambda>port.
     bindE (transposeE (normalize_cidr (ae_net E) (ae_text E)) cidr) (\<lambda>cidr.
     Inr (\<lambda>r. in_policy ban_table r \<and> ae_now E < tbr_expires_at r \<and>
       opt_filter (\<lambda>r c. tbr_cidr r = c) cidr r \<and> opt_filter (\<lambda>r p. tbr_protocol r = p) protocol r \<and>
       opt_filter (\<lambda>r p. tbr_port r = Some p) port r))))"

definition list_bans ::
    "api_env \<Rightarrow> u64 option \<Rightarrow> u64 option \<Rightarrow> string option \<Rightarrow> string option \<Rightarrow> i32 option \<Rightarrow>
       firewall_db \<Rightarrow> temp_ban_row page res" where
  "list_bans E page page_size cidr protocol port db =
     bindE (normalize_pagination page page_size) (\<lambda>p.
     bindE (ban_filters E cidr protocol port) (\<lambda>P.
     Inr (fetch_page (order_by tbr_expires_at (select_rows ban_table P db)) p)))"

end
