(* ===== verification/Api_Limits.thy ===== *)
theory Api_Limits
  imports Api_Rules Geo_Country
begin

text \<open>
  The handlers for dynamic rate limits (\<^verbatim>\<open>api/dynamic_rate_limits/\<close>) and country policies
  (\<^verbatim>\<open>api/geo_countries/\<close>). Neither table has a unique index: a create looks for its own row first and
  refuses to choose between two.
\<close>

section \<open>Create or find\<close>

definition create_unless_found ::
    "'r api_table \<Rightarrow> string \<Rightarrow> ('r \<Rightarrow> bool) \<Rightarrow> (firewall_db \<Rightarrow> 'r) \<Rightarrow> ('r \<times> bool \<times> bool) txn" where
  "create_unless_found t ambiguous P model db =
     (case select_rows t P db of
        [] \<Rightarrow> txn_bind (insert_row t (model db)) (\<lambda>row. txn_return (row, True, at_enabled t row)) db
      | [row] \<Rightarrow> Inr ((row, False, False), db)
      | _ \<Rightarrow> Inl (ConflictErr ambiguous))"

section \<open>Dynamic rate limits\<close>

definition limit_table :: "dynamic_rate_limit_row api_table" where
  "limit_table =
     \<lparr>at_rows = db_rate_limits, at_put = (\<lambda>rows db. db\<lparr>db_rate_limits := rows\<rparr>), at_id = drr_id,
      at_policy = drr_policy_name, at_enabled = drr_enabled, at_clash = (\<lambda>_ _. False),
      at_conflict = DbErr ''unique constraint'', at_missing = ''dynamic rate limit not found''\<rparr>"

record create_rate_limit_request =
  cl_enabled :: "bool option"
  cl_priority :: i32
  cl_protocol :: string
  cl_port :: "i32 option"
  cl_packets_per_second :: i32
  cl_burst :: i32
  cl_comment :: "string option"

record rate_limit_input =
  li_enabled :: bool
  li_priority :: i32
  li_protocol :: string
  li_port :: "i32 option"
  li_packets_per_second :: i32
  li_burst :: i32
  li_comment :: "string option"

definition rate_limit_input_of :: "create_rate_limit_request \<Rightarrow> rate_limit_input res" where
  "rate_limit_input_of r =
     bindE (normalize_protocol (cl_protocol r)) (\<lambda>protocol.
     bindE (validate_dynamic_rate_port protocol (cl_port r)) (\<lambda>port.
     bindE (validate_positive_i32 ''packets_per_second'' (cl_packets_per_second r)) (\<lambda>_.
     bindE (validate_positive_i32 ''burst'' (cl_burst r)) (\<lambda>_.
     Inr \<lparr>li_enabled = unwrap_or True (cl_enabled r), li_priority = cl_priority r, li_protocol = protocol,
          li_port = port, li_packets_per_second = cl_packets_per_second r, li_burst = cl_burst r,
          li_comment = cl_comment r\<rparr>))))"

definition limit_active_model :: "api_env \<Rightarrow> rate_limit_input \<Rightarrow> firewall_db \<Rightarrow> dynamic_rate_limit_row" where
  "limit_active_model E i db =
     \<lparr>drr_id = ae_next_id E db, drr_policy_name = default_policy_name, drr_enabled = li_enabled i,
      drr_priority = li_priority i, drr_protocol = li_protocol i, drr_port = li_port i,
      drr_packets_per_second = li_packets_per_second i, drr_burst = li_burst i, drr_comment = li_comment i,
      drr_updated_at = ae_now E\<rparr>"

definition limit_matches :: "rate_limit_input \<Rightarrow> dynamic_rate_limit_row \<Rightarrow> bool" where
  "limit_matches i r \<longleftrightarrow>
     in_policy limit_table r \<and> drr_enabled r = li_enabled i \<and> drr_priority r = li_priority i \<and>
     drr_protocol r = li_protocol i \<and> drr_port r = li_port i \<and>
     drr_packets_per_second r = li_packets_per_second i \<and> drr_burst r = li_burst i \<and> drr_comment r = li_comment i"

definition multiple_limits :: string where
  "multiple_limits = ''multiple dynamic rate limits match; delete by id''"

definition create_dynamic_rate_limit ::
    "api_env \<Rightarrow> rate_limit_input \<Rightarrow> (dynamic_rate_limit_row \<times> bool \<times> bool) txn" where
  "create_dynamic_rate_limit E i =
     create_unless_found limit_table multiple_limits (limit_matches i) (limit_active_model E i)"

definition create_limit_handler ::
    "api_env \<Rightarrow> create_rate_limit_request \<Rightarrow> firewall_db \<Rightarrow>
       firewall_db \<times> ((dynamic_rate_limit_row \<times> bool) \<times> i64 option) res" where
  "create_limit_handler E r =
     after_checks (rate_limit_input_of r) (\<lambda>i.
       commit (txn_bind (create_dynamic_rate_limit E i) (\<lambda>(row, inserted, active).
         versioned (row, inserted) (ae_now E) active)))"

definition create_limits_handler ::
    "api_env \<Rightarrow> create_rate_limit_request list \<Rightarrow> firewall_db \<Rightarrow>
       firewall_db \<times> (dynamic_rate_limit_row create_rows \<times> i64 option) res" where
  "create_limits_handler E rs =
     after_checks (bindE (validate_batch_len (length rs)) (\<lambda>_. traverse rate_limit_input_of rs)) (\<lambda>is.
       commit (txn_bind (create_each (create_dynamic_rate_limit E) is new_create_rows) (\<lambda>s.
         versioned s (ae_now E) (crr_active_changed s))))"

definition delete_limit_by_id :: "api_env \<Rightarrow> i32 \<Rightarrow> firewall_db \<Rightarrow> firewall_db \<times> (i32 \<times> i64 option) res" where
  "delete_limit_by_id E i = commit (delete_by_id limit_table (ae_now E) i)"

definition delete_limits_batch :: "api_env \<Rightarrow> i32 list \<Rightarrow> firewall_db \<Rightarrow> firewall_db \<times> (nat \<times> i64 option) res" where
  "delete_limits_batch E ids =
     after_checks (validate_batch_ids ids) (\<lambda>ids. commit (delete_ids limit_table (ae_now E) ids))"

record limit_match_query =
  lm_enabled :: bool
  lm_priority :: i32
  lm_protocol :: string
  lm_port :: i32
  lm_packets_per_second :: i32
  lm_burst :: i32

definition limit_target :: "limit_match_query \<Rightarrow> (dynamic_rate_limit_row \<Rightarrow> bool) res" where
  "limit_target q =
     bindE (normalize_protocol (lm_protocol q)) (\<lambda>protocol.
     bindE (bindE (validate_dynamic_rate_port protocol (Some (lm_port q)))
              (ok_or (BadRequest ''port is required''))) (\<lambda>port.
     bindE (validate_positive_i32 ''packets_per_second'' (lm_packets_per_second q)) (\<lambda>_.
     bindE (validate_positive_i32 ''burst'' (lm_burst q)) (\<lambda>_.
     Inr (\<lambda>r. in_policy limit_table r \<and> drr_enabled r = lm_enabled q \<and> drr_priority r = lm_priority q \<and>
       drr_protocol r = protocol \<and> drr_port r = Some port \<and>
       drr_packets_per_second r = lm_packets_per_second q \<and> drr_burst r = lm_burst q)))))"

definition delete_limit_by_query ::
    "api_env \<Rightarrow> limit_match_query \<Rightarrow> firewall_db \<Rightarrow> firewall_db \<times> (nat \<times> i64 option) res" where
  "delete_limit_by_query E q =
     after_checks (limit_target q) (\<lambda>P. commit (delete_single limit_table (ae_now E) multiple_limits P))"

record limit_query =
  lq_page :: "u64 option"
  lq_page_size :: "u64 option"
  lq_enabled :: "bool option"
  lq_priority :: "i32 option"
  lq_protocol :: "string option"
  lq_port :: "i32 option"
  lq_packets_per_second :: "i32 option"
  lq_burst :: "i32 option"

definition checked_positive :: "string \<Rightarrow> i32 option \<Rightarrow> unit res" where
  "checked_positive label v = (case v of None \<Rightarrow> Inr () | Some x \<Rightarrow> validate_positive_i32 label x)"

definition limit_filters :: "limit_query \<Rightarrow> (dynamic_rate_limit_row \<Rightarrow> bool) res" where
  "limit_filters q =
     bindE (transposeE normalize_protocol (lq_protocol q)) (\<lambda>protocol.
     bindE (validate_dynamic_rate_port (unwrap_or ''any'' protocol) (lq_port q)) (\<lambda>port.
     bindE (checked_positive ''packets_per_second'' (lq_packets_per_second q)) (\<lambda>_.
     bindE (checked_positive ''burst'' (lq_burst q)) (\<lambda>_.
     Inr (\<lambda>r. in_policy limit_table r \<and> opt_filter (\<lambda>r e. drr_enabled r = e) (lq_enabled q) r \<and>
       opt_filter (\<lambda>r p. drr_priority r = p) (lq_priority q) r \<and> opt_filter (\<lambda>r p. drr_protocol r = p) protocol r \<and>
       opt_filter (\<lambda>r p. drr_port r = Some p) port r \<and>
       opt_filter (\<lambda>r v. drr_packets_per_second r = v) (lq_packets_per_second q) r \<and>
       opt_filter (\<lambda>r v. drr_burst r = v) (lq_burst q) r)))))"

definition list_limits :: "limit_query \<Rightarrow> firewall_db \<Rightarrow> dynamic_rate_limit_row page res" where
  "list_limits q db =
     bindE (normalize_pagination (lq_page q) (lq_page_size q)) (\<lambda>p.
     bindE (limit_filters q) (\<lambda>P.
     Inr (fetch_page (order_by (\<lambda>r. sint (drr_priority r)) (select_rows limit_table P db)) p)))"

section \<open>Country policies\<close>

definition country_table :: "geo_country_policy_row api_table" where
  "country_table =
     \<lparr>at_rows = db_geo_countries, at_put = (\<lambda>rows db. db\<lparr>db_geo_countries := rows\<rparr>), at_id = gcr_id,
      at_policy = gcr_policy_name, at_enabled = gcr_enabled, at_clash = (\<lambda>_ _. False),
      at_conflict = DbErr ''unique constraint'', at_missing = ''geo country policy not found''\<rparr>"

record create_geo_country_request =
  cg_enabled :: "bool option"
  cg_country :: string
  cg_action :: string

record geo_country_input =
  gi_enabled :: bool
  gi_country :: string
  gi_action :: string

definition geo_country_input_of :: "create_geo_country_request \<Rightarrow> geo_country_input res" where
  "geo_country_input_of r =
     bindE (normalize_country (cg_country r)) (\<lambda>country.
     bindE (normalize_action (cg_action r)) (\<lambda>action.
     Inr \<lparr>gi_enabled = unwrap_or True (cg_enabled r), gi_country = country, gi_action = action\<rparr>))"

definition geo_country_active_model :: "api_env \<Rightarrow> geo_country_input \<Rightarrow> firewall_db \<Rightarrow> geo_country_policy_row" where
  "geo_country_active_model E i db =
     \<lparr>gcr_id = ae_next_id E db, gcr_policy_name = default_policy_name, gcr_enabled = gi_enabled i,
      gcr_country = gi_country i, gcr_action = gi_action i, gcr_packets_per_second = None, gcr_burst = None,
      gcr_updated_at = ae_now E\<rparr>"

definition country_target :: "geo_country_input \<Rightarrow> geo_country_policy_row \<Rightarrow> bool" where
  "country_target i r \<longleftrightarrow>
     in_policy country_table r \<and> gcr_country r = gi_country i \<and> gcr_action r = gi_action i \<and>
     gcr_enabled r = gi_enabled i"

definition multiple_countries :: string where
  "multiple_countries = ''multiple geo country policies match; delete by id''"

definition create_geo_country ::
    "api_env \<Rightarrow> geo_country_input \<Rightarrow> (geo_country_policy_row \<times> bool \<times> bool) txn" where
  "create_geo_country E i =
     create_unless_found country_table multiple_countries (country_target i) (geo_country_active_model E i)"

definition create_country_handler ::
    "api_env \<Rightarrow> create_geo_country_request \<Rightarrow> firewall_db \<Rightarrow>
       firewall_db \<times> ((geo_country_policy_row \<times> bool) \<times> i64 option) res" where
  "create_country_handler E r =
     after_checks (geo_country_input_of r) (\<lambda>i.
       commit (txn_bind (create_geo_country E i) (\<lambda>(row, inserted, active).
         versioned (row, inserted) (ae_now E) active)))"

definition create_countries_handler ::
    "api_env \<Rightarrow> create_geo_country_request list \<Rightarrow> firewall_db \<Rightarrow>
       firewall_db \<times> (geo_country_policy_row create_rows \<times> i64 option) res" where
  "create_countries_handler E rs =
     after_checks (bindE (validate_batch_len (length rs)) (\<lambda>_. traverse geo_country_input_of rs)) (\<lambda>is.
       commit (txn_bind (create_each (create_geo_country E) is new_create_rows) (\<lambda>s.
         versioned s (ae_now E) (crr_active_changed s))))"

definition delete_country_by_id :: "api_env \<Rightarrow> i32 \<Rightarrow> firewall_db \<Rightarrow> firewall_db \<times> (i32 \<times> i64 option) res" where
  "delete_country_by_id E i = commit (delete_by_id country_table (ae_now E) i)"

definition delete_countries_batch :: "api_env \<Rightarrow> i32 list \<Rightarrow> firewall_db \<Rightarrow> firewall_db \<times> (nat \<times> i64 option) res" where
  "delete_countries_batch E ids =
     after_checks (validate_batch_ids ids) (\<lambda>ids. commit (delete_ids country_table (ae_now E) ids))"

text \<open>The target of a delete: the query names country, action and enabled flag.\<close>

definition country_delete_target :: "string \<Rightarrow> string \<Rightarrow> bool \<Rightarrow> geo_country_input res" where
  "country_delete_target country action en =
     bindE (normalize_country country) (\<lambda>country.
     bindE (normalize_action action) (\<lambda>action.
     Inr \<lparr>gi_enabled = en, gi_country = country, gi_action = action\<rparr>))"

definition delete_country_by_query ::
    "api_env \<Rightarrow> string \<Rightarrow> string \<Rightarrow> bool \<Rightarrow> firewall_db \<Rightarrow> firewall_db \<times> (nat \<times> i64 option) res" where
  "delete_country_by_query E country action en =
     after_checks (country_delete_target country action en) (\<lambda>i.
       commit (delete_single country_table (ae_now E) multiple_countries (country_target i)))"

definition list_countries ::
    "u64 option \<Rightarrow> u64 option \<Rightarrow> string option \<Rightarrow> string option \<Rightarrow> bool option \<Rightarrow>
       firewall_db \<Rightarrow> geo_country_policy_row page res" where
  "list_countries page page_size country action en db =
     bindE (normalize_pagination page page_size) (\<lambda>p.
     bindE (transposeE normalize_country country) (\<lambda>country.
     bindE (transposeE normalize_action action) (\<lambda>action.
     Inr (fetch_page (order_by gcr_country (select_rows country_table
       (\<lambda>r. in_policy country_table r \<and> opt_filter (\<lambda>r c. gcr_country r = c) country r \<and>
            opt_filter (\<lambda>r a. gcr_action r = a) action r \<and> opt_filter (\<lambda>r e. gcr_enabled r = e) en r) db)) p))))"

end
