(* ===== verification/Threat_Refresh.thy ===== *)
theory Threat_Refresh
  imports Policy_View Refresh_Gate
begin

text \<open>
  A refresh of the threat lists: \<^verbatim>\<open>intelligence/threat/source_fetch.rs\<close>, \<^verbatim>\<open>threat/refresh.rs\<close> and
  \<^verbatim>\<open>threat/refresh/\<close>. The HTTP client is a parameter that answers a URL with a response; the lock is the
  one of \<open>Refresh_Lock\<close>, of which only the outcome matters here. The lists are read and downloaded
  outside the transaction that stores them.
\<close>

section \<open>Downloading\<close>

definition max_threat_body_bytes :: nat where "max_threat_body_bytes = 16 * 1024 * 1024"
definition threat_http_max_redirects :: nat where "threat_http_max_redirects = 3"

definition validate_source_url_parts :: "string \<Rightarrow> unit res" where
  "validate_source_url_parts scheme =
     (if scheme = ''http'' \<or> scheme = ''https'' then Inr ()
      else Inl (BadRequest ''threat source URL must use http or https''))"

definition validate_source_url :: "(string \<Rightarrow> string option) \<Rightarrow> string \<Rightarrow> unit res" where
  "validate_source_url url_scheme value =
     bindE (ok_or (BadRequest ''invalid threat source URL'') (url_scheme value)) validate_source_url_parts"

text \<open>What the policy answers to one redirect: \<open>previous\<close> is the number of URLs already visited.\<close>

definition threat_redirect_policy :: "nat \<Rightarrow> string \<Rightarrow> unit res" where
  "threat_redirect_policy previous scheme =
     (if threat_http_max_redirects < previous then Inl (BadRequest ''too many threat source redirects'')
      else validate_source_url_parts scheme)"

definition fetch_threat_source_prefixes ::
    "ipnet_lib \<Rightarrow> net_text \<Rightarrow> json_lib \<Rightarrow> (string \<Rightarrow> string option) \<Rightarrow> (string \<Rightarrow> http_response res) \<Rightarrow>
       threat_source \<Rightarrow> threat_prefix list res" where
  "fetch_threat_source_prefixes N T J url_scheme client source =
     bindE (validate_source_url url_scheme (ts_url source)) (\<lambda>_.
     bindE (client (ts_url source)) (\<lambda>response.
     if hr_status_redirection response then Inl (Internal ''unsupported redirect'')
     else if hr_status_error response then Inl (Internal ''HTTP error'')
     else (case ts_format source of
         FmtSpamhausDrop \<Rightarrow>
           bindE (read_limited_body response max_threat_body_bytes ''threat source'')
             (\<lambda>body. Inr (parse_spamhaus_drop N T J body))
       | FmtIpsum \<Rightarrow>
           read_limited_lines response max_threat_body_bytes ''threat source''
             (\<lambda>line. Inr (parse_lenient_ipsum_line N T line (unwrap_or 1 (ts_min_score source))))
       | _ \<Rightarrow>
           read_limited_lines response max_threat_body_bytes ''threat source''
             (\<lambda>line. Inr (parse_lenient_line_prefix N T line)))))"

definition fetch_threat_prefixes ::
    "(threat_source \<Rightarrow> threat_prefix list res) \<Rightarrow> threat_source list \<Rightarrow> threat_prefix list res" where
  "fetch_threat_prefixes fetch sources = mapE (\<lambda>ps. normalize_prefixes (concat ps)) (traverse fetch sources)"

section \<open>One batch\<close>

text \<open>A state row waits for its id until it is stored. The count is a \<^verbatim>\<open>u64\<close> no list of sources can overflow.\<close>

record threat_refresh_batch =
  trb_states :: "(i32 \<Rightarrow> threat_source_state_row) list"
  trb_changed :: "(string \<times> threat_prefix list) list"
  trb_changed_source_count :: nat
  trb_prefix_count :: nat
  trb_checked_at :: datetime

type_synonym known_states = "string \<Rightarrow> threat_source_state_row option"

definition fetch_normalized_source_prefixes ::
    "(threat_source \<Rightarrow> threat_prefix list res) \<Rightarrow> threat_source \<Rightarrow> (threat_prefix list \<times> string) res" where
  "fetch_normalized_source_prefixes fetch source =
     bindE (fetch source) (\<lambda>ps. let ps = normalize_prefixes ps in Inr (ps, threat_prefix_fingerprint ps))"

definition threat_source_changed :: "threat_source \<Rightarrow> string \<Rightarrow> known_states \<Rightarrow> string set \<Rightarrow> bool" where
  "threat_source_changed source fingerprint existing existing_prefix_sources \<longleftrightarrow>
     (case existing (ts_name source) of None \<Rightarrow> True | Some s \<Rightarrow> tss_fingerprint s \<noteq> fingerprint) \<or>
     ts_name source \<notin> existing_prefix_sources"

definition threat_source_updated_at :: "threat_source \<Rightarrow> bool \<Rightarrow> known_states \<Rightarrow> datetime \<Rightarrow> datetime" where
  "threat_source_updated_at source changed existing now =
     (if changed then now
      else (case existing (ts_name source) of None \<Rightarrow> now | Some s \<Rightarrow> tss_updated_at s))"

definition threat_source_refresh_state ::
    "threat_source \<Rightarrow> string \<Rightarrow> nat \<Rightarrow> bool \<Rightarrow> known_states \<Rightarrow> datetime \<Rightarrow> (i32 \<Rightarrow> threat_source_state_row) res" where
  "threat_source_refresh_state source fingerprint prefix_count changed existing now =
     (if 2147483647 < prefix_count then Inl (Internal ''threat prefix count overflowed'')
      else Inr (\<lambda>row_id. \<lparr>tss_id = row_id, tss_policy_name = default_policy_name, tss_source_name = ts_name source,
        tss_fingerprint = fingerprint, tss_prefix_count = word_of_nat prefix_count, tss_last_checked_at = now,
        tss_last_changed_at = (if changed then Some now
          else (case existing (ts_name source) of None \<Rightarrow> None | Some s \<Rightarrow> tss_last_changed_at s)),
        tss_updated_at = threat_source_updated_at source changed existing now\<rparr>))"

definition refresh_one_source ::
    "(threat_source \<Rightarrow> threat_prefix list res) \<Rightarrow> known_states \<Rightarrow> string set \<Rightarrow> datetime \<Rightarrow>
       threat_source \<Rightarrow> threat_refresh_batch \<Rightarrow> threat_refresh_batch res" where
  "refresh_one_source fetch existing existing_prefix_sources now source b =
     bindE (fetch_normalized_source_prefixes fetch source) (\<lambda>(prefixes, fingerprint).
     let n = length prefixes;
         changed = threat_source_changed source fingerprint existing existing_prefix_sources;
         b = b\<lparr>trb_prefix_count := trb_prefix_count b + n\<rparr>;
         b = (if changed then b\<lparr>trb_changed_source_count := trb_changed_source_count b + 1,
                                trb_changed := trb_changed b @ [(ts_name source, prefixes)]\<rparr> else b) in
     mapE (\<lambda>s. b\<lparr>trb_states := trb_states b @ [s]\<rparr>)
       (threat_source_refresh_state source fingerprint n changed existing now))"

fun refresh_sources ::
    "(threat_source \<Rightarrow> threat_prefix list res) \<Rightarrow> known_states \<Rightarrow> string set \<Rightarrow> datetime \<Rightarrow>
       threat_source list \<Rightarrow> threat_refresh_batch \<Rightarrow> threat_refresh_batch res" where
  "refresh_sources fetch existing prefix_sources now [] b = Inr b"
| "refresh_sources fetch existing prefix_sources now (s # ss) b =
     bindE (refresh_one_source fetch existing prefix_sources now s b)
       (refresh_sources fetch existing prefix_sources now ss)"

definition refresh_threat_source_batch ::
    "(threat_source \<Rightarrow> threat_prefix list res) \<Rightarrow> threat_source list \<Rightarrow> known_states \<Rightarrow> string set \<Rightarrow> datetime \<Rightarrow>
       threat_refresh_batch res" where
  "refresh_threat_source_batch fetch sources existing prefix_sources now =
     refresh_sources fetch existing prefix_sources now sources
       \<lparr>trb_states = [], trb_changed = [], trb_changed_source_count = 0, trb_prefix_count = 0, trb_checked_at = now\<rparr>"

section \<open>Reading and storing\<close>

definition load_enabled_threat_sources :: "firewall_db \<Rightarrow> threat_source list res" where
  "load_enabled_threat_sources db = traverse threat_source_try_from (active_sources db)"

text \<open>Collected into a map: the last row of a name stays.\<close>

definition load_existing_threat_states :: "firewall_db \<Rightarrow> known_states" where
  "load_existing_threat_states db =
     map_of (rev (map (\<lambda>r. (tss_source_name r, r))
       (filter (\<lambda>r. tss_policy_name r = default_policy_name) (db_threat_states db))))"

definition load_existing_threat_prefix_sources :: "firewall_db \<Rightarrow> string set" where
  "load_existing_threat_prefix_sources db =
     set (map tpr_source_name (filter (\<lambda>r. tpr_policy_name r = default_policy_name) (db_threat_prefixes db)))"

text \<open>The ids the engine gives to the next prefix row and the next state row.\<close>

record refresh_ids =
  rid_prefix :: "firewall_db \<Rightarrow> i32"
  rid_state :: "firewall_db \<Rightarrow> i32"

definition same_state_key :: "threat_source_state_row \<Rightarrow> threat_source_state_row \<Rightarrow> bool" where
  "same_state_key a b \<longleftrightarrow> tss_policy_name a = tss_policy_name b \<and> tss_source_name a = tss_source_name b"

definition upsert_threat_source_state ::
    "refresh_ids \<Rightarrow> (i32 \<Rightarrow> threat_source_state_row) \<Rightarrow> firewall_db \<Rightarrow> firewall_db" where
  "upsert_threat_source_state ids model db =
     (let new = model (rid_state ids db) in
      if list_ex (same_state_key new) (db_threat_states db)
      then db\<lparr>db_threat_states := map (\<lambda>r. if same_state_key new r
             then r\<lparr>tss_fingerprint := tss_fingerprint new, tss_prefix_count := tss_prefix_count new,
                    tss_last_checked_at := tss_last_checked_at new, tss_last_changed_at := tss_last_changed_at new,
                    tss_updated_at := tss_updated_at new\<rparr> else r) (db_threat_states db)\<rparr>
      else db\<lparr>db_threat_states := db_threat_states db @ [new]\<rparr>)"

definition persist_changed ::
    "json_lib \<Rightarrow> refresh_ids \<Rightarrow> datetime \<Rightarrow> (string \<times> threat_prefix list) \<Rightarrow> firewall_db \<Rightarrow> firewall_db" where
  "persist_changed J ids now p db =
     persist_threat_source_prefixes J (rid_prefix ids db) default_policy_name (fst p) (snd p) now db"

definition persist_threat_refresh_batch ::
    "json_lib \<Rightarrow> refresh_ids \<Rightarrow> datetime \<Rightarrow> threat_refresh_batch \<Rightarrow> firewall_db \<Rightarrow> firewall_db" where
  "persist_threat_refresh_batch J ids now b db =
     (let db = fold (persist_changed J ids (trb_checked_at b)) (trb_changed b) db;
          db = fold (upsert_threat_source_state ids) (trb_states b) db in
      if 0 < trb_changed_source_count b then fst (bump now db) else db)"

definition threat_refresh_report_of :: "nat \<Rightarrow> nat \<Rightarrow> nat \<Rightarrow> threat_refresh_report" where
  "threat_refresh_report_of enabled changed prefix_count =
     \<lparr>tf_enabled_source_count = word_of_nat enabled, tf_changed_source_count = word_of_nat changed, tf_prefix_count = prefix_count,
      tf_refreshed = (0 < changed), tf_refresh_status = (if 0 < changed then ''changed'' else ''unchanged''),
      tf_cached = False, tf_running = False\<rparr>"

text \<open>
  \<open>dbs k\<close> is what the \<open>k\<close>-th query reads and \<open>db\<close> the state the storing transaction starts from; a
  refresh that finds the lock taken reads nothing.
\<close>

definition refresh_enabled_threat_sources ::
    "json_lib \<Rightarrow> refresh_ids \<Rightarrow> (threat_source \<Rightarrow> threat_prefix list res) \<Rightarrow> bool \<Rightarrow> datetime \<Rightarrow>
       (nat \<Rightarrow> firewall_db) \<Rightarrow> firewall_db \<Rightarrow> firewall_db \<times> threat_refresh_report res" where
  "refresh_enabled_threat_sources J ids fetch acquired now dbs db =
     (if \<not> acquired then (db, Inr ((threat_report_empty ''running'')\<lparr>tf_running := True\<rparr>))
      else case load_enabled_threat_sources (dbs 0) of
        Inl e \<Rightarrow> (db, Inl e)
      | Inr sources \<Rightarrow>
          if sources = [] then (db, Inr (threat_report_empty ''empty''))
          else (case refresh_threat_source_batch fetch sources (load_existing_threat_states (dbs 1))
                    (load_existing_threat_prefix_sources (dbs 2)) now of
              Inl e \<Rightarrow> (db, Inl e)
            | Inr b \<Rightarrow> (persist_threat_refresh_batch J ids now b db,
                Inr (threat_refresh_report_of (length sources) (trb_changed_source_count b) (trb_prefix_count b)))))"

end
