(* ===== verification/Api_Sources.thy ===== *)
theory Api_Sources
  imports Api_Rules Threat_Refresh
begin

text \<open>
  The handlers for threat sources (\<^verbatim>\<open>api/threat_sources/\<close>), dynamic defense
  (\<^verbatim>\<open>api/dynamic_defense.rs\<close>) and the bare version bump (\<^verbatim>\<open>api/policy_meta.rs\<close>). A source that is
  removed or disabled takes its refresh state and its stored prefixes with it. The refresh a new or
  re-enabled source queues runs after the commit and is not part of the write.
\<close>

section \<open>Threat sources\<close>

definition source_table :: "threat_source_row api_table" where
  "source_table =
     \<lparr>at_rows = db_threat_sources, at_put = (\<lambda>rows db. db\<lparr>db_threat_sources := rows\<rparr>), at_id = tsr_id,
      at_policy = tsr_policy_name, at_enabled = tsr_enabled,
      at_clash = (\<lambda>a b. tsr_policy_name a = tsr_policy_name b \<and> tsr_name a = tsr_name b),
      at_conflict = DbErr ''unique constraint'', at_missing = ''threat source not found''\<rparr>"

record create_threat_source_request =
  cs_enabled :: "bool option"
  cs_name :: string
  cs_url :: string
  cs_format :: string
  cs_min_score :: "i32 option"

record threat_source_input =
  si_enabled :: bool
  si_name :: string
  si_url :: string
  si_format :: string
  si_min_score :: "i32 option"

definition normalize_threat_format :: "string \<Rightarrow> string res" where
  "normalize_threat_format value =
     (let v = to_lower value in
      if v = ''cidr'' then Inr ''cidr''
      else if v = ''ips'' then Inr ''ips''
      else if v = ''ipsum'' then Inr ''ipsum''
      else if v = ''voipbl'' \<or> v = ''voipbl_cidr'' \<or> v = ''voipbl-cidr'' then Inr ''voipbl''
      else if v = ''spamhaus_drop'' \<or> v = ''spamhaus-drop'' then Inr ''spamhaus_drop''
      else Inl (BadRequest ''threat format must be cidr, ips, ipsum, voipbl, or spamhaus_drop''))"

definition validate_optional_non_negative :: "string \<Rightarrow> i32 option \<Rightarrow> unit res" where
  "validate_optional_non_negative label value =
     (case value of
        Some v \<Rightarrow> if sint v < 0 then Inl (BadRequest (label @ '' must be greater than or equal to 0'')) else Inr ()
      | None \<Rightarrow> Inr ())"

definition threat_source_input_of :: "api_env \<Rightarrow> create_threat_source_request \<Rightarrow> threat_source_input res" where
  "threat_source_input_of E r =
     bindE (normalize_threat_format (cs_format r)) (\<lambda>format.
     bindE (validate_source_url (ae_url_scheme E) (cs_url r)) (\<lambda>_.
     bindE (validate_optional_non_negative ''min_score'' (cs_min_score r)) (\<lambda>_.
     Inr \<lparr>si_enabled = unwrap_or True (cs_enabled r), si_name = cs_name r, si_url = cs_url r,
          si_format = format, si_min_score = cs_min_score r\<rparr>)))"

definition source_active_model :: "api_env \<Rightarrow> firewall_db \<Rightarrow> threat_source_input \<Rightarrow> threat_source_row" where
  "source_active_model E db i =
     \<lparr>tsr_id = ae_next_id E db, tsr_policy_name = default_policy_name, tsr_enabled = si_enabled i,
      tsr_name = si_name i, tsr_url = si_url i, tsr_format = si_format i, tsr_min_score = si_min_score i,
      tsr_updated_at = ae_now E\<rparr>"

definition source_matches_existing :: "threat_source_input \<Rightarrow> threat_source_row \<Rightarrow> bool" where
  "source_matches_existing i r \<longleftrightarrow>
     tsr_enabled r = si_enabled i \<and> tsr_url r = si_url i \<and> tsr_format r = si_format i \<and> tsr_min_score r = si_min_score i"

definition source_named :: "string \<Rightarrow> threat_source_row \<Rightarrow> bool" where
  "source_named name r \<longleftrightarrow> in_policy source_table r \<and> tsr_name r = name"

definition create_threat_source :: "api_env \<Rightarrow> threat_source_input \<Rightarrow> (threat_source_row \<times> bool \<times> bool) txn" where
  "create_threat_source E i db =
     (case select_rows source_table (source_named (si_name i)) db of
        [] \<Rightarrow> txn_bind (insert_row source_table (source_active_model E db i))
               (\<lambda>row. txn_return (row, True, tsr_enabled row)) db
      | existing # _ \<Rightarrow>
          if source_matches_existing i existing then Inr ((existing, False, False), db)
          else Inl (ConflictErr ''threat source name already exists''))"

text \<open>A single create is a batch of one without the length check; it answers the one row.\<close>

definition create_sources_txn ::
    "api_env \<Rightarrow> threat_source_input list \<Rightarrow> (threat_source_row create_rows \<times> i64 option) txn" where
  "create_sources_txn E is =
     txn_bind (create_each (create_threat_source E) is new_create_rows) (\<lambda>s.
       versioned s (ae_now E) (crr_active_changed s))"

definition create_source_handler ::
    "api_env \<Rightarrow> create_threat_source_request \<Rightarrow> firewall_db \<Rightarrow>
       firewall_db \<times> ((threat_source_row \<times> bool) \<times> i64 option) res" where
  "create_source_handler E r =
     after_checks (threat_source_input_of E r) (\<lambda>i db.
       (let (db', result) = commit (create_sources_txn E [i]) db in
        (db', bindE result (\<lambda>(s, v).
           case crr_rows s of
             [] \<Rightarrow> Inl (ConflictErr ''threat source create produced no row'')
           | row # _ \<Rightarrow> Inr ((row, crr_inserted s), v)))))"

definition create_sources_handler ::
    "api_env \<Rightarrow> create_threat_source_request list \<Rightarrow> firewall_db \<Rightarrow>
       firewall_db \<times> (threat_source_row create_rows \<times> i64 option) res" where
  "create_sources_handler E rs =
     after_checks (bindE (validate_batch_len (length rs)) (\<lambda>_. traverse (threat_source_input_of E) rs)) (\<lambda>is.
       commit (create_sources_txn E is))"

definition delete_threat_source_states_by_name :: "string list \<Rightarrow> unit txn" where
  "delete_threat_source_states_by_name names db =
     Inr ((), if names = [] then db
       else delete_persisted_threat_prefixes_by_name names
              (db\<lparr>db_threat_states := filter (\<lambda>r. \<not> (tss_policy_name r = default_policy_name \<and>
                   tss_source_name r \<in> set names)) (db_threat_states db)\<rparr>))"

text \<open>The source is read before the transaction, in the state \<open>seen\<close>.\<close>

definition update_source_handler ::
    "api_env \<Rightarrow> firewall_db \<Rightarrow> i32 \<Rightarrow> bool \<Rightarrow> firewall_db \<Rightarrow> firewall_db \<times> (threat_source_row \<times> i64 option) res" where
  "update_source_handler E seen i en db =
     (case select_rows source_table (\<lambda>r. in_policy source_table r \<and> tsr_id r = i) seen of
        [] \<Rightarrow> (db, Inl (NotFound ''threat source not found''))
      | row # _ \<Rightarrow>
          if tsr_enabled row = en then (db, Inr (row, None))
          else commit
            (txn_bind (update_row source_table (tsr_id row) (\<lambda>r. r\<lparr>tsr_enabled := en, tsr_updated_at := ae_now E\<rparr>)) (\<lambda>updated.
             txn_bind (if en then txn_return () else delete_threat_source_states_by_name [tsr_name row]) (\<lambda>_.
             versioned updated (ae_now E) True))) db)"

definition delete_source_where :: "datetime \<Rightarrow> (threat_source_row \<Rightarrow> bool) \<Rightarrow> (nat \<times> i64 option) txn" where
  "delete_source_where now P db =
     (case select_rows source_table P db of
        [] \<Rightarrow> Inl (NotFound ''threat source not found'')
      | row # _ \<Rightarrow>
          txn_bind (delete_rows source_table P) (\<lambda>deleted.
            if deleted = 0 then (\<lambda>_. Inl (NotFound ''threat source not found''))
            else txn_bind (delete_threat_source_states_by_name [tsr_name row]) (\<lambda>_.
                 versioned deleted now (tsr_enabled row))) db)"

definition delete_source_by_query :: "api_env \<Rightarrow> string \<Rightarrow> firewall_db \<Rightarrow> firewall_db \<times> (nat \<times> i64 option) res" where
  "delete_source_by_query E name =
     after_checks (if trim name = [] then Inl (BadRequest ''name must not be empty'') else Inr (trim name)) (\<lambda>name.
       commit (delete_source_where (ae_now E) (source_named name)))"

definition delete_source_by_id :: "api_env \<Rightarrow> i32 \<Rightarrow> firewall_db \<Rightarrow> firewall_db \<times> (nat \<times> i64 option) res" where
  "delete_source_by_id E i =
     commit (delete_source_where (ae_now E) (\<lambda>r. in_policy source_table r \<and> tsr_id r = i))"

definition delete_source_ids :: "datetime \<Rightarrow> i32 list \<Rightarrow> (nat \<times> i64 option) txn" where
  "delete_source_ids now ids db =
     (let P = (\<lambda>r. in_policy source_table r \<and> tsr_id r \<in> set ids); rows = select_rows source_table P db in
      if length rows \<noteq> length ids then Inl (NotFound ''threat source not found'')
      else txn_bind (delete_rows source_table P) (\<lambda>deleted.
           txn_bind (txn_of (ensure_all_ids_deleted deleted (length ids) ''threat source not found'')) (\<lambda>_.
           txn_bind (delete_threat_source_states_by_name (map tsr_name rows)) (\<lambda>_.
           versioned deleted now (list_ex tsr_enabled rows)))) db)"

definition delete_sources_batch :: "api_env \<Rightarrow> i32 list \<Rightarrow> firewall_db \<Rightarrow> firewall_db \<times> (nat \<times> i64 option) res" where
  "delete_sources_batch E ids =
     after_checks (validate_batch_ids ids) (\<lambda>ids. commit (delete_source_ids (ae_now E) ids))"

record source_query =
  sq_page :: "u64 option"
  sq_page_size :: "u64 option"
  sq_name :: "string option"
  sq_url :: "string option"
  sq_format :: "string option"
  sq_enabled :: "bool option"
  sq_min_score :: "i32 option"

definition source_filters :: "source_query \<Rightarrow> (threat_source_row \<Rightarrow> bool) res" where
  "source_filters q =
     bindE (transposeE normalize_threat_format (sq_format q)) (\<lambda>format.
     bindE (validate_optional_non_negative ''min_score'' (sq_min_score q)) (\<lambda>_.
     Inr (\<lambda>r. in_policy source_table r \<and> opt_filter (\<lambda>r n. tsr_name r = trim n) (sq_name q) r \<and>
       opt_filter (\<lambda>r u. tsr_url r = trim u) (sq_url q) r \<and> opt_filter (\<lambda>r f. tsr_format r = f) format r \<and>
       opt_filter (\<lambda>r e. tsr_enabled r = e) (sq_enabled q) r \<and>
       opt_filter (\<lambda>r m. tsr_min_score r = Some m) (sq_min_score q) r)))"

definition list_sources :: "source_query \<Rightarrow> firewall_db \<Rightarrow> threat_source_row page res" where
  "list_sources q db =
     bindE (normalize_pagination (sq_page q) (sq_page_size q)) (\<lambda>p.
     bindE (source_filters q) (\<lambda>P.
     Inr (fetch_page (order_by tsr_name (select_rows source_table P db)) p)))"

section \<open>Dynamic defense\<close>

record update_defense_request =
  ud_enabled :: "bool option"
  ud_ip_rate_limit_enabled :: "bool option"
  ud_ip_packets_per_second :: "i32 option"
  ud_ip_burst :: "i32 option"
  ud_flood_enabled :: "bool option"
  ud_flood_packets_per_second :: "i32 option"
  ud_flood_burst :: "i32 option"
  ud_flood_block_seconds :: "i32 option"

definition or_default :: "'a option \<Rightarrow> 'a option \<Rightarrow> 'a option" where
  "or_default v d = (case v of None \<Rightarrow> d | Some x \<Rightarrow> Some x)"

definition requested_u32 :: "string \<Rightarrow> i32 option \<Rightarrow> u32 option res" where
  "requested_u32 label v =
     transposeE (\<lambda>x. ok_or (BadRequest (label @ '' must not be negative'')) (u32_try_from_i32 x)) v"

definition dynamic_defense_policy_from_request :: "update_defense_request \<Rightarrow> dynamic_defense_policy res" where
  "dynamic_defense_policy_from_request r =
     (let d = default_dynamic_defense in
     bindE (requested_u32 ''ip_packets_per_second'' (ud_ip_packets_per_second r)) (\<lambda>ipps.
     bindE (requested_u32 ''ip_burst'' (ud_ip_burst r)) (\<lambda>ipb.
     bindE (requested_u32 ''flood_packets_per_second'' (ud_flood_packets_per_second r)) (\<lambda>fpps.
     bindE (requested_u32 ''flood_burst'' (ud_flood_burst r)) (\<lambda>fb.
     bindE (requested_u32 ''flood_block_seconds'' (ud_flood_block_seconds r)) (\<lambda>fbs.
     Inr \<lparr>dd_enabled = unwrap_or (dd_enabled d) (ud_enabled r),
          dd_ip_rate_limit_enabled = unwrap_or (dd_ip_rate_limit_enabled d) (ud_ip_rate_limit_enabled r),
          dd_ip_packets_per_second = or_default ipps (dd_ip_packets_per_second d),
          dd_ip_burst = or_default ipb (dd_ip_burst d),
          dd_flood_enabled = unwrap_or (dd_flood_enabled d) (ud_flood_enabled r),
          dd_flood_packets_per_second = or_default fpps (dd_flood_packets_per_second d),
          dd_flood_burst = or_default fb (dd_flood_burst d),
          dd_flood_block_seconds = or_default fbs (dd_flood_block_seconds d)\<rparr>))))))"

definition dynamic_defense_policy_from_model :: "dynamic_defense_row \<Rightarrow> dynamic_defense_policy res" where
  "dynamic_defense_policy_from_model row =
     bindE (optional_i32_to_u32 ''ip_packets_per_second'' (ddr_ip_packets_per_second row)) (\<lambda>ipps.
     bindE (optional_i32_to_u32 ''ip_burst'' (ddr_ip_burst row)) (\<lambda>ipb.
     bindE (optional_i32_to_u32 ''flood_packets_per_second'' (ddr_flood_packets_per_second row)) (\<lambda>fpps.
     bindE (optional_i32_to_u32 ''flood_burst'' (ddr_flood_burst row)) (\<lambda>fb.
     bindE (optional_i32_to_u32 ''flood_block_seconds'' (ddr_flood_block_seconds row)) (\<lambda>fbs.
     Inr \<lparr>dd_enabled = ddr_enabled row, dd_ip_rate_limit_enabled = ddr_ip_rate_limit_enabled row,
          dd_ip_packets_per_second = ipps, dd_ip_burst = ipb, dd_flood_enabled = ddr_flood_enabled row,
          dd_flood_packets_per_second = fpps, dd_flood_burst = fb, dd_flood_block_seconds = fbs\<rparr>)))))"

definition set_dynamic_defense_fields ::
    "dynamic_defense_row \<Rightarrow> dynamic_defense_policy \<Rightarrow> dynamic_defense_row res" where
  "set_dynamic_defense_fields row d =
     bindE (optional_u32_to_i32 ''ip_packets_per_second'' (dd_ip_packets_per_second d)) (\<lambda>ipps.
     bindE (optional_u32_to_i32 ''ip_burst'' (dd_ip_burst d)) (\<lambda>ipb.
     bindE (optional_u32_to_i32 ''flood_packets_per_second'' (dd_flood_packets_per_second d)) (\<lambda>fpps.
     bindE (optional_u32_to_i32 ''flood_burst'' (dd_flood_burst d)) (\<lambda>fb.
     bindE (optional_u32_to_i32 ''flood_block_seconds'' (dd_flood_block_seconds d)) (\<lambda>fbs.
     Inr (row\<lparr>ddr_enabled := dd_enabled d, ddr_ip_rate_limit_enabled := dd_ip_rate_limit_enabled d,
              ddr_ip_packets_per_second := ipps, ddr_ip_burst := ipb, ddr_flood_enabled := dd_flood_enabled d,
              ddr_flood_packets_per_second := fpps, ddr_flood_burst := fb, ddr_flood_block_seconds := fbs\<rparr>))))))"

definition dynamic_defense_active_model ::
    "string \<Rightarrow> dynamic_defense_policy \<Rightarrow> datetime \<Rightarrow> dynamic_defense_row res" where
  "dynamic_defense_active_model policy_name d now =
     set_dynamic_defense_fields
       \<lparr>ddr_policy_name = policy_name, ddr_enabled = False, ddr_ip_rate_limit_enabled = False,
        ddr_ip_packets_per_second = None, ddr_ip_burst = None, ddr_flood_enabled = False,
        ddr_flood_packets_per_second = None, ddr_flood_burst = None, ddr_flood_block_seconds = None,
        ddr_updated_at = now\<rparr> d"

definition get_defense :: "firewall_db \<Rightarrow> dynamic_defense_policy res" where
  "get_defense db =
     mapE (unwrap_or default_dynamic_defense)
       (transposeE dynamic_defense_policy_from_model
          (find (\<lambda>r. ddr_policy_name r = default_policy_name) (db_dynamic_defense db)))"

definition save_defense :: "datetime \<Rightarrow> dynamic_defense_policy \<Rightarrow> (dynamic_defense_policy \<times> i64 option) txn" where
  "save_defense now d db =
     (case find (\<lambda>r. ddr_policy_name r = default_policy_name) (db_dynamic_defense db) of
        Some row \<Rightarrow>
          bindE (dynamic_defense_policy_from_model row) (\<lambda>old.
            if old = d then Inr ((d, None), db)
            else bindE (set_dynamic_defense_fields row d) (\<lambda>row'.
              versioned d now True (db\<lparr>db_dynamic_defense :=
                map (\<lambda>r. if ddr_policy_name r = default_policy_name then row'\<lparr>ddr_updated_at := now\<rparr> else r)
                  (db_dynamic_defense db)\<rparr>)))
      | None \<Rightarrow>
          bindE (dynamic_defense_active_model default_policy_name d now) (\<lambda>row.
            versioned d now True (db\<lparr>db_dynamic_defense := db_dynamic_defense db @ [row]\<rparr>)))"

definition update_defense_handler ::
    "api_env \<Rightarrow> update_defense_request \<Rightarrow> firewall_db \<Rightarrow> firewall_db \<times> (dynamic_defense_policy \<times> i64 option) res" where
  "update_defense_handler E r =
     after_checks (bindE (dynamic_defense_policy_from_request r) (\<lambda>d.
                   mapE (\<lambda>_. d) (validate_dynamic_defense_policy d))) (\<lambda>d.
       commit (save_defense (ae_now E) d))"

section \<open>The bare bump\<close>

definition bump_policy_version :: "api_env \<Rightarrow> firewall_db \<Rightarrow> firewall_db \<times> i64" where
  "bump_policy_version E db = next_policy_version (ae_now E) default_policy_name db"

end
