(* ===== verification/Api_Laws.thy ===== *)
theory Api_Laws
  imports Api_Network Api_Limits Api_Sources
begin

text \<open>
  The laws the API tables share. A store invariant is any property of the database a version bump
  keeps (\<open>store_laws\<close>); a table obeys \<open>table_laws\<close> when its rows can be read and replaced on
  their own, only its active rows count for a policy load, and replacing them by rows that respect the
  unique columns and the row check keeps the invariant. The effect of every insert, update and
  delete is proved once from these laws, and interpreted on the six tables.
\<close>

section \<open>Store invariants\<close>

text \<open>What a transaction has done so far: no bump, and the view only changed when it says so.\<close>

definition pending :: "(firewall_db \<Rightarrow> bool) \<Rightarrow> firewall_db \<Rightarrow> firewall_db \<Rightarrow> bool \<Rightarrow> bool" where
  "pending keeps db db' active \<longleftrightarrow>
     keeps db' \<and> latest_version db' = latest_version db \<and> (\<not> active \<longrightarrow> same_policy_tables db db')"

definition good_result :: "(firewall_db \<Rightarrow> bool) \<Rightarrow> firewall_db \<Rightarrow> ('a \<times> firewall_db) res \<Rightarrow> bool" where
  "good_result keeps db r \<longleftrightarrow> (\<forall>x db'. r = Inr (x, db') \<longrightarrow> keeps db' \<and> versioned_write db db')"

definition sound_write :: "(firewall_db \<Rightarrow> bool) \<Rightarrow> (firewall_db \<Rightarrow> firewall_db \<times> 'a) \<Rightarrow> bool" where
  "sound_write keeps w \<longleftrightarrow> (\<forall>db. keeps db \<longrightarrow> keeps (fst (w db)) \<and> versioned_write db (fst (w db)))"

lemma versioned_write_refl [simp]: "versioned_write db db"
  by (simp add: versioned_write_def)

lemma pending_refl: "keeps db \<Longrightarrow> pending keeps db db act"
  by (simp add: pending_def)

lemma pending_trans: "pending keeps a b x \<Longrightarrow> pending keeps b c y \<Longrightarrow> pending keeps a c (x \<or> y)"
  by (auto simp: pending_def intro: same_policy_tables_trans)

lemma pending_inv: "pending keeps a b x \<Longrightarrow> keeps b"
  by (simp add: pending_def)

lemma good_result_Inl [simp]: "good_result keeps db (Inl e)"
  by (simp add: good_result_def)

lemma good_result_bind:
  "(\<And>x. r = Inr x \<Longrightarrow> good_result keeps db (f x)) \<Longrightarrow> good_result keeps db (bindE r f)"
  by (cases r) simp_all

lemma good_result_txn_bind:
  "(\<And>x db'. t db = Inr (x, db') \<Longrightarrow> good_result keeps db0 (f x db')) \<Longrightarrow> good_result keeps db0 (txn_bind t f db)"
  unfolding txn_bind_def by (rule good_result_bind) (simp split: prod.split)

lemma sound_commit:
  assumes "\<And>db. keeps db \<Longrightarrow> good_result keeps db (t db)"
  shows "sound_write keeps (commit t)"
  unfolding sound_write_def
proof (intro allI impI)
  fix db assume i: "keeps db"
  show "keeps (fst (commit t db)) \<and> versioned_write db (fst (commit t db))"
    using i assms [OF i] by (auto simp: commit_def good_result_def split: sum.split)
qed

lemma sound_after_checks:
  "(\<And>x. r = Inr x \<Longrightarrow> sound_write keeps (f x)) \<Longrightarrow> sound_write keeps (after_checks r f)"
  by (cases r) (simp_all add: sound_write_def after_checks_def)

lemma create_each_reports:
  "create_each create is s db = Inr (s', db') \<Longrightarrow> crr_active_changed s \<Longrightarrow> crr_active_changed s'"
proof (induction "is" arbitrary: s db)
  case (Cons i "is")
  then show ?case by (fastforce simp: txn_bind_def res_simps push_row_def split: prod.splits)
qed (auto simp: txn_return_def)

lemma create_each_pending:
  assumes "\<And>i db row ins act db'. i \<in> set is \<Longrightarrow> keeps db \<Longrightarrow> create i db = Inr ((row, ins, act), db') \<Longrightarrow> pending keeps db db' act"
    and "keeps db" and "create_each create is s db = Inr (s', db')"
  shows "pending keeps db db' (crr_active_changed s')"
  using assms
proof (induction "is" arbitrary: s db)
  case Nil
  then show ?case by (auto simp: txn_return_def pending_refl)
next
  case (Cons i "is")
  obtain row ins act db1 where c: "create i db = Inr ((row, ins, act), db1)"
    and r: "create_each create is (push_row s row ins act) db1 = Inr (s', db')"
    using Cons.prems(3) by (auto simp: txn_bind_def res_simps)
  have p: "pending keeps db db1 act" using Cons.prems(1) [OF _ Cons.prems(2) c] by simp
  have q: "pending keeps db1 db' (crr_active_changed s')"
    by (rule Cons.IH [OF _ pending_inv [OF p] r]) (rule Cons.prems(1), simp_all)
  have "act \<longrightarrow> crr_active_changed s'" using create_each_reports [OF r] by (simp add: push_row_def)
  then show ?case using pending_trans [OF p q] by (auto simp: pending_def)
qed

locale store_laws =
  fixes keeps :: "firewall_db \<Rightarrow> bool"
  assumes inv_bump: "keeps db \<Longrightarrow> keeps (fst (bump now db))"
begin

lemma versioned_good:
  assumes "pending keeps db0 db act"
  shows "good_result keeps db0 (versioned x now act db)"
  using assms inv_bump [of db now] bump_version(1) [of now db]
  by (auto simp: good_result_def versioned_def txn_bind_def txn_return_def bump_policy_version_if_active_def
      pending_def versioned_write_def Let_def split: prod.splits)

lemma sound_create:
  assumes "\<And>db row ins act db'. keeps db \<Longrightarrow> create db = Inr ((row, ins, act), db') \<Longrightarrow> pending keeps db db' act"
  shows "sound_write keeps (commit (txn_bind create (\<lambda>(row, ins, act). versioned (row, ins) now act)))"
  by (intro sound_commit good_result_txn_bind) (auto split: prod.split intro!: versioned_good assms)

lemma sound_create_batch:
  assumes "\<And>i db row ins act db'. i \<in> set is \<Longrightarrow> keeps db \<Longrightarrow> create i db = Inr ((row, ins, act), db') \<Longrightarrow> pending keeps db db' act"
  shows "sound_write keeps (commit (txn_bind (create_each create is new_create_rows)
    (\<lambda>s. versioned s now (crr_active_changed s))))"
  by (intro sound_commit good_result_txn_bind versioned_good) (rule create_each_pending [OF assms])

end

section \<open>Tables\<close>

definition unique_rows :: "'r api_table \<Rightarrow> 'r list \<Rightarrow> bool" where
  "unique_rows t rs \<longleftrightarrow> distinct (map (at_id t) rs) \<and> sorted_wrt (\<lambda>a b. \<not> at_clash t a b) rs"

definition active_row :: "'r api_table \<Rightarrow> 'r \<Rightarrow> bool" where
  "active_row t r \<longleftrightarrow> in_policy t r \<and> at_enabled t r"

lemma unique_rows_filter: "unique_rows t rs \<Longrightarrow> unique_rows t (filter P rs)"
  by (simp add: unique_rows_def distinct_map_filter sorted_wrt_filter)

lemma unique_rows_append:
  "unique_rows t rs \<Longrightarrow> \<not> list_ex (\<lambda>r. at_id t r = at_id t row) rs \<Longrightarrow> \<not> list_ex (\<lambda>r. at_clash t r row) rs
    \<Longrightarrow> unique_rows t (rs @ [row])"
  by (auto simp: unique_rows_def sorted_wrt_append list_ex_iff)

lemma sorted_wrt_pair: "sorted_wrt R rs \<Longrightarrow> a \<in> set rs \<Longrightarrow> b \<in> set rs \<Longrightarrow> a = b \<or> R a b \<or> R b a"
  by (induction rs) auto

lemma no_clash:
  "unique_rows t rs \<Longrightarrow> a \<in> set rs \<Longrightarrow> b \<in> set rs \<Longrightarrow> at_clash t a b \<Longrightarrow> at_clash t b a \<Longrightarrow> a = b"
  using sorted_wrt_pair by (force simp: unique_rows_def)

lemma same_id: "unique_rows t rs \<Longrightarrow> a \<in> set rs \<Longrightarrow> b \<in> set rs \<Longrightarrow> at_id t a = at_id t b \<Longrightarrow> a = b"
  by (auto simp: unique_rows_def distinct_map inj_on_def)

lemma filter_drop_inactive:
  "(\<And>r. r \<in> set rs \<Longrightarrow> P r \<Longrightarrow> \<not> A r) \<Longrightarrow> filter A (filter (\<lambda>r. \<not> P r) rs) = filter A rs"
  by (induction rs) auto

lemma filter_map_inactive:
  "(\<And>r. r \<in> set rs \<Longrightarrow> C r \<Longrightarrow> \<not> A r \<and> \<not> A (f r)) \<Longrightarrow>
    filter A (map (\<lambda>r. if C r then f r else r) rs) = filter A rs"
  by (induction rs) auto

locale table_laws = store_laws keeps for keeps +
  fixes tb :: "'r api_table" and good :: "'r \<Rightarrow> bool"
  assumes rows_put: "at_rows tb (at_put tb rs db) = rs"
    and put_version: "latest_version (at_put tb rs db) = latest_version db"
    and put_view: "filter (active_row tb) rs = filter (active_row tb) (at_rows tb db) \<Longrightarrow>
          same_policy_tables db (at_put tb rs db)"
    and inv_rows: "keeps db \<Longrightarrow> unique_rows tb (at_rows tb db) \<and> list_all good (at_rows tb db)"
    and put_inv: "keeps db \<Longrightarrow> unique_rows tb rs \<Longrightarrow> list_all good rs \<Longrightarrow> keeps (at_put tb rs db)"
    and clash_sym: "at_clash tb a b = at_clash tb b a"
begin

lemma delete_pending:
  assumes "keeps db" and "\<not> act \<Longrightarrow> \<not> list_ex (active_row tb) (select_rows tb P db)"
  shows "pending keeps db (at_put tb (filter (\<lambda>r. \<not> P r) (at_rows tb db)) db) act"
proof -
  have i: "keeps (at_put tb (filter (\<lambda>r. \<not> P r) (at_rows tb db)) db)"
    using inv_rows [OF assms(1)] by (intro put_inv [OF assms(1)] unique_rows_filter) (auto simp: list_all_iff)
  show ?thesis
    using assms(2) i by (auto simp: pending_def put_version select_rows_def list_ex_iff
        intro!: put_view filter_drop_inactive)
qed

lemma insert_pending:
  assumes "keeps db" "good row" "insert_row tb row db = Inr (x, db')"
  shows "x = row" "pending keeps db db' (at_enabled tb row)"
proof -
  have x: "x = row" "db' = at_put tb (at_rows tb db @ [row]) db"
    and f: "\<not> list_ex (\<lambda>r. at_id tb r = at_id tb row) (at_rows tb db)" "\<not> list_ex (at_clash tb row) (at_rows tb db)"
    using assms(3) by (auto simp: insert_row_def split: if_splits)
  have "\<not> list_ex (\<lambda>r. at_clash tb r row) (at_rows tb db)" using f(2) by (simp add: list_ex_iff clash_sym)
  then have "keeps db'" unfolding x(2)
    using inv_rows [OF assms(1)] f(1) assms(2) by (intro put_inv [OF assms(1)] unique_rows_append) auto
  moreover have "\<not> at_enabled tb row \<Longrightarrow> same_policy_tables db db'" unfolding x(2)
    by (rule put_view) (simp add: active_row_def)
  ultimately show "x = row" "pending keeps db db' (at_enabled tb row)" by (simp_all add: x pending_def put_version)
qed

lemma insert_reported:
  assumes "keeps db" "good row" "a row = at_enabled tb row"
    and "txn_bind (insert_row tb row) (\<lambda>row. txn_return (row, ins, a row)) db = Inr ((x, i, act), db')"
  shows "pending keeps db db' act"
proof -
  obtain y where y: "insert_row tb row db = Inr (y, db')" "act = a y"
    using assms(4) by (auto simp: txn_bind_def txn_return_def res_simps)
  show ?thesis using insert_pending [OF assms(1,2) y(1)] y(2) assms(3) by simp
qed

lemma found_pending:
  assumes "keeps db" "\<And>db. good (model db)"
    and "create_unless_found tb ambiguous P model db = Inr ((x, i, act), db')"
  shows "pending keeps db db' act"
  using assms(1,3) insert_reported [OF assms(1), of "model db" "at_enabled tb"] assms(2)
  by (auto simp: create_unless_found_def pending_refl split: list.splits)

lemma update_pending:
  assumes i: "keeps db" and u: "update_row tb k f db = Inr (x, db')"
    and f: "\<And>r. at_id tb (f r) = at_id tb r" "\<And>a b. at_clash tb (f a) b = at_clash tb a b"
      "\<And>r. good r \<Longrightarrow> good (f r)"
    and a: "\<And>r. \<not> act \<Longrightarrow> r \<in> set (at_rows tb db) \<Longrightarrow> at_id tb r = k \<Longrightarrow> \<not> active_row tb r \<and> \<not> active_row tb (f r)"
  shows "pending keeps db db' act"
proof -
  let ?g = "\<lambda>r. if at_id tb r = k then f r else r"
  have d: "db' = at_put tb (map ?g (at_rows tb db)) db"
    using u by (auto simp: update_row_def split: option.splits)
  have c: "at_clash tb (?g a) (?g b) = at_clash tb a b" for a b using f(2) clash_sym by auto
  have m: "map (at_id tb) (map ?g (at_rows tb db)) = map (at_id tb) (at_rows tb db)" by (simp add: f(1))
  have "unique_rows tb (map ?g (at_rows tb db))"
    using inv_rows [OF i] unfolding unique_rows_def sorted_wrt_map m c by simp
  then have "keeps db'" unfolding d
    using inv_rows [OF i] f(3) by (intro put_inv [OF i]) (auto simp: list_all_iff)
  moreover have "\<not> act \<Longrightarrow> same_policy_tables db db'" unfolding d
    by (rule put_view, rule filter_map_inactive, rule a)
  ultimately show ?thesis by (simp add: pending_def d put_version)
qed

lemma selected_row:
  assumes "select_rows tb P db = row # others"
  shows "row \<in> set (at_rows tb db)" "P row"
  using Cons_eq_filterD [OF assms [symmetric, unfolded select_rows_def]] by auto

lemma delete_by_id_sound: "sound_write keeps (commit (delete_by_id tb now k))"
proof (rule sound_commit)
  fix db assume i: "keeps db"
  let ?P = "\<lambda>r. in_policy tb r \<and> at_id tb r = k"
  have "pending keeps db (at_put tb (filter (\<lambda>r. \<not> ?P r) (at_rows tb db)) db) (at_enabled tb row)"
    if s: "select_rows tb ?P db = row # others" for row others
  proof (rule delete_pending [OF i])
    have "r = row" if "r \<in> set (at_rows tb db)" "?P r" for r
      using same_id [of tb] inv_rows [OF i] selected_row [OF s] that by blast
    then show "\<not> at_enabled tb row \<Longrightarrow> \<not> list_ex (active_row tb) (select_rows tb ?P db)"
      by (auto simp: list_ex_iff select_rows_def active_row_def)
  qed
  then show "good_result keeps db (delete_by_id tb now k db)"
    by (auto simp: delete_by_id_def delete_rows_def txn_bind_def split: list.split intro!: versioned_good)
qed

lemma delete_where_good:
  assumes "keeps db" and "\<not> act \<Longrightarrow> \<not> list_ex (active_row tb) (select_rows tb P db)"
  shows "good_result keeps db (txn_bind (delete_rows tb P) (\<lambda>n. txn_bind (txn_of (check n)) (\<lambda>_. versioned (g n) now act)) db)"
  by (intro good_result_txn_bind) (auto simp: delete_rows_def txn_of_def res_simps intro!: versioned_good delete_pending assms)

lemma no_active: "\<not> list_ex (at_enabled tb) rows \<Longrightarrow> \<not> list_ex (active_row tb) rows"
  by (auto simp: list_ex_iff active_row_def)

lemma delete_ids_sound: "sound_write keeps (commit (delete_ids tb now ids))"
  by (rule sound_commit) (auto simp: delete_ids_def Let_def intro!: delete_where_good dest: no_active)

lemma delete_matching_sound: "sound_write keeps (commit (delete_matching tb now P))"
  by (rule sound_commit) (auto simp: delete_matching_def Let_def delete_rows_def txn_bind_def
      intro!: versioned_good delete_pending dest: no_active)

lemma delete_single_sound: "sound_write keeps (commit (delete_single tb now ambiguous P))"
  by (rule sound_commit) (auto simp: delete_single_def delete_rows_def txn_bind_def active_row_def
      split: list.split intro!: versioned_good delete_pending)

end

end
