(* ===== verification/Api_Store.thy ===== *)
theory Api_Store
  imports Api_Laws Refresh_Gate
begin

text \<open>
  The store invariant (ids and unique columns, and a check on every row), the table laws interpreted
  on the six tables of the API, and every write of the API as one step of a request on the store.
\<close>

section \<open>The invariant\<close>

record row_checks =
  rc_rule :: "firewall_rule_row \<Rightarrow> bool"
  rc_country :: "geo_country_policy_row \<Rightarrow> bool"
  rc_limit :: "dynamic_rate_limit_row \<Rightarrow> bool"
  rc_ban :: "temp_ban_row \<Rightarrow> bool"
  rc_trusted :: "trusted_cidr_row \<Rightarrow> bool"
  rc_source :: "threat_source_row \<Rightarrow> bool"
  rc_defense :: "dynamic_defense_row \<Rightarrow> bool"
  rc_prefixes :: "threat_prefix_row \<Rightarrow> bool"

definition store_inv :: "row_checks \<Rightarrow> firewall_db \<Rightarrow> bool" where
  "store_inv C db \<longleftrightarrow>
     (unique_rows rule_table (db_firewall_rules db) \<and> list_all (rc_rule C) (db_firewall_rules db)) \<and>
     (unique_rows country_table (db_geo_countries db) \<and> list_all (rc_country C) (db_geo_countries db)) \<and>
     (unique_rows limit_table (db_rate_limits db) \<and> list_all (rc_limit C) (db_rate_limits db)) \<and>
     (unique_rows ban_table (db_temp_bans db) \<and> list_all (rc_ban C) (db_temp_bans db)) \<and>
     (unique_rows trusted_table (db_trusted_cidrs db) \<and> list_all (rc_trusted C) (db_trusted_cidrs db)) \<and>
     (unique_rows source_table (db_threat_sources db) \<and> list_all (rc_source C) (db_threat_sources db)) \<and>
     list_all (rc_defense C) (db_dynamic_defense db) \<and> list_all (rc_prefixes C) (db_threat_prefixes db)"

lemma store_inv_bump: "store_inv C db \<Longrightarrow> store_inv C (fst (bump now db))"
  by (simp add: store_inv_def)

lemmas view_defs = same_policy_tables_def active_rules_def active_countries_def active_limits_def active_trusted_def
  active_sources_def policy_bans_def policy_defense_def source_prefix_rows_def

lemmas table_defs = rule_table_def country_table_def limit_table_def ban_table_def trusted_table_def source_table_def

lemma same_geo_lists: "db_geo_prefixes a = db_geo_prefixes b \<Longrightarrow> same_country_list a b c"
  by (simp add: same_country_list_def load_geo_ip_prefix_row_def split: sum.split)

lemmas view_simps = view_defs active_row_def [abs_def] in_policy_def same_geo_lists
  latest_version_def find_policy_version_def list.pred_True

interpretation store: store_laws "store_inv C" for C
  by unfold_locales (rule store_inv_bump)

interpretation rules: table_laws "store_inv C" rule_table "rc_rule C" for C
  by unfold_locales (auto simp: store_inv_def view_simps rule_table_def)

interpretation countries: table_laws "store_inv C" country_table "rc_country C" for C
  by unfold_locales (auto simp: store_inv_def view_simps country_table_def)

interpretation limits: table_laws "store_inv C" limit_table "rc_limit C" for C
  by unfold_locales (auto simp: store_inv_def view_simps limit_table_def)

interpretation bans: table_laws "store_inv C" ban_table "rc_ban C" for C
  by unfold_locales (auto simp: store_inv_def view_simps ban_table_def)

interpretation trusted: table_laws "store_inv C" trusted_table "rc_trusted C" for C
  by unfold_locales (auto simp: store_inv_def view_simps trusted_table_def)

interpretation sources: table_laws "store_inv C" source_table "rc_source C" for C
  by unfold_locales (auto simp: store_inv_def view_simps source_table_def)

section \<open>What the handlers insert\<close>

text \<open>The row checks the rows of the API pass, whatever the request.\<close>

locale api_checks =
  fixes C :: row_checks and E :: api_env
  assumes rule_row: "rule_input_of E r = Inr i \<Longrightarrow> rc_rule C (rule_active_model E db i)"
    and country_row: "geo_country_input_of g = Inr gi \<Longrightarrow> rc_country C (geo_country_active_model E gi db)"
    and limit_row: "rate_limit_input_of l = Inr li \<Longrightarrow> rc_limit C (limit_active_model E li db)"
    and ban_row: "ban_active_model E b = Inr m \<Longrightarrow> rc_ban C (m k)"
    and trusted_row: "normalize_cidr (ae_net E) (ae_text E) v = Inr cidr \<Longrightarrow> rc_trusted C (trusted_active_model E db en cidr c)"
    and trusted_change: "rc_trusted C t \<Longrightarrow> rc_trusted C (t\<lparr>tcr_enabled := en, tcr_comment := c, tcr_updated_at := at\<rparr>)"
    and source_row: "threat_source_input_of E s = Inr si \<Longrightarrow> rc_source C (source_active_model E db si)"
    and source_change: "rc_source C src \<Longrightarrow> rc_source C (src\<lparr>tsr_enabled := en, tsr_updated_at := at\<rparr>)"
    and defense_row: "dynamic_defense_policy_from_request u = Inr d \<Longrightarrow> validate_dynamic_defense_policy d = Inr () \<Longrightarrow>
          set_dynamic_defense_fields row d = Inr row' \<Longrightarrow> rc_defense C (row'\<lparr>ddr_updated_at := at\<rparr>)"
begin

abbreviation sound :: "(firewall_db \<Rightarrow> firewall_db \<times> 'a) \<Rightarrow> bool" where
  "sound \<equiv> sound_write (store_inv C)"

subsection \<open>Rules\<close>

lemma create_rule_pending:
  assumes "rule_input_of E r = Inr i" "store_inv C db" "create_rule E i db = Inr ((row, ins, act), db')"
  shows "pending (store_inv C) db db' act"
  using assms(2,3) rules.insert_reported [OF assms(2) rule_row [OF assms(1)], of frr_enabled]
  by (auto simp: create_rule_def rule_table_def pending_refl split: list.splits if_splits)

lemma create_rule_handler_sound: "sound (create_rule_handler E seen r)"
  unfolding create_rule_handler_def
  by (intro sound_after_checks store.sound_create) (auto simp: res_simps intro: create_rule_pending)

lemma create_rules_handler_sound: "sound (create_rules_handler E seen rs)"
  unfolding create_rules_handler_def
  by (intro sound_after_checks store.sound_create_batch)
    (auto simp: res_simps dest!: traverse_set_back intro: create_rule_pending)

lemma delete_rules_txn_sound: "sound (commit (delete_rules_txn now P guard check))"
proof (rule sound_commit)
  fix db assume i: "store_inv C db"
  let ?targets = "select_rows rule_table P db"
  let ?D = "\<lambda>r. guard r \<and> frr_id r \<in> set (map frr_id ?targets)"
  have "set (select_rows rule_table ?D db) \<subseteq> set ?targets"
    using same_id [of rule_table "db_firewall_rules db"] i
    by (auto simp: store_inv_def select_rows_def rule_table_def)
  then have "\<not> list_ex frr_enabled ?targets \<Longrightarrow> \<not> list_ex (active_row rule_table) (select_rows rule_table ?D db)"
    by (auto simp: list_ex_iff active_row_def rule_table_def)
  then show "good_result (store_inv C) db (delete_rules_txn now P guard check db)"
    unfolding delete_rules_txn_def Let_def by (auto intro!: rules.delete_where_good [OF i])
qed

lemma delete_rule_handlers_sound:
  "sound (delete_rule_by_id E k)" "sound (delete_rules_batch E ids keys)" "sound (delete_rules_by_query E q)"
  unfolding delete_rule_by_id_def delete_rules_batch_def delete_rules_by_query_def
  by (rule rules.delete_by_id_sound, auto intro!: sound_after_checks delete_rules_txn_sound split: prod.split)

subsection \<open>Countries and limits\<close>

lemma create_limit_pending:
  "rate_limit_input_of r = Inr i \<Longrightarrow> store_inv C db \<Longrightarrow> create_dynamic_rate_limit E i db = Inr ((row, ins, act), db') \<Longrightarrow>
    pending (store_inv C) db db' act"
  unfolding create_dynamic_rate_limit_def by (rule limits.found_pending) (auto intro: limit_row)

lemma create_country_pending:
  "geo_country_input_of r = Inr i \<Longrightarrow> store_inv C db \<Longrightarrow> create_geo_country E i db = Inr ((row, ins, act), db') \<Longrightarrow>
    pending (store_inv C) db db' act"
  unfolding create_geo_country_def by (rule countries.found_pending) (auto intro: country_row)

lemma create_handlers_sound:
  "sound (create_limit_handler E l)" "sound (create_limits_handler E ls)"
  "sound (create_country_handler E g)" "sound (create_countries_handler E gs)"
  unfolding create_limit_handler_def create_limits_handler_def create_country_handler_def create_countries_handler_def
  by (intro sound_after_checks store.sound_create store.sound_create_batch,
      auto simp: res_simps dest!: traverse_set_back intro: create_limit_pending create_country_pending)+

lemma delete_handlers_sound:
  "sound (delete_limit_by_id E k)" "sound (delete_limits_batch E ids)" "sound (delete_limit_by_query E lq)"
  "sound (delete_country_by_id E k)" "sound (delete_countries_batch E ids)" "sound (delete_country_by_query E co ac en)"
  "sound (delete_trusted_by_id E k)" "sound (delete_trusted_batch E ids)" "sound (delete_trusted_by_query E cidr)"
  unfolding delete_limit_by_id_def delete_limits_batch_def delete_limit_by_query_def
    delete_country_by_id_def delete_countries_batch_def delete_country_by_query_def
    delete_trusted_by_id_def delete_trusted_batch_def delete_trusted_by_query_def
  by (intro sound_after_checks limits.delete_by_id_sound limits.delete_ids_sound limits.delete_single_sound
      countries.delete_by_id_sound countries.delete_ids_sound countries.delete_single_sound
      trusted.delete_by_id_sound trusted.delete_ids_sound trusted.delete_matching_sound)+

subsection \<open>Trusted CIDRs and bans\<close>

lemma trusted_upsert_pending:
  assumes i: "store_inv C db"
    and n: "\<And>c. normalized = Some c \<Longrightarrow> normalize_cidr (ae_net E) (ae_text E) (ct_cidr r) = Inr c"
    and u: "trusted_upsert E r normalized db = Inr ((row, ins, act), db')"
  shows "pending (store_inv C) db db' act"
proof -
  let ?en = "unwrap_or True (ct_enabled r)" and ?c = "ct_comment r"
  let ?f = "\<lambda>t. t\<lparr>tcr_enabled := ?en, tcr_comment := ?c, tcr_updated_at := ae_now E\<rparr>"
  obtain cidr where c: "normalize_cidr (ae_net E) (ae_text E) (ct_cidr r) = Inr cidr"
    and t: "(case select_rows trusted_table (trusted_selector cidr) db of
        [] \<Rightarrow> txn_bind (insert_row trusted_table (trusted_active_model E db ?en cidr ?c))
               (\<lambda>row. txn_return (row, True, ?en)) db
      | existing # _ \<Rightarrow>
          if trusted_cidr_fields_match existing ?en ?c then Inr ((existing, False, False), db)
          else txn_bind (update_row trusted_table (tcr_id existing) ?f)
               (\<lambda>row. txn_return (row, False, trusted_cidr_active_changed existing ?en ?c)) db) = Inr ((row, ins, act), db')"
    using u n by (auto simp: trusted_upsert_def Let_def res_simps split: option.splits)
  show ?thesis
  proof (cases "select_rows trusted_table (trusted_selector cidr) db")
    case Nil
    have "?en = at_enabled trusted_table (trusted_active_model E db ?en cidr ?c)"
      by (simp add: trusted_table_def trusted_active_model_def)
    from trusted.insert_reported [where a = "\<lambda>_. ?en", OF i trusted_row [OF c] this] show ?thesis
      using t Nil by simp
  next
    case (Cons existing others)
    note ex = trusted.selected_row(1) [OF Cons]
    show ?thesis
    proof (cases "trusted_cidr_fields_match existing ?en ?c")
      case True
      then show ?thesis using t Cons i by (simp add: pending_refl)
    next
      case False
      then obtain x where x: "update_row trusted_table (tcr_id existing) ?f db = Inr (x, db')"
        and a: "act = trusted_cidr_active_changed existing ?en ?c"
        using t Cons by (auto simp: txn_bind_def txn_return_def res_simps)
      have only: "t = existing" if "t \<in> set (at_rows trusted_table db)" "tcr_id t = tcr_id existing" for t
        using same_id [of trusted_table] trusted.inv_rows [OF i] that ex by (auto simp: trusted_table_def)
      show ?thesis
      proof (rule trusted.update_pending [OF i x])
        show "rc_trusted C t \<Longrightarrow> rc_trusted C (?f t)" for t by (rule trusted_change)
        show "\<not> act \<Longrightarrow> t \<in> set (at_rows trusted_table db) \<Longrightarrow> at_id trusted_table t = tcr_id existing \<Longrightarrow>
            \<not> active_row trusted_table t \<and> \<not> active_row trusted_table (?f t)" for t
          using only [of t] a False
          by (auto simp: trusted_table_def active_row_def trusted_cidr_active_changed_def trusted_cidr_fields_match_def
              split: if_splits)
      qed (simp_all add: trusted_table_def)
    qed
  qed
qed

lemma create_trusted_sound: "sound (create_trusted_handler E t)" "sound (create_trusted_batch_handler E ts)"
  unfolding create_trusted_handler_def create_trusted_batch_handler_def
  by (intro sound_after_checks store.sound_create store.sound_create_batch, auto intro: trusted_upsert_pending)+

lemma insert_ban_pending:
  assumes "ban_active_model E b = Inr m" "store_inv C db" "insert_ban E m db = Inr (row, db')"
  shows "pending (store_inv C) db db' True"
  using bans.insert_pending(2) [OF assms(2) ban_row [OF assms(1)] assms(3) [unfolded insert_ban_def]]
  by (simp add: pending_def)

lemma insert_bans_pending:
  "(\<And>m. m \<in> set ms \<Longrightarrow> \<exists>b. ban_active_model E b = Inr m) \<Longrightarrow> store_inv C db \<Longrightarrow> insert_bans E ms db = Inr (rows, db') \<Longrightarrow>
    pending (store_inv C) db db' True"
proof (induction ms arbitrary: db rows)
  case Nil
  then show ?case by (auto simp: txn_return_def pending_refl)
next
  case (Cons m ms)
  obtain row db1 rest where 1: "insert_ban E m db = Inr (row, db1)" and 2: "insert_bans E ms db1 = Inr (rest, db')"
    using Cons.prems(3) by (auto simp: txn_bind_def txn_return_def res_simps)
  obtain b where b: "ban_active_model E b = Inr m" using Cons.prems(1) by force
  have p: "pending (store_inv C) db db1 True" by (rule insert_ban_pending [OF b Cons.prems(2) 1])
  show ?case
    using pending_trans [OF p Cons.IH [OF _ pending_inv [OF p] 2]] Cons.prems(1) by (simp add: pending_def)
qed

lemma create_bans_sound: "sound (create_ban_handler E seen b)" "sound (create_bans_handler E seen bs)"
proof -
  show "sound (create_ban_handler E seen b)"
    unfolding create_ban_handler_def
    by (intro sound_after_checks sound_commit good_result_txn_bind store.versioned_good)
      (auto simp: res_simps intro: insert_ban_pending)
  have b: "\<exists>b. ban_active_model E b = Inr m" if "traverse (ban_active_model E) bs = Inr ms" "m \<in> set ms" for ms m
    using traverse_set_back [OF that] by blast
  show "sound (create_bans_handler E seen bs)"
    unfolding create_bans_handler_def
    by (intro sound_after_checks sound_commit good_result_txn_bind store.versioned_good)
      (clarsimp simp: res_simps, rule insert_bans_pending [OF b], assumption+)
qed

lemma delete_bans_sound: "sound (delete_ban_by_id E k)" "sound (delete_bans_batch E ids)"
proof -
  show "sound (delete_ban_by_id E k)"
    unfolding delete_ban_by_id_def delete_rows_def txn_bind_def
    by (rule sound_commit) (simp, intro impI store.versioned_good bans.delete_pending [where P = "\<lambda>r. in_policy ban_table r \<and> tbr_id r = k", simplified], simp_all)
  show "sound (delete_bans_batch E ids)"
    unfolding delete_bans_batch_def
    by (intro sound_after_checks sound_commit) (rule bans.delete_where_good, simp_all)
qed

subsection \<open>Threat sources, defense and the bare bump\<close>

lemma create_source_pending:
  assumes "threat_source_input_of E r = Inr i" "store_inv C db" "create_threat_source E i db = Inr ((row, ins, act), db')"
  shows "pending (store_inv C) db db' act"
  using assms(2,3) sources.insert_reported [OF assms(2) source_row [OF assms(1)], of tsr_enabled]
  by (auto simp: create_threat_source_def source_table_def pending_refl split: list.splits if_splits)

lemma create_sources_txn_sound:
  "(\<And>i. i \<in> set is \<Longrightarrow> \<exists>r. threat_source_input_of E r = Inr i) \<Longrightarrow> sound (commit (create_sources_txn E is))"
  unfolding create_sources_txn_def by (rule store.sound_create_batch) (blast intro: create_source_pending)

lemma create_source_sound_view:
  "threat_source_input_of E r = Inr i \<Longrightarrow> sound (\<lambda>db. let (db', result) = commit (create_sources_txn E [i]) db in (db', f result))"
  using create_sources_txn_sound [of "[i]"] by (force simp: sound_write_def split: prod.splits)

lemma create_sources_sound: "sound (create_source_handler E r)" "sound (create_sources_handler E rs)"
proof -
  show "sound (create_source_handler E r)"
    unfolding create_source_handler_def by (rule sound_after_checks, rule create_source_sound_view)
  have "\<exists>r. threat_source_input_of E r = Inr i" if "traverse (threat_source_input_of E) rs = Inr is" "i \<in> set is" for "is" i
    using traverse_set_back [OF that] by blast
  then show "sound (create_sources_handler E rs)"
    unfolding create_sources_handler_def
    by (intro sound_after_checks create_sources_txn_sound) (auto simp: res_simps)
qed

lemma drop_states_pending:
  assumes i: "store_inv C db" and n: "\<not> act \<Longrightarrow> set names \<inter> tsr_name ` set (active_sources db) = {}"
    and d: "delete_threat_source_states_by_name names db = Inr ((), db')"
  shows "pending (store_inv C) db db' act"
proof (cases "names = []")
  case True
  then show ?thesis using d i by (simp add: delete_threat_source_states_by_name_def pending_refl)
next
  case False
  let ?P = "\<lambda>r. \<not> (tpr_policy_name r = default_policy_name \<and> tpr_source_name r \<in> set names)"
  obtain ss where db': "db' = db\<lparr>db_threat_states := ss, db_threat_prefixes := filter ?P (db_threat_prefixes db)\<rparr>"
    using d False by (auto simp: delete_threat_source_states_by_name_def delete_persisted_threat_prefixes_by_name_def)
  have "store_inv C db'" using i unfolding db' store_inv_def by (auto simp: list_all_iff)
  moreover have "\<not> act \<Longrightarrow> same_policy_tables db db'"
    using n unfolding db' by (auto simp: view_simps intro!: filter_cong)
  ultimately show ?thesis by (simp add: pending_def db' latest_version_def find_policy_version_def)
qed

text \<open>Sources go by name: once a source has gone, no other source has its name.\<close>

lemma delete_sources_good:
  assumes i: "store_inv C db" and P: "\<And>r. P r \<Longrightarrow> in_policy source_table r"
    and names: "set names \<subseteq> tsr_name ` set (select_rows source_table P db)"
    and act: "\<not> act \<Longrightarrow> \<not> list_ex tsr_enabled (select_rows source_table P db)"
  shows "good_result (store_inv C) db
    (txn_bind (delete_rows source_table P) (\<lambda>n. txn_bind (txn_of (check n)) (\<lambda>_.
       txn_bind (delete_threat_source_states_by_name names) (\<lambda>_. versioned (g n) now act))) db)"
proof -
  let ?db1 = "db\<lparr>db_threat_sources := filter (\<lambda>r. \<not> P r) (db_threat_sources db)\<rparr>"
  have p: "pending (store_inv C) db ?db1 act"
    using sources.delete_pending [OF i, of act P] act by (auto simp: source_table_def active_row_def list_ex_iff)
  have u: "a = b" if "a \<in> set (db_threat_sources db)" "b \<in> set (db_threat_sources db)"
      "tsr_policy_name a = tsr_policy_name b" "tsr_name a = tsr_name b" for a b
    using no_clash [of source_table "db_threat_sources db" a b] i that by (simp add: store_inv_def source_table_def)
  have "set names \<inter> tsr_name ` set (active_sources ?db1) = {}"
  proof (rule ccontr)
    assume "\<not> ?thesis"
    then obtain s where s: "s \<in> set (active_sources ?db1)" "tsr_name s \<in> set names" by auto
    then obtain r where r: "r \<in> set (select_rows source_table P db)" "tsr_name r = tsr_name s" using names by force
    then have r': "r \<in> set (db_threat_sources db)" "P r" "tsr_policy_name r = default_policy_name"
      using P [of r] by (auto simp: select_rows_def source_table_def in_policy_def)
    have s': "s \<in> set (db_threat_sources db)" "\<not> P s" "tsr_policy_name s = default_policy_name"
      using s(1) by (auto simp: active_sources_def)
    show False using u [OF r'(1) s'(1)] r(2) r' s' by simp
  qed
  then have "pending (store_inv C) ?db1 db2 act" if "delete_threat_source_states_by_name names ?db1 = Inr ((), db2)" for db2
    by (intro drop_states_pending [OF pending_inv [OF p] _ that])
  then have q: "pending (store_inv C) db db2 act" if "delete_threat_source_states_by_name names ?db1 = Inr ((), db2)" for db2
    using pending_trans [OF p] that by fastforce
  show ?thesis
    by (intro good_result_txn_bind store.versioned_good)
      (auto simp: delete_rows_def txn_of_def res_simps source_table_def intro: q)
qed

lemma selected_only:
  assumes "store_inv C db" "select_rows source_table P db = row # others"
    and "\<And>a b. P a \<Longrightarrow> P b \<Longrightarrow> at_id source_table a = at_id source_table b \<or>
           at_clash source_table a b \<and> at_clash source_table b a"
    and "r \<in> set (select_rows source_table P db)"
  shows "r = row"
proof -
  note row = sources.selected_row [OF assms(2)]
  have r: "r \<in> set (at_rows source_table db)" "P r" using assms(4) by (auto simp: select_rows_def)
  have u: "unique_rows source_table (at_rows source_table db)" using sources.inv_rows [OF assms(1)] by simp
  show ?thesis using assms(3) [OF r(2) row(2)] same_id [OF u r(1) row(1)] no_clash [OF u r(1) row(1)] by blast
qed

lemma delete_source_where_sound:
  assumes P: "\<And>r. P r \<Longrightarrow> in_policy source_table r"
    and one: "\<And>a b. P a \<Longrightarrow> P b \<Longrightarrow> at_id source_table a = at_id source_table b \<or>
           at_clash source_table a b \<and> at_clash source_table b a"
  shows "sound (commit (delete_source_where now P))"
proof (rule sound_commit)
  fix db assume i: "store_inv C db"
  show "good_result (store_inv C) db (delete_source_where now P db)"
  proof (cases "select_rows source_table P db")
    case Nil
    then show ?thesis by (simp add: delete_source_where_def)
  next
    case (Cons row others)
    have only: "r = row" if "r \<in> set (select_rows source_table P db)" for r
      by (rule selected_only [OF i Cons one that])
    have "good_result (store_inv C) db
      (txn_bind (delete_rows source_table P) (\<lambda>n. txn_bind (txn_of (if n = 0 then Inl (NotFound ''threat source not found'') else Inr ())) (\<lambda>_.
         txn_bind (delete_threat_source_states_by_name [tsr_name row]) (\<lambda>_. versioned n now (tsr_enabled row)))) db)"
      using only Cons by (intro delete_sources_good [OF i P]) (auto simp: list_ex_iff)
    moreover have "txn_bind (txn_of (if n = 0 then Inl e else Inr ())) f = (if n = 0 then (\<lambda>_. Inl e) else f ())"
      for n :: nat and e and f :: "unit \<Rightarrow> (nat \<times> i64 option) txn"
      by (auto simp: txn_bind_def txn_of_def)
    ultimately show ?thesis by (simp add: delete_source_where_def Cons)
  qed
qed

lemma delete_sources_sound:
  "sound (delete_source_by_query E name)" "sound (delete_source_by_id E k)" "sound (delete_sources_batch E ids)"
proof -
  show "sound (delete_source_by_query E name)"
    unfolding delete_source_by_query_def
    by (intro sound_after_checks delete_source_where_sound) (auto simp: source_named_def in_policy_def source_table_def)
  show "sound (delete_source_by_id E k)"
    unfolding delete_source_by_id_def
    by (intro delete_source_where_sound) (auto simp: source_table_def)
  show "sound (delete_sources_batch E ids)"
    unfolding delete_sources_batch_def
  proof (intro sound_after_checks sound_commit)
    fix ids db assume i: "store_inv C db"
    show "good_result (store_inv C) db (delete_source_ids (ae_now E) ids db)"
      unfolding delete_source_ids_def Let_def by (auto intro!: delete_sources_good [OF i])
  qed
qed

lemma update_source_sound: "sound (update_source_handler E seen k en)"
proof -
  let ?f = "\<lambda>r. r\<lparr>tsr_enabled := en, tsr_updated_at := ae_now E\<rparr>"
  let ?t = "\<lambda>row :: threat_source_row. txn_bind (update_row source_table (tsr_id row) ?f) (\<lambda>updated.
      txn_bind (if en then txn_return () else delete_threat_source_states_by_name [tsr_name row]) (\<lambda>_.
      versioned updated (ae_now E) True))"
  have p: "pending (store_inv C) db db1 True"
    if "store_inv C db" "update_row source_table (tsr_id row) ?f db = Inr (x, db1)" for db row x db1
    using that by (rule sources.update_pending) (auto simp: source_table_def intro: source_change)
  have q: "pending (store_inv C) db1 db2 True"
    if "store_inv C db1" "(if en then txn_return () else delete_threat_source_states_by_name [tsr_name row]) db1 = Inr (u, db2)"
    for db1 row u db2
    using that by (auto simp: txn_return_def pending_refl intro: drop_states_pending split: if_splits)
  have r: "pending (store_inv C) db db2 True"
    if "store_inv C db" "update_row source_table (tsr_id row) ?f db = Inr (x, db1)"
      "(if en then txn_return () else delete_threat_source_states_by_name [tsr_name row]) db1 = Inr (u, db2)"
    for db row x db1 u db2
    using pending_trans [OF p [OF that(1,2)] q [OF pending_inv [OF p [OF that(1,2)]] that(3)]] by simp
  have t: "sound (commit (?t row))" for row
    by (intro sound_commit good_result_txn_bind store.versioned_good) (rule r)
  show ?thesis
    unfolding sound_write_def
  proof (intro allI impI)
    fix db assume i: "store_inv C db"
    let ?sel = "select_rows source_table (\<lambda>r. in_policy source_table r \<and> tsr_id r = k) seen"
    have "update_source_handler E seen k en db = (db, snd (update_source_handler E seen k en db)) \<or>
        (\<exists>row. update_source_handler E seen k en db = commit (?t row) db)"
    proof (cases ?sel)
      case (Cons row others)
      show ?thesis
      proof (cases "tsr_enabled row = en")
        case True
        then have "update_source_handler E seen k en db = (db, Inr (row, None))"
          by (simp add: update_source_handler_def Cons)
        then show ?thesis by simp
      next
        case False
        then have "update_source_handler E seen k en db = commit (?t row) db"
          unfolding update_source_handler_def Cons list.case by (simp only: if_False)
        then show ?thesis by blast
      qed
    qed (simp add: update_source_handler_def)
    then show "store_inv C (fst (update_source_handler E seen k en db)) \<and>
        versioned_write db (fst (update_source_handler E seen k en db))"
      using t [unfolded sound_write_def] i by (metis fst_conv versioned_write_refl)
  qed
qed

lemma save_defense_sound:
  assumes "dynamic_defense_policy_from_request u = Inr d" "validate_dynamic_defense_policy d = Inr ()"
  shows "sound (commit (save_defense now d))"
proof (rule sound_commit)
  fix db assume i: "store_inv C db"
  have upd: "pending (store_inv C) db (db\<lparr>db_dynamic_defense := rows\<rparr>) True" if "list_all (rc_defense C) rows" for rows
    using i that by (simp add: pending_def store_inv_def latest_version_def find_policy_version_def)
  have old: "pending (store_inv C) db (db\<lparr>db_dynamic_defense :=
      map (\<lambda>r. if ddr_policy_name r = default_policy_name then row'\<lparr>ddr_updated_at := now\<rparr> else r) (db_dynamic_defense db)\<rparr>) True"
    if "set_dynamic_defense_fields row d = Inr row'" for row row'
    using i defense_row [OF assms that, of now] by (intro upd) (auto simp: store_inv_def list_all_iff)
  have new: "pending (store_inv C) db (db\<lparr>db_dynamic_defense := db_dynamic_defense db @ [row']\<rparr>) True"
    if "dynamic_defense_active_model n d now = Inr row'" for n row'
  proof (rule upd)
    have "row' = row'\<lparr>ddr_updated_at := now\<rparr>"
      using that by (auto simp: dynamic_defense_active_model_def set_dynamic_defense_fields_def res_simps)
    then have "rc_defense C row'"
      using defense_row [OF assms that [unfolded dynamic_defense_active_model_def], of now] by simp
    then show "list_all (rc_defense C) (db_dynamic_defense db @ [row'])" using i by (simp add: store_inv_def)
  qed
  show "good_result (store_inv C) db (save_defense now d db)"
    unfolding save_defense_def
    by (auto split: option.split intro!: good_result_bind store.versioned_good old new)
      (simp add: good_result_def i)
qed

lemma update_defense_sound: "sound (update_defense_handler E u)"
  unfolding update_defense_handler_def
  by (rule sound_after_checks) (auto simp: res_simps intro: save_defense_sound)

lemma bump_sound: "sound (bump_policy_version E)"
  by (simp add: sound_write_def bump_policy_version_def next_policy_version_def store_inv_bump versioned_write_def bump_version)

lemma cleanup_sound: "sound (cleanup_expired_temp_bans now)"
  unfolding sound_write_def
proof (intro allI impI)
  fix db assume i: "store_inv C db"
  let ?e = "\<lambda>r. tbr_policy_name r = default_policy_name \<and> tbr_expires_at r \<le> now"
  let ?db = "db\<lparr>db_temp_bans := filter (\<lambda>r. \<not> ?e r) (db_temp_bans db)\<rparr>"
  have p: "pending (store_inv C) db ?db (filter ?e (db_temp_bans db) \<noteq> [])"
    using bans.delete_pending [OF i, of "filter ?e (db_temp_bans db) \<noteq> []" ?e] by (simp add: ban_table_def select_rows_def)
  show "store_inv C (fst (cleanup_expired_temp_bans now db)) \<and> versioned_write db (fst (cleanup_expired_temp_bans now db))"
  proof (cases "filter ?e (db_temp_bans db) = []")
    case True
    then show ?thesis using p
      by (simp add: cleanup_expired_temp_bans_def next_version_after_temp_ban_delete_def Let_def pending_def versioned_write_def)
  next
    case False
    then have "fst (cleanup_expired_temp_bans now db) = fst (bump now ?db)"
      by (simp add: cleanup_expired_temp_bans_def next_version_after_temp_ban_delete_def Let_def split_beta)
    then show ?thesis
      using p store_inv_bump [of C ?db now] bump_version(1) [of now ?db] by (simp add: pending_def versioned_write_def)
  qed
qed

end

section \<open>Requests\<close>

datatype api_request =
    CreateRule create_rule_request
  | CreateRules "create_rule_request list"
  | DeleteRule i32
  | DeleteRules "i32 list" "string list"
  | DeleteRulesBy rule_match_query
  | CreateTrusted create_trusted_cidr_request
  | CreateTrustedBatch "create_trusted_cidr_request list"
  | DeleteTrusted i32
  | DeleteTrustedBatch "i32 list"
  | DeleteTrustedBy string
  | CreateBan create_temp_ban_request
  | CreateBans "create_temp_ban_request list"
  | DeleteBan i32
  | DeleteBans "i32 list"
  | CreateLimit create_rate_limit_request
  | CreateLimits "create_rate_limit_request list"
  | DeleteLimit i32
  | DeleteLimits "i32 list"
  | DeleteLimitBy limit_match_query
  | CreateCountry create_geo_country_request
  | CreateCountries "create_geo_country_request list"
  | DeleteCountry i32
  | DeleteCountries "i32 list"
  | DeleteCountryBy string string bool
  | CreateSource create_threat_source_request
  | CreateSources "create_threat_source_request list"
  | UpdateSource i32 bool
  | DeleteSource i32
  | DeleteSources "i32 list"
  | DeleteSourceBy string
  | UpdateDefense update_defense_request
  | BumpPolicyVersion

text \<open>The state after a request. \<open>seen\<close> is what a handler reads before it opens its transaction.\<close>

fun api_step :: "api_env \<Rightarrow> firewall_db \<Rightarrow> api_request \<Rightarrow> firewall_db \<Rightarrow> firewall_db" where
  "api_step E seen (CreateRule r) db = fst (create_rule_handler E seen r db)"
| "api_step E seen (CreateRules rs) db = fst (create_rules_handler E seen rs db)"
| "api_step E seen (DeleteRule i) db = fst (delete_rule_by_id E i db)"
| "api_step E seen (DeleteRules ids keys) db = fst (delete_rules_batch E ids keys db)"
| "api_step E seen (DeleteRulesBy q) db = fst (delete_rules_by_query E q db)"
| "api_step E seen (CreateTrusted r) db = fst (create_trusted_handler E r db)"
| "api_step E seen (CreateTrustedBatch rs) db = fst (create_trusted_batch_handler E rs db)"
| "api_step E seen (DeleteTrusted i) db = fst (delete_trusted_by_id E i db)"
| "api_step E seen (DeleteTrustedBatch ids) db = fst (delete_trusted_batch E ids db)"
| "api_step E seen (DeleteTrustedBy c) db = fst (delete_trusted_by_query E c db)"
| "api_step E seen (CreateBan r) db = fst (create_ban_handler E seen r db)"
| "api_step E seen (CreateBans rs) db = fst (create_bans_handler E seen rs db)"
| "api_step E seen (DeleteBan i) db = fst (delete_ban_by_id E i db)"
| "api_step E seen (DeleteBans ids) db = fst (delete_bans_batch E ids db)"
| "api_step E seen (CreateLimit r) db = fst (create_limit_handler E r db)"
| "api_step E seen (CreateLimits rs) db = fst (create_limits_handler E rs db)"
| "api_step E seen (DeleteLimit i) db = fst (delete_limit_by_id E i db)"
| "api_step E seen (DeleteLimits ids) db = fst (delete_limits_batch E ids db)"
| "api_step E seen (DeleteLimitBy q) db = fst (delete_limit_by_query E q db)"
| "api_step E seen (CreateCountry r) db = fst (create_country_handler E r db)"
| "api_step E seen (CreateCountries rs) db = fst (create_countries_handler E rs db)"
| "api_step E seen (DeleteCountry i) db = fst (delete_country_by_id E i db)"
| "api_step E seen (DeleteCountries ids) db = fst (delete_countries_batch E ids db)"
| "api_step E seen (DeleteCountryBy c a en) db = fst (delete_country_by_query E c a en db)"
| "api_step E seen (CreateSource r) db = fst (create_source_handler E r db)"
| "api_step E seen (CreateSources rs) db = fst (create_sources_handler E rs db)"
| "api_step E seen (UpdateSource i en) db = fst (update_source_handler E seen i en db)"
| "api_step E seen (DeleteSource i) db = fst (delete_source_by_id E i db)"
| "api_step E seen (DeleteSources ids) db = fst (delete_sources_batch E ids db)"
| "api_step E seen (DeleteSourceBy n) db = fst (delete_source_by_query E n db)"
| "api_step E seen (UpdateDefense r) db = fst (update_defense_handler E r db)"
| "api_step E seen BumpPolicyVersion db = fst (bump_policy_version E db)"

context api_checks
begin

lemmas handlers_sound = create_rule_handler_sound create_rules_handler_sound delete_rule_handlers_sound
  create_trusted_sound create_bans_sound delete_bans_sound create_handlers_sound delete_handlers_sound
  create_sources_sound update_source_sound delete_sources_sound update_defense_sound bump_sound

lemma api_step_sound:
  assumes "store_inv C db"
  shows "store_inv C (api_step E seen req db) \<and> versioned_write db (api_step E seen req db)"
  using handlers_sound [unfolded sound_write_def] assms by (cases req) simp_all

end

end
