(* ===== verification/Policy_Seed.thy ===== *)
theory Policy_Seed
  imports Api_Sources Api_Network Api_Limits
begin

text \<open>
  The rows the control plane writes by itself at start-up or on demand: \<^verbatim>\<open>policy/seed.rs\<close>,
  \<^verbatim>\<open>policy/seed/dynamic.rs\<close>, \<^verbatim>\<open>policy/seed/threat_sources.rs\<close>, \<^verbatim>\<open>policy/seed/example.rs\<close>,
  \<^verbatim>\<open>policy/seed/trusted_cidrs.rs\<close> and \<^verbatim>\<open>policy/seed/trusted_cidrs/reconcile.rs\<close>. Each is one transaction.
  A row id is the one the engine gives at the insert.
\<close>

section \<open>Built-in rows\<close>

record builtin_threat_source =
  bs_name :: string
  bs_url :: string
  bs_format :: string
  bs_min_score :: "i32 option"

definition builtin_threat_sources :: "builtin_threat_source list" where
  "builtin_threat_sources =
     [\<lparr>bs_name = ''ipsum'', bs_url = ''https://raw.githubusercontent.com/stamparm/ipsum/master/ipsum.txt'',
       bs_format = ''ipsum'', bs_min_score = Some 3\<rparr>,
      \<lparr>bs_name = ''spamhaus-drop'', bs_url = ''https://www.spamhaus.org/drop/drop.txt'',
       bs_format = ''spamhaus_drop'', bs_min_score = Some 3\<rparr>,
      \<lparr>bs_name = ''voipbl'', bs_url = ''https://voipbl.org/update/'', bs_format = ''voipbl'', bs_min_score = Some 3\<rparr>]"

definition builtin_source_row :: "api_env \<Rightarrow> firewall_db \<Rightarrow> string \<Rightarrow> builtin_threat_source \<Rightarrow> threat_source_row" where
  "builtin_source_row E db policy_name s =
     \<lparr>tsr_id = ae_next_id E db, tsr_policy_name = policy_name, tsr_enabled = True, tsr_name = bs_name s,
      tsr_url = bs_url s, tsr_format = bs_format s, tsr_min_score = bs_min_score s, tsr_updated_at = ae_now E\<rparr>"

text \<open>A row that appeared since the names were read is left as it is (the self-assigning upsert).\<close>

definition insert_builtin_source :: "api_env \<Rightarrow> string \<Rightarrow> builtin_threat_source \<Rightarrow> unit txn" where
  "insert_builtin_source E policy_name s db =
     (let row = builtin_source_row E db policy_name s in
      if list_ex (at_clash source_table row) (db_threat_sources db) then Inr ((), db)
      else txn_bind (insert_row source_table row) (\<lambda>_. txn_return ()) db)"

fun insert_missing_sources :: "api_env \<Rightarrow> string \<Rightarrow> string set \<Rightarrow> builtin_threat_source list \<Rightarrow> nat txn" where
  "insert_missing_sources E policy_name names [] = txn_return 0"
| "insert_missing_sources E policy_name names (s # ss) =
     (if bs_name s \<in> names then insert_missing_sources E policy_name names ss
      else txn_bind (insert_builtin_source E policy_name s) (\<lambda>_.
           txn_bind (insert_missing_sources E policy_name names ss) (\<lambda>n. txn_return (n + 1))))"

definition insert_builtin_threat_sources :: "api_env \<Rightarrow> string \<Rightarrow> nat txn" where
  "insert_builtin_threat_sources E policy_name db =
     insert_missing_sources E policy_name
       (set (map tsr_name (filter (\<lambda>r. tsr_policy_name r = policy_name) (db_threat_sources db))))
       builtin_threat_sources db"

definition default_dynamic_defense_active_model :: "string \<Rightarrow> datetime \<Rightarrow> dynamic_defense_row res" where
  "default_dynamic_defense_active_model policy_name now =
     dynamic_defense_active_model policy_name default_dynamic_defense now"

definition ensure_default_dynamic_defense_exists :: "string \<Rightarrow> datetime \<Rightarrow> unit txn" where
  "ensure_default_dynamic_defense_exists policy_name now db =
     (if list_ex (\<lambda>r. ddr_policy_name r = policy_name) (db_dynamic_defense db) then Inr ((), db)
      else bindE (default_dynamic_defense_active_model policy_name now) (\<lambda>row.
           Inr ((), db\<lparr>db_dynamic_defense := db_dynamic_defense db @ [row]\<rparr>)))"

definition ensure_builtin_policy :: "api_env \<Rightarrow> firewall_db \<Rightarrow> firewall_db \<times> (unit \<times> i64 option) res" where
  "ensure_builtin_policy E =
     commit (\<lambda>db.
       if find_policy_version db default_policy_name \<noteq> None
       then txn_bind (insert_builtin_threat_sources E default_policy_name) (\<lambda>inserted.
              if 0 < inserted then versioned () (ae_now E) True else (\<lambda>_. Inr (((), None), db))) db
       else txn_bind (ensure_default_dynamic_defense_exists default_policy_name (ae_now E)) (\<lambda>_.
            txn_bind (insert_builtin_threat_sources E default_policy_name) (\<lambda>_.
              versioned () (ae_now E) True)) db)"

section \<open>The example policy\<close>

definition clear_example_policy_data :: "string \<Rightarrow> unit txn" where
  "clear_example_policy_data n db =
     Inr ((), db\<lparr>db_firewall_rules := filter (\<lambda>r. frr_policy_name r \<noteq> n) (db_firewall_rules db),
       db_geo_countries := filter (\<lambda>r. gcr_policy_name r \<noteq> n) (db_geo_countries db),
       db_threat_sources := filter (\<lambda>r. tsr_policy_name r \<noteq> n) (db_threat_sources db),
       db_threat_states := filter (\<lambda>r. tss_policy_name r \<noteq> n) (db_threat_states db),
       db_threat_prefixes := filter (\<lambda>r. tpr_policy_name r \<noteq> n) (db_threat_prefixes db)\<rparr>)"

definition example_rule_row :: "api_env \<Rightarrow> firewall_db \<Rightarrow> i32 \<Rightarrow> string \<Rightarrow> string \<Rightarrow> string \<Rightarrow> firewall_rule_row" where
  "example_rule_row E db priority action cidr comment =
     \<lparr>frr_id = ae_next_id E db, frr_policy_name = default_policy_name,
      frr_rule_key = generated_rule_key (ae_sha256 E) priority action cidr None None, frr_enabled = True,
      frr_priority = priority, frr_action = action, frr_cidr = cidr, frr_protocol = None, frr_port = None,
      frr_comment = Some comment, frr_updated_at = ae_now E\<rparr>"

definition insert_example_firewall_rules :: "api_env \<Rightarrow> unit txn" where
  "insert_example_firewall_rules E =
     txn_bind (\<lambda>db. insert_row rule_table (example_rule_row E db 10 ''deny'' ''203.0.113.0/24'' ''example deny CIDR'') db) (\<lambda>_.
     txn_bind (\<lambda>db. insert_row rule_table (example_rule_row E db 20 ''allow'' ''10.0.0.0/8'' ''example private allow CIDR'') db) (\<lambda>_.
     txn_return ()))"

definition insert_example_geo_country_policy :: "api_env \<Rightarrow> unit txn" where
  "insert_example_geo_country_policy E =
     txn_bind (\<lambda>db. insert_row country_table
         (geo_country_active_model E \<lparr>gi_enabled = True, gi_country = ''CN'', gi_action = ''allow''\<rparr> db) db) (\<lambda>_.
     txn_return ())"

definition seed_example_policy :: "api_env \<Rightarrow> firewall_db \<Rightarrow> firewall_db \<times> (unit \<times> i64 option) res" where
  "seed_example_policy E =
     commit (txn_bind (clear_example_policy_data default_policy_name) (\<lambda>_.
       txn_bind (insert_example_firewall_rules E) (\<lambda>_.
       txn_bind (insert_example_geo_country_policy E) (\<lambda>_.
       txn_bind (ensure_default_dynamic_defense_exists default_policy_name (ae_now E)) (\<lambda>_.
       txn_bind (insert_builtin_threat_sources E default_policy_name) (\<lambda>_.
       versioned () (ae_now E) True))))))"

section \<open>Trusted CIDRs from the command line\<close>

text \<open>Values are split at commas and normalized; the first occurrence of a network stays.\<close>

fun push_unique :: "string list \<Rightarrow> string list \<Rightarrow> string list" where
  "push_unique out [] = out"
| "push_unique out (c # cs) = push_unique (if c \<in> set out then out else out @ [c]) cs"

definition normalize_trusted_cidrs :: "ipnet_lib \<Rightarrow> net_text \<Rightarrow> string list \<Rightarrow> string list res" where
  "normalize_trusted_cidrs N T values =
     mapE (push_unique [])
       (traverse (\<lambda>v. mapE (\<lambda>n. cidr_text (net_network N n) (net_prefix_len n)) (parse_cidr T v))
         (filter (\<lambda>v. v \<noteq> []) (map trim (concat (map (split_on (\<lambda>c. c = CHR '','')) values)))))"

definition set_trusted_enabled :: "api_env \<Rightarrow> bool \<Rightarrow> trusted_cidr_row \<Rightarrow> nat txn" where
  "set_trusted_enabled E en row =
     (if tcr_enabled row = en then txn_return 0
      else txn_bind (update_row trusted_table (tcr_id row) (\<lambda>r. r\<lparr>tcr_enabled := en, tcr_updated_at := ae_now E\<rparr>))
             (\<lambda>_. txn_return 1))"

fun reconcile_existing_trusted_cidrs :: "api_env \<Rightarrow> string set \<Rightarrow> trusted_cidr_row list \<Rightarrow> nat txn" where
  "reconcile_existing_trusted_cidrs E desired [] = txn_return 0"
| "reconcile_existing_trusted_cidrs E desired (r # rs) =
     txn_bind (set_trusted_enabled E (tcr_cidr r \<in> desired) r) (\<lambda>a.
     txn_bind (reconcile_existing_trusted_cidrs E desired rs) (\<lambda>b. txn_return (a + b)))"

fun insert_missing_trusted_cidrs :: "api_env \<Rightarrow> string set \<Rightarrow> string list \<Rightarrow> nat txn" where
  "insert_missing_trusted_cidrs E existing [] = txn_return 0"
| "insert_missing_trusted_cidrs E existing (c # cs) =
     (if c \<in> existing then insert_missing_trusted_cidrs E existing cs
      else txn_bind (\<lambda>db. insert_row trusted_table (trusted_active_model E db True c (Some ''initialized from API CLI/env'')) db) (\<lambda>_.
           txn_bind (insert_missing_trusted_cidrs E existing cs) (\<lambda>n. txn_return (n + 1))))"

text \<open>\<open>env_set\<close>: whether \<^verbatim>\<open>XDP_FIREWALL_TRUSTED_CIDRS\<close> is in the environment.\<close>

definition ensure_configured_trusted_cidrs ::
    "api_env \<Rightarrow> bool \<Rightarrow> string list \<Rightarrow> firewall_db \<Rightarrow> firewall_db \<times> (unit \<times> i64 option) res" where
  "ensure_configured_trusted_cidrs E env_set values =
     after_checks (normalize_trusted_cidrs (ae_net E) (ae_text E) values) (\<lambda>cidrs.
       if cidrs = [] \<and> \<not> (values \<noteq> [] \<or> env_set) then (\<lambda>db. (db, Inr ((), None)))
       else commit (\<lambda>db.
         let rows = filter (in_policy trusted_table) (db_trusted_cidrs db) in
         txn_bind (reconcile_existing_trusted_cidrs E (set cidrs) rows) (\<lambda>a.
         txn_bind (insert_missing_trusted_cidrs E (set (map tcr_cidr rows)) cidrs) (\<lambda>b.
           if 0 < a + b then versioned () (ae_now E) True else (\<lambda>_. Inr (((), None), db)))) db))"

end
