(* ===== verification/Geo_Refresh.thy ===== *)
theory Geo_Refresh
  imports Policy_View Refresh_Gate
begin

text \<open>
  A refresh of the country lists: the catalog page (\<^verbatim>\<open>geo/catalog.rs\<close>, \<^verbatim>\<open>geo/catalog/parser.rs\<close>), the
  download of one list (\<^verbatim>\<open>geo/http.rs\<close>, \<^verbatim>\<open>geo/provider.rs\<close>, \<^verbatim>\<open>geo/provider/parser.rs\<close>), the decision whether
  it changed and the transaction that stores it (\<^verbatim>\<open>geo/refresh.rs\<close>, \<^verbatim>\<open>geo/refresh/country.rs\<close>,
  \<^verbatim>\<open>geo/state.rs\<close>, \<^verbatim>\<open>geo/state/replacement.rs\<close>, \<^verbatim>\<open>geo/state/replacement/persistence.rs\<close>). Unlike a
  threat refresh, a country that fails is skipped. Text is bytes, so the upper case of a name's first
  letter is the ASCII one.
\<close>

section \<open>The catalog page\<close>

definition ipdeny_root :: string where "ipdeny_root = ''https://www.ipdeny.com/ipblocks/''"
definition ipdeny_index_max_bytes :: nat where "ipdeny_index_max_bytes = 2 * 1024 * 1024"
definition ipdeny_country_max_bytes :: nat where "ipdeny_country_max_bytes = 16 * 1024 * 1024"

record ipdeny_index_entry =
  ie_country :: string
  ie_name :: string
  ie_url :: string
  ie_last_modified :: "string option"
  ie_size_bytes :: "i64 option"

fun strip_html_from :: "bool \<Rightarrow> string \<Rightarrow> string" where
  "strip_html_from in_tag [] = []"
| "strip_html_from in_tag (c # cs) =
     (if c = CHR ''<'' then strip_html_from True cs
      else if c = CHR ''>'' then CHR '' '' # strip_html_from False cs
      else if \<not> in_tag then c # strip_html_from in_tag cs
      else strip_html_from in_tag cs)"

definition strip_html :: "string \<Rightarrow> string" where
  "strip_html = strip_html_from False"

text \<open>\<^verbatim>\<open>str::find\<close> and \<^verbatim>\<open>rfind\<close>: the first and the last position of a pattern.\<close>

fun prefix_of :: "string \<Rightarrow> string \<Rightarrow> bool" where
  "prefix_of [] s = True"
| "prefix_of (p # ps) [] = False"
| "prefix_of (p # ps) (c # cs) = (p = c \<and> prefix_of ps cs)"

fun find_text :: "string \<Rightarrow> string \<Rightarrow> nat option" where
  "find_text p [] = (if p = [] then Some 0 else None)"
| "find_text p (c # cs) = (if prefix_of p (c # cs) then Some 0 else map_option Suc (find_text p cs))"

definition rfind_char :: "char \<Rightarrow> string \<Rightarrow> nat option" where
  "rfind_char c s = map_option (\<lambda>i. length s - 1 - i) (find_text [c] (rev s))"

definition contains_text :: "string \<Rightarrow> string \<Rightarrow> bool" where
  "contains_text p s \<longleftrightarrow> find_text p s \<noteq> None"

definition bind_option :: "'a option \<Rightarrow> ('a \<Rightarrow> 'b option) \<Rightarrow> 'b option" where
  "bind_option x f = (case x of None \<Rightarrow> None | Some v \<Rightarrow> f v)"

definition title_case_word :: "string \<Rightarrow> string" where
  "title_case_word w = (case w of [] \<Rightarrow> [] | c # cs \<Rightarrow> ascii_upper c # to_lower cs)"

definition title_case_country_name :: "string \<Rightarrow> string" where
  "title_case_country_name name = join_with '' '' (map title_case_word (split_whitespace name))"

definition parse_ipdeny_country_heading :: "string \<Rightarrow> (string \<times> string) option" where
  "parse_ipdeny_country_heading text =
     bind_option (case find_text ''[download'' text of Some i \<Rightarrow> Some i | None \<Rightarrow> find_text '' download '' text) (\<lambda>d.
     let heading = trim (take d text) in
     bind_option (rfind_char (CHR ''('') heading) (\<lambda>code_start.
     bind_option (find_text '')'' (drop code_start heading)) (\<lambda>off.
     let code_end = off + code_start;
         code = trim (take (code_end - (code_start + 1)) (drop (code_start + 1) heading)) in
     if length code \<noteq> 2 \<or> \<not> list_all is_ascii_alphabetic code then None
     else (let name = trim (take code_start heading) in
       if name = [] then None else Some (title_case_country_name name, to_upper code)))))"

definition parse_ipdeny_root_last_updated :: "string \<Rightarrow> string option" where
  "parse_ipdeny_root_last_updated body =
     (let marker = ''Zone files last updated:'';
          value = (\<lambda>line. bind_option (find_text marker line) (\<lambda>i.
            let v = trim (drop (i + length marker) line) in if v = [] then None else Some v))
      in (case filter (\<lambda>l. value l \<noteq> None) (map strip_html (str_lines body)) of
            [] \<Rightarrow> None | l # _ \<Rightarrow> value l))"

definition parse_ipdeny_index_line :: "string \<Rightarrow> string option \<Rightarrow> ipdeny_index_entry option res" where
  "parse_ipdeny_index_line line last_modified =
     (let text = strip_html line in
      if \<not> contains_text ''.zone'' text then Inr None
      else (case parse_ipdeny_country_heading text of
          None \<Rightarrow> Inr None
        | Some (name, country) \<Rightarrow>
            mapE (\<lambda>url. Some \<lparr>ie_country = country, ie_name = name, ie_url = url,
                             ie_last_modified = last_modified, ie_size_bytes = None\<rparr>)
              (ipdeny_country_url country)))"

definition parse_ipdeny_index :: "string \<Rightarrow> ipdeny_index_entry list res" where
  "parse_ipdeny_index body =
     bindE (traverse (\<lambda>l. parse_ipdeny_index_line l (parse_ipdeny_root_last_updated body)) (str_lines body)) (\<lambda>es.
       let entries = concat (map (\<lambda>e. case e of None \<Rightarrow> [] | Some x \<Rightarrow> [x]) es) in
       if entries = [] then Inl (Internal ''IPdeny country block page did not contain country zone files'')
       else Inr entries)"

section \<open>The stored catalog\<close>

definition find_catalog :: "firewall_db \<Rightarrow> string \<Rightarrow> geo_country_catalog_row option" where
  "find_catalog db code = find (\<lambda>r. gcc_code r = code) (db_geo_catalog db)"

definition country_catalog_entry_changed :: "geo_country_catalog_row \<Rightarrow> ipdeny_index_entry \<Rightarrow> bool" where
  "country_catalog_entry_changed r e \<longleftrightarrow>
     gcc_name r \<noteq> ie_name e \<or> gcc_url r \<noteq> ie_url e \<or> gcc_last_modified r \<noteq> ie_last_modified e \<or>
     gcc_size_bytes r \<noteq> ie_size_bytes e"

definition country_catalog_updated_at ::
    "geo_country_catalog_row option \<Rightarrow> ipdeny_index_entry \<Rightarrow> datetime \<Rightarrow> datetime" where
  "country_catalog_updated_at existing e now =
     (case existing of None \<Rightarrow> now
      | Some r \<Rightarrow> if country_catalog_entry_changed r e then now else gcc_updated_at r)"

definition upsert_country_catalog_entry ::
    "(firewall_db \<Rightarrow> i32) \<Rightarrow> datetime \<Rightarrow> ipdeny_index_entry \<Rightarrow> firewall_db \<Rightarrow> firewall_db" where
  "upsert_country_catalog_entry next_id now e db =
     (let existing = find_catalog db (ie_country e);
          updated = country_catalog_updated_at existing e now in
      case existing of
        None \<Rightarrow> db\<lparr>db_geo_catalog := db_geo_catalog db @
            [\<lparr>gcc_id = next_id db, gcc_code = ie_country e, gcc_name = ie_name e, gcc_url = ie_url e,
              gcc_last_modified = ie_last_modified e, gcc_size_bytes = ie_size_bytes e,
              gcc_last_checked_at = now, gcc_updated_at = updated\<rparr>]\<rparr>
      | Some _ \<Rightarrow> db\<lparr>db_geo_catalog := map (\<lambda>r. if gcc_code r = ie_country e
            then r\<lparr>gcc_name := ie_name e, gcc_url := ie_url e, gcc_last_modified := ie_last_modified e,
                   gcc_size_bytes := ie_size_bytes e, gcc_last_checked_at := now, gcc_updated_at := updated\<rparr>
            else r) (db_geo_catalog db)\<rparr>)"

definition list_country_options :: "firewall_db \<Rightarrow> (string \<times> string) list" where
  "list_country_options db = map (\<lambda>r. (gcc_code r, gcc_name r)) (order_by gcc_code (db_geo_catalog db))"

definition fetch_ipdeny_index_entries :: "http_response res \<Rightarrow> ipdeny_index_entry list res" where
  "fetch_ipdeny_index_entries page =
     bindE page (\<lambda>response.
     if hr_status_error response then Inl (Internal ''geo provider returned error'')
     else bindE (read_limited_body response ipdeny_index_max_bytes ''geo provider'') parse_ipdeny_index)"

definition refresh_ipdeny_country_catalog ::
    "(firewall_db \<Rightarrow> i32) \<Rightarrow> datetime \<Rightarrow> http_response res \<Rightarrow> firewall_db \<Rightarrow>
       firewall_db \<times> (string \<times> string) list res" where
  "refresh_ipdeny_country_catalog next_id now page db =
     (case fetch_ipdeny_index_entries page of
        Inl e \<Rightarrow> (db, Inl e)
      | Inr entries \<Rightarrow>
          (let db = fold (upsert_country_catalog_entry next_id now) entries db in (db, Inr (list_country_options db))))"

section \<open>One list\<close>

record geo_response = http_response +
  gh_not_modified :: bool
  gh_last_modified :: "string option"
  gh_etag :: "string option"

record geo_client =
  gcl_head :: "string \<Rightarrow> geo_response res"
  gcl_get :: "string \<Rightarrow> string option \<Rightarrow> string option \<Rightarrow> geo_response res"

record ipdeny_metadata =
  im_country :: string
  im_url :: string
  im_last_modified :: "string option"
  im_etag :: "string option"

definition header_string :: "string option \<Rightarrow> string option" where
  "header_string v = (case v of None \<Rightarrow> None | Some s \<Rightarrow> if trim s = [] then None else Some (trim s))"

definition metadata_from_headers :: "string \<Rightarrow> string \<Rightarrow> geo_response \<Rightarrow> ipdeny_metadata" where
  "metadata_from_headers country url r =
     \<lparr>im_country = country, im_url = url, im_last_modified = header_string (gh_last_modified r),
      im_etag = header_string (gh_etag r)\<rparr>"

definition fetch_country_metadata :: "geo_client \<Rightarrow> string \<Rightarrow> ipdeny_metadata res" where
  "fetch_country_metadata client country =
     bindE (normalize_country country) (\<lambda>country.
     bindE (ipdeny_country_url country) (\<lambda>url.
     bindE (gcl_head client url) (\<lambda>response.
     if hr_status_error response then Inl (Internal ''geo provider returned metadata error'')
     else Inr (metadata_from_headers country url response))))"

text \<open>The values of \<^verbatim>\<open>If-None-Match\<close> and \<^verbatim>\<open>If-Modified-Since\<close>.\<close>

definition non_empty :: "string option \<Rightarrow> string option" where
  "non_empty v = (if v = Some [] then None else v)"

definition conditional_country_request ::
    "geo_client \<Rightarrow> string \<Rightarrow> geo_ip_list_state_row option \<Rightarrow> geo_response res" where
  "conditional_country_request client url existing =
     (case existing of None \<Rightarrow> gcl_get client url None None
      | Some r \<Rightarrow> gcl_get client url (non_empty (gls_etag r)) (non_empty (gls_last_modified r)))"

definition parse_ipdeny_line :: "ipnet_lib \<Rightarrow> net_text \<Rightarrow> u16 \<Rightarrow> string \<Rightarrow> geo_prefix option" where
  "parse_ipdeny_line N T code line =
     (let line = trim line in
      if line = [] \<or> hd line = CHR ''#'' then None
      else map_option (\<lambda>net. geo_prefix_from_net N net code) (nt_parse T line))"

definition read_country_prefixes :: "ipnet_lib \<Rightarrow> net_text \<Rightarrow> geo_response \<Rightarrow> string \<Rightarrow> geo_prefix list res" where
  "read_country_prefixes N T response country =
     bindE (encode_country country) (\<lambda>code.
       read_limited_lines (http_response.truncate response) ipdeny_country_max_bytes ''geo provider''
         (\<lambda>line. Inr (parse_ipdeny_line N T code line)))"

definition fetch_country_prefixes_streaming ::
    "ipnet_lib \<Rightarrow> net_text \<Rightarrow> geo_client \<Rightarrow> string \<Rightarrow> geo_ip_list_state_row option \<Rightarrow>
       (ipdeny_metadata \<times> geo_prefix list) option res" where
  "fetch_country_prefixes_streaming N T client country existing =
     bindE (normalize_country country) (\<lambda>country.
     bindE (ipdeny_country_url country) (\<lambda>url.
     bindE (conditional_country_request client url existing) (\<lambda>response.
     if gh_not_modified response then Inr None
     else if hr_status_error response then Inl (Internal ''geo provider returned error'')
     else mapE (\<lambda>ps. Some (metadata_from_headers country url response, ps))
            (read_country_prefixes N T response country))))"

section \<open>Storing a list\<close>

definition persisted_cidrs :: "net_text \<Rightarrow> json_lib \<Rightarrow> geo_ip_prefix_row \<Rightarrow> ipnet list res" where
  "persisted_cidrs T J row =
     (let (nets, ok) = for_each_persisted_cidr T J row in
      if ok then Inr nets else Inl (Internal ''invalid persisted country CIDR list''))"

definition load_geo_ip_list_state :: "firewall_db \<Rightarrow> string \<Rightarrow> geo_ip_list_state_row option" where
  "load_geo_ip_list_state db country = find (\<lambda>r. gls_country r = country) (db_geo_list_states db)"

definition has_persisted_country_prefixes :: "net_text \<Rightarrow> json_lib \<Rightarrow> firewall_db \<Rightarrow> string \<Rightarrow> bool" where
  "has_persisted_country_prefixes T J db country \<longleftrightarrow>
     (case load_geo_ip_prefix_row db country of None \<Rightarrow> False
      | Some row \<Rightarrow> (case persisted_cidrs T J row of Inl _ \<Rightarrow> False | Inr nets \<Rightarrow> nets \<noteq> []))"

text \<open>The columns the touch sets; the row was read earlier and is found again by its id.\<close>

definition touch_existing_geo_ip_state ::
    "datetime \<Rightarrow> geo_ip_list_state_row option \<Rightarrow> ipdeny_metadata \<Rightarrow> firewall_db \<Rightarrow> firewall_db res" where
  "touch_existing_geo_ip_state now existing m db =
     (case existing of None \<Rightarrow> Inr db
      | Some e \<Rightarrow>
          if list_ex (\<lambda>r. gls_id r = gls_id e) (db_geo_list_states db)
          then Inr (db\<lparr>db_geo_list_states := map (\<lambda>r. if gls_id r = gls_id e
                 then r\<lparr>gls_last_modified := im_last_modified m, gls_etag := im_etag m, gls_last_checked_at := now\<rparr>
                 else r) (db_geo_list_states db)\<rparr>)
          else Inl (DbErr ''record not updated''))"

record geo_prefix_replacement =
  grp_country :: string
  grp_url :: string
  grp_last_modified :: "string option"
  grp_etag :: "string option"
  grp_prefix_count :: i32
  grp_cidrs_json :: string
  grp_existing_updated_at :: "datetime option"
  grp_now :: datetime

definition new_geo_prefix_replacement ::
    "datetime \<Rightarrow> geo_country_catalog_row \<Rightarrow> geo_ip_list_state_row option \<Rightarrow> ipdeny_metadata \<Rightarrow> geo_prefix list \<Rightarrow>
       geo_prefix_replacement res" where
  "new_geo_prefix_replacement now catalog existing m prefixes =
     (if 2147483647 < length prefixes then Inl (OutOfRange ''geo prefix count exceeds i32'')
      else Inr \<lparr>grp_country = gcc_code catalog, grp_url = im_url m, grp_last_modified = im_last_modified m,
        grp_etag = im_etag m, grp_prefix_count = word_of_nat (length prefixes),
        grp_cidrs_json = geo_cidrs_json prefixes, grp_existing_updated_at = map_option gls_updated_at existing,
        grp_now = now\<rparr>)"

definition geo_ip_prefixes_changed :: "firewall_db \<Rightarrow> string \<Rightarrow> string \<Rightarrow> bool" where
  "geo_ip_prefixes_changed db country cidrs_json \<longleftrightarrow>
     (case load_geo_ip_prefix_row db country of None \<Rightarrow> True | Some r \<Rightarrow> gpr_cidrs_json r \<noteq> cidrs_json)"

definition geo_ip_list_state_updated_at :: "bool \<Rightarrow> datetime option \<Rightarrow> datetime \<Rightarrow> datetime" where
  "geo_ip_list_state_updated_at changed existing now = (if changed then now else unwrap_or now existing)"

record geo_ids =
  gid_prefix :: "firewall_db \<Rightarrow> i32"
  gid_state :: "firewall_db \<Rightarrow> i32"
  gid_catalog :: "firewall_db \<Rightarrow> i32"

definition replace_geo_ip_prefix_row :: "geo_ids \<Rightarrow> string \<Rightarrow> string \<Rightarrow> datetime \<Rightarrow> firewall_db \<Rightarrow> firewall_db" where
  "replace_geo_ip_prefix_row ids country json now db =
     db\<lparr>db_geo_prefixes := filter (\<lambda>r. gpr_country r \<noteq> country) (db_geo_prefixes db) @
          [\<lparr>gpr_id = gid_prefix ids db, gpr_country = country, gpr_cidrs_json = json, gpr_updated_at = now\<rparr>]\<rparr>"

definition upsert_geo_ip_list_state ::
    "geo_ids \<Rightarrow> geo_prefix_replacement \<Rightarrow> datetime \<Rightarrow> firewall_db \<Rightarrow> firewall_db" where
  "upsert_geo_ip_list_state ids g updated_at db =
     (if list_ex (\<lambda>r. gls_country r = grp_country g) (db_geo_list_states db)
      then db\<lparr>db_geo_list_states := map (\<lambda>r. if gls_country r = grp_country g
             then r\<lparr>gls_url := grp_url g, gls_last_modified := grp_last_modified g, gls_etag := grp_etag g,
                    gls_prefix_count := grp_prefix_count g, gls_last_checked_at := grp_now g,
                    gls_last_downloaded_at := Some (grp_now g), gls_updated_at := updated_at\<rparr>
             else r) (db_geo_list_states db)\<rparr>
      else db\<lparr>db_geo_list_states := db_geo_list_states db @
             [\<lparr>gls_id = gid_state ids db, gls_country = grp_country g, gls_url = grp_url g,
               gls_last_modified = grp_last_modified g, gls_etag = grp_etag g,
               gls_prefix_count = grp_prefix_count g, gls_last_checked_at = grp_now g,
               gls_last_downloaded_at = Some (grp_now g), gls_updated_at = updated_at\<rparr>]\<rparr>)"

definition persist_geo_prefix_replacement ::
    "geo_ids \<Rightarrow> datetime \<Rightarrow> geo_prefix_replacement \<Rightarrow> firewall_db \<Rightarrow> firewall_db \<times> bool" where
  "persist_geo_prefix_replacement ids bump_now g db =
     (let changed = geo_ip_prefixes_changed db (grp_country g) (grp_cidrs_json g);
          updated_at = geo_ip_list_state_updated_at changed (grp_existing_updated_at g) (grp_now g);
          db = (if changed then replace_geo_ip_prefix_row ids (grp_country g) (grp_cidrs_json g) (grp_now g) db else db);
          db = upsert_geo_ip_list_state ids g updated_at db;
          db = (if changed then fst (bump bump_now db) else db)
      in (db, changed))"

section \<open>Refreshing\<close>

definition geo_ip_list_changed ::
    "geo_ip_list_state_row option \<Rightarrow> bool \<Rightarrow> string option \<Rightarrow> string option \<Rightarrow> bool" where
  "geo_ip_list_changed existing has_prefixes last_modified etag \<longleftrightarrow>
     (case existing of None \<Rightarrow> True
      | Some e \<Rightarrow> \<not> has_prefixes \<or> last_modified = None \<and> etag = None \<or>
                  gls_last_modified e \<noteq> last_modified \<or> gls_etag e \<noteq> etag)"

definition fetch_country_metadata_or_catalog ::
    "geo_client \<Rightarrow> string \<Rightarrow> geo_country_catalog_row \<Rightarrow> geo_ip_list_state_row option \<Rightarrow> ipdeny_metadata" where
  "fetch_country_metadata_or_catalog client country catalog existing =
     (case fetch_country_metadata client country of
        Inr m \<Rightarrow> m
      | Inl _ \<Rightarrow> \<lparr>im_country = country, im_url = gcc_url catalog, im_last_modified = gcc_last_modified catalog,
                  im_etag = (case existing of None \<Rightarrow> None | Some e \<Rightarrow> gls_etag e)\<rparr>)"

definition merge_geo_ip_metadata :: "ipdeny_metadata \<Rightarrow> ipdeny_metadata \<Rightarrow> ipdeny_metadata" where
  "merge_geo_ip_metadata fetched fallback =
     fetched\<lparr>im_last_modified := (case im_last_modified fetched of None \<Rightarrow> im_last_modified fallback | v \<Rightarrow> v),
             im_etag := (case im_etag fetched of None \<Rightarrow> im_etag fallback | v \<Rightarrow> v)\<rparr>"

text \<open>The reads see \<open>seen\<close>; the write at the end starts from \<open>db\<close>. The answer counts the prefixes of a changed list.\<close>

definition refresh_one_country ::
    "ipnet_lib \<Rightarrow> net_text \<Rightarrow> json_lib \<Rightarrow> geo_client \<Rightarrow> geo_ids \<Rightarrow> datetime \<Rightarrow> firewall_db \<Rightarrow> string \<Rightarrow>
       firewall_db \<Rightarrow> firewall_db \<times> nat option res" where
  "refresh_one_country N T J client ids now seen country db =
     (case find_catalog seen country of
        None \<Rightarrow> (db, Inl (Internal ''country not found in IPdeny catalog''))
      | Some catalog \<Rightarrow>
          (let existing = load_geo_ip_list_state seen country;
               m = fetch_country_metadata_or_catalog client country catalog existing;
               touch = (case touch_existing_geo_ip_state now existing m db of
                          Inl e \<Rightarrow> (db, Inl e) | Inr db' \<Rightarrow> (db', Inr None)) in
           if \<not> geo_ip_list_changed existing (has_persisted_country_prefixes T J seen country) (im_last_modified m) (im_etag m)
           then touch
           else (case fetch_country_prefixes_streaming N T client country existing of
                Inl e \<Rightarrow> (db, Inl e)
              | Inr None \<Rightarrow> touch
              | Inr (Some (fetched, prefixes)) \<Rightarrow>
                  if prefixes = [] then (db, Inl (Internal ''IP list is empty''))
                  else (case new_geo_prefix_replacement now catalog existing (merge_geo_ip_metadata fetched m) prefixes of
                      Inl e \<Rightarrow> (db, Inl e)
                    | Inr g \<Rightarrow> (let (db', changed) = persist_geo_prefix_replacement ids now g db in
                        (db', Inr (if changed then Some (length prefixes) else None)))))))"

text \<open>The report names the countries that failed; the text of each error is left out.\<close>

definition count_country :: "string \<Rightarrow> nat option res \<Rightarrow> geo_refresh_report \<Rightarrow> geo_refresh_report" where
  "count_country country r rep =
     (case r of
        Inr (Some n) \<Rightarrow> rep\<lparr>gr_changed_country_count := gr_changed_country_count rep + 1,
                           gr_prefix_count := gr_prefix_count rep + n\<rparr>
      | Inr None \<Rightarrow> rep\<lparr>gr_unchanged_country_count := gr_unchanged_country_count rep + 1\<rparr>
      | Inl _ \<Rightarrow> rep\<lparr>gr_failed_country_count := gr_failed_country_count rep + 1, gr_errors := gr_errors rep @ [country]\<rparr>)"

text \<open>Alone in the database: each country's reads see what the countries before it left.\<close>

fun refresh_countries ::
    "ipnet_lib \<Rightarrow> net_text \<Rightarrow> json_lib \<Rightarrow> geo_client \<Rightarrow> geo_ids \<Rightarrow> datetime \<Rightarrow> string list \<Rightarrow>
       firewall_db \<times> geo_refresh_report \<Rightarrow> firewall_db \<times> geo_refresh_report" where
  "refresh_countries N T J client ids now [] st = st"
| "refresh_countries N T J client ids now (c # cs) (db, rep) =
     (let (db', r) = refresh_one_country N T J client ids now db c db in
      refresh_countries N T J client ids now cs (db', count_country c r rep))"

definition refresh_ipdeny_lists_for_countries ::
    "ipnet_lib \<Rightarrow> net_text \<Rightarrow> json_lib \<Rightarrow> geo_client \<Rightarrow> geo_ids \<Rightarrow> datetime \<Rightarrow> string list \<Rightarrow> firewall_db \<Rightarrow>
       firewall_db \<times> geo_refresh_report" where
  "refresh_ipdeny_lists_for_countries N T J client ids now countries db =
     (let (db', rep) = refresh_countries N T J client ids now countries (db, geo_report_empty []) in
      (db', rep\<lparr>gr_countries := countries, gr_checked_country_count := length countries,
        gr_refresh_status := (if gr_failed_country_count rep = 0 then ''completed''
          else if 0 < gr_changed_country_count rep \<or> 0 < gr_unchanged_country_count rep then ''partial_failed''
          else ''failed'')\<rparr>))"

definition refresh_all_ipdeny_lists ::
    "ipnet_lib \<Rightarrow> net_text \<Rightarrow> json_lib \<Rightarrow> geo_client \<Rightarrow> geo_ids \<Rightarrow> bool \<Rightarrow> datetime \<Rightarrow> http_response res \<Rightarrow>
       firewall_db \<Rightarrow> firewall_db \<times> geo_refresh_report res" where
  "refresh_all_ipdeny_lists N T J client ids acquired now page db =
     (if \<not> acquired then (db, Inr geo_report_running)
      else (case refresh_ipdeny_country_catalog (gid_catalog ids) now page db of
          (db1, Inl e) \<Rightarrow> (db1, Inl e)
        | (db1, Inr countries) \<Rightarrow>
            (let (db2, rep) = refresh_ipdeny_lists_for_countries N T J client ids now (map fst countries) db1 in
             (db2, Inr rep))))"

text \<open>The requested codes become a \<^verbatim>\<open>BTreeSet\<close>: sorted, without duplicates.\<close>

definition refresh_ipdeny_lists ::
    "ipnet_lib \<Rightarrow> net_text \<Rightarrow> json_lib \<Rightarrow> geo_client \<Rightarrow> geo_ids \<Rightarrow> bool \<Rightarrow> datetime \<Rightarrow> http_response res \<Rightarrow>
       string list \<Rightarrow> firewall_db \<Rightarrow> firewall_db \<times> geo_refresh_report res" where
  "refresh_ipdeny_lists N T J client ids acquired now page requested db =
     (if \<not> acquired then (db, Inr geo_report_running)
      else (case refresh_ipdeny_country_catalog (gid_catalog ids) now page db of
          (db1, Inl e) \<Rightarrow> (db1, Inl e)
        | (db1, Inr _) \<Rightarrow>
            (case traverse normalize_country requested of
               Inl e \<Rightarrow> (db1, Inl e)
             | Inr codes \<Rightarrow>
                 (let (db2, rep) = refresh_ipdeny_lists_for_countries N T J client ids now (sort (remdups codes)) db1 in
                  (db2, Inr rep)))))"

end
