(* ===== verification/Control_Nodes.thy ===== *)
theory Control_Nodes
  imports Api_Common Refresh_Lock
begin

text \<open>
  What the control plane knows of its nodes: the heartbeat an agent sends (\<^verbatim>\<open>xds/heartbeat.rs\<close>), the
  health of a node (\<^verbatim>\<open>policy/node_maintenance.rs\<close>), the node listing (\<^verbatim>\<open>api/nodes.rs\<close>,
  \<^verbatim>\<open>api/nodes/response.rs\<close>, \<^verbatim>\<open>api/nodes/maintenance.rs\<close>) and the redaction of error texts
  (\<^verbatim>\<open>control_plane/security.rs\<close>).
\<close>

section \<open>Redaction\<close>

definition max_public_error_bytes :: nat where "max_public_error_bytes = 512"

definition starts_with :: "string \<Rightarrow> string \<Rightarrow> bool" where
  "starts_with p s \<longleftrightarrow> take (length p) s = p"

definition authority_end :: "char \<Rightarrow> bool" where
  "authority_end c \<longleftrightarrow> c \<in> {CHR ''/'', CHR ''?'', CHR ''#'', CHR '' '', CHR 0x09, CHR 0x0A, CHR 0x0D}"

text \<open>What replaces the authority of a URL: the part up to its last \<^verbatim>\<open>@\<close> goes.\<close>

definition redact_authority :: "string \<Rightarrow> string" where
  "redact_authority a =
     (if CHR ''@'' \<in> set a then ''<redacted>@'' @ rev (takeWhile (\<lambda>c. c \<noteq> CHR ''@'') (rev a)) else a)"

text \<open>
  The loop finds the next scheme, copies what precedes it and the scheme, rewrites the authority and
  goes on after it; a step of the recursion copies one character or does all of that.
\<close>

function redact_scheme_credentials :: "string \<Rightarrow> string \<Rightarrow> string" where
  "redact_scheme_credentials scheme [] = []"
| "redact_scheme_credentials scheme (c # cs) =
     (if scheme \<noteq> [] \<and> starts_with scheme (c # cs)
      then (let after = drop (length scheme) (c # cs) in
        scheme @ redact_authority (takeWhile (\<lambda>x. \<not> authority_end x) after) @
        redact_scheme_credentials scheme (dropWhile (\<lambda>x. \<not> authority_end x) after))
      else c # redact_scheme_credentials scheme cs)"
  by pat_completeness auto

termination
proof (relation "measure (length \<circ> snd)")
  fix scheme c cs after
  assume "scheme \<noteq> [] \<and> starts_with scheme (c # cs)" "after = drop (length scheme) (c # cs)"
  then have "length (dropWhile (\<lambda>x. \<not> authority_end x) after) < length (c # cs)"
    using length_dropWhile_le [of "\<lambda>x. \<not> authority_end x" after] by (cases scheme) auto
  then show "((scheme, dropWhile (\<lambda>x. \<not> authority_end x) after), scheme, c # cs) \<in> measure (length \<circ> snd)"
    by simp
qed simp_all

definition redacted_schemes :: "string list" where
  "redacted_schemes = [''postgres://'', ''postgresql://'', ''mysql://'', ''sqlite://'', ''http://'', ''https://'']"

definition redact_credentials :: "string \<Rightarrow> string" where
  "redact_credentials message = fold redact_scheme_credentials redacted_schemes message"

text \<open>The last character boundary at or below the limit: a continuation byte never starts a character.\<close>

fun char_boundary_below :: "string \<Rightarrow> nat \<Rightarrow> nat" where
  "char_boundary_below s 0 = 0"
| "char_boundary_below s (Suc n) =
     (if Suc n < length s \<and> is_cont (s ! Suc n) then char_boundary_below s n else Suc n)"

definition truncate_text :: "string \<Rightarrow> nat \<Rightarrow> string" where
  "truncate_text value max_bytes =
     (if length value \<le> max_bytes then value else take (char_boundary_below value max_bytes) value @ ''...'')"

definition public_error_message :: "string \<Rightarrow> string" where
  "public_error_message message =
     (let first = trim (case str_lines message of [] \<Rightarrow> ''operation failed'' | l # _ \<Rightarrow> l) in
      truncate_text (redact_credentials first) max_public_error_bytes)"

section \<open>Heartbeats\<close>

record heartbeat_request =
  hb_node_id :: string
  hb_interface_name :: string
  hb_interface_ips :: "string list"
  hb_last_applied_version :: i64
  hb_status :: string
  hb_error :: string

definition public_heartbeat_error :: "string \<Rightarrow> string option" where
  "public_heartbeat_error e = (if trim e = [] then None else Some (public_error_message e))"

definition split_heartbeat_interface_ips :: "string \<Rightarrow> string list" where
  "split_heartbeat_interface_ips value =
     filter (\<lambda>v. v \<noteq> []) (map trim (split_on (\<lambda>c. c = CHR '','') value))"

definition parse_heartbeat_ip :: "string \<Rightarrow> ipaddr res" where
  "parse_heartbeat_ip value = ok_or (InvalidIp value) (parse_ip value)"

fun dedup :: "'a list \<Rightarrow> 'a list" where
  "dedup (x # y # xs) = (if x = y then dedup (y # xs) else x # dedup (y # xs))"
| "dedup xs = xs"

definition normalize_heartbeat_interface_ips :: "string list \<Rightarrow> string res" where
  "normalize_heartbeat_interface_ips values =
     mapE (\<lambda>ips. join_with '','' (map show_ip (dedup (sort ips))))
       (traverse parse_heartbeat_ip (concat (map split_heartbeat_interface_ips values)))"

definition heartbeat_model :: "datetime \<Rightarrow> heartbeat_request \<Rightarrow> node_row res" where
  "heartbeat_model now r =
     mapE (\<lambda>ips. \<lparr>ndr_node_id = hb_node_id r, ndr_policy_name = default_policy_name,
         ndr_interface_name = hb_interface_name r, ndr_interface_ips = ips, ndr_last_seen_at = now,
         ndr_last_applied_version = hb_last_applied_version r, ndr_status = hb_status r,
         ndr_error = public_heartbeat_error (hb_error r)\<rparr>)
       (normalize_heartbeat_interface_ips (hb_interface_ips r))"

definition upsert_node :: "node_row \<Rightarrow> firewall_db \<Rightarrow> firewall_db" where
  "upsert_node n db =
     (if list_ex (\<lambda>r. ndr_node_id r = ndr_node_id n) (db_nodes db)
      then db\<lparr>db_nodes := map (\<lambda>r. if ndr_node_id r = ndr_node_id n then n else r) (db_nodes db)\<rparr>
      else db\<lparr>db_nodes := db_nodes db @ [n]\<rparr>)"

definition upsert_heartbeat :: "datetime \<Rightarrow> heartbeat_request \<Rightarrow> firewall_db \<Rightarrow> firewall_db \<times> unit res" where
  "upsert_heartbeat now r db =
     (case heartbeat_model now r of Inl e \<Rightarrow> (db, Inl e) | Inr n \<Rightarrow> (upsert_node n db, Inr ()))"

section \<open>Health and maintenance\<close>

definition default_unhealthy_node_after_seconds :: i64 where "default_unhealthy_node_after_seconds = 300"
definition max_unhealthy_node_after_seconds :: i64 where "max_unhealthy_node_after_seconds = 31536000"

definition normalize_unhealthy_node_after_seconds :: "i64 option \<Rightarrow> i64 res" where
  "normalize_unhealthy_node_after_seconds value =
     (let v = unwrap_or default_unhealthy_node_after_seconds value in
      if sint v \<le> 0 then Inl (BadRequest ''max_age_seconds must be greater than 0'')
      else if sint max_unhealthy_node_after_seconds < sint v
      then Inl (BadRequest ''max_age_seconds must be at most 31536000'')
      else Inr v)"

definition seconds_since_seen :: "datetime \<Rightarrow> datetime \<Rightarrow> int" where
  "seconds_since_seen last_seen_at now = max 0 (num_seconds (now - last_seen_at))"

definition sync_status :: "string \<Rightarrow> i64 \<Rightarrow> i64 \<Rightarrow> datetime \<Rightarrow> datetime \<Rightarrow> i64 \<Rightarrow> string" where
  "sync_status raw_status applied current last_seen_at now max_age_seconds =
     (if sint max_age_seconds < seconds_since_seen last_seen_at now then ''offline''
      else (let status = to_lower (trim raw_status) in
        if status \<noteq> ''ok'' then status
        else if sint applied < sint current then ''stale''
        else ''ok''))"

definition prune_unhealthy_nodes :: "datetime \<Rightarrow> i64 \<Rightarrow> firewall_db \<Rightarrow> firewall_db \<times> nat res" where
  "prune_unhealthy_nodes now max_age db =
     (case normalize_unhealthy_node_after_seconds (Some max_age) of
        Inl e \<Rightarrow> (db, Inl e)
      | Inr age \<Rightarrow>
          (let gone = (\<lambda>r. ndr_policy_name r = default_policy_name \<and> ndr_last_seen_at r \<le> now - sint age * nanos_per_second) in
           (db\<lparr>db_nodes := filter (\<lambda>r. \<not> gone r) (db_nodes db)\<rparr>, Inr (length (filter gone (db_nodes db))))))"

definition maintain_nodes :: "datetime \<Rightarrow> i64 option \<Rightarrow> firewall_db \<Rightarrow> firewall_db \<times> nat res" where
  "maintain_nodes now max_age db =
     (case normalize_unhealthy_node_after_seconds max_age of
        Inl e \<Rightarrow> (db, Inl e) | Inr age \<Rightarrow> prune_unhealthy_nodes now age db)"

section \<open>Listing\<close>

record node_response =
  nr_node_id :: string
  nr_interface_name :: string
  nr_interface_ips :: "string list"
  nr_last_seen_at :: datetime
  nr_last_applied_version :: i64
  nr_current_policy_version :: i64
  nr_status :: string
  nr_sync_status :: string
  nr_healthy :: bool
  nr_seconds_since_seen :: int
  nr_error :: "string option"

definition node_response_of :: "node_row \<Rightarrow> i64 \<Rightarrow> datetime \<Rightarrow> node_response" where
  "node_response_of r current now =
     (let status = sync_status (ndr_status r) (ndr_last_applied_version r) current (ndr_last_seen_at r) now
            default_unhealthy_node_after_seconds in
      \<lparr>nr_node_id = ndr_node_id r, nr_interface_name = ndr_interface_name r,
       nr_interface_ips = map show_ip (case parse_node_interface_ips (ndr_interface_ips r) of Inl _ \<Rightarrow> [] | Inr ips \<Rightarrow> ips),
       nr_last_seen_at = ndr_last_seen_at r, nr_last_applied_version = ndr_last_applied_version r,
       nr_current_policy_version = current, nr_status = ndr_status r, nr_sync_status = status,
       nr_healthy = (status = ''ok''), nr_seconds_since_seen = seconds_since_seen (ndr_last_seen_at r) now,
       nr_error = map_option public_error_message (ndr_error r)\<rparr>)"

definition map_page :: "('a \<Rightarrow> 'b) \<Rightarrow> 'a page \<Rightarrow> 'b page" where
  "map_page f p = \<lparr>pa_items = map f (pa_items p), pa_total = pa_total p, pa_number = pa_number p,
     pa_size = pa_size p, pa_total_pages = pa_total_pages p\<rparr>"

definition list_nodes :: "datetime \<Rightarrow> u64 option \<Rightarrow> u64 option \<Rightarrow> firewall_db \<Rightarrow> node_response page res" where
  "list_nodes now page page_size db =
     mapE (\<lambda>p. map_page (\<lambda>r. node_response_of r (latest_version db) now) (fetch_page (order_by ndr_node_id (db_nodes db)) p))
       (normalize_pagination page page_size)"

definition get_node :: "datetime \<Rightarrow> string \<Rightarrow> firewall_db \<Rightarrow> node_response res" where
  "get_node now node_id db =
     (case find (\<lambda>r. ndr_node_id r = node_id) (db_nodes db) of
        None \<Rightarrow> Inl (NotFound ''node not found'')
      | Some r \<Rightarrow> Inr (node_response_of r (latest_version db) now))"

end
