(* ===== verification/Store_Writers.thy ===== *)
theory Store_Writers
  imports Api_Store Policy_Seed Threat_Refresh Geo_Refresh Control_Nodes
begin

text \<open>
  Every writer of the control plane as one step on the store: the requests of the API, the removal of
  expired bans, the refresh of the threat lists and of one country, the catalog, the seeds, the
  configured trusted CIDRs and the heartbeats. Each keeps the store invariant and changes what a policy
  load sees only together with the version.
\<close>

section \<open>Steps of a transaction\<close>

text \<open>A step that may change the view, so the transaction has to bump.\<close>

definition quiet_txn :: "(firewall_db \<Rightarrow> bool) \<Rightarrow> 'a txn \<Rightarrow> bool" where
  "quiet_txn keeps t \<longleftrightarrow> (\<forall>db x db'. keeps db \<longrightarrow> t db = Inr (x, db') \<longrightarrow> pending keeps db db' True)"

lemma quiet_return: "quiet_txn keeps (txn_return x)"
  by (auto simp: quiet_txn_def txn_return_def pending_refl)

lemma quiet_bind: "quiet_txn keeps t \<Longrightarrow> (\<And>x. quiet_txn keeps (f x)) \<Longrightarrow> quiet_txn keeps (txn_bind t f)"
  unfolding quiet_txn_def
proof (intro allI impI)
  fix db y db' assume t: "\<forall>db x db'. keeps db \<longrightarrow> t db = Inr (x, db') \<longrightarrow> pending keeps db db' True"
    and f: "\<And>x. \<forall>db y db'. keeps db \<longrightarrow> f x db = Inr (y, db') \<longrightarrow> pending keeps db db' True"
    and i: "keeps db" and b: "txn_bind t f db = Inr (y, db')"
  obtain x db1 where 1: "t db = Inr (x, db1)" "f x db1 = Inr (y, db')" using b by (auto simp: txn_bind_def res_simps)
  have p: "pending keeps db db1 True" using t i 1(1) by blast
  have "pending keeps db1 db' True" using f 1(2) pending_inv [OF p] by blast
  from pending_trans [OF p this] show "pending keeps db db' True" by simp
qed

lemma txn_bind_assoc: "txn_bind t (\<lambda>x. txn_bind (f x) g) = txn_bind (txn_bind t f) g"
proof
  show "txn_bind t (\<lambda>x. txn_bind (f x) g) db = txn_bind (txn_bind t f) g db" for db
    by (cases "t db") (auto simp: txn_bind_def split: prod.split)
qed

context store_laws
begin

lemma quiet_sound: "quiet_txn keeps t \<Longrightarrow> sound_write keeps (commit (txn_bind t (\<lambda>x. versioned (g x) now True)))"
  by (intro sound_commit good_result_txn_bind versioned_good) (simp add: quiet_txn_def)

end

section \<open>Seeds\<close>

locale writer_checks = api_checks +
  fixes J :: json_lib and fetch :: "threat_source \<Rightarrow> threat_prefix list res"
  assumes builtin_row: "s \<in> set builtin_threat_sources \<Longrightarrow> rc_source C (builtin_source_row E db n s)"
    and example_rule: "rc_rule C (example_rule_row E db 10 ''deny'' ''203.0.113.0/24'' c)"
      "rc_rule C (example_rule_row E db 20 ''allow'' ''10.0.0.0/8'' c)"
    and configured_row: "parse_cidr (ae_text E) v = Inr net \<Longrightarrow> rc_trusted C
          (trusted_active_model E db True (cidr_text (net_network (ae_net E) net) (net_prefix_len net)) comment)"
    and prefix_row: "fetch src = Inr ps \<Longrightarrow> rc_prefixes C
          \<lparr>tpr_id = i, tpr_policy_name = n, tpr_source_name = name,
           tpr_cidrs_json = cidrs_json_from_prefixes J (normalize_prefixes ps), tpr_updated_at = now\<rparr>"
begin

lemma insert_builtin_pending:
  assumes "s \<in> set builtin_threat_sources" "store_inv C db" "insert_builtin_source E n s db = Inr (u, db')"
  shows "pending (store_inv C) db db' True"
proof (cases "list_ex (at_clash source_table (builtin_source_row E db n s)) (db_threat_sources db)")
  case True
  then show ?thesis using assms by (simp add: insert_builtin_source_def Let_def pending_refl)
next
  case False
  then obtain x where "insert_row source_table (builtin_source_row E db n s) db = Inr (x, db')"
    using assms(3) by (auto simp: insert_builtin_source_def Let_def txn_bind_def txn_return_def res_simps)
  from sources.insert_pending(2) [OF assms(2) builtin_row [OF assms(1)] this] show ?thesis by (simp add: pending_def)
qed

lemma insert_missing_pending:
  "set ss \<subseteq> set builtin_threat_sources \<Longrightarrow> store_inv C db \<Longrightarrow> insert_missing_sources E n names ss db = Inr (k, db') \<Longrightarrow>
    pending (store_inv C) db db' (0 < k)"
proof (induction ss arbitrary: db k)
  case Nil
  then show ?case by (auto simp: txn_return_def pending_refl)
next
  case (Cons s ss)
  show ?case
  proof (cases "bs_name s \<in> names")
    case True
    then show ?thesis using Cons by simp
  next
    case False
    obtain u db1 j where 1: "insert_builtin_source E n s db = Inr (u, db1)"
      and 2: "insert_missing_sources E n names ss db1 = Inr (j, db')" and k: "k = j + 1"
      using Cons.prems(3) False by (auto simp: txn_bind_def txn_return_def res_simps)
    have p: "pending (store_inv C) db db1 True"
      using Cons.prems(1) by (intro insert_builtin_pending [OF _ Cons.prems(2) 1]) simp
    have "pending (store_inv C) db1 db' (0 < j)"
      using Cons.prems(1) by (intro Cons.IH [OF _ pending_inv [OF p] 2]) simp
    from pending_trans [OF p this] show ?thesis by (simp add: k)
  qed
qed

lemma builtin_sources_pending:
  "store_inv C db \<Longrightarrow> insert_builtin_threat_sources E n db = Inr (k, db') \<Longrightarrow> pending (store_inv C) db db' (0 < k)"
  unfolding insert_builtin_threat_sources_def by (rule insert_missing_pending) auto

lemma default_defense_row:
  assumes "default_dynamic_defense_active_model n now = Inr row"
  shows "rc_defense C row"
proof -
  let ?r = "\<lparr>ud_enabled = None, ud_ip_rate_limit_enabled = None, ud_ip_packets_per_second = None, ud_ip_burst = None,
    ud_flood_enabled = None, ud_flood_packets_per_second = None, ud_flood_burst = None, ud_flood_block_seconds = None\<rparr>"
  have d: "dynamic_defense_policy_from_request ?r = Inr default_dynamic_defense"
    by (simp add: dynamic_defense_policy_from_request_def requested_u32_def or_default_def Let_def default_dynamic_defense_def)
  have v: "validate_dynamic_defense_policy default_dynamic_defense = Inr ()"
    by (simp add: validate_dynamic_defense_iff default_dynamic_defense_ok)
  note m = assms [unfolded default_dynamic_defense_active_model_def dynamic_defense_active_model_def]
  have "row = row\<lparr>ddr_updated_at := now\<rparr>" using m by (auto simp: set_dynamic_defense_fields_def res_simps)
  then show ?thesis using defense_row [OF d v m, of now] by simp
qed

lemma default_defense_pending:
  "store_inv C db \<Longrightarrow> ensure_default_dynamic_defense_exists n now db = Inr (u, db') \<Longrightarrow> pending (store_inv C) db db' True"
  by (auto simp: ensure_default_dynamic_defense_exists_def res_simps pending_refl pending_def store_inv_def
      latest_version_def find_policy_version_def default_defense_row split: if_splits)

lemma ensure_builtin_sound: "sound (ensure_builtin_policy E)"
  unfolding ensure_builtin_policy_def
proof (rule sound_commit)
  fix db assume i: "store_inv C db"
  have "good_result (store_inv C) db ((if 0 < k then versioned () (ae_now E) True else (\<lambda>_. Inr (((), None), db))) db')"
    if "insert_builtin_threat_sources E default_policy_name db = Inr (k, db')" for k db'
    using builtin_sources_pending [OF i that] i by (auto simp: good_result_def intro!: store.versioned_good [unfolded good_result_def, rule_format])
  moreover have "good_result (store_inv C) db (versioned () (ae_now E) True db2)"
    if "ensure_default_dynamic_defense_exists default_policy_name (ae_now E) db = Inr (u, db1)"
      "insert_builtin_threat_sources E default_policy_name db1 = Inr (k, db2)" for u db1 k db2
    using pending_trans [OF default_defense_pending [OF i that(1)] builtin_sources_pending [OF pending_inv [OF default_defense_pending [OF i that(1)]] that(2)]]
    by (intro store.versioned_good) simp
  ultimately show "good_result (store_inv C) db
    (if find_policy_version db default_policy_name \<noteq> None
     then txn_bind (insert_builtin_threat_sources E default_policy_name) (\<lambda>inserted.
            if 0 < inserted then versioned () (ae_now E) True else (\<lambda>_. Inr (((), None), db))) db
     else txn_bind (ensure_default_dynamic_defense_exists default_policy_name (ae_now E)) (\<lambda>_.
          txn_bind (insert_builtin_threat_sources E default_policy_name) (\<lambda>_. versioned () (ae_now E) True)) db)"
    by (auto intro!: good_result_txn_bind)
qed

lemma example_rules_quiet: "quiet_txn (store_inv C) (insert_example_firewall_rules E)"
proof -
  have "quiet_txn (store_inv C) (\<lambda>db. insert_row rule_table (row db) db)" if "\<And>db. rc_rule C (row db)" for row
    using rules.insert_pending(2) [OF _ that] by (auto simp: quiet_txn_def pending_def)
  then show ?thesis
    unfolding insert_example_firewall_rules_def by (intro quiet_bind quiet_return) (simp_all add: example_rule)
qed

lemma example_country_quiet: "quiet_txn (store_inv C) (insert_example_geo_country_policy E)"
proof -
  let ?i = "\<lparr>gi_enabled = True, gi_country = ''CN'', gi_action = ''allow''\<rparr>"
  have "geo_country_input_of \<lparr>cg_enabled = None, cg_country = ''CN'', cg_action = ''allow''\<rparr> = Inr ?i" by code_simp
  then have "rc_country C (geo_country_active_model E ?i db)" for db by (rule country_row)
  from countries.insert_pending(2) [OF _ this] show ?thesis
    unfolding insert_example_geo_country_policy_def
    by (intro quiet_bind quiet_return) (auto simp: quiet_txn_def pending_def)
qed

lemma clear_example_quiet: "quiet_txn (store_inv C) (clear_example_policy_data n)"
  unfolding quiet_txn_def clear_example_policy_data_def pending_def store_inv_def
  by (auto simp: unique_rows_filter latest_version_def find_policy_version_def list_all_iff)

lemma seed_example_sound: "sound (seed_example_policy E)"
proof -
  have d: "quiet_txn (store_inv C) (ensure_default_dynamic_defense_exists n now)" for n now
    using default_defense_pending by (auto simp: quiet_txn_def)
  have b: "quiet_txn (store_inv C) (insert_builtin_threat_sources E n)" for n
    using builtin_sources_pending by (force simp: quiet_txn_def pending_def)
  show ?thesis
    unfolding seed_example_policy_def txn_bind_assoc
    by (intro store.quiet_sound quiet_bind clear_example_quiet example_rules_quiet example_country_quiet d b)
qed

section \<open>Configured trusted CIDRs\<close>

lemma set_trusted_pending:
  assumes i: "store_inv C db" and u: "set_trusted_enabled E en row db = Inr (k, db')"
  shows "pending (store_inv C) db db' (0 < k)"
proof (cases "tcr_enabled row = en")
  case True
  then show ?thesis using u i by (auto simp: set_trusted_enabled_def txn_return_def pending_refl)
next
  case False
  let ?f = "\<lambda>r. r\<lparr>tcr_enabled := en, tcr_updated_at := ae_now E\<rparr>"
  obtain x where x: "update_row trusted_table (tcr_id row) ?f db = Inr (x, db')" and k: "k = 1"
    using u False by (auto simp: set_trusted_enabled_def txn_bind_def txn_return_def res_simps)
  have "rc_trusted C (?f t)" if "rc_trusted C t" for t
    using trusted_change [where t = t and en = en and c = "tcr_comment t" and at = "ae_now E"] that by simp
  then have "pending (store_inv C) db db' True"
    by (intro trusted.update_pending [OF i x]) (auto simp: trusted_table_def)
  then show ?thesis by (simp add: k)
qed

lemma reconcile_pending:
  "store_inv C db \<Longrightarrow> reconcile_existing_trusted_cidrs E desired rs db = Inr (k, db') \<Longrightarrow> pending (store_inv C) db db' (0 < k)"
proof (induction rs arbitrary: db k)
  case Nil
  then show ?case by (auto simp: txn_return_def pending_refl)
next
  case (Cons r rs)
  obtain a db1 b where 1: "set_trusted_enabled E (tcr_cidr r \<in> desired) r db = Inr (a, db1)"
    and 2: "reconcile_existing_trusted_cidrs E desired rs db1 = Inr (b, db')" and k: "k = a + b"
    using Cons.prems(2) by (auto simp: txn_bind_def txn_return_def res_simps)
  have p: "pending (store_inv C) db db1 (0 < a)" by (rule set_trusted_pending [OF Cons.prems(1) 1])
  from pending_trans [OF p Cons.IH [OF pending_inv [OF p] 2]] show ?case by (simp add: k)
qed

lemma insert_missing_trusted_pending:
  "(\<And>c. c \<in> set cs \<Longrightarrow> \<forall>db. rc_trusted C (trusted_active_model E db True c (Some ''initialized from API CLI/env''))) \<Longrightarrow>
    store_inv C db \<Longrightarrow> insert_missing_trusted_cidrs E existing cs db = Inr (k, db') \<Longrightarrow> pending (store_inv C) db db' (0 < k)"
proof (induction cs arbitrary: db k)
  case Nil
  then show ?case by (auto simp: txn_return_def pending_refl)
next
  case (Cons c cs)
  show ?case
  proof (cases "c \<in> existing")
    case True
    then show ?thesis using Cons by simp
  next
    case False
    obtain x db1 j where 1: "insert_row trusted_table (trusted_active_model E db True c (Some ''initialized from API CLI/env'')) db = Inr (x, db1)"
      and 2: "insert_missing_trusted_cidrs E existing cs db1 = Inr (j, db')" and k: "k = j + 1"
      using Cons.prems(3) False by (auto simp: txn_bind_def txn_return_def res_simps)
    have "rc_trusted C (trusted_active_model E db True c (Some ''initialized from API CLI/env''))" using Cons.prems(1) by simp
    note p = trusted.insert_pending(2) [OF Cons.prems(2) this 1]
    have "pending (store_inv C) db1 db' (0 < j)"
      using Cons.prems(1) by (intro Cons.IH [OF _ pending_inv [OF p] 2]) simp
    from pending_trans [OF p this] show ?thesis by (simp add: k pending_def)
  qed
qed

lemma set_push_unique: "set (push_unique out cs) = set out \<union> set cs"
  by (induction out cs rule: push_unique.induct) auto

lemma configured_cidr_row:
  assumes "normalize_trusted_cidrs (ae_net E) (ae_text E) values = Inr cidrs" "c \<in> set cidrs"
  shows "rc_trusted C (trusted_active_model E db True c comment)"
  using assms by (auto simp: normalize_trusted_cidrs_def res_simps set_push_unique configured_row dest!: traverse_set_back)

lemma configure_trusted_sound: "sound (ensure_configured_trusted_cidrs E env_set values)"
  unfolding ensure_configured_trusted_cidrs_def
proof (rule sound_after_checks)
  fix cidrs assume n: "normalize_trusted_cidrs (ae_net E) (ae_text E) values = Inr cidrs"
  have "sound (commit (\<lambda>db. let rows = filter (in_policy trusted_table) (db_trusted_cidrs db) in
      txn_bind (reconcile_existing_trusted_cidrs E (set cidrs) rows) (\<lambda>a.
      txn_bind (insert_missing_trusted_cidrs E (set (map tcr_cidr rows)) cidrs) (\<lambda>b.
        if 0 < a + b then versioned () (ae_now E) True else (\<lambda>_. Inr (((), None), db)))) db))"
  proof (rule sound_commit)
    fix db assume i: "store_inv C db"
    have "good_result (store_inv C) db ((if 0 < a + b then versioned () (ae_now E) True else (\<lambda>_. Inr (((), None), db))) db2)"
      if 1: "reconcile_existing_trusted_cidrs E (set cidrs) rows db = Inr (a, db1)"
        and 2: "insert_missing_trusted_cidrs E names cidrs db1 = Inr (b, db2)" for rows names a db1 b db2
    proof -
      have p: "pending (store_inv C) db db1 (0 < a)" by (rule reconcile_pending [OF i 1])
      have "pending (store_inv C) db1 db2 (0 < b)"
        by (rule insert_missing_trusted_pending [OF _ pending_inv [OF p] 2]) (simp add: configured_cidr_row [OF n])
      note q = pending_trans [OF p this]
      show ?thesis
      proof (cases "0 < a + b")
        case True
        then have "pending (store_inv C) db db2 True" using q by (simp add: pending_def)
        from store.versioned_good [OF this] True show ?thesis by simp
      next
        case False
        then show ?thesis using i by (simp add: good_result_def)
      qed
    qed
    then show "good_result (store_inv C) db (let rows = filter (in_policy trusted_table) (db_trusted_cidrs db) in
      txn_bind (reconcile_existing_trusted_cidrs E (set cidrs) rows) (\<lambda>a.
      txn_bind (insert_missing_trusted_cidrs E (set (map tcr_cidr rows)) cidrs) (\<lambda>b.
        if 0 < a + b then versioned () (ae_now E) True else (\<lambda>_. Inr (((), None), db)))) db)"
      unfolding Let_def by (intro good_result_txn_bind) blast
  qed
  then show "sound (if cidrs = [] \<and> \<not> (values \<noteq> [] \<or> env_set) then \<lambda>db. (db, Inr ((), None))
      else commit (\<lambda>db. let rows = filter (in_policy trusted_table) (db_trusted_cidrs db) in
        txn_bind (reconcile_existing_trusted_cidrs E (set cidrs) rows) (\<lambda>a.
        txn_bind (insert_missing_trusted_cidrs E (set (map tcr_cidr rows)) cidrs) (\<lambda>b.
          if 0 < a + b then versioned () (ae_now E) True else (\<lambda>_. Inr (((), None), db)))) db))"
    by (simp add: sound_write_def)
qed

section \<open>Threat lists\<close>

lemma persist_changed_pending:
  assumes "store_inv C db" "fetch src = Inr ps"
  shows "pending (store_inv C) db (persist_changed J ids now (name, normalize_prefixes ps) db) True"
  using assms(1) prefix_row [OF assms(2)]
  by (simp add: pending_def persist_changed_def persist_threat_source_prefixes_def store_inv_def
      latest_version_def find_policy_version_def list_all_iff)

lemma persist_all_changed_pending:
  "(\<And>p. p \<in> set ps \<Longrightarrow> \<exists>src xs. fetch src = Inr xs \<and> snd p = normalize_prefixes xs) \<Longrightarrow> store_inv C db \<Longrightarrow>
    pending (store_inv C) db (fold (persist_changed J ids now) ps db) (ps \<noteq> [])"
proof (induction ps arbitrary: db)
  case Nil
  then show ?case by (simp add: pending_refl)
next
  case (Cons p ps)
  obtain src xs where x: "fetch src = Inr xs" "p = (fst p, normalize_prefixes xs)"
    using Cons.prems(1) [of p] by (metis list.set_intros(1) prod.collapse)
  have 1: "pending (store_inv C) db (persist_changed J ids now p db) True"
    by (subst x(2)) (rule persist_changed_pending [OF Cons.prems(2) x(1)])
  show ?case
    using pending_trans [OF 1 Cons.IH [OF _ pending_inv [OF 1]]] Cons.prems(1) by simp
qed

lemma upsert_state_pending:
  "store_inv C db \<Longrightarrow> pending (store_inv C) db (upsert_threat_source_state ids model db) False"
  by (auto simp: upsert_threat_source_state_def Let_def pending_def store_inv_def view_simps)

lemma upsert_states_pending:
  "store_inv C db \<Longrightarrow> pending (store_inv C) db (fold (upsert_threat_source_state ids) ms db) False"
proof (induction ms arbitrary: db)
  case (Cons m ms)
  note 1 = upsert_state_pending [OF Cons.prems, of ids m]
  from pending_trans [OF 1 Cons.IH [OF pending_inv [OF 1]]] show ?case by simp
qed (simp add: pending_refl)

definition batch_ok :: "threat_refresh_batch \<Rightarrow> bool" where
  "batch_ok b \<longleftrightarrow> trb_changed_source_count b = length (trb_changed b) \<and>
     (\<forall>p\<in>set (trb_changed b). \<exists>src xs. fetch src = Inr xs \<and> snd p = normalize_prefixes xs)"

lemma refresh_one_source_ok:
  assumes r: "refresh_one_source fetch known names now src b = Inr b'" and b: "batch_ok b"
  shows "batch_ok b'"
proof -
  obtain ps where f: "fetch src = Inr ps"
    using r by (auto simp: refresh_one_source_def fetch_normalized_source_prefixes_def res_simps)
  let ?ps = "normalize_prefixes ps"
  let ?changed = "threat_source_changed src (threat_prefix_fingerprint ?ps) known names"
  have "trb_changed b' = (if ?changed then trb_changed b @ [(ts_name src, ?ps)] else trb_changed b) \<and>
      trb_changed_source_count b' = (if ?changed then trb_changed_source_count b + 1 else trb_changed_source_count b)"
    using r f by (auto simp: refresh_one_source_def fetch_normalized_source_prefixes_def Let_def mapE_Inr_iff)
  then show ?thesis using b f by (cases ?changed) (fastforce simp: batch_ok_def)+
qed

lemma refresh_sources_ok: "refresh_sources fetch known names now srcs b = Inr b' \<Longrightarrow> batch_ok b \<Longrightarrow> batch_ok b'"
proof (induction srcs arbitrary: b)
  case (Cons s ss)
  then obtain b1 where "refresh_one_source fetch known names now s b = Inr b1"
    "refresh_sources fetch known names now ss b1 = Inr b'" by (auto simp: res_simps)
  then show ?case using Cons refresh_one_source_ok by blast
qed simp

lemma persist_batch_sound:
  assumes "batch_ok b"
  shows "sound (\<lambda>db. (persist_threat_refresh_batch J ids now b db, x))"
  unfolding sound_write_def
proof (intro allI impI)
  fix db assume i: "store_inv C db"
  let ?db1 = "fold (persist_changed J ids (trb_checked_at b)) (trb_changed b) db"
  let ?db2 = "fold (upsert_threat_source_state ids) (trb_states b) ?db1"
  have 1: "pending (store_inv C) db ?db1 (trb_changed b \<noteq> [])"
    using assms by (intro persist_all_changed_pending [OF _ i]) (simp add: batch_ok_def)
  have p: "pending (store_inv C) db ?db2 (trb_changed b \<noteq> [])"
    using pending_trans [OF 1 upsert_states_pending [OF pending_inv [OF 1]]] by simp
  have "store_inv C (fst (bump now ?db2))" using pending_inv [OF p] by (rule store_inv_bump)
  then show "store_inv C (fst (persist_threat_refresh_batch J ids now b db, x)) \<and>
      versioned_write db (fst (persist_threat_refresh_batch J ids now b db, x))"
    using p assms bump_version(1) [of now ?db2]
    by (auto simp: persist_threat_refresh_batch_def Let_def pending_def versioned_write_def batch_ok_def)
qed

lemma threat_refresh_sound: "sound (refresh_enabled_threat_sources J ids fetch acquired now dbs)"
proof -
  have "batch_ok b" if "refresh_threat_source_batch fetch sources known names now = Inr b" for sources known names b
    using that unfolding refresh_threat_source_batch_def by (rule refresh_sources_ok) (simp add: batch_ok_def)
  note persist = persist_batch_sound [OF this, unfolded sound_write_def fst_conv]
  show ?thesis
    unfolding sound_write_def refresh_enabled_threat_sources_def
    by (auto split: sum.split simp: persist)
qed

section \<open>Country lists\<close>

lemma untouched_view:
  assumes "store_inv C db"
  shows "store_inv C (db\<lparr>db_geo_list_states := ls\<rparr>) \<and> versioned_write db (db\<lparr>db_geo_list_states := ls\<rparr>)"
    "store_inv C (db\<lparr>db_geo_catalog := cat\<rparr>) \<and> versioned_write db (db\<lparr>db_geo_catalog := cat\<rparr>)"
    "store_inv C (db\<lparr>db_nodes := ns\<rparr>) \<and> versioned_write db (db\<lparr>db_nodes := ns\<rparr>)"
  using assms by (simp_all add: store_inv_def versioned_write_def view_simps)

lemma replacement_sound: "sound (persist_geo_prefix_replacement ids now g)"
  unfolding sound_write_def
proof (intro allI impI)
  fix db assume i: "store_inv C db"
  let ?u = "geo_ip_list_state_updated_at True (grp_existing_updated_at g) (grp_now g)"
  let ?db1 = "replace_geo_ip_prefix_row ids (grp_country g) (grp_cidrs_json g) (grp_now g) db"
  have 1: "store_inv C (upsert_geo_ip_list_state ids g u db') \<and> latest_version (upsert_geo_ip_list_state ids g u db') = latest_version db'"
    if "store_inv C db'" for u db'
    using that by (simp add: upsert_geo_ip_list_state_def store_inv_def latest_version_def find_policy_version_def)
  have 2: "store_inv C ?db1 \<and> latest_version ?db1 = latest_version db"
    using i by (simp add: replace_geo_ip_prefix_row_def store_inv_def latest_version_def find_policy_version_def)
  have 3: "versioned_write db (upsert_geo_ip_list_state ids g u db)" for u
    using untouched_view(1) [OF i] by (simp add: upsert_geo_ip_list_state_def)
  have 4: "store_inv C (fst (bump now (upsert_geo_ip_list_state ids g ?u ?db1)))"
    "latest_version (fst (bump now (upsert_geo_ip_list_state ids g ?u ?db1))) = latest_version db + 1"
    using 1 [of ?db1 ?u] 2 bump_version(1) [of now] by (auto intro: store_inv_bump)
  show "store_inv C (fst (persist_geo_prefix_replacement ids now g db)) \<and>
      versioned_write db (fst (persist_geo_prefix_replacement ids now g db))"
    using 1 [OF i] 3 4 by (auto simp: persist_geo_prefix_replacement_def Let_def versioned_write_def geo_ip_list_state_updated_at_def)
qed

lemma touch_sound:
  "store_inv C db \<Longrightarrow> touch_existing_geo_ip_state now existing m db = Inr db' \<Longrightarrow> store_inv C db' \<and> versioned_write db db'"
  using untouched_view(1) by (auto simp: touch_existing_geo_ip_state_def split: option.splits if_splits)

lemma refresh_country_sound: "sound (refresh_one_country N T J' client ids now seen country)"
proof -
  have r: "store_inv C db' \<and> versioned_write db db'" if "store_inv C db" "persist_geo_prefix_replacement ids now g db = (db', x)" for g db db' x
    using replacement_sound [of ids now g] that by (force simp: sound_write_def)
  show ?thesis
    unfolding sound_write_def refresh_one_country_def Let_def
    by (auto split: option.split sum.split prod.split dest: r touch_sound)
qed

lemma catalog_entry_sound:
  "store_inv C db \<Longrightarrow> store_inv C (upsert_country_catalog_entry next_id now e db) \<and>
     versioned_write db (upsert_country_catalog_entry next_id now e db)"
  using untouched_view(2) by (auto simp: upsert_country_catalog_entry_def Let_def split: option.split)

section \<open>Nodes\<close>

lemma heartbeat_sound: "sound (upsert_heartbeat now r)"
  unfolding sound_write_def upsert_heartbeat_def upsert_node_def
  using untouched_view(3) by (auto split: sum.split)

lemma maintain_nodes_sound: "sound (maintain_nodes now max_age)"
  unfolding sound_write_def maintain_nodes_def prune_unhealthy_nodes_def Let_def
  using untouched_view(3) by (auto split: sum.split)

end

section \<open>Every writer\<close>

text \<open>
  One committed write of a control-plane process. A country refresh is the write of one country, a
  catalog refresh the upsert of one entry: each is its own statement or transaction in the code. The
  clock of a write is in its environment.
\<close>

record write_env =
  we_api :: api_env
  we_json :: json_lib
  we_http :: "string \<Rightarrow> http_response res"
  we_geo :: geo_client
  we_refresh_ids :: refresh_ids
  we_geo_ids :: geo_ids

abbreviation we_fetch :: "write_env \<Rightarrow> threat_source \<Rightarrow> threat_prefix list res" where
  "we_fetch W \<equiv> fetch_threat_source_prefixes (ae_net (we_api W)) (ae_text (we_api W)) (we_json W)
     (ae_url_scheme (we_api W)) (we_http W)"

datatype control_write =
    ApiWrite firewall_db api_request
  | CleanupBans
  | ThreatWrite bool "nat \<Rightarrow> firewall_db"
  | CountryWrite firewall_db string
  | CatalogWrite ipdeny_index_entry
  | SeedBuiltin
  | SeedExample
  | TrustedFromEnv bool "string list"
  | HeartbeatWrite heartbeat_request
  | MaintainWrite "i64 option"

fun control_step :: "write_env \<Rightarrow> control_write \<Rightarrow> firewall_db \<Rightarrow> firewall_db" where
  "control_step W (ApiWrite seen req) db = api_step (we_api W) seen req db"
| "control_step W CleanupBans db = fst (cleanup_expired_temp_bans (ae_now (we_api W)) db)"
| "control_step W (ThreatWrite acquired dbs) db =
     fst (refresh_enabled_threat_sources (we_json W) (we_refresh_ids W) (we_fetch W) acquired (ae_now (we_api W)) dbs db)"
| "control_step W (CountryWrite seen country) db =
     fst (refresh_one_country (ae_net (we_api W)) (ae_text (we_api W)) (we_json W) (we_geo W) (we_geo_ids W)
       (ae_now (we_api W)) seen country db)"
| "control_step W (CatalogWrite e) db = upsert_country_catalog_entry (gid_catalog (we_geo_ids W)) (ae_now (we_api W)) e db"
| "control_step W SeedBuiltin db = fst (ensure_builtin_policy (we_api W) db)"
| "control_step W SeedExample db = fst (seed_example_policy (we_api W) db)"
| "control_step W (TrustedFromEnv env_set values) db = fst (ensure_configured_trusted_cidrs (we_api W) env_set values db)"
| "control_step W (HeartbeatWrite r) db = fst (upsert_heartbeat (ae_now (we_api W)) r db)"
| "control_step W (MaintainWrite age) db = fst (maintain_nodes (ae_now (we_api W)) age db)"

text \<open>The writes of any number of processes, in the order the database commits them.\<close>

fun control_run :: "(nat \<Rightarrow> write_env) \<Rightarrow> (nat \<Rightarrow> control_write) \<Rightarrow> firewall_db \<Rightarrow> nat \<Rightarrow> firewall_db" where
  "control_run W w db 0 = db"
| "control_run W w db (Suc k) = control_step (W k) (w k) (control_run W w db k)"

lemma control_step_sound:
  assumes "writer_checks C (we_api W) (we_json W) (we_fetch W)" "store_inv C db"
  shows "store_inv C (control_step W w db) \<and> versioned_write db (control_step W w db)"
proof -
  note wc = assms(1)
  note ac = wc [THEN writer_checks.axioms(1)]
  note sounds = api_checks.cleanup_sound [OF ac] writer_checks.threat_refresh_sound [OF wc]
    writer_checks.refresh_country_sound [OF wc] writer_checks.ensure_builtin_sound [OF wc]
    writer_checks.seed_example_sound [OF wc] writer_checks.configure_trusted_sound [OF wc]
    writer_checks.heartbeat_sound [OF wc] writer_checks.maintain_nodes_sound [OF wc]
  show ?thesis
    using api_checks.api_step_sound [OF ac assms(2)] writer_checks.catalog_entry_sound [OF wc assms(2)]
      sounds [unfolded sound_write_def] assms(2)
    by (cases w) simp_all
qed

lemma control_run_sound:
  assumes "\<And>k. writer_checks C (we_api (W k)) (we_json (W k)) (we_fetch (W k))" "store_inv C db"
  shows "store_inv C (control_run W w db k)"
  by (induction k) (simp_all add: assms control_step_sound)

lemma control_run_versioned:
  assumes "\<And>k. writer_checks C (we_api (W k)) (we_json (W k)) (we_fetch (W k))" "store_inv C db"
  shows "versioned_write (control_run W w db k) (control_run W w db (Suc k))"
  using control_step_sound [OF assms(1) control_run_sound [OF assms]] by simp

end
