(* ===== verification/Api_Loadable.thy ===== *)
theory Api_Loadable
  imports Api_Store Paged_Policy
begin

text \<open>
  What the API writes can be read back: every row it inserts or changes passes the parser of the policy
  load, so a load from the store can only fail on rows something else put there.
\<close>

section \<open>Rows that parse\<close>

definition row_ok :: "('r \<Rightarrow> string) \<Rightarrow> ('r \<Rightarrow> 'a res) \<Rightarrow> 'r \<Rightarrow> bool" where
  "row_ok policy parse r \<longleftrightarrow> policy r = default_policy_name \<longrightarrow> \<not> isl (parse r)"

definition parse_defense_ok :: "dynamic_defense_row \<Rightarrow> unit res" where
  "parse_defense_ok r = bindE (parse_dynamic_defense r) validate_dynamic_defense_policy"

definition parse_checks :: "ipnet_lib \<Rightarrow> net_text \<Rightarrow> json_lib \<Rightarrow> row_checks" where
  "parse_checks N T J =
     \<lparr>rc_rule = row_ok frr_policy_name (parse_rule T),
      rc_country = row_ok gcr_policy_name parse_geo_country_policy,
      rc_limit = row_ok drr_policy_name parse_dynamic_rate_limit,
      rc_ban = row_ok tbr_policy_name (parse_temp_ban T),
      rc_trusted = row_ok tcr_policy_name (parse_trusted_cidr T),
      rc_source = row_ok tsr_policy_name threat_source_try_from,
      rc_defense = row_ok ddr_policy_name parse_defense_ok,
      rc_prefixes = row_ok tpr_policy_name (persisted_prefixes N T J)\<rparr>"

definition no_checks :: row_checks where
  "no_checks =
     \<lparr>rc_rule = (\<lambda>_. True), rc_country = (\<lambda>_. True), rc_limit = (\<lambda>_. True), rc_ban = (\<lambda>_. True),
      rc_trusted = (\<lambda>_. True), rc_source = (\<lambda>_. True), rc_defense = (\<lambda>_. True), rc_prefixes = (\<lambda>_. True)\<rparr>"

interpretation plain: api_checks no_checks E for E
  by unfold_locales (simp_all add: no_checks_def)

lemma row_okI: "(\<exists>x. parse r = Inr x) \<Longrightarrow> row_ok policy parse r"
  by (auto simp: row_ok_def)

lemma normalized_cidr_parses:
  assumes N: "ipnet_spec N" and T: "net_text_spec T" and "normalize_cidr N T v = Inr c"
  shows "\<exists>n. parse_cidr T c = Inr n"
proof -
  obtain n where n: "parse_cidr T (trim v) = Inr n" "c = cidr_text (net_network N n) (net_prefix_len n)"
    using assms(3) by (auto simp: normalize_cidr_def Let_def res_simps split: if_splits)
  have "valid_net n" by (rule parsed_cidr_valid [OF T n(1)])
  then have "unat (net_prefix_len n) \<le> ip_width (net_network N n)"
    using ipnet_spec.network_width [OF N] by (simp add: valid_net_def)
  then show ?thesis using net_text_spec.parse_show [OF T] by (simp add: n(2) parse_cidr_def)
qed

lemma normalized_action_parses: "normalize_action v = Inr a \<Longrightarrow> \<exists>x. parse_action a = Inr x"
  by (auto simp: normalize_action_def parse_action_def Let_def to_lower_def ascii_lower_def split: if_splits)

lemma normalized_protocol_parses: "normalize_protocol v = Inr p \<Longrightarrow> \<exists>x. parse_protocol p = Inr x"
  by (auto simp: normalize_protocol_def parse_protocol_def Let_def to_lower_def ascii_lower_def split: if_splits)

lemma valid_port_parses: "valid_port_number p \<Longrightarrow> \<exists>x. parse_optional_port (Some p) l = Inr x"
  by (auto simp: valid_port_number_def parse_optional_port_def split: option.splits)

lemma validated_port_parses:
  "validate_port pr v = Inr p \<Longrightarrow> \<exists>x. parse_optional_port p l = Inr x"
  "validate_dynamic_rate_port q v = Inr p \<Longrightarrow> \<exists>x. parse_optional_port p l = Inr x"
  using valid_port_parses
  by (fastforce simp: validate_port_def validate_dynamic_rate_port_def parse_optional_port_def Let_def
      split: option.splits if_splits)+

lemma icmp_text: "normalize_protocol v = Inr p \<Longrightarrow> parse_protocol p = Inr Icmp \<Longrightarrow> p = ''icmp''"
  by (auto simp: normalize_protocol_def parse_protocol_def Let_def to_lower_def ascii_lower_def split: if_splits)

lemma icmp_no_port: "validate_dynamic_rate_port ''icmp'' v = Inr p \<Longrightarrow> p = None"
  by (auto simp: validate_dynamic_rate_port_def split: option.splits if_splits)

section \<open>The rows of the API\<close>

lemma positive_i32_word: "0 < sint (v :: i32) \<Longrightarrow> v \<noteq> 0"
  by auto

lemma api_rule_parses:
  assumes "ipnet_spec (ae_net E)" "net_text_spec (ae_text E)" "rule_input_of E r = Inr i"
  shows "\<exists>x. parse_rule (ae_text E) (rule_active_model E db i) = Inr x"
proof -
  have "\<exists>a. parse_action (ri_action i) = Inr a" "\<exists>n. parse_cidr (ae_text E) (ri_cidr i) = Inr n"
    "\<exists>p. parse_optional_port (ri_port i) l = Inr p" "\<exists>p. transposeE parse_protocol (ri_protocol i) = Inr p" for l
    using assms(3) normalized_action_parses normalized_cidr_parses [OF assms(1,2)] validated_port_parses(1)
      normalized_protocol_parses
    by (auto simp: rule_input_of_def res_simps) (case_tac "cr_protocol r"; force simp: res_simps)
  then obtain a n q p where "parse_action (ri_action i) = Inr a" "parse_cidr (ae_text E) (ri_cidr i) = Inr n"
    "parse_optional_port (ri_port i) ''firewall rule port'' = Inr q" "transposeE parse_protocol (ri_protocol i) = Inr p"
    by blast
  then show ?thesis by (simp add: parse_rule_def rule_active_model_def)
qed

lemma api_limit_parses:
  assumes "rate_limit_input_of r = Inr i"
  shows "\<exists>x. parse_dynamic_rate_limit (limit_active_model E i db) = Inr x"
proof -
  have i: "normalize_protocol (cl_protocol r) = Inr (li_protocol i)"
    "validate_dynamic_rate_port (li_protocol i) (cl_port r) = Inr (li_port i)"
    "0 < sint (li_packets_per_second i)" "0 < sint (li_burst i)"
    using assms by (auto simp: rate_limit_input_of_def res_simps validate_positive_i32_def split: if_splits)
  obtain p q where p: "parse_protocol (li_protocol i) = Inr p" "parse_optional_port (li_port i) ''dynamic rate limit port'' = Inr q"
    using normalized_protocol_parses [OF i(1)] validated_port_parses(2) [OF i(2)] by blast
  have "p = Icmp \<Longrightarrow> q = None"
    using icmp_text [OF i(1)] p icmp_no_port i(2) by (force simp: parse_optional_port_def)
  moreover have "i32_to_u32 l (li_packets_per_second i) = Inr (li_packets_per_second i)"
    "i32_to_u32 l (li_burst i) = Inr (li_burst i)" for l
    using i(3,4) by (simp_all add: i32_to_u32_Inr_iff)
  ultimately show ?thesis
    using p i(3,4) positive_i32_word
    by (simp add: parse_dynamic_rate_limit_def limit_active_model_def Let_def mapE_Inr_iff validate_rate_limit_iff word_neq_0_conv)
qed

lemma api_ban_parses:
  assumes "ipnet_spec (ae_net E)" "net_text_spec (ae_text E)" "ban_active_model E r = Inr m"
  shows "\<exists>x. parse_temp_ban (ae_text E) (m k) = Inr x"
proof -
  obtain proto cidr port expires where m: "m = (\<lambda>i. \<lparr>tbr_id = i, tbr_policy_name = default_policy_name, tbr_cidr = cidr,
      tbr_protocol = unwrap_or ''any'' proto, tbr_port = port, tbr_expires_at = expires, tbr_comment = cb_comment r,
      tbr_created_at = ae_now E\<rparr>)"
    and c: "normalize_cidr (ae_net E) (ae_text E) (cb_cidr r) = Inr cidr"
    and p: "transposeE normalize_protocol (cb_protocol r) = Inr proto"
    and q: "validate_dynamic_rate_port (unwrap_or ''any'' proto) (cb_port r) = Inr port"
    using assms(3) by (auto simp: ban_active_model_def Let_def res_simps split: if_splits)
  have "normalize_protocol (unwrap_or ''any'' (cb_protocol r)) = Inr (unwrap_or ''any'' proto)"
    using p by (cases "cb_protocol r") (auto simp: res_simps normalize_protocol_def to_lower_def ascii_lower_def)
  note pr = normalized_protocol_parses [OF this] icmp_text [OF this]
  obtain n x y where n: "parse_cidr (ae_text E) cidr = Inr n" "parse_protocol (unwrap_or ''any'' proto) = Inr x"
    "parse_optional_port port ''temporary ban port'' = Inr y"
    using normalized_cidr_parses [OF assms(1,2) c] pr(1) validated_port_parses(2) [OF q] by blast
  have "x = Icmp \<Longrightarrow> y = None" using pr(2) n icmp_no_port q by (force simp: parse_optional_port_def)
  then show ?thesis using n by (simp add: parse_temp_ban_def m Let_def mapE_Inr_iff validate_temp_ban_iff)
qed

lemma api_source_parses:
  assumes "threat_source_input_of E r = Inr i"
  shows "\<exists>x. threat_source_try_from (source_active_model E db i) = Inr x"
proof -
  have "\<exists>f. parse_format (si_format i) = Inr f"
    using assms
    by (auto simp: threat_source_input_of_def res_simps normalize_threat_format_def parse_format_def Let_def
        to_lower_def ascii_lower_def split: if_splits)
  moreover have "\<exists>m. optional_i32_to_u32 l (si_min_score i) = Inr m" for l
    using assms
    by (auto simp: threat_source_input_of_def res_simps validate_optional_non_negative_def optional_i32_to_u32_def
        i32_to_u32_Inr_iff split: option.splits if_splits)
  ultimately obtain f m where "parse_format (si_format i) = Inr f" "optional_i32_to_u32 ''threat min_score'' (si_min_score i) = Inr m"
    by blast
  then show ?thesis by (simp add: threat_source_try_from_def source_active_model_def)
qed

lemma saved_defense_parses:
  assumes "set_dynamic_defense_fields row d = Inr row'" "validate_dynamic_defense_policy d = Inr ()"
  shows "\<exists>x. parse_defense_ok (row'\<lparr>ddr_updated_at := at\<rparr>) = Inr x"
proof -
  obtain a b c e f where s: "optional_u32_to_i32 ''ip_packets_per_second'' (dd_ip_packets_per_second d) = Inr a"
    "optional_u32_to_i32 ''ip_burst'' (dd_ip_burst d) = Inr b"
    "optional_u32_to_i32 ''flood_packets_per_second'' (dd_flood_packets_per_second d) = Inr c"
    "optional_u32_to_i32 ''flood_burst'' (dd_flood_burst d) = Inr e"
    "optional_u32_to_i32 ''flood_block_seconds'' (dd_flood_block_seconds d) = Inr f"
    and r: "row' = row\<lparr>ddr_enabled := dd_enabled d, ddr_ip_rate_limit_enabled := dd_ip_rate_limit_enabled d,
              ddr_ip_packets_per_second := a, ddr_ip_burst := b, ddr_flood_enabled := dd_flood_enabled d,
              ddr_flood_packets_per_second := c, ddr_flood_burst := e, ddr_flood_block_seconds := f\<rparr>"
    using assms(1) by (auto simp: set_dynamic_defense_fields_def res_simps)
  have "parse_dynamic_defense (row'\<lparr>ddr_updated_at := at\<rparr>) = Inr d"
    using s [THEN optional_scalar_roundtrip] by (simp add: parse_dynamic_defense_def r)
  then show ?thesis using assms(2) by (simp add: parse_defense_ok_def)
qed

lemma api_checks_parse:
  assumes N: "ipnet_spec (ae_net E)" and T: "net_text_spec (ae_text E)"
  shows "api_checks (parse_checks (ae_net E) (ae_text E) J) E"
proof unfold_locales
  let ?C = "parse_checks (ae_net E) (ae_text E) J"
  show "rule_input_of E r = Inr i \<Longrightarrow> rc_rule ?C (rule_active_model E db i)" for r i db
    using api_rule_parses [OF N T] by (simp add: parse_checks_def row_okI)
  show "geo_country_input_of g = Inr gi \<Longrightarrow> rc_country ?C (geo_country_active_model E gi db)" for g gi db
    using normalized_action_parses normalize_country_idem
    by (force simp: parse_checks_def geo_country_input_of_def geo_country_active_model_def parse_geo_country_policy_def res_simps
        intro!: row_okI)
  show "rate_limit_input_of l = Inr li \<Longrightarrow> rc_limit ?C (limit_active_model E li db)" for l li db
    using api_limit_parses by (simp add: parse_checks_def row_okI)
  show "ban_active_model E b = Inr m \<Longrightarrow> rc_ban ?C (m k)" for b m k
    using api_ban_parses [OF N T] by (simp add: parse_checks_def row_okI)
  show "normalize_cidr (ae_net E) (ae_text E) v = Inr cidr \<Longrightarrow> rc_trusted ?C (trusted_active_model E db en cidr c)" for v cidr db en c
    using normalized_cidr_parses [OF N T]
    by (force simp: parse_checks_def trusted_active_model_def parse_trusted_cidr_def intro!: row_okI)
  show "rc_trusted ?C t \<Longrightarrow> rc_trusted ?C (t\<lparr>tcr_enabled := en, tcr_comment := c, tcr_updated_at := at\<rparr>)" for t en c at
    by (cases "parse_cidr (ae_text E) (tcr_cidr t)") (auto simp: parse_checks_def row_ok_def parse_trusted_cidr_def)
  show "threat_source_input_of E s = Inr si \<Longrightarrow> rc_source ?C (source_active_model E db si)" for s si db
    using api_source_parses by (simp add: parse_checks_def row_okI)
  show "rc_source ?C src \<Longrightarrow> rc_source ?C (src\<lparr>tsr_enabled := en, tsr_updated_at := at\<rparr>)" for src en at
    by (auto simp: parse_checks_def row_ok_def threat_source_try_from_def)
  show "rc_defense ?C (row'\<lparr>ddr_updated_at := at\<rparr>)" if "dynamic_defense_policy_from_request u = Inr d"
      "validate_dynamic_defense_policy d = Inr ()" "set_dynamic_defense_fields row d = Inr row'" for u d row row' at
    using saved_defense_parses [OF that(3,2)] by (simp add: parse_checks_def row_okI)
qed

section \<open>Loading a store that passes the checks\<close>

lemma traverse_row_ok:
  assumes "list_all (row_ok policy parse) rows" "\<And>r. r \<in> set rs \<Longrightarrow> r \<in> set rows \<and> policy r = default_policy_name"
  shows "\<exists>ys. traverse parse rs = Inr ys"
proof -
  have "\<nexists>e. traverse parse rs = Inl e"
    unfolding traverse_fails_iff using assms by (force simp: list_all_iff row_ok_def)
  then show ?thesis by (cases "traverse parse rs") auto
qed

lemma geo_prefixes_load:
  assumes N: "ipnet_spec N" and T: "net_text_spec T" and cs: "\<forall>c\<in>set cs. normalize_country c = Inr c"
  shows "\<exists>gs. load_geo_prefixes N T J db cs include = Inr gs"
proof (cases "include")
  case True
  have c: "\<exists>k. encode_country c = Inr k \<and> decode_country k = Inr c" if "c \<in> set cs" for c
    using encode_normalized [of c c] decode_encode [of c] cs that by force
  have net: "\<exists>g. parse_geo_prefix N (geo_prefix_from_net N n k) = Inr g"
    if n: "n \<in> set (fst (for_each_persisted_cidr T J row))" and k: "decode_country k = Inr d" for n row k d
  proof -
    obtain e where "nt_parse T e = Some n"
      using n by (auto simp: for_each_persisted_cidr_def Let_def split: prod.splits dest!: set_takeWhileD)
    then have v: "valid_net n" by (rule net_text_spec.parse_valid [OF T])
    then have "unat (net_prefix_len n) \<le> ip_width (net_network N n)"
      using ipnet_spec.network_width [OF N v] by (simp add: valid_net_def)
    then show ?thesis
      using k by (simp add: parse_geo_prefix_def geo_prefix_to_ipnet_def geo_prefix_from_net_def ipnet_spec.new_eq [OF N])
  qed
  have one: "\<exists>ps. country_prefixes N T J db c = Inr ps \<and> (\<forall>p\<in>set ps. \<exists>g. parse_geo_prefix N p = Inr g)" if "c \<in> set cs" for c
    using c [OF that] cs that net by (fastforce simp: country_prefixes_def split: option.splits)
  have "\<nexists>e. traverse (country_prefixes N T J db) cs = Inl e"
    unfolding traverse_fails_iff using one by force
  then obtain pss where pss: "traverse (country_prefixes N T J db) cs = Inr pss"
    by (cases "traverse (country_prefixes N T J db) cs") auto
  have "\<nexists>e. traverse (parse_geo_prefix N) (concat pss) = Inl e"
    unfolding traverse_fails_iff using traverse_set_back [OF pss] one by fastforce
  then show ?thesis
    using True pss by (cases "traverse (parse_geo_prefix N) (concat pss)") (auto simp: load_geo_prefixes_def load_persisted_geo_prefixes_def)
next
  case False
  then show ?thesis by (simp add: load_geo_prefixes_def)
qed

lemma store_loads:
  assumes N: "ipnet_spec N" and T: "net_text_spec T" and i: "\<And>k. store_inv (parse_checks N T J) (dbs k)"
  shows "\<exists>s. load_policy_with_geo_prefixes N T J now dbs default_policy_name include = Inr s"
proof -
  note row = i [unfolded store_inv_def parse_checks_def, simplified]
  obtain rules where 1: "load_firewall_rules T (dbs 1) default_policy_name = Inr rules"
    unfolding load_firewall_rules_def using row [of 1] by (elim conjE exE, atomize_elim) (rule traverse_row_ok; auto)
  obtain gcs where 2: "load_geo_countries (dbs 2) default_policy_name = Inr gcs"
    unfolding load_geo_countries_def using row [of 2] by (elim conjE exE, atomize_elim) (rule traverse_row_ok; auto)
  have "\<forall>c\<in>set (map gc_country gcs). normalize_country c = Inr c"
    using 2 [unfolded load_geo_countries_def] normalize_country_idem
    by (auto simp: parse_geo_country_policy_def res_simps dest!: traverse_set_back)
  then obtain gps where 3: "load_geo_prefixes N T J (dbs 3) (map gc_country gcs) include = Inr gps"
    using geo_prefixes_load [OF N T] by blast
  obtain tss where 4: "load_threat_sources (dbs 4) default_policy_name = Inr tss"
    unfolding load_threat_sources_def using row [of 4] by (elim conjE exE, atomize_elim) (rule traverse_row_ok; auto)
  have "\<exists>pss. traverse (persisted_prefixes N T J) (order_by tpr_source_name (filter (\<lambda>r. tpr_policy_name r = default_policy_name \<and>
        tpr_source_name r \<in> set (map ts_name tss)) (db_threat_prefixes (dbs 5)))) = Inr pss"
    using row [of 5] by (elim conjE) (rule traverse_row_ok; auto)
  then have "\<exists>tps. load_persisted_threat_prefixes N T J (dbs 5) default_policy_name (map ts_name tss) = Inr tps"
    by (elim exE) (simp add: load_persisted_threat_prefixes_def del: set_map)
  then obtain tps where 5: "load_persisted_threat_prefixes N T J (dbs 5) default_policy_name (map ts_name tss) = Inr tps"
    by blast
  obtain d where 6: "load_dynamic_defense (dbs 6) default_policy_name = Inr d"
  proof (cases "find (\<lambda>r. ddr_policy_name r = default_policy_name) (db_dynamic_defense (dbs 6))")
    case None
    then show ?thesis using that default_dynamic_defense_ok
      by (simp add: load_dynamic_defense_def validate_dynamic_defense_iff [symmetric])
  next
    case (Some r)
    then have "r \<in> set (db_dynamic_defense (dbs 6))" "ddr_policy_name r = default_policy_name"
      by (auto simp: find_Some_iff)
    then have "\<not> isl (parse_defense_ok r)" using row [of 6] by (auto simp: list_all_iff row_ok_def)
    then obtain p where "parse_dynamic_defense r = Inr p" "validate_dynamic_defense_policy p = Inr ()"
      by (cases "parse_dynamic_defense r"; cases "parse_defense_ok r") (auto simp: parse_defense_ok_def)
    then show ?thesis using that Some by (simp add: load_dynamic_defense_def Let_def)
  qed
  obtain ls where 7: "load_dynamic_rate_limits (dbs 7) default_policy_name = Inr ls"
    unfolding load_dynamic_rate_limits_def using row [of 7] by (elim conjE exE, atomize_elim) (rule traverse_row_ok; auto)
  obtain bans where 8: "load_active_temp_bans T now (dbs 8) default_policy_name = Inr bans"
    unfolding load_active_temp_bans_def using row [of 8] by (elim conjE exE, atomize_elim) (rule traverse_row_ok; auto)
  obtain trs where 9: "load_trusted_cidrs T (dbs 9) default_policy_name = Inr trs"
    unfolding load_trusted_cidrs_def using row [of 9] by (elim conjE exE, atomize_elim) (rule traverse_row_ok; auto)
  show ?thesis by (simp add: load_policy_with_geo_prefixes_def Let_def 1 [simplified] 2 3 [simplified] 4 5 [simplified] 6 7 8 9)
qed

lemma store_snapshot_loads:
  assumes "ipnet_spec (cr_net K)" "net_text_spec (cr_text K)" "\<And>k. store_inv (parse_checks (cr_net K) (cr_text K) (cr_json K)) (dbs k)"
  shows "\<exists>s. load_policy_snapshot K now dbs r external = Inr s"
proof -
  obtain s where "load_policy_with_geo_prefixes (cr_net K) (cr_text K) (cr_json K) now dbs default_policy_name (\<not> external) = Inr s"
    using store_loads [where dbs = dbs, OF assms] by blast
  then show ?thesis
    by (cases external) (simp_all add: load_policy_snapshot_def load_policy_def load_policy_without_geo_prefixes_def)
qed

end
