(* ===== verification/Store_History.thy ===== *)
theory Store_History
  imports Store_Writers Api_Loadable
begin

text \<open>
  Histories of the store: whatever the writers are, the version orders the changes a load can see, and
  a store that starts out loadable stays loadable. The JSON crate is only used for the text
  it wrote itself.
\<close>

section \<open>Downloaded prefixes are canonical\<close>

lemma parse_utf8_line_all:
  assumes "\<And>l x. parse_line l = Inr (Some x) \<Longrightarrow> P x" "parse_utf8_line label parse_line line parsed = Inr ys" "list_all P parsed"
  shows "list_all P ys"
  using assms by (auto simp: parse_utf8_line_def res_simps split: if_splits option.splits)

lemma drain_complete_lines_all:
  "(\<And>l x. parse_line l = Inr (Some x) \<Longrightarrow> P x) \<Longrightarrow> drain_complete_lines label parse_line carry parsed = Inr (c, ys) \<Longrightarrow>
    list_all P parsed \<Longrightarrow> list_all P ys"
proof (induction label parse_line carry parsed arbitrary: c ys rule: drain_complete_lines.induct)
  case (1 label parse_line carry parsed)
  show ?case
  proof (cases "newline \<in> set carry")
    case False
    then show ?thesis using 1(3,4) by (subst (asm) drain_complete_lines.simps) simp
  next
    case True
    let ?line = "takeWhile (\<lambda>c. c \<noteq> newline) carry @ [newline]" and ?carry = "tl (dropWhile (\<lambda>c. c \<noteq> newline) carry)"
    obtain parsed1 where p: "parse_utf8_line label parse_line (trim_line_ending ?line) parsed = Inr parsed1"
      and d: "drain_complete_lines label parse_line ?carry parsed1 = Inr (c, ys)"
      using 1(3) True by (subst (asm) drain_complete_lines.simps) (auto simp: Let_def res_simps)
    show ?thesis
      by (rule 1(1) [OF _ refl refl _ d]) (use True parse_utf8_line_all [OF 1(2) p 1(4)] 1(2) in auto)
  qed
qed

lemma read_limited_lines_all:
  assumes l: "\<And>l x. parse_line l = Inr (Some x) \<Longrightarrow> P x" and r: "read_limited_lines resp max_bytes label parse_line = Inr ys"
  shows "list_all P ys"
proof -
  have chunks: "read_line_chunks max_bytes label parse_line n carry parsed rs = Inr (c, zs) \<Longrightarrow> list_all P parsed \<Longrightarrow> list_all P zs"
    for n carry parsed rs c zs
  proof (induction rs arbitrary: n carry parsed)
    case (Cons r rs)
    then show ?case
      using drain_complete_lines_all [where P = P, OF l] by (auto simp: Let_def res_simps split: if_splits)
  qed simp
  show ?thesis
    using r by (auto simp: read_limited_lines_def res_simps parse_remaining_line_def
        intro: parse_utf8_line_all [where P = P, OF l] dest!: chunks split: if_splits)
qed

lemma collect_json_all:
  "(\<And>s p. parse_prefix N T s = Inr p \<Longrightarrow> P p) \<Longrightarrow> list_all P ps \<Longrightarrow> list_all P (collect_json_cidrs N T v ps)"
proof (induction N T v ps rule: collect_json_cidrs.induct)
  case (1 N T vs ps)
  have "set us \<subseteq> set vs \<Longrightarrow> list_all P qs \<Longrightarrow> list_all P (foldl (\<lambda>ps v. collect_json_cidrs N T v ps) qs us)" for us qs
    using 1 by (induction us arbitrary: qs) auto
  then show ?case using 1 by simp
qed (auto split: option.split json.split sum.split)

lemma lenient_lines_all:
  assumes "\<And>s p. parse_prefix N T s = Inr p \<Longrightarrow> P p"
  shows "parse_lenient_line_prefix N T l = Some p \<Longrightarrow> P p" "parse_lenient_ipsum_line N T l m = Some p \<Longrightarrow> P p"
  using assms
  by (auto simp: parse_lenient_line_prefix_def parse_lenient_ipsum_line_def parse_ipsum_line_def Let_def res_simps
      split: option.splits sum.splits list.splits if_splits)

lemma spamhaus_all:
  assumes "\<And>s p. parse_prefix N T s = Inr p \<Longrightarrow> P p"
  shows "list_all P (parse_spamhaus_drop N T J body)"
  using collect_json_all [of N T P "[]"] lenient_lines_all(1) [of N T P] assms
  by (auto simp: parse_spamhaus_drop_def Let_def list_all_iff List.map_filter_def split: option.splits)

lemma fetched_all:
  assumes p: "\<And>s p. parse_prefix N T s = Inr p \<Longrightarrow> P p"
    and f: "fetch_threat_source_prefixes N T J url_scheme client src = Inr ps"
  shows "list_all P ps"
proof -
  have lenient: "parse_lenient_line_prefix N T l = Some x \<Longrightarrow> P x" "parse_lenient_ipsum_line N T l m = Some x \<Longrightarrow> P x" for l m x
    by (erule lenient_lines_all(1) [OF p, rotated], assumption) (erule lenient_lines_all(2) [OF p, rotated], assumption)
  have "read_limited_lines resp b label (\<lambda>l. Inr (parse_lenient_line_prefix N T l)) = Inr ps \<Longrightarrow> list_all P ps"
    "read_limited_lines resp b label (\<lambda>l. Inr (parse_lenient_ipsum_line N T l m)) = Inr ps \<Longrightarrow> list_all P ps" for resp b label m
    by (rule read_limited_lines_all, simp_all add: lenient)+
  then show ?thesis
    using f spamhaus_all [of N T P, OF p]
    by (auto simp: fetch_threat_source_prefixes_def res_simps split: if_splits threat_format.splits)
qed

section \<open>Stored prefix lists read back\<close>

text \<open>What is used of the JSON crate: the list of prefix texts it wrote parses to itself.\<close>

locale json_spec =
  fixes J :: json_lib
  assumes strings_show: "js_strings J (js_show_strings J (map prefix_to_cidr ps)) = Some (map prefix_to_cidr ps)"
begin

lemma stored_prefixes_parse:
  assumes N: "ipnet_spec N" and T: "net_text_spec T" and ps: "list_all (\<lambda>p. canonical (tp_addr p) (unat (tp_prefix p))) ps"
    and r: "tpr_cidrs_json row = cidrs_json_from_prefixes J (normalize_prefixes ps)"
  shows "persisted_prefixes N T J row = Inr (normalize_prefixes ps)"
proof -
  have "traverse (parse_prefix N T) (map prefix_to_cidr qs) = Inr qs" if "list_all (\<lambda>p. canonical (tp_addr p) (unat (tp_prefix p))) qs" for qs
    using that net_text_spec.parse_stored_prefix [OF T N] by (induction qs) simp_all
  then show ?thesis
    using ps strings_show by (simp add: persisted_prefixes_def r cidrs_json_from_prefixes_def list_all_iff)
qed

end

text \<open>An instance: every text ended by a comma.\<close>

definition ref_json :: json_lib where
  "ref_json =
     \<lparr>js_value = (\<lambda>_. None), js_strings = (\<lambda>s. Some (butlast (split_on (\<lambda>c. c = CHR '','') s))),
      js_show_strings = (\<lambda>xs. concat (map (\<lambda>x. x @ '','') xs)), js_seq = (\<lambda>_. ([], True))\<rparr>"

lemma split_ended:
  "(\<And>x. x \<in> set xs \<Longrightarrow> CHR '','' \<notin> set x) \<Longrightarrow> split_on (\<lambda>c. c = CHR '','') (concat (map (\<lambda>x. x @ '','') xs)) = xs @ [[]]"
proof (induction xs)
  case (Cons x xs)
  then show ?case using split_on_sep [of x "\<lambda>c. c = CHR '',''" "CHR '',''"] by fastforce
qed simp

interpretation ref_json: json_spec ref_json
proof
  have "CHR '','' \<notin> set (prefix_to_cidr p)" for p
    using plain_cidr plain_not_space unfolding prefix_to_cidr_def by blast
  then have "split_on (\<lambda>c. c = CHR '','') (concat (map (\<lambda>x. x @ '','') (map prefix_to_cidr ps))) = map prefix_to_cidr ps @ [[]]" for ps
    by (intro split_ended) auto
  then show "js_strings ref_json (js_show_strings ref_json (map prefix_to_cidr ps)) = Some (map prefix_to_cidr ps)" for ps
    by (simp add: ref_json_def)
qed

section \<open>Every writer passes the parsers\<close>

interpretation plain_writes: writer_checks no_checks E J fetch for E J fetch
  by unfold_locales (simp_all add: no_checks_def)

lemma builtin_source_parses: "s \<in> set builtin_threat_sources \<Longrightarrow> \<exists>x. threat_source_try_from (builtin_source_row E db n s) = Inr x"
  by (auto simp: builtin_threat_sources_def builtin_source_row_def threat_source_try_from_def parse_format_def Let_def
      to_lower_def ascii_lower_def optional_i32_to_u32_def i32_to_u32_def u32_try_from_i32_def)

lemma example_rule_parses:
  assumes T: "net_text_spec T" and a: "action = ''deny'' \<or> action = ''allow''" and c: "cidr = cidr_text addr len" "unat len \<le> ip_width addr"
  shows "\<exists>x. parse_rule T (example_rule_row E db priority action cidr comment) = Inr x"
proof -
  have "\<exists>x. parse_action action = Inr x" using a by (auto simp: parse_action_def to_lower_def ascii_lower_def)
  then show ?thesis
    using net_text_spec.parse_show [OF T c(2)] by (auto simp: parse_rule_def example_rule_row_def c(1) parse_cidr_def parse_optional_port_def)
qed

lemma example_cidrs: "''203.0.113.0/24'' = cidr_text (V4 0xCB007100) 24" "''10.0.0.0/8'' = cidr_text (V4 0x0A000000) 8"
  by code_simp+

lemma writer_checks_parse:
  assumes N: "ipnet_spec (ae_net E)" and T: "net_text_spec (ae_text E)" and J: "json_spec J"
  shows "writer_checks (parse_checks (ae_net E) (ae_text E) J) E J (fetch_threat_source_prefixes (ae_net E) (ae_text E) J url_scheme client)"
proof (rule writer_checks.intro [OF api_checks_parse [OF N T]], unfold_locales)
  let ?C = "parse_checks (ae_net E) (ae_text E) J"
  show "rc_source ?C (builtin_source_row E db n s)" if "s \<in> set builtin_threat_sources" for s db n
    using builtin_source_parses [OF that] by (simp add: parse_checks_def row_okI)
  show "rc_rule ?C (example_rule_row E db 10 ''deny'' ''203.0.113.0/24'' c)" for db c
    using example_rule_parses [OF T _ example_cidrs(1)] by (simp add: parse_checks_def row_okI)
  show "rc_rule ?C (example_rule_row E db 20 ''allow'' ''10.0.0.0/8'' c)" for db c
    using example_rule_parses [OF T _ example_cidrs(2)] by (simp add: parse_checks_def row_okI)
  show "rc_trusted ?C (trusted_active_model E db True (cidr_text (net_network (ae_net E) net) (net_prefix_len net)) comment)"
    if "parse_cidr (ae_text E) v = Inr net" for v net db comment
  proof -
    have v: "valid_net net" by (rule parsed_cidr_valid [OF T that])
    then have "unat (net_prefix_len net) \<le> ip_width (net_network (ae_net E) net)"
      using ipnet_spec.network_width [OF N v] by (simp add: valid_net_def)
    then show ?thesis
      using net_text_spec.parse_show [OF T]
      by (auto simp: parse_checks_def trusted_active_model_def parse_trusted_cidr_def parse_cidr_def intro!: row_okI)
  qed
  show "rc_prefixes ?C \<lparr>tpr_id = i, tpr_policy_name = n, tpr_source_name = name,
      tpr_cidrs_json = cidrs_json_from_prefixes J (normalize_prefixes ps), tpr_updated_at = now\<rparr>"
    if "fetch_threat_source_prefixes (ae_net E) (ae_text E) J url_scheme client src = Inr ps" for src ps i n name now
    using json_spec.stored_prefixes_parse [OF J N T fetched_all [OF net_text_spec.parsed_prefix_canonical [OF T N] that]]
    by (auto simp: parse_checks_def intro!: row_okI)
qed

section \<open>Histories\<close>

text \<open>A run up to a moment, as a history: nothing happens afterwards.\<close>

lemma control_run_history:
  assumes w: "\<And>k. writer_checks C (we_api (W k)) (we_json (W k)) (we_fetch (W k))" and i: "store_inv C db"
    and b: "sint (latest_version db) + int t < 2 ^ 63 - 1"
  shows "versioned_history (\<lambda>k. control_run W w db (min k t))"
proof (rule versioned_history_writes)
  let ?h = "\<lambda>k. control_run W w db (min k t)"
  have v: "versioned_write (control_run W w db k) (control_run W w db (Suc k))" for k
    by (rule control_run_versioned [OF w i])
  have "k \<le> t \<Longrightarrow> sint (latest_version (control_run W w db k)) \<le> sint (latest_version db) + int k" for k
  proof (induction k)
    case (Suc k)
    then have a: "sint (latest_version (control_run W w db k)) \<le> sint (latest_version db) + int k" by simp
    then have "sint (latest_version (control_run W w db k)) < 2 ^ 63 - 1" using b Suc.prems by linarith
    from sint_succ [OF this] show ?case using v [of k] a by (auto simp: versioned_write_def)
  qed simp
  note bound = this
  show "sint (latest_version (?h k)) < 2 ^ 63 - 1" for k
    using bound [of "min k t"] b by (cases "k \<le> t") (simp_all add: min_def)
  show "versioned_write (?h k) (?h (Suc k))" for k
    using v [of k] by (cases "k < t") (simp_all add: min_def)
qed

lemma control_run_loads:
  assumes "\<And>k. writer_checks (parse_checks (cr_net K) (cr_text K) (cr_json K)) (we_api (W k)) (we_json (W k)) (we_fetch (W k))"
    and "ipnet_spec (cr_net K)" "net_text_spec (cr_text K)" "store_inv (parse_checks (cr_net K) (cr_text K) (cr_json K)) db"
  shows "\<exists>s. load_policy_snapshot K now (\<lambda>i. control_run W w db (q i)) r external = Inr s"
  by (rule store_snapshot_loads [OF assms(2,3)]) (rule control_run_sound [OF assms(1,4)])

lemma store_inv_empty: "store_inv C empty_db"
  by (simp add: store_inv_def empty_db_def unique_rows_def table_defs)

end
