(* ===== verification/Api_Contracts.thy ===== *)
theory Api_Contracts
  imports Api_Rules Api_Network Control_Nodes Paged_Policy
begin

text \<open>
  Two promises of the API: repeating an accepted batch of rules changes nothing, and what it accepts
  never blocks an address a node has reported.
\<close>

section \<open>Repeating a batch of rules\<close>

abbreviation keyed :: "rule_input \<Rightarrow> firewall_db \<Rightarrow> firewall_rule_row list" where
  "keyed i \<equiv> select_rows rule_table (\<lambda>r. in_policy rule_table r \<and> frr_rule_key r = ri_rule_key i)"

text \<open>The row an input stands for: the first of its key, with the same columns.\<close>

definition rule_stored :: "rule_input \<Rightarrow> firewall_rule_row \<Rightarrow> firewall_db \<Rightarrow> bool" where
  "rule_stored i row db \<longleftrightarrow> (case keyed i db of [] \<Rightarrow> False | r # _ \<Rightarrow> r = row) \<and> rule_matches_existing i row"

lemma create_rule_stored:
  assumes "create_rule E i db = Inr ((row, ins, act), db')"
  shows "rule_stored i row db'" "\<exists>rs. db' = db\<lparr>db_firewall_rules := db_firewall_rules db @ rs\<rparr>"
proof -
  have "rule_stored i row db' \<and> (\<exists>rs. db' = db\<lparr>db_firewall_rules := db_firewall_rules db @ rs\<rparr>)"
  proof (cases "keyed i db")
    case Nil
    then obtain ins' where "insert_row rule_table (rule_active_model E db i) db = Inr (row, db')"
      using assms by (auto simp: create_rule_def txn_bind_def txn_return_def res_simps)
    then have r: "row = rule_active_model E db i" "db' = db\<lparr>db_firewall_rules := db_firewall_rules db @ [row]\<rparr>"
      by (auto simp: insert_row_def rule_table_def split: if_splits)
    have "keyed i db' = [row]"
      using Nil by (simp add: r(2) select_rows_def rule_table_def in_policy_def) (simp add: r(1) rule_active_model_def)
    then show ?thesis using r by (auto simp: rule_stored_def rule_matches_existing_def rule_active_model_def)
  next
    case (Cons existing others)
    then have "row = existing" "db' = db" "rule_matches_existing i existing"
      using assms by (auto simp: create_rule_def split: if_splits)
    then show ?thesis using Cons by (auto simp: rule_stored_def intro: exI [of _ "[]"])
  qed
  then show "rule_stored i row db'" "\<exists>rs. db' = db\<lparr>db_firewall_rules := db_firewall_rules db @ rs\<rparr>" by blast+
qed

lemma rule_stored_append: "rule_stored i row db \<Longrightarrow> rule_stored i row (db\<lparr>db_firewall_rules := db_firewall_rules db @ rs\<rparr>)"
  by (auto simp: rule_stored_def select_rows_def rule_table_def split: list.splits)

lemma create_rule_again: "rule_stored i row db \<Longrightarrow> create_rule E i db = Inr ((row, False, False), db)"
  by (auto simp: create_rule_def rule_stored_def split: list.splits)

lemma create_rules_stored:
  "create_each (create_rule E) is s db = Inr (s', db') \<Longrightarrow>
    \<exists>rows rs. crr_rows s' = crr_rows s @ rows \<and> list_all2 (\<lambda>i row. rule_stored i row db') is rows \<and>
      db' = db\<lparr>db_firewall_rules := db_firewall_rules db @ rs\<rparr>"
proof (induction "is" arbitrary: s db)
  case Nil
  then show ?case by (auto simp: txn_return_def intro: exI [of _ "[]"])
next
  case (Cons i "is")
  obtain row ins act db1 where c: "create_rule E i db = Inr ((row, ins, act), db1)"
    and r: "create_each (create_rule E) is (push_row s row ins act) db1 = Inr (s', db')"
    using Cons.prems by (auto simp: txn_bind_def res_simps)
  obtain rows rs where 1: "crr_rows s' = crr_rows (push_row s row ins act) @ rows"
    "list_all2 (\<lambda>i row. rule_stored i row db') is rows" "db' = db1\<lparr>db_firewall_rules := db_firewall_rules db1 @ rs\<rparr>"
    using Cons.IH [OF r] by blast
  obtain rs' where 2: "db1 = db\<lparr>db_firewall_rules := db_firewall_rules db @ rs'\<rparr>" using create_rule_stored(2) [OF c] by blast
  have "rule_stored i row db'" unfolding 1(3) by (rule rule_stored_append) (rule create_rule_stored(1) [OF c])
  then have "crr_rows s' = crr_rows s @ row # rows \<and> list_all2 (\<lambda>i row. rule_stored i row db') (i # is) (row # rows) \<and>
      db' = db\<lparr>db_firewall_rules := db_firewall_rules db @ rs' @ rs\<rparr>"
    using 1 2 by (simp add: push_row_def)
  then show ?case by blast
qed

lemma create_rules_again:
  "list_all2 (\<lambda>i row. rule_stored i row db) is rows \<Longrightarrow>
    create_each (create_rule E) is s db = Inr (s\<lparr>crr_rows := crr_rows s @ rows\<rparr>, db)"
proof (induction "is" rows arbitrary: s rule: list_all2_induct)
  case (Cons i "is" row rows)
  then show ?case by (simp add: txn_bind_def create_rule_again push_row_def)
qed (simp add: txn_return_def)

lemma rule_stored_bump: "rule_stored i row (fst (bump now db)) = rule_stored i row db"
  by (simp add: rule_stored_def select_rows_def rule_table_def)

lemma versioned_result:
  "versioned x now act db = Inr ((y, v), db') \<longleftrightarrow>
    y = x \<and> v = (if act then Some (snd (bump now db)) else None) \<and> db' = (if act then fst (bump now db) else db)"
  by (auto simp: versioned_def bump_policy_version_if_active_def txn_bind_def txn_return_def Let_def split_beta)

lemma create_rules_repeat:
  assumes "create_rules_handler E seen rs db = (db', Inr (s, v))"
    and "ae_net E' = ae_net E" "ae_text E' = ae_text E" "ae_sha256 E' = ae_sha256 E"
  shows "create_rules_handler E' seen rs db' = (db', Inr (new_create_rows\<lparr>crr_rows := crr_rows s\<rparr>, None))"
proof -
  obtain inputs u w where c: "validate_batch_len (length rs) = Inr u" "traverse (reject_deny_rule_node_ip E seen) rs = Inr w"
    "traverse (rule_input_of E) rs = Inr inputs"
    and t: "commit (txn_bind (create_each (create_rule E) inputs new_create_rows) (\<lambda>s. versioned s (ae_now E) (crr_active_changed s))) db
        = (db', Inr (s, v))"
    using assms(1) by (auto simp: create_rules_handler_def after_checks_def res_simps split: sum.splits)
  obtain db1 where 1: "create_each (create_rule E) inputs new_create_rows db = Inr (s, db1)"
    and 2: "db' = (if crr_active_changed s then fst (bump (ae_now E) db1) else db1)"
    using t by (auto simp: commit_def txn_bind_def res_simps versioned_result split: sum.splits prod.splits)
  have "list_all2 (\<lambda>i row. rule_stored i row db') inputs (crr_rows s)"
    using create_rules_stored [OF 1] by (auto simp: 2 rule_stored_bump new_create_rows_def)
  from create_rules_again [OF this] have
    "create_each (create_rule E') inputs new_create_rows db' = Inr (new_create_rows\<lparr>crr_rows := crr_rows s\<rparr>, db')"
    by (simp add: new_create_rows_def)
  moreover have "rule_input_of E' = rule_input_of E" "reject_deny_rule_node_ip E' seen = reject_deny_rule_node_ip E seen"
    unfolding rule_input_of_def [abs_def] reject_deny_rule_node_ip_def [abs_def] deny_rule_cidr_def assms(2-4) by (rule refl)+
  ultimately show ?thesis
    using c by (simp add: create_rules_handler_def after_checks_def commit_def txn_bind_def versioned_def
        bump_policy_version_if_active_def txn_return_def new_create_rows_def)
qed

section \<open>Addresses of nodes\<close>

text \<open>The addresses a heartbeat reports, as the parser reads them.\<close>

definition reported_ips :: "heartbeat_request \<Rightarrow> ipaddr set" where
  "reported_ips r = {ip. \<exists>v\<in>set (concat (map split_heartbeat_interface_ips (hb_interface_ips r))). parse_ip v = Some ip}"

lemma dedup_set [simp]: "set (dedup xs) = set xs"
  by (induction xs rule: dedup.induct) auto

lemma shown_ip_plain: "c \<in> set (show_ip ip) \<Longrightarrow> \<not> is_space c \<and> c \<noteq> CHR '',''"
  using addr_ip plain_not_space by (auto simp: plain_char_def)

lemma parse_ip_Nil: "parse_ip [] = None"
proof -
  have n: "read_ipv4_addr [] = None" "read_group [] = None"
    by (simp_all add: read_ipv4_addr_def read_octet_def read_group_def read_number_def Let_def)
  then have "read_groups (Suc k) True [] = ([], False, [])" for k
    by (simp only: read_groups.simps after_colon_def) simp
  from this [of 7] have "read_groups 8 True [] = ([], False, [])" by simp
  then show ?thesis by (simp add: parse_ip_def n read_ipv6_addr_def read_char_def)
qed

lemma show_ip_not_Nil: "show_ip ip \<noteq> []"
  using parse_show_ip [of ip] parse_ip_Nil by (metis option.distinct(1))

lemma split_shown: "split_on (\<lambda>c. c = CHR '','') (join_with '','' (map show_ip ips)) = (if ips = [] then [[]] else map show_ip ips)"
proof (induction ips rule: induct_list012)
  case (2 ip)
  then show ?case using shown_ip_plain by (auto intro!: split_on_none)
next
  case (3 ip ip' ips)
  have "split_on (\<lambda>c. c = CHR '','') (show_ip ip @ CHR '','' # join_with '','' (map show_ip (ip' # ips)))
      = show_ip ip # split_on (\<lambda>c. c = CHR '','') (join_with '','' (map show_ip (ip' # ips)))"
    using shown_ip_plain by (intro split_on_sep) auto
  then show ?case using 3 by simp
qed simp

lemma stored_ips_parse: "parse_node_interface_ips (join_with '','' (map show_ip ips)) = Inr ips"
proof -
  have t: "trim (show_ip ip) = show_ip ip" for ip
    using shown_ip_plain [of _ ip] show_ip_not_Nil [of ip] by (intro trim_fixed) (metis hd_in_set last_in_set)+
  have f: "filter (\<lambda>v. v \<noteq> []) (map trim (map show_ip ips)) = map show_ip ips" for ips
    by (induction ips) (simp_all add: t show_ip_not_Nil)
  have "traverse (\<lambda>v. ok_or (InvalidIp v) (parse_ip v)) (map show_ip ips) = Inr ips" for ips
    by (induction ips) (simp_all add: parse_show_ip)
  moreover have "trim [] = []" by code_simp
  ultimately show ?thesis
    using f [of ips] by (auto simp: parse_node_interface_ips_def split_shown split: if_splits)
qed

lemma heartbeat_ips:
  assumes "heartbeat_model now r = Inr n"
  shows "\<exists>ips. parse_node_interface_ips (ndr_interface_ips n) = Inr ips \<and> set ips = reported_ips r"
proof -
  obtain ips where t: "traverse parse_heartbeat_ip (concat (map split_heartbeat_interface_ips (hb_interface_ips r))) = Inr ips"
    and n: "ndr_interface_ips n = join_with '','' (map show_ip (dedup (sort ips)))"
    using assms by (auto simp: heartbeat_model_def normalize_heartbeat_interface_ips_def mapE_Inr_iff)
  have "traverse parse_heartbeat_ip vs = Inr ips \<Longrightarrow> set ips = {ip. \<exists>v\<in>set vs. parse_ip v = Some ip}" for vs ips
    by (induction vs arbitrary: ips) (auto simp: parse_heartbeat_ip_def res_simps)
  from this [OF t] show ?thesis by (auto simp: n stored_ips_parse reported_ips_def)
qed

lemma accepted_net:
  assumes "reject_node_ip_block N db net resource = Inr ()" "n \<in> set (db_nodes db)" "ndr_policy_name n = default_policy_name"
    and "parse_node_interface_ips (ndr_interface_ips n) = Inr ips" "ip \<in> set ips"
  shows "\<not> cidr_contains_ip N net ip"
proof -
  let ?f = "\<lambda>row. bindE (parse_node_interface_ips (ndr_interface_ips row)) (\<lambda>ips.
           if list_ex (cidr_contains_ip N net) ips
           then Inl (BadRequest (resource @ '' CIDR contains a node interface IP'')) else Inr ())"
  have "\<exists>us. traverse ?f (filter (\<lambda>r. ndr_policy_name r = default_policy_name) (db_nodes db)) = Inr us"
    using assms(1) by (auto simp: reject_node_ip_block_def mapE_Inr_iff)
  then have "\<exists>u. ?f n = Inr u" unfolding traverse_ok_iff using assms(2,3) by auto
  then show ?thesis using assms(4,5) by (auto simp: list_ex_iff split: if_splits)
qed

text \<open>No address of a network is one a node of the policy has reported.\<close>

definition spares_nodes :: "firewall_db \<Rightarrow> ipnet \<Rightarrow> bool" where
  "spares_nodes db net \<longleftrightarrow>
     (\<forall>n\<in>set (db_nodes db). \<forall>now r. heartbeat_model now r = Inr n \<longrightarrow> reported_ips r \<inter> net_addresses net = {})"

lemma accepted_net_spares:
  assumes N: "ipnet_spec N" and T: "net_text_spec T" and c: "parse_cidr T c = Inr net" and r: "reject_node_ip_block N db net resource = Inr ()"
  shows "spares_nodes db net"
proof -
  have "valid_net net" by (rule parsed_cidr_valid [OF T c])
  then have "cidr_contains_ip N net ip" if "ip \<in> net_addresses net" for ip
    using that ipnet_spec.contains_eq [OF N] by (auto simp: net_addresses_def cidr_contains_ip_def in_prefix_def)
  moreover have "\<not> cidr_contains_ip N net ip" if n: "n \<in> set (db_nodes db)" "heartbeat_model now b = Inr n" "ip \<in> reported_ips b" for n now b ip
  proof -
    obtain ips where "parse_node_interface_ips (ndr_interface_ips n) = Inr ips" "set ips = reported_ips b"
      using heartbeat_ips [OF n(2)] by blast
    moreover have "ndr_policy_name n = default_policy_name" using n(2) by (auto simp: heartbeat_model_def mapE_Inr_iff)
    ultimately show ?thesis using accepted_net [OF r n(1)] n(3) by blast
  qed
  ultimately show ?thesis unfolding spares_nodes_def by blast
qed

lemma normalized_net:
  "normalize_cidr N T v = Inr c \<Longrightarrow> parse_normalized_cidr N T v = Inr net \<longleftrightarrow> parse_cidr T c = Inr net"
  by (simp add: parse_normalized_cidr_def)

lemma traverse_each: "traverse f xs = Inr ys \<Longrightarrow> x \<in> set xs \<Longrightarrow> \<exists>y. f x = Inr y"
  using traverse_ok_iff [of f xs, THEN iffD1] by auto

lemma checked_ban:
  assumes "reject_temp_ban_node_ip E db r = Inr u"
  obtains net where "parse_normalized_cidr (ae_net E) (ae_text E) (cb_cidr r) = Inr net"
    "reject_node_ip_block (ae_net E) db net ''temporary ban'' = Inr ()"
  using assms by (cases "parse_normalized_cidr (ae_net E) (ae_text E) (cb_cidr r)") (simp_all add: reject_temp_ban_node_ip_def)

lemma checked_rule:
  assumes "reject_deny_rule_node_ip E db r = Inr u" "normalize_action (cr_action r) = Inr ''deny''"
  obtains net where "parse_normalized_cidr (ae_net E) (ae_text E) (cr_cidr r) = Inr net"
    "reject_node_ip_block (ae_net E) db net ''deny rule'' = Inr ()"
  using assms
  by (cases "parse_normalized_cidr (ae_net E) (ae_text E) (cr_cidr r)") (simp_all add: reject_deny_rule_node_ip_def deny_rule_cidr_def)

lemma inserted_bans:
  "insert_bans E ms db = Inr (rows, db') \<Longrightarrow> \<forall>row\<in>set rows. \<exists>m\<in>set ms. \<exists>i. row = m i"
proof (induction ms arbitrary: db rows)
  case (Cons m ms)
  then show ?case
    by (fastforce simp: txn_bind_def txn_return_def res_simps insert_ban_def insert_row_def split: if_splits)
qed (simp add: txn_return_def)

lemma accepted_bans_spare:
  assumes N: "ipnet_spec (ae_net E)" and T: "net_text_spec (ae_text E)"
    and h: "create_bans_handler E seen rs db = (db', Inr (rows, v))" and row: "row \<in> set rows"
  shows "\<exists>net. parse_cidr (ae_text E) (tbr_cidr row) = Inr net \<and> spares_nodes seen net"
proof -
  obtain us ms where u: "traverse (reject_temp_ban_node_ip E seen) rs = Inr us" and m: "traverse (ban_active_model E) rs = Inr ms"
    and t: "commit (txn_bind (insert_bans E ms) (\<lambda>rows. versioned rows (ae_now E) True)) db = (db', Inr (rows, v))"
    using h by (auto simp: create_bans_handler_def after_checks_def res_simps split: sum.splits)
  obtain db1 where "insert_bans E ms db = Inr (rows, db1)"
    using t by (auto simp: commit_def txn_bind_def res_simps versioned_result split: sum.splits prod.splits)
  then obtain m i where "m \<in> set ms" "row = m i" using inserted_bans row by blast
  then obtain r where r: "r \<in> set rs" "ban_active_model E r = Inr m" using traverse_set_back [OF m] by blast
  have n: "normalize_cidr (ae_net E) (ae_text E) (cb_cidr r) = Inr (tbr_cidr row)"
    using r(2) by (auto simp: ban_active_model_def Let_def res_simps \<open>row = m i\<close> split: if_splits)
  obtain u where k: "reject_temp_ban_node_ip E seen r = Inr u" using traverse_each [OF u r(1)] by (elim exE)
  obtain net where p: "parse_normalized_cidr (ae_net E) (ae_text E) (cb_cidr r) = Inr net"
    and b: "reject_node_ip_block (ae_net E) seen net ''temporary ban'' = Inr ()"
    by (rule checked_ban [OF k])
  have c: "parse_cidr (ae_text E) (tbr_cidr row) = Inr net" using p normalized_net [OF n] by simp
  show ?thesis using c accepted_net_spares [OF N T c b] by (intro exI conjI)
qed

lemma accepted_rules_spare:
  assumes N: "ipnet_spec (ae_net E)" and T: "net_text_spec (ae_text E)"
    and h: "create_rules_handler E seen rs db = (db', Inr (s, v))" and row: "row \<in> set (crr_rows s)" "frr_action row = ''deny''"
  shows "\<exists>net. parse_cidr (ae_text E) (frr_cidr row) = Inr net \<and> spares_nodes seen net"
proof -
  obtain us inputs where u: "traverse (reject_deny_rule_node_ip E seen) rs = Inr us" and i: "traverse (rule_input_of E) rs = Inr inputs"
    and t: "commit (txn_bind (create_each (create_rule E) inputs new_create_rows) (\<lambda>s. versioned s (ae_now E) (crr_active_changed s))) db
        = (db', Inr (s, v))"
    using h by (auto simp: create_rules_handler_def after_checks_def res_simps split: sum.splits)
  obtain db1 where "create_each (create_rule E) inputs new_create_rows db = Inr (s, db1)"
    using t by (auto simp: commit_def txn_bind_def res_simps versioned_result split: sum.splits prod.splits)
  then have "list_all2 (\<lambda>i row. rule_stored i row db1) inputs (crr_rows s)"
    using create_rules_stored by (fastforce simp: new_create_rows_def)
  then obtain i where i': "i \<in> set inputs" "rule_stored i row db1"
    using row(1) by (metis in_set_conv_nth list_all2_conv_all_nth)
  then obtain r where r: "r \<in> set rs" "rule_input_of E r = Inr i" using traverse_set_back [OF i] by blast
  have m: "ri_action i = ''deny''" "ri_cidr i = frr_cidr row" using i'(2) row(2) by (auto simp: rule_stored_def rule_matches_existing_def)
  then have n: "normalize_cidr (ae_net E) (ae_text E) (cr_cidr r) = Inr (frr_cidr row)" "normalize_action (cr_action r) = Inr ''deny''"
    using r(2) by (auto simp: rule_input_of_def res_simps)
  obtain u where k: "reject_deny_rule_node_ip E seen r = Inr u" using traverse_each [OF u r(1)] by (elim exE)
  obtain net where p: "parse_normalized_cidr (ae_net E) (ae_text E) (cr_cidr r) = Inr net"
    and b: "reject_node_ip_block (ae_net E) seen net ''deny rule'' = Inr ()"
    by (rule checked_rule [OF k n(2)])
  have c: "parse_cidr (ae_text E) (frr_cidr row) = Inr net" using p normalized_net [OF n(1)] by simp
  show ?thesis using c accepted_net_spares [OF N T c b] by (intro exI conjI)
qed

end
