(* ===== verification/Store_Claims.thy ===== *)
theory Store_Claims
  imports Store_History Api_Contracts Sample_Control
begin

text \<open>
  The properties of the writers: the version orders every change a load can see, what is written can be
  loaded and compiled, a repeated batch of rules changes nothing, and no accepted block covers an
  address a node has reported.
\<close>

section \<open>A small installation\<close>

definition sample_api :: api_env where
  "sample_api =
     \<lparr>ae_net = ref_ipnet, ae_text = ref_net_text, ae_sha256 = (\<lambda>_. replicate 32 0), ae_url_scheme = (\<lambda>_. Some ''https''),
      ae_now = 1000, ae_max_time = 10 ^ 20, ae_next_id = (\<lambda>db. word_of_nat (length (db_firewall_rules db) + length (db_temp_bans db)))\<rparr>"

definition sample_writer :: write_env where
  "sample_writer =
     \<lparr>we_api = sample_api, we_json = ref_json, we_http = (\<lambda>_. Inl (Internal ''offline'')),
      we_geo = \<lparr>gcl_head = (\<lambda>_. Inl (Internal ''offline'')), gcl_get = (\<lambda>_ _ _. Inl (Internal ''offline''))\<rparr>,
      we_refresh_ids = \<lparr>rid_prefix = (\<lambda>_. 0), rid_state = (\<lambda>_. 0)\<rparr>,
      we_geo_ids = \<lparr>gid_prefix = (\<lambda>_. 0), gid_state = (\<lambda>_. 0), gid_catalog = (\<lambda>_. 0)\<rparr>\<rparr>"

text \<open>A bump, then a cleanup with nothing to clean, and nothing more.\<close>

definition sample_writes :: "nat \<Rightarrow> control_write" where
  "sample_writes k = (if k = 0 then ApiWrite empty_db BumpPolicyVersion else CleanupBans)"

definition sample_store_crates :: crates where
  "sample_store_crates = sample_crates\<lparr>cr_json := ref_json\<rparr>"

definition sample_rule :: create_rule_request where
  "sample_rule =
     \<lparr>cr_rule_key = Some ''office'', cr_enabled = None, cr_priority = 10, cr_action = ''allow'', cr_cidr = ''10.0.0.0/8'',
      cr_protocol = Some ''tcp'', cr_port = None, cr_comment = None\<rparr>"

definition sample_heartbeat :: heartbeat_request where
  "sample_heartbeat =
     \<lparr>hb_node_id = ''n1'', hb_interface_name = ''eth0'', hb_interface_ips = [''10.0.0.1''], hb_last_applied_version = 0,
      hb_status = ''ok'', hb_error = []\<rparr>"

definition sample_ban :: create_temp_ban_request where
  "sample_ban = \<lparr>cb_cidr = ''203.0.113.0/24'', cb_protocol = None, cb_port = None, cb_duration_seconds = Some 60, cb_comment = None\<rparr>"

section \<open>Versions\<close>



section \<open>What is written loads and compiles\<close>

text \<open>C23: whatever the writers store can be distributed: along any run from a store whose rows parse (an empty
  one, for instance), a load of the policy whose queries read any moments of the run succeeds, and what it
  loads compiles to a well-formed policy. No accepted request, downloaded list or seed can block the
  distribution of later policies.\<close>

theorem control_store_compiles:
  assumes "ipnet_spec (cr_net K)" and "net_text_spec (cr_text K)" and "json_spec (cr_json K)"
    and "\<And>k. ae_net (we_api (W k)) = cr_net K \<and> ae_text (we_api (W k)) = cr_text K \<and> we_json (W k) = cr_json K"
    and "store_inv (parse_checks (cr_net K) (cr_text K) (cr_json K)) db"
    and "\<And>n. n \<in> runtime_nets rt \<Longrightarrow> valid_net n"
  shows "\<exists>s p. load_policy_snapshot K now (\<lambda>i. control_run W w db (q i)) (current_snapshot (cr_net K) rt) external = Inr s \<and>
    compile_policy (cr_net K) clock s = Inr p \<and> wf_compiled p"
proof -
  have "writer_checks (parse_checks (cr_net K) (cr_text K) (cr_json K)) (we_api (W k)) (we_json (W k)) (we_fetch (W k))" for k
    using writer_checks_parse [of "we_api (W k)" "we_json (W k)"] assms(1-4) by simp
  from control_run_loads [where W = W and db = db and q = q, OF this assms(1,2,5)]
  obtain s where s: "load_policy_snapshot K now (\<lambda>i. control_run W w db (q i)) (current_snapshot (cr_net K) rt) external = Inr s"
    by blast
  note l = sent_snapshot [OF assms(1,2,6) s]
  obtain p where "compile_policy (cr_net K) clock s = Inr p" using l(1) compile_policy_ok_iff by blast
  then show ?thesis using s compile_policy_wf [OF assms(1) l(2)] by blast
qed

theorem control_store_compiles_witness:
  "\<exists>s p. load_policy_snapshot sample_store_crates 0 (\<lambda>i. control_run (\<lambda>_. sample_writer) sample_writes empty_db i)
      (current_snapshot ref_ipnet sample_runtime) True = Inr s \<and> compile_policy ref_ipnet (\<lambda>_. 0) s = Inr p"
proof -
  have K: "cr_net sample_store_crates = ref_ipnet" "cr_text sample_store_crates = ref_net_text" "cr_json sample_store_crates = ref_json"
    by (simp_all add: sample_store_crates_def sample_crates_def)
  have "x \<in> runtime_nets sample_runtime \<Longrightarrow> valid_net x" for x
    by (auto simp: runtime_nets_def sample_runtime_def valid_net_def)
  from control_store_compiles [where K = sample_store_crates and W = "\<lambda>_. sample_writer" and db = empty_db and q = "\<lambda>i. i",
      unfolded K, OF ref_net.ipnet_spec_axioms ref_text.net_text_spec_axioms ref_json.json_spec_axioms _ store_inv_empty this]
  show ?thesis by (fastforce simp: sample_writer_def sample_api_def)
qed

section \<open>Batches of rules\<close>

text \<open>C24: a batch of rules can be sent again: once a batch is accepted, the same batch (later, with other ids) is
  accepted with the same rows, inserts nothing, bumps no version and leaves the whole database as it is, so a
  client that missed the answer may retry.\<close>

theorem create_rules_idempotent:
  assumes "create_rules_handler E seen rs db = (db', Inr (s, v))"
  shows "create_rules_handler (E\<lparr>ae_now := now, ae_next_id := ids\<rparr>) seen rs db' =
    (db', Inr (\<lparr>crr_rows = crr_rows s, crr_inserted = False, crr_active_changed = False\<rparr>, None))"
  using create_rules_repeat [OF assms, of "E\<lparr>ae_now := now, ae_next_id := ids\<rparr>"] by (simp add: new_create_rows_def)

lemma sample_rule_input:
  "rule_input_of sample_api sample_rule = Inr
     \<lparr>ri_rule_key = ''office'', ri_enabled = True, ri_priority = 10, ri_action = ''allow'', ri_cidr = ''10.0.0.0/8'',
      ri_protocol = Some ''tcp'', ri_port = None, ri_comment = None\<rparr>"
proof -
  have "normalize_cidr ref_ipnet ref_net_text ''10.0.0.0/8'' = Inr ''10.0.0.0/8''" by code_simp
  moreover have "normalize_rule_key (Some ''office'') = Inr (Some ''office'')" by code_simp
  ultimately show ?thesis
    by (simp add: rule_input_of_def sample_api_def sample_rule_def normalize_protocol_def normalize_action_def validate_port_def
        Let_def to_lower_def ascii_lower_def)
qed

theorem create_rules_idempotent_witness:
  "\<exists>db' s. create_rules_handler sample_api empty_db [sample_rule] empty_db = (db', Inr (s, Some 1)) \<and> crr_inserted s \<and>
     create_rules_handler (sample_api\<lparr>ae_now := 2000, ae_next_id := (\<lambda>_. 7)\<rparr>) empty_db [sample_rule] db' =
       (db', Inr (\<lparr>crr_rows = crr_rows s, crr_inserted = False, crr_active_changed = False\<rparr>, None))"
proof -
  have "reject_deny_rule_node_ip sample_api empty_db sample_rule = Inr ()"
    by (simp add: reject_deny_rule_node_ip_def deny_rule_cidr_def sample_rule_def normalize_action_def Let_def to_lower_def ascii_lower_def)
  then obtain db' s where r: "create_rules_handler sample_api empty_db [sample_rule] empty_db = (db', Inr (s, Some 1))" "crr_inserted s"
    by (simp add: create_rules_handler_def validate_batch_len_def max_batch_size_def sample_rule_input after_checks_def commit_def
        txn_bind_def txn_return_def create_rule_def select_rows_def rule_table_def empty_db_def insert_row_def rule_active_model_def
        versioned_def bump_policy_version_if_active_def next_policy_version_in_transaction_def find_policy_version_def
        push_row_def new_create_rows_def)
  then show ?thesis using create_rules_idempotent [where now = 2000 and ids = "\<lambda>_. 7", OF r(1)] by blast
qed

section \<open>Node addresses\<close>

text \<open>C25: the control plane never locks a node out: a batch of temporary bans or of rules that is accepted holds no
  ban and no deny rule whose network contains an address some node of the store had reported in its
  heartbeat, however the address was written in it (the nodes are those of the state the check reads).\<close>

theorem accepted_blocks_spare_nodes:
  assumes "ipnet_spec (ae_net E)" and "net_text_spec (ae_text E)"
  shows "(create_bans_handler E seen bs db = (db', Inr (bans, v)) \<longrightarrow>
      (\<forall>row\<in>set bans. \<exists>net. parse_cidr (ae_text E) (tbr_cidr row) = Inr net \<and> spares_nodes seen net)) \<and>
    (create_rules_handler E seen rs db = (db2, Inr (s, v')) \<longrightarrow>
      (\<forall>row\<in>set (crr_rows s). frr_action row = ''deny'' \<longrightarrow>
        (\<exists>net. parse_cidr (ae_text E) (frr_cidr row) = Inr net \<and> spares_nodes seen net)))"
  using accepted_bans_spare [OF assms] accepted_rules_spare [OF assms] by blast

theorem accepted_blocks_spare_nodes_witness:
  "\<exists>n seen db' bans v. heartbeat_model 0 sample_heartbeat = Inr n \<and> n \<in> set (db_nodes seen) \<and> V4 0x0A000001 \<in> reported_ips sample_heartbeat \<and>
     create_bans_handler sample_api seen [sample_ban] empty_db = (db', Inr (bans, v)) \<and> length bans = 1 \<and>
     (\<forall>row\<in>set bans. \<exists>net. parse_cidr ref_net_text (tbr_cidr row) = Inr net \<and> spares_nodes seen net)"
proof -
  have ip: "show_ip (V4 0x0A000001) = ''10.0.0.1''" by code_simp
  have p: "parse_ip ''10.0.0.1'' = Some (V4 0x0A000001)" using parse_show_ip [of "V4 0x0A000001"] by (simp only: ip)
  have s: "split_heartbeat_interface_ips ''10.0.0.1'' = [''10.0.0.1'']" by code_simp
  obtain n where n: "heartbeat_model 0 sample_heartbeat = Inr n" "ndr_interface_ips n = join_with '','' (map show_ip [V4 0x0A000001])"
    by (simp add: heartbeat_model_def sample_heartbeat_def normalize_heartbeat_interface_ips_def s parse_heartbeat_ip_def p)
  let ?seen = "empty_db\<lparr>db_nodes := [n]\<rparr>"
  have c: "normalize_cidr ref_ipnet ref_net_text ''203.0.113.0/24'' = Inr ''203.0.113.0/24''" by code_simp
  have q: "parse_cidr ref_net_text ''203.0.113.0/24'' = Inr (Net (V4 0xCB007100) 24)"
    using ref_text.parse_show [of 24 "V4 0xCB007100"] by (simp add: parse_cidr_def example_cidrs(1))
  have "\<not> cidr_contains_ip ref_ipnet (Net (V4 0xCB007100) 24) (V4 0x0A000001)" by code_simp
  then have "reject_temp_ban_node_ip sample_api ?seen sample_ban = Inr ()"
    using stored_ips_parse [of "[V4 0x0A000001]"]
    by (simp add: reject_temp_ban_node_ip_def sample_api_def sample_ban_def parse_normalized_cidr_def c q reject_node_ip_block_def n(2))
  moreover have "\<exists>m. ban_active_model sample_api sample_ban = Inr m"
    by (simp add: ban_active_model_def sample_api_def sample_ban_def c validate_dynamic_rate_port_def validate_duration_def max_temp_ban_seconds_def Let_def)
  ultimately obtain db' bans v where b: "create_bans_handler sample_api ?seen [sample_ban] empty_db = (db', Inr (bans, v))" "length bans = 1"
    by (auto simp: create_bans_handler_def validate_batch_len_def max_batch_size_def after_checks_def commit_def
        txn_bind_def txn_return_def insert_ban_def insert_row_def ban_table_def empty_db_def versioned_def
        bump_policy_version_if_active_def next_policy_version_in_transaction_def find_policy_version_def)
  have a: "ae_net sample_api = ref_ipnet" "ae_text sample_api = ref_net_text" by (simp_all add: sample_api_def)
  have "\<forall>row\<in>set bans. \<exists>net. parse_cidr ref_net_text (tbr_cidr row) = Inr net \<and> spares_nodes ?seen net"
    using accepted_blocks_spare_nodes [of sample_api, unfolded a, OF ref_net.ipnet_spec_axioms ref_text.net_text_spec_axioms] b(1) by blast
  moreover have "V4 0x0A000001 \<in> reported_ips sample_heartbeat" by (simp add: reported_ips_def sample_heartbeat_def s p)
  moreover have "n \<in> set (db_nodes ?seen)" by simp
  ultimately show ?thesis using n(1) b by blast
qed

end
