(* ===== verification/Control_Access.thy ===== *)
theory Control_Access
  imports Store_Writers Agent_Runtime
begin

text \<open>
  Who may change the store: the tokens (\<^verbatim>\<open>control_plane/auth.rs\<close>, \<^verbatim>\<open>api/auth.rs\<close>, \<^verbatim>\<open>xds/auth.rs\<close>, the
  headers of \<^verbatim>\<open>xds/client.rs\<close>), the refusal to listen openly without one, the read-only standby
  (\<^verbatim>\<open>api/standby.rs\<close>, \<^verbatim>\<open>xds/service.rs\<close>, \<^verbatim>\<open>xds/server/background.rs\<close>, \<^verbatim>\<open>server_commands.rs\<close>, \<^verbatim>\<open>main.rs\<close>), the
  methods of the routes (\<^verbatim>\<open>api/routes.rs\<close>) and the limiter of manual refreshes (\<^verbatim>\<open>api/state.rs\<close>). Headers are a
  map from a name to its text, without an entry when there is none or it is not visible ASCII.
\<close>

section \<open>Tokens\<close>

type_synonym header_map = "string \<Rightarrow> string option"

definition flag_value :: "string option \<Rightarrow> bool" where
  "flag_value v \<longleftrightarrow> (case v of None \<Rightarrow> False | Some s \<Rightarrow> to_lower s \<in> {''1'', ''true'', ''yes''})"

definition trimmed_token :: "string option \<Rightarrow> string option" where
  "trimmed_token v = (case v of None \<Rightarrow> None | Some s \<Rightarrow> if trim s = [] then None else Some (trim s))"

definition api_token_from_env :: "(string \<Rightarrow> string option) \<Rightarrow> string option" where
  "api_token_from_env env = trimmed_token (env ''XDP_FIREWALL_API_TOKEN'')"

definition allow_unauthenticated_from_env :: "(string \<Rightarrow> string option) \<Rightarrow> bool" where
  "allow_unauthenticated_from_env env = flag_value (env ''XDP_FIREWALL_ALLOW_UNAUTHENTICATED'')"

definition is_loopback :: "ipaddr \<Rightarrow> bool" where
  "is_loopback a = (case a of V4 w \<Rightarrow> drop_bit 24 w = 127 | V6 w \<Rightarrow> w = 1)"

definition api_bind_allowed :: "ipaddr \<Rightarrow> string option \<Rightarrow> bool \<Rightarrow> unit res" where
  "api_bind_allowed bind token allow_unauthenticated =
     (if token = None \<and> \<not> allow_unauthenticated \<and> \<not> is_loopback bind
      then Inl (Internal ''XDP_FIREWALL_API_TOKEN must be set'') else Inr ())"

definition xds_bind_allowed :: "(string \<Rightarrow> string option) \<Rightarrow> ipaddr \<Rightarrow> string option \<Rightarrow> unit res" where
  "xds_bind_allowed env bind token =
     (if token \<noteq> None \<or> is_loopback bind \<or> flag_value (env ''XDP_FIREWALL_ALLOW_UNAUTHENTICATED_XDS'')
      then Inr () else Inl (Internal ''xDS agent token is required''))"

text \<open>The two readers of a request differ in the second header only.\<close>

definition bearer_or :: "string \<Rightarrow> header_map \<Rightarrow> string option" where
  "bearer_or second headers =
     (case trimmed_token (Option.bind (headers ''authorization'') (\<lambda>v.
         case strip_prefix ''Bearer '' v of Some t \<Rightarrow> Some t | None \<Rightarrow> strip_prefix ''bearer '' v)) of
        Some t \<Rightarrow> Some t
      | None \<Rightarrow> trimmed_token (headers second))"

definition request_token :: "header_map \<Rightarrow> string option" where
  "request_token headers = bearer_or ''x-api-token'' headers"

definition metadata_token :: "header_map \<Rightarrow> string option" where
  "metadata_token headers = bearer_or ''x-agent-token'' headers"

definition require_api_token :: "string option \<Rightarrow> header_map \<Rightarrow> bool" where
  "require_api_token api_token headers =
     (case api_token of None \<Rightarrow> True | Some expected \<Rightarrow> request_token headers = Some expected)"

text \<open>The comparison runs over the longer text, a missing byte counting as zero.\<close>

definition byte_at :: "string \<Rightarrow> nat \<Rightarrow> u8" where
  "byte_at s i = (if i < length s then char_byte (s ! i) else 0)"

definition constant_time_eq :: "string \<Rightarrow> string \<Rightarrow> bool" where
  "constant_time_eq left right =
     (foldl (\<lambda>diff i. diff OR unat (byte_at left i XOR byte_at right i))
        (length left XOR length right) [0..<max (length left) (length right)] = 0)"

definition authorized :: "string option \<Rightarrow> header_map \<Rightarrow> bool" where
  "authorized agent_token headers =
     (case agent_token of None \<Rightarrow> True
      | Some expected \<Rightarrow> (case metadata_token headers of None \<Rightarrow> False | Some t \<Rightarrow> constant_time_eq t expected))"

text \<open>The configured agent token, on the server and in the client: kept as given unless it is blank.\<close>

definition configured_agent_token :: "string option \<Rightarrow> string option" where
  "configured_agent_token v = (case v of None \<Rightarrow> None | Some s \<Rightarrow> if trim s = [] then None else Some s)"

text \<open>The client fails on a token that is no header value; \<^verbatim>\<open>is_value\<close> is the library's test.\<close>

definition with_auth :: "(string \<Rightarrow> bool) \<Rightarrow> string option \<Rightarrow> header_map res" where
  "with_auth is_value agent_token =
     (case agent_token of None \<Rightarrow> Inr Map.empty
      | Some t \<Rightarrow>
          if \<not> is_value (''Bearer '' @ t) then Inl (Internal ''failed to build xDS authorization metadata'')
          else if \<not> is_value t then Inl (Internal ''failed to build xDS token metadata'')
          else Inr [''authorization'' \<mapsto> ''Bearer '' @ t, ''x-agent-token'' \<mapsto> t])"

section \<open>Methods and commands\<close>

datatype http_method = GET | HEAD | OPTIONS | POST | PUT | DELETE | PATCH

definition is_write_method :: "http_method \<Rightarrow> bool" where
  "is_write_method m \<longleftrightarrow> m \<in> {POST, PUT, DELETE, PATCH}"

definition reject_writes_in_standby :: "bool \<Rightarrow> http_method \<Rightarrow> bool" where
  "reject_writes_in_standby standby m \<longleftrightarrow> standby \<and> is_write_method m"

text \<open>The route of each request that reaches the store.\<close>

fun route_method :: "api_request \<Rightarrow> http_method" where
  "route_method (CreateRule _) = POST" | "route_method (CreateRules _) = POST"
| "route_method (CreateTrusted _) = POST" | "route_method (CreateTrustedBatch _) = POST"
| "route_method (CreateBan _) = POST" | "route_method (CreateBans _) = POST"
| "route_method (CreateLimit _) = POST" | "route_method (CreateLimits _) = POST"
| "route_method (CreateCountry _) = POST" | "route_method (CreateCountries _) = POST"
| "route_method (CreateSource _) = POST" | "route_method (CreateSources _) = POST"
| "route_method BumpPolicyVersion = POST"
| "route_method (UpdateSource _ _) = PUT" | "route_method (UpdateDefense _) = PUT"
| "route_method _ = DELETE"

datatype console_command =
    MigrateCommand
  | ApiCommand
  | XdsCommand
  | AgentCommand
  | SyncOnceCommand
  | MonitorCommand
  | XdpCommand
  | PolicySeedExample
  | PolicyShow

definition allowed_in_agent_only_mode :: "(string \<Rightarrow> string option) \<Rightarrow> console_command \<Rightarrow> unit res" where
  "allowed_in_agent_only_mode env c =
     (if \<not> flag_value (env ''XDP_FIREWALL_AGENT_ONLY'') \<or> c \<in> {AgentCommand, SyncOnceCommand, MonitorCommand, XdpCommand}
      then Inr () else Inl (Internal ''control-plane database commands are disabled''))"

definition allowed_in_standby_mode :: "(string \<Rightarrow> string option) \<Rightarrow> console_command \<Rightarrow> unit res" where
  "allowed_in_standby_mode env c =
     (if \<not> flag_value (env ''XDP_FIREWALL_STANDBY'') then Inr ()
      else if c \<notin> {MigrateCommand, PolicySeedExample} then Inr ()
      else Inl (Internal ''control-plane writes are disabled in standby read-only mode''))"

text \<open>What the policy commands write before they print; migrations keep the rows.\<close>

definition run_policy_command :: "api_env \<Rightarrow> console_command \<Rightarrow> firewall_db \<Rightarrow> firewall_db" where
  "run_policy_command E c db =
     (if c = PolicySeedExample then fst (seed_example_policy E db)
      else if c = PolicyShow then fst (ensure_builtin_policy E db)
      else db)"

definition main_command :: "(string \<Rightarrow> string option) \<Rightarrow> api_env \<Rightarrow> console_command \<Rightarrow> firewall_db \<Rightarrow> firewall_db" where
  "main_command env E c db =
     (case bindE (allowed_in_agent_only_mode env c) (\<lambda>_. allowed_in_standby_mode env c) of
        Inl e \<Rightarrow> db | Inr _ \<Rightarrow> run_policy_command E c db)"

section \<open>A server process\<close>

text \<open>
  The configuration of a process that serves the API and xDS, and what can make it write: its start,
  the turns of its background loops, a call of the API, a heartbeat and a turn of a policy stream. A
  refresh of the lists asked for through the API is many writes, each an event; so are those of the
  refresh that a created source or country queues.
\<close>

record server_config =
  sv_standby :: bool
  sv_env :: "string \<Rightarrow> string option"
  sv_api_bind :: ipaddr
  sv_xds_bind :: ipaddr
  sv_agent_token :: "string option"

definition api_token :: "server_config \<Rightarrow> string option" where
  "api_token S = api_token_from_env (sv_env S)"

definition agent_token :: "server_config \<Rightarrow> string option" where
  "agent_token S = configured_agent_token (sv_agent_token S)"

definition server_listens :: "server_config \<Rightarrow> unit res" where
  "server_listens S =
     bindE (api_bind_allowed (sv_api_bind S) (api_token S) (allow_unauthenticated_from_env (sv_env S))) (\<lambda>_.
       xds_bind_allowed (sv_env S) (sv_xds_bind S) (agent_token S))"

datatype server_event =
    Start
  | RefreshThreats bool "nat \<Rightarrow> firewall_db"
  | RefreshCountry firewall_db string
  | RefreshCatalog ipdeny_index_entry
  | PruneNodes
  | StreamTurn header_map
  | ApiCall header_map firewall_db api_request
  | ManualThreatRefresh header_map bool "nat \<Rightarrow> firewall_db"
  | ManualCountryRefresh header_map firewall_db string
  | ManualCatalogRefresh header_map ipdeny_index_entry
  | MaintainCall header_map "i64 option"
  | SeedExampleCall header_map
  | Heartbeat header_map heartbeat_request

definition api_admits :: "server_config \<Rightarrow> header_map \<Rightarrow> http_method \<Rightarrow> bool" where
  "api_admits S headers m \<longleftrightarrow> require_api_token (api_token S) headers \<and> \<not> reject_writes_in_standby (sv_standby S) m"

definition report_heartbeat :: "server_config \<Rightarrow> header_map \<Rightarrow> heartbeat_request \<Rightarrow> control_write option" where
  "report_heartbeat S h r =
     (if \<not> authorized (agent_token S) h then None
      else if sv_standby S then None
      else Some (HeartbeatWrite r))"

fun server_write :: "server_config \<Rightarrow> server_event \<Rightarrow> control_write option" where
  "server_write S Start = (if sv_standby S then None else Some SeedBuiltin)"
| "server_write S (RefreshThreats acquired dbs) = (if sv_standby S then None else Some (ThreatWrite acquired dbs))"
| "server_write S (RefreshCountry seen c) = (if sv_standby S then None else Some (CountryWrite seen c))"
| "server_write S (RefreshCatalog e) = (if sv_standby S then None else Some (CatalogWrite e))"
| "server_write S PruneNodes =
     (if sv_standby S then None else Some (MaintainWrite (Some default_unhealthy_node_after_seconds)))"
| "server_write S (StreamTurn h) =
     (if \<not> authorized (agent_token S) h then None else if sv_standby S then None else Some CleanupBans)"
| "server_write S (ApiCall h seen req) = (if api_admits S h (route_method req) then Some (ApiWrite seen req) else None)"
| "server_write S (ManualThreatRefresh h acquired dbs) = (if api_admits S h POST then Some (ThreatWrite acquired dbs) else None)"
| "server_write S (ManualCountryRefresh h seen c) = (if api_admits S h POST then Some (CountryWrite seen c) else None)"
| "server_write S (ManualCatalogRefresh h e) = (if api_admits S h POST then Some (CatalogWrite e) else None)"
| "server_write S (MaintainCall h age) = (if api_admits S h POST then Some (MaintainWrite age) else None)"
| "server_write S (SeedExampleCall h) = (if api_admits S h POST then Some SeedExample else None)"
| "server_write S (Heartbeat h r) = report_heartbeat S h r"

definition server_step :: "server_config \<Rightarrow> write_env \<Rightarrow> server_event \<Rightarrow> firewall_db \<Rightarrow> firewall_db" where
  "server_step S W ev db = (case server_write S ev of None \<Rightarrow> db | Some w \<Rightarrow> control_step W w db)"

text \<open>The headers of an event that came from outside, by the port it came in through.\<close>

fun api_headers :: "server_event \<Rightarrow> header_map option" where
  "api_headers (ApiCall h _ _) = Some h"
| "api_headers (ManualThreatRefresh h _ _) = Some h"
| "api_headers (ManualCountryRefresh h _ _) = Some h"
| "api_headers (ManualCatalogRefresh h _) = Some h"
| "api_headers (MaintainCall h _) = Some h"
| "api_headers (SeedExampleCall h) = Some h"
| "api_headers _ = None"

fun xds_headers :: "server_event \<Rightarrow> header_map option" where
  "xds_headers (Heartbeat h _) = Some h"
| "xds_headers (StreamTurn h) = Some h"
| "xds_headers _ = None"

section \<open>Manual refreshes\<close>

text \<open>
  One limiter per kind of list. A permit is alive from the decision to start until it is dropped, which
  clears the flag; it leaves its result behind when the refresh succeeded. Times do not go back, and
  the subtraction saturates.
\<close>

record 'a refresh_limiter =
  rl_last_started :: "nat option"
  rl_running :: bool
  rl_last_result :: "'a option"

datatype 'a refresh_decision = StartRefresh "'a option" | StillRunning "'a option" | RateLimited "'a option"

definition new_refresh_limiter :: "'a refresh_limiter" where
  "new_refresh_limiter = \<lparr>rl_last_started = None, rl_running = False, rl_last_result = None\<rparr>"

definition start_or_cached :: "nat \<Rightarrow> nat \<Rightarrow> 'a refresh_limiter \<Rightarrow> 'a refresh_limiter \<times> 'a refresh_decision" where
  "start_or_cached now interval l =
     (if rl_running l then (l, StillRunning (rl_last_result l))
      else if (case rl_last_started l of None \<Rightarrow> False | Some t \<Rightarrow> now - t < interval)
      then (l, RateLimited (rl_last_result l))
      else (l\<lparr>rl_running := True, rl_last_started := Some now\<rparr>, StartRefresh (rl_last_result l)))"

definition finish_success :: "'a \<Rightarrow> 'a refresh_limiter \<Rightarrow> 'a refresh_limiter" where
  "finish_success result l = l\<lparr>rl_last_result := Some result\<rparr>"

definition drop_permit :: "'a refresh_limiter \<Rightarrow> 'a refresh_limiter" where
  "drop_permit l = l\<lparr>rl_running := False\<rparr>"

text \<open>Requests, ends of refreshes and drops of permits in the order they take the mutex.\<close>

datatype 'a limiter_event = AskRefresh nat | ReportRefresh 'a | EndRefresh

record 'a limiter_run =
  lr_limiter :: "'a refresh_limiter"
  lr_alive :: nat
  lr_starts :: "nat list"

fun limiter_step :: "nat \<Rightarrow> 'a limiter_event \<Rightarrow> 'a limiter_run \<Rightarrow> 'a limiter_run" where
  "limiter_step interval (AskRefresh now) r =
     (case start_or_cached now interval (lr_limiter r) of
        (l, StartRefresh _) \<Rightarrow> \<lparr>lr_limiter = l, lr_alive = lr_alive r + 1, lr_starts = lr_starts r @ [now]\<rparr>
      | (l, _) \<Rightarrow> r\<lparr>lr_limiter := l\<rparr>)"
| "limiter_step interval (ReportRefresh x) r =
     (if lr_alive r = 0 then r else r\<lparr>lr_limiter := finish_success x (lr_limiter r)\<rparr>)"
| "limiter_step interval EndRefresh r =
     (if lr_alive r = 0 then r else r\<lparr>lr_limiter := drop_permit (lr_limiter r), lr_alive := lr_alive r - 1\<rparr>)"

definition limiter_run :: "nat \<Rightarrow> 'a limiter_event list \<Rightarrow> 'a limiter_run" where
  "limiter_run interval evs =
     fold (limiter_step interval) evs \<lparr>lr_limiter = new_refresh_limiter, lr_alive = 0, lr_starts = []\<rparr>"

text \<open>The queue behind a created source: it tries again while another process holds the lock.\<close>

definition queued_threat_refresh_max_attempts :: nat where "queued_threat_refresh_max_attempts = 12"

fun queued_refresh :: "nat \<Rightarrow> (nat \<Rightarrow> threat_refresh_report res) \<Rightarrow> nat \<Rightarrow> nat \<times> threat_refresh_report res option" where
  "queued_refresh 0 run attempt = (attempt, None)"
| "queued_refresh (Suc left) run attempt =
     (case run attempt of
        Inr report \<Rightarrow>
          if tf_running report
          then (if left = 0 then (attempt, None) else queued_refresh left run (attempt + 1))
          else (attempt, Some (Inr report))
      | Inl e \<Rightarrow> (attempt, Some (Inl e)))"

definition spawn_threat_refresh :: "(nat \<Rightarrow> threat_refresh_report res) \<Rightarrow> nat \<times> threat_refresh_report res option" where
  "spawn_threat_refresh run = queued_refresh queued_threat_refresh_max_attempts run 1"

section \<open>Laws\<close>

lemma nat_or_eq_0 [simp]: "a OR b = 0 \<longleftrightarrow> a = 0 \<and> b = (0::nat)"
  by (auto simp: bit_eq_iff bit_simps)

lemma nat_xor_eq_0 [simp]: "a XOR b = 0 \<longleftrightarrow> a = (b::nat)"
proof
  assume "a XOR b = 0"
  then have "(a XOR b) XOR b = b" by simp
  then show "a = b" by (simp add: xor.assoc)
qed simp

lemma word_xor_eq_0 [simp]: "a XOR b = 0 \<longleftrightarrow> a = (b::u8)"
proof
  assume "a XOR b = 0"
  then have "(a XOR b) XOR b = b" by simp
  then show "a = b" by (simp add: xor.assoc)
qed simp

lemma foldl_or_eq_0: "foldl (\<lambda>d i. d OR f i) d is = (0::nat) \<longleftrightarrow> d = 0 \<and> (\<forall>i\<in>set is. f i = 0)"
  by (induction "is" arbitrary: d) auto

lemma char_byte_inject [simp]: "char_byte c = char_byte d \<longleftrightarrow> c = d"
  by (metis byte_char_char_byte)

lemma constant_time_eq_iff: "constant_time_eq a b \<longleftrightarrow> a = b"
proof
  assume "constant_time_eq a b"
  then have l: "length a = length b" and b: "\<forall>i<length a. byte_at a i = byte_at b i"
    by (auto simp: constant_time_eq_def foldl_or_eq_0 unat_eq_zero)
  show "a = b" using l b by (intro nth_equalityI) (auto simp: byte_at_def)
next
  assume "a = b"
  then show "constant_time_eq a b" by (unfold constant_time_eq_def foldl_or_eq_0) simp
qed

lemma metadata_token_with_auth:
  assumes "configured_agent_token v = Some t" "with_auth is_value (Some t) = Inr h"
  shows "metadata_token h = Some (trim t)"
  using assms
  by (auto simp: configured_agent_token_def with_auth_def metadata_token_def bearer_or_def trimmed_token_def strip_prefix_def
      split: option.splits if_splits)

lemma limiter_run_invariant:
  assumes "0 < interval"
  defines "ok \<equiv> (\<lambda>r :: 'a limiter_run. lr_alive r = (if rl_running (lr_limiter r) then 1 else 0) \<and>
     sorted_wrt (\<lambda>a b. a + interval \<le> b) (lr_starts r) \<and>
     rl_last_started (lr_limiter r) = (if lr_starts r = [] then None else Some (List.last (lr_starts r))))"
  shows "ok (limiter_run interval evs)"
proof -
  have step: "ok (limiter_step interval ev r)" if i: "ok r" for ev r
  proof (cases ev)
    case (AskRefresh now)
    have far: "\<forall>a\<in>set (lr_starts r). a + interval \<le> now"
      if "lr_starts r = [] \<or> List.last (lr_starts r) + interval \<le> now"
    proof
      fix a assume a: "a \<in> set (lr_starts r)"
      then have "lr_starts r \<noteq> []" by auto
      then obtain ys y where eq: "lr_starts r = ys @ [y]" by (metis rev_exhaust)
      then have "a = y \<or> a + interval \<le> y" using i a by (auto simp: ok_def sorted_wrt_append)
      then show "a + interval \<le> now" using that eq by auto
    qed
    show ?thesis
      using i far assms(1)
      by (auto simp: ok_def AskRefresh start_or_cached_def sorted_wrt_append split: option.splits if_splits)
  qed (use i in \<open>auto simp: ok_def finish_success_def drop_permit_def split: if_splits\<close>)
  have "ok (fold (limiter_step interval) evs r)" if "ok r" for r
    using that by (induction evs arbitrary: r) (auto simp: step)
  then show ?thesis by (simp add: limiter_run_def ok_def new_refresh_limiter_def)
qed

lemma queued_refresh_spec:
  "queued_refresh left run attempt = (n, r) \<Longrightarrow> 0 < left \<Longrightarrow>
    attempt \<le> n \<and> n < attempt + left \<and> (\<forall>i\<in>{attempt..<n}. \<exists>rep. run i = Inr rep \<and> tf_running rep) \<and>
    (case r of None \<Rightarrow> n + 1 = attempt + left \<and> (\<exists>rep. run n = Inr rep \<and> tf_running rep)
     | Some x \<Rightarrow> run n = x \<and> (\<forall>rep. x = Inr rep \<longrightarrow> \<not> tf_running rep))"
proof (induction left run attempt rule: queued_refresh.induct)
  case (2 left run attempt)
  show ?case
  proof (cases "\<exists>rep. run attempt = Inr rep \<and> tf_running rep \<and> left \<noteq> 0")
    case True
    then obtain rep where rep: "run attempt = Inr rep" "tf_running rep" "left \<noteq> 0" by blast
    then have "queued_refresh left run (attempt + 1) = (n, r)" using 2(2) by simp
    from 2(1) [OF rep(1,2,3) this] rep
    have ih: "attempt + 1 \<le> n \<and> n < attempt + 1 + left \<and> (\<forall>i\<in>{attempt + 1..<n}. \<exists>rep. run i = Inr rep \<and> tf_running rep) \<and>
      (case r of None \<Rightarrow> n + 1 = attempt + 1 + left \<and> (\<exists>rep. run n = Inr rep \<and> tf_running rep)
       | Some x \<Rightarrow> run n = x \<and> (\<forall>rep. x = Inr rep \<longrightarrow> \<not> tf_running rep))" by simp
    have "\<exists>rep. run i = Inr rep \<and> tf_running rep" if "i \<in> {attempt..<n}" for i
      using that ih rep by (cases "i = attempt") auto
    then show ?thesis using ih by (auto split: option.splits)
  qed (use 2 in \<open>auto split: sum.splits if_splits\<close>)
qed simp

end
