(* ===== verification/Threat_Settled.thy ===== *)
theory Threat_Settled
  imports Threat_Refresh Api_Store
begin

text \<open>
  A refresh of the threat lists settles: repeated with the same downloads and nothing written in
  between, it finds every list unchanged.
\<close>

section \<open>A batch without changes\<close>

lemma refresh_sources_unchanged:
  "(\<And>s. s \<in> set srcs \<Longrightarrow> \<exists>ps. fetch s = Inr ps \<and> length (normalize_prefixes ps) \<le> 2147483647 \<and>
      \<not> threat_source_changed s (threat_prefix_fingerprint (normalize_prefixes ps)) known names) \<Longrightarrow>
    \<exists>b'. refresh_sources fetch known names now srcs b = Inr b' \<and> trb_changed b' = trb_changed b \<and>
      trb_changed_source_count b' = trb_changed_source_count b"
proof (induction srcs arbitrary: b)
  case (Cons s ss)
  then obtain ps where ps: "fetch s = Inr ps" "length (normalize_prefixes ps) \<le> 2147483647"
    "\<not> threat_source_changed s (threat_prefix_fingerprint (normalize_prefixes ps)) known names" by auto
  obtain b1 where 1: "refresh_one_source fetch known names now s b = Inr b1" "trb_changed b1 = trb_changed b"
    "trb_changed_source_count b1 = trb_changed_source_count b"
    using ps by (auto simp: refresh_one_source_def fetch_normalized_source_prefixes_def Let_def threat_source_refresh_state_def)
  obtain b2 where "refresh_sources fetch known names now ss b1 = Inr b2" "trb_changed b2 = trb_changed b1"
    "trb_changed_source_count b2 = trb_changed_source_count b1" using Cons.IH [of b1] Cons.prems by auto
  then show ?case using 1 by simp
qed simp

section \<open>What a batch holds\<close>

definition state_of :: "threat_source \<Rightarrow> string \<Rightarrow> (i32 \<Rightarrow> threat_source_state_row) \<Rightarrow> bool" where
  "state_of s f m \<longleftrightarrow> (\<forall>i. tss_policy_name (m i) = default_policy_name \<and> tss_source_name (m i) = ts_name s \<and> tss_fingerprint (m i) = f)"

definition fetched :: "(threat_source \<Rightarrow> threat_prefix list res) \<Rightarrow> threat_source \<Rightarrow> string \<Rightarrow> bool" where
  "fetched fetch s f \<longleftrightarrow> (\<exists>ps. fetch s = Inr ps \<and> length (normalize_prefixes ps) \<le> 2147483647 \<and>
     f = threat_prefix_fingerprint (normalize_prefixes ps))"

lemma refresh_one_source_parts:
  assumes "refresh_one_source fetch known names now s b = Inr b'"
  shows "\<exists>f m. fetched fetch s f \<and> state_of s f m \<and> trb_states b' = trb_states b @ [m] \<and> trb_checked_at b' = trb_checked_at b \<and>
    (ts_name s \<in> names \<or> ts_name s \<in> fst ` set (trb_changed b')) \<and> set (trb_changed b) \<subseteq> set (trb_changed b')"
proof -
  obtain ps where f: "fetch s = Inr ps"
    using assms by (auto simp: refresh_one_source_def fetch_normalized_source_prefixes_def res_simps)
  let ?ps = "normalize_prefixes ps" let ?f = "threat_prefix_fingerprint ?ps"
  let ?changed = "threat_source_changed s ?f known names"
  obtain m where m: "threat_source_refresh_state s ?f (length ?ps) ?changed known now = Inr m"
    using assms f by (auto simp: refresh_one_source_def fetch_normalized_source_prefixes_def Let_def mapE_Inr_iff)
  have l: "length ?ps \<le> 2147483647" "state_of s ?f m"
    using m by (auto simp: threat_source_refresh_state_def state_of_def split: if_splits)
  have b: "trb_states b' = trb_states b @ [m]" "trb_checked_at b' = trb_checked_at b"
    "trb_changed b' = (if ?changed then trb_changed b @ [(ts_name s, ?ps)] else trb_changed b)"
    using assms f m by (auto simp: refresh_one_source_def fetch_normalized_source_prefixes_def Let_def)
  have "\<not> ?changed \<Longrightarrow> ts_name s \<in> names" by (simp add: threat_source_changed_def)
  then have n: "ts_name s \<in> names \<or> ts_name s \<in> fst ` set (trb_changed b')" "set (trb_changed b) \<subseteq> set (trb_changed b')"
    by (auto simp: b(3))
  have "fetched fetch s ?f" using f l(1) unfolding fetched_def by blast
  then show ?thesis using l(2) b(1,2) n by blast
qed

lemma refresh_sources_parts:
  "refresh_sources fetch known names now srcs b = Inr b' \<Longrightarrow>
    \<exists>fms. map fst fms = srcs \<and> (\<forall>(s, f, m)\<in>set fms. fetched fetch s f \<and> state_of s f m) \<and>
      trb_states b' = trb_states b @ map (snd \<circ> snd) fms \<and> set (trb_changed b) \<subseteq> set (trb_changed b') \<and>
      ts_name ` set srcs \<subseteq> names \<union> fst ` set (trb_changed b')"
proof (induction srcs arbitrary: b)
  case Nil
  then show ?case by (auto intro: exI [of _ "[]"])
next
  case (Cons s ss)
  obtain b1 where 1: "refresh_one_source fetch known names now s b = Inr b1"
    and 2: "refresh_sources fetch known names now ss b1 = Inr b'" using Cons.prems by (auto simp: res_simps)
  obtain f m where p: "fetched fetch s f" "state_of s f m" "trb_states b1 = trb_states b @ [m]"
    "ts_name s \<in> names \<or> ts_name s \<in> fst ` set (trb_changed b1)" "set (trb_changed b) \<subseteq> set (trb_changed b1)"
    using refresh_one_source_parts [OF 1] by blast
  obtain fms where q: "map fst fms = ss" "\<forall>(s, f, m)\<in>set fms. fetched fetch s f \<and> state_of s f m"
    "trb_states b' = trb_states b1 @ map (snd \<circ> snd) fms" "set (trb_changed b1) \<subseteq> set (trb_changed b')"
    "ts_name ` set ss \<subseteq> names \<union> fst ` set (trb_changed b')" using Cons.IH [OF 2] by blast
  let ?fms = "(s, f, m) # fms"
  have "map fst ?fms = s # ss" "\<forall>(s, f, m)\<in>set ?fms. fetched fetch s f \<and> state_of s f m"
    "trb_states b' = trb_states b @ map (snd \<circ> snd) ?fms" using p(1-3) q(1-3) by simp_all
  moreover have "set (trb_changed b) \<subseteq> set (trb_changed b')" using p(5) q(4) by blast
  moreover have "ts_name ` set (s # ss) \<subseteq> names \<union> fst ` set (trb_changed b')"
    using p(4) q(4,5) image_mono [OF q(4), of fst] by auto
  ultimately show ?case by (intro exI [of _ ?fms] conjI)
qed

section \<open>What is stored\<close>

lemma persist_all_names:
  "load_existing_threat_prefix_sources (fold (persist_changed J ids now) ps db) =
     load_existing_threat_prefix_sources db \<union> fst ` set ps"
proof (induction ps arbitrary: db)
  case (Cons p ps)
  have "load_existing_threat_prefix_sources (persist_changed J ids now p db) = insert (fst p) (load_existing_threat_prefix_sources db)"
    by (auto simp: load_existing_threat_prefix_sources_def persist_changed_def persist_threat_source_prefixes_def)
  then show ?case using Cons by simp
qed simp

definition known_fp :: "firewall_db \<Rightarrow> string \<Rightarrow> string \<Rightarrow> bool" where
  "known_fp db n f \<longleftrightarrow>
     (\<exists>r\<in>set (db_threat_states db). tss_policy_name r = default_policy_name \<and> tss_source_name r = n) \<and>
     (\<forall>r\<in>set (db_threat_states db). tss_policy_name r = default_policy_name \<and> tss_source_name r = n \<longrightarrow> tss_fingerprint r = f)"

lemma known_fp_load:
  assumes "known_fp db n f"
  shows "\<exists>r. load_existing_threat_states db n = Some r \<and> tss_fingerprint r = f"
proof -
  let ?rs = "filter (\<lambda>r. tss_policy_name r = default_policy_name) (db_threat_states db)"
  let ?m = "rev (map (\<lambda>r. (tss_source_name r, r)) ?rs)"
  have "n \<in> fst ` set ?m" using assms by (force simp: known_fp_def)
  then obtain r where r: "map_of ?m n = Some r" by (metis domIff dom_map_of_conv_image_fst option.exhaust)
  then have "(n, r) \<in> set ?m" by (rule map_of_SomeD)
  then show ?thesis using assms r by (auto simp: known_fp_def load_existing_threat_states_def)
qed

lemma upsert_known:
  assumes "state_of s f m"
  shows "known_fp (upsert_threat_source_state ids m db) (ts_name s) f"
    "ts_name s \<noteq> n \<Longrightarrow> known_fp db n f' \<Longrightarrow> known_fp (upsert_threat_source_state ids m db) n f'"
  using assms
  by (auto simp: known_fp_def upsert_threat_source_state_def Let_def state_of_def same_state_key_def list_ex_iff bex_Un
      split: if_splits)

lemma upserts_known:
  "\<forall>(s, f, m)\<in>set fms. state_of s f m \<Longrightarrow> distinct (map (ts_name \<circ> fst) fms) \<Longrightarrow> (s, f, m) \<in> set fms \<or>
      (known_fp db (ts_name s) f \<and> ts_name s \<notin> set (map (ts_name \<circ> fst) fms)) \<Longrightarrow>
    known_fp (fold (upsert_threat_source_state ids) (map (snd \<circ> snd) fms) db) (ts_name s) f"
proof (induction fms arbitrary: db)
  case (Cons x fms)
  obtain s1 f1 m1 where x: "x = (s1, f1, m1)" by (cases x)
  have st: "state_of s1 f1 m1" using Cons.prems(1) x by simp
  show ?case
  proof (cases "(s, f, m) \<in> set fms")
    case True
    then show ?thesis using Cons.IH Cons.prems by (simp add: x)
  next
    case False
    then have k: "known_fp (upsert_threat_source_state ids m1 db) (ts_name s) f"
      using Cons.prems(3) upsert_known [OF st] by (auto simp: x)
    have "ts_name s \<notin> set (map (ts_name \<circ> fst) fms)" using Cons.prems(2,3) False by (auto simp: x)
    then show ?thesis using Cons.IH Cons.prems(1,2) k by (simp add: x)
  qed
qed auto

lemma fold_keeps: "(\<And>x s. g (f x s) = g s) \<Longrightarrow> g (fold f xs s) = g s"
  by (induction xs arbitrary: s) simp_all

lemma upsert_keeps:
  "db_threat_sources (upsert_threat_source_state ids m db) = db_threat_sources db"
  "db_threat_prefixes (upsert_threat_source_state ids m db) = db_threat_prefixes db"
  "latest_version (upsert_threat_source_state ids m db) = latest_version db"
  by (simp_all add: upsert_threat_source_state_def Let_def latest_version_def find_policy_version_def)

lemma persist_keeps:
  "db_threat_sources (persist_changed J ids now p db) = db_threat_sources db"
  "db_threat_states (persist_changed J ids now p db) = db_threat_states db"
  "latest_version (persist_changed J ids now p db) = latest_version db"
  by (simp_all add: persist_changed_def persist_threat_source_prefixes_def latest_version_def find_policy_version_def)

lemma persisted_batch:
  assumes db1_def: "db1 = persist_threat_refresh_batch J ids now b db"
  shows "db_threat_sources db1 = db_threat_sources db"
    "load_existing_threat_prefix_sources db1 = load_existing_threat_prefix_sources db \<union> fst ` set (trb_changed b)"
    "db_threat_states db1 = db_threat_states (fold (upsert_threat_source_state ids) (trb_states b)
        (fold (persist_changed J ids (trb_checked_at b)) (trb_changed b) db))"
    "trb_changed b = [] \<Longrightarrow> trb_changed_source_count b = 0 \<Longrightarrow> db_threat_prefixes db1 = db_threat_prefixes db \<and> latest_version db1 = latest_version db"
    "0 < trb_changed_source_count b \<Longrightarrow> latest_version db1 = latest_version db + 1"
proof -
  note u = fold_keeps [of db_threat_sources "upsert_threat_source_state ids", OF upsert_keeps(1)]
    fold_keeps [of db_threat_prefixes "upsert_threat_source_state ids", OF upsert_keeps(2)]
    fold_keeps [of latest_version "upsert_threat_source_state ids", OF upsert_keeps(3)]
    fold_keeps [of db_threat_sources "persist_changed J ids (trb_checked_at b)", OF persist_keeps(1)]
    fold_keeps [of latest_version "persist_changed J ids (trb_checked_at b)", OF persist_keeps(3)]
  show "0 < trb_changed_source_count b \<Longrightarrow> latest_version db1 = latest_version db + 1"
    by (simp add: db1_def persist_threat_refresh_batch_def Let_def bump_version(1) u)
  show "db_threat_sources db1 = db_threat_sources db" by (simp add: db1_def persist_threat_refresh_batch_def Let_def u)
  show "load_existing_threat_prefix_sources db1 = load_existing_threat_prefix_sources db \<union> fst ` set (trb_changed b)"
    using persist_all_names [of J ids "trb_checked_at b" "trb_changed b" db]
    by (simp add: db1_def persist_threat_refresh_batch_def Let_def load_existing_threat_prefix_sources_def u)
  show "db_threat_states db1 = db_threat_states (fold (upsert_threat_source_state ids) (trb_states b)
        (fold (persist_changed J ids (trb_checked_at b)) (trb_changed b) db))"
    by (simp add: db1_def persist_threat_refresh_batch_def Let_def)
  show "trb_changed b = [] \<Longrightarrow> trb_changed_source_count b = 0 \<Longrightarrow> db_threat_prefixes db1 = db_threat_prefixes db \<and> latest_version db1 = latest_version db"
    by (simp add: db1_def persist_threat_refresh_batch_def Let_def u)
qed

lemma source_names:
  assumes "traverse threat_source_try_from rows = Inr srcs"
  shows "map ts_name srcs = map tsr_name rows"
  using assms
  by (induction rows arbitrary: srcs) (auto simp: res_simps threat_source_try_from_def)

lemma distinct_source_names:
  assumes "unique_rows source_table (db_threat_sources db)" "load_enabled_threat_sources db = Inr srcs"
  shows "distinct (map ts_name srcs)"
proof -
  have "distinct (map tsr_name (filter (\<lambda>r. tsr_policy_name r = default_policy_name \<and> tsr_enabled r) rs))"
    if "sorted_wrt (\<lambda>a b. \<not> at_clash source_table a b) rs" for rs
    using that by (induction rs) (auto simp: source_table_def)
  then show ?thesis
    using assms source_names by (fastforce simp: unique_rows_def load_enabled_threat_sources_def active_sources_def)
qed

section \<open>A second refresh\<close>

lemma threat_refresh_again:
  assumes u: "unique_rows source_table (db_threat_sources db)"
    and r: "refresh_enabled_threat_sources J ids fetch True now (\<lambda>_. db) db = (db1, Inr rep)"
  shows "\<exists>db2 rep2. refresh_enabled_threat_sources J ids' fetch True now' (\<lambda>_. db1) db1 = (db2, Inr rep2) \<and>
    tf_changed_source_count rep2 = 0 \<and> db_threat_prefixes db2 = db_threat_prefixes db1 \<and> latest_version db2 = latest_version db1"
proof -
  obtain srcs where srcs: "load_enabled_threat_sources db = Inr srcs"
    using r by (auto simp: refresh_enabled_threat_sources_def split: sum.splits)
  show ?thesis
  proof (cases "srcs = []")
    case True
    then have "db1 = db" using r srcs by (simp add: refresh_enabled_threat_sources_def)
    then show ?thesis using srcs True by (simp add: refresh_enabled_threat_sources_def threat_report_empty_def)
  next
    case False
    let ?known = "load_existing_threat_states db" and ?names = "load_existing_threat_prefix_sources db"
    obtain b where b: "refresh_threat_source_batch fetch srcs ?known ?names now = Inr b"
      and db1: "db1 = persist_threat_refresh_batch J ids now b db"
      using r srcs False by (auto simp: refresh_enabled_threat_sources_def split: sum.splits)
    obtain fms where fms: "map fst fms = srcs" "\<forall>(s, f, m)\<in>set fms. fetched fetch s f \<and> state_of s f m"
      "trb_states b = map (snd \<circ> snd) fms" "ts_name ` set srcs \<subseteq> ?names \<union> fst ` set (trb_changed b)"
      using refresh_sources_parts [OF b [unfolded refresh_threat_source_batch_def]] by auto
    note p = persisted_batch [OF db1]
    have d: "distinct (map (ts_name \<circ> fst) fms)"
      using distinct_source_names [OF u srcs] by (simp add: fms(1) [symmetric])
    have unchanged: "\<exists>ps. fetch s = Inr ps \<and> length (normalize_prefixes ps) \<le> 2147483647 \<and>
        \<not> threat_source_changed s (threat_prefix_fingerprint (normalize_prefixes ps)) (load_existing_threat_states db1)
            (load_existing_threat_prefix_sources db1)" if s: "s \<in> set srcs" for s
    proof -
      have "s \<in> fst ` set fms" using s fms(1) by (metis set_map)
      then obtain f m where m: "(s, f, m) \<in> set fms" by auto
      then have f: "fetched fetch s f" using fms(2) by auto
      have "\<forall>(s, f, m)\<in>set fms. state_of s f m" using fms(2) by auto
      from upserts_known [OF this d, of s f m _ ids] m
      have "known_fp db1 (ts_name s) f" by (simp add: known_fp_def p(3) fms(3))
      then obtain st where "load_existing_threat_states db1 (ts_name s) = Some st" "tss_fingerprint st = f"
        using known_fp_load by blast
      moreover have "ts_name s \<in> load_existing_threat_prefix_sources db1" using fms(4) s p(2) by auto
      ultimately show ?thesis using f by (auto simp: fetched_def threat_source_changed_def)
    qed
    have srcs1: "load_enabled_threat_sources db1 = Inr srcs"
      using srcs p(1) by (simp add: load_enabled_threat_sources_def active_sources_def)
    obtain b1 where b1: "refresh_threat_source_batch fetch srcs (load_existing_threat_states db1)
        (load_existing_threat_prefix_sources db1) now' = Inr b1" "trb_changed b1 = []" "trb_changed_source_count b1 = 0"
      using refresh_sources_unchanged [OF unchanged, of srcs now'] by (force simp: refresh_threat_source_batch_def)
    then show ?thesis
      using srcs1 False persisted_batch(4) [OF refl b1(2,3), of J ids' now' db1]
      by (simp add: refresh_enabled_threat_sources_def threat_refresh_report_of_def)
  qed
qed

end
