(* ===== verification/Access_Claims.thy ===== *)
theory Access_Claims
  imports Store_Claims Control_Access Threat_Settled
begin

text \<open>
  Who can change the store and what settles in it: a write from outside carries the token or was allowed
  in through an open port, the agent's token, the commands of a standby, a repeated refresh of the threat
  lists, and a stored country list that a refresh cannot repair.
\<close>

section \<open>Requests\<close>

lemma api_write_admitted:
  assumes "server_write S ev = Some w" "api_headers ev = Some h"
  shows "\<not> sv_standby S \<and> require_api_token (api_token S) h"
proof (cases ev)
  case (ApiCall h' seen req)
  then show ?thesis using assms by (cases req) (auto simp: api_admits_def reject_writes_in_standby_def is_write_method_def split: if_splits)
qed (use assms in \<open>auto simp: api_admits_def reject_writes_in_standby_def is_write_method_def split: if_splits\<close>)

lemma xds_write_admitted:
  assumes "server_write S ev = Some w" "xds_headers ev = Some h"
  shows "\<not> sv_standby S \<and> authorized (agent_token S) h"
  using assms by (cases ev) (auto simp: report_heartbeat_def split: if_splits)

lemma own_write_not_standby:
  "server_write S ev = Some w \<Longrightarrow> api_headers ev = None \<Longrightarrow> xds_headers ev = None \<Longrightarrow> \<not> sv_standby S"
  by (cases ev) (auto split: if_splits)

text \<open>C26: nobody outside changes the store without the token: in a process that was allowed to listen, an event that
  changes the database is not in standby; if it came through the API its request carried exactly the
  configured API token, if it came through xDS its call carried exactly the agent token, unless that port has
  no token and then listens on a loopback address or was opened by its explicit environment switch. A standby
  process changes nothing at all.\<close>

theorem server_writes_authorized:
  assumes "server_listens S = Inr ()" and "server_step S W ev db \<noteq> db"
  shows "\<not> sv_standby S \<and>
    (\<forall>h. api_headers ev = Some h \<longrightarrow>
       (case api_token S of Some t \<Rightarrow> request_token h = Some t
        | None \<Rightarrow> is_loopback (sv_api_bind S) \<or> allow_unauthenticated_from_env (sv_env S))) \<and>
    (\<forall>h. xds_headers ev = Some h \<longrightarrow>
       (case agent_token S of Some t \<Rightarrow> metadata_token h = Some t
        | None \<Rightarrow> is_loopback (sv_xds_bind S) \<or> flag_value (sv_env S ''XDP_FIREWALL_ALLOW_UNAUTHENTICATED_XDS'')))"
proof -
  obtain w where w: "server_write S ev = Some w"
    using assms(2) by (auto simp: server_step_def split: option.splits)
  have l: "api_token S = None \<Longrightarrow> is_loopback (sv_api_bind S) \<or> allow_unauthenticated_from_env (sv_env S)"
    "agent_token S = None \<Longrightarrow> is_loopback (sv_xds_bind S) \<or> flag_value (sv_env S ''XDP_FIREWALL_ALLOW_UNAUTHENTICATED_XDS'')"
    using assms(1) by (auto simp: server_listens_def api_bind_allowed_def xds_bind_allowed_def split: if_splits)
  have "\<not> sv_standby S"
    using api_write_admitted [OF w] xds_write_admitted [OF w] own_write_not_standby [OF w] by (metis not_None_eq)
  moreover have "case api_token S of Some t \<Rightarrow> request_token h = Some t
      | None \<Rightarrow> is_loopback (sv_api_bind S) \<or> allow_unauthenticated_from_env (sv_env S)" if "api_headers ev = Some h" for h
    using api_write_admitted [OF w that] l(1) by (auto simp: require_api_token_def split: option.splits)
  moreover have "case agent_token S of Some t \<Rightarrow> metadata_token h = Some t
      | None \<Rightarrow> is_loopback (sv_xds_bind S) \<or> flag_value (sv_env S ''XDP_FIREWALL_ALLOW_UNAUTHENTICATED_XDS'')"
    if "xds_headers ev = Some h" for h
    using xds_write_admitted [OF w that] l(2) by (auto simp: authorized_def constant_time_eq_iff split: option.splits)
  ultimately show ?thesis by blast
qed

definition sample_server :: server_config where
  "sample_server =
     \<lparr>sv_standby = False, sv_env = [''XDP_FIREWALL_API_TOKEN'' \<mapsto> ''s3cret''], sv_api_bind = V4 0, sv_xds_bind = V4 0,
      sv_agent_token = Some ''agent''\<rparr>"

definition sample_request_headers :: header_map where
  "sample_request_headers = [''authorization'' \<mapsto> ''Bearer s3cret'']"

lemma trim_samples:
  "trim ''s3cret'' = ''s3cret''" "trim ''agent'' = ''agent''" "trim ''agent '' = ''agent''"
  by (simp_all add: trim_def is_space_def)

lemma sample_server_tokens:
  "api_token sample_server = Some ''s3cret''" "agent_token sample_server = Some ''agent''"
  "request_token sample_request_headers = Some ''s3cret''"
  by (simp_all add: api_token_def api_token_from_env_def trimmed_token_def agent_token_def configured_agent_token_def
      sample_server_def request_token_def bearer_or_def sample_request_headers_def strip_prefix_def trim_samples)

theorem server_writes_authorized_witness:
  "server_step sample_server sample_writer (ApiCall sample_request_headers empty_db BumpPolicyVersion) empty_db \<noteq> empty_db \<and>
   request_token sample_request_headers = Some ''s3cret''"
proof -
  let ?ev = "ApiCall sample_request_headers empty_db BumpPolicyVersion"
  have l: "server_listens sample_server = Inr ()"
    by (simp add: server_listens_def sample_server_tokens api_bind_allowed_def xds_bind_allowed_def)
  have "\<not> sv_standby sample_server" by (simp add: sample_server_def)
  then have "api_admits sample_server sample_request_headers POST"
    by (simp add: api_admits_def require_api_token_def sample_server_tokens reject_writes_in_standby_def)
  then have c: "server_step sample_server sample_writer ?ev empty_db \<noteq> empty_db"
    by (simp add: server_step_def sample_writer_def sample_api_def bump_policy_version_def next_policy_version_def
        next_policy_version_in_transaction_def find_policy_version_def empty_db_def)
  show ?thesis using server_writes_authorized [OF l c] c by (simp add: sample_server_tokens)
qed

section \<open>The agent's token\<close>

text \<open>C27: the token of an agent configured like its server is accepted exactly when it has no surrounding white
  space: the server and the agent keep the configured text as it is, and only what arrives is trimmed, so
  with a trailing space every call of the agent is refused.\<close>

theorem agent_token_accepted_iff_trimmed:
  assumes "configured_agent_token v = Some t" and "with_auth is_value (configured_agent_token v) = Inr h"
  shows "authorized (configured_agent_token v) h \<longleftrightarrow> trim t = t"
  using metadata_token_with_auth [OF assms(1), of is_value h] assms by (auto simp: authorized_def constant_time_eq_iff)

theorem agent_token_accepted_iff_trimmed_witness:
  "(\<exists>h. with_auth (\<lambda>_. True) (configured_agent_token (Some ''agent'')) = Inr h \<and>
      authorized (configured_agent_token (Some ''agent'')) h) \<and>
   (\<exists>h. with_auth (\<lambda>_. True) (configured_agent_token (Some ''agent '')) = Inr h \<and>
      \<not> authorized (configured_agent_token (Some ''agent '')) h)"
proof -
  have c: "configured_agent_token (Some ''agent'') = Some ''agent''" "configured_agent_token (Some ''agent '') = Some ''agent ''"
    by (simp_all add: configured_agent_token_def trim_samples)
  have "\<exists>h. with_auth (\<lambda>_. True) (Some t) = Inr h" for t by (simp add: with_auth_def)
  then show ?thesis
    using agent_token_accepted_iff_trimmed [where is_value = "\<lambda>_. True", OF c(1)]
      agent_token_accepted_iff_trimmed [where is_value = "\<lambda>_. True", OF c(2)]
    by (metis c trim_samples(2,3) list.distinct(1) append_self_conv append_Cons append_Nil)
qed

section \<open>The commands of a standby\<close>

text \<open>Of the commands only \<^verbatim>\<open>policy show\<close> writes in standby mode, and it does: on a new database it stores the
  built-in policy and moves the version.\<close>

lemma standby_command_writes:
  assumes "flag_value (env ''XDP_FIREWALL_STANDBY'')" "main_command env E c db \<noteq> db"
  shows "c = PolicyShow"
  using assms
  by (cases "allowed_in_agent_only_mode env c")
    (auto simp: main_command_def allowed_in_standby_mode_def run_policy_command_def split: sum.splits if_splits)

definition sample_seed_api :: api_env where
  "sample_seed_api = sample_api\<lparr>ae_next_id := (\<lambda>db. word_of_nat (length (db_threat_sources db)))\<rparr>"

lemma standby_policy_show_writes:
  "main_command [''XDP_FIREWALL_STANDBY'' \<mapsto> ''1''] sample_seed_api PolicyShow empty_db \<noteq> empty_db"
proof -
  let ?env = "[''XDP_FIREWALL_STANDBY'' \<mapsto> ''1'']"
  have f: "flag_value (?env ''XDP_FIREWALL_STANDBY'')" "\<not> flag_value (?env ''XDP_FIREWALL_AGENT_ONLY'')"
    by (simp_all add: flag_value_def to_lower_def ascii_lower_def)
  have "allowed_in_agent_only_mode ?env PolicyShow = Inr ()" using f(2) unfolding allowed_in_agent_only_mode_def by simp
  moreover have "allowed_in_standby_mode ?env PolicyShow = Inr ()" using f(1) unfolding allowed_in_standby_mode_def by simp
  ultimately have m: "main_command ?env sample_seed_api PolicyShow empty_db = fst (ensure_builtin_policy sample_seed_api empty_db)"
    by (simp add: main_command_def run_policy_command_def)
  have "db_policy_versions (fst (ensure_builtin_policy sample_seed_api empty_db)) \<noteq> []" by code_simp
  moreover have "db_policy_versions empty_db = []" by (simp add: empty_db_def)
  ultimately show ?thesis unfolding m by metis
qed

section \<open>Refreshing again\<close>

text \<open>C28: a refresh of the threat lists settles: refreshing a second time, whenever that is, with the same downloads
  and no other write in between, finds no changed source, leaves every stored list as it is and does not move
  the policy version, so no agent is sent a policy again for nothing.\<close>

theorem threat_refresh_settles:
  assumes "store_inv C db"
    and "refresh_enabled_threat_sources J ids fetch True now (\<lambda>_. db) db = (db1, Inr rep)"
  shows "\<exists>db2 rep2. refresh_enabled_threat_sources J ids' fetch True now' (\<lambda>_. db1) db1 = (db2, Inr rep2) \<and>
    tf_changed_source_count rep2 = 0 \<and> db_threat_prefixes db2 = db_threat_prefixes db1 \<and> latest_version db2 = latest_version db1"
  using threat_refresh_again [OF _ assms(2)] assms(1) by (simp add: store_inv_def)

definition sample_feed_db :: firewall_db where
  "sample_feed_db = empty_db\<lparr>db_threat_sources :=
     [\<lparr>tsr_id = 1, tsr_policy_name = default_policy_name, tsr_enabled = True, tsr_name = ''feed'',
       tsr_url = ''https://feeds.example/list'', tsr_format = ''cidr'', tsr_min_score = None, tsr_updated_at = 0\<rparr>]\<rparr>"

definition sample_feed :: "threat_source \<Rightarrow> threat_prefix list res" where
  "sample_feed s = Inr [\<lparr>tp_addr = V4 0xCB007100, tp_prefix = 24\<rparr>]"

definition sample_refresh_ids :: refresh_ids where
  "sample_refresh_ids = \<lparr>rid_prefix = (\<lambda>_. 1), rid_state = (\<lambda>_. 1)\<rparr>"

theorem threat_refresh_settles_witness:
  "\<exists>db1 rep db2 rep2.
     refresh_enabled_threat_sources ref_json sample_refresh_ids sample_feed True 5 (\<lambda>_. sample_feed_db) sample_feed_db = (db1, Inr rep) \<and>
     tf_changed_source_count rep = 1 \<and> latest_version db1 = 1 \<and>
     refresh_enabled_threat_sources ref_json sample_refresh_ids sample_feed True 9 (\<lambda>_. db1) db1 = (db2, Inr rep2) \<and>
     tf_changed_source_count rep2 = 0 \<and> latest_version db2 = 1"
proof -
  have i: "store_inv no_checks sample_feed_db"
    using store_inv_empty [of no_checks] by (simp add: store_inv_def sample_feed_db_def unique_rows_def no_checks_def)
  have f: "parse_format ''cidr'' = Inr FmtCidr" by code_simp
  obtain src where src: "load_enabled_threat_sources sample_feed_db = Inr [src]" "ts_name src = ''feed''"
    by (simp add: load_enabled_threat_sources_def active_sources_def sample_feed_db_def threat_source_try_from_def
        f optional_i32_to_u32_def)
  have n: "normalize_prefixes [\<lparr>tp_addr = V4 0xCB007100, tp_prefix = 24\<rparr>] = [\<lparr>tp_addr = V4 0xCB007100, tp_prefix = 24\<rparr>]"
    by code_simp
  have e: "load_existing_threat_states sample_feed_db = Map.empty" "load_existing_threat_prefix_sources sample_feed_db = {}"
    by (simp_all add: load_existing_threat_states_def load_existing_threat_prefix_sources_def sample_feed_db_def empty_db_def)
  obtain b where b: "refresh_threat_source_batch sample_feed [src] Map.empty {} 5 = Inr b" "trb_changed_source_count b = 1"
    by (simp add: refresh_threat_source_batch_def refresh_one_source_def fetch_normalized_source_prefixes_def sample_feed_def n Let_def
        threat_source_changed_def threat_source_refresh_state_def)
  obtain db1 rep where r: "refresh_enabled_threat_sources ref_json sample_refresh_ids sample_feed True 5 (\<lambda>_. sample_feed_db) sample_feed_db = (db1, Inr rep)"
    "tf_changed_source_count rep = 1" "db1 = persist_threat_refresh_batch ref_json sample_refresh_ids 5 b sample_feed_db"
    using src e b by (simp add: refresh_enabled_threat_sources_def threat_refresh_report_of_def)
  have "latest_version sample_feed_db = 0"
    by (simp add: latest_version_def find_policy_version_def sample_feed_db_def empty_db_def)
  then have "latest_version db1 = 1" using persisted_batch(5) [OF r(3)] b(2) by simp
  then show ?thesis using threat_refresh_settles [OF i r(1), of sample_refresh_ids 9] r(1,2) by auto
qed

section \<open>A list that stays missing\<close>

definition refresh_at ::
    "ipnet_lib \<Rightarrow> net_text \<Rightarrow> json_lib \<Rightarrow> geo_client \<Rightarrow> geo_ids \<Rightarrow> string \<Rightarrow> datetime \<Rightarrow> firewall_db \<Rightarrow> firewall_db" where
  "refresh_at N T J client ids country now db = fst (refresh_one_country N T J client ids now db country db)"

definition serves_unmodified :: "geo_client \<Rightarrow> string \<Rightarrow> string option \<Rightarrow> string \<Rightarrow> bool" where
  "serves_unmodified client country modified tag \<longleftrightarrow>
     (\<exists>m r. fetch_country_metadata client country = Inr m \<and> im_last_modified m = modified \<and> im_etag m = Some tag \<and>
        (\<forall>url. gcl_get client url (Some tag) (non_empty modified) = Inr r) \<and> gh_not_modified r)"

definition known_list :: "firewall_db \<Rightarrow> string \<Rightarrow> string option \<Rightarrow> string \<Rightarrow> bool" where
  "known_list db country modified tag \<longleftrightarrow>
     (\<exists>st. load_geo_ip_list_state db country = Some st \<and> gls_last_modified st = modified \<and> gls_etag st = Some tag)"

lemma load_touched:
  assumes "load_geo_ip_list_state db country = Some st"
  shows "\<exists>st'. load_geo_ip_list_state (db\<lparr>db_geo_list_states := map (\<lambda>r. if gls_id r = gls_id st
      then r\<lparr>gls_last_modified := lm, gls_etag := et, gls_last_checked_at := now\<rparr> else r) (db_geo_list_states db)\<rparr>) country = Some st' \<and>
    gls_last_modified st' = lm \<and> gls_etag st' = et"
proof -
  have "find (\<lambda>r. gls_country r = country) rs = Some st \<Longrightarrow>
      find (\<lambda>r. gls_country r = country) (map (\<lambda>r. if gls_id r = gls_id st
        then r\<lparr>gls_last_modified := lm, gls_etag := et, gls_last_checked_at := now\<rparr> else r) rs) =
      Some (st\<lparr>gls_last_modified := lm, gls_etag := et, gls_last_checked_at := now\<rparr>)" for rs
    by (induction rs) (auto split: if_splits)
  then show ?thesis using assms by (simp add: load_geo_ip_list_state_def)
qed

lemma refresh_of_known_list:
  assumes "normalize_country country = Inr country" "find_catalog db country = Some c"
    and "serves_unmodified client country modified tag" "tag \<noteq> []" "known_list db country modified tag"
  shows "\<exists>db'. refresh_one_country N T J client ids now db country db = (db', Inr None) \<and> db_geo_prefixes db' = db_geo_prefixes db \<and>
    db_geo_catalog db' = db_geo_catalog db \<and> known_list db' country modified tag"
proof -
  obtain m r where m: "fetch_country_metadata client country = Inr m" "im_last_modified m = modified" "im_etag m = Some tag"
    "\<And>url. gcl_get client url (Some tag) (non_empty modified) = Inr r" "gh_not_modified r"
    using assms(3) by (auto simp: serves_unmodified_def)
  obtain st where st: "load_geo_ip_list_state db country = Some st" "gls_last_modified st = modified" "gls_etag st = Some tag"
    using assms(5) by (auto simp: known_list_def)
  have "st \<in> set (db_geo_list_states db)" using st(1) by (auto simp: load_geo_ip_list_state_def find_Some_iff)
  then have "\<exists>db'. touch_existing_geo_ip_state now (Some st) m db = Inr db' \<and> db_geo_prefixes db' = db_geo_prefixes db \<and>
      db_geo_catalog db' = db_geo_catalog db \<and> known_list db' country modified tag"
    using load_touched [OF st(1), where lm = "im_last_modified m" and et = "im_etag m" and now = now]
    by (auto simp: touch_existing_geo_ip_state_def list_ex_iff m(2,3) known_list_def)
  moreover have "fetch_country_prefixes_streaming N T client country (Some st) = Inr None"
    using assms(1,4) m(4,5) st
    by (simp add: fetch_country_prefixes_streaming_def ipdeny_country_url_def conditional_country_request_def non_empty_def)
  moreover have "fetch_country_metadata_or_catalog client country c (Some st) = m"
    by (simp add: fetch_country_metadata_or_catalog_def m(1))
  ultimately show ?thesis using assms(2) st(1) by (auto simp: refresh_one_country_def Let_def)
qed

lemma refresh_at_known_list:
  assumes "normalize_country country = Inr country" "find_catalog db country = Some c"
    and "serves_unmodified client country modified tag" "tag \<noteq> []" "known_list db country modified tag"
  shows "db_geo_prefixes (refresh_at N T J client ids country now db) = db_geo_prefixes db \<and>
    db_geo_catalog (refresh_at N T J client ids country now db) = db_geo_catalog db \<and>
    known_list (refresh_at N T J client ids country now db) country modified tag"
  using refresh_of_known_list [OF assms, of N T J ids now] by (auto simp: refresh_at_def)

text \<open>A country list whose stored prefixes are missing stays missing: when the state row knows the list's
  current entity tag, every refresh asks for the list with that tag although the prefixes are gone, is told
  that nothing changed and reports the country as unchanged, and after any number of refreshes the stored
  prefixes are what they were.\<close>

theorem missing_list_stays_missing:
  assumes "normalize_country country = Inr country" and "find_catalog db country = Some c"
    and "serves_unmodified client country modified tag" and "tag \<noteq> []" and "known_list db country modified tag"
    and "\<not> has_persisted_country_prefixes T J db country"
  shows "\<not> has_persisted_country_prefixes T J (fold (refresh_at N T J client ids country) instants db) country \<and>
    snd (refresh_one_country N T J client ids now (fold (refresh_at N T J client ids country) instants db) country
      (fold (refresh_at N T J client ids country) instants db)) = Inr None"
proof -
  have "db_geo_prefixes (fold (refresh_at N T J client ids country) instants db) = db_geo_prefixes db \<and>
      db_geo_catalog (fold (refresh_at N T J client ids country) instants db) = db_geo_catalog db \<and>
      known_list (fold (refresh_at N T J client ids country) instants db) country modified tag"
  proof (induction instants rule: rev_induct)
    case (snoc t ts)
    let ?d = "fold (refresh_at N T J client ids country) ts db"
    have "find_catalog ?d country = Some c" using assms(2) snoc.IH by (simp add: find_catalog_def)
    from refresh_at_known_list [OF assms(1) this assms(3,4), of N T J ids t] snoc.IH show ?case by simp
  qed (simp add: assms(5))
  note f = this
  then have "find_catalog (fold (refresh_at N T J client ids country) instants db) country = Some c"
    using assms(2) by (simp add: find_catalog_def)
  from refresh_of_known_list [OF assms(1) this assms(3,4), of N T J ids now] f assms(6)
  show ?thesis by (auto simp: has_persisted_country_prefixes_def load_geo_ip_prefix_row_def)
qed

definition sample_list_db :: firewall_db where
  "sample_list_db = empty_db
     \<lparr>db_geo_catalog := [\<lparr>gcc_id = 1, gcc_code = ''CN'', gcc_name = ''China'', gcc_url = [], gcc_last_modified = None,
        gcc_size_bytes = None, gcc_last_checked_at = 0, gcc_updated_at = 0\<rparr>],
      db_geo_list_states := [\<lparr>gls_id = 1, gls_country = ''CN'', gls_url = [], gls_last_modified = None, gls_etag = Some ''v1'',
        gls_prefix_count = 1, gls_last_checked_at = 0, gls_last_downloaded_at = Some 0, gls_updated_at = 0\<rparr>]\<rparr>"

definition sample_list_answer :: geo_response where
  "sample_list_answer =
     \<lparr>hr_status_redirection = False, hr_status_error = False, hr_content_length = None, hr_chunks = [], gh_not_modified = True, gh_last_modified = None,
      gh_etag = Some ''v1''\<rparr>"

definition sample_list_client :: geo_client where
  "sample_list_client = \<lparr>gcl_head = (\<lambda>_. Inr sample_list_answer), gcl_get = (\<lambda>_ _ _. Inr sample_list_answer)\<rparr>"

theorem missing_list_stays_missing_witness:
  "\<not> has_persisted_country_prefixes ref_net_text ref_json
       (fold (refresh_at ref_ipnet ref_net_text ref_json sample_list_client (we_geo_ids sample_writer) ''CN'') [1, 2] sample_list_db) ''CN''"
proof -
  have n: "normalize_country ''CN'' = Inr ''CN''" by code_simp
  have c: "\<exists>c. find_catalog sample_list_db ''CN'' = Some c" by (simp add: find_catalog_def sample_list_db_def)
  have t: "header_string (Some ''v1'') = Some ''v1''" by (simp add: header_string_def trim_def is_space_def)
  have s: "serves_unmodified sample_list_client ''CN'' None ''v1''"
    by (simp add: serves_unmodified_def fetch_country_metadata_def n ipdeny_country_url_def sample_list_client_def sample_list_answer_def
        metadata_from_headers_def t) (simp add: header_string_def)
  have k: "known_list sample_list_db ''CN'' None ''v1''" by (simp add: known_list_def load_geo_ip_list_state_def sample_list_db_def)
  have p: "\<not> has_persisted_country_prefixes ref_net_text ref_json sample_list_db ''CN''"
    by (simp add: has_persisted_country_prefixes_def load_geo_ip_prefix_row_def sample_list_db_def empty_db_def)
  show ?thesis using c missing_list_stays_missing [OF n _ s _ k p, where instants = "[1, 2]"] by blast
qed

end
