(* ===== verification/Address_Lookups.thy ===== *)
theory Address_Lookups
  imports Policy_View Geo_Refresh
begin

text \<open>
  The lookups that label a reported drop: which threat sources list an address
  (\<^verbatim>\<open>intelligence/threat/lookup.rs\<close>, \<^verbatim>\<open>threat/lookup/\<close>), which country it is in (\<^verbatim>\<open>intelligence/geo/lookup.rs\<close>,
  \<^verbatim>\<open>geo/lookup/\<close>), the view built from a report (\<^verbatim>\<open>xds/drop_events/report.rs\<close>) and its delivery to a subscriber
  (\<^verbatim>\<open>xds/drop_events.rs\<close>). The MMDB crates are the parameter \<open>mmdb\<close>: which networks a writer accepts and what a
  reader of the written entries finds. The threat lookup is a state machine: lookups, forced rebuilds and the
  background rebuild interleave while the database changes.
\<close>

section \<open>Lookup files\<close>

record 'v mmdb =
  mm_accepts :: "ipnet \<Rightarrow> bool"
  mm_find :: "(ipnet \<times> 'v) list \<Rightarrow> ipaddr \<Rightarrow> 'v option"

section \<open>Threat sources by network\<close>

definition load_enabled_threat_source_names :: "firewall_db \<Rightarrow> string set" where
  "load_enabled_threat_source_names db =
     tsr_name ` set (filter (\<lambda>r. tsr_policy_name r = default_policy_name \<and> tsr_enabled r) (db_threat_sources db))"

text \<open>The \<^verbatim>\<open>BTreeMap\<close> of \<^verbatim>\<open>BTreeSet\<close>s the pairs end up in.\<close>

definition by_cidr :: "(string \<times> string) list \<Rightarrow> (string \<times> string list) list" where
  "by_cidr pairs =
     map (\<lambda>c. (c, sort (remdups (map snd (filter (\<lambda>p. fst p = c) pairs))))) (sort (remdups (map fst pairs)))"

definition row_cidrs :: "ipnet_lib \<Rightarrow> net_text \<Rightarrow> json_lib \<Rightarrow> threat_prefix_row \<Rightarrow> (string \<times> string) list res" where
  "row_cidrs N T J row = mapE (map (\<lambda>p. (prefix_to_cidr p, tpr_source_name row))) (persisted_prefixes N T J row)"

text \<open>Two queries: the names at one moment, the prefix rows at a later one.\<close>

definition load_threat_sources_by_cidr ::
    "ipnet_lib \<Rightarrow> net_text \<Rightarrow> json_lib \<Rightarrow> string set \<Rightarrow> firewall_db \<Rightarrow> (string \<times> string list) list res" where
  "load_threat_sources_by_cidr N T J names db =
     (if names = {} then Inr []
      else mapE (\<lambda>ps. by_cidr (concat ps))
        (traverse (row_cidrs N T J)
          (order_by tpr_source_name (filter (\<lambda>r. tpr_policy_name r = default_policy_name \<and> tpr_source_name r \<in> names)
            (db_threat_prefixes db)))))"

type_synonym threat_database = "(ipnet \<times> string) list"

definition build_threat_intel_database ::
    "net_text \<Rightarrow> string mmdb \<Rightarrow> (string \<times> string list) list \<Rightarrow> threat_database res" where
  "build_threat_intel_database T M =
     traverse (\<lambda>(cidr, sources).
       bindE (ok_or (Internal ''invalid persisted threat CIDR'') (nt_parse T cidr)) (\<lambda>net.
       if mm_accepts M net then Inr (net, join_with '','' sources) else Inl (Internal ''MMDB insert'')))"

section \<open>The threat lookup\<close>

definition threat_lookup_version_check_interval :: duration where
  "threat_lookup_version_check_interval = 5 * nanos_per_second"

record threat_lookup_state =
  tl_version :: "i64 option"
  tl_last_checked :: "instant option"
  tl_rebuild_running :: bool
  tl_database :: "threat_database option"

definition new_threat_lookup :: threat_lookup_state where
  "new_threat_lookup = \<lparr>tl_version = None, tl_last_checked = None, tl_rebuild_running = False, tl_database = None\<rparr>"

definition should_check_version :: "instant \<Rightarrow> duration \<Rightarrow> threat_lookup_state \<Rightarrow> bool" where
  "should_check_version now interval s \<longleftrightarrow>
     (case tl_last_checked s of None \<Rightarrow> True | Some t \<Rightarrow> interval \<le> max 0 (now - t))"

definition lookup_label :: "string mmdb \<Rightarrow> ipaddr \<Rightarrow> threat_lookup_state \<Rightarrow> string option" where
  "lookup_label M ip s = (case tl_database s of None \<Rightarrow> None | Some d \<Rightarrow> mm_find M d ip)"

definition start_forced_rebuild :: "threat_lookup_state \<Rightarrow> threat_lookup_state \<times> bool" where
  "start_forced_rebuild s =
     (if tl_rebuild_running s then (s, False)
      else (s\<lparr>tl_rebuild_running := True, tl_database := None\<rparr>, True))"

definition start_rebuild_for_version ::
    "i64 \<Rightarrow> instant option \<Rightarrow> threat_lookup_state \<Rightarrow> threat_lookup_state \<times> bool" where
  "start_rebuild_for_version version checked_at s =
     (let s = (case checked_at of None \<Rightarrow> s | Some t \<Rightarrow> s\<lparr>tl_last_checked := Some t\<rparr>) in
      if tl_version s = Some version \<or> tl_rebuild_running s then (s, False)
      else (s\<lparr>tl_rebuild_running := True, tl_database := None\<rparr>, True))"

definition finish_rebuild :: "threat_lookup_state \<Rightarrow> threat_lookup_state" where
  "finish_rebuild s = s\<lparr>tl_rebuild_running := False\<rparr>"

definition install_database :: "i64 \<Rightarrow> threat_database \<Rightarrow> threat_lookup_state \<Rightarrow> threat_lookup_state" where
  "install_database version d s = s\<lparr>tl_version := Some version, tl_database := Some d\<rparr>"

definition clear_database :: "i64 \<Rightarrow> threat_lookup_state \<Rightarrow> threat_lookup_state" where
  "clear_database version s = s\<lparr>tl_version := Some version, tl_database := None\<rparr>"

text \<open>
  One lookup, when nothing comes between its lines: the version it read (if the query succeeded), the new
  state, whether a rebuild has to be spawned, and the label.
\<close>

definition lookup_source ::
    "string mmdb \<Rightarrow> instant \<Rightarrow> i64 option \<Rightarrow> ipaddr \<Rightarrow> threat_lookup_state \<Rightarrow> threat_lookup_state \<times> bool \<times> string option" where
  "lookup_source M now version ip s =
     (let (s', spawn) =
            (if should_check_version now threat_lookup_version_check_interval s
             then (case version of None \<Rightarrow> (s, False) | Some v \<Rightarrow> start_rebuild_for_version v (Some now) s)
             else (s, False))
      in (s', spawn, lookup_label M ip s'))"

text \<open>
  A rebuild in the background: the forced one reads the version first, then come the two queries, the file
  and its installation, and at last the flag. Each can fail, which leaves only the flag to clear.
\<close>

datatype rebuild_task =
    ReadVersion
  | ReadSources i64
  | ReadPrefixes i64 "string set"
  | StoreDatabase i64 threat_database
  | FinishRebuild

record lookup_world =
  lk_now :: nat
  lk_state :: threat_lookup_state
  lk_task :: "rebuild_task option"

definition rebuilt :: "ipnet_lib \<Rightarrow> net_text \<Rightarrow> json_lib \<Rightarrow> string mmdb \<Rightarrow> string set \<Rightarrow> firewall_db \<Rightarrow> threat_database res" where
  "rebuilt N T J M names db =
     bindE (load_threat_sources_by_cidr N T J names db) (build_threat_intel_database T M)"

definition store_rebuilt :: "i64 \<Rightarrow> threat_database \<Rightarrow> threat_lookup_state \<Rightarrow> threat_lookup_state" where
  "store_rebuilt v d s = (if d = [] then clear_database v s else install_database v d s)"

text \<open>
  \<open>h k\<close> is the database at moment \<open>k\<close>. A lookup that found the check due may meet any state when it takes the
  write lock, and the version it brings may be old, so \<open>queue\<close> does not repeat the test.
\<close>

inductive lookup_step ::
    "ipnet_lib \<Rightarrow> net_text \<Rightarrow> json_lib \<Rightarrow> string mmdb \<Rightarrow> (nat \<Rightarrow> firewall_db) \<Rightarrow> bool \<Rightarrow> lookup_world \<Rightarrow> lookup_world \<Rightarrow> bool"
  for N T J M h
where
  tick: "lookup_step N T J M h False w (w\<lparr>lk_now := lk_now w + 1\<rparr>)"
| queue: "k \<le> lk_now w \<Longrightarrow> start_rebuild_for_version (latest_version (h k)) (Some t) (lk_state w) = (s, spawn) \<Longrightarrow>
    lookup_step N T J M h False w
      (w\<lparr>lk_state := s, lk_task := (if spawn then Some (ReadSources (latest_version (h k))) else lk_task w)\<rparr>)"
| force: "start_forced_rebuild (lk_state w) = (s, spawn) \<Longrightarrow>
    lookup_step N T J M h True w (w\<lparr>lk_state := s, lk_task := (if spawn then Some ReadVersion else lk_task w)\<rparr>)"
| read_version: "lk_task w = Some ReadVersion \<Longrightarrow>
    lookup_step N T J M h False w (w\<lparr>lk_task := Some (ReadSources (latest_version (h (lk_now w))))\<rparr>)"
| read_sources: "lk_task w = Some (ReadSources v) \<Longrightarrow>
    lookup_step N T J M h False w
      (w\<lparr>lk_task := Some (ReadPrefixes v (load_enabled_threat_source_names (h (lk_now w))))\<rparr>)"
| read_prefixes: "lk_task w = Some (ReadPrefixes v names) \<Longrightarrow> rebuilt N T J M names (h (lk_now w)) = Inr d \<Longrightarrow>
    lookup_step N T J M h False w (w\<lparr>lk_task := Some (StoreDatabase v d)\<rparr>)"
| store: "lk_task w = Some (StoreDatabase v d) \<Longrightarrow>
    lookup_step N T J M h False w (w\<lparr>lk_state := store_rebuilt v d (lk_state w), lk_task := Some FinishRebuild\<rparr>)"
| fail: "lk_task w = Some t \<Longrightarrow> lookup_step N T J M h False w (w\<lparr>lk_task := Some FinishRebuild\<rparr>)"
| finish: "lk_task w = Some FinishRebuild \<Longrightarrow>
    lookup_step N T J M h False w (w\<lparr>lk_state := finish_rebuild (lk_state w), lk_task := None\<rparr>)"

text \<open>Runs; the first flag tells whether a forced rebuild is allowed to start on the way.\<close>

inductive lookup_run ::
    "ipnet_lib \<Rightarrow> net_text \<Rightarrow> json_lib \<Rightarrow> string mmdb \<Rightarrow> (nat \<Rightarrow> firewall_db) \<Rightarrow> bool \<Rightarrow> lookup_world \<Rightarrow> lookup_world \<Rightarrow> bool"
  for N T J M h forced w0
where
  start: "lookup_run N T J M h forced w0 w0"
| extend: "lookup_run N T J M h forced w0 w \<Longrightarrow> lookup_step N T J M h f w w' \<Longrightarrow> f \<longrightarrow> forced \<Longrightarrow>
    lookup_run N T J M h forced w0 w'"

definition initial_lookup_world :: lookup_world where
  "initial_lookup_world = \<lparr>lk_now = 0, lk_state = new_threat_lookup, lk_task = None\<rparr>"

section \<open>What the lookup knows\<close>

text \<open>The database a rebuild would give at one moment.\<close>

definition threat_database_of ::
    "ipnet_lib \<Rightarrow> net_text \<Rightarrow> json_lib \<Rightarrow> string mmdb \<Rightarrow> firewall_db \<Rightarrow> threat_database res" where
  "threat_database_of N T J M db = rebuilt N T J M (load_enabled_threat_source_names db) db"

lemma same_source_names: "same_policy_tables a b \<Longrightarrow> load_enabled_threat_source_names a = load_enabled_threat_source_names b"
  by (simp add: same_policy_tables_def load_enabled_threat_source_names_def active_sources_def)

lemma rebuilt_same:
  assumes "same_policy_tables a b"
  shows "rebuilt N T J M (load_enabled_threat_source_names a) a = rebuilt N T J M (load_enabled_threat_source_names a) b"
proof -
  have n: "load_enabled_threat_source_names a = tsr_name ` set (active_sources a)"
    by (simp add: load_enabled_threat_source_names_def active_sources_def)
  have "source_prefix_rows (load_enabled_threat_source_names a) a = source_prefix_rows (load_enabled_threat_source_names a) b"
    using assms unfolding n same_policy_tables_def by blast
  then show ?thesis
    by (simp add: rebuilt_def load_threat_sources_by_cidr_def source_prefix_rows_def [symmetric])
qed

text \<open>
  Where a version and what was read with it come from: the version was read first, then the names, then the
  prefixes.
\<close>

definition read_at ::
    "ipnet_lib \<Rightarrow> net_text \<Rightarrow> json_lib \<Rightarrow> string mmdb \<Rightarrow> (nat \<Rightarrow> firewall_db) \<Rightarrow> nat \<Rightarrow> i64 \<Rightarrow> threat_database \<Rightarrow> bool" where
  "read_at N T J M h now v d \<longleftrightarrow>
     (\<exists>k i j. k \<le> i \<and> i \<le> j \<and> j \<le> now \<and> latest_version (h k) = v \<and>
        rebuilt N T J M (load_enabled_threat_source_names (h i)) (h j) = Inr d)"

definition task_ok ::
    "ipnet_lib \<Rightarrow> net_text \<Rightarrow> json_lib \<Rightarrow> string mmdb \<Rightarrow> (nat \<Rightarrow> firewall_db) \<Rightarrow> nat \<Rightarrow> rebuild_task \<Rightarrow> bool" where
  "task_ok N T J M h now t \<longleftrightarrow>
     (case t of
        ReadSources v \<Rightarrow> \<exists>k\<le>now. latest_version (h k) = v
      | ReadPrefixes v names \<Rightarrow>
          \<exists>k i. k \<le> i \<and> i \<le> now \<and> latest_version (h k) = v \<and> names = load_enabled_threat_source_names (h i)
      | StoreDatabase v d \<Rightarrow> read_at N T J M h now v d
      | _ \<Rightarrow> True)"

definition lookup_ok ::
    "ipnet_lib \<Rightarrow> net_text \<Rightarrow> json_lib \<Rightarrow> string mmdb \<Rightarrow> (nat \<Rightarrow> firewall_db) \<Rightarrow> lookup_world \<Rightarrow> bool" where
  "lookup_ok N T J M h w \<longleftrightarrow>
     (tl_rebuild_running (lk_state w) \<longleftrightarrow> lk_task w \<noteq> None) \<and>
     (\<forall>t. lk_task w = Some t \<longrightarrow> task_ok N T J M h (lk_now w) t \<and> (t \<noteq> FinishRebuild \<longrightarrow> tl_database (lk_state w) = None)) \<and>
     (\<forall>d. tl_database (lk_state w) = Some d \<longrightarrow> (\<exists>v. tl_version (lk_state w) = Some v \<and> read_at N T J M h (lk_now w) v d))"

lemma read_at_later:
  assumes "read_at N T J M h now v d" "now \<le> now'"
  shows "read_at N T J M h now' v d"
proof -
  obtain k i j where o: "k \<le> i" "i \<le> j" "j \<le> now" "latest_version (h k) = v"
    "rebuilt N T J M (load_enabled_threat_source_names (h i)) (h j) = Inr d"
    using assms(1) by (auto simp: read_at_def)
  have "j \<le> now'" using o(3) assms(2) by simp
  then show ?thesis unfolding read_at_def using o by blast
qed

lemma task_ok_later:
  assumes "task_ok N T J M h now t" "now \<le> now'"
  shows "task_ok N T J M h now' t"
proof (cases t)
  case (ReadSources v)
  then obtain k where "k \<le> now" "latest_version (h k) = v" using assms(1) by (auto simp: task_ok_def)
  moreover have "k \<le> now'" using calculation(1) assms(2) by simp
  ultimately show ?thesis using ReadSources by (auto simp: task_ok_def)
next
  case (ReadPrefixes v names)
  then obtain k i where "k \<le> i" "i \<le> now" "latest_version (h k) = v" "names = load_enabled_threat_source_names (h i)"
    using assms(1) by (auto simp: task_ok_def)
  moreover have "i \<le> now'" using calculation(2) assms(2) by simp
  ultimately show ?thesis unfolding ReadPrefixes task_ok_def by auto
qed (use assms read_at_later in \<open>auto simp: task_ok_def\<close>)

lemma lookup_ok_initial: "lookup_ok N T J M h initial_lookup_world"
  by (simp add: lookup_ok_def initial_lookup_world_def new_threat_lookup_def)

lemmas lookup_state_defs = start_rebuild_for_version_def start_forced_rebuild_def finish_rebuild_def store_rebuilt_def
  clear_database_def install_database_def

lemma lookup_step_ok:
  assumes "lookup_step N T J M h f w w'" "lookup_ok N T J M h w"
  shows "lookup_ok N T J M h w'"
  using assms
proof cases
  case tick
  have t: "task_ok N T J M h (lk_now w) t \<Longrightarrow> task_ok N T J M h (Suc (lk_now w)) t" for t by (erule task_ok_later) simp
  have r: "read_at N T J M h (lk_now w) v d \<Longrightarrow> read_at N T J M h (Suc (lk_now w)) v d" for v d by (erule read_at_later) simp
  show ?thesis using assms(2) tick t r by (auto simp: lookup_ok_def)
next
  case (read_prefixes v names d)
  then show ?thesis using assms(2) by (fastforce simp: lookup_ok_def task_ok_def read_at_def)
qed (use assms(2) in \<open>auto simp: lookup_ok_def task_ok_def lookup_state_defs Let_def split: if_splits option.splits\<close>)

lemma lookup_run_ok: "lookup_run N T J M h forced w0 w \<Longrightarrow> lookup_ok N T J M h w0 \<Longrightarrow> lookup_ok N T J M h w"
  by (induction rule: lookup_run.induct) (auto intro: lookup_step_ok)

lemma read_at_current:
  assumes "versioned_history h" "read_at N T J M h now (latest_version (h now)) d"
  shows "threat_database_of N T J M (h now) = Inr d"
proof -
  obtain k i j where o: "k \<le> i" "i \<le> j" "j \<le> now" "latest_version (h k) = latest_version (h now)"
    and d: "rebuilt N T J M (load_enabled_threat_source_names (h i)) (h j) = Inr d"
    using assms(2) by (auto simp: read_at_def)
  have s: "same_policy_tables (h i) (h now)" "same_policy_tables (h j) (h now)"
    using history_between(1) [OF assms(1) _ _ o(4)] o by auto
  show ?thesis
    using d rebuilt_same [OF s(2)] same_source_names [OF s(1)] same_source_names [OF s(2)]
    by (simp add: threat_database_of_def)
qed

section \<open>Nothing left to look up\<close>

text \<open>The lookup has given up at a version: it has no database and sees no reason to rebuild.\<close>

definition given_up :: "i64 \<Rightarrow> lookup_world \<Rightarrow> bool" where
  "given_up v w \<longleftrightarrow> tl_version (lk_state w) = Some v \<and> tl_database (lk_state w) = None \<and>
     tl_rebuild_running (lk_state w) = False \<and> lk_task w = None"

lemma given_up_step:
  assumes "lookup_step N T J M h False w w'" "given_up v w" "\<And>k. latest_version (h k) = v"
  shows "given_up v w'"
  using assms(1)
proof cases
  case (queue k t s spawn)
  then show ?thesis using assms(2,3) by (auto simp: given_up_def start_rebuild_for_version_def Let_def)
qed (use assms(2) in \<open>auto simp: given_up_def\<close>)

lemma given_up_run:
  assumes "lookup_run N T J M h False w w'" "given_up v w" "\<And>k. latest_version (h k) = v"
  shows "given_up v w'"
  using assms(1,2)
proof (induction rule: lookup_run.induct)
  case (extend w1 f w2)
  then show ?case using given_up_step assms(3) by auto
qed

end
