(* ===== verification/Drop_Reports.thy ===== *)
theory Drop_Reports
  imports Address_Lookups Control_Access
begin

text \<open>
  The country lookup (\<^verbatim>\<open>intelligence/geo/lookup.rs\<close>, \<^verbatim>\<open>geo/lookup/rebuild.rs\<close>, \<^verbatim>\<open>rebuild/writer.rs\<close>), what becomes
  of a reported drop (\<^verbatim>\<open>xds/drop_events/report.rs\<close>, \<^verbatim>\<open>xds/drop_events.rs\<close>), the answer of a lookup over the API
  (\<^verbatim>\<open>api/geo_countries/lookup.rs\<close>) and the refreshes of the lists that are asked for by hand
  (\<^verbatim>\<open>api/geo_countries/refresh_task.rs\<close>, \<^verbatim>\<open>api/threat_sources/refresh_task.rs\<close>).
\<close>

section \<open>The country lookup\<close>

definition geoip_rebuild_page_size :: nat where "geoip_rebuild_page_size = 16"

text \<open>A value is the country's code and its name.\<close>

type_synonym geo_database = "(ipnet \<times> string \<times> string) list"

record geoip_builder =
  gb_entries :: geo_database
  gb_prefix_count :: nat
  gb_skipped_ipv6 :: nat

definition new_geoip_builder :: geoip_builder where
  "new_geoip_builder = \<lparr>gb_entries = [], gb_prefix_count = 0, gb_skipped_ipv6 = 0\<rparr>"

text \<open>The last name of a code stays, as in the collected \<^verbatim>\<open>HashMap\<close>.\<close>

definition load_geo_country_names :: "firewall_db \<Rightarrow> string \<Rightarrow> string option" where
  "load_geo_country_names db = map_of (rev (map (\<lambda>r. (gcc_code r, gcc_name r)) (db_geo_catalog db)))"

text \<open>A network the writer refuses ends the row; what was inserted before it stays.\<close>

fun write_country_prefixes :: "(string \<times> string) mmdb \<Rightarrow> string \<times> string \<Rightarrow> ipnet list \<Rightarrow> geoip_builder \<Rightarrow> geoip_builder" where
  "write_country_prefixes M value [] b = b"
| "write_country_prefixes M value (net # nets) b =
     (if \<not> is_ipv4 (net_addr net)
      then write_country_prefixes M value nets (b\<lparr>gb_skipped_ipv6 := gb_skipped_ipv6 b + 1\<rparr>)
      else if mm_accepts M net
      then write_country_prefixes M value nets
             (b\<lparr>gb_entries := gb_entries b @ [(net, value)], gb_prefix_count := gb_prefix_count b + 1\<rparr>)
      else b)"

definition write_country_row ::
    "net_text \<Rightarrow> json_lib \<Rightarrow> (string \<times> string) mmdb \<Rightarrow> (string \<Rightarrow> string option) \<Rightarrow> geo_ip_prefix_row \<Rightarrow>
       geoip_builder \<Rightarrow> geoip_builder res" where
  "write_country_row T J M names row b =
     bindE (normalize_country (gpr_country row)) (\<lambda>country.
       Inr (write_country_prefixes M (country, unwrap_or country (names country)) (fst (for_each_persisted_cidr T J row)) b))"

fun write_page ::
    "net_text \<Rightarrow> json_lib \<Rightarrow> (string \<times> string) mmdb \<Rightarrow> (string \<Rightarrow> string option) \<Rightarrow> geo_ip_prefix_row list \<Rightarrow>
       geoip_builder \<Rightarrow> geoip_builder res" where
  "write_page T J M names [] b = Inr b"
| "write_page T J M names (row # rows) b = bindE (write_country_row T J M names row b) (write_page T J M names rows)"

text \<open>The pages of a paginator: their number from one query, each page from a query of its own.\<close>

definition num_pages :: "nat \<Rightarrow> nat \<Rightarrow> nat" where
  "num_pages page_size n = n div page_size + (if n mod page_size = 0 then 0 else 1)"

definition prefix_rows_page :: "firewall_db \<Rightarrow> nat \<Rightarrow> geo_ip_prefix_row list" where
  "prefix_rows_page db page =
     take geoip_rebuild_page_size (drop (page * geoip_rebuild_page_size) (order_by gpr_country (db_geo_prefixes db)))"

fun write_pages ::
    "net_text \<Rightarrow> json_lib \<Rightarrow> (string \<times> string) mmdb \<Rightarrow> (string \<Rightarrow> string option) \<Rightarrow> (nat \<Rightarrow> firewall_db) \<Rightarrow> nat list \<Rightarrow>
       geoip_builder \<Rightarrow> geoip_builder res" where
  "write_pages T J M names dbs [] b = Inr b"
| "write_pages T J M names dbs (page # pages) b =
     bindE (write_page T J M names (prefix_rows_page (dbs page) page) b) (write_pages T J M names dbs pages)"

definition build_geoip_rebuild_file ::
    "net_text \<Rightarrow> json_lib \<Rightarrow> (string \<times> string) mmdb \<Rightarrow> (string \<Rightarrow> string option) \<Rightarrow> firewall_db \<Rightarrow> (nat \<Rightarrow> firewall_db) \<Rightarrow>
       geoip_builder res" where
  "build_geoip_rebuild_file T J M names dbn dbs =
     write_pages T J M names dbs [0..<num_pages geoip_rebuild_page_size (length (db_geo_prefixes dbn))] new_geoip_builder"

text \<open>
  The reader after a rebuild and its result; \<open>saved\<close> tells whether the file could be written and opened. The
  old reader is dropped once the names are there.
\<close>

definition rebuild_geo_lookup ::
    "net_text \<Rightarrow> json_lib \<Rightarrow> (string \<times> string) mmdb \<Rightarrow> bool \<Rightarrow> firewall_db \<Rightarrow> firewall_db \<Rightarrow> (nat \<Rightarrow> firewall_db) \<Rightarrow>
       geo_database option \<times> nat res" where
  "rebuild_geo_lookup T J M saved db0 dbn dbs =
     (case build_geoip_rebuild_file T J M (load_geo_country_names db0) dbn dbs of
        Inl e \<Rightarrow> (None, Inl e)
      | Inr b \<Rightarrow>
          if gb_prefix_count b = 0 then (None, Inr 0)
          else if saved then (Some (gb_entries b), Inr (gb_prefix_count b))
          else (None, Inl (Internal ''temporary MMDB'')))"

record geo_ip_country =
  gic_code :: string
  gic_name :: "string option"

definition lookup_country_record :: "(string \<times> string) mmdb \<Rightarrow> geo_database option \<Rightarrow> ipaddr \<Rightarrow> geo_ip_country option" where
  "lookup_country_record M reader ip =
     (case reader of None \<Rightarrow> None
      | Some d \<Rightarrow> map_option (\<lambda>(code, name). \<lparr>gic_code = code, gic_name = Some name\<rparr>) (mm_find M d ip))"

definition lookup_country :: "(string \<times> string) mmdb \<Rightarrow> geo_database option \<Rightarrow> ipaddr \<Rightarrow> string option" where
  "lookup_country M reader ip = map_option gic_code (lookup_country_record M reader ip)"

record geo_lookup_response =
  glr_ip :: string
  glr_country :: "string option"
  glr_country_name :: "string option"

definition parse_lookup_ip :: "string \<Rightarrow> ipaddr res" where
  "parse_lookup_ip value = ok_or (Internal ''ip must be a valid IPv4 or IPv6 address'') (parse_ip (trim value))"

definition geo_lookup :: "(string \<times> string) mmdb \<Rightarrow> geo_database option \<Rightarrow> string \<Rightarrow> geo_lookup_response res" where
  "geo_lookup M reader query =
     mapE (\<lambda>ip. let country = lookup_country_record M reader ip in
         \<lparr>glr_ip = show_ip ip, glr_country = map_option gic_code country,
          glr_country_name = (case country of None \<Rightarrow> None | Some c \<Rightarrow> gic_name c)\<rparr>)
       (parse_lookup_ip query)"

section \<open>Reported drops\<close>

record reported_drop =
  rd_node_id :: string
  rd_interface_name :: string
  rd_time :: string
  rd_event_time_ns :: u64
  rd_cpu :: u32
  rd_reason :: string
  rd_src :: string
  rd_family :: u32
  rd_proto :: string
  rd_dport :: u32
  rd_country :: string
  rd_action :: string

record drop_event_view =
  dv_node_id :: string
  dv_interface_name :: string
  dv_time :: string
  dv_event_time_ns :: u64
  dv_cpu :: u32
  dv_reason :: string
  dv_src :: string
  dv_family :: u32
  dv_proto :: string
  dv_dport :: u32
  dv_country :: "string option"
  dv_threat_source :: "string option"
  dv_action :: string

definition reported_country ::
    "(string \<times> string) mmdb \<Rightarrow> geo_database option \<Rightarrow> reported_drop \<Rightarrow> ipaddr option \<Rightarrow> string option" where
  "reported_country M reader ev src =
     (if trim (rd_country ev) \<noteq> [] then Some (to_upper (trim (rd_country ev)))
      else (case src of None \<Rightarrow> None | Some ip \<Rightarrow> lookup_country M reader ip))"

text \<open>Only a drop by threat intelligence asks the threat lookup, which may start a rebuild.\<close>

definition threat_source_for_event ::
    "string mmdb \<Rightarrow> instant \<Rightarrow> i64 option \<Rightarrow> reported_drop \<Rightarrow> ipaddr option \<Rightarrow> threat_lookup_state \<Rightarrow>
       threat_lookup_state \<times> bool \<times> string option" where
  "threat_source_for_event M now version ev src s =
     (if rd_reason ev \<noteq> ''threat_intel'' then (s, False, None)
      else (case src of None \<Rightarrow> (s, False, None) | Some ip \<Rightarrow> lookup_source M now version ip s))"

definition build_drop_event_view ::
    "(string \<times> string) mmdb \<Rightarrow> geo_database option \<Rightarrow> string mmdb \<Rightarrow> instant \<Rightarrow> i64 option \<Rightarrow> reported_drop \<Rightarrow>
       threat_lookup_state \<Rightarrow> threat_lookup_state \<times> bool \<times> drop_event_view" where
  "build_drop_event_view G reader M now version ev s =
     (let src = parse_ip (rd_src ev);
          country = reported_country G reader ev src;
          (s', spawn, source) = threat_source_for_event M now version ev src s
      in (s', spawn,
          \<lparr>dv_node_id = rd_node_id ev, dv_interface_name = rd_interface_name ev, dv_time = rd_time ev,
           dv_event_time_ns = rd_event_time_ns ev, dv_cpu = rd_cpu ev, dv_reason = rd_reason ev, dv_src = rd_src ev,
           dv_family = rd_family ev, dv_proto = rd_proto ev, dv_dport = rd_dport ev, dv_country = country,
           dv_threat_source = source, dv_action = rd_action ev\<rparr>))"

text \<open>What a receiver of the broadcast channel gets, one item per call; without items it waits.\<close>

datatype 'a broadcast_item = Sent 'a | Lagged u64 | Closed

fun drop_subscription_recv ::
    "string option \<Rightarrow> drop_event_view broadcast_item list \<Rightarrow>
       (drop_event_view option \<times> drop_event_view broadcast_item list) option" where
  "drop_subscription_recv node [] = None"
| "drop_subscription_recv node (Sent ev # items) =
     (if node = None \<or> node = Some (dv_node_id ev) then Some (Some ev, items) else drop_subscription_recv node items)"
| "drop_subscription_recv node (Lagged n # items) = drop_subscription_recv node items"
| "drop_subscription_recv node (Closed # items) = Some (None, items)"

section \<open>Refreshes by hand\<close>

record 'a cached_refresh =
  cf_version :: i64
  cf_report :: 'a

definition geo_refresh_response_report :: "geo_refresh_report \<Rightarrow> string \<Rightarrow> bool \<Rightarrow> bool \<Rightarrow> geo_refresh_report" where
  "geo_refresh_response_report report status cached running =
     report\<lparr>gr_refresh_status := status, gr_cached := cached, gr_running := running\<rparr>"

definition threat_refresh_response_report ::
    "threat_refresh_report \<Rightarrow> string \<Rightarrow> bool \<Rightarrow> bool \<Rightarrow> threat_refresh_report" where
  "threat_refresh_response_report report status cached running =
     report\<lparr>tf_refresh_status := status, tf_cached := cached, tf_running := running\<rparr>"

text \<open>The answer to a request while a refresh runs or is not allowed yet: the last report, or an empty one.\<close>

definition threat_refresh_response ::
    "i64 \<Rightarrow> threat_refresh_report cached_refresh option \<Rightarrow> string \<Rightarrow> bool \<Rightarrow> threat_refresh_report cached_refresh" where
  "threat_refresh_response current cached status running =
     (case cached of
        None \<Rightarrow> \<lparr>cf_version = current,
                 cf_report = threat_refresh_response_report (threat_report_empty status) status False running\<rparr>
      | Some c \<Rightarrow> \<lparr>cf_version = cf_version c, cf_report = threat_refresh_response_report (cf_report c) status True running\<rparr>)"

definition geo_refresh_response ::
    "i64 \<Rightarrow> geo_refresh_report cached_refresh option \<Rightarrow> string \<Rightarrow> bool \<Rightarrow> geo_refresh_report cached_refresh" where
  "geo_refresh_response current cached status running =
     (case cached of
        None \<Rightarrow> \<lparr>cf_version = current,
                 cf_report = geo_refresh_response_report (geo_report_empty status) status False running\<rparr>
      | Some c \<Rightarrow> \<lparr>cf_version = cf_version c, cf_report = geo_refresh_response_report (cf_report c) status True running\<rparr>)"

text \<open>A request: whether a refresh was spawned, and the answer. A missing list lifts the limit.\<close>

definition manual_refresh_rate_limit :: nat where "manual_refresh_rate_limit = 5 * 60 * 1000000000"

definition request_threat_refresh ::
    "nat \<Rightarrow> firewall_db \<Rightarrow> threat_refresh_report cached_refresh refresh_limiter \<Rightarrow>
       threat_refresh_report cached_refresh refresh_limiter \<times> bool \<times> threat_refresh_report cached_refresh" where
  "request_threat_refresh now db l =
     (let interval = (if enabled_threat_source_states_missing db then 0 else manual_refresh_rate_limit) in
      case start_or_cached now interval l of
        (l', StartRefresh previous) \<Rightarrow> (l', True, threat_refresh_response (latest_version db) previous ''running'' True)
      | (l', StillRunning cached) \<Rightarrow> (l', False, threat_refresh_response (latest_version db) cached ''running'' True)
      | (l', RateLimited cached) \<Rightarrow> (l', False, threat_refresh_response (latest_version db) cached ''rate_limited'' False))"

definition request_geo_refresh ::
    "nat \<Rightarrow> firewall_db \<Rightarrow> geo_refresh_report cached_refresh refresh_limiter \<Rightarrow>
       geo_refresh_report cached_refresh refresh_limiter \<times> bool \<times> geo_refresh_report cached_refresh" where
  "request_geo_refresh now db l =
     (case start_or_cached now manual_refresh_rate_limit l of
        (l', StartRefresh previous) \<Rightarrow> (l', True, geo_refresh_response (latest_version db) previous ''running'' True)
      | (l', StillRunning cached) \<Rightarrow> (l', False, geo_refresh_response (latest_version db) cached ''running'' True)
      | (l', RateLimited cached) \<Rightarrow> (l', False, geo_refresh_response (latest_version db) cached ''rate_limited'' False))"

text \<open>The spawned refresh leaves its report in the limiter when it succeeds, and always drops its permit.\<close>

definition finish_requested :: "'a cached_refresh res \<Rightarrow> 'a cached_refresh refresh_limiter \<Rightarrow> 'a cached_refresh refresh_limiter" where
  "finish_requested r l = drop_permit (case r of Inl e \<Rightarrow> l | Inr c \<Rightarrow> finish_success c l)"

section \<open>The whole country list\<close>

text \<open>What one row contributes.\<close>

definition row_entries ::
    "net_text \<Rightarrow> json_lib \<Rightarrow> (string \<times> string) mmdb \<Rightarrow> (string \<Rightarrow> string option) \<Rightarrow> geo_ip_prefix_row \<Rightarrow> geo_database res" where
  "row_entries T J M names row =
     mapE (\<lambda>c. map (\<lambda>n. (n, c, unwrap_or c (names c)))
         (filter (\<lambda>n. is_ipv4 (net_addr n))
           (takeWhile (\<lambda>n. is_ipv4 (net_addr n) \<longrightarrow> mm_accepts M n) (fst (for_each_persisted_cidr T J row)))))
       (normalize_country (gpr_country row))"

lemma write_country_prefixes_entries:
  "gb_entries (write_country_prefixes M value nets b) =
     gb_entries b @ map (\<lambda>n. (n, value)) (filter (\<lambda>n. is_ipv4 (net_addr n))
       (takeWhile (\<lambda>n. is_ipv4 (net_addr n) \<longrightarrow> mm_accepts M n) nets))"
  by (induction nets arbitrary: b) auto

lemma write_country_prefixes_count:
  "gb_prefix_count b = length (gb_entries b) \<Longrightarrow>
     gb_prefix_count (write_country_prefixes M value nets b) = length (gb_entries (write_country_prefixes M value nets b))"
  by (induction nets arbitrary: b) auto

lemma write_page_entries:
  "gb_prefix_count b = length (gb_entries b) \<Longrightarrow>
   (case traverse (row_entries T J M names) rows of
      Inl e \<Rightarrow> write_page T J M names rows b = Inl e
    | Inr es \<Rightarrow> \<exists>b'. write_page T J M names rows b = Inr b' \<and> gb_entries b' = gb_entries b @ concat es \<and>
        gb_prefix_count b' = length (gb_entries b'))"
proof (induction rows arbitrary: b)
  case (Cons row rows)
  show ?case
  proof (cases "normalize_country (gpr_country row)")
    case (Inr c)
    let ?b = "write_country_prefixes M (c, unwrap_or c (names c)) (fst (for_each_persisted_cidr T J row)) b"
    have n: "gb_prefix_count ?b = length (gb_entries ?b)" by (rule write_country_prefixes_count [OF Cons.prems])
    show ?thesis
      using Cons.IH [OF n] Inr write_country_prefixes_entries [of M _ _ b]
      by (auto simp: write_country_row_def row_entries_def split: sum.splits)
  qed (simp add: write_country_row_def row_entries_def)
qed simp

lemma write_page_append:
  "write_page T J M names (xs @ ys) b = bindE (write_page T J M names xs b) (write_page T J M names ys)"
proof (induction xs arbitrary: b)
  case (Cons x xs)
  then show ?case by (cases "write_country_row T J M names x b") simp_all
qed simp

lemma write_pages_stable:
  "write_pages T J M names (\<lambda>_. db) pages b = write_page T J M names (concat (map (prefix_rows_page db) pages)) b"
  by (induction pages arbitrary: b) (simp_all add: write_page_append cong: bindE_cong_Inr)

lemma chunks: "concat (map (\<lambda>i. take k (drop (i * k) xs)) [0..<m]) = take (m * k) xs"
  by (induction m) (simp_all add: take_add [symmetric] add.commute)

lemma num_pages_enough:
  assumes "0 < k"
  shows "n \<le> num_pages k n * k"
proof -
  have n: "n div k * k + n mod k = n" by simp
  have "n mod k < k" using assms by simp
  then have "n \<le> n div k * k + k" using n by linarith
  moreover have "n mod k = 0 \<Longrightarrow> n \<le> n div k * k" using n by linarith
  ultimately show ?thesis by (auto simp: num_pages_def add.commute)
qed

lemma pages_are_all_rows:
  "concat (map (prefix_rows_page db) [0..<num_pages geoip_rebuild_page_size (length (db_geo_prefixes db))]) =
     order_by gpr_country (db_geo_prefixes db)"
proof -
  let ?rows = "order_by gpr_country (db_geo_prefixes db)"
  let ?m = "num_pages geoip_rebuild_page_size (length (db_geo_prefixes db))"
  have l: "length ?rows = length (db_geo_prefixes db)" by (simp add: order_by_def)
  have p: "prefix_rows_page db = (\<lambda>i. take geoip_rebuild_page_size (drop (i * geoip_rebuild_page_size) ?rows))"
    by (simp add: prefix_rows_page_def fun_eq_iff)
  have "length ?rows \<le> ?m * geoip_rebuild_page_size"
    unfolding l by (rule num_pages_enough) (simp add: geoip_rebuild_page_size_def)
  then show ?thesis unfolding p chunks by simp
qed

lemma rebuild_geo_lookup_stable:
  "rebuild_geo_lookup T J M saved db db (\<lambda>_. db) =
     (case traverse (row_entries T J M (load_geo_country_names db)) (order_by gpr_country (db_geo_prefixes db)) of
        Inl e \<Rightarrow> (None, Inl e)
      | Inr es \<Rightarrow>
          if concat es = [] then (None, Inr 0)
          else if saved then (Some (concat es), Inr (length (concat es)))
          else (None, Inl (Internal ''temporary MMDB'')))"
proof -
  have n: "gb_prefix_count new_geoip_builder = length (gb_entries new_geoip_builder)" "gb_entries new_geoip_builder = []"
    by (simp_all add: new_geoip_builder_def)
  have w: "build_geoip_rebuild_file T J M (load_geo_country_names db) db (\<lambda>_. db) =
      write_page T J M (load_geo_country_names db) (order_by gpr_country (db_geo_prefixes db)) new_geoip_builder"
    by (simp add: build_geoip_rebuild_file_def write_pages_stable pages_are_all_rows)
  show ?thesis
    using write_page_entries [OF n(1), of T J M "load_geo_country_names db" "order_by gpr_country (db_geo_prefixes db)"] n(2)
    by (auto simp: rebuild_geo_lookup_def w split: sum.splits)
qed

end
