(* ===== verification/Xdp_Netlink.thy ===== *)
theory Xdp_Netlink
  imports Xdp_Apply
begin

text \<open>
  \<^verbatim>\<open>linux/netlink/message.rs\<close>, \<^verbatim>\<open>message/{attrs,ack}.rs\<close>: the request that sets or removes the program of an
  interface, byte by byte, and the reading of the kernel's answer. The structs \<^verbatim>\<open>ifinfomsg\<close> and \<^verbatim>\<open>nlmsghdr\<close>
  are those of the Linux ABI on a little-endian host. A slice that starts beyond the buffer panics in the code;
  here it is \<open>None\<close>. A reader of the request that follows the protocol's layout, and not the writer, is the
  reference the round trip is proved against.
\<close>

section \<open>Words in memory\<close>

definition u32_mem :: "u32 \<Rightarrow> u8 list" where
  "u32_mem v = [ucast v, ucast (drop_bit 8 v), ucast (drop_bit 16 v), ucast (drop_bit 24 v)]"

primrec mem_word :: "u8 list \<Rightarrow> 'a::len word" where
  "mem_word [] = 0"
| "mem_word (b # bs) = ucast b OR push_bit 8 (mem_word bs)"

lemma length_u32_mem [simp]: "length (u32_mem v) = 4"
  by (simp add: u32_mem_def)

lemma mem_word_u16_mem [simp]: "mem_word (u16_mem v) = v"
proof (rule bit_word_eqI)
  fix n
  assume n: "n < LENGTH(16)"
  show "bit (mem_word (u16_mem v) :: u16) n = bit v n"
    using n by (cases "n < 8") (auto simp: u16_mem_def bit_simps)
qed

lemma mem_word_u32_mem [simp]: "mem_word (u32_mem v) = v"
proof (rule bit_word_eqI)
  fix n
  assume n: "n < LENGTH(32)"
  consider "n < 8" | "8 \<le> n" "n < 16" | "16 \<le> n" "n < 24" | "24 \<le> n" by linarith
  then show "bit (mem_word (u32_mem v) :: u32) n = bit v n"
    using n by cases (auto simp: u32_mem_def bit_simps)
qed

section \<open>Attributes\<close>

function pad4 :: "u8 list \<Rightarrow> u8 list" where
  "pad4 b = (if length b mod 4 \<noteq> 0 then pad4 (b @ [0]) else b)"
  by auto

termination pad4
proof (relation "measure (\<lambda>b. (4 - length b mod 4) mod 4)")
  fix b :: "u8 list"
  assume "length b mod 4 \<noteq> 0"
  moreover have "length b mod 4 < 4" by simp
  ultimately consider "length b mod 4 = 1" | "length b mod 4 = 2" | "length b mod 4 = 3" by linarith
  then show "(b @ [0], b) \<in> measure (\<lambda>b. (4 - length b mod 4) mod 4)"
    by cases (simp_all add: mod_Suc)
qed simp

declare pad4.simps [simp del]

definition push_attr_bytes :: "u8 list \<Rightarrow> u16 \<Rightarrow> u8 list \<Rightarrow> u8 list" where
  "push_attr_bytes buffer attr_type value =
     pad4 (buffer @ u16_mem (word_of_nat (4 + length value)) @ u16_mem attr_type @ value)"

definition push_attr_i32 :: "u8 list \<Rightarrow> u16 \<Rightarrow> i32 \<Rightarrow> u8 list" where
  "push_attr_i32 buffer attr_type value = push_attr_bytes buffer attr_type (u32_mem value)"

definition push_attr_u32 :: "u8 list \<Rightarrow> u16 \<Rightarrow> u32 \<Rightarrow> u8 list" where
  "push_attr_u32 buffer attr_type value = push_attr_bytes buffer attr_type (u32_mem value)"

definition xdp_attach_flags :: "xdp_attach_mode \<Rightarrow> i32 option \<Rightarrow> u32" where
  "xdp_attach_flags mode expected_fd =
     (let mode_flags = (case mode of ModeDriver \<Rightarrow> 4 | ModeSkb \<Rightarrow> 2 | ModeAuto \<Rightarrow> 0);
          flags = mode_flags OR 1
      in if expected_fd \<noteq> None then flags OR 16 else flags)"

definition build_xdp_attrs :: "i32 option \<Rightarrow> i32 option \<Rightarrow> xdp_attach_mode \<Rightarrow> u8 list" where
  "build_xdp_attrs fd expected_fd mode =
     (let attrs = push_attr_i32 [] 1 (unwrap_or (- 1) fd);
          attrs = push_attr_u32 attrs 3 (xdp_attach_flags mode expected_fd)
      in case expected_fd of None \<Rightarrow> attrs | Some expected \<Rightarrow> push_attr_i32 attrs 8 expected)"

section \<open>The message\<close>

record ifinfomsg =
  ifi_family :: u8
  ifi_type :: u16
  ifi_index :: i32
  ifi_flags :: u32
  ifi_change :: u32

definition ifinfomsg_mem :: "ifinfomsg \<Rightarrow> u8 list" where
  "ifinfomsg_mem i = [ifi_family i, 0] @ u16_mem (ifi_type i) @ u32_mem (ifi_index i) @ u32_mem (ifi_flags i) @ u32_mem (ifi_change i)"

record nlmsghdr =
  nlmsg_len :: u32
  nlmsg_type :: u16
  nlmsg_flags :: u16
  nlmsg_seq :: u32
  nlmsg_pid :: u32

definition nlmsghdr_mem :: "nlmsghdr \<Rightarrow> u8 list" where
  "nlmsghdr_mem h = u32_mem (nlmsg_len h) @ u16_mem (nlmsg_type h) @ u16_mem (nlmsg_flags h) @ u32_mem (nlmsg_seq h) @ u32_mem (nlmsg_pid h)"

definition build_setlink_message :: "i32 \<Rightarrow> u8 list \<Rightarrow> u8 list res" where
  "build_setlink_message if_index xdp_attrs =
     (let if_info = \<lparr>ifi_family = 0, ifi_type = 0, ifi_index = if_index, ifi_flags = 0, ifi_change = 0\<rparr>;
          payload = push_attr_bytes (ifinfomsg_mem if_info) (43 OR push_bit 15 1) xdp_attrs;
          message_len = 16 + length payload
      in if message_len < 2 ^ 32 then
           Inr (nlmsghdr_mem \<lparr>nlmsg_len = word_of_nat message_len, nlmsg_type = 19, nlmsg_flags = 1 OR 4,
             nlmsg_seq = 1, nlmsg_pid = 0\<rparr> @ payload)
         else Inl (OutOfRange ''netlink XDP message''))"

section \<open>The answer\<close>

definition nla_align :: "nat \<Rightarrow> nat" where
  "nla_align v = unat ((word_of_nat v + 4 - 1 :: u64) AND NOT (4 - 1))"

definition read_u16_at :: "u8 list \<Rightarrow> nat \<Rightarrow> u16" where
  "read_u16_at b k = mem_word (take 2 (drop k b))"

definition read_u32_at :: "u8 list \<Rightarrow> nat \<Rightarrow> u32" where
  "read_u32_at b k = mem_word (take 4 (drop k b))"

text \<open>\<^verbatim>\<open>read_unaligned(&buffer[offset..])\<close>: the slice panics beyond the end, a short slice is an error.\<close>

definition read_header :: "u8 list \<Rightarrow> nat \<Rightarrow> nlmsghdr res option" where
  "read_header b offset =
     (if length b < offset then None
      else if length b - offset < 16 then Some (Inl (BadRequest ''buffer too small for netlink value''))
      else Some (Inr \<lparr>nlmsg_len = read_u32_at b offset, nlmsg_type = read_u16_at b (offset + 4),
             nlmsg_flags = read_u16_at b (offset + 6), nlmsg_seq = read_u32_at b (offset + 8), nlmsg_pid = read_u32_at b (offset + 12)\<rparr>))"

definition handle_netlink_error_message :: "u8 list \<Rightarrow> nat \<Rightarrow> unit res option" where
  "handle_netlink_error_message b error_offset =
     (if length b < error_offset then None
      else if length b - error_offset < 4 then Some (Inl (BadRequest ''buffer too small for netlink value''))
      else if read_u32_at b error_offset = 0 then Some (Inr ())
      else Some (Inl (AttachFailed ''netlink rejected XDP replace request'')))"

lemma nla_align_eq:
  assumes "v < 2 ^ 63"
  shows "nla_align v = (v + 3) div 4 * 4"
proof -
  let ?w = "word_of_nat v + 3 :: u64"
  have w: "unat ?w = v + 3" using assms by (simp add: unat_word_ariths unat_of_nat)
  have "?w AND NOT 3 = ?w AND NOT (mask 2)" by (simp add: mask_eq_decr_exp)
  also have "\<dots> = push_bit 2 (drop_bit 2 ?w)"
  proof (rule bit_word_eqI)
    fix n :: nat
    assume n: "n < LENGTH(64)"
    show "bit (?w AND NOT (mask 2)) n = bit (push_bit 2 (drop_bit 2 ?w)) n"
    proof (cases "n < 2")
      case True
      then show ?thesis by (simp add: bit_simps)
    next
      case False
      then obtain m where "n = 2 + m" by (metis le_iff_add not_less)
      then show ?thesis using n by (simp add: bit_simps)
    qed
  qed
  finally have "nla_align v = unat (push_bit 2 (drop_bit 2 ?w))" by (simp add: nla_align_def add.commute)
  also have "\<dots> = unat (drop_bit 2 ?w) * 4"
    using w assms by (simp add: push_bit_eq_mult unat_word_ariths unat_drop_bit_eq drop_bit_eq_div)
  also have "\<dots> = (v + 3) div 4 * 4" by (simp only: unat_drop_bit_eq w) (simp add: drop_bit_eq_div)
  finally show ?thesis .
qed

function parse_netlink_xdp_ack :: "u8 list \<Rightarrow> nat \<Rightarrow> nat \<Rightarrow> bool res option" where
  "parse_netlink_xdp_ack buffer len offset =
     (if offset + 16 \<le> len then
        (case read_header buffer offset of
           None \<Rightarrow> None
         | Some (Inl e) \<Rightarrow> Some (Inl e)
         | Some (Inr header) \<Rightarrow>
             if nlmsg_len header = 0 then Some (Inl (BadRequest ''received invalid zero-length netlink message''))
             else let message_len = nla_align (unat (nlmsg_len header)) in
               if len < offset + message_len then Some (Inl (BadRequest ''received truncated netlink message''))
               else if nlmsg_type header = 2 then
                 map_option (mapE (\<lambda>_. True)) (handle_netlink_error_message buffer (offset + 16))
               else parse_netlink_xdp_ack buffer len (offset + message_len))
      else Some (Inr False))"
  by auto

lemma nla_align_pos: "(w :: u32) \<noteq> 0 \<Longrightarrow> 0 < nla_align (unat w)"
proof -
  assume "w \<noteq> 0"
  then have "0 < unat w" by (simp add: unat_gt_0)
  moreover have "unat w < 2 ^ 32" using unsigned_less [of w] by simp
  ultimately show ?thesis by (simp add: nla_align_eq)
qed

termination parse_netlink_xdp_ack
  by (relation "measure (\<lambda>(b, len, offset). len - offset)") (use nla_align_pos in \<open>fastforce+\<close>)

declare parse_netlink_xdp_ack.simps [simp del]

text \<open>\<^verbatim>\<open>receive_netlink_xdp_ack\<close>: the buffer is kept between the calls of \<^verbatim>\<open>recv\<close>, which overwrite its front; a
  failed \<^verbatim>\<open>recv\<close> is \<open>None\<close>, and a list of answers that ends leaves the caller waiting.\<close>

datatype ack_outcome = Acked | Rejected fw_error | Panicked | StillWaiting

fun receive_acks :: "u8 list \<Rightarrow> u8 list option list \<Rightarrow> ack_outcome" where
  "receive_acks buffer [] = StillWaiting"
| "receive_acks buffer (None # _) = Rejected (AttachFailed ''failed to receive netlink XDP replace ack'')"
| "receive_acks buffer (Some data # rs) =
     (let len = min (length data) (length buffer);
          buffer = take len data @ drop len buffer
      in case parse_netlink_xdp_ack buffer len 0 of
           None \<Rightarrow> Panicked
         | Some (Inl e) \<Rightarrow> Rejected e
         | Some (Inr acked) \<Rightarrow> if acked then Acked else receive_acks buffer rs)"

definition receive_netlink_xdp_ack :: "u8 list option list \<Rightarrow> ack_outcome" where
  "receive_netlink_xdp_ack = receive_acks (replicate 8192 0)"

section \<open>The reader of the protocol\<close>

text \<open>The kernel's side, by the layout of the protocol: attributes one after the other, each at an offset that is a
  multiple of four and with its own length.\<close>

function read_attrs :: "u8 list \<Rightarrow> (u16 \<times> u8 list) list option" where
  "read_attrs b =
     (if b = [] then Some []
      else let n = unat (read_u16_at b 0) in
        if length b < 4 \<or> n < 4 \<or> length b < n then None
        else map_option (Cons (read_u16_at b 2, take (n - 4) (drop 4 b))) (read_attrs (drop ((n + 3) div 4 * 4) b)))"
  by auto

termination read_attrs
proof (relation "measure length")
  fix b :: "u8 list" and n :: nat
  assume "b \<noteq> []" and "\<not> (length b < 4 \<or> n < 4 \<or> length b < n)"
  then have "0 < length b" and "0 < (n + 3) div 4 * 4" by auto
  then show "(drop ((n + 3) div 4 * 4) b, b) \<in> measure length" by (simp del: length_greater_0_conv)
qed simp

declare read_attrs.simps [simp del]

record setlink_request =
  sr_type :: u16
  sr_flags :: u16
  sr_index :: i32
  sr_attrs :: "(u16 \<times> u8 list) list"

definition read_setlink :: "u8 list \<Rightarrow> setlink_request option" where
  "read_setlink m =
     (if length m < 32 \<or> unat (read_u32_at m 0) \<noteq> length m then None
      else case read_attrs (drop 32 m) of
        Some [(t, nested)] \<Rightarrow>
          if t = 43 OR push_bit 15 1 then
            map_option (\<lambda>as. \<lparr>sr_type = read_u16_at m 4, sr_flags = read_u16_at m 6, sr_index = read_u32_at m 20, sr_attrs = as\<rparr>)
              (read_attrs nested)
          else None
      | _ \<Rightarrow> None)"

subsection \<open>What the writer wrote is what the reader reads\<close>

definition zeros_to_4 :: "nat \<Rightarrow> nat" where
  "zeros_to_4 n = (4 - n mod 4) mod 4"

lemma zeros_to_4_step: "n mod 4 \<noteq> 0 \<Longrightarrow> zeros_to_4 n = Suc (zeros_to_4 (Suc n))"
proof -
  assume "n mod 4 \<noteq> 0"
  moreover have "n mod 4 < 4" by simp
  ultimately consider "n mod 4 = 1" | "n mod 4 = 2" | "n mod 4 = 3" by linarith
  then show ?thesis by cases (simp_all add: zeros_to_4_def mod_Suc)
qed

lemma pad4_eq: "pad4 b = b @ replicate (zeros_to_4 (length b)) 0"
proof (induction b rule: pad4.induct)
  case (1 b)
  show ?case
  proof (cases "length b mod 4 = 0")
    case True
    then show ?thesis by (simp add: pad4.simps [of b] zeros_to_4_def)
  next
    case False
    then show ?thesis using 1 by (simp add: pad4.simps [of b] zeros_to_4_step)
  qed
qed

lemma length_padded: "n + zeros_to_4 n = (n + 3) div 4 * 4"
proof -
  have n: "n = 4 * (n div 4) + n mod 4" by simp
  have "n mod 4 < 4" by simp
  then consider "n mod 4 = 0" | "n mod 4 = 1" | "n mod 4 = 2" | "n mod 4 = 3" by linarith
  then show ?thesis using n by cases (simp_all add: zeros_to_4_def, presburger+)
qed

lemma read_at_mem:
  "length xs = k \<Longrightarrow> read_u16_at (xs @ u16_mem v @ rest) k = v"
  "length xs = k \<Longrightarrow> read_u32_at (xs @ u32_mem w @ rest) k = w"
  by (simp_all add: read_u16_at_def read_u32_at_def)

definition attr_body :: "u16 \<times> u8 list \<Rightarrow> u8 list" where
  "attr_body a = u16_mem (word_of_nat (4 + length (snd a))) @ u16_mem (fst a) @ snd a"

definition attr_mem :: "u16 \<times> u8 list \<Rightarrow> u8 list" where
  "attr_mem a = pad4 (attr_body a)"

lemma length_attr_body: "length (attr_body a) = 4 + length (snd a)"
  by (simp add: attr_body_def)

lemma zeros_to_4_add: "n mod 4 = 0 \<Longrightarrow> zeros_to_4 (n + k) = zeros_to_4 k"
proof -
  assume "n mod 4 = 0"
  then have "(n + k) mod 4 = k mod 4" using mod_add_left_eq [of n 4 k] by simp
  then show ?thesis by (simp only: zeros_to_4_def)
qed

lemma length_attr_mem_eq: "length (attr_mem a) = (4 + length (snd a) + 3) div 4 * 4"
  unfolding attr_mem_def pad4_eq length_append length_replicate length_padded by (simp only: length_attr_body)

lemma length_attr_mem [simp]: "length (attr_mem a) mod 4 = 0"
  unfolding length_attr_mem_eq by simp

lemma push_attr_bytes_eq: "length b mod 4 = 0 \<Longrightarrow> push_attr_bytes b t v = b @ attr_mem (t, v)"
  using zeros_to_4_add [of "length b" "length (attr_body (t, v))"]
  by (simp add: push_attr_bytes_def attr_mem_def pad4_eq attr_body_def)

lemma read_attr_mem:
  assumes "length (snd a) < 65532"
  shows "read_attrs (attr_mem a @ rest) = map_option (Cons a) (read_attrs rest)"
proof -
  let ?n = "4 + length (snd a)"
  have "unat (word_of_nat ?n :: u16) = take_bit 16 ?n" by (simp only: unat_of_nat) (simp add: take_bit_eq_mod)
  then have n: "unat (word_of_nat ?n :: u16) = ?n" using assms by (simp add: take_bit_eq_mod)
  have r: "read_u16_at (attr_mem a @ rest) 0 = word_of_nat ?n" "read_u16_at (attr_mem a @ rest) 2 = fst a"
    "take (?n - 4) (drop 4 (attr_mem a @ rest)) = snd a" "attr_mem a @ rest \<noteq> []"
    using read_at_mem(1) [of "[]" 0] read_at_mem(1) [of "u16_mem (word_of_nat ?n)" 2]
    by (simp_all add: attr_mem_def pad4_eq attr_body_def del: of_nat_add) (simp add: u16_mem_def)
  have l: "length (attr_mem a @ rest) = (?n + 3) div 4 * 4 + length rest" by (simp add: length_attr_mem_eq)
  have le: "?n \<le> (?n + 3) div 4 * 4" by linarith
  have "drop ((?n + 3) div 4 * 4) (attr_mem a @ rest) = rest"
    unfolding length_attr_mem_eq [symmetric] by simp
  then show ?thesis
    using r n l le by (subst read_attrs.simps) (simp only: Let_def, simp)
qed

lemma read_attrs_concat:
  "\<forall>a\<in>set as. length (snd a) < 65532 \<Longrightarrow> read_attrs (concat (map attr_mem as)) = Some as"
  by (induction as) (simp_all add: read_attr_mem, simp add: read_attrs.simps)

definition xdp_attr_list :: "i32 option \<Rightarrow> i32 option \<Rightarrow> xdp_attach_mode \<Rightarrow> (u16 \<times> u8 list) list" where
  "xdp_attr_list fd expected mode =
     [(1, u32_mem (unwrap_or (- 1) fd)), (3, u32_mem (xdp_attach_flags mode expected))] @
     (case expected of None \<Rightarrow> [] | Some e \<Rightarrow> [(8, u32_mem e)])"

lemma build_xdp_attrs_eq: "build_xdp_attrs fd expected mode = concat (map attr_mem (xdp_attr_list fd expected mode))"
  by (simp add: build_xdp_attrs_def xdp_attr_list_def push_attr_i32_def push_attr_u32_def push_attr_bytes_eq mod_add_eq [symmetric]
      split: option.splits)

lemma length_build_xdp_attrs: "length (build_xdp_attrs fd expected mode) \<le> 24"
  by (simp add: build_xdp_attrs_eq xdp_attr_list_def length_attr_mem_eq split: option.splits)

lemma read_build_xdp_attrs: "read_attrs (build_xdp_attrs fd expected mode) = Some (xdp_attr_list fd expected mode)"
  unfolding build_xdp_attrs_eq by (rule read_attrs_concat) (cases expected; simp add: xdp_attr_list_def)

lemma length_ifinfomsg_mem [simp]: "length (ifinfomsg_mem i) = 16"
  by (simp add: ifinfomsg_mem_def)

lemma length_nlmsghdr_mem [simp]: "length (nlmsghdr_mem h) = 16"
  by (simp add: nlmsghdr_mem_def)

lemma read_header_mem:
  "length xs = k \<Longrightarrow> read_header (xs @ nlmsghdr_mem h @ rest) k = Some (Inr h)"
proof -
  assume k: "length xs = k"
  let ?b = "xs @ nlmsghdr_mem h @ rest"
  have "read_u32_at ?b k = nlmsg_len h" using read_at_mem(2) [OF k] by (simp add: nlmsghdr_mem_def)
  moreover have "read_u16_at ?b (k + 4) = nlmsg_type h"
    using k read_at_mem(1) [of "xs @ u32_mem (nlmsg_len h)"] by (simp add: nlmsghdr_mem_def)
  moreover have "read_u16_at ?b (k + 6) = nlmsg_flags h"
    using k read_at_mem(1) [of "xs @ u32_mem (nlmsg_len h) @ u16_mem (nlmsg_type h)"] by (simp add: nlmsghdr_mem_def)
  moreover have "read_u32_at ?b (k + 8) = nlmsg_seq h"
    using k read_at_mem(2) [of "xs @ u32_mem (nlmsg_len h) @ u16_mem (nlmsg_type h) @ u16_mem (nlmsg_flags h)"]
    by (simp add: nlmsghdr_mem_def)
  moreover have "read_u32_at ?b (k + 12) = nlmsg_pid h"
    using k read_at_mem(2) [of "xs @ u32_mem (nlmsg_len h) @ u16_mem (nlmsg_type h) @ u16_mem (nlmsg_flags h) @ u32_mem (nlmsg_seq h)"]
    by (simp add: nlmsghdr_mem_def)
  ultimately show ?thesis using k by (simp add: read_header_def)
qed

lemma read_ifi_index:
  assumes "length xs = 16"
  shows "read_u32_at (xs @ ifinfomsg_mem i @ rest) 20 = ifi_index i"
  using assms read_at_mem(2) [of "xs @ [ifi_family i, 0] @ u16_mem (ifi_type i)"] by (simp add: ifinfomsg_mem_def)

lemma setlink_read_back:
  assumes "length attrs < 65532"
  shows "\<exists>m. build_setlink_message if_index attrs = Inr m \<and>
    read_setlink m = map_option (\<lambda>as. \<lparr>sr_type = 19, sr_flags = 5, sr_index = if_index, sr_attrs = as\<rparr>) (read_attrs attrs)"
proof -
  define i where "i = \<lparr>ifi_family = 0, ifi_type = 0, ifi_index = if_index, ifi_flags = 0, ifi_change = 0\<rparr>"
  define payload where "payload = push_attr_bytes (ifinfomsg_mem i) (43 OR push_bit 15 1) attrs"
  define n where "n = 16 + length payload"
  define h where "h = \<lparr>nlmsg_len = word_of_nat n, nlmsg_type = 19, nlmsg_flags = 1 OR 4, nlmsg_seq = 1, nlmsg_pid = 0\<rparr>"
  define m where "m = nlmsghdr_mem h @ payload"
  have p: "payload = ifinfomsg_mem i @ attr_mem (43 OR push_bit 15 1, attrs)" by (simp add: payload_def push_attr_bytes_eq)
  then have "length payload \<le> 16 + (length attrs + 7)" by (simp add: length_attr_mem_eq)
  then have n: "n < 2 ^ 32" using assms by (simp add: n_def)
  then have b: "build_setlink_message if_index attrs = Inr m"
    unfolding build_setlink_message_def Let_def i_def [symmetric] payload_def [symmetric] n_def [symmetric]
      h_def [symmetric] m_def [symmetric] by simp
  have "unat (word_of_nat n :: u32) = n" using n by (simp add: unat_of_nat take_bit_eq_mod)
  moreover have "read_header m 0 = Some (Inr h)" using read_header_mem [of "[]" 0 h payload] by (simp add: m_def)
  ultimately have hd: "unat (read_u32_at m 0) = length m" "read_u16_at m 4 = 19" "read_u16_at m 6 = 5"
    by (auto simp: read_header_def h_def m_def n_def split: if_splits)
  have "read_u32_at m 20 = if_index" using read_ifi_index [of "nlmsghdr_mem h" i] by (simp add: m_def p i_def)
  moreover have "drop 32 m = attr_mem (43 OR push_bit 15 1, attrs)" by (simp add: m_def p)
  then have "read_attrs (drop 32 m) = Some [(43 OR push_bit 15 1, attrs)]"
    using read_attr_mem [of "(43 OR push_bit 15 1, attrs)" "[]"] assms by (simp add: read_attrs.simps [of "[]"])
  moreover have "32 \<le> length m" by (simp add: m_def p)
  ultimately show ?thesis using b hd by (intro exI [of _ m]) (simp add: read_setlink_def)
qed

subsection \<open>What the answer means\<close>

text \<open>A message of the kernel: its header, its payload, zeros up to a multiple of four.\<close>

definition kernel_message :: "u16 \<Rightarrow> u8 list \<Rightarrow> u8 list" where
  "kernel_message t payload =
     pad4 (nlmsghdr_mem \<lparr>nlmsg_len = word_of_nat (16 + length payload), nlmsg_type = t, nlmsg_flags = 0,
       nlmsg_seq = 1, nlmsg_pid = 0\<rparr> @ payload)"

text \<open>The slices of the parser stay inside the buffer, so it never panics, and it always ends.\<close>

lemma parse_netlink_xdp_ack_inside:
  "len \<le> length buffer \<Longrightarrow> parse_netlink_xdp_ack buffer len offset \<noteq> None"
proof (induction buffer len offset rule: parse_netlink_xdp_ack.induct)
  case (1 buffer len offset)
  show ?case
  proof (cases "offset + 16 \<le> len")
    case True
    then have "\<not> length buffer < offset" "\<not> length buffer - offset < 16" using 1(2) by linarith+
    then obtain h where h: "read_header buffer offset = Some (Inr h)" by (simp add: read_header_def)
    have "handle_netlink_error_message buffer (offset + 16) \<noteq> None"
      using True 1(2) by (simp add: handle_netlink_error_message_def)
    then show ?thesis
      using True h 1(1) [OF True h refl] 1(2) by (subst parse_netlink_xdp_ack.simps) (simp add: Let_def)
  qed (simp add: parse_netlink_xdp_ack.simps)
qed

lemma receive_acks_no_panic:
  "receive_acks buffer rs \<noteq> Panicked"
proof (induction buffer rs rule: receive_acks.induct)
  case (3 buffer data rs)
  let ?n = "min (length data) (length buffer)"
  let ?b = "take ?n data @ drop ?n buffer"
  have "parse_netlink_xdp_ack ?b ?n 0 \<noteq> None" by (rule parse_netlink_xdp_ack_inside) simp
  then show ?case using 3 by (auto simp: Let_def split: option.splits sum.splits)
qed simp_all

lemma length_kernel_message: "length (kernel_message t p) = (16 + length p + 3) div 4 * 4"
  unfolding kernel_message_def pad4_eq length_append length_replicate length_nlmsghdr_mem length_padded by (rule refl)

lemma parse_kernel_message:
  assumes "length p < 8192" and "length xs = k" and "length xs + length (kernel_message t p) \<le> len"
  shows "parse_netlink_xdp_ack (xs @ kernel_message t p @ rest) len k =
    (if t = 2 then map_option (mapE (\<lambda>_. True)) (handle_netlink_error_message (xs @ kernel_message t p @ rest) (k + 16))
     else parse_netlink_xdp_ack (xs @ kernel_message t p @ rest) len (k + length (kernel_message t p)))"
proof -
  let ?b = "xs @ kernel_message t p @ rest" and ?n = "16 + length p"
  let ?h = "\<lparr>nlmsg_len = word_of_nat ?n, nlmsg_type = t, nlmsg_flags = 0, nlmsg_seq = 1, nlmsg_pid = 0\<rparr>"
  have "unat (word_of_nat ?n :: u32) = take_bit 32 ?n" by (simp only: unat_of_nat) (simp add: take_bit_eq_mod)
  then have n: "unat (word_of_nat ?n :: u32) = ?n" using assms(1) by (simp add: take_bit_eq_mod)
  have a: "nla_align ?n = length (kernel_message t p)"
    using assms(1) nla_align_eq [of ?n] unfolding length_kernel_message by simp
  have "read_header ?b k = Some (Inr ?h)"
    using read_header_mem [OF assms(2), of ?h] by (simp add: kernel_message_def pad4_eq del: of_nat_add)
  moreover have "k + 16 \<le> len" using assms(2,3) by (simp add: length_kernel_message)
  moreover have "nlmsg_len ?h \<noteq> 0" using n by (metis add_is_0 nlmsghdr.select_convs(1) unat_0 zero_neq_numeral)
  ultimately show ?thesis
    using n a assms(2,3) by (subst parse_netlink_xdp_ack.simps) (simp add: Let_def)
qed

lemma read_error_message:
  assumes "length xs = k"
  shows "handle_netlink_error_message (xs @ kernel_message 2 (u32_mem e @ echo) @ rest) (k + 16) =
    Some (if e = 0 then Inr () else Inl (AttachFailed ''netlink rejected XDP replace request''))"
proof -
  let ?hd = "nlmsghdr_mem \<lparr>nlmsg_len = word_of_nat (16 + length (u32_mem e @ echo)), nlmsg_type = 2, nlmsg_flags = 0,
       nlmsg_seq = 1, nlmsg_pid = 0\<rparr>"
  let ?b = "xs @ kernel_message 2 (u32_mem e @ echo) @ rest"
  obtain z where b: "?b = (xs @ ?hd) @ u32_mem e @ z" by (simp add: kernel_message_def pad4_eq)
  have "read_u32_at ?b (k + 16) = e" unfolding b by (rule read_at_mem(2)) (simp add: assms)
  moreover have "k + 20 \<le> length ?b" unfolding b using assms by simp
  then have "\<not> length ?b < k + 16" "\<not> length ?b - (k + 16) < 4" by linarith+
  ultimately show ?thesis by (simp only: handle_netlink_error_message_def if_False) simp
qed

text \<open>A datagram: messages of other types, then the acknowledgement, then anything.\<close>

definition ack_datagram :: "(u16 \<times> u8 list) list \<Rightarrow> i32 \<Rightarrow> u8 list \<Rightarrow> u8 list \<Rightarrow> u8 list" where
  "ack_datagram others e echo tail =
     concat (map (\<lambda>(t, p). kernel_message t p) others) @ kernel_message 2 (u32_mem e @ echo) @ tail"

lemma parse_ack_datagram:
  assumes "\<forall>(t, p)\<in>set others. t \<noteq> 2" and "length (xs @ ack_datagram others e echo tail) = len" and "len \<le> 8192"
  shows "parse_netlink_xdp_ack (xs @ ack_datagram others e echo tail @ rest) len (length xs) =
    Some (if e = 0 then Inr True else Inl (AttachFailed ''netlink rejected XDP replace request''))"
  using assms
proof (induction others arbitrary: xs)
  case Nil
  have "length (u32_mem e @ echo) < 8192"
    using Nil(2,3) by (simp add: ack_datagram_def length_kernel_message)
  then show ?case
    using Nil parse_kernel_message [of "u32_mem e @ echo" xs "length xs" 2 len "tail @ rest"]
      read_error_message [of xs "length xs" e echo "tail @ rest"]
    by (simp add: ack_datagram_def)
next
  case (Cons o' others)
  obtain t p where o': "o' = (t, p)" by (cases o')
  let ?k = "kernel_message t p"
  have d: "ack_datagram (o' # others) e echo tail = ?k @ ack_datagram others e echo tail"
    by (simp add: ack_datagram_def o')
  have "length p < 8192" using Cons(3,4) by (simp add: d length_kernel_message)
  moreover have "length xs + length ?k \<le> len" "t \<noteq> 2"
    using Cons(2,3) o' unfolding d by (simp, simp)
  moreover have "length ((xs @ ?k) @ ack_datagram others e echo tail) = len" using Cons(3) by (simp add: d)
  ultimately show ?case
    using Cons(1) [of "xs @ ?k"] Cons(2,4)
      parse_kernel_message [of p xs "length xs" t len "ack_datagram others e echo tail @ rest"]
    by (simp add: d)
qed

lemma receive_ack_datagram:
  assumes "\<forall>(t, p)\<in>set others. t \<noteq> 2" and "length (ack_datagram others e echo tail) \<le> 8192"
  shows "receive_netlink_xdp_ack (Some (ack_datagram others e echo tail) # rs) =
    (if e = 0 then Acked else Rejected (AttachFailed ''netlink rejected XDP replace request''))"
  using parse_ack_datagram [of others "[]" e echo tail "length (ack_datagram others e echo tail)"] assms
  by (simp add: receive_netlink_xdp_ack_def Let_def min_def)

end
