(* ===== verification/Xdp_Host.thy ===== *)
theory Xdp_Host
  imports Xdp_Netlink Geo_Refresh
begin

text \<open>
  The host as the attach code sees it, and what that code reads in the output of the tools it runs:
  \<^verbatim>\<open>dispatcher.rs\<close>, \<^verbatim>\<open>attach.rs\<close> (the interface), \<^verbatim>\<open>linux/loader/{command,programs}.rs\<close>, \<^verbatim>\<open>linux/dispatcher.rs\<close>
  (\<^verbatim>\<open>existing_xdp_summary\<close>), \<^verbatim>\<open>linux/netlink/programs/inspect.rs\<close>, \<^verbatim>\<open>linux/loader/map_identity.rs\<close> (the JSON
  walk), \<^verbatim>\<open>local/interface.rs\<close> and the CPU count of \<^verbatim>\<open>linux/pinned_maps/object.rs\<close>. The operating system, the
  external programs, the JSON reader and the eBPF library are the fields of \<open>host\<close>, over an arbitrary state of
  the machine \<open>'w\<close>; an operation of the code is a function of that state that returns the next one.
\<close>

section \<open>The machine\<close>

datatype json_value =
    VNull | VBool bool | VInt int | VFloat
  | VText string | VList "json_value list" | VObject "(string \<times> json_value) list"

record process_output =
  po_success :: bool
  po_stdout :: string
  po_stderr :: string

datatype io_result = IoOk | IoNotFound | IoError

datatype map_type = LpmTrie | OtherMap nat

record pinned_map =
  pm_id :: u32
  pm_type :: "map_type option"

record 'w host =
  ho_run :: "string \<Rightarrow> string list \<Rightarrow> 'w \<Rightarrow> 'w \<times> process_output option"
  ho_json :: "string \<Rightarrow> json_value option"
  ho_read_file :: "string \<Rightarrow> 'w \<Rightarrow> string option"
  ho_exists :: "string \<Rightarrow> 'w \<Rightarrow> bool"
  ho_create_dir_all :: "string \<Rightarrow> 'w \<Rightarrow> 'w \<times> bool"
  ho_remove_dir_all :: "string \<Rightarrow> 'w \<Rightarrow> 'w \<times> io_result"
  ho_remove_file :: "string \<Rightarrow> 'w \<Rightarrow> 'w \<times> io_result"
  ho_pinned_map :: "string \<Rightarrow> 'w \<Rightarrow> pinned_map option"
  ho_pinned_program :: "string \<Rightarrow> 'w \<Rightarrow> 'w \<times> i32 option"
  ho_load_object :: "string \<Rightarrow> (string \<times> u32) list \<Rightarrow> string \<Rightarrow> 'w \<Rightarrow> 'w \<times> nat option"
  ho_drop_object :: "nat \<Rightarrow> 'w \<Rightarrow> 'w"
  ho_program :: "nat \<Rightarrow> string \<Rightarrow> bool option"
  ho_program_load :: "nat \<Rightarrow> string \<Rightarrow> 'w \<Rightarrow> 'w \<times> i32 option"
  ho_program_attach :: "nat \<Rightarrow> string \<Rightarrow> string \<Rightarrow> xdp_attach_mode \<Rightarrow> 'w \<Rightarrow> 'w \<times> bool"
  ho_clone_fd :: "i32 \<Rightarrow> 'w \<Rightarrow> 'w \<times> i32 option"
  ho_if_nametoindex :: "string \<Rightarrow> 'w \<Rightarrow> u32"
  ho_netlink :: "u8 list \<Rightarrow> 'w \<Rightarrow> 'w \<times> u8 list option list option"
  ho_take_map :: "nat \<Rightarrow> string \<Rightarrow> 'w \<Rightarrow> bool"
  ho_max_entries :: "nat \<Rightarrow> string \<Rightarrow> 'w \<Rightarrow> u32 option"
  ho_set_drop_config :: "nat \<Rightarrow> u8 \<Rightarrow> 'w \<Rightarrow> 'w \<times> bool"
  ho_pid :: nat

type_synonym ('w, 'a) act = "'w \<Rightarrow> 'w \<times> 'a res"

definition bindA :: "('w, 'a) act \<Rightarrow> ('a \<Rightarrow> ('w, 'b) act) \<Rightarrow> ('w, 'b) act" where
  "bindA a f w = (case a w of (w, Inl e) \<Rightarrow> (w, Inl e) | (w, Inr x) \<Rightarrow> f x w)"

definition liftA :: "'a res \<Rightarrow> ('w, 'a) act" where
  "liftA r w = (w, r)"

abbreviation okA :: "'a \<Rightarrow> ('w, 'a) act" where
  "okA x \<equiv> liftA (Inr x)"

abbreviation failA :: "string \<Rightarrow> ('w, 'a) act" where
  "failA msg \<equiv> liftA (Inl (AttachFailed msg))"

primrec traverseA :: "('a \<Rightarrow> ('w, 'b) act) \<Rightarrow> 'a list \<Rightarrow> ('w, 'b list) act" where
  "traverseA f [] = okA []"
| "traverseA f (x # xs) = bindA (f x) (\<lambda>y. bindA (traverseA f xs) (\<lambda>ys. okA (y # ys)))"

lemma bindA_Inr: "bindA a f w = (w', Inr y) \<longleftrightarrow> (\<exists>w1 x. a w = (w1, Inr x) \<and> f x w1 = (w', Inr y))"
  by (auto simp: bindA_def split: prod.splits sum.splits)

lemma bindA_cases: "a w = (w1, Inl e) \<Longrightarrow> bindA a f w = (w1, Inl e)" "a w = (w1, Inr x) \<Longrightarrow> bindA a f w = f x w1"
  by (simp_all add: bindA_def)

lemma liftA_simps [simp]: "liftA r w = (w, r)"
  by (simp add: liftA_def)

section \<open>JSON\<close>

fun as_u64 :: "json_value \<Rightarrow> u64 option" where
  "as_u64 (VInt i) = (if 0 \<le> i \<and> i < 2 ^ 64 then Some (word_of_int i) else None)"
| "as_u64 _ = None"

fun as_str :: "json_value \<Rightarrow> string option" where
  "as_str (VText s) = Some s"
| "as_str _ = None"

definition as_u32 :: "json_value \<Rightarrow> u32 option" where
  "as_u32 v = bind_option (as_u64 v) (\<lambda>i. if uint i < 2 ^ 32 then Some (ucast i) else None)"

subsection \<open>Program ids in the output of \<^verbatim>\<open>ip\<close>\<close>

definition mode_hint_matches :: "xdp_attach_mode \<Rightarrow> string \<Rightarrow> bool" where
  "mode_hint_matches mode mode_hint =
     (case mode of
        ModeDriver \<Rightarrow> contains_text ''drv'' mode_hint \<or> contains_text ''driver'' mode_hint \<or> contains_text ''native'' mode_hint
      | ModeSkb \<Rightarrow> contains_text ''skb'' mode_hint \<or> contains_text ''generic'' mode_hint
      | ModeAuto \<Rightarrow> False)"

definition collect_mode_hinted_program_id :: "(string \<times> json_value) list \<Rightarrow> xdp_attach_mode \<Rightarrow> u32 list" where
  "collect_mode_hinted_program_id obj mode =
     (let get = map_of obj;
          hint = (case get ''mode'' of None \<Rightarrow> get ''attached'' | Some v \<Rightarrow> Some v);
          mode_hint = to_lower (unwrap_or [] (bind_option hint as_str))
      in case bind_option (get ''prog_id'') as_u32 of
           None \<Rightarrow> []
         | Some i \<Rightarrow> if mode_hint_matches mode mode_hint then [i] else [])"

primrec collect_direct_program_id_fields :: "(string \<times> json_value) list \<Rightarrow> xdp_attach_mode \<Rightarrow> u32 list \<times> u32 list" where
  "collect_direct_program_id_fields [] mode = ([], [])"
| "collect_direct_program_id_fields (kv # obj) mode =
     (let (key, value) = kv; (mode_specific, generic) = collect_direct_program_id_fields obj mode in
      case as_u32 value of
        None \<Rightarrow> (mode_specific, generic)
      | Some i \<Rightarrow>
          if key = ''drv_prog_id'' \<and> mode = ModeDriver then (i # mode_specific, generic)
          else if key = ''skb_prog_id'' \<and> mode = ModeSkb then (i # mode_specific, generic)
          else if key = ''prog_id'' then (mode_specific, i # generic)
          else (mode_specific, generic))"

text \<open>The two vectors the walk pushes to, for one value: those of the object's own fields, then of its values.\<close>

fun collect_xdp_program_ids :: "json_value \<Rightarrow> xdp_attach_mode \<Rightarrow> u32 list \<times> u32 list" where
  "collect_xdp_program_ids (VObject obj) mode =
     (let (ms, gs) = collect_direct_program_id_fields obj mode;
          hinted = collect_mode_hinted_program_id obj mode;
          subs = map (\<lambda>kv. collect_xdp_program_ids (snd kv) mode) obj
      in (ms @ hinted @ concat (map fst subs), gs @ concat (map snd subs)))"
| "collect_xdp_program_ids (VList values) mode =
     (let subs = map (\<lambda>v. collect_xdp_program_ids v mode) values
      in (concat (map fst subs), concat (map snd subs)))"
| "collect_xdp_program_ids _ mode = ([], [])"

definition find_xdp_program_id :: "json_value \<Rightarrow> xdp_attach_mode \<Rightarrow> u32 option" where
  "find_xdp_program_id value mode =
     (case collect_xdp_program_ids value mode of
        (i # _, _) \<Rightarrow> Some i
      | ([], generic) \<Rightarrow> if length generic = 1 then Some (generic ! 0) else None)"

subsection \<open>Map ids in the output of \<^verbatim>\<open>bpftool\<close>\<close>

fun collect_map_ids_from_json :: "json_value \<Rightarrow> u32 set" where
  "collect_map_ids_from_json (VObject obj) =
     (case map_of obj ''map_ids'' of
        Some (VList ids) \<Rightarrow> set (List.map_filter as_u32 ids)
      | _ \<Rightarrow> {}) \<union> (\<Union>kv\<in>set obj. collect_map_ids_from_json (snd kv))"
| "collect_map_ids_from_json (VList values) = (\<Union>v\<in>set values. collect_map_ids_from_json v)"
| "collect_map_ids_from_json _ = {}"

subsection \<open>Addresses of an interface\<close>

definition interface_cidr :: "(string \<times> json_value) list \<Rightarrow> local_cidr list" where
  "interface_cidr obj =
     (case bind_option (map_of obj ''family'') as_str of
        None \<Rightarrow> []
      | Some family \<Rightarrow>
          if family \<noteq> ''inet'' \<and> family \<noteq> ''inet6'' then []
          else (case bind_option (bind_option (map_of obj ''local'') as_str) parse_ip of
                  None \<Rightarrow> []
                | Some ip \<Rightarrow>
                    [\<lparr>lc_ip = ip, lc_prefix =
                       (case bind_option (map_of obj ''prefixlen'') as_u64 of
                          Some p \<Rightarrow> if uint p < 256 then ucast p else if is_ipv4 ip then 32 else 128
                        | None \<Rightarrow> if is_ipv4 ip then 32 else 128)\<rparr>]))"

function collect_interface_cidrs_from_json :: "json_value \<Rightarrow> local_cidr list" where
  "collect_interface_cidrs_from_json (VObject obj) =
     (case map_of obj ''addr_info'' of None \<Rightarrow> [] | Some v \<Rightarrow> collect_interface_cidrs_from_json v) @ interface_cidr obj"
| "collect_interface_cidrs_from_json (VList values) = concat (map collect_interface_cidrs_from_json values)"
| "collect_interface_cidrs_from_json VNull = []"
| "collect_interface_cidrs_from_json (VBool b) = []"
| "collect_interface_cidrs_from_json (VInt i) = []"
| "collect_interface_cidrs_from_json VFloat = []"
| "collect_interface_cidrs_from_json (VText s) = []"
  by pat_completeness auto

lemma size_map_of: "map_of obj k = Some v \<Longrightarrow> size v \<le> size_list (size_prod (\<lambda>_. 0) size) obj"
  by (induction obj) (auto split: if_splits)

termination collect_interface_cidrs_from_json
  by (relation "measure size") (auto simp: size_map_of size_list_estimation' less_Suc_eq_le)

section \<open>Text\<close>

definition is_ascii_alphanumeric :: "char \<Rightarrow> bool" where
  "is_ascii_alphanumeric c \<longleftrightarrow> is_digit 10 c \<or> (let n = (of_char (ascii_lower c) :: nat) in 97 \<le> n \<and> n \<le> 122)"

definition safe_pin_char :: "char \<Rightarrow> bool" where
  "safe_pin_char c \<longleftrightarrow> is_ascii_alphanumeric c \<or> c \<in> {CHR ''-'', CHR ''_'', CHR ''.''}"

definition sanitize_pin_component :: "string \<Rightarrow> string res" where
  "sanitize_pin_component value =
     (let sanitized = map (\<lambda>ch. if safe_pin_char ch then ch else CHR ''_'') (trim value) in
      if sanitized = [] \<or> sanitized = ''.'' \<or> sanitized = ''..'' then Inl (AttachFailed ''not safe for bpffs pin path'')
      else Inr sanitized)"

definition join_path :: "string \<Rightarrow> string \<Rightarrow> string" where
  "join_path dir name = (if name \<noteq> [] \<and> hd name = CHR ''/'' then name else dir @ ''/'' @ name)"

definition map_pin_dir :: "string \<Rightarrow> string res" where
  "map_pin_dir interface = mapE (join_path ''/sys/fs/bpf/xdp-firewall'') (sanitize_pin_component interface)"

definition drop_events_pin_path :: "string \<Rightarrow> string res" where
  "drop_events_pin_path interface = mapE (\<lambda>d. join_path d ''drop_events'') (map_pin_dir interface)"

definition drop_config_pin_path :: "string \<Rightarrow> string res" where
  "drop_config_pin_path interface = mapE (\<lambda>d. join_path d ''drop_config'') (map_pin_dir interface)"

text \<open>\<^verbatim>\<open>parse::<usize>\<close> and \<^verbatim>\<open>parse::<u32>\<close>, with code equations over \<^typ>\<open>int\<close>.\<close>

definition parse_usize :: "string \<Rightarrow> nat option" where
  "parse_usize s = parse_uint (2 ^ 64) s"

definition parse_u32 :: "string \<Rightarrow> u32 option" where
  "parse_u32 s = map_option word_of_nat (parse_uint (2 ^ 32) s)"

definition parse_below :: "int \<Rightarrow> string \<Rightarrow> nat option" where
  "parse_below bound s =
     (let ds = (case s of CHR ''+'' # r \<Rightarrow> r | _ \<Rightarrow> s) in
      if ds \<noteq> [] \<and> list_all (is_digit 10) ds \<and> int (digits_value 10 ds) < bound then Some (digits_value 10 ds) else None)"

lemma parse_uint_below: "parse_uint b s = parse_below (int b) s"
  by (simp add: parse_uint_def parse_below_def Let_def)

lemma parse_usize_code [code]: "parse_usize s = parse_below 18446744073709551616 s"
  by (simp add: parse_usize_def parse_uint_below)

lemma parse_u32_code [code]: "parse_u32 s = map_option word_of_nat (parse_below 4294967296 s)"
  by (simp add: parse_u32_def parse_uint_below)

definition cpu_entries :: "nat \<Rightarrow> u32 option" where
  "cpu_entries max_cpu =
     (let entries = (max_cpu + 1) mod 2 ^ 64 in if entries < 2 ^ 32 then Some (word_of_nat entries) else None)"

lemma cpu_entries_code [code]:
  "cpu_entries max_cpu =
     (let entries = (int max_cpu + 1) mod 18446744073709551616 in
      if entries < 4294967296 then Some (word_of_int entries) else None)"
proof -
  have e: "int ((max_cpu + 1) mod 2 ^ 64) = (int max_cpu + 1) mod 18446744073709551616"
    using zmod_int [of "max_cpu + 1" "2 ^ 64"] by (simp add: add.commute)
  have "(max_cpu + 1) mod 2 ^ 64 < 2 ^ 32 \<longleftrightarrow> int ((max_cpu + 1) mod 2 ^ 64) < int (2 ^ 32)" by (simp only: of_nat_less_iff)
  also have "\<dots> \<longleftrightarrow> (int max_cpu + 1) mod 18446744073709551616 < 4294967296" unfolding e by simp
  moreover have "(word_of_nat ((max_cpu + 1) mod 2 ^ 64) :: u32) = word_of_int ((int max_cpu + 1) mod 18446744073709551616)"
    unfolding e [symmetric] by (simp only: of_int_of_nat_eq)
  ultimately show ?thesis by (simp add: cpu_entries_def Let_def)
qed

definition parse_cpu_range_end :: "string \<Rightarrow> nat res" where
  "parse_cpu_range_end value =
     ok_or (AttachFailed ''invalid CPU range'') (parse_usize (last (split_on (\<lambda>c. c = CHR ''-'') (trim value))))"

text \<open>\<^verbatim>\<open>max_cpu + 1\<close> is an addition of \<^verbatim>\<open>usize\<close>.\<close>

definition possible_cpu_map_entries :: "'w host \<Rightarrow> 'w \<Rightarrow> u32 res" where
  "possible_cpu_map_entries H w =
     bindE (ok_or (AttachFailed ''failed to read /sys/devices/system/cpu/possible'') (ho_read_file H ''/sys/devices/system/cpu/possible'' w)) (\<lambda>possible.
     bindE (traverse parse_cpu_range_end (filter (\<lambda>v. trim v \<noteq> []) (split_on (\<lambda>c. c = CHR '','') (trim possible)))) (\<lambda>ends.
     if ends = [] then Inl (AttachFailed ''possible CPU set is empty'')
     else ok_or (AttachFailed ''possible CPU id is outside u32 range'') (cpu_entries (Max (set ends)))))"

text \<open>The interface: the configured one, or the default route of the lowest metric, then of the least name.\<close>

definition default_route :: "string \<Rightarrow> (u32 \<times> string) option" where
  "default_route line =
     (let fields = split_whitespace line in
      if 3 < length fields \<and> fields ! 1 = ''00000000'' then
        Some (unwrap_or (- 1) (if 6 < length fields then parse_u32 (fields ! 6) else None), fields ! 0)
      else None)"

definition configured_interface :: "string option \<Rightarrow> string option" where
  "configured_interface configured = bind_option configured (\<lambda>v. if trim v = [] then None else Some (trim v))"

definition resolve_linux_interface_name :: "'w host \<Rightarrow> string option \<Rightarrow> 'w \<Rightarrow> string res" where
  "resolve_linux_interface_name H configured w =
     (case configured_interface configured of
        Some interface \<Rightarrow> Inr interface
      | None \<Rightarrow>
          bindE (ok_or (AttachFailed ''failed to read /proc/net/route'') (ho_read_file H ''/proc/net/route'' w)) (\<lambda>routes.
          case sort (List.map_filter default_route (drop 1 (str_lines routes))) of
            [] \<Rightarrow> Inl (AttachFailed ''failed to auto-detect network interface'')
          | (_, interface) # _ \<Rightarrow> Inr interface))"

definition require_explicit_interface :: "string option \<Rightarrow> string \<Rightarrow> string res" where
  "require_explicit_interface configured msg =
     (case configured_interface configured of None \<Rightarrow> Inl (AttachFailed msg) | Some interface \<Rightarrow> Inr (trim interface))"

subsection \<open>Output of the tools\<close>

definition is_no_dispatcher_output :: "process_output \<Rightarrow> bool" where
  "is_no_dispatcher_output out =
     (let text = to_lower (po_stdout out @ [newline] @ po_stderr out) in
      contains_text ''no xdp'' text \<or> contains_text ''no program'' text \<or> contains_text ''not found'' text \<or>
      contains_text ''no such'' text \<or> contains_text ''nothing'' text)"

definition ensure_success :: "string \<Rightarrow> process_output \<Rightarrow> unit res" where
  "ensure_success command out = (if po_success out then Inr () else Inl (AttachFailed (command @ '' failed'')))"

definition xdp_loader_verbose_args :: "u8 \<Rightarrow> string list \<Rightarrow> string list" where
  "xdp_loader_verbose_args verbose args = args @ replicate (unat verbose) ''--verbose''"

definition run_command :: "'w host \<Rightarrow> string \<Rightarrow> string list \<Rightarrow> ('w, process_output) act" where
  "run_command H program args w =
     (case ho_run H program args w of
        (w, None) \<Rightarrow> (w, Inl (AttachFailed (''failed to execute '' @ program)))
      | (w, Some out) \<Rightarrow> (w, Inr out))"

definition run_checked :: "'w host \<Rightarrow> string \<Rightarrow> string list \<Rightarrow> string \<Rightarrow> ('w, process_output) act" where
  "run_checked H program args command =
     bindA (run_command H program args) (\<lambda>out. bindA (liftA (ensure_success command out)) (\<lambda>_. okA out))"

definition existing_xdp_summary :: "'w host \<Rightarrow> string \<Rightarrow> ('w, string option) act" where
  "existing_xdp_summary H interface =
     bindA (run_checked H ''ip'' [''-details'', ''link'', ''show'', ''dev'', interface] ''inspect interface'') (\<lambda>out.
     let text = trim (po_stdout out);
         has_xdp = (contains_text '' xdp '' text \<or> contains_text '' xdpgeneric '' text \<or> contains_text '' xdpdrv '' text \<or>
           contains_text '' xdpoffload '' text \<or> contains_text ''prog/xdp'' text)
     in if \<not> has_xdp then okA None
        else okA (Some (unwrap_or ''xdp program present''
          (find (\<lambda>line. contains_text ''xdp'' line \<or> contains_text ''prog/xdp'' line \<or> contains_text ''id '' line \<or> contains_text ''tag '' line)
            (map trim (str_lines text))))))"

definition ensure_no_existing_xdp :: "'w host \<Rightarrow> string \<Rightarrow> ('w, unit) act" where
  "ensure_no_existing_xdp H interface =
     bindA (existing_xdp_summary H interface) (\<lambda>existing.
       if existing = None then okA () else failA ''already has an XDP program attached'')"

text \<open>The status table of the loader.\<close>

definition parse_u32_token :: "string \<Rightarrow> u32 option" where
  "parse_u32_token v =
     (let not_digit = (\<lambda>c. \<not> is_digit 10 c) in
      parse_u32 (rev (dropWhile not_digit (rev (dropWhile not_digit v)))))"

definition trim_end_colon :: "string \<Rightarrow> string" where
  "trim_end_colon s = rev (dropWhile (\<lambda>c. c = CHR '':'') (rev s))"

fun id_window :: "string list \<Rightarrow> u32 option" where
  "id_window (a # b # ts) =
     (case (if to_lower (trim_end_colon a) = ''id'' then parse_u32_token b else None) of
        Some i \<Rightarrow> Some i
      | None \<Rightarrow> id_window (b # ts))"
| "id_window _ = None"

fun find_map :: "('a \<Rightarrow> 'b option) \<Rightarrow> 'a list \<Rightarrow> 'b option" where
  "find_map f [] = None"
| "find_map f (x # xs) = (case f x of Some y \<Rightarrow> Some y | None \<Rightarrow> find_map f xs)"

definition parse_status_program_id :: "string list \<Rightarrow> string \<Rightarrow> u32 option" where
  "parse_status_program_id tokens program_name =
     (case id_window tokens of
        Some i \<Rightarrow> Some i
      | None \<Rightarrow>
          (case dropWhile (\<lambda>t. t \<noteq> program_name) tokens of
             [] \<Rightarrow> None
           | _ # after \<Rightarrow> find_map parse_u32_token after))"

record status_scan =
  ss_ids :: "u32 list"
  ss_matched_without_id :: bool
  ss_current_interface_matches :: bool

definition scan_status_line :: "string \<Rightarrow> string \<Rightarrow> string \<Rightarrow> status_scan \<Rightarrow> status_scan" where
  "scan_status_line interface program_name line s =
     (let tokens = split_whitespace line in
      if tokens = [] then s
      else
        let current = (if tokens ! 0 = interface then True
                       else if \<not> is_space (hd line) then False else ss_current_interface_matches s);
            s = s\<lparr>ss_current_interface_matches := current\<rparr>
        in if \<not> current \<or> program_name \<notin> set tokens then s
           else (case parse_status_program_id tokens program_name of
                   Some i \<Rightarrow> s\<lparr>ss_ids := ss_ids s @ [i]\<rparr>
                 | None \<Rightarrow> s\<lparr>ss_matched_without_id := True\<rparr>))"

definition parse_dispatcher_program_ids :: "string \<Rightarrow> string \<Rightarrow> string \<Rightarrow> u32 list res" where
  "parse_dispatcher_program_ids text interface program_name =
     (let s = fold (scan_status_line interface program_name) (str_lines text)
                \<lparr>ss_ids = [], ss_matched_without_id = False, ss_current_interface_matches = False\<rparr>
      in if ss_matched_without_id s then Inl (AttachFailed ''no program id could be parsed'')
         else Inr (remdups_adj (sort (ss_ids s))))"

definition dispatcher_program_ids_by_name :: "'w host \<Rightarrow> string \<Rightarrow> string \<Rightarrow> string \<Rightarrow> ('w, u32 list) act" where
  "dispatcher_program_ids_by_name H loader_path interface program_name =
     bindA (run_checked H loader_path [''status''] ''xdp-loader status'') (\<lambda>out.
     liftA (parse_dispatcher_program_ids (po_stdout out) interface program_name))"

definition show_u32 :: "u32 \<Rightarrow> string" where
  "show_u32 v = dec_nat (unat v)"

definition unload_program :: "'w host \<Rightarrow> string \<Rightarrow> string \<Rightarrow> bool \<Rightarrow> u32 \<Rightarrow> ('w, unit) act" where
  "unload_program H loader_path interface tolerate_missing i =
     bindA (run_command H loader_path [''unload'', ''--id'', show_u32 i, interface]) (\<lambda>out.
     (case ensure_success ''xdp-loader unload --id'' out of
        Inr _ \<Rightarrow> okA ()
      | Inl e \<Rightarrow> if tolerate_missing \<and> is_no_dispatcher_output out then okA () else liftA (Inl e)))"

definition unload_dispatcher_programs_by_name ::
    "'w host \<Rightarrow> string \<Rightarrow> string \<Rightarrow> string \<Rightarrow> bool \<Rightarrow> ('w, unit) act" where
  "unload_dispatcher_programs_by_name H loader_path interface program_name tolerate_missing =
     bindA (dispatcher_program_ids_by_name H loader_path interface program_name) (\<lambda>ids.
     bindA (traverseA (unload_program H loader_path interface tolerate_missing) ids) (\<lambda>_. okA ()))"

section \<open>What the readers promise\<close>

text \<open>A pin directory is one component below the root of the firewall.\<close>

lemma safe_pin_underscore: "safe_pin_char CHR ''_''"
  by (simp add: safe_pin_char_def)

lemma sanitize_pin_component_safe:
  assumes "sanitize_pin_component v = Inr s"
  shows "s \<noteq> []" "s \<noteq> ''.''" "s \<noteq> ''..''" "CHR ''/'' \<notin> set s"
proof -
  show "s \<noteq> []" "s \<noteq> ''.''" "s \<noteq> ''..''" using assms by (auto simp: sanitize_pin_component_def Let_def split: if_splits)
  have "\<forall>c\<in>set s. safe_pin_char c"
    using assms by (auto simp: sanitize_pin_component_def Let_def safe_pin_underscore split: if_splits)
  moreover have "\<not> safe_pin_char CHR ''/''" by code_simp
  ultimately show "CHR ''/'' \<notin> set s" by blast
qed

lemma map_pin_dir_below_root:
  "map_pin_dir v = Inr d \<Longrightarrow> \<exists>s. d = ''/sys/fs/bpf/xdp-firewall/'' @ s \<and> s \<notin> {[], ''.'', ''..''} \<and> CHR ''/'' \<notin> set s"
proof -
  assume "map_pin_dir v = Inr d"
  then obtain s where s: "sanitize_pin_component v = Inr s" "d = join_path ''/sys/fs/bpf/xdp-firewall'' s"
    by (cases "sanitize_pin_component v") (auto simp: map_pin_dir_def)
  note safe = sanitize_pin_component_safe [OF s(1)]
  then have "hd s \<noteq> CHR ''/''" by (metis list.set_sel(1))
  then show ?thesis using s(2) safe by (simp add: join_path_def)
qed

lemma distinct_adj_sorted: "sorted xs \<Longrightarrow> distinct_adj xs \<Longrightarrow> distinct (xs :: 'a :: linorder list)"
proof (induction xs)
  case (Cons x xs)
  then have d: "distinct xs" by (cases xs) (auto simp: distinct_adj_Cons)
  have "x \<notin> set xs"
  proof
    assume x: "x \<in> set xs"
    then obtain y ys where xs: "xs = y # ys" by (cases xs) auto
    then have "x \<noteq> y" "x \<le> y" using Cons by simp_all
    moreover have "y \<le> x" using Cons(2) x xs by auto
    ultimately show False by simp
  qed
  then show ?case using d by simp
qed simp

lemma parse_dispatcher_program_ids_sorted:
  "parse_dispatcher_program_ids text interface name = Inr ids \<Longrightarrow> sorted ids \<and> distinct ids"
  by (auto simp: parse_dispatcher_program_ids_def Let_def split: if_splits intro: sorted_remdups_adj distinct_adj_sorted)

end
