(* ===== verification/Xdp_Attach.thy ===== *)
theory Xdp_Attach
  imports Xdp_Host
begin

text \<open>
  Attaching the kernel program: \<^verbatim>\<open>linux.rs\<close> (\<^verbatim>\<open>attach\<close>), \<^verbatim>\<open>linux/attach_lifecycle.rs\<close>, \<^verbatim>\<open>linux/netlink.rs\<close>,
  \<^verbatim>\<open>netlink/{attach,programs}.rs\<close>, \<^verbatim>\<open>netlink/attach/replace.rs\<close>, \<^verbatim>\<open>linux/loader.rs\<close>, \<^verbatim>\<open>loader/{load,unload,map_identity}.rs\<close>,
  \<^verbatim>\<open>linux/pinned_maps.rs\<close>, \<^verbatim>\<open>pinned_maps/{object,temp_bans}.rs\<close> and the commands of \<^verbatim>\<open>linux/dispatcher.rs\<close>. What a
  command prints is left out; the commands it runs on the machine, and the state they leave when a later one
  fails, are not.
\<close>

section \<open>The options\<close>

record attach_options = xdp_attach_options +
  ao_loader_path :: string
  ao_bpftool_path :: string

record direct_netlink_link =
  dl_interface :: string
  dl_if_index :: i32
  dl_prog_fd :: i32
  dl_mode :: xdp_attach_mode

section \<open>Replacing a program over netlink\<close>

text \<open>Where the code would wait for an answer that never comes, the model gives an error.\<close>

definition set_xdp_fd ::
    "'w host \<Rightarrow> i32 \<Rightarrow> i32 option \<Rightarrow> i32 option \<Rightarrow> xdp_attach_mode \<Rightarrow> ('w, unit) act" where
  "set_xdp_fd H if_index fd expected_fd mode =
     bindA (liftA (build_setlink_message if_index (build_xdp_attrs fd expected_fd mode))) (\<lambda>msg w.
     case ho_netlink H msg w of
       (w, None) \<Rightarrow> (w, Inl (AttachFailed ''failed to send netlink XDP replace request''))
     | (w, Some answers) \<Rightarrow>
         (w, case receive_netlink_xdp_ack answers of
               Acked \<Rightarrow> Inr ()
             | Rejected e \<Rightarrow> Inl e
             | Panicked \<Rightarrow> Inl (Internal ''panic'')
             | StillWaiting \<Rightarrow> Inl (Internal ''no answer'')))"

text \<open>The destructor of a link: the error is only logged.\<close>

definition drop_direct_link :: "'w host \<Rightarrow> direct_netlink_link \<Rightarrow> 'w \<Rightarrow> 'w" where
  "drop_direct_link H l w = fst (set_xdp_fd H (dl_if_index l) None (Some (dl_prog_fd l)) (dl_mode l) w)"

definition current_xdp_program_id :: "'w host \<Rightarrow> string \<Rightarrow> xdp_attach_mode \<Rightarrow> ('w, u32 option) act" where
  "current_xdp_program_id H interface mode =
     bindA (run_checked H ''ip'' [''-j'', ''-details'', ''link'', ''show'', ''dev'', interface] ''inspect interface'') (\<lambda>out.
     bindA (liftA (ok_or (AttachFailed ''failed to parse ip JSON'') (ho_json H (po_stdout out)))) (\<lambda>v.
     okA (find_xdp_program_id v mode)))"

text \<open>The pin that holds the old program while its file descriptor is taken; the guard removes it at the end.\<close>

definition program_fd_by_id :: "'w host \<Rightarrow> string \<Rightarrow> string \<Rightarrow> u32 \<Rightarrow> ('w, i32) act" where
  "program_fd_by_id H bpftool_path interface program_id =
     bindA (liftA (sanitize_pin_component interface)) (\<lambda>safe_interface.
     bindA (\<lambda>w. case ho_create_dir_all H ''/sys/fs/bpf/xdp-firewall'' w of (w, ok) \<Rightarrow>
              (w, if ok then Inr () else Inl (AttachFailed ''failed to create bpffs pin root''))) (\<lambda>_.
     let pin_path = join_path ''/sys/fs/bpf/xdp-firewall''
           (''.direct-replace-old-'' @ safe_interface @ ''-'' @ dec_nat (ho_pid H) @ ''-'' @ show_u32 program_id)
     in bindA (\<lambda>w. if ho_exists H pin_path w then
                 (case ho_remove_file H pin_path w of
                    (w, IoOk) \<Rightarrow> (w, Inr ())
                  | (w, _) \<Rightarrow> (w, Inl (AttachFailed ''failed to remove stale temporary bpffs pin'')))
               else (w, Inr ())) (\<lambda>_.
        bindA (run_checked H bpftool_path [''prog'', ''pin'', ''id'', show_u32 program_id, pin_path] ''bpftool prog pin'') (\<lambda>_ w.
        case ho_pinned_program H pin_path w of
          (w, fd) \<Rightarrow> (fst (ho_remove_file H pin_path w), ok_or (AttachFailed ''failed to open temporary bpffs pin'') fd)))))"

definition if_index :: "'w host \<Rightarrow> string \<Rightarrow> ('w, i32) act" where
  "if_index H interface w =
     (w, if CHR 0x00 \<in> set interface then Inl (AttachFailed ''embedded NUL'')
         else let index = ho_if_nametoindex H interface w in
           if index = 0 then Inl (AttachFailed ''interface does not exist'')
           else ok_or (AttachFailed ''interface index is outside i32 range'') (i32_try_from_u32 index))"

definition direct_replace_program ::
    "'w host \<Rightarrow> i32 \<Rightarrow> string \<Rightarrow> xdp_attach_mode \<Rightarrow> string \<Rightarrow> u32 \<Rightarrow> ('w, direct_netlink_link option) act" where
  "direct_replace_program H program_fd interface mode bpftool_path existing_id =
     bindA (if_index H interface) (\<lambda>index.
     bindA (program_fd_by_id H bpftool_path interface existing_id) (\<lambda>old_prog.
     bindA (\<lambda>w. case ho_clone_fd H program_fd w of (w, fd) \<Rightarrow> (w, ok_or (AttachFailed ''failed to clone loaded XDP program fd'') fd)) (\<lambda>new_prog_fd.
     bindA (set_xdp_fd H index (Some new_prog_fd) (Some old_prog) mode) (\<lambda>_.
     okA (Some \<lparr>dl_interface = interface, dl_if_index = index, dl_prog_fd = new_prog_fd, dl_mode = mode\<rparr>)))))"

definition attach_program_mode ::
    "'w host \<Rightarrow> nat \<Rightarrow> string \<Rightarrow> i32 \<Rightarrow> string \<Rightarrow> xdp_attach_mode \<Rightarrow> bool \<Rightarrow> string \<Rightarrow> ('w, direct_netlink_link option) act" where
  "attach_program_mode H ebpf program_name program_fd interface mode allow_replace bpftool_path =
     bindA (current_xdp_program_id H interface mode) (\<lambda>current.
     case current of
       None \<Rightarrow> (\<lambda>w. case ho_program_attach H ebpf program_name interface mode w of
           (w, ok) \<Rightarrow> (w, if ok then Inr None else Inl (AttachFailed ''attach'')))
     | Some existing_id \<Rightarrow>
         if \<not> allow_replace then failA ''interface already has an XDP program''
         else direct_replace_program H program_fd interface mode bpftool_path existing_id)"

definition attach_program ::
    "'w host \<Rightarrow> nat \<Rightarrow> string \<Rightarrow> i32 \<Rightarrow> string \<Rightarrow> xdp_attach_mode \<Rightarrow> bool \<Rightarrow> string \<Rightarrow> ('w, direct_netlink_link option) act" where
  "attach_program H ebpf program_name program_fd interface attach_mode allow_replace bpftool_path =
     (let attach = (\<lambda>mode. attach_program_mode H ebpf program_name program_fd interface mode allow_replace bpftool_path) in
      case attach_mode of
        ModeAuto \<Rightarrow> (\<lambda>w. case attach ModeDriver w of
            (w, Inr link) \<Rightarrow> (w, Inr link)
          | (w, Inl _) \<Rightarrow> attach ModeSkb w)
      | ModeDriver \<Rightarrow> attach ModeDriver
      | ModeSkb \<Rightarrow> attach ModeSkb)"

definition attach_direct_program ::
    "'w host \<Rightarrow> nat \<Rightarrow> string \<Rightarrow> string \<Rightarrow> attach_options \<Rightarrow> ('w, direct_netlink_link option) act" where
  "attach_direct_program H ebpf interface program_name attach_options =
     bindA (if \<not> ao_allow_replace attach_options then ensure_no_existing_xdp H interface else okA ()) (\<lambda>_.
     bindA (case ho_program H ebpf program_name of
              None \<Rightarrow> failA ''XDP program is missing''
            | Some is_xdp \<Rightarrow> if is_xdp then okA () else failA ''program is not XDP'') (\<lambda>_.
     bindA (\<lambda>w. case ho_program_load H ebpf program_name w of (w, fd) \<Rightarrow> (w, ok_or (AttachFailed ''failed to load XDP program'') fd)) (\<lambda>fd.
     attach_program H ebpf program_name fd interface (ao_mode attach_options) (ao_allow_replace attach_options) (ao_bpftool_path attach_options))))"

section \<open>The dispatcher\<close>

definition run_xdp_loader_load_mode ::
    "'w host \<Rightarrow> string \<Rightarrow> string \<Rightarrow> string \<Rightarrow> attach_options \<Rightarrow> string \<Rightarrow> string \<Rightarrow> ('w, unit) act" where
  "run_xdp_loader_load_mode H interface object_path program_name options pin_dir mode =
     bindA (run_checked H (ao_loader_path options)
       [''load'', ''--mode'', mode, ''--pin-path'', pin_dir, ''--prog-name'', program_name,
        ''--prio'', dec_int (sint (ao_run_priority options)), interface, object_path] ''xdp-loader load'') (\<lambda>_. okA ())"

definition run_xdp_loader_load ::
    "'w host \<Rightarrow> string \<Rightarrow> string \<Rightarrow> string \<Rightarrow> attach_options \<Rightarrow> string \<Rightarrow> ('w, unit) act" where
  "run_xdp_loader_load H interface object_path program_name options pin_dir =
     (let load = run_xdp_loader_load_mode H interface object_path program_name options pin_dir in
      case ao_mode options of
        ModeAuto \<Rightarrow> (\<lambda>w. case load ''native'' w of (w, Inr _) \<Rightarrow> (w, Inr ()) | (w, Inl _) \<Rightarrow> load ''skb'' w)
      | ModeDriver \<Rightarrow> load ''native''
      | ModeSkb \<Rightarrow> load ''skb'')"

definition dispatcher_referenced_maps :: "string list" where
  "dispatcher_referenced_maps =
     [''rule_cidrs'', ''geo_cidrs'', ''trusted_cidrs'', ''country_rules'', ''defense_policy'', ''rate_buckets'',
      ''custom_rate_limits'', ''temp_bans'', ''drop_config'', ''stats'', ''drop_events'']"

definition pinned_map_ids :: "'w host \<Rightarrow> string \<Rightarrow> ('w, (string \<times> u32) list) act" where
  "pinned_map_ids H pin_dir w =
     (w, traverse (\<lambda>name. mapE (\<lambda>m. (name, pm_id m))
           (ok_or (AttachFailed ''failed to open pinned XDP map'') (ho_pinned_map H (join_path pin_dir name) w)))
         dispatcher_referenced_maps)"

definition bpftool_program_map_ids :: "'w host \<Rightarrow> string \<Rightarrow> u32 \<Rightarrow> ('w, u32 set) act" where
  "bpftool_program_map_ids H bpftool_path program_id =
     bindA (run_checked H bpftool_path [''-j'', ''prog'', ''show'', ''id'', show_u32 program_id] ''bpftool prog show'') (\<lambda>out.
     bindA (liftA (ok_or (AttachFailed ''failed to parse bpftool JSON'') (ho_json H (po_stdout out)))) (\<lambda>v.
     let ids = collect_map_ids_from_json v in
     if ids = {} then failA ''bpftool did not report any map_ids'' else okA ids))"

definition verify_dispatcher_map_identity ::
    "'w host \<Rightarrow> string \<Rightarrow> string \<Rightarrow> string \<Rightarrow> string \<Rightarrow> string \<Rightarrow> ('w, unit) act" where
  "verify_dispatcher_map_identity H loader_path bpftool_path interface program_name pin_dir =
     bindA (dispatcher_program_ids_by_name H loader_path interface program_name) (\<lambda>ids.
     case ids of
       [program_id] \<Rightarrow>
         bindA (bpftool_program_map_ids H bpftool_path program_id) (\<lambda>program_map_ids.
         bindA (pinned_map_ids H pin_dir) (\<lambda>expected.
         if filter (\<lambda>e. snd e \<notin> program_map_ids) expected \<noteq> [] then failA ''dispatcher program is not using pinned XDP maps''
         else okA ()))
     | _ \<Rightarrow> failA ''expected exactly one dispatcher program'')"

definition attach_dispatcher_program ::
    "'w host \<Rightarrow> string \<Rightarrow> string \<Rightarrow> string \<Rightarrow> attach_options \<Rightarrow> string \<Rightarrow> ('w, unit) act" where
  "attach_dispatcher_program H interface object_path program_name attach_options pin_dir =
     bindA (unload_dispatcher_programs_by_name H (ao_loader_path attach_options) interface program_name False) (\<lambda>_.
     bindA (run_xdp_loader_load H interface object_path program_name attach_options pin_dir) (\<lambda>_.
     verify_dispatcher_map_identity H (ao_loader_path attach_options) (ao_bpftool_path attach_options) interface program_name pin_dir))"

text \<open>The flag \<^verbatim>\<open>dispatcher_loaded\<close> that the code passes as \<^verbatim>\<open>&mut bool\<close> is the second component of the result: it is
  only set when the whole attach of the dispatcher has succeeded.\<close>

definition attach_loaded_program ::
    "'w host \<Rightarrow> nat \<Rightarrow> string \<Rightarrow> string \<Rightarrow> string \<Rightarrow> attach_options \<Rightarrow> string \<Rightarrow> 'w
       \<Rightarrow> ('w \<times> direct_netlink_link option res) \<times> bool" where
  "attach_loaded_program H ebpf interface object_path program_name attach_options pin_dir w =
     (case ao_strategy attach_options of
        Direct \<Rightarrow> (attach_direct_program H ebpf interface program_name attach_options w, False)
      | Dispatcher \<Rightarrow>
          (case attach_dispatcher_program H interface object_path program_name attach_options pin_dir w of
             (w, Inl e) \<Rightarrow> ((w, Inl e), False)
           | (w, Inr _) \<Rightarrow> ((w, Inr None), True)))"

section \<open>Pinned maps\<close>

definition prepare_map_pin_dir :: "'w host \<Rightarrow> string \<Rightarrow> ('w, unit) act" where
  "prepare_map_pin_dir H pin_dir w =
     (case ho_create_dir_all H pin_dir w of
        (w, ok) \<Rightarrow> (w, if ok then Inr () else Inl (AttachFailed ''failed to create bpffs map pin directory'')))"

definition pinned_map_type :: "'w host \<Rightarrow> string \<Rightarrow> string \<Rightarrow> ('w, map_type option) act" where
  "pinned_map_type H pin_dir name w =
     (w, let path = join_path pin_dir name in
         if \<not> ho_exists H path w then Inr None
         else bindE (ok_or (AttachFailed ''failed to open pinned XDP map'') (ho_pinned_map H path w)) (\<lambda>m.
           mapE Some (ok_or (AttachFailed ''failed to read pinned XDP map type'') (pm_type m))))"

definition recreate_incompatible_pinned_maps ::
    "'w host \<Rightarrow> string \<Rightarrow> string \<Rightarrow> attach_options \<Rightarrow> string \<Rightarrow> ('w, unit) act" where
  "recreate_incompatible_pinned_maps H interface program_name attach_options pin_dir =
     bindA (pinned_map_type H pin_dir ''temp_bans'') (\<lambda>map_type.
     if map_type = None \<or> map_type = Some LpmTrie then okA ()
     else
       bindA (case ao_strategy attach_options of
                Direct \<Rightarrow> if \<not> ao_allow_replace attach_options then ensure_no_existing_xdp H interface else okA ()
              | Dispatcher \<Rightarrow> unload_dispatcher_programs_by_name H (ao_loader_path attach_options) interface program_name False) (\<lambda>_.
       bindA (\<lambda>w. case ho_remove_dir_all H pin_dir w of
                (w, IoOk) \<Rightarrow> (w, Inr ())
              | (w, _) \<Rightarrow> (w, Inl (AttachFailed ''failed to remove incompatible pinned map directory''))) (\<lambda>_.
       prepare_map_pin_dir H pin_dir)))"

definition load_object_with_pinned_maps ::
    "'w host \<Rightarrow> string \<Rightarrow> xdp_map_sizes \<Rightarrow> string \<Rightarrow> ('w, nat) act" where
  "load_object_with_pinned_maps H object_path map_sizes pin_dir w =
     (case possible_cpu_map_entries H w of
        Inl e \<Rightarrow> (w, Inl e)
      | Inr drop_event_entries \<Rightarrow>
          (case ho_load_object H object_path
             [(''rule_cidrs'', rule_entries map_sizes), (''geo_cidrs'', geo_entries map_sizes),
              (''trusted_cidrs'', trusted_entries map_sizes), (''country_rules'', country_entries map_sizes),
              (''rate_buckets'', rate_entries map_sizes), (''custom_rate_limits'', custom_rate_limit_entries map_sizes),
              (''temp_bans'', temp_ban_entries map_sizes), (''drop_events'', drop_event_entries)] pin_dir w of
             (w, ebpf) \<Rightarrow> (w, ok_or (AttachFailed ''failed to load XDP object'') ebpf)))"

definition taken_maps :: "string list" where
  "taken_maps = [''rule_cidrs'', ''geo_cidrs'', ''trusted_cidrs'', ''country_rules'', ''defense_policy'',
     ''custom_rate_limits'', ''temp_bans'', ''drop_config'', ''stats'', ''drop_events'']"

definition take_maps :: "'w host \<Rightarrow> nat \<Rightarrow> ('w, unit) act" where
  "take_maps H ebpf w =
     (w, if list_all (\<lambda>name. ho_take_map H ebpf name w) taken_maps then Inr ()
         else Inl (AttachFailed ''missing XDP map or unexpected type''))"

definition actual_map_sizes :: "'w host \<Rightarrow> nat \<Rightarrow> xdp_map_sizes \<Rightarrow> ('w, xdp_map_sizes) act" where
  "actual_map_sizes H ebpf requested w =
     (w, let entries = (\<lambda>name. ok_or (AttachFailed ''failed to inspect XDP map'') (ho_max_entries H ebpf name w)) in
         bindE (entries ''rule_cidrs'') (\<lambda>rules.
         bindE (entries ''geo_cidrs'') (\<lambda>geo.
         bindE (entries ''trusted_cidrs'') (\<lambda>trusted.
         bindE (entries ''country_rules'') (\<lambda>countries.
         bindE (entries ''custom_rate_limits'') (\<lambda>custom.
         bindE (entries ''temp_bans'') (\<lambda>bans.
         Inr \<lparr>rule_entries = rules, geo_entries = geo, trusted_entries = trusted, country_entries = countries,
              rate_entries = rate_entries requested, custom_rate_limit_entries = custom, temp_ban_entries = bans\<rparr>)))))))"

definition local_interface_cidrs :: "'w host \<Rightarrow> string \<Rightarrow> ('w, local_cidr list) act" where
  "local_interface_cidrs H interface =
     bindA (run_checked H ''ip'' [''-j'', ''addr'', ''show'', ''dev'', interface] ''inspect interface addresses'') (\<lambda>out.
     bindA (liftA (ok_or (AttachFailed ''failed to parse ip JSON'') (ho_json H (po_stdout out)))) (\<lambda>v.
     okA (remdups_adj (sort_key (\<lambda>c. (lc_ip c, lc_prefix c)) (collect_interface_cidrs_from_json v)))))"

definition set_drop_config :: "'w host \<Rightarrow> nat \<Rightarrow> bool \<Rightarrow> ('w, unit) act" where
  "set_drop_config H ebpf enabled w =
     (case ho_set_drop_config H ebpf (u8_of_bool enabled) w of
        (w, ok) \<Rightarrow> (w, if ok then Inr () else Inl (MapError ''drop_config'')))"

section \<open>Attaching\<close>

record attached_manager =
  am_interface :: string
  am_object_path :: string
  am_program_name :: string
  am_attach_options :: attach_options
  am_direct_netlink_link :: "direct_netlink_link option"
  am_ebpf :: nat
  am_map_sizes :: xdp_map_sizes
  am_local_interface_cidrs :: "local_cidr list"

definition build_attached_manager ::
    "'w host \<Rightarrow> string \<Rightarrow> string \<Rightarrow> string \<Rightarrow> attach_options \<Rightarrow> direct_netlink_link option \<Rightarrow> nat \<Rightarrow> xdp_map_sizes
       \<Rightarrow> local_cidr list \<Rightarrow> ('w, attached_manager) act" where
  "build_attached_manager H interface object_path program_name attach_options link ebpf map_sizes locals =
     bindA (set_drop_config H ebpf False) (\<lambda>_.
     okA \<lparr>am_interface = interface, am_object_path = object_path, am_program_name = program_name,
       am_attach_options = attach_options, am_direct_netlink_link = link, am_ebpf = ebpf, am_map_sizes = map_sizes,
       am_local_interface_cidrs = locals\<rparr>)"

definition rollback_failed_attach ::
    "'w host \<Rightarrow> string \<Rightarrow> string \<Rightarrow> attach_options \<Rightarrow> string \<Rightarrow> bool \<Rightarrow> bool \<Rightarrow> 'w \<Rightarrow> 'w" where
  "rollback_failed_attach H interface program_name attach_options pin_dir pin_dir_existed dispatcher_loaded w =
     (let w = (if dispatcher_loaded
               then fst (unload_dispatcher_programs_by_name H (ao_loader_path attach_options) interface program_name True w)
               else w)
      in if \<not> pin_dir_existed then fst (ho_remove_dir_all H pin_dir w) else w)"

text \<open>When a later step fails, the link is dropped and then the loaded object, before the rollback.\<close>

definition finish_attach ::
    "'w host \<Rightarrow> string \<Rightarrow> string \<Rightarrow> string \<Rightarrow> xdp_map_sizes \<Rightarrow> attach_options \<Rightarrow> nat \<Rightarrow> direct_netlink_link option
       \<Rightarrow> ('w, attached_manager) act" where
  "finish_attach H interface object_path program_name map_sizes attach_options ebpf link w =
     (case bindA (take_maps H ebpf) (\<lambda>_.
           bindA (actual_map_sizes H ebpf map_sizes) (\<lambda>sizes.
           bindA (local_interface_cidrs H interface) (\<lambda>locals.
           build_attached_manager H interface object_path program_name attach_options link ebpf sizes locals))) w of
        (w, Inr m) \<Rightarrow> (w, Inr m)
      | (w, Inl e) \<Rightarrow> (ho_drop_object H ebpf (case link of None \<Rightarrow> w | Some l \<Rightarrow> drop_direct_link H l w), Inl e))"

definition linux_attach ::
    "'w host \<Rightarrow> string \<Rightarrow> string \<Rightarrow> string \<Rightarrow> xdp_map_sizes \<Rightarrow> attach_options \<Rightarrow> ('w, attached_manager) act" where
  "linux_attach H interface object_path program_name map_sizes attach_options w =
     (if \<not> ho_exists H object_path w then (w, Inl (AttachFailed ''XDP object does not exist''))
      else case map_pin_dir interface of
        Inl e \<Rightarrow> (w, Inl e)
      | Inr pin_dir \<Rightarrow>
          (let pin_dir_existed = ho_exists H pin_dir w;
               rollback = rollback_failed_attach H interface program_name attach_options pin_dir pin_dir_existed
           in case bindA (prepare_map_pin_dir H pin_dir) (\<lambda>_.
                   bindA (recreate_incompatible_pinned_maps H interface program_name attach_options pin_dir) (\<lambda>_.
                   load_object_with_pinned_maps H object_path map_sizes pin_dir)) w of
                (w, Inl e) \<Rightarrow> (rollback False w, Inl e)
              | (w, Inr ebpf) \<Rightarrow>
                  (case attach_loaded_program H ebpf interface object_path program_name attach_options pin_dir w of
                     ((w, Inl e), loaded) \<Rightarrow> (rollback loaded (ho_drop_object H ebpf w), Inl e)
                   | ((w, Inr link), loaded) \<Rightarrow>
                       (case finish_attach H interface object_path program_name map_sizes attach_options ebpf link w of
                          (w, Inl e) \<Rightarrow> (rollback loaded w, Inl e)
                        | (w, Inr m) \<Rightarrow> (w, Inr m)))))"

definition attach_manager ::
    "'w host \<Rightarrow> string option \<Rightarrow> string \<Rightarrow> string \<Rightarrow> xdp_map_sizes \<Rightarrow> attach_options \<Rightarrow> ('w, attached_manager) act" where
  "attach_manager H interface object_path program_name map_sizes attach_options w =
     (case bindE (map_sizes_validate map_sizes) (\<lambda>sizes.
           mapE (Pair sizes) (resolve_linux_interface_name H interface w)) of
        Inl e \<Rightarrow> (w, Inl e)
      | Inr (sizes, name) \<Rightarrow> linux_attach H name object_path program_name sizes attach_options w)"

section \<open>The commands\<close>

definition remove_map_pin_dir :: "'w host \<Rightarrow> string \<Rightarrow> ('w, unit) act" where
  "remove_map_pin_dir H interface =
     bindA (liftA (map_pin_dir interface)) (\<lambda>pin_dir w.
     case ho_remove_dir_all H pin_dir w of
       (w, IoError) \<Rightarrow> (w, Inl (AttachFailed ''failed to remove pinned map directory''))
     | (w, _) \<Rightarrow> (w, Inr ()))"

definition validate_unload_request :: "u32 option \<Rightarrow> bool \<Rightarrow> bool \<Rightarrow> unit res" where
  "validate_unload_request program_id all remove_pins =
     (if \<not> all \<and> program_id = None then Inl (AttachFailed ''xdp unload/replace requires either --all or --id'')
      else if remove_pins \<and> \<not> all then Inl (AttachFailed ''--remove-pins requires --all'')
      else Inr ())"

definition run_xdp_loader_unload ::
    "'w host \<Rightarrow> string \<Rightarrow> string \<Rightarrow> u32 option \<Rightarrow> bool \<Rightarrow> u8 \<Rightarrow> bool \<Rightarrow> ('w, unit) act" where
  "run_xdp_loader_unload H interface loader_path program_id all verbose tolerate_missing =
     (let args = xdp_loader_verbose_args verbose [''unload''] @
          (if all then [''--all''] else case program_id of Some i \<Rightarrow> [''--id'', show_u32 i] | None \<Rightarrow> []) @ [interface]
      in bindA (run_command H loader_path args) (\<lambda>out.
         case ensure_success ''xdp-loader unload'' out of
           Inr _ \<Rightarrow> okA ()
         | Inl e \<Rightarrow> if tolerate_missing \<and> is_no_dispatcher_output out then okA () else liftA (Inl e)))"

definition run_xdp_loader_clean :: "'w host \<Rightarrow> string \<Rightarrow> string \<Rightarrow> u8 \<Rightarrow> ('w, unit) act" where
  "run_xdp_loader_clean H interface loader_path verbose =
     bindA (run_checked H loader_path (xdp_loader_verbose_args verbose [''clean''] @ [interface]) ''xdp-loader clean'') (\<lambda>_. okA ())"

definition dispatcher_unload_inner ::
    "'w host \<Rightarrow> string \<Rightarrow> string \<Rightarrow> u32 option \<Rightarrow> bool \<Rightarrow> bool \<Rightarrow> bool \<Rightarrow> u8 \<Rightarrow> bool \<Rightarrow> ('w, unit) act" where
  "dispatcher_unload_inner H interface loader_path program_id all remove_pins clean verbose tolerate_missing =
     bindA (liftA (validate_unload_request program_id all remove_pins)) (\<lambda>_.
     bindA (run_xdp_loader_unload H interface loader_path program_id all verbose tolerate_missing) (\<lambda>_.
     bindA (if clean then run_xdp_loader_clean H interface loader_path verbose else okA ()) (\<lambda>_.
     if remove_pins then remove_map_pin_dir H interface else okA ())))"

record unload_args =
  ua_interface :: "string option"
  ua_loader_path :: string
  ua_id :: "u32 option"
  ua_all :: bool
  ua_remove_pins :: bool
  ua_clean :: bool
  ua_verbose :: u8

definition dispatcher_unload :: "'w host \<Rightarrow> unload_args \<Rightarrow> ('w, unit) act" where
  "dispatcher_unload H args =
     bindA (liftA (require_explicit_interface (ua_interface args) ''xdp unload requires --interface'')) (\<lambda>interface.
     dispatcher_unload_inner H interface (ua_loader_path args) (ua_id args) (ua_all args) (ua_remove_pins args) (ua_clean args)
       (ua_verbose args) False)"

record replace_args = unload_args +
  ra_bpftool_path :: string
  ra_mode :: xdp_attach_mode
  ra_run_priority :: i32
  ra_object :: string
  ra_program :: string
  ra_map_capacities :: xdp_map_sizes

definition dispatcher_replace :: "'w host \<Rightarrow> replace_args \<Rightarrow> ('w, attached_manager) act" where
  "dispatcher_replace H args =
     bindA (liftA (require_explicit_interface (ua_interface args) ''xdp replace requires --interface'')) (\<lambda>interface.
     bindA (if ua_id args \<noteq> None \<or> ua_all args \<or> ua_remove_pins args \<or> ua_clean args then
              dispatcher_unload_inner H interface (ua_loader_path args) (ua_id args) (ua_all args) (ua_remove_pins args)
                (ua_clean args) (ua_verbose args) True
            else okA ()) (\<lambda>_.
     linux_attach H interface (ra_object args) (ra_program args) (ra_map_capacities args)
       \<lparr>ao_mode = ra_mode args, ao_strategy = Dispatcher, ao_allow_replace = False, ao_auto_resize_maps = True,
        ao_run_priority = ra_run_priority args, ao_loader_path = ua_loader_path args, ao_bpftool_path = ra_bpftool_path args\<rparr>))"

definition dispatcher_status :: "'w host \<Rightarrow> string option \<Rightarrow> string \<Rightarrow> u8 \<Rightarrow> ('w, string option \<times> string) act" where
  "dispatcher_status H interface loader_path verbose w =
     (case resolve_linux_interface_name H interface w of
        Inl e \<Rightarrow> (w, Inl e)
      | Inr name \<Rightarrow>
          bindA (existing_xdp_summary H name) (\<lambda>summary.
          bindA (run_checked H loader_path (xdp_loader_verbose_args verbose [''status'']) ''xdp-loader status'') (\<lambda>out.
          okA (summary, po_stdout out))) w)"

section \<open>The pinned bans\<close>

record pinned_temp_ban =
  pt_cidr :: string
  pt_protocol :: string
  pt_port :: string
  pt_expires_at_ns :: u64
  pt_remaining_seconds :: i64
  pt_active :: bool

text \<open>\<^verbatim>\<open>remaining_ns / 1_000_000_000\<close> on \<^verbatim>\<open>i128\<close> truncates towards zero.\<close>

definition pinned_temp_ban_entry :: "temp_ban_key_t \<Rightarrow> u64 \<Rightarrow> u64 \<Rightarrow> pinned_temp_ban" where
  "pinned_temp_ban_entry key expires_at_ns mono_now =
     (let data = lpm_data key;
          prefix = (if lpm_prefix key < 32 then 0 else lpm_prefix key - 32);
          addr = map_addr (l4_family data) (l4_addr data);
          remaining_ns = uint expires_at_ns - uint mono_now
      in \<lparr>pt_cidr = show_ip addr @ ''/'' @ show_u32 prefix,
          pt_protocol = protocol_name (l4_proto data),
          pt_port = (let port = from_be (l4_dport data) in if port = 0 then ''*'' else dec_nat (unat port)),
          pt_expires_at_ns = expires_at_ns,
          pt_remaining_seconds = word_of_int (sgn remaining_ns * (\<bar>remaining_ns\<bar> div 1000000000)),
          pt_active = mono_now < expires_at_ns\<rparr>)"

definition pinned_temp_bans ::
    "'w host \<Rightarrow> string \<Rightarrow> (temp_ban_key_t \<times> u64) list option \<Rightarrow> (i64 \<times> i64) option \<Rightarrow> ('w, pinned_temp_ban list) act" where
  "pinned_temp_bans H interface bans timespec w =
     (w, bindE (map_pin_dir interface) (\<lambda>dir.
         bindE (ok_or (AttachFailed ''failed to open pinned temp_bans map'') (ho_pinned_map H (join_path dir ''temp_bans'') w)) (\<lambda>pinned.
         bindE (ok_or (AttachFailed ''failed to read pinned temp_bans map type'') (pm_type pinned)) (\<lambda>map_type.
         if map_type \<noteq> LpmTrie then Inl (AttachFailed ''CIDR temporary bans require lpm_trie'')
         else bindE (monotonic_now_ns timespec) (\<lambda>mono_now.
              bindE (ok_or (AttachFailed ''failed to list pinned temp_bans entries'') bans) (\<lambda>entries.
              Inr (sort_key (\<lambda>e. (pt_cidr e, pt_protocol e, pt_port e))
                (map (\<lambda>(k, v). pinned_temp_ban_entry k v mono_now) entries))))))))"

text \<open>An entry prints the network, the protocol and the port its key was made from.\<close>

lemma pinned_temp_ban_entry_key:
  "pt_cidr (pinned_temp_ban_entry (temp_ban_key a p pr port) v t) = show_ip a @ ''/'' @ dec_nat (unat p)"
  "pt_port (pinned_temp_ban_entry (temp_ban_key a p pr port) v t) = (if port = 0 then ''*'' else dec_nat (unat port))"
  "pt_active (pinned_temp_ban_entry (temp_ban_key a p pr port) v t) \<longleftrightarrow> t < v"
proof -
  have b: "unat p < 256" using unsigned_less [of p] by simp
  then have u: "unat (ucast p :: u32) = unat p" by (simp add: unsigned_ucast_eq take_bit_nat_eq_self_iff)
  have l: "\<not> lpm_prefix_len p < 32" "lpm_prefix_len p - 32 = ucast p"
    using b u by (simp_all add: lpm_prefix_len_def word_less_nat_alt unat_word_ariths)
  have m: "map_addr (if is_ipv4 a then 4 else 6) (addr_bytes a) = a"
    using map_addr_addr_bytes [of a] by (cases a) (simp_all add: family_of_def)
  show "pt_cidr (pinned_temp_ban_entry (temp_ban_key a p pr port) v t) = show_ip a @ ''/'' @ dec_nat (unat p)"
    using l m u by (simp add: pinned_temp_ban_entry_def temp_ban_key_def Let_def show_u32_def)
  show "pt_port (pinned_temp_ban_entry (temp_ban_key a p pr port) v t) = (if port = 0 then ''*'' else dec_nat (unat port))"
    by (simp add: pinned_temp_ban_entry_def temp_ban_key_def Let_def)
  show "pt_active (pinned_temp_ban_entry (temp_ban_key a p pr port) v t) \<longleftrightarrow> t < v"
    by (simp add: pinned_temp_ban_entry_def Let_def)
qed

section \<open>The steps of an attach\<close>

lemma verify_dispatcher_map_identity_ok:
  assumes "verify_dispatcher_map_identity H loader bpftool interface name pin_dir w = (w', Inr ())"
  shows "\<exists>i mids w1. dispatcher_program_ids_by_name H loader interface name w = (w1, Inr [i]) \<and>
    bpftool_program_map_ids H bpftool i w1 = (w', Inr mids) \<and>
    (\<forall>map\<in>set dispatcher_referenced_maps. \<exists>pm. ho_pinned_map H (join_path pin_dir map) w' = Some pm \<and> pm_id pm \<in> mids)"
proof -
  obtain w1 ids where 1: "dispatcher_program_ids_by_name H loader interface name w = (w1, Inr ids)"
    and r: "(case ids of [program_id] \<Rightarrow>
         bindA (bpftool_program_map_ids H bpftool program_id) (\<lambda>program_map_ids.
         bindA (pinned_map_ids H pin_dir) (\<lambda>expected.
         if filter (\<lambda>e. snd e \<notin> program_map_ids) expected \<noteq> [] then failA ''dispatcher program is not using pinned XDP maps''
         else okA ())) | _ \<Rightarrow> failA ''expected exactly one dispatcher program'') w1 = (w', Inr ())"
    using assms unfolding verify_dispatcher_map_identity_def bindA_Inr by blast
  then obtain i where i: "ids = [i]" by (cases ids rule: remdups_adj.cases) auto
  then obtain w2 mids expected w3 where 2: "bpftool_program_map_ids H bpftool i w1 = (w2, Inr mids)"
    and 3: "pinned_map_ids H pin_dir w2 = (w3, Inr expected)" and f: "filter (\<lambda>e. snd e \<notin> mids) expected = []" "w3 = w'"
    using r by (auto simp: bindA_Inr split: if_splits)
  have w: "w2 = w'" using 3 f(2) by (simp add: pinned_map_ids_def)
  have t: "traverse (\<lambda>name. mapE (\<lambda>m. (name, pm_id m))
           (ok_or (AttachFailed ''failed to open pinned XDP map'') (ho_pinned_map H (join_path pin_dir name) w2)))
         dispatcher_referenced_maps = Inr expected" using 3 by (auto simp: pinned_map_ids_def)
  have "\<exists>pm. ho_pinned_map H (join_path pin_dir map) w' = Some pm \<and> pm_id pm \<in> mids" if "map \<in> set dispatcher_referenced_maps" for map
  proof -
    have "\<exists>y\<in>set expected. mapE (\<lambda>m. (map, pm_id m)) (ok_or (AttachFailed ''failed to open pinned XDP map'') (ho_pinned_map H (join_path pin_dir map) w2)) = Inr y"
      by (rule traverse_set_fwd [OF t that])
    then show ?thesis using f(1) w
      by (cases "ho_pinned_map H (join_path pin_dir map) w2") (auto simp: ok_or_def filter_empty_conv)
  qed
  then show ?thesis using 1 2 i w by blast
qed

end
