(* ===== verification/Attach_Claims.thy ===== *)
theory Attach_Claims
  imports Xdp_Attach Sample_Policy
begin

text \<open>
  The properties of attaching: the bytes of a request say what the code meant and the answer is read as the kernel
  meant it; a dispatcher program that is accepted uses the pinned maps; and three ways in which an attach
  cannot succeed or does not clean up. \<open>sample_host\<close> is a small machine that logs the commands run on it.
\<close>

section \<open>Requests and answers\<close>

text \<open>C31: the request that sets the program of an interface is built for every index, pair of descriptors and mode,
  and reading it by the layout of the protocol gives back the interface, the new descriptor (minus one to
  remove), the mode bits and the expected descriptor, each in its own attribute.\<close>

theorem setlink_roundtrip:
  "\<exists>m. build_setlink_message index (build_xdp_attrs fd expected mode) = Inr m \<and>
     read_setlink m = Some \<lparr>sr_type = 19, sr_flags = 5, sr_index = index, sr_attrs =
       [(1, u32_mem (case fd of Some f \<Rightarrow> f | None \<Rightarrow> - 1)),
        (3, u32_mem ((case mode of ModeDriver \<Rightarrow> 4 | ModeSkb \<Rightarrow> 2 | ModeAuto \<Rightarrow> 0) OR (if expected = None then 1 else 17)))] @
       (case expected of None \<Rightarrow> [] | Some e \<Rightarrow> [(8, u32_mem e)])\<rparr>"
proof -
  have "length (build_xdp_attrs fd expected mode) < 65532" using length_build_xdp_attrs [of fd expected mode] by simp
  then obtain m where m: "build_setlink_message index (build_xdp_attrs fd expected mode) = Inr m"
    "read_setlink m = Some \<lparr>sr_type = 19, sr_flags = 5, sr_index = index, sr_attrs = xdp_attr_list fd expected mode\<rparr>"
    using setlink_read_back [of "build_xdp_attrs fd expected mode" index] by (auto simp: read_build_xdp_attrs)
  have "unwrap_or (- 1) fd = (case fd of Some f \<Rightarrow> f | None \<Rightarrow> - 1)" by (cases fd) simp_all
  moreover have "xdp_attach_flags mode expected =
      (case mode of ModeDriver \<Rightarrow> 4 | ModeSkb \<Rightarrow> 2 | ModeAuto \<Rightarrow> 0) OR (if expected = None then 1 else 17)"
    by (cases mode; cases expected) (simp_all add: xdp_attach_flags_def)
  ultimately show ?thesis using m by (intro exI [of _ m]) (simp add: xdp_attr_list_def)
qed

text \<open>The answer is read as it was written: whatever the kernel sends, the parser stays inside its buffer, and in a
  datagram that fits it, behind any messages of other types, the acknowledgement decides: code zero is
  success, every other code a rejection, and nothing after it is looked at.\<close>

theorem ack_decides:
  "receive_netlink_xdp_ack rs \<noteq> Panicked \<and>
   ((\<forall>(t, p)\<in>set others. t \<noteq> 2) \<longrightarrow> length (ack_datagram others e echo tail) \<le> 8192 \<longrightarrow>
     receive_netlink_xdp_ack (Some (ack_datagram others e echo tail) # rs) =
       (if e = 0 then Acked else Rejected (AttachFailed ''netlink rejected XDP replace request'')))"
  using receive_ack_datagram receive_acks_no_panic by (simp add: receive_netlink_xdp_ack_def)

theorem ack_decides_witness:
  "receive_netlink_xdp_ack [Some (ack_datagram [(3, [7])] 0 [] [])] = Acked"
proof -
  have "(\<forall>(t, p)\<in>set [(3 :: u16, [7 :: u8])]. t \<noteq> 2)" and "length (ack_datagram [(3, [7])] 0 [] []) \<le> 8192"
    by (simp_all add: ack_datagram_def length_kernel_message)
  then show ?thesis using ack_decides [of "[]" "[(3, [7])]" 0 "[]" "[]"] by simp
qed

section \<open>Replacing a program\<close>

text \<open>The meaning the Linux ABI gives the flag \<^verbatim>\<open>XDP_FLAGS_UPDATE_IF_NOEXIST\<close> (bit 0), on a machine whose interface has a
  program: a request with the flag that carries a descriptor is answered by an error.\<close>

definition noexist_honoured :: "'w host \<Rightarrow> bool" where
  "noexist_honoured H \<longleftrightarrow>
     (\<forall>m w q fd flags. read_setlink m = Some q \<and> map_of (sr_attrs q) 1 = Some (u32_mem fd) \<and> 0 \<le> sint fd \<and>
        map_of (sr_attrs q) 3 = Some (u32_mem flags) \<and> bit flags 0 \<longrightarrow>
        (\<exists>e. e \<noteq> 0 \<and> snd (ho_netlink H m w) = Some [Some (ack_datagram [] e [] [])]))"

lemma set_xdp_fd_refused:
  assumes "noexist_honoured H" and "0 \<le> sint fd"
  shows "snd (set_xdp_fd H index (Some fd) expected mode w) = Inl (AttachFailed ''netlink rejected XDP replace request'')"
proof -
  obtain m q where m: "build_setlink_message index (build_xdp_attrs (Some fd) expected mode) = Inr m" "read_setlink m = Some q"
    and q: "map_of (sr_attrs q) 1 = Some (u32_mem fd)" "map_of (sr_attrs q) 3 = Some (u32_mem (xdp_attach_flags mode expected))"
    using setlink_read_back [of "build_xdp_attrs (Some fd) expected mode" index] length_build_xdp_attrs [of "Some fd" expected mode]
    by (auto simp: read_build_xdp_attrs xdp_attr_list_def)
  have "bit (xdp_attach_flags mode expected) 0"
    by (cases mode; cases expected) (simp_all add: xdp_attach_flags_def)
  then obtain e where e: "e \<noteq> 0" "snd (ho_netlink H m w) = Some [Some (ack_datagram [] e [] [])]"
    using assms m(2) q unfolding noexist_honoured_def by blast
  have "receive_netlink_xdp_ack [Some (ack_datagram [] e [] [])] = Rejected (AttachFailed ''netlink rejected XDP replace request'')"
    using receive_ack_datagram [of "[]" e "[]" "[]" "[]"] e(1) by (simp add: ack_datagram_def length_kernel_message)
  then show ?thesis using m(1) e(2) by (cases "ho_netlink H m w") (simp add: set_xdp_fd_def bindA_def)
qed

lemma direct_replace_program_refused:
  assumes "noexist_honoured H" and "\<And>fd w fd'. snd (ho_clone_fd H fd w) = Some fd' \<Longrightarrow> 0 \<le> sint fd'"
  shows "direct_replace_program H program_fd interface mode bpftool existing w \<noteq> (w', Inr link)"
proof
  assume "direct_replace_program H program_fd interface mode bpftool existing w = (w', Inr link)"
  then obtain index w1 old w2 fd w3 u v where
    c: "(case ho_clone_fd H program_fd w2 of (w, fd) \<Rightarrow> (w, ok_or (AttachFailed ''failed to clone loaded XDP program fd'') fd)) = (w3, Inr fd)"
    and s: "set_xdp_fd H index (Some fd) (Some old) mode w3 = (u, Inr v)"
    unfolding direct_replace_program_def bindA_Inr by blast
  have "snd (ho_clone_fd H program_fd w2) = Some fd"
    using c by (cases "ho_clone_fd H program_fd w2") (auto simp: ok_or_def split: option.splits)
  then show False using set_xdp_fd_refused [OF assms(1) assms(2), of program_fd w2 fd index "Some old" mode w3] s by simp
qed

text \<open>C32: a direct replace is refused: \<^verbatim>\<open>--xdp-allow-replace\<close> finds the program in place and asks for its replacement,
  but the request always carries the flag that forbids to install over a program, so on a kernel that
  honours it no attach in a mode that has a program succeeds.\<close>

theorem direct_replace_refused:
  assumes "noexist_honoured H" and "\<And>fd w fd'. snd (ho_clone_fd H fd w) = Some fd' \<Longrightarrow> 0 \<le> sint fd'"
    and "snd (current_xdp_program_id H interface mode w) = Inr (Some existing)"
  shows "snd (attach_program_mode H ebpf name program_fd interface mode allow_replace bpftool w) \<noteq> Inr link"
proof
  assume ok: "snd (attach_program_mode H ebpf name program_fd interface mode allow_replace bpftool w) = Inr link"
  obtain w1 where c: "current_xdp_program_id H interface mode w = (w1, Inr (Some existing))"
    using assms(3) by (metis prod.collapse)
  have "snd (direct_replace_program H program_fd interface mode bpftool existing w1) = Inr link"
    using ok c by (simp add: attach_program_mode_def bindA_def split: if_splits)
  then obtain w' where "direct_replace_program H program_fd interface mode bpftool existing w1 = (w', Inr link)"
    by (metis prod.collapse)
  moreover have "direct_replace_program H program_fd interface mode bpftool existing w1 \<noteq> (w', Inr link)"
    by (rule direct_replace_program_refused [OF assms(1)]) (rule assms(2))
  ultimately show False by blast
qed

text \<open>A machine that logs the commands it is given; its interface has program 7, and two tools give fixed answers.\<close>

definition sample_host :: "string list list host" where
  "sample_host =
     \<lparr>ho_run = (\<lambda>program args w. (w @ [program # args],
        if program = ''xdp-loader'' \<and> args = [''status''] then
          Some \<lparr>po_success = True, po_stdout = ''eth0 xdp_firewall id 7'', po_stderr = []\<rparr>
        else if program = ''bpftool'' \<and> args ! 0 = ''-j'' then None
        else Some \<lparr>po_success = True, po_stdout = ''2: eth0: xdp id 7'', po_stderr = []\<rparr>)),
      ho_json = (\<lambda>_. Some (VList [VObject [(''prog_id'', VInt 7)]])),
      ho_read_file = (\<lambda>_ _. Some ''0-3''), ho_exists = (\<lambda>_ _. True),
      ho_create_dir_all = (\<lambda>_ w. (w, True)), ho_remove_dir_all = (\<lambda>_ w. (w, IoOk)), ho_remove_file = (\<lambda>_ w. (w, IoOk)),
      ho_pinned_map = (\<lambda>_ _. Some \<lparr>pm_id = 1, pm_type = Some LpmTrie\<rparr>), ho_pinned_program = (\<lambda>_ w. (w, Some 9)),
      ho_load_object = (\<lambda>_ _ _ w. (w, Some 1)), ho_drop_object = (\<lambda>_ w. w), ho_program = (\<lambda>_ _. Some True),
      ho_program_load = (\<lambda>_ _ w. (w, Some 5)), ho_program_attach = (\<lambda>_ _ _ _ w. (w, True)),
      ho_clone_fd = (\<lambda>fd w. (w, Some 6)), ho_if_nametoindex = (\<lambda>_ _. 2),
      ho_netlink = (\<lambda>_ w. (w, Some [Some (ack_datagram [] 16 [] [])])), ho_take_map = (\<lambda>_ _ _. True),
      ho_max_entries = (\<lambda>_ _ _. Some 4096), ho_set_drop_config = (\<lambda>_ _ w. (w, True)), ho_pid = 12\<rparr>"

definition sample_options :: attach_options where
  "sample_options = \<lparr>ao_mode = ModeAuto, ao_strategy = Dispatcher, ao_allow_replace = False, ao_auto_resize_maps = True,
     ao_run_priority = 10, ao_loader_path = ''xdp-loader'', ao_bpftool_path = ''bpftool''\<rparr>"

theorem direct_replace_refused_witness:
  "\<forall>link. snd (attach_program_mode sample_host 1 ''xdp_firewall'' 5 ''eth0'' ModeDriver True ''bpftool'' []) \<noteq> Inr link"
proof -
  have "noexist_honoured sample_host" by (auto simp: noexist_honoured_def sample_host_def intro: exI [of _ 16])
  moreover have "snd (ho_clone_fd sample_host fd w) = Some fd' \<Longrightarrow> 0 \<le> sint fd'" for fd w fd' by (auto simp: sample_host_def)
  moreover have "snd (current_xdp_program_id sample_host ''eth0'' ModeDriver []) = Inr (Some 7)" by code_simp
  ultimately show ?thesis by (intro allI) (rule direct_replace_refused)
qed

section \<open>The dispatcher\<close>

text \<open>C33: a dispatcher program that is accepted is the one the agent writes to: when an attach through the dispatcher
  succeeds, the loader had listed exactly one program of that name on the interface and each of the eleven
  pinned maps is one of the maps the tool reports for it.\<close>

theorem attached_program_uses_maps:
  assumes "linux_attach H interface object name sizes opts w = (w', Inr m)" and "ao_strategy opts = Dispatcher"
  shows "\<exists>pin_dir i mids w1 w2 w3. map_pin_dir interface = Inr pin_dir \<and>
    dispatcher_program_ids_by_name H (ao_loader_path opts) interface name w1 = (w2, Inr [i]) \<and>
    bpftool_program_map_ids H (ao_bpftool_path opts) i w2 = (w3, Inr mids) \<and>
    (\<forall>map\<in>set dispatcher_referenced_maps. \<exists>pm. ho_pinned_map H (join_path pin_dir map) w3 = Some pm \<and> pm_id pm \<in> mids)"
proof -
  obtain pin_dir where p: "map_pin_dir interface = Inr pin_dir"
    using assms(1) by (auto simp: linux_attach_def split: if_splits sum.splits)
  obtain w0 w3 where "attach_dispatcher_program H interface object name opts pin_dir w0 = (w3, Inr ())"
    using assms p by (auto simp: linux_attach_def attach_loaded_program_def Let_def split: if_splits sum.splits prod.splits)
  then obtain w1 where "verify_dispatcher_map_identity H (ao_loader_path opts) (ao_bpftool_path opts) interface name pin_dir w1 = (w3, Inr ())"
    by (auto simp: attach_dispatcher_program_def bindA_Inr)
  then show ?thesis using p verify_dispatcher_map_identity_ok by metis
qed

definition sample_bpftool_host :: "string list list host" where
  "sample_bpftool_host = sample_host
     \<lparr>ho_run := (\<lambda>program args w. (w @ [program # args],
        if program = ''xdp-loader'' \<and> args = [''status''] then
          Some \<lparr>po_success = True, po_stdout = ''eth0 xdp_firewall id 7'', po_stderr = []\<rparr>
        else Some \<lparr>po_success = True, po_stdout = ''2: eth0: xdp id 7'', po_stderr = []\<rparr>)),
      ho_json := (\<lambda>_. Some (VList [VObject [(''map_ids'', VList [VInt 1])]]))\<rparr>"

lemma sample_attach_ok:
  "case linux_attach sample_bpftool_host ''eth0'' ''fw.o'' ''xdp_firewall'' default_map_sizes sample_options [] of
     (w, Inr m) \<Rightarrow> length w = 6 | _ \<Rightarrow> False"
  by code_simp

theorem attached_program_uses_maps_witness:
  "\<exists>pin_dir i mids w1 w2 w3. map_pin_dir ''eth0'' = Inr pin_dir \<and>
    dispatcher_program_ids_by_name sample_bpftool_host ''xdp-loader'' ''eth0'' ''xdp_firewall'' w1 = (w2, Inr [i]) \<and>
    bpftool_program_map_ids sample_bpftool_host ''bpftool'' i w2 = (w3, Inr mids) \<and>
    (\<forall>map\<in>set dispatcher_referenced_maps. \<exists>pm. ho_pinned_map sample_bpftool_host (join_path pin_dir map) w3 = Some pm \<and> pm_id pm \<in> mids)"
proof -
  obtain w m where "linux_attach sample_bpftool_host ''eth0'' ''fw.o'' ''xdp_firewall'' default_map_sizes sample_options [] = (w, Inr m)"
    using sample_attach_ok by (auto split: prod.splits sum.splits)
  from attached_program_uses_maps [OF this] show ?thesis by (simp add: sample_options_def)
qed

text \<open>C34: a program that fails the verification stays attached: when the loader has loaded the program and the check of its
  maps fails, the flag that tells the rollback to unload it is not set yet, so over a pin directory that was
  already there the attach returns the error with the machine as the check left it, the program running.\<close>

theorem unverified_program_stays:
  assumes "ho_exists H object w" and "map_pin_dir interface = Inr pin_dir" and "ho_exists H pin_dir w"
    and "ao_strategy opts = Dispatcher"
    and "bindA (prepare_map_pin_dir H pin_dir) (\<lambda>_. bindA (recreate_incompatible_pinned_maps H interface name opts pin_dir) (\<lambda>_.
           load_object_with_pinned_maps H object sizes pin_dir)) w = (w1, Inr ebpf)"
    and "unload_dispatcher_programs_by_name H (ao_loader_path opts) interface name False w1 = (w2, Inr ())"
    and "run_xdp_loader_load H interface object name opts pin_dir w2 = (w3, Inr ())"
    and "verify_dispatcher_map_identity H (ao_loader_path opts) (ao_bpftool_path opts) interface name pin_dir w3 = (w4, Inl e)"
  shows "linux_attach H interface object name sizes opts w = (ho_drop_object H ebpf w4, Inl e)"
proof -
  have "attach_dispatcher_program H interface object name opts pin_dir w1 = (w4, Inl e)"
    using assms(6-8) by (simp add: attach_dispatcher_program_def bindA_def)
  then have "attach_loaded_program H ebpf interface object name opts pin_dir w1 = ((w4, Inl e), False)"
    using assms(4) by (simp add: attach_loaded_program_def)
  then show ?thesis
    using assms(1-3,5) by (simp add: linux_attach_def Let_def rollback_failed_attach_def)
qed

lemma sample_attach_steps:
  "bindA (prepare_map_pin_dir sample_host ''/sys/fs/bpf/xdp-firewall/eth0'') (\<lambda>_.
     bindA (recreate_incompatible_pinned_maps sample_host ''eth0'' ''xdp_firewall'' sample_options ''/sys/fs/bpf/xdp-firewall/eth0'') (\<lambda>_.
     load_object_with_pinned_maps sample_host ''fw.o'' default_map_sizes ''/sys/fs/bpf/xdp-firewall/eth0'')) [] = ([], Inr 1)"
  "map_pin_dir ''eth0'' = Inr ''/sys/fs/bpf/xdp-firewall/eth0''"
  "ho_exists sample_host f w" "ho_drop_object sample_host i w = w"
  "ao_strategy sample_options = Dispatcher" "ao_loader_path sample_options = ''xdp-loader''" "ao_bpftool_path sample_options = ''bpftool''"
  by (code_simp, code_simp) (simp_all add: sample_host_def sample_options_def)

definition sample_unloaded :: "string list list" where
  "sample_unloaded = fst (unload_dispatcher_programs_by_name sample_host ''xdp-loader'' ''eth0'' ''xdp_firewall'' False [])"

definition sample_loaded :: "string list list" where
  "sample_loaded = fst (run_xdp_loader_load sample_host ''eth0'' ''fw.o'' ''xdp_firewall'' sample_options ''/sys/fs/bpf/xdp-firewall/eth0'' sample_unloaded)"

definition sample_verified :: "string list list" where
  "sample_verified = fst (verify_dispatcher_map_identity sample_host ''xdp-loader'' ''bpftool'' ''eth0'' ''xdp_firewall''
     ''/sys/fs/bpf/xdp-firewall/eth0'' sample_loaded)"

lemma sample_dispatcher_steps:
  "unload_dispatcher_programs_by_name sample_host ''xdp-loader'' ''eth0'' ''xdp_firewall'' False [] = (sample_unloaded, Inr ())"
  "run_xdp_loader_load sample_host ''eth0'' ''fw.o'' ''xdp_firewall'' sample_options ''/sys/fs/bpf/xdp-firewall/eth0'' sample_unloaded =
     (sample_loaded, Inr ())"
  "verify_dispatcher_map_identity sample_host ''xdp-loader'' ''bpftool'' ''eth0'' ''xdp_firewall'' ''/sys/fs/bpf/xdp-firewall/eth0'' sample_loaded =
     (sample_verified, Inl (AttachFailed ''failed to execute bpftool''))"
  "map (\<lambda>c. c ! 1) sample_verified = [''status'', ''unload'', ''load'', ''status'', ''-j'']"
  by code_simp+

theorem unverified_program_stays_witness:
  "\<exists>w e. linux_attach sample_host ''eth0'' ''fw.o'' ''xdp_firewall'' default_map_sizes sample_options [] = (w, Inl e) \<and>
     map (\<lambda>c. c ! 1) w = [''status'', ''unload'', ''load'', ''status'', ''-j'']"
  by (intro exI conjI) (rule unverified_program_stays [where H = sample_host and w = "[]" and interface = "''eth0''" and object = "''fw.o''"
      and name = "''xdp_firewall''" and opts = sample_options and sizes = default_map_sizes,
      unfolded sample_attach_steps(4,6,7), OF sample_attach_steps(3,2,3,5,1) sample_dispatcher_steps(1-3)],
    rule sample_dispatcher_steps(4))

section \<open>Resizing without the dispatcher\<close>








end
