(* ===== verification/Failed_Logins.thy ===== *)
theory Failed_Logins
  imports Api_Contracts Xdp_Netlink "HOL-Library.Sublist"
begin

text \<open>
  \<^verbatim>\<open>tools/btmp-monitor\<close>: the tool that reads failed logins and bans their sources through the API
  (\<^verbatim>\<open>src/{btmp,monitor,config,api}.rs\<close>). A time is a pair of seconds and nanoseconds, compared as \<^verbatim>\<open>chrono\<close> does.
  The log file is a parameter of each read (what the call to \<^verbatim>\<open>stat\<close> saw and what was read), the API is a
  parameter over its own state, so that it can be the control plane of this development. The order in which
  the hash map of counters is walked is the parameter \<open>iter\<close>. Summaries are modelled, log lines are not.
\<close>

section \<open>Records\<close>

definition utmp_record_size :: nat where "utmp_record_size = 384"
definition ut_host_offset :: nat where "ut_host_offset = 76"
definition ut_host_len :: nat where "ut_host_len = 256"
definition ut_tv_sec_offset :: nat where "ut_tv_sec_offset = 340"
definition ut_addr_v6_offset :: nat where "ut_addr_v6_offset = 348"
definition ut_addr_v6_len :: nat where "ut_addr_v6_len = 16"

type_synonym login_time = "int \<times> int"

record failed_attempt =
  fa_ip :: ipaddr
  fa_time :: login_time

text \<open>A field that is not UTF-8 becomes the empty string in the code; neither text is an address.\<close>

definition field_str :: "u8 list \<Rightarrow> string" where
  "field_str bytes = map byte_char (takeWhile (\<lambda>b. b \<noteq> 0) bytes)"

definition ip_from_addr_v6 :: "u8 list \<Rightarrow> ipaddr option" where
  "ip_from_addr_v6 bytes =
     (if list_all (\<lambda>b. b = 0) bytes then None
      else
        let is_v4_mapped = (list_all (\<lambda>b. b = 0) (take 10 bytes) \<and> bytes ! 10 = 0xff \<and> bytes ! 11 = 0xff);
            is_v4_compat = list_all (\<lambda>b. b = 0) (take 12 bytes)
        in if is_v4_mapped \<or> is_v4_compat then Some (V4 (word_of_bytes (take 4 (drop 12 bytes))))
           else Some (V6 (word_of_bytes (take ut_addr_v6_len bytes))))"

text \<open>\<^verbatim>\<open>DateTime::from_timestamp\<close>: a fraction of two seconds or more is no time, one of a second or more only in a
  second that may be a leap second.\<close>

definition from_timestamp :: "int \<Rightarrow> u32 \<Rightarrow> login_time option" where
  "from_timestamp sec nanos =
     (if uint nanos < 1000000000 \<or> uint nanos < 2000000000 \<and> sec mod 60 = 59 then Some (sec, uint nanos) else None)"

definition parse_record :: "u8 list \<Rightarrow> failed_attempt option" where
  "parse_record record =
     (let host = field_str (take ut_host_len (drop ut_host_offset record)) in
      Option.bind (case parse_ip (trim host) of
                     Some ip \<Rightarrow> Some ip
                   | None \<Rightarrow> ip_from_addr_v6 (take ut_addr_v6_len (drop ut_addr_v6_offset record))) (\<lambda>ip.
      let sec = mem_word (take 4 (drop ut_tv_sec_offset record)) :: i32;
          usec = mem_word (take 4 (drop (ut_tv_sec_offset + 4) record)) :: i32
      in map_option (\<lambda>t. \<lparr>fa_ip = ip, fa_time = t\<rparr>)
           (from_timestamp (sint sec) (unwrap_or 0 (u32_try_from_i32 usec) * 1000))))"

section \<open>Reading the log\<close>

record read_cursor =
  rc_inode :: u64
  rc_offset :: nat

record btmp_file =
  bf_regular :: bool
  bf_inode :: u64
  bf_len :: nat
  bf_bytes :: "u8 list"

definition records_of :: "u8 list \<Rightarrow> u8 list list" where
  "records_of b = map (\<lambda>i. take utmp_record_size (drop (i * utmp_record_size) b)) [0..<length b div utmp_record_size]"

definition read_start :: "btmp_file \<Rightarrow> read_cursor option \<Rightarrow> nat" where
  "read_start file cursor =
     (case cursor of
        Some c \<Rightarrow> if rc_inode c = bf_inode file \<and> rc_offset c \<le> bf_len file then rc_offset c else 0
      | None \<Rightarrow> 0)"

definition read_attempts :: "btmp_file option \<Rightarrow> read_cursor option \<Rightarrow> (failed_attempt list \<times> read_cursor) res" where
  "read_attempts file cursor =
     (case file of
        None \<Rightarrow> Inl (Internal ''failed to open btmp file'')
      | Some f \<Rightarrow>
          if \<not> bf_regular f then Inl (Internal ''btmp path is not a regular file'')
          else
            let start = read_start f cursor;
                buf = drop start (bf_bytes f);
                complete = length buf div utmp_record_size * utmp_record_size
            in Inr (List.map_filter parse_record (records_of (take complete buf)),
                    \<lparr>rc_inode = bf_inode f, rc_offset = start + complete\<rparr>))"

section \<open>Counting\<close>

type_synonym failure_counts = "(ipaddr \<times> login_time list) list"

fun push_attempt :: "failed_attempt \<Rightarrow> failure_counts \<Rightarrow> failure_counts" where
  "push_attempt a [] = [(fa_ip a, [fa_time a])]"
| "push_attempt a ((ip, stamps) # counts) =
     (if ip = fa_ip a then (ip, stamps @ [fa_time a]) # counts else (ip, stamps) # push_attempt a counts)"

definition merge_attempts :: "failure_counts \<Rightarrow> failed_attempt list \<Rightarrow> login_time \<Rightarrow> failure_counts" where
  "merge_attempts counts attempts cutoff =
     filter (\<lambda>e. snd e \<noteq> []) (map (\<lambda>(ip, stamps). (ip, filter (\<lambda>t. cutoff \<le> t) stamps))
       (fold (\<lambda>a c. if cutoff \<le> fa_time a then push_attempt a c else c) attempts counts))"

section \<open>Configuration\<close>

record ban_config =
  bc_threshold :: u64
  bc_window_seconds :: u64
  bc_duration_seconds :: i64
  bc_protocol :: string
  bc_port :: i32
  bc_comment :: string

record monitor_config =
  mc_api_url :: string
  mc_api_token :: string
  mc_ban :: ban_config
  mc_btmp_path :: string
  mc_trusted_cidrs :: "ipnet list"

definition max_ban_seconds :: int where "max_ban_seconds = 31536000"

definition validate_config :: "monitor_config \<Rightarrow> unit res" where
  "validate_config c =
     (let b = mc_ban c in
      if mc_api_url c = [] then Inl (MustBeSet ''api-url'')
      else if bc_threshold b < 1 then Inl (MustBePositive ''threshold'')
      else if bc_window_seconds b = 0 then Inl (MustBePositive ''window-seconds'')
      else if sint (bc_duration_seconds b) < 1 \<or> max_ban_seconds < sint (bc_duration_seconds b) then Inl (OutOfRange ''duration-seconds'')
      else if bc_protocol b = ''any'' then
        if bc_port b \<noteq> 0 then Inl (OutOfRange ''port'') else guardE (trim (mc_btmp_path c) \<noteq> []) (MustBeSet ''btmp-path'')
      else if bc_protocol b = ''tcp'' \<or> bc_protocol b = ''udp'' then
        if sint (bc_port b) < 1 \<or> 65535 < sint (bc_port b) then Inl (OutOfRange ''port'')
        else guardE (trim (mc_btmp_path c) \<noteq> []) (MustBeSet ''btmp-path'')
      else Inl (UnsupportedProtocol (bc_protocol b)))"

definition ban_port :: "ban_config \<Rightarrow> i32 option" where
  "ban_port b = (if bc_protocol b = ''any'' then None else Some (bc_port b))"

section \<open>The API\<close>

definition max_batch_items :: nat where "max_batch_items = 500"

record ban_item =
  bi_cidr :: string
  bi_protocol :: string
  bi_port :: "i32 option"
  bi_duration_seconds :: i64
  bi_comment :: "string option"

text \<open>\<open>ban_list\<close> is one GET of a page: the CIDRs and the number of pages; \<open>ban_post\<close> one POST of a batch.\<close>

record 'w ban_api =
  ban_list :: "nat \<Rightarrow> 'w \<Rightarrow> (string list \<times> nat) res"
  ban_post :: "ban_item list \<Rightarrow> 'w \<Rightarrow> 'w \<times> unit res"

text \<open>The loop over the pages; \<open>None\<close> when the fuel does not suffice.\<close>

fun list_pages :: "nat \<Rightarrow> 'w ban_api \<Rightarrow> nat \<Rightarrow> 'w \<Rightarrow> string set res option" where
  "list_pages 0 api page w = None"
| "list_pages (Suc fuel) api page w =
     (case ban_list api page w of
        Inl e \<Rightarrow> Some (Inl e)
      | Inr (items, total_pages) \<Rightarrow>
          if total_pages \<le> page \<or> items = [] then Some (Inr (set items))
          else map_option (mapE (\<lambda>s. set items \<union> s)) (list_pages fuel api (page + 1) w))"

definition list_temp_ban_cidrs :: "nat \<Rightarrow> 'w ban_api \<Rightarrow> 'w \<Rightarrow> string set res option" where
  "list_temp_ban_cidrs fuel api w = list_pages fuel api 1 w"

function chunks :: "nat \<Rightarrow> 'a list \<Rightarrow> 'a list list" where
  "chunks n xs = (if n = 0 \<or> xs = [] then [] else take n xs # chunks n (drop n xs))"
  by auto
termination by (relation "measure (\<lambda>(n, xs). length xs)") auto
declare chunks.simps [simp del]

lemma chunks_short: "xs \<noteq> [] \<Longrightarrow> length xs \<le> n \<Longrightarrow> chunks n xs = [xs]"
  by (cases xs) (simp_all add: chunks.simps [of n "_ # _"] chunks.simps [of n "[]"])

text \<open>Chunks are submitted one by one; those before a failing one stay.\<close>

fun submit_chunks :: "'w ban_api \<Rightarrow> ban_item list list \<Rightarrow> nat \<Rightarrow> 'w \<Rightarrow> 'w \<times> nat res" where
  "submit_chunks api [] submitted w = (w, Inr submitted)"
| "submit_chunks api (chunk # cs) submitted w =
     (case ban_post api chunk w of
        (w, Inl e) \<Rightarrow> (w, Inl e)
      | (w, Inr _) \<Rightarrow> submit_chunks api cs (submitted + length chunk) w)"

definition create_temp_bans_batch :: "'w ban_api \<Rightarrow> ban_item list \<Rightarrow> 'w \<Rightarrow> 'w \<times> nat res" where
  "create_temp_bans_batch api items w = submit_chunks api (chunks max_batch_items items) 0 w"

section \<open>A round\<close>

definition ip_cidr :: "ipaddr \<Rightarrow> string" where
  "ip_cidr ip = show_ip ip @ (if is_ipv4 ip then ''/32'' else ''/128'')"

definition is_trusted :: "ipnet_lib \<Rightarrow> ipaddr \<Rightarrow> ipnet list \<Rightarrow> bool" where
  "is_trusted N ip cidrs \<longleftrightarrow> list_ex (\<lambda>net. net_contains N net ip) cidrs"

record run_summary =
  rs_parsed :: nat
  rs_in_window :: nat
  rs_banned :: nat
  rs_skipped_trusted :: nat
  rs_skipped_already_banned :: nat
  rs_below_threshold :: nat

datatype ban_decision = BelowThreshold | SkipTrusted | SkipBanned | Candidate

definition decide :: "ipnet_lib \<Rightarrow> monitor_config \<Rightarrow> string set \<Rightarrow> ipaddr \<times> login_time list \<Rightarrow> ban_decision" where
  "decide N c existing e =
     (if length (snd e) < unat (bc_threshold (mc_ban c)) then BelowThreshold
      else if is_trusted N (fst e) (mc_trusted_cidrs c) then SkipTrusted
      else if ip_cidr (fst e) \<in> existing then SkipBanned
      else Candidate)"

definition candidates_of :: "ipnet_lib \<Rightarrow> monitor_config \<Rightarrow> string set \<Rightarrow> failure_counts \<Rightarrow> (ipaddr \<times> nat) list" where
  "candidates_of N c existing counts =
     rev (sort_key snd (rev (map (\<lambda>e. (fst e, length (snd e))) (filter (\<lambda>e. decide N c existing e = Candidate) counts))))"

definition ban_item_of :: "ban_config \<Rightarrow> ipaddr \<times> nat \<Rightarrow> ban_item" where
  "ban_item_of b ic =
     \<lparr>bi_cidr = ip_cidr (fst ic), bi_protocol = bc_protocol b, bi_port = ban_port b,
      bi_duration_seconds = bc_duration_seconds b,
      bi_comment = Some (bc_comment b @ '' ('' @ dec_nat (snd ic) @ '' failures >= '' @ dec_nat (unat (bc_threshold b)) @ '')'')\<rparr>"

record login_monitor =
  lm_config :: monitor_config
  lm_cursor :: "read_cursor option"
  lm_counts :: failure_counts

definition collect_attempts :: "btmp_file option \<Rightarrow> login_monitor \<Rightarrow> login_monitor \<times> failed_attempt list res" where
  "collect_attempts file m =
     (case read_attempts file (lm_cursor m) of
        Inl e \<Rightarrow> (m, Inl e)
      | Inr (attempts, cursor) \<Rightarrow> (m\<lparr>lm_cursor := Some cursor\<rparr>, Inr attempts))"

definition round_cutoff :: "monitor_config \<Rightarrow> login_time \<Rightarrow> login_time" where
  "round_cutoff c now = (fst now - sint (bc_window_seconds (mc_ban c)), snd now)"

definition round_summary :: "ipnet_lib \<Rightarrow> monitor_config \<Rightarrow> string set \<Rightarrow> nat \<Rightarrow> failure_counts \<Rightarrow> nat \<Rightarrow> run_summary" where
  "round_summary N c existing parsed counts banned =
     (let n = (\<lambda>d. length (filter (\<lambda>e. decide N c existing e = d) counts)) in
      \<lparr>rs_parsed = parsed, rs_in_window = sum_list (map (\<lambda>e. length (snd e)) counts), rs_banned = banned,
       rs_skipped_trusted = n SkipTrusted, rs_skipped_already_banned = n SkipBanned, rs_below_threshold = n BelowThreshold\<rparr>)"

text \<open>\<open>None\<close>: the list of bans has more pages than the fuel.\<close>

definition run_once ::
    "ipnet_lib \<Rightarrow> (failure_counts \<Rightarrow> failure_counts) \<Rightarrow> nat \<Rightarrow> 'w ban_api \<Rightarrow> bool \<Rightarrow> login_time \<Rightarrow> btmp_file option \<Rightarrow>
       login_monitor \<Rightarrow> 'w \<Rightarrow> (login_monitor \<times> 'w \<times> run_summary res) option" where
  "run_once N iter fuel api dry_run now file m w =
     (case collect_attempts file m of
        (m, Inl e) \<Rightarrow> Some (m, w, Inl e)
      | (m, Inr attempts) \<Rightarrow>
          (let c = lm_config m;
               m = m\<lparr>lm_counts := merge_attempts (lm_counts m) attempts (round_cutoff c now)\<rparr>
           in case (if dry_run then Some (Inr {}) else list_temp_ban_cidrs fuel api w) of
                None \<Rightarrow> None
              | Some (Inl e) \<Rightarrow> Some (m, w, Inl e)
              | Some (Inr existing) \<Rightarrow>
                  (let counts = iter (lm_counts m);
                       candidates = candidates_of N c existing counts;
                       summary = round_summary N c existing (length attempts) counts
                   in if candidates = [] then Some (m, w, Inr (summary 0))
                      else if dry_run then Some (m, w, Inr (summary (length candidates)))
                      else (case create_temp_bans_batch api (map (ban_item_of (mc_ban c)) candidates) w of
                              (w, Inl e) \<Rightarrow> Some (m, w, Inl e)
                            | (w, Inr n) \<Rightarrow> Some (m, w, Inr (summary n))))))"

section \<open>Start\<close>

record login_cli =
  lc_api_url :: string
  lc_api_token :: "string option"
  lc_ban :: ban_config
  lc_btmp_path :: string
  lc_trusted_cidr :: "string list"
  lc_dry_run :: bool

definition to_config :: "net_text \<Rightarrow> login_cli \<Rightarrow> monitor_config res" where
  "to_config T cli =
     bindE (traverse (\<lambda>v. ok_or (Internal ''invalid --trusted-cidr value'') (nt_parse T v)) (lc_trusted_cidr cli)) (\<lambda>trusted.
     let config = \<lparr>mc_api_url = rev (dropWhile (\<lambda>c. c = CHR ''/'') (rev (lc_api_url cli))),
           mc_api_token = unwrap_or [] (lc_api_token cli), mc_ban = lc_ban cli,
           mc_btmp_path = lc_btmp_path cli, mc_trusted_cidrs = trusted\<rparr>
     in bindE (validate_config config) (\<lambda>_. Inr config))"

definition new_monitor :: "monitor_config \<Rightarrow> login_monitor" where
  "new_monitor config = \<lparr>lm_config = config, lm_cursor = None, lm_counts = []\<rparr>"

definition start_monitor :: "net_text \<Rightarrow> login_cli \<Rightarrow> login_monitor res" where
  "start_monitor T cli =
     bindE (to_config T cli) (\<lambda>config.
       if \<not> lc_dry_run cli \<and> trim (mc_api_token config) = [] then Inl (MustBeSet ''api-token'') else Inr (new_monitor config))"

section \<open>Against the control plane\<close>

definition batch_request :: "ban_item \<Rightarrow> create_temp_ban_request" where
  "batch_request i =
     \<lparr>cb_cidr = bi_cidr i, cb_protocol = Some (bi_protocol i), cb_port = bi_port i,
      cb_duration_seconds = Some (bi_duration_seconds i), cb_comment = bi_comment i\<rparr>"

text \<open>The two requests of the tool, answered by the handlers of \<^verbatim>\<open>control_plane/api\<close>.\<close>

definition control_plane_bans :: "api_env \<Rightarrow> firewall_db ban_api" where
  "control_plane_bans E =
     \<lparr>ban_list = (\<lambda>page db. mapE (\<lambda>p. (map tbr_cidr (pa_items p), pa_total_pages p))
        (list_bans E (Some (word_of_nat page)) (Some 500) None None None db)),
      ban_post = (\<lambda>items db. case create_bans_handler E db (map batch_request items) db of
        (db, answer) \<Rightarrow> (db, mapE (\<lambda>_. ()) answer))\<rparr>"

section \<open>Reading in pieces\<close>

lemma length_records_of: "length (records_of b) = length b div utmp_record_size"
  by (simp add: records_of_def)

lemma utmp_pos: "0 < utmp_record_size"
  by (simp add: utmp_record_size_def)

lemma records_of_append:
  assumes "length a = k * utmp_record_size"
  shows "records_of (a @ b) = records_of a @ records_of b"
proof (rule nth_equalityI)
  have d: "length a div utmp_record_size = k" using assms utmp_pos by simp
  have l: "length (a @ b) div utmp_record_size = k + length b div utmp_record_size"
    using assms utmp_pos by simp
  then show "length (records_of (a @ b)) = length (records_of a @ records_of b)"
    by (simp add: length_records_of d)
  fix i
  assume i: "i < length (records_of (a @ b))"
  let ?s = utmp_record_size
  show "records_of (a @ b) ! i = (records_of a @ records_of b) ! i"
  proof (cases "i < k")
    case True
    then have "(i + 1) * ?s \<le> k * ?s" by (intro mult_le_mono1) simp
    then have "i * ?s + ?s \<le> length a" using assms by simp
    then have "take ?s (drop (i * ?s) (a @ b)) = take ?s (drop (i * ?s) a)" by simp
    moreover have "i < length (a @ b) div ?s" "i < length a div ?s" using True l d by simp_all
    ultimately have "records_of (a @ b) ! i = records_of a ! i"
      by (simp only: records_of_def nth_map_upt diff_zero add_0)
    then show ?thesis using True by (simp add: nth_append length_records_of d)
  next
    case False
    then have "i * ?s = length a + (i - k) * ?s" using assms by (simp add: diff_mult_distrib)
    then have "drop (i * ?s) (a @ b) = drop ((i - k) * ?s) b" by simp
    moreover have "i < length (a @ b) div ?s" "i - k < length b div ?s"
      using i False l by (simp_all add: length_records_of)
    ultimately have "records_of (a @ b) ! i = records_of b ! (i - k)"
      by (simp only: records_of_def nth_map_upt diff_zero add_0)
    then show ?thesis using False by (simp add: nth_append length_records_of d)
  qed
qed

definition plain_file :: "u64 \<Rightarrow> u8 list \<Rightarrow> btmp_file option" where
  "plain_file inode b = Some \<lparr>bf_regular = True, bf_inode = inode, bf_len = length b, bf_bytes = b\<rparr>"

text \<open>Reads of successive contents, and what they gave together.\<close>

fun read_growing :: "u64 \<Rightarrow> u8 list list \<Rightarrow> read_cursor option \<Rightarrow> (failed_attempt list \<times> read_cursor option) res" where
  "read_growing inode [] cursor = Inr ([], cursor)"
| "read_growing inode (b # bs) cursor =
     bindE (read_attempts (plain_file inode b) cursor) (\<lambda>(attempts, cursor).
       mapE (\<lambda>(later, cursor). (attempts @ later, cursor)) (read_growing inode bs (Some cursor)))"

definition whole_records :: "u8 list \<Rightarrow> nat" where
  "whole_records b = length b div utmp_record_size * utmp_record_size"

definition attempts_of :: "u8 list \<Rightarrow> failed_attempt list" where
  "attempts_of b = List.map_filter parse_record (records_of (take (whole_records b) b))"

lemma whole_records_split:
  assumes "k * utmp_record_size \<le> length b"
  shows "whole_records b = k * utmp_record_size + (length b - k * utmp_record_size) div utmp_record_size * utmp_record_size"
proof -
  obtain r where "length b = k * utmp_record_size + r" using assms le_Suc_ex by blast
  then show ?thesis using utmp_pos by (simp add: whole_records_def add_mult_distrib)
qed

lemma whole_records_le: "whole_records b \<le> length b"
  by (simp add: whole_records_def)

lemma read_from_cursor:
  assumes "prefix a b"
  shows "read_attempts (plain_file inode b) (Some \<lparr>rc_inode = inode, rc_offset = whole_records a\<rparr>) =
    Inr (List.map_filter parse_record (records_of (take (whole_records b - whole_records a) (drop (whole_records a) b))),
         \<lparr>rc_inode = inode, rc_offset = whole_records b\<rparr>)"
proof -
  have le: "whole_records a \<le> length b"
    using whole_records_le [of a] prefix_length_le [OF assms] by simp
  have w: "whole_records b = whole_records a + (length b - whole_records a) div utmp_record_size * utmp_record_size"
    using whole_records_split [of "length a div utmp_record_size" b] le by (simp add: whole_records_def [of a])
  then show ?thesis
    using le by (simp add: read_attempts_def plain_file_def read_start_def Let_def)
qed

lemma records_of_concat: "\<forall>r\<in>set rs. length r = utmp_record_size \<Longrightarrow> records_of (concat rs) = rs"
proof (induction rs)
  case (Cons r rs)
  have "records_of r = [r]" using Cons.prems utmp_pos by (simp add: records_of_def)
  moreover have "records_of (r @ concat rs) = records_of r @ records_of (concat rs)"
    using Cons.prems by (intro records_of_append [where k = 1]) simp
  ultimately show ?case using Cons by simp
qed (simp add: records_of_def)

lemma attempts_of_records:
  assumes "\<forall>r\<in>set rs. length r = utmp_record_size" and "length tail < utmp_record_size"
  shows "attempts_of (concat rs @ tail) = List.map_filter parse_record rs"
proof -
  have l: "length (concat rs) = length rs * utmp_record_size"
    using assms(1) by (induction rs) (simp_all add: add_mult_distrib)
  then have "whole_records (concat rs @ tail) = length (concat rs)"
    using assms(2) utmp_pos by (simp add: whole_records_def)
  then show ?thesis using records_of_concat [OF assms(1)] by (simp add: attempts_of_def)
qed

lemma whole_records_mono: "prefix a b \<Longrightarrow> whole_records a \<le> whole_records b"
  by (simp add: whole_records_def div_le_mono prefix_length_le)

lemma attempts_of_split:
  assumes "prefix a b"
  shows "attempts_of b = attempts_of a @
    List.map_filter parse_record (records_of (take (whole_records b - whole_records a) (drop (whole_records a) b)))"
proof -
  let ?n = "whole_records a"
  have "take (whole_records b) b = take ?n b @ take (whole_records b - ?n) (drop ?n b)"
    using whole_records_mono [OF assms] by (metis le_add_diff_inverse take_add)
  also have "take ?n b = take ?n a"
    using assms whole_records_le [of a] by (auto simp: prefix_def)
  finally have t: "take (whole_records b) b = take ?n a @ take (whole_records b - ?n) (drop ?n b)" .
  have "length (take ?n a) = length a div utmp_record_size * utmp_record_size"
    using whole_records_le [of a] by (simp add: whole_records_def)
  then have "records_of (take ?n a @ bs) = records_of (take ?n a) @ records_of bs" for bs
    by (rule records_of_append)
  then show ?thesis
    unfolding attempts_of_def t by (simp only: List.map_filter_def filter_append map_append)
qed

lemma read_growing_from:
  "sorted_wrt prefix (a # bs) \<Longrightarrow>
     \<exists>xs. read_growing inode bs (Some \<lparr>rc_inode = inode, rc_offset = whole_records a\<rparr>) =
            Inr (xs, Some \<lparr>rc_inode = inode, rc_offset = whole_records (last (a # bs))\<rparr>) \<and>
          attempts_of (last (a # bs)) = attempts_of a @ xs"
proof (induction bs arbitrary: a)
  case Nil
  show ?case by simp
next
  case (Cons b bs)
  have p: "prefix a b" and s: "sorted_wrt prefix (b # bs)" using Cons.prems by auto
  obtain xs where "read_growing inode bs (Some \<lparr>rc_inode = inode, rc_offset = whole_records b\<rparr>) =
      Inr (xs, Some \<lparr>rc_inode = inode, rc_offset = whole_records (last (b # bs))\<rparr>)"
    "attempts_of (last (b # bs)) = attempts_of b @ xs"
    using Cons.IH [OF s] by blast
  then show ?case by (simp add: read_from_cursor [OF p] attempts_of_split [OF p])
qed

lemma first_read:
  "read_attempts (plain_file inode b) None = read_attempts (plain_file inode b) (Some \<lparr>rc_inode = inode, rc_offset = 0\<rparr>)"
  by (simp add: read_attempts_def plain_file_def read_start_def)

lemma read_growing_complete:
  assumes "sorted_wrt prefix (b # bs)"
  shows "read_growing inode (b # bs) None =
    Inr (attempts_of (last (b # bs)), Some \<lparr>rc_inode = inode, rc_offset = whole_records (last (b # bs))\<rparr>)"
proof -
  have "whole_records [] = 0" by (simp add: whole_records_def)
  then have "read_growing inode (b # bs) None = read_growing inode (b # bs) (Some \<lparr>rc_inode = inode, rc_offset = whole_records []\<rparr>)"
    by (simp add: first_read)
  moreover have "attempts_of [] = []" by (simp add: attempts_of_def records_of_def List.map_filter_def)
  moreover have "sorted_wrt prefix ([] # b # bs)" using assms by simp
  ultimately show ?thesis using read_growing_from [of "[]" "b # bs" inode] by auto
qed

section \<open>The counters over several rounds\<close>

definition times_of :: "failure_counts \<Rightarrow> ipaddr \<Rightarrow> login_time list" where
  "times_of counts ip = unwrap_or [] (map_of counts ip)"

definition good_counts :: "failure_counts \<Rightarrow> bool" where
  "good_counts counts \<longleftrightarrow> distinct (map fst counts) \<and> (\<forall>e\<in>set counts. snd e \<noteq> [])"

lemma push_attempt_keys: "set (map fst (push_attempt a counts)) = insert (fa_ip a) (set (map fst counts))"
  by (induction a counts rule: push_attempt.induct) auto

lemma push_attempt_times:
  "times_of (push_attempt a counts) ip = times_of counts ip @ (if fa_ip a = ip then [fa_time a] else [])"
  by (induction a counts rule: push_attempt.induct) (auto simp: times_of_def)

lemma push_attempt_good: "good_counts counts \<Longrightarrow> good_counts (push_attempt a counts)"
proof (induction a counts rule: push_attempt.induct)
  case (2 a ip stamps counts)
  then show ?case using push_attempt_keys [of a counts] by (auto simp: good_counts_def)
qed (simp add: good_counts_def)

definition push_all :: "login_time \<Rightarrow> failed_attempt list \<Rightarrow> failure_counts \<Rightarrow> failure_counts" where
  "push_all cutoff attempts counts = fold (\<lambda>a c. if cutoff \<le> fa_time a then push_attempt a c else c) attempts counts"

lemma push_all_times:
  "times_of (push_all cutoff attempts counts) ip =
     times_of counts ip @ filter (\<lambda>t. cutoff \<le> t) (map fa_time (filter (\<lambda>a. fa_ip a = ip) attempts))"
  by (induction attempts arbitrary: counts) (simp_all add: push_all_def push_attempt_times)

lemma push_all_good: "good_counts counts \<Longrightarrow> good_counts (push_all cutoff attempts counts)"
  by (induction attempts arbitrary: counts) (simp_all add: push_all_def push_attempt_good)

lemma retained_times:
  assumes "distinct (map fst counts)"
  shows "times_of (filter (\<lambda>e. snd e \<noteq> []) (map (\<lambda>(ip, stamps). (ip, filter P stamps)) counts)) ip = filter P (times_of counts ip)"
  using assms
proof (induction counts)
  case (Cons e counts)
  have "filter P (times_of counts ip) = []" if "ip \<notin> set (map fst counts)"
    using that by (simp add: times_of_def map_of_eq_None_iff [THEN iffD2])
  then show ?case using Cons by (cases e) (auto simp: times_of_def split: if_splits)
qed (simp add: times_of_def)

lemma retained_good:
  assumes "distinct (map fst counts)"
  shows "good_counts (filter (\<lambda>e. snd e \<noteq> []) (map (\<lambda>(ip, stamps). (ip, filter P stamps)) counts))"
proof -
  have "map fst (map (\<lambda>(ip, stamps). (ip, filter P stamps)) counts) = map fst counts" by (induction counts) auto
  then have "distinct (map fst (map (\<lambda>(ip, stamps). (ip, filter P stamps)) counts))" using assms by (simp only:)
  then show ?thesis unfolding good_counts_def by (intro conjI distinct_map_filter) auto
qed

lemma merge_attempts_times:
  assumes "good_counts counts"
  shows "times_of (merge_attempts counts attempts cutoff) ip =
    filter (\<lambda>t. cutoff \<le> t) (times_of counts ip @ map fa_time (filter (\<lambda>a. fa_ip a = ip) attempts))"
  using push_all_good [OF assms, of cutoff attempts]
  unfolding merge_attempts_def push_all_def [symmetric] good_counts_def
  by (simp add: retained_times push_all_times)

lemma merge_attempts_good: "good_counts counts \<Longrightarrow> good_counts (merge_attempts counts attempts cutoff)"
  using push_all_good [of counts cutoff attempts]
  unfolding merge_attempts_def push_all_def [symmetric] by (simp add: retained_good good_counts_def [of "push_all _ _ _"])

section \<open>Candidates\<close>

lemma map_of_times:
  assumes "good_counts counts"
  shows "(ip, ts) \<in> set counts \<longleftrightarrow> ts = times_of counts ip \<and> ts \<noteq> []"
proof -
  have "(ip, ts) \<in> set counts \<longleftrightarrow> map_of counts ip = Some ts"
    using assms by (simp add: good_counts_def)
  moreover have "map_of counts ip = Some ts \<Longrightarrow> ts \<noteq> []"
    using assms by (auto simp: good_counts_def dest: map_of_SomeD)
  ultimately show ?thesis by (cases "map_of counts ip") (auto simp: times_of_def)
qed

lemma set_candidates_of:
  "set (candidates_of N c existing counts) =
     (\<lambda>e. (fst e, length (snd e))) ` {e \<in> set counts. decide N c existing e = Candidate}"
  by (auto simp: candidates_of_def)

lemma candidates_iff:
  assumes "good_counts counts" and "set walked = set counts" and "1 \<le> unat (bc_threshold (mc_ban c))"
  shows "(ip, n) \<in> set (candidates_of N c existing walked) \<longleftrightarrow>
    n = length (times_of counts ip) \<and> unat (bc_threshold (mc_ban c)) \<le> n \<and>
    \<not> is_trusted N ip (mc_trusted_cidrs c) \<and> ip_cidr ip \<notin> existing"
proof -
  have "(ip, n) \<in> set (candidates_of N c existing walked) \<longleftrightarrow>
      (\<exists>ts. (ip, ts) \<in> set counts \<and> n = length ts \<and> decide N c existing (ip, ts) = Candidate)"
    unfolding set_candidates_of assms(2) by force
  also have "\<dots> \<longleftrightarrow> n = length (times_of counts ip) \<and> times_of counts ip \<noteq> [] \<and>
      decide N c existing (ip, times_of counts ip) = Candidate"
    unfolding map_of_times [OF assms(1)] by blast
  finally show ?thesis using assms(3) by (auto simp: decide_def)
qed

lemma candidates_descending: "sorted_wrt (\<lambda>x y. snd y \<le> snd x) (candidates_of N c existing counts)"
proof -
  have "sorted_wrt (\<lambda>x y. snd x \<le> snd y) (sort_key snd l)" for l :: "(ipaddr \<times> nat) list"
    using sorted_sort_key [of snd l] by (simp only: sorted_map)
  then show ?thesis by (simp only: candidates_of_def sorted_wrt_rev)
qed

lemma candidates_distinct:
  assumes "distinct (map fst counts)"
  shows "distinct (map fst (candidates_of N c existing counts))"
proof -
  let ?l = "map (\<lambda>e. (fst e, length (snd e))) (filter (\<lambda>e. decide N c existing e = Candidate) counts)"
  have "mset (map fst (candidates_of N c existing counts)) = mset (map fst ?l)"
    by (simp only: candidates_of_def mset_map mset_rev mset_sort)
  moreover have "distinct (map fst ?l)" using assms by (simp add: comp_def distinct_map_filter)
  ultimately show ?thesis using mset_eq_imp_distinct_iff by blast
qed

section \<open>Termination of the page walk\<close>

lemma list_pages_enough:
  assumes "\<And>page items total. ban_list api page w = Inr (items, total) \<Longrightarrow> total \<le> pages"
  shows "pages < fuel + page \<Longrightarrow> 0 < fuel \<Longrightarrow> \<exists>r. list_pages fuel api page w = Some r"
proof (induction fuel arbitrary: page)
  case (Suc fuel)
  show ?case
  proof (cases "ban_list api page w")
    case (Inr r)
    obtain items total where r: "r = (items, total)" by (cases r)
    have "total \<le> pages" using assms Inr r by blast
    then have "page < total \<Longrightarrow> \<exists>r. list_pages fuel api (page + 1) w = Some r"
      using Suc.IH [of "page + 1"] Suc.prems by simp
    then show ?thesis using Inr r by (cases "page < total") auto
  qed simp
qed simp

section \<open>Rounds over a growing log\<close>

text \<open>The loop of the daemon: a failed round is logged and the next one follows.\<close>

fun run_rounds ::
    "ipnet_lib \<Rightarrow> (failure_counts \<Rightarrow> failure_counts) \<Rightarrow> nat \<Rightarrow> 'w ban_api \<Rightarrow> bool \<Rightarrow> (login_time \<times> btmp_file option) list \<Rightarrow>
       login_monitor \<Rightarrow> 'w \<Rightarrow> (login_monitor \<times> 'w) option" where
  "run_rounds N iter fuel api dry_run [] m w = Some (m, w)"
| "run_rounds N iter fuel api dry_run ((now, file) # rounds) m w =
     (case run_once N iter fuel api dry_run now file m w of
        None \<Rightarrow> None
      | Some (m, w, _) \<Rightarrow> run_rounds N iter fuel api dry_run rounds m w)"

definition times_in :: "failed_attempt list \<Rightarrow> ipaddr \<Rightarrow> login_time list" where
  "times_in attempts ip = map fa_time (filter (\<lambda>a. fa_ip a = ip) attempts)"

lemma times_in_append [simp]: "times_in (xs @ ys) ip = times_in xs ip @ times_in ys ip"
  by (simp add: times_in_def)

text \<open>The monitor has read the whole records of \<open>a\<close> and holds the failures in it since the cutoff.\<close>

definition caught_up :: "u64 \<Rightarrow> u8 list \<Rightarrow> login_time \<Rightarrow> login_monitor \<Rightarrow> bool" where
  "caught_up inode a cutoff m \<longleftrightarrow>
     (\<forall>b. read_attempts (plain_file inode b) (lm_cursor m) =
          read_attempts (plain_file inode b) (Some \<lparr>rc_inode = inode, rc_offset = whole_records a\<rparr>)) \<and>
     good_counts (lm_counts m) \<and>
     (\<forall>ip. times_of (lm_counts m) ip = filter (\<lambda>t. cutoff \<le> t) (times_in (attempts_of a) ip))"

lemma attempts_of_Nil [simp]: "attempts_of [] = []"
  by (simp add: attempts_of_def records_of_def List.map_filter_def)

lemma caught_up_new: "caught_up inode [] cutoff (new_monitor c)"
  using whole_records_le [of "[]"]
  by (simp add: caught_up_def new_monitor_def first_read good_counts_def times_of_def times_in_def)

lemma filter_later: "c \<le> (d :: login_time) \<Longrightarrow> filter (\<lambda>t. d \<le> t) (filter (\<lambda>t. c \<le> t) ts) = filter (\<lambda>t. d \<le> t) ts"
  by (induction ts) auto

lemma run_once_reads:
  assumes "read_attempts file (lm_cursor m) = Inr (attempts, cursor)"
    and "run_once N iter fuel api dry_run now file m w = Some (m', w', r)"
  shows "m' = m\<lparr>lm_cursor := Some cursor, lm_counts := merge_attempts (lm_counts m) attempts (round_cutoff (lm_config m) now)\<rparr>"
  using assms
  by (auto simp: run_once_def collect_attempts_def Let_def split: if_splits option.splits sum.splits prod.splits)

lemma caught_up_step:
  assumes "caught_up inode a cutoff m" and "prefix a b" and "cutoff \<le> round_cutoff (lm_config m) now"
    and "run_once N iter fuel api dry_run now (plain_file inode b) m w = Some (m', w', r)"
  shows "caught_up inode b (round_cutoff (lm_config m) now) m' \<and> lm_config m' = lm_config m"
proof -
  let ?new = "List.map_filter parse_record (records_of (take (whole_records b - whole_records a) (drop (whole_records a) b)))"
  have "read_attempts (plain_file inode b) (lm_cursor m) = Inr (?new, \<lparr>rc_inode = inode, rc_offset = whole_records b\<rparr>)"
    using assms(1) read_from_cursor [OF assms(2)] by (simp add: caught_up_def)
  note m' = run_once_reads [OF this assms(4)]
  have "times_of (lm_counts m') ip = filter (\<lambda>t. round_cutoff (lm_config m) now \<le> t) (times_in (attempts_of b) ip)" for ip
    using assms(1) filter_later [OF assms(3)]
    by (simp add: m' merge_attempts_times caught_up_def attempts_of_split [OF assms(2)] times_in_def [symmetric])
  then show ?thesis using assms(1) by (simp add: caught_up_def m' merge_attempts_good)
qed

lemma round_cutoff_mono: "now \<le> now' \<Longrightarrow> round_cutoff c now \<le> round_cutoff c now'"
  by (auto simp: round_cutoff_def less_eq_prod_def)

lemma list_temp_ban_cidrs_Some:
  assumes "0 < fuel" and "\<And>page items total. ban_list api page w = Inr (items, total) \<Longrightarrow> total < fuel"
  shows "\<exists>r. list_temp_ban_cidrs fuel api w = Some r"
  unfolding list_temp_ban_cidrs_def
proof (rule list_pages_enough [where pages = "fuel - 1"])
  show "total \<le> fuel - 1" if "ban_list api page w = Inr (items, total)" for page items total
    using assms(2) [OF that] by simp
qed (use assms(1) in simp_all)

lemma run_once_Some:
  assumes "0 < fuel" and "\<And>page items total. ban_list api page w = Inr (items, total) \<Longrightarrow> total < fuel"
  shows "\<exists>m' w' r. run_once N iter fuel api dry_run now file m w = Some (m', w', r)"
  using list_temp_ban_cidrs_Some [of fuel api w] assms
  by (fastforce simp: run_once_def Let_def split: option.split sum.split prod.split)

lemma run_rounds_caught_up:
  assumes "0 < fuel" and "\<And>page w items total. ban_list api page w = Inr (items, total) \<Longrightarrow> total < fuel"
  shows "caught_up inode a cutoff m \<Longrightarrow> sorted_wrt prefix (a # map snd rounds) \<Longrightarrow> sorted (map fst rounds) \<Longrightarrow>
     \<forall>r\<in>set rounds. cutoff \<le> round_cutoff (lm_config m) (fst r) \<Longrightarrow>
     \<exists>m' w'. run_rounds N iter fuel api dry_run (map (\<lambda>(now, b). (now, plain_file inode b)) rounds) m w = Some (m', w') \<and>
       (rounds \<noteq> [] \<longrightarrow> caught_up inode (snd (last rounds)) (round_cutoff (lm_config m) (fst (last rounds))) m')"
proof (induction rounds arbitrary: a cutoff m w)
  case (Cons r rounds)
  obtain now b where r: "r = (now, b)" by (cases r)
  obtain m1 w1 s where o: "run_once N iter fuel api dry_run now (plain_file inode b) m w = Some (m1, w1, s)"
    using run_once_Some [where api = api and w = w and fuel = fuel] assms(1) assms(2) by metis
  have "prefix a b" "cutoff \<le> round_cutoff (lm_config m) now" using Cons.prems r by auto
  then have c: "caught_up inode b (round_cutoff (lm_config m) now) m1" "lm_config m1 = lm_config m"
    using caught_up_step [OF Cons.prems(1) _ _ o] by auto
  have "\<exists>m' w'. run_rounds N iter fuel api dry_run (map (\<lambda>(now, b). (now, plain_file inode b)) rounds) m1 w1 = Some (m', w') \<and>
      (rounds \<noteq> [] \<longrightarrow> caught_up inode (snd (last rounds)) (round_cutoff (lm_config m1) (fst (last rounds))) m')"
  proof (rule Cons.IH [OF c(1)])
    show "sorted_wrt prefix (b # map snd rounds)" "sorted (map fst rounds)" using Cons.prems r by auto
    show "\<forall>r\<in>set rounds. round_cutoff (lm_config m) now \<le> round_cutoff (lm_config m1) (fst r)"
      using Cons.prems(3) r by (auto simp: c(2) intro: round_cutoff_mono)
  qed
  then obtain m' w' where f: "run_rounds N iter fuel api dry_run (map (\<lambda>(now, b). (now, plain_file inode b)) rounds) m1 w1 = Some (m', w')"
    "rounds \<noteq> [] \<longrightarrow> caught_up inode (snd (last rounds)) (round_cutoff (lm_config m) (fst (last rounds))) m'"
    using c(2) by auto
  have "run_rounds N iter fuel api dry_run (map (\<lambda>(now, b). (now, plain_file inode b)) (r # rounds)) m w = Some (m', w')"
    using o f(1) by (simp add: r)
  moreover have "rounds = [] \<Longrightarrow> m' = m1" using f(1) by simp
  ultimately show ?case using f(2) c(1) by (cases "rounds = []") (auto simp: r)
qed simp

section \<open>An address of a node among the candidates\<close>

lemma host_cidr_normalized:
  assumes N: "ipnet_spec N" and T: "net_text_spec T"
  shows "parse_normalized_cidr N T (ip_cidr ip) = Inr (Net ip (word_of_nat (ip_width ip)))"
proof -
  let ?p = "word_of_nat (ip_width ip) :: u8"
  have w: "unat ?p = ip_width ip" by (cases ip) simp_all
  have "dec_nat 32 = ''32''" "dec_nat 128 = ''128''" by code_simp+
  then have t: "ip_cidr ip = cidr_text ip ?p" by (cases ip) (simp_all add: ip_cidr_def cidr_text_def)
  have v: "valid_net (Net ip ?p)" using w by (simp add: valid_net_def)
  have p: "parse_cidr T (cidr_text ip ?p) = Inr (Net ip ?p)"
    using net_text_spec.parse_show [OF T, of ?p ip] w by (simp add: parse_cidr_def)
  have "ip_bits (net_network N (Net ip ?p)) = ip_bits ip" "is_ipv4 (net_network N (Net ip ?p)) = is_ipv4 ip"
    using ipnet_spec.network_bits [OF N v] ipnet_spec.network_family [OF N v] w by simp_all
  then have n: "net_network N (Net ip ?p) = ip" by (metis ip_bits_eq_iff)
  have "\<not> is_space (hd (show_ip ip))" using shown_ip_plain [of "hd (show_ip ip)" ip] show_ip_not_Nil [of ip] by simp
  moreover have "\<not> is_space (last (ip_cidr ip))" by (cases ip) (simp_all add: ip_cidr_def is_space_def)
  ultimately have tr: "trim (ip_cidr ip) = ip_cidr ip"
    using show_ip_not_Nil [of ip] by (intro trim_fixed) (simp add: ip_cidr_def hd_append)
  have "CHR ''/'' \<in> set (ip_cidr ip)" by (simp add: ip_cidr_def)
  then show ?thesis by (simp add: parse_normalized_cidr_def normalize_cidr_def Let_def tr [unfolded t] t p n)
qed

lemma node_candidate_rejected:
  assumes N: "ipnet_spec (ae_net E)" and T: "net_text_spec (ae_text E)"
    and row: "row \<in> set (db_nodes db)" "ndr_policy_name row = default_policy_name"
      "parse_node_interface_ips (ndr_interface_ips row) = Inr ips" "ip \<in> set ips"
    and i: "bi_cidr i = ip_cidr ip"
  shows "\<exists>e. reject_temp_ban_node_ip E db (batch_request i) = Inl e"
proof -
  let ?n = "Net ip (word_of_nat (ip_width ip))"
  have "unat (word_of_nat (ip_width ip) :: u8) = ip_width ip" by (cases ip) simp_all
  then have "cidr_contains_ip (ae_net E) ?n ip"
    using ipnet_spec.contains_eq [OF N, of ?n ip] by (simp add: cidr_contains_ip_def valid_net_def)
  then have "list_ex (cidr_contains_ip (ae_net E) ?n) ips" using row(4) by (auto simp: list_ex_iff)
  then have "\<exists>e. reject_node_ip_block (ae_net E) db ?n ''temporary ban'' = Inl e"
    unfolding reject_node_ip_block_def mapE_Inl_iff traverse_fails_iff using row by force
  then show ?thesis by (simp add: reject_temp_ban_node_ip_def host_cidr_normalized [OF N T] i batch_request_def)
qed

lemma node_candidate_refuses_batch:
  assumes "ipnet_spec (ae_net E)" "net_text_spec (ae_text E)"
    and "row \<in> set (db_nodes db)" "ndr_policy_name row = default_policy_name"
      "parse_node_interface_ips (ndr_interface_ips row) = Inr ips" "ip \<in> set ips"
    and "i \<in> set items" "bi_cidr i = ip_cidr ip"
  shows "\<exists>e. ban_post (control_plane_bans E) items db = (db, Inl e)"
proof -
  have "\<exists>e. reject_temp_ban_node_ip E db (batch_request i) = Inl e"
    by (rule node_candidate_rejected [OF assms(1-6) assms(8)])
  then have "\<exists>e. traverse (reject_temp_ban_node_ip E db) (map batch_request items) = Inl e"
    unfolding traverse_fails_iff using assms(7) by auto
  then show ?thesis
    by (cases "validate_batch_len (length items)") (auto simp: control_plane_bans_def create_bans_handler_def after_checks_def)
qed

end
