(* ===== verification/Login_Claims.thy ===== *)
theory Login_Claims
  imports Failed_Logins Store_Claims
begin

text \<open>
  The properties of \<^verbatim>\<open>tools/btmp-monitor\<close>: reading a growing log in pieces is reading it whole, the candidates of a
  round are the addresses whose failures in the window reach the threshold, and one address of a node among them keeps
  every ban of its chunk from being made.
\<close>

section \<open>Samples\<close>

definition failure_record :: "string \<Rightarrow> u32 \<Rightarrow> u8 list" where
  "failure_record host sec =
     replicate ut_host_offset 0 @ map char_byte host @ replicate (ut_tv_sec_offset - ut_host_offset - length host) 0 @
     u32_mem sec @ replicate (utmp_record_size - ut_tv_sec_offset - 4) 0"

definition sample_login_config :: monitor_config where
  "sample_login_config =
     \<lparr>mc_api_url = ''http'', mc_api_token = ''t'',
      mc_ban = \<lparr>bc_threshold = 2, bc_window_seconds = 100, bc_duration_seconds = 600, bc_protocol = ''any'', bc_port = 0,
        bc_comment = ''ssh''\<rparr>,
      mc_btmp_path = ''btmp'', mc_trusted_cidrs = [Net (V4 0x7F000000) 8]\<rparr>"

lemma length_failure_record: "length host \<le> ut_host_len \<Longrightarrow> length (failure_record host sec) = utmp_record_size"
  by (simp add: failure_record_def ut_host_offset_def ut_tv_sec_offset_def utmp_record_size_def ut_host_len_def)

lemma sample_parsed:
  "parse_record (failure_record ''203.0.113.7'' 60) = Some \<lparr>fa_ip = V4 0xCB007107, fa_time = (60, 0)\<rparr>"
  "parse_record (failure_record ''203.0.113.7'' 70) = Some \<lparr>fa_ip = V4 0xCB007107, fa_time = (70, 0)\<rparr>"
  "parse_record (failure_record ''198.51.100.9'' 80) = Some \<lparr>fa_ip = V4 0xC6336409, fa_time = (80, 0)\<rparr>"
  by code_simp+

definition sample_records :: "u8 list list" where
  "sample_records = [failure_record ''203.0.113.7'' 60, failure_record ''203.0.113.7'' 70, failure_record ''198.51.100.9'' 80]"

lemma sample_records_length: "\<forall>r\<in>set sample_records. length r = utmp_record_size"
  by (simp add: sample_records_def length_failure_record ut_host_len_def)

lemma sample_attempts:
  "List.map_filter parse_record sample_records =
     [\<lparr>fa_ip = V4 0xCB007107, fa_time = (60, 0)\<rparr>, \<lparr>fa_ip = V4 0xCB007107, fa_time = (70, 0)\<rparr>, \<lparr>fa_ip = V4 0xC6336409, fa_time = (80, 0)\<rparr>]"
  by (simp add: sample_records_def sample_parsed List.map_filter_def)

section \<open>Reading the log\<close>

text \<open>Reading the log of failed logins round by round, from the cursor the round before left, gives in order
  exactly the attempts one read of the final log gives, each once, if the log only grows: a record that was half
  written when a round read the file is not lost and not read twice. The cursor ends behind the last whole record.\<close>

theorem incremental_reads_complete:
  assumes "sorted_wrt prefix (b # bs)"
  shows "read_growing inode (b # bs) None =
    Inr (List.map_filter parse_record (records_of (take (whole_records (last (b # bs))) (last (b # bs)))),
         Some \<lparr>rc_inode = inode, rc_offset = length (last (b # bs)) div 384 * 384\<rparr>)"
  using read_growing_complete [OF assms, of inode] by (simp add: attempts_of_def whole_records_def utmp_record_size_def)

theorem incremental_reads_complete_witness:
  "read_growing 9 [take 700 (concat sample_records), concat sample_records @ [0, 0]] None =
     Inr ([\<lparr>fa_ip = V4 0xCB007107, fa_time = (60, 0)\<rparr>, \<lparr>fa_ip = V4 0xCB007107, fa_time = (70, 0)\<rparr>, \<lparr>fa_ip = V4 0xC6336409, fa_time = (80, 0)\<rparr>],
          Some \<lparr>rc_inode = 9, rc_offset = 1152\<rparr>)"
proof -
  let ?b = "concat sample_records @ [0, 0]"
  have "sorted_wrt prefix [take 700 (concat sample_records), ?b]"
    using take_is_prefix [of 700 "concat sample_records"] by (simp add: prefix_def) (metis append.assoc)
  note t = incremental_reads_complete [OF this, of 9]
  have "attempts_of ?b = List.map_filter parse_record sample_records"
    by (rule attempts_of_records [OF sample_records_length]) (simp add: utmp_record_size_def)
  moreover have "length ?b = 1154"
    by (simp add: sample_records_def length_failure_record ut_host_len_def utmp_record_size_def)
  ultimately show ?thesis using t by (simp add: attempts_of_def sample_attempts)
qed

section \<open>Candidates\<close>

text \<open>C36: after any number of rounds over a growing log, whatever the API answered and whichever rounds failed, the
  addresses a round would ban are exactly those with at least the threshold of failures in the log inside the
  window, outside the trusted networks and not in the list of bans, each with its exact number of failures.
  The rounds return, given that the server's page count is below the fuel.\<close>

theorem ban_candidates_exact:
  assumes "validate_config c = Inr ()" and "rounds \<noteq> []" and "sorted_wrt prefix (map snd rounds)" and "sorted (map fst rounds)"
    and "0 < fuel" and "\<forall>page w items total. ban_list api page w = Inr (items, total) \<longrightarrow> total < fuel"
  shows "\<exists>m w'. run_rounds N iter fuel api dry_run (map (\<lambda>(now, b). (now, plain_file inode b)) rounds) (new_monitor c) w = Some (m, w') \<and>
    (\<forall>walked existing ip n. set walked = set (lm_counts m) \<longrightarrow>
      ((ip, n) \<in> set (candidates_of N c existing walked) \<longleftrightarrow>
         n = length (filter (\<lambda>t. round_cutoff c (fst (last rounds)) \<le> t) (times_in (attempts_of (snd (last rounds))) ip)) \<and>
         unat (bc_threshold (mc_ban c)) \<le> n \<and> \<not> is_trusted N ip (mc_trusted_cidrs c) \<and> ip_cidr ip \<notin> existing))"
proof -
  let ?m = "new_monitor c"
  have c: "lm_config ?m = c" by (simp add: new_monitor_def)
  have first: "\<forall>r\<in>set rounds. round_cutoff c (fst (hd rounds)) \<le> round_cutoff c (fst r)"
    using assms(2,4) by (cases rounds) (auto intro: round_cutoff_mono)
  have "\<exists>m w'. run_rounds N iter fuel api dry_run (map (\<lambda>(now, b). (now, plain_file inode b)) rounds) ?m w = Some (m, w') \<and>
      (rounds \<noteq> [] \<longrightarrow> caught_up inode (snd (last rounds)) (round_cutoff (lm_config ?m) (fst (last rounds))) m)"
  proof (rule run_rounds_caught_up [OF assms(5) _ caught_up_new])
    show "sorted_wrt prefix ([] # map snd rounds)" "sorted (map fst rounds)" using assms(3,4) by simp_all
    show "\<forall>r\<in>set rounds. round_cutoff c (fst (hd rounds)) \<le> round_cutoff (lm_config ?m) (fst r)" using first by (simp add: c)
  qed (use assms(6) in blast)
  then obtain m w' where m: "run_rounds N iter fuel api dry_run (map (\<lambda>(now, b). (now, plain_file inode b)) rounds) ?m w = Some (m, w')"
      "caught_up inode (snd (last rounds)) (round_cutoff c (fst (last rounds))) m"
    using assms(2) unfolding c by blast
  have "1 \<le> unat (bc_threshold (mc_ban c))"
    using assms(1) by (auto simp: validate_config_def Let_def word_less_nat_alt split: if_splits)
  then show ?thesis
    using m candidates_iff [of "lm_counts m" _ c] by (intro exI [of _ m] exI [of _ w']) (simp add: caught_up_def)
qed

definition sample_rounds :: "(login_time \<times> u8 list) list" where
  "sample_rounds = [((120, 0), take 700 (concat sample_records)), ((150, 0), concat sample_records)]"

definition offline_api :: "unit ban_api" where
  "offline_api = \<lparr>ban_list = (\<lambda>_ _. Inl (Internal ''offline'')), ban_post = (\<lambda>_ w. (w, Inr ()))\<rparr>"

theorem ban_candidates_exact_witness:
  "\<exists>m w'. run_rounds ref_ipnet id 1 offline_api False
      (map (\<lambda>(now, b). (now, plain_file 9 b)) sample_rounds) (new_monitor sample_login_config) () = Some (m, w') \<and>
    (V4 0xCB007107, 2) \<in> set (candidates_of ref_ipnet sample_login_config {} (lm_counts m)) \<and>
    (V4 0xC6336409, 1) \<notin> set (candidates_of ref_ipnet sample_login_config {} (lm_counts m))"
proof -
  let ?c = sample_login_config
  have v: "validate_config ?c = Inr ()" by code_simp
  have p: "sorted_wrt prefix (map snd sample_rounds)" "sorted (map fst sample_rounds)" "sample_rounds \<noteq> []"
    by (simp_all add: sample_rounds_def take_is_prefix)
  have f: "\<forall>page w items total. ban_list offline_api page w = Inr (items, total) \<longrightarrow> total < (1 :: nat)"
    by (simp add: offline_api_def)
  have a: "attempts_of (snd (last sample_rounds)) = List.map_filter parse_record sample_records"
    using attempts_of_records [OF sample_records_length, of "[]"] by (simp add: sample_rounds_def utmp_record_size_def)
  have k: "round_cutoff ?c (fst (last sample_rounds)) = (50, 0)"
    by (simp add: round_cutoff_def sample_rounds_def sample_login_config_def)
  have l: "length (filter (\<lambda>t. (50, 0) \<le> t) (times_in (attempts_of (snd (last sample_rounds))) (V4 0xCB007107))) = 2"
    by (simp add: a sample_attempts times_in_def)
  have u: "\<not> is_trusted ref_ipnet (V4 0xCB007107) (mc_trusted_cidrs ?c)" "unat (bc_threshold (mc_ban ?c)) = 2" by code_simp+
  obtain m w' where m: "run_rounds ref_ipnet id 1 offline_api False
      (map (\<lambda>(now, b). (now, plain_file 9 b)) sample_rounds) (new_monitor ?c) () = Some (m, w')"
    and e: "\<forall>walked existing ip n. set walked = set (lm_counts m) \<longrightarrow>
      ((ip, n) \<in> set (candidates_of ref_ipnet ?c existing walked) \<longleftrightarrow>
         n = length (filter (\<lambda>t. round_cutoff ?c (fst (last sample_rounds)) \<le> t) (times_in (attempts_of (snd (last sample_rounds))) ip)) \<and>
         unat (bc_threshold (mc_ban ?c)) \<le> n \<and> \<not> is_trusted ref_ipnet ip (mc_trusted_cidrs ?c) \<and> ip_cidr ip \<notin> existing)"
    using ban_candidates_exact [OF v p(3) p(1) p(2) zero_less_one f] by blast
  have "(V4 0xCB007107, 2) \<in> set (candidates_of ref_ipnet ?c {} (lm_counts m))" using e u l by (simp add: k)
  moreover have "(V4 0xC6336409, 1) \<notin> set (candidates_of ref_ipnet ?c {} (lm_counts m))" using e u by simp
  ultimately show ?thesis using m by blast
qed

section \<open>Submitting\<close>

text \<open>C37: one candidate that is an address of a node (a failed login from the node itself is enough) makes the control plane
  refuse the batch it is in, so no other address of it is banned: with at most one chunk of candidates the round
  ends in an error and the store keeps no ban, round after round until that address leaves the window.\<close>

theorem node_ip_blocks_bans:
  assumes "ipnet_spec N" and "ae_net E = N" and "net_text_spec (ae_text E)"
    and "row \<in> set (db_nodes db)" "ndr_policy_name row = default_policy_name"
      "parse_node_interface_ips (ndr_interface_ips row) = Inr ips" "ip \<in> set ips"
    and "run_once N iter fuel (control_plane_bans E) False now file m db = Some (m', db', r)"
    and "list_temp_ban_cidrs fuel (control_plane_bans E) db = Some (Inr existing)"
    and "(ip, n) \<in> set (candidates_of N (lm_config m) existing (iter (lm_counts m')))"
    and "length (candidates_of N (lm_config m) existing (iter (lm_counts m'))) \<le> 500"
  shows "db' = db \<and> (\<exists>e. r = Inl e)"
proof (cases "read_attempts file (lm_cursor m)")
  case (Inl e)
  then show ?thesis using assms(8) by (auto simp: run_once_def collect_attempts_def)
next
  case (Inr ac)
  then obtain attempts cursor where a: "read_attempts file (lm_cursor m) = Inr (attempts, cursor)" by (cases ac) auto
  note m' = run_once_reads [OF a assms(8)]
  let ?cs = "candidates_of N (lm_config m) existing (iter (lm_counts m'))"
  let ?items = "map (ban_item_of (mc_ban (lm_config m))) ?cs"
  have ne: "?cs \<noteq> []" using assms(10) by auto
  then have ch: "chunks max_batch_items ?items = [?items]"
    using assms(11) by (intro chunks_short) (simp_all add: max_batch_items_def)
  have i: "ban_item_of (mc_ban (lm_config m)) (ip, n) \<in> set ?items" using assms(10) by simp
  have "\<exists>e. ban_post (control_plane_bans E) ?items db = (db, Inl e)"
    by (rule node_candidate_refuses_batch [OF _ assms(3-7) i]) (use assms(1,2) in \<open>simp_all add: ban_item_of_def\<close>)
  then obtain e where "create_temp_bans_batch (control_plane_bans E) ?items db = (db, Inl e)"
    by (auto simp: create_temp_bans_batch_def ch)
  then show ?thesis
    using assms(8,9) ne a m' by (auto simp: run_once_def collect_attempts_def Let_def)
qed

definition node_db :: firewall_db where
  "node_db = empty_db\<lparr>db_nodes :=
     [\<lparr>ndr_node_id = ''n1'', ndr_policy_name = default_policy_name, ndr_interface_name = ''eth0'', ndr_interface_ips = ''10.0.0.1'',
       ndr_last_seen_at = 0, ndr_last_applied_version = 0, ndr_status = ''ok'', ndr_error = None\<rparr>]\<rparr>"

definition sample_monitor :: login_monitor where
  "sample_monitor = (new_monitor sample_login_config)
     \<lparr>lm_counts := [(V4 0xCB007107, [(60, 0), (70, 0)]), (V4 0x0A000001, [(60, 0), (70, 0)])]\<rparr>"

theorem node_ip_blocks_bans_witness:
  "\<exists>m' e. run_once ref_ipnet id 1 (control_plane_bans sample_api) False (120, 0) (plain_file 9 []) sample_monitor node_db =
     Some (m', node_db, Inl e)"
proof -
  let ?api = "control_plane_bans sample_api"
  have ip: "join_with '','' (map show_ip [V4 0x0A000001]) = ''10.0.0.1''" by code_simp
  have p: "parse_node_interface_ips ''10.0.0.1'' = Inr [V4 0x0A000001]"
    using stored_ips_parse [of "[V4 0x0A000001]"] by (simp only: ip)
  have a: "ae_net sample_api = ref_ipnet" "net_text_spec (ae_text sample_api)"
    by (simp_all add: sample_api_def ref_text.net_text_spec_axioms)
  have l: "list_temp_ban_cidrs 1 ?api node_db = Some (Inr {})" by code_simp
  have r: "read_attempts (plain_file 9 []) (lm_cursor sample_monitor) = Inr ([], \<lparr>rc_inode = 9, rc_offset = 0\<rparr>)" by code_simp
  have c: "lm_config sample_monitor = sample_login_config" by (simp add: sample_monitor_def new_monitor_def)
  obtain m' db' res where o: "run_once ref_ipnet id 1 ?api False (120, 0) (plain_file 9 []) sample_monitor node_db = Some (m', db', res)"
    using r l by (fastforce simp: run_once_def collect_attempts_def Let_def split: prod.split sum.split)
  have m: "lm_counts m' = lm_counts sample_monitor"
    unfolding run_once_reads [OF r o] by code_simp
  have cs: "candidates_of ref_ipnet (lm_config sample_monitor) {} (id (lm_counts m')) = [(V4 0xCB007107, 2), (V4 0x0A000001, 2)]"
    unfolding m by code_simp
  have row: "hd (db_nodes node_db) \<in> set (db_nodes node_db)" "ndr_policy_name (hd (db_nodes node_db)) = default_policy_name"
    "parse_node_interface_ips (ndr_interface_ips (hd (db_nodes node_db))) = Inr [V4 0x0A000001]"
    by (simp_all add: node_db_def p)
  have "db' = node_db \<and> (\<exists>e. res = Inl e)"
    by (rule node_ip_blocks_bans [OF ref_net.ipnet_spec_axioms a row _ o l, of "V4 0x0A000001" 2]) (simp_all only: cs, simp_all)
  then show ?thesis using o by auto
qed

end
