(* ===== verification/Drop_Decode.thy ===== *)
theory Drop_Decode
  imports Drop_Reports Xdp_Netlink Xdp_Handle
begin

text \<open>
  A drop on its way to the control plane: the event the kernel program writes (\<^verbatim>\<open>struct drop_event\<close> of
  \<^verbatim>\<open>bpf/xdp_firewall.c\<close>, in memory order on a little-endian host), what the agent reads from it
  (\<^verbatim>\<open>agent/monitor/drop_events/event.rs\<close>) and the message it sends (\<^verbatim>\<open>xds/client/drop_events.rs\<close>). The time the
  agent prints is an argument.
\<close>

section \<open>The event in memory\<close>

definition u64_mem :: "u64 \<Rightarrow> u8 list" where
  "u64_mem v = u32_mem (ucast v) @ u32_mem (ucast (drop_bit 32 v))"

definition drop_event_mem :: "u64 \<Rightarrow> drop_event \<Rightarrow> u8 list" where
  "drop_event_mem time_ns e =
     u64_mem time_ns @ u32_mem (de_reason e) @ [de_family e, de_proto e] @ u16_mem (de_dport e) @ de_addr e @
     u16_mem (de_country e) @ [de_action e, de_source e] @ [0, 0, 0, 0]"

section \<open>Reading it\<close>

record drop_event_line =
  dl_time :: string
  dl_event_time_ns :: u64
  dl_cpu :: u32
  dl_reason :: string
  dl_src :: ipaddr
  dl_family :: u8
  dl_proto :: string
  dl_dport :: u16
  dl_country :: "string option"
  dl_action :: string

definition reason_label :: "u32 \<Rightarrow> u8 \<Rightarrow> string" where
  "reason_label reason source =
     (if reason = STAT_RULE_DROP \<and> source = 2 then ''threat_intel''
      else if reason = STAT_RULE_DROP then ''firewall_rule''
      else if reason = STAT_GEO_DROP then ''country''
      else if reason = STAT_TEMP_BAN_DROP then ''temporary_ban''
      else if reason = STAT_RATE_DROP then ''dynamic_defense.ip_rate_limit''
      else if reason = STAT_FLOOD_DROP then ''dynamic_defense.flood''
      else if reason = STAT_CUSTOM_RATE_DROP then ''dynamic_defense.custom_rate_limit''
      else if reason = STAT_PARSE_DROP then ''parse_error''
      else ''unknown'')"

definition proto_label :: "u8 \<Rightarrow> string" where
  "proto_label proto =
     (if proto = 0 then ''any'' else if proto = 1 then ''icmp'' else if proto = 6 then ''tcp''
      else if proto = 17 then ''udp'' else ''other'')"

definition action_label :: "u8 \<Rightarrow> string" where
  "action_label action = (if action = 1 then ''allow'' else if action = 2 then ''deny'' else ''unknown'')"

text \<open>Zero stands for no country, and a value that is no code is none either.\<close>

definition event_country :: "u16 \<Rightarrow> string option" where
  "event_country country =
     (if country = 0 then None else (case decode_country country of Inl _ \<Rightarrow> None | Inr c \<Rightarrow> Some c))"

definition parse_drop_event :: "string \<Rightarrow> u32 \<Rightarrow> u8 list \<Rightarrow> drop_event_line option" where
  "parse_drop_event now cpu bytes =
     (if length bytes < 36 then None
      else
        let event_time_ns = mem_word (take 8 bytes);
            reason = mem_word (take 4 (drop 8 bytes));
            family = bytes ! 12;
            proto = bytes ! 13;
            dport = push_bit 8 (ucast (bytes ! 14)) OR ucast (bytes ! 15);
            addr = take 16 (drop 16 bytes);
            country = mem_word (take 2 (drop 32 bytes));
            action = bytes ! 34;
            source = bytes ! 35
        in if family \<noteq> 4 \<and> family \<noteq> 6 then None
           else Some \<lparr>dl_time = now, dl_event_time_ns = event_time_ns, dl_cpu = cpu, dl_reason = reason_label reason source,
                  dl_src = (if family = 4 then V4 (word_of_bytes (take 4 addr)) else V6 (word_of_bytes addr)),
                  dl_family = family, dl_proto = proto_label proto, dl_dport = dport, dl_country = event_country country,
                  dl_action = action_label action\<rparr>)"

definition to_line :: "drop_event_line \<Rightarrow> string" where
  "to_line l =
     ''time='' @ dl_time l @ '' event_time_ns='' @ dec_nat (unat (dl_event_time_ns l)) @ '' cpu='' @ dec_nat (unat (dl_cpu l)) @
     '' reason='' @ dl_reason l @ '' src='' @ show_ip (dl_src l) @ '' family='' @ dec_nat (unat (dl_family l)) @
     '' proto='' @ dl_proto l @ '' dport='' @ dec_nat (unat (dl_dport l)) @ '' country='' @ unwrap_or ''-'' (dl_country l) @
     '' action='' @ dl_action l"

definition drop_event_message :: "string \<Rightarrow> string \<Rightarrow> drop_event_line \<Rightarrow> reported_drop" where
  "drop_event_message node_id interface_name l =
     \<lparr>rd_node_id = node_id, rd_interface_name = interface_name, rd_time = dl_time l, rd_event_time_ns = dl_event_time_ns l,
      rd_cpu = dl_cpu l, rd_reason = dl_reason l, rd_src = show_ip (dl_src l), rd_family = ucast (dl_family l),
      rd_proto = dl_proto l, rd_dport = ucast (dl_dport l), rd_country = unwrap_or [] (dl_country l), rd_action = dl_action l\<rparr>"

section \<open>The reader\<close>

text \<open>What a perf buffer holds for one CPU, a sample in one or two pieces, and the channel behind it: a full
  channel drops the line (\<^verbatim>\<open>drop_events/linux.rs\<close>).\<close>

datatype perf_event = PerfSample "u8 list" "u8 list" | PerfLost u64

definition drop_channel_size :: nat where "drop_channel_size = 1024"

definition try_send :: "'a \<Rightarrow> 'a list \<Rightarrow> 'a list" where
  "try_send x queue = (if length queue < drop_channel_size then queue @ [x] else queue)"

fun drain_buffer :: "string \<Rightarrow> u32 \<Rightarrow> perf_event list \<Rightarrow> drop_event_line list \<Rightarrow> drop_event_line list" where
  "drain_buffer now cpu [] queue = queue"
| "drain_buffer now cpu (PerfSample head tail # events) queue =
     (case parse_drop_event now cpu (head @ tail) of
        Some line \<Rightarrow> drain_buffer now cpu events (try_send line queue)
      | None \<Rightarrow> drain_buffer now cpu events queue)"
| "drain_buffer now cpu (PerfLost n # events) queue = drain_buffer now cpu events queue"

text \<open>One turn over the buffers of all CPUs.\<close>

definition poll_drop_event_buffers ::
    "string \<Rightarrow> (u32 \<times> perf_event list) list \<Rightarrow> drop_event_line list \<Rightarrow> drop_event_line list" where
  "poll_drop_event_buffers now buffers queue = fold (\<lambda>(cpu, events). drain_buffer now cpu events) buffers queue"

fun buffer_lines :: "string \<Rightarrow> u32 \<Rightarrow> perf_event list \<Rightarrow> drop_event_line list" where
  "buffer_lines now cpu [] = []"
| "buffer_lines now cpu (PerfSample head tail # events) =
     (case parse_drop_event now cpu (head @ tail) of Some line \<Rightarrow> [line] | None \<Rightarrow> []) @ buffer_lines now cpu events"
| "buffer_lines now cpu (PerfLost n # events) = buffer_lines now cpu events"

lemma drain_buffer_queue: "drain_buffer now cpu events queue = take (max (length queue) drop_channel_size) (queue @ buffer_lines now cpu events)"
proof (induction now cpu events queue rule: drain_buffer.induct)
  case (2 now cpu head tail events queue)
  show ?case
  proof (cases "parse_drop_event now cpu (head @ tail)")
    case (Some line)
    then show ?thesis using 2 by (cases "length queue < drop_channel_size") (auto simp: try_send_def max_def)
  qed (use 2 in simp)
qed simp_all

lemma take_take_append: "take n (take n xs @ ys) = take n (xs @ ys)"
  by (cases "length xs \<le> n") simp_all

lemma poll_buffers_queue:
  "length queue \<le> drop_channel_size \<Longrightarrow>
     poll_drop_event_buffers now buffers queue =
       take drop_channel_size (queue @ concat (map (\<lambda>(cpu, events). buffer_lines now cpu events) buffers))"
proof (induction buffers arbitrary: queue)
  case (Cons b buffers)
  obtain cpu events where b: "b = (cpu, events)" by (cases b)
  let ?q = "take drop_channel_size (queue @ buffer_lines now cpu events)"
  have "drain_buffer now cpu events queue = ?q"
    using Cons.prems by (simp add: drain_buffer_queue max_absorb2)
  then have "poll_drop_event_buffers now (b # buffers) queue = poll_drop_event_buffers now buffers ?q"
    by (simp add: poll_drop_event_buffers_def b)
  also have "\<dots> = take drop_channel_size (?q @ concat (map (\<lambda>(cpu, events). buffer_lines now cpu events) buffers))"
    using Cons.prems by (intro Cons.IH) simp
  also have "\<dots> = take drop_channel_size ((queue @ buffer_lines now cpu events) @ concat (map (\<lambda>(cpu, events). buffer_lines now cpu events) buffers))"
    by (rule take_take_append)
  finally show ?case by (simp add: b)
qed (simp add: poll_drop_event_buffers_def)

section \<open>What is read is what was written\<close>

lemma length_u64_mem [simp]: "length (u64_mem v) = 8"
  by (simp add: u64_mem_def)

lemma mem_word_append:
  "(mem_word (a @ b) :: 'a::len word) = mem_word a OR push_bit (8 * length a) (mem_word b)"
  by (induction a) (simp_all add: push_bit_or or.assoc ac_simps)

lemma mem_word_u32_wide: "(mem_word (u32_mem v) :: u64) = ucast v"
proof (rule bit_word_eqI)
  fix n
  assume n: "n < LENGTH(64)"
  consider "n < 8" | "8 \<le> n" "n < 16" | "16 \<le> n" "n < 24" | "24 \<le> n" "n < 32" | "32 \<le> n" by linarith
  then show "bit (mem_word (u32_mem v) :: u64) n = bit (ucast v :: u64) n"
    using n by cases (auto simp: u32_mem_def bit_simps dest: bit_imp_le_length)
qed

lemma mem_word_u64_mem [simp]: "mem_word (u64_mem v) = (v :: u64)"
proof -
  have "mem_word (u64_mem v) = (ucast (ucast v :: u32) OR push_bit 32 (ucast (ucast (drop_bit 32 v) :: u32)) :: u64)"
    by (simp add: u64_mem_def mem_word_append mem_word_u32_wide)
  also have "\<dots> = v"
  proof (rule bit_word_eqI)
    fix n
    assume n: "n < LENGTH(64)"
    show "bit (ucast (ucast v :: u32) OR push_bit 32 (ucast (ucast (drop_bit 32 v) :: u32)) :: u64) n = bit v n"
      using n by (cases "n < 32") (auto simp: bit_simps)
  qed
  finally show ?thesis .
qed

lemma u16_mem_swapped: "push_bit 8 (ucast (u16_mem v ! 0)) OR ucast (u16_mem v ! 1) = from_be v"
  by (rule bit_word_eqI) (auto simp: u16_mem_def to_be_def bit_simps dest: bit_imp_le_length)

lemma parse_drop_event_mem:
  assumes "length (de_addr e) = 16" and "de_family e = 4 \<or> de_family e = 6"
  shows "parse_drop_event now cpu (drop_event_mem t e @ tail) =
    Some \<lparr>dl_time = now, dl_event_time_ns = t, dl_cpu = cpu, dl_reason = reason_label (de_reason e) (de_source e),
      dl_src = map_addr (de_family e) (de_addr e), dl_family = de_family e, dl_proto = proto_label (de_proto e),
      dl_dport = from_be (de_dport e), dl_country = event_country (de_country e), dl_action = action_label (de_action e)\<rparr>"
proof -
  let ?b = "drop_event_mem t e @ tail"
  let ?p1 = "u64_mem t @ u32_mem (de_reason e) @ [de_family e, de_proto e]"
  let ?p2 = "?p1 @ u16_mem (de_dport e) @ de_addr e"
  have b: "?b = ?p2 @ u16_mem (de_country e) @ [de_action e, de_source e] @ [0, 0, 0, 0] @ tail"
    by (simp add: drop_event_mem_def)
  have l2: "length ?p2 = 32" and l1: "length ?p1 = 14" using assms(1) by simp_all
  have n: "take 8 ?b = u64_mem t" "take 4 (drop 8 ?b) = u32_mem (de_reason e)"
    by (simp_all add: drop_event_mem_def)
  have i: "?b ! 12 = de_family e" "?b ! 13 = de_proto e" "?b ! 14 = u16_mem (de_dport e) ! 0" "?b ! 15 = u16_mem (de_dport e) ! 1"
    by (simp_all add: drop_event_mem_def nth_append u16_mem_def)
  have a: "take 16 (drop 16 ?b) = de_addr e" using assms(1) by (simp add: drop_event_mem_def u16_mem_def)
  have c: "take 2 (drop 32 ?b) = u16_mem (de_country e)" unfolding b using l2 by simp
  have j: "?b ! 34 = de_action e" "?b ! 35 = de_source e" unfolding b using l2 by (simp_all add: nth_append u16_mem_def)
  have "36 \<le> length ?b" using assms(1) by (simp add: drop_event_mem_def)
  then show ?thesis
    using assms(2) unfolding parse_drop_event_def Let_def n i a c j
    by (auto simp: u16_mem_swapped [simplified] map_addr_def)
qed

section \<open>From the packet to the report\<close>

definition events_of_family :: "u8 \<Rightarrow> prog_state \<Rightarrow> prog_state \<Rightarrow> bool" where
  "events_of_family f s s' \<longleftrightarrow> (\<exists>es. pg_events s' = pg_events s @ es \<and> (\<forall>e\<in>set es. de_family e = f))"

lemma events_of_family_pass: "pg_events s1 = pg_events s \<Longrightarrow> events_of_family f s (incr_stat i s1)"
  by (simp add: events_of_family_def incr_stat_def)

lemma events_of_family_drop:
  "pg_events s1 = pg_events s \<Longrightarrow> events_of_family f s (emit_drop_event m i f proto dport addr country action source (incr_stat i s1))"
  by (simp add: events_of_family_def emit_drop_event_def incr_stat_def)

lemma handle_packet_family: "events_of_family f s (fst (handle_packet B m f proto dport src s))"
  unfolding handle_packet_def
  by (auto simp: Let_def events_of_family_pass events_of_family_drop dynamic_defense_keeps split: option.split)

definition packet_family :: "u8 list \<Rightarrow> u8" where
  "packet_family pkt = (if pkt ! 12 = 0x08 then 4 else 6)"

lemma xdp_firewall_family: "events_of_family (packet_family pkt) s (fst (xdp_firewall B m pkt s))"
  unfolding xdp_firewall_def packet_family_def
  by (auto simp: Let_def handle_packet_family events_of_family_drop events_of_family_def [of _ s s]
      split: option.split prod.split)

definition packet_address :: "u8 list \<Rightarrow> ipaddr" where
  "packet_address pkt = map_addr (packet_family pkt) (packet_source pkt)"

lemma length_packet_source: "ip_packet pkt \<Longrightarrow> length (packet_source pkt) = 16"
  by (auto simp: ip_packet_def packet_source_def copy_addr4_def copy_addr6_def)

definition drop_counters :: "u32 set" where
  "drop_counters =
     {STAT_RULE_DROP, STAT_GEO_DROP, STAT_RATE_DROP, STAT_FLOOD_DROP, STAT_CUSTOM_RATE_DROP, STAT_PARSE_DROP, STAT_TEMP_BAN_DROP}"

lemma drop_counters_iff:
  assumes "unat i < 8"
  shows "i \<in> drop_counters \<longleftrightarrow> i \<noteq> STAT_PASS"
proof -
  have "i \<in> word_of_nat ` {0..<8}" using assms by (intro image_eqI [of _ _ "unat i"]) simp_all
  also have "{0..<8 :: nat} = {0, 1, 2, 3, 4, 5, 6, 7}" by auto
  finally have "i \<in> {0, 1, 2, 3, 4, 5, 6, 7}" by simp
  then show ?thesis by (auto simp: drop_counters_def stat_consts)
qed

lemma reason_known: "reason \<in> drop_counters \<Longrightarrow> reason_label reason source \<noteq> ''unknown''"
  by (auto simp: drop_counters_def reason_label_def)

lemma dropped_event:
  assumes "ip_packet pkt" and "xm_drop_config m \<noteq> 0" and "snd (xdp_firewall B m pkt s) = XdpDrop"
  shows "\<exists>e. pg_events (fst (xdp_firewall B m pkt s)) = pg_events s @ [e] \<and> de_reason e \<in> drop_counters \<and>
    pg_stats (fst (xdp_firewall B m pkt s)) = (pg_stats s)(de_reason e := pg_stats s (de_reason e) + 1) \<and>
    parse_drop_event now cpu (drop_event_mem t e @ tail) =
      Some \<lparr>dl_time = now, dl_event_time_ns = t, dl_cpu = cpu, dl_reason = reason_label (de_reason e) (de_source e),
        dl_src = packet_address pkt, dl_family = packet_family pkt, dl_proto = proto_label (de_proto e),
        dl_dport = from_be (de_dport e), dl_country = event_country (de_country e), dl_action = action_label (de_action e)\<rparr>"
proof -
  obtain i where i: "unat i < 8" and "counted m (packet_source pkt) s (fst (xdp_firewall B m pkt s)) i" "i \<noteq> STAT_PASS"
    using xdp_firewall_counts [OF assms(1), of m s B] assms(3) by (auto simp: one_verdict_def)
  then obtain e where e: "pg_events (fst (xdp_firewall B m pkt s)) = pg_events s @ [e]" "de_reason e = i" "de_addr e = packet_source pkt"
    "pg_stats (fst (xdp_firewall B m pkt s)) = (pg_stats s)(i := pg_stats s i + 1)"
    using assms(2) by (auto simp: counted_def)
  have f: "de_family e = packet_family pkt"
    using xdp_firewall_family [of pkt s B m] e(1) by (auto simp: events_of_family_def)
  then have "de_family e = 4 \<or> de_family e = 6" by (simp add: packet_family_def)
  then show ?thesis
    using e f drop_counters_iff [OF i] \<open>i \<noteq> STAT_PASS\<close> parse_drop_event_mem [of e now cpu t tail] length_packet_source [OF assms(1)]
    by (intro exI [of _ e]) (simp add: packet_address_def)
qed

end
