(* ===== verification/Drop_Claims.thy ===== *)
theory Drop_Claims
  imports Drop_Decode Sample_Policy
begin

text \<open>The property of the reports of drops: what the control plane shows is the packet the kernel program dropped.\<close>

text \<open>C38: a drop is reported as what it was: with monitoring on, a dropped IP packet increments one counter and adds one
  event, and its bytes, in one piece or cut at any place by the ring buffer, become one line with the packet's
  source address and the label of that counter (never \<^verbatim>\<open>unknown\<close>); the message sent to the control plane
  and the view made of it carry an address text that reads back as that source, the same label and the node.\<close>

theorem drop_report_names_source:
  assumes "ip_packet pkt" and "xm_drop_config m \<noteq> 0" and "snd (xdp_firewall B m pkt s) = XdpDrop"
  shows "\<exists>e line.
    pg_events (fst (xdp_firewall B m pkt s)) = pg_events s @ [e] \<and>
    pg_stats (fst (xdp_firewall B m pkt s)) = (pg_stats s)(de_reason e := pg_stats s (de_reason e) + 1) \<and>
    poll_drop_event_buffers now [(cpu, [PerfSample (take k (drop_event_mem t e)) (drop k (drop_event_mem t e))])] [] = [line] \<and>
    dl_src line = packet_address pkt \<and> dl_reason line = reason_label (de_reason e) (de_source e) \<and> dl_reason line \<noteq> ''unknown'' \<and>
    (let v = snd (snd (build_drop_event_view G reader M inst version (drop_event_message node interface line) lookups)) in
      parse_ip (dv_src v) = Some (packet_address pkt) \<and> dv_reason v = dl_reason line \<and> dv_node_id v = node)"
proof -
  obtain e where e: "pg_events (fst (xdp_firewall B m pkt s)) = pg_events s @ [e]" "de_reason e \<in> drop_counters"
    "pg_stats (fst (xdp_firewall B m pkt s)) = (pg_stats s)(de_reason e := pg_stats s (de_reason e) + 1)"
    "parse_drop_event now cpu (drop_event_mem t e @ []) =
      Some \<lparr>dl_time = now, dl_event_time_ns = t, dl_cpu = cpu, dl_reason = reason_label (de_reason e) (de_source e),
        dl_src = packet_address pkt, dl_family = packet_family pkt, dl_proto = proto_label (de_proto e),
        dl_dport = from_be (de_dport e), dl_country = event_country (de_country e), dl_action = action_label (de_action e)\<rparr>"
      (is "_ = Some ?line")
    using dropped_event [OF assms, of now cpu t "[]"] by blast
  have "poll_drop_event_buffers now [(cpu, [PerfSample (take k (drop_event_mem t e)) (drop k (drop_event_mem t e))])] [] = [?line]"
    using e(4) by (simp add: poll_buffers_queue drop_channel_size_def)
  moreover have "let v = snd (snd (build_drop_event_view G reader M inst version (drop_event_message node interface ?line) lookups)) in
      parse_ip (dv_src v) = Some (packet_address pkt) \<and> dv_reason v = dl_reason ?line \<and> dv_node_id v = node"
    by (simp add: build_drop_event_view_def drop_event_message_def parse_show_ip Let_def split_beta)
  ultimately show ?thesis
    using e(1,3) reason_known [OF e(2)] by (intro exI [of _ e] exI [of _ ?line]) simp
qed

definition sample_dropped :: "u8 list" where
  "sample_dropped = replicate 12 0 @ [0x08, 0x00] @ replicate 12 0 @ [203, 0, 113, 7] @ replicate 4 0"

theorem drop_report_names_source_witness:
  "\<exists>e line. pg_events (fst (xdp_firewall (ref_bpf 0) sample_manager sample_dropped idle_state)) = [e] \<and>
     poll_drop_event_buffers ''now'' [(3, [PerfSample (take 7 (drop_event_mem 5 e)) (drop 7 (drop_event_mem 5 e))])] [] = [line] \<and>
     dl_src line = V4 0xCB007107"
proof -
  have p: "ip_packet sample_dropped" by (simp add: ip_packet_def sample_dropped_def nth_append)
  have d: "snd (xdp_firewall (ref_bpf 0) sample_manager sample_dropped idle_state) = XdpDrop" by code_simp
  have c: "xm_drop_config sample_manager \<noteq> 0" by code_simp
  have a: "packet_address sample_dropped = V4 0xCB007107" by code_simp
  have i: "pg_events idle_state = []" by (simp add: idle_state_def)
  show ?thesis
    using drop_report_names_source [OF p c d, where now = "''now''" and cpu = 3 and k = 7 and t = 5] by (simp only: a i append_Nil) blast
qed

end
