(* ===== verification/K8s_Discovery.thy ===== *)
theory K8s_Discovery
  imports Xds_State
begin

text \<open>
  Kubernetes discovery (\<^verbatim>\<open>control_plane/k8s\<close>, \<^verbatim>\<open>xds/runtime_cidrs/k8s_discovery/watch.rs\<close>): which networks of a cluster
  become runtime trusted CIDRs, and the watch that notices changes. The answers of the Kubernetes API and the JSON
  parser of watch events are parameters; a cluster over time is a function from its version to what discovery
  would find.
\<close>

section \<open>Objects\<close>

text \<open>The optional levels are those of the Kubernetes types: a status without addresses, a spec without CIDRs.\<close>

record kube_node_spec =
  kns_pod_cidrs :: "string list option"
  kns_pod_cidr :: "string option"

record kube_node =
  kno_addresses :: "(string \<times> string) list option option"
  kno_spec :: "kube_node_spec option"

record kube_service_spec =
  kss_cluster_ips :: "string list option"
  kss_cluster_ip :: "string option"

type_synonym kube_service = "kube_service_spec option"
type_synonym kube_service_cidr = "string list option option"

datatype 'a kube_answer = Listed 'a | NotFoundAnswer | ForbiddenAnswer | CallFailed fw_error

record kube_api =
  ka_nodes :: "kube_node list kube_answer"
  ka_service_cidrs :: "kube_service_cidr list kube_answer"
  ka_services :: "kube_service list kube_answer"

section \<open>The client\<close>

definition forbidden_error :: fw_error where
  "forbidden_error = Internal ''Kubernetes API returned forbidden''"

definition get_list_optional :: "'a kube_answer \<Rightarrow> 'a option res" where
  "get_list_optional answer =
     (case answer of
        Listed x \<Rightarrow> Inr (Some x)
      | NotFoundAnswer \<Rightarrow> Inr None
      | ForbiddenAnswer \<Rightarrow> Inl forbidden_error
      | CallFailed e \<Rightarrow> Inl e)"

definition get_list :: "'a kube_answer \<Rightarrow> 'a res" where
  "get_list answer =
     bindE (get_list_optional answer) (\<lambda>x. ok_or (Internal ''Kubernetes API path was not found'') x)"

definition is_forbidden_error :: "fw_error \<Rightarrow> bool" where
  "is_forbidden_error e \<longleftrightarrow> e = forbidden_error"

section \<open>Networks\<close>

text \<open>The list that is built and the set of what it holds.\<close>

type_synonym found_nets = "ipnet list \<times> ipnet set"

definition ip_to_host_cidr :: "ipnet_lib \<Rightarrow> string \<Rightarrow> ipnet option res" where
  "ip_to_host_cidr N v =
     (if v = [] \<or> to_upper v = ''NONE'' then Inr None
      else bindE (ok_or (InvalidIp v) (parse_ip v)) (\<lambda>ip.
           mapE Some (ok_or (Internal ''prefix length'') (net_new N ip (if is_ipv4 ip then 32 else 128)))))"

definition insert_unique :: "ipnet \<Rightarrow> found_nets \<Rightarrow> found_nets \<times> bool" where
  "insert_unique cidr s =
     (if cidr \<in> snd s then (s, False) else ((fst s @ [cidr], insert cidr (snd s)), True))"

definition insert_counted :: "ipnet \<Rightarrow> found_nets \<Rightarrow> found_nets \<times> nat" where
  "insert_counted cidr s = (let (s, new) = insert_unique cidr s in (s, if new then 1 else 0))"

text \<open>A loop that adds up what its body added.\<close>

fun count_each :: "('a \<Rightarrow> found_nets \<Rightarrow> (found_nets \<times> nat) res) \<Rightarrow> 'a list \<Rightarrow> found_nets \<Rightarrow> (found_nets \<times> nat) res" where
  "count_each f [] s = Inr (s, 0)"
| "count_each f (x # xs) s =
     bindE (f x s) (\<lambda>(s, n). mapE (\<lambda>(s, k). (s, n + k)) (count_each f xs s))"

definition add_host :: "ipnet_lib \<Rightarrow> string \<Rightarrow> found_nets \<Rightarrow> (found_nets \<times> nat) res" where
  "add_host N v s =
     mapE (\<lambda>c. case c of None \<Rightarrow> (s, 0) | Some cidr \<Rightarrow> insert_counted cidr s) (ip_to_host_cidr N v)"

definition add_node_addresses :: "ipnet_lib \<Rightarrow> kube_node \<Rightarrow> found_nets \<Rightarrow> (found_nets \<times> nat) res" where
  "add_node_addresses N node s =
     (case kno_addresses node of
        Some (Some addresses) \<Rightarrow>
          count_each (\<lambda>(kind, address) s.
            if kind = ''InternalIP'' \<or> kind = ''ExternalIP'' then add_host N address s else Inr (s, 0)) addresses s
      | _ \<Rightarrow> Inr (s, 0))"

definition insert_cidr :: "net_text \<Rightarrow> string \<Rightarrow> found_nets \<Rightarrow> (found_nets \<times> nat) res" where
  "insert_cidr T v s = mapE (\<lambda>cidr. insert_counted cidr s) (parse_cidr T v)"

definition add_node_pod_cidrs :: "net_text \<Rightarrow> kube_node \<Rightarrow> found_nets \<Rightarrow> (found_nets \<times> nat) res" where
  "add_node_pod_cidrs T node s =
     (case kno_spec node of
        None \<Rightarrow> Inr (s, 0)
      | Some spec \<Rightarrow>
          (let values = unwrap_or [] (kns_pod_cidrs spec) in
           bindE (count_each (insert_cidr T) values s) (\<lambda>(s, n).
             if values \<noteq> [] then Inr (s, n)
             else (case kns_pod_cidr spec of
                     None \<Rightarrow> Inr (s, n)
                   | Some v \<Rightarrow> mapE (\<lambda>(s, k). (s, n + k)) (insert_cidr T v s)))))"

fun add_node_runtime_cidrs :: "ipnet_lib \<Rightarrow> net_text \<Rightarrow> kube_node list \<Rightarrow> found_nets \<Rightarrow> (found_nets \<times> nat \<times> nat) res" where
  "add_node_runtime_cidrs N T [] s = Inr (s, 0, 0)"
| "add_node_runtime_cidrs N T (node # nodes) s =
     bindE (add_node_addresses N node s) (\<lambda>(s, ips).
     bindE (add_node_pod_cidrs T node s) (\<lambda>(s, pods).
     mapE (\<lambda>(s, i, p). (s, ips + i, pods + p)) (add_node_runtime_cidrs N T nodes s)))"

definition add_service_cidrs :: "net_text \<Rightarrow> kube_service_cidr list \<Rightarrow> found_nets \<Rightarrow> (found_nets \<times> nat) res" where
  "add_service_cidrs T =
     count_each (\<lambda>service s. case service of Some (Some values) \<Rightarrow> count_each (insert_cidr T) values s | _ \<Rightarrow> Inr (s, 0))"

definition add_service :: "ipnet_lib \<Rightarrow> kube_service \<Rightarrow> found_nets \<Rightarrow> (found_nets \<times> nat) res" where
  "add_service N service s =
     (case service of
        None \<Rightarrow> Inr (s, 0)
      | Some spec \<Rightarrow>
          bindE (count_each (add_host N) (unwrap_or [] (kss_cluster_ips spec)) s) (\<lambda>(s, n).
          mapE (\<lambda>(s, k). (s, n + k)) (case kss_cluster_ip spec of None \<Rightarrow> Inr (s, 0) | Some v \<Rightarrow> add_host N v s)))"

definition add_service_cluster_ips :: "ipnet_lib \<Rightarrow> kube_service list \<Rightarrow> found_nets \<Rightarrow> (found_nets \<times> nat) res" where
  "add_service_cluster_ips N = count_each (add_service N)"

section \<open>Discovery\<close>

record kube_runtime_cidrs =
  kr_cidrs :: "ipnet list"
  kr_node_ips :: nat
  kr_pod_cidrs :: nat
  kr_service_cidrs :: nat
  kr_service_cidr_partial :: bool

definition discover_service_cluster_ips :: "ipnet_lib \<Rightarrow> kube_api \<Rightarrow> found_nets \<Rightarrow> (found_nets \<times> nat \<times> bool) res" where
  "discover_service_cluster_ips N api s =
     bindE (get_list (ka_services api)) (\<lambda>services.
       mapE (\<lambda>(s, n). (s, n, True)) (add_service_cluster_ips N services s))"

definition discover_service_cidrs :: "ipnet_lib \<Rightarrow> net_text \<Rightarrow> kube_api \<Rightarrow> found_nets \<Rightarrow> (found_nets \<times> nat \<times> bool) res" where
  "discover_service_cidrs N T api s =
     (case get_list_optional (ka_service_cidrs api) of
        Inr (Some services) \<Rightarrow> mapE (\<lambda>(s, n). (s, n, False)) (add_service_cidrs T services s)
      | Inr None \<Rightarrow> discover_service_cluster_ips N api s
      | Inl e \<Rightarrow> if is_forbidden_error e then discover_service_cluster_ips N api s else Inl e)"

definition discover :: "ipnet_lib \<Rightarrow> net_text \<Rightarrow> kube_api \<Rightarrow> kube_runtime_cidrs res" where
  "discover N T api =
     bindE (get_list (ka_nodes api)) (\<lambda>nodes.
     bindE (add_node_runtime_cidrs N T nodes ([], {})) (\<lambda>(s, ips, pods).
     mapE (\<lambda>(s, n, partial). \<lparr>kr_cidrs = fst s, kr_node_ips = ips, kr_pod_cidrs = pods, kr_service_cidrs = n,
            kr_service_cidr_partial = partial\<rparr>) (discover_service_cidrs N T api s)))"

text \<open>What the cache of \<open>Xds_State\<close> takes from an answer.\<close>

definition discovered :: "ipnet_lib \<Rightarrow> net_text \<Rightarrow> kube_api \<Rightarrow> (ipnet list \<times> bool) res" where
  "discovered N T api = mapE (\<lambda>k. (kr_cidrs k, kr_service_cidr_partial k)) (discover N T api)"

section \<open>Configuration\<close>

record k8s_args =
  k8s_discovery :: bool
  k8s_api_server :: "string option"

record k8s_env =
  ke_host :: "string option"
  ke_port_https :: "string option"
  ke_port :: "string option"

definition default_api_server :: "k8s_env \<Rightarrow> string option" where
  "default_api_server v =
     map_option (\<lambda>host. ''https://'' @ host @ '':'' @ unwrap_or (unwrap_or ''443'' (ke_port v)) (ke_port_https v)) (ke_host v)"

definition service_account_token :: "string option \<Rightarrow> string res" where
  "service_account_token file =
     bindE (ok_or (Internal ''failed to read Kubernetes token'') file) (\<lambda>text.
       if trim text = [] then Inl (MustBeSet ''Kubernetes service account token'') else Inr (trim text))"

text \<open>The server and the token of the client; \<open>client\<close> tells whether it can be built.\<close>

definition discovery_from_args :: "k8s_args \<Rightarrow> k8s_env \<Rightarrow> string option \<Rightarrow> unit res \<Rightarrow> (string \<times> string) option res" where
  "discovery_from_args args v token_file client =
     (if \<not> k8s_discovery args then Inr None
      else
        bindE (ok_or (MustBeSet ''Kubernetes API server'')
                 (case k8s_api_server args of Some s \<Rightarrow> Some s | None \<Rightarrow> default_api_server v)) (\<lambda>server.
        bindE (service_account_token token_file) (\<lambda>token.
        mapE (\<lambda>_. Some (rev (dropWhile (\<lambda>c. c = CHR ''/'') (rev server)), token)) client)))"

section \<open>The watch\<close>

datatype watch_outcome = Changed | Ended | Unsupported
datatype watch_event = AddedEvent | ModifiedEvent | DeletedEvent | BookmarkEvent | ErrorStatusEvent | ErrorOtherEvent

definition watch_line_changed :: "(u8 list \<Rightarrow> watch_event option) \<Rightarrow> u8 list \<Rightarrow> bool res" where
  "watch_line_changed J line =
     (if line = [] then Inr False
      else (case J line of
              None \<Rightarrow> Inl (Internal ''invalid event JSON'')
            | Some AddedEvent \<Rightarrow> Inr True
            | Some ModifiedEvent \<Rightarrow> Inr True
            | Some DeletedEvent \<Rightarrow> Inr True
            | Some BookmarkEvent \<Rightarrow> Inr False
            | Some ErrorStatusEvent \<Rightarrow> Inl (Internal ''ERROR event'')
            | Some ErrorOtherEvent \<Rightarrow> Inl (Internal ''non-Status ERROR event'')))"

definition trim_line :: "u8 list \<Rightarrow> u8 list" where
  "trim_line line = map char_byte (trim (map byte_char line))"

function drain_watch_lines :: "(u8 list \<Rightarrow> watch_event option) \<Rightarrow> u8 list \<Rightarrow> (bool \<times> u8 list) res" where
  "drain_watch_lines J pending =
     (if 10 \<notin> set pending then Inr (False, pending)
      else
        let line = takeWhile (\<lambda>b. b \<noteq> 10) pending;
            rest = drop (length line + 1) pending
        in bindE (watch_line_changed J (trim_line line)) (\<lambda>changed.
             if changed then Inr (True, rest) else drain_watch_lines J rest))"
  by pat_completeness auto
termination
  by (relation "measure (\<lambda>(J, pending). length pending)") (auto intro!: diff_less elim: length_pos_if_in_set)
declare drain_watch_lines.simps [simp del]

fun stream_watch_response ::
    "(u8 list \<Rightarrow> watch_event option) \<Rightarrow> u8 list res list \<Rightarrow> u8 list \<Rightarrow> watch_outcome res" where
  "stream_watch_response J [] pending =
     (if pending = [] then Inr Ended
      else mapE (\<lambda>changed. if changed then Changed else Ended) (watch_line_changed J (trim_line pending)))"
| "stream_watch_response J (Inl e # chunks) pending = Inl e"
| "stream_watch_response J (Inr chunk # chunks) pending =
     bindE (drain_watch_lines J (pending @ chunk)) (\<lambda>(changed, pending).
       if changed then Inr Changed else stream_watch_response J chunks pending)"

text \<open>The base list gives the version the watch starts from; \<open>open\<close> is the answer to the watch itself.\<close>

datatype watch_response = WatchUnavailable | WatchRefused fw_error | WatchStream "u8 list res list"

definition list_resource_version :: "string option kube_answer \<Rightarrow> string option res" where
  "list_resource_version base =
     mapE (\<lambda>answer. case answer of None \<Rightarrow> None | Some version \<Rightarrow> version) (get_list_optional base)"

definition watch_until_typed_change ::
    "(u8 list \<Rightarrow> watch_event option) \<Rightarrow> string option kube_answer \<Rightarrow> (string \<Rightarrow> watch_response res) \<Rightarrow> watch_outcome res" where
  "watch_until_typed_change J base open_watch =
     bindE (list_resource_version base) (\<lambda>version.
       case version of
         Some resource_version \<Rightarrow>
           bindE (open_watch resource_version) (\<lambda>response.
             case response of
               WatchUnavailable \<Rightarrow> Inr Unsupported
             | WatchRefused e \<Rightarrow> Inl e
             | WatchStream chunks \<Rightarrow> stream_watch_response J chunks [])
       | None \<Rightarrow> Inr Unsupported)"

definition k8s_watch_targets :: "bool \<Rightarrow> (string \<times> string) list" where
  "k8s_watch_targets watch_services =
     (if watch_services then [(''nodes'', ''/api/v1/nodes''), (''services'', ''/api/v1/services'')]
      else [(''nodes'', ''/api/v1/nodes''), (''servicecidrs'', ''/apis/networking.k8s.io/v1/servicecidrs'')])"

text \<open>The outcomes in the order they arrive, of as many watches as there are handles.\<close>

fun wait_for_watch_outcome :: "nat \<Rightarrow> nat \<Rightarrow> watch_outcome res list \<Rightarrow> bool res" where
  "wait_for_watch_outcome handles unsupported [] = Inl (Internal ''all Kubernetes watch streams ended without a change notification'')"
| "wait_for_watch_outcome handles unsupported (Inl e # rs) = Inl e"
| "wait_for_watch_outcome handles unsupported (Inr Changed # rs) = Inr True"
| "wait_for_watch_outcome handles unsupported (Inr Ended # rs) = Inr False"
| "wait_for_watch_outcome handles unsupported (Inr Unsupported # rs) =
     (if unsupported + 1 = handles then Inl (Internal ''all Kubernetes watch targets are unsupported'')
      else wait_for_watch_outcome handles (unsupported + 1) rs)"

definition wait_for_k8s_watch_change :: "bool \<Rightarrow> watch_outcome res list \<Rightarrow> bool res" where
  "wait_for_k8s_watch_change watch_services arrived =
     wait_for_watch_outcome (length (k8s_watch_targets watch_services)) 0 arrived"

section \<open>What discovery finds\<close>

text \<open>The networks the objects of a cluster name, as sets: addresses of nodes and services, and written networks.\<close>

definition host_nets :: "ipnet_lib \<Rightarrow> string \<Rightarrow> ipnet set" where
  "host_nets N v = {c. ip_to_host_cidr N v = Inr (Some c)}"

definition written_nets :: "net_text \<Rightarrow> string \<Rightarrow> ipnet set" where
  "written_nets T v = {n. parse_cidr T v = Inr n}"

definition node_addresses :: "kube_node \<Rightarrow> string list" where
  "node_addresses node =
     (case kno_addresses node of
        Some (Some addresses) \<Rightarrow> map snd (filter (\<lambda>a. fst a = ''InternalIP'' \<or> fst a = ''ExternalIP'') addresses)
      | _ \<Rightarrow> [])"

definition node_pod_values :: "kube_node \<Rightarrow> string list" where
  "node_pod_values node =
     (case kno_spec node of
        None \<Rightarrow> []
      | Some spec \<Rightarrow>
          (let values = unwrap_or [] (kns_pod_cidrs spec) in
           if values \<noteq> [] then values else (case kns_pod_cidr spec of None \<Rightarrow> [] | Some v \<Rightarrow> [v])))"

definition service_addresses :: "kube_service \<Rightarrow> string list" where
  "service_addresses service =
     (case service of
        None \<Rightarrow> []
      | Some spec \<Rightarrow> unwrap_or [] (kss_cluster_ips spec) @ (case kss_cluster_ip spec of None \<Rightarrow> [] | Some v \<Rightarrow> [v]))"

definition service_cidr_values :: "kube_service_cidr \<Rightarrow> string list" where
  "service_cidr_values service = (case service of Some (Some values) \<Rightarrow> values | _ \<Rightarrow> [])"

definition listed :: "'a list kube_answer \<Rightarrow> 'a list" where
  "listed answer = (case answer of Listed xs \<Rightarrow> xs | _ \<Rightarrow> [])"

lemma listed_simps [simp]:
  "listed (Listed xs) = xs" "listed NotFoundAnswer = []" "listed ForbiddenAnswer = []" "listed (CallFailed e) = []"
  by (simp_all add: listed_def)

definition cluster_hosts :: "kube_api \<Rightarrow> string list" where
  "cluster_hosts api =
     concat (map node_addresses (listed (ka_nodes api))) @
     (case ka_service_cidrs api of Listed _ \<Rightarrow> [] | _ \<Rightarrow> concat (map service_addresses (listed (ka_services api))))"

definition cluster_cidrs :: "kube_api \<Rightarrow> string list" where
  "cluster_cidrs api =
     concat (map node_pod_values (listed (ka_nodes api))) @ concat (map service_cidr_values (listed (ka_service_cidrs api)))"

definition cluster_nets :: "ipnet_lib \<Rightarrow> net_text \<Rightarrow> kube_api \<Rightarrow> ipnet set" where
  "cluster_nets N T api = (\<Union>v\<in>set (cluster_hosts api). host_nets N v) \<union> (\<Union>v\<in>set (cluster_cidrs api). written_nets T v)"

text \<open>A part of the discovery that adds exactly a set of networks and counts the new ones.\<close>

definition found_ok :: "found_nets \<Rightarrow> bool" where
  "found_ok s \<longleftrightarrow> distinct (fst s) \<and> snd s = set (fst s)"

definition adds :: "ipnet set \<Rightarrow> found_nets \<Rightarrow> found_nets \<Rightarrow> nat \<Rightarrow> bool" where
  "adds A s s' n \<longleftrightarrow>
     (found_ok s \<longrightarrow> found_ok s' \<and> set (fst s') = set (fst s) \<union> A \<and> length (fst s') = length (fst s) + n)"

lemma adds_none [simp]: "adds {} s s 0"
  by (simp add: adds_def)

lemma adds_trans: "adds A s s' n \<Longrightarrow> adds B s' s'' k \<Longrightarrow> adds (A \<union> B) s s'' (n + k)"
  unfolding adds_def by (intro impI) (simp add: Un_assoc)

lemma insert_counted_adds: "insert_counted c s = (s', n) \<Longrightarrow> adds {c} s s' n"
proof -
  assume a: "insert_counted c s = (s', n)"
  obtain l S where s: "s = (l, S)" by (cases s)
  show ?thesis
  proof (cases "c \<in> S")
    case True
    then have "s' = s" "n = 0" using a by (simp_all add: insert_counted_def insert_unique_def s)
    then show ?thesis using True by (auto simp: adds_def found_ok_def s)
  next
    case False
    then have "s' = (l @ [c], insert c S)" "n = 1" using a by (simp_all add: insert_counted_def insert_unique_def s)
    then show ?thesis using False by (auto simp: adds_def found_ok_def s)
  qed
qed

lemma count_each_adds:
  assumes "\<And>x s s' n. x \<in> set xs \<Longrightarrow> f x s = Inr (s', n) \<Longrightarrow> adds (A x) s s' n"
  shows "count_each f xs s = Inr (s', n) \<Longrightarrow> adds (\<Union>x\<in>set xs. A x) s s' n"
  using assms
proof (induction xs arbitrary: s s' n)
  case (Cons x xs)
  obtain s1 n1 k where f: "f x s = Inr (s1, n1)" "count_each f xs s1 = Inr (s', k)" "n = n1 + k"
    using Cons.prems(1) by (auto simp: res_simps)
  have "adds (A x) s s1 n1" using Cons.prems(2) f(1) by simp
  moreover have "adds (\<Union>x\<in>set xs. A x) s1 s' k" using Cons.IH [OF f(2)] Cons.prems(2) by simp
  ultimately show ?case using adds_trans f(3) by simp
qed simp

lemma add_host_adds: "add_host N v s = Inr (s', n) \<Longrightarrow> adds (host_nets N v) s s' n"
proof -
  assume "add_host N v s = Inr (s', n)"
  then obtain c where "ip_to_host_cidr N v = Inr c" "(case c of None \<Rightarrow> (s, 0) | Some cidr \<Rightarrow> insert_counted cidr s) = (s', n)"
    by (auto simp: add_host_def res_simps)
  then show ?thesis by (cases c) (auto simp: host_nets_def insert_counted_adds)
qed

lemma insert_cidr_adds: "insert_cidr T v s = Inr (s', n) \<Longrightarrow> adds (written_nets T v) s s' n"
  by (auto simp: insert_cidr_def written_nets_def res_simps insert_counted_adds)

lemma add_node_addresses_adds:
  assumes "add_node_addresses N node s = Inr (s', n)"
  shows "adds (\<Union>v\<in>set (node_addresses node). host_nets N v) s s' n"
proof (cases "\<exists>as. kno_addresses node = Some (Some as)")
  case True
  then obtain as where as: "kno_addresses node = Some (Some as)" by blast
  let ?A = "\<lambda>a. if fst a = ''InternalIP'' \<or> fst a = ''ExternalIP'' then host_nets N (snd a) else {}"
  have "adds (\<Union>a\<in>set as. ?A a) s s' n"
    using assms unfolding add_node_addresses_def as option.case
    by (rule count_each_adds [rotated]) (auto simp: add_host_adds split: if_splits)
  moreover have "(\<Union>a\<in>set as. ?A a) = (\<Union>v\<in>set (node_addresses node). host_nets N v)"
    by (auto simp: node_addresses_def as)
  ultimately show ?thesis by simp
next
  case False
  then show ?thesis using assms by (auto simp: add_node_addresses_def node_addresses_def split: option.splits)
qed

lemma add_node_pod_cidrs_adds:
  assumes "add_node_pod_cidrs T node s = Inr (s', n)"
  shows "adds (\<Union>v\<in>set (node_pod_values node). written_nets T v) s s' n"
proof (cases "kno_spec node")
  case None
  then show ?thesis using assms by (simp add: add_node_pod_cidrs_def node_pod_values_def)
next
  case (Some spec)
  let ?vs = "unwrap_or [] (kns_pod_cidrs spec)"
  obtain s1 n1 where c: "count_each (insert_cidr T) ?vs s = Inr (s1, n1)"
    using assms Some by (auto simp: add_node_pod_cidrs_def Let_def res_simps)
  have a: "adds (\<Union>v\<in>set ?vs. written_nets T v) s s1 n1"
    by (rule count_each_adds [OF insert_cidr_adds c])
  show ?thesis
  proof (cases "?vs = []")
    case True
    then show ?thesis using assms Some
      by (auto simp: add_node_pod_cidrs_def node_pod_values_def Let_def res_simps insert_cidr_adds split: option.splits)
  next
    case False
    then show ?thesis using assms Some c a by (simp add: add_node_pod_cidrs_def node_pod_values_def)
  qed
qed

lemma add_node_runtime_cidrs_adds:
  "add_node_runtime_cidrs N T nodes s = Inr (s', i, p) \<Longrightarrow>
     adds ((\<Union>v\<in>set (concat (map node_addresses nodes)). host_nets N v) \<union>
           (\<Union>v\<in>set (concat (map node_pod_values nodes)). written_nets T v)) s s' (i + p)"
proof (induction nodes arbitrary: s s' i p)
  case (Cons node nodes)
  obtain s1 n1 s2 n2 i' p' where c: "add_node_addresses N node s = Inr (s1, n1)" "add_node_pod_cidrs T node s1 = Inr (s2, n2)"
    "add_node_runtime_cidrs N T nodes s2 = Inr (s', i', p')" "i = n1 + i'" "p = n2 + p'"
    using Cons.prems by (auto simp: res_simps)
  show ?case
    using adds_trans [OF adds_trans [OF add_node_addresses_adds [OF c(1)] add_node_pod_cidrs_adds [OF c(2)]] Cons.IH [OF c(3)]]
    by (simp add: c(4,5) ac_simps Un_assoc)
qed simp

lemma add_service_cidrs_adds:
  assumes "add_service_cidrs T services s = Inr (s', n)"
  shows "adds (\<Union>v\<in>set (concat (map service_cidr_values services)). written_nets T v) s s' n"
proof -
  have "adds (\<Union>x\<in>set services. \<Union>v\<in>set (service_cidr_values x). written_nets T v) s s' n"
    using assms unfolding add_service_cidrs_def
    by (rule count_each_adds [rotated])
      (auto simp: service_cidr_values_def intro: count_each_adds [OF insert_cidr_adds] split: option.splits)
  then show ?thesis by simp
qed

lemma add_service_adds:
  assumes "add_service N service s = Inr (s', n)"
  shows "adds (\<Union>v\<in>set (service_addresses service). host_nets N v) s s' n"
proof (cases service)
  case (Some spec)
  obtain s1 n1 k where c: "count_each (add_host N) (unwrap_or [] (kss_cluster_ips spec)) s = Inr (s1, n1)"
    "(case kss_cluster_ip spec of None \<Rightarrow> Inr (s1, 0) | Some v \<Rightarrow> add_host N v s1) = Inr (s', k)" "n = n1 + k"
    using assms Some by (auto simp: add_service_def res_simps)
  have "adds (\<Union>v\<in>set (unwrap_or [] (kss_cluster_ips spec)). host_nets N v) s s1 n1"
    by (rule count_each_adds [OF add_host_adds c(1)])
  moreover have "adds (\<Union>v\<in>set (case kss_cluster_ip spec of None \<Rightarrow> [] | Some v \<Rightarrow> [v]). host_nets N v) s1 s' k"
    using c(2) by (auto simp: add_host_adds split: option.splits)
  ultimately show ?thesis
    using adds_trans by (fastforce simp: service_addresses_def Some c(3))
qed (use assms in \<open>simp add: add_service_def service_addresses_def\<close>)

lemma add_service_cluster_ips_adds:
  assumes "add_service_cluster_ips N services s = Inr (s', n)"
  shows "adds (\<Union>v\<in>set (concat (map service_addresses services)). host_nets N v) s s' n"
proof -
  have "adds (\<Union>x\<in>set services. \<Union>v\<in>set (service_addresses x). host_nets N v) s s' n"
    using assms unfolding add_service_cluster_ips_def
    by (rule count_each_adds [rotated]) (rule add_service_adds)
  then show ?thesis by simp
qed

lemma discover_service_cluster_ips_adds:
  "discover_service_cluster_ips N api s = Inr (s', n, partial) \<Longrightarrow>
     adds (\<Union>v\<in>set (concat (map service_addresses (listed (ka_services api)))). host_nets N v) s s' n"
  by (auto simp: discover_service_cluster_ips_def get_list_def get_list_optional_def listed_def ok_or_def res_simps
      dest!: add_service_cluster_ips_adds split: kube_answer.splits option.splits)

lemma discover_service_cidrs_adds:
  assumes "discover_service_cidrs N T api s = Inr (s', n, partial)"
  shows "adds ((\<Union>v\<in>set (case ka_service_cidrs api of Listed _ \<Rightarrow> [] | _ \<Rightarrow> concat (map service_addresses (listed (ka_services api)))).
            host_nets N v) \<union>
          (\<Union>v\<in>set (concat (map service_cidr_values (listed (ka_service_cidrs api)))). written_nets T v)) s s' n"
proof (cases "ka_service_cidrs api")
  case (Listed services)
  then show ?thesis
    using assms by (auto simp: discover_service_cidrs_def get_list_optional_def res_simps
        dest!: add_service_cidrs_adds)
qed (use assms in \<open>auto simp: discover_service_cidrs_def get_list_optional_def
      dest!: discover_service_cluster_ips_adds split: if_splits\<close>)

lemma discover_complete:
  assumes "discover N T api = Inr k"
  shows "set (kr_cidrs k) = cluster_nets N T api" and "distinct (kr_cidrs k)"
    and "length (kr_cidrs k) = kr_node_ips k + kr_pod_cidrs k + kr_service_cidrs k"
proof -
  obtain nodes s i p s' n partial where nodes: "get_list (ka_nodes api) = Inr nodes"
    and c: "add_node_runtime_cidrs N T nodes ([], {}) = Inr (s, i, p)"
    and d: "discover_service_cidrs N T api s = Inr (s', n, partial)"
    and k: "k = \<lparr>kr_cidrs = fst s', kr_node_ips = i, kr_pod_cidrs = p, kr_service_cidrs = n, kr_service_cidr_partial = partial\<rparr>"
    using assms by (auto simp: discover_def res_simps)
  have l: "listed (ka_nodes api) = nodes"
    using nodes by (auto simp: get_list_def get_list_optional_def ok_or_def listed_def res_simps split: kube_answer.splits option.splits)
  note a = adds_trans [OF add_node_runtime_cidrs_adds [OF c] discover_service_cidrs_adds [OF d]]
  have "found_ok ([], {})" by (simp add: found_ok_def)
  then have "found_ok s'" "length (fst s') = i + p + n"
    and u: "set (fst s') = cluster_nets N T api"
    using a by (simp_all add: adds_def cluster_nets_def cluster_hosts_def cluster_cidrs_def l Un_ac UN_Un)
  then show "set (kr_cidrs k) = cluster_nets N T api" "distinct (kr_cidrs k)"
    "length (kr_cidrs k) = kr_node_ips k + kr_pod_cidrs k + kr_service_cidrs k"
    by (simp_all add: k found_ok_def)
qed

lemma host_net_of:
  assumes "ipnet_spec N" and "parse_ip v = Some ip" and "v \<noteq> []" and "to_upper v \<noteq> ''NONE''"
  shows "ip_to_host_cidr N v = Inr (Some (Net ip (if is_ipv4 ip then 32 else 128)))"
  using assms ipnet_spec.new_eq [OF assms(1), of ip] by (cases ip) (simp_all add: ip_to_host_cidr_def ok_or_def)

lemma host_nets_truncated: "ipnet_spec N \<Longrightarrow> c \<in> host_nets N v \<Longrightarrow> truncated_net c"
  by (cases "parse_ip v"; cases "the (parse_ip v)")
    (auto simp: host_nets_def ip_to_host_cidr_def ok_or_def res_simps ipnet_spec.new_eq truncated_net_def canonical_def
      split: if_splits option.splits)

section \<open>Chunks\<close>

text \<open>Where the response is cut into chunks does not matter.\<close>

lemma drain_rest_no_newline: "drain_watch_lines J pending = Inr (False, rest) \<Longrightarrow> 10 \<notin> set rest"
proof (induction J pending rule: drain_watch_lines.induct)
  case (1 J pending)
  then show ?case
    by (subst (asm) (2) drain_watch_lines.simps) (auto simp: Let_def res_simps split: if_splits)
qed

lemma drain_append:
  "drain_watch_lines J (a @ b) =
     bindE (drain_watch_lines J a) (\<lambda>(changed, rest). if changed then Inr (True, rest @ b) else drain_watch_lines J (rest @ b))"
proof (induction J a rule: drain_watch_lines.induct)
  case (1 J a)
  show ?case
  proof (cases "10 \<in> set a")
    case False
    then show ?thesis by (subst drain_watch_lines.simps [of J a]) simp
  next
    case True
    let ?line = "takeWhile (\<lambda>b. b \<noteq> 10) a" and ?rest = "drop (length (takeWhile (\<lambda>b. b \<noteq> 10) a) + 1) a"
    have t: "takeWhile (\<lambda>b. b \<noteq> 10) (a @ b) = ?line" using True by (induction a) auto
    have "length ?line < length a"
      using True by (metis (mono_tags, lifting) length_takeWhile_le takeWhile_eq_all_conv le_neq_implies_less takeWhile_eq_take take_all)
    then have d: "drop (length ?line + 1) (a @ b) = ?rest @ b" by simp
    have e: "drain_watch_lines J (a @ b) = bindE (watch_line_changed J (trim_line ?line)) (\<lambda>changed.
        if changed then Inr (True, ?rest @ b) else drain_watch_lines J (?rest @ b))"
      unfolding drain_watch_lines.simps [of J "a @ b"] Let_def t d using True by simp
    show ?thesis
    proof (cases "watch_line_changed J (trim_line ?line)")
      case (Inl err)
      then show ?thesis unfolding e by (subst drain_watch_lines.simps [of J a]) (simp add: True)
    next
      case (Inr changed)
      show ?thesis
      proof (cases changed)
        case True': True
        then show ?thesis using Inr unfolding e by (subst drain_watch_lines.simps [of J a]) (simp add: True)
      next
        case False
        then show ?thesis
          using Inr 1 [OF _ refl refl, of changed] True unfolding e
          by (subst drain_watch_lines.simps [of J a]) (simp add: True)
      qed
    qed
  qed
qed

lemma stream_watch_chunks:
  "10 \<notin> set pending \<Longrightarrow>
     stream_watch_response J (map Inr chunks) pending = stream_watch_response J [Inr (concat chunks)] pending"
proof (induction chunks arbitrary: pending)
  case Nil
  then show ?case by (simp add: drain_watch_lines.simps)
next
  case (Cons c cs)
  show ?case
  proof (cases "drain_watch_lines J (pending @ c)")
    case (Inr r)
    obtain changed rest where r: "r = (changed, rest)" by (cases r)
    have "\<not> changed \<Longrightarrow> 10 \<notin> set rest" using drain_rest_no_newline Inr r by auto
    then show ?thesis
      using Cons.IH [of rest] Inr r drain_append [of J "pending @ c" "concat cs"] by (cases changed) simp_all
  next
    case (Inl e)
    then show ?thesis using drain_append [of J "pending @ c" "concat cs"] by simp
  qed
qed

section \<open>The watch over a changing cluster\<close>

text \<open>\<open>kw_now\<close> is the version of the cluster, \<open>d n\<close> what discovery finds at version \<open>n\<close>. A watch starts from the version of
  the list it makes for that purpose and is told of every later change; it may end or fail at any time.\<close>

record kube_world =
  kw_now :: nat
  kw_cache :: k8s_discovery_cache
  kw_watch :: "nat option"

inductive kube_step :: "(nat \<Rightarrow> (ipnet list \<times> bool) res) \<Rightarrow> kube_world \<Rightarrow> kube_world \<Rightarrow> bool" for d where
  cluster_change: "kube_step d w (w\<lparr>kw_now := kw_now w + 1\<rparr>)"
| open_watch: "kw_watch w = None \<Longrightarrow> kube_step d w (w\<lparr>kw_watch := Some (kw_now w)\<rparr>)"
| watch_changed: "kw_watch w = Some v \<Longrightarrow> v < kw_now w \<Longrightarrow>
    kube_step d w (w\<lparr>kw_cache := k8s_watch_turn (Inr True) (d (kw_now w)) (kw_cache w), kw_watch := None\<rparr>)"
| watch_ended: "kw_watch w = Some v \<Longrightarrow>
    kube_step d w (w\<lparr>kw_cache := k8s_watch_turn (Inr False) (d (kw_now w)) (kw_cache w), kw_watch := None\<rparr>)"
| watch_failed: "kube_step d w (w\<lparr>kw_cache := k8s_watch_turn (Inl e) (d (kw_now w)) (kw_cache w), kw_watch := None\<rparr>)"

inductive_cases kube_stepE: "kube_step d w w'"

definition watch_start :: "(ipnet list \<times> bool) res \<Rightarrow> kube_world" where
  "watch_start first =
     \<lparr>kw_now = 0,
      kw_cache = (case refresh_k8s_discovery_cache first default_k8s_cache of Inr c \<Rightarrow> c | Inl e \<Rightarrow> default_k8s_cache),
      kw_watch = None\<rparr>"

lemma kube_now_mono: "kube_step d w w' \<Longrightarrow> kw_now w \<le> kw_now w'"
  by (induction rule: kube_step.induct) simp_all

lemma kube_run_mono: "(kube_step d)\<^sup>*\<^sup>* w w' \<Longrightarrow> kw_now w \<le> kw_now w'"
  by (induction rule: rtranclp_induct) (auto dest: kube_now_mono)

text \<open>The cache is always what discovery found at some past version.\<close>

lemma cache_of_the_past:
  assumes "\<And>n. \<exists>a. d n = Inr a"
  shows "(kube_step d)\<^sup>*\<^sup>* (watch_start (d 0)) w \<Longrightarrow> \<exists>n\<le>kw_now w. d n = Inr (kc_cidrs (kw_cache w), kc_service_cidr_partial (kw_cache w))"
proof (induction rule: rtranclp_induct)
  case base
  obtain a where "d 0 = Inr a" using assms by blast
  then show ?case by (cases a) (simp add: watch_start_def refresh_k8s_discovery_cache_def)
next
  case (step w w')
  obtain n where n: "n \<le> kw_now w" "d n = Inr (kc_cidrs (kw_cache w), kc_service_cidr_partial (kw_cache w))" using step.IH by blast
  obtain a where a: "d (kw_now w) = Inr a" using assms by blast
  show ?case using step.hyps(2)
  proof cases
    case cluster_change
    then show ?thesis using n by (intro exI [of _ n]) simp
  next
    case (watch_changed v)
    then show ?thesis using a
      by (cases a) (auto simp: k8s_watch_turn_def refresh_k8s_discovery_cache_def intro!: exI [of _ "kw_now w"])
  qed (use n in \<open>auto simp: k8s_watch_turn_def mark_k8s_discovery_failed_def\<close>)
qed

text \<open>Once a watch is open at the present version, or none is, nothing changes the networks before the cluster does.\<close>

lemma settled_watch_keeps:
  assumes "(kube_step d)\<^sup>*\<^sup>* w w'" and "kw_watch w = None \<or> kw_watch w = Some (kw_now w)" and "kw_now w' = kw_now w"
  shows "kc_cidrs (kw_cache w') = kc_cidrs (kw_cache w) \<and> (kw_watch w' = None \<or> kw_watch w' = Some (kw_now w))"
  using assms(1,3)
proof (induction rule: rtranclp_induct)
  case base
  then show ?case using assms(2) by blast
next
  case (step y z)
  have "kw_now y = kw_now w"
    using kube_run_mono [OF step.hyps(1)] kube_now_mono [OF step.hyps(2)] step.prems by simp
  then show ?case
    using step by (auto elim!: kube_stepE simp: k8s_watch_turn_def mark_k8s_discovery_failed_def)
qed

end
