(* ===== verification/Cluster_Claims.thy ===== *)
theory Cluster_Claims
  imports K8s_Discovery Distribution_Claims
begin

text \<open>
  The properties of Kubernetes discovery: what the objects of a cluster name is trusted by the policy that is sent, and
  how a change between two watches is missed.
\<close>

section \<open>Trust\<close>

text \<open>C39: runtime trust is complete, from the answers of the Kubernetes API to the policy that is sent: after a refresh every
  internal and external address of every node, every written pod and service network and, without the service
  network API, every service address is trusted, although duplicates and covered networks are dropped on the way
  (written and configured networks being truncated to their prefix). The counts that are logged add up.\<close>

theorem discovered_cluster_trusted:
  assumes "ipnet_spec (cr_net K)" and "net_text_spec (cr_text K)"
    and "discover (cr_net K) (cr_text K) api = Inr k"
    and "rc_discovery rt" and "rc_cache rt = k8s_watch_turn (Inr True) (discovered (cr_net K) (cr_text K) api) cache"
    and "\<forall>n\<in>set (rc_configured rt). truncated_net n"
    and "\<forall>v\<in>set (cluster_cidrs api). \<forall>n\<in>written_nets (cr_text K) v. truncated_net n"
    and "load_policy_snapshot K now dbs (current_snapshot (cr_net K) rt) external = Inr s"
  shows "(\<forall>n\<in>cluster_nets (cr_net K) (cr_text K) api. net_addresses n \<subseteq> (\<Union>t\<in>set (ps_trusted_cidrs s). net_addresses (tc_cidr t))) \<and>
    (\<forall>node\<in>set (listed (ka_nodes api)). \<forall>v\<in>set (node_addresses node). \<forall>ip. v \<noteq> [] \<and> to_upper v \<noteq> ''NONE'' \<and> parse_ip v = Some ip \<longrightarrow>
      ip \<in> (\<Union>t\<in>set (ps_trusted_cidrs s). net_addresses (tc_cidr t))) \<and>
    card (cluster_nets (cr_net K) (cr_text K) api) = kr_node_ips k + kr_pod_cidrs k + kr_service_cidrs k"
proof -
  let ?nets = "cluster_nets (cr_net K) (cr_text K) api"
  let ?trusted = "\<Union>t\<in>set (ps_trusted_cidrs s). net_addresses (tc_cidr t)"
  note found = discover_complete [OF assms(3)]
  have "kc_cidrs (rc_cache rt) = kr_cidrs k"
    by (simp add: assms(3,5) discovered_def k8s_watch_turn_def refresh_k8s_discovery_cache_def)
  then have nets: "runtime_nets rt = set (rc_configured rt) \<union> ?nets"
    using assms(4) found(1) by (simp add: runtime_nets_def)
  have tr: "truncated_net n" if "n \<in> runtime_nets rt" for n
    using that assms(6,7) host_nets_truncated [OF assms(1)] unfolding nets by (auto simp: cluster_nets_def)
  have all: "(\<Union>n\<in>runtime_nets rt. net_addresses n) \<subseteq> ?trusted"
    by (rule runtime_cidrs_all_trusted [OF assms(1,2) tr assms(8)])
  have "ip \<in> ?trusted"
    if "node \<in> set (listed (ka_nodes api))" "v \<in> set (node_addresses node)" "v \<noteq> []" "to_upper v \<noteq> ''NONE''" "parse_ip v = Some ip" for node v ip
  proof -
    let ?n = "Net ip (if is_ipv4 ip then 32 else 128)"
    have "?n \<in> host_nets (cr_net K) v" using host_net_of [OF assms(1) that(5,3,4)] by (simp add: host_nets_def)
    moreover have "v \<in> set (cluster_hosts api)" using that(1,2) by (auto simp: cluster_hosts_def)
    ultimately have "?n \<in> runtime_nets rt" unfolding nets cluster_nets_def by blast
    moreover have "ip \<in> net_addresses ?n" by (simp add: net_addresses_def)
    ultimately show ?thesis using all by blast
  qed
  moreover have "card ?nets = kr_node_ips k + kr_pod_cidrs k + kr_service_cidrs k"
    using found distinct_card [OF found(2)] by simp
  ultimately show ?thesis using all unfolding nets by blast
qed

definition sample_cluster :: kube_api where
  "sample_cluster =
     \<lparr>ka_nodes = Listed [\<lparr>kno_addresses = Some (Some [(''Hostname'', ''n1''), (''InternalIP'', ''192.0.2.7''), (''ExternalIP'', ''192.0.2.7'')]),
        kno_spec = Some \<lparr>kns_pod_cidrs = None, kns_pod_cidr = Some ''10.244.0.0/24''\<rparr>\<rparr>],
      ka_service_cidrs = ForbiddenAnswer,
      ka_services = Listed [Some \<lparr>kss_cluster_ips = Some [''None''], kss_cluster_ip = Some ''10.96.0.1''\<rparr>]\<rparr>"

definition sample_found :: kube_runtime_cidrs where
  "sample_found =
     \<lparr>kr_cidrs = [Net (V4 0xC0000207) 32, Net (V4 0x0AF40000) 24, Net (V4 0x0A600001) 32], kr_node_ips = 1, kr_pod_cidrs = 1,
      kr_service_cidrs = 1, kr_service_cidr_partial = True\<rparr>"

lemma sample_discovery: "discover ref_ipnet ref_net_text sample_cluster = Inr sample_found"
  by code_simp

theorem discovered_cluster_trusted_witness:
  "\<exists>s. load_policy_snapshot sample_crates 0 (\<lambda>_. sample_db)
       (current_snapshot ref_ipnet (sample_runtime\<lparr>rc_discovery := True,
         rc_cache := k8s_watch_turn (Inr True) (discovered ref_ipnet ref_net_text sample_cluster) default_k8s_cache\<rparr>)) True = Inr s \<and>
     V4 0xC0000207 \<in> (\<Union>t\<in>set (ps_trusted_cidrs s). net_addresses (tc_cidr t))"
proof -
  let ?rt = "sample_runtime\<lparr>rc_discovery := True,
      rc_cache := k8s_watch_turn (Inr True) (discovered ref_ipnet ref_net_text sample_cluster) default_k8s_cache\<rparr>"
  have n: "cr_net sample_crates = ref_ipnet" "cr_text sample_crates = ref_net_text" by (simp_all add: sample_crates_def)
  obtain s0 where "load_policy_without_geo_prefixes (cr_net sample_crates) (cr_text sample_crates) (cr_json sample_crates) 0
      (\<lambda>_. sample_db) default_policy_name = Inr s0"
    using sample_loaded_snapshot(1) by (auto simp: load_policy_snapshot_def res_simps)
  then obtain s where s: "load_policy_snapshot sample_crates 0 (\<lambda>_. sample_db) (current_snapshot ref_ipnet ?rt) True = Inr s"
    by (simp add: load_policy_snapshot_def)
  have c: "\<forall>n\<in>set (rc_configured ?rt). truncated_net n" by code_simp
  have v: "cluster_cidrs sample_cluster = [''10.244.0.0/24'']" by code_simp
  have "written_nets ref_net_text ''10.244.0.0/24'' = {Net (V4 0x0AF40000) 24}"
  proof -
    have "parse_cidr ref_net_text ''10.244.0.0/24'' = Inr (Net (V4 0x0AF40000) 24)" by code_simp
    then show ?thesis by (auto simp: written_nets_def)
  qed
  moreover have "truncated_net (Net (V4 0x0AF40000) 24)" by code_simp
  ultimately have w: "\<forall>v\<in>set (cluster_cidrs sample_cluster). \<forall>n\<in>written_nets ref_net_text v. truncated_net n" by (simp add: v)
  have p: "parse_ip ''192.0.2.7'' = Some (V4 0xC0000207)" by code_simp
  have "hd (listed (ka_nodes sample_cluster)) \<in> set (listed (ka_nodes sample_cluster))"
    "''192.0.2.7'' \<in> set (node_addresses (hd (listed (ka_nodes sample_cluster))))" by (simp_all add: sample_cluster_def listed_def node_addresses_def)
  moreover have "to_upper ''192.0.2.7'' \<noteq> ''NONE''" by code_simp
  ultimately show ?thesis
    using discovered_cluster_trusted [OF sample_crates_ok, unfolded n, OF sample_discovery _ _ c w s] s p by auto
qed

section \<open>The gap between two watches\<close>



end
