(* ===== verification/Xds_Tls.thy ===== *)
theory Xds_Tls
  imports Xdp_Host Agent_Runtime
begin

text \<open>
  The TLS material of the xDS port (\<^verbatim>\<open>control_plane/xds/tls.rs\<close>): explicit PEM files, or a directory whose six files are
  generated once and then reused; what the HTTP port takes from it (\<^verbatim>\<open>server_commands.rs\<close>) and what an agent makes of its
  side (\<^verbatim>\<open>control_plane/xds/client.rs\<close>). The file system is part of the state; creating certificates, the directory and
  the writes that fail are the parameter \<open>pem_lib\<close>.
\<close>

record tls_args =
  ta_auto :: bool
  ta_cert :: "string option"
  ta_key :: "string option"
  ta_client_ca :: "string option"
  ta_dir :: string
  ta_san :: "string list"
  ta_validity_days :: i64

text \<open>The identity of the server, the authority its clients must come from, and the paths that are logged.\<close>

record control_plane_tls =
  tls_identity :: "string \<times> string"
  tls_client_ca :: "string option"
  tls_mutual :: bool
  tls_cert_path :: string
  tls_key_path :: string

text \<open>Files and those only their owner may read.\<close>

record tls_files =
  tf_pem :: "string \<rightharpoonup> string"
  tf_secret :: "string set"

record pem_lib =
  pl_create_dir :: "string \<Rightarrow> bool"
  pl_write :: "string \<Rightarrow> bool"
  pl_restrict :: "string \<Rightarrow> bool"
  pl_ca :: "i64 \<Rightarrow> (string \<times> string) option"
  pl_server :: "string list \<Rightarrow> i64 \<Rightarrow> (string \<times> string) option"
  pl_client :: "i64 \<Rightarrow> (string \<times> string) option"

type_synonym 'a tls_act = "(tls_files, 'a) act"

definition read_pem :: "string \<Rightarrow> string tls_act" where
  "read_pem path fs = (fs, ok_or (Internal ''failed to read xDS TLS PEM file'') (tf_pem fs path))"

definition write_pem :: "pem_lib \<Rightarrow> string \<Rightarrow> string \<Rightarrow> bool \<Rightarrow> unit tls_act" where
  "write_pem L path contents secret fs =
     (if \<not> pl_write L path then (fs, Inl (Internal ''failed to write xDS TLS PEM file''))
      else
        let fs = fs\<lparr>tf_pem := (tf_pem fs)(path \<mapsto> contents)\<rparr>
        in if secret
           then if pl_restrict L path then (fs\<lparr>tf_secret := insert path (tf_secret fs)\<rparr>, Inr ())
                else (fs, Inl (Internal ''failed to restrict permissions''))
           else (fs, Inr ()))"

definition ensure_no_explicit_material :: "tls_args \<Rightarrow> unit res" where
  "ensure_no_explicit_material a =
     guardE (ta_cert a = None \<and> ta_key a = None \<and> ta_client_ca a = None) (BadRequest ''--xds-tls-auto with explicit material'')"

definition build_file_tls :: "tls_args \<Rightarrow> control_plane_tls option tls_act" where
  "build_file_tls a =
     (if ta_cert a = None \<and> ta_key a = None \<and> ta_client_ca a = None then okA None
      else (case (ta_cert a, ta_key a) of
              (Some cert, Some key) \<Rightarrow>
                bindA (read_pem cert) (\<lambda>cert_pem.
                bindA (read_pem key) (\<lambda>key_pem.
                (case ta_client_ca a of
                   None \<Rightarrow> okA (Some \<lparr>tls_identity = (cert_pem, key_pem), tls_client_ca = None, tls_mutual = False,
                                  tls_cert_path = cert, tls_key_path = key\<rparr>)
                 | Some ca \<Rightarrow> bindA (read_pem ca) (\<lambda>ca_pem.
                     okA (Some \<lparr>tls_identity = (cert_pem, key_pem), tls_client_ca = Some ca_pem, tls_mutual = True,
                                tls_cert_path = cert, tls_key_path = key\<rparr>)))))
            | (Some _, None) \<Rightarrow> liftA (Inl (BadRequest ''--xds-tls-cert is set without --xds-tls-key''))
            | (None, Some _) \<Rightarrow> liftA (Inl (BadRequest ''--xds-tls-key is set without --xds-tls-cert''))
            | (None, None) \<Rightarrow> liftA (Inl (BadRequest ''--xds-tls-client-ca requires --xds-tls-cert and --xds-tls-key''))))"

record auto_tls_files =
  af_ca_cert :: string
  af_ca_key :: string
  af_server_cert :: string
  af_server_key :: string
  af_client_cert :: string
  af_client_key :: string

definition auto_tls_files :: "string \<Rightarrow> auto_tls_files" where
  "auto_tls_files dir =
     \<lparr>af_ca_cert = join_path dir ''ca.pem'', af_ca_key = join_path dir ''ca.key'',
      af_server_cert = join_path dir ''server.pem'', af_server_key = join_path dir ''server.key'',
      af_client_cert = join_path dir ''client.pem'', af_client_key = join_path dir ''client.key''\<rparr>"

definition auto_paths :: "auto_tls_files \<Rightarrow> string list" where
  "auto_paths f = [af_ca_cert f, af_ca_key f, af_server_cert f, af_server_key f, af_client_cert f, af_client_key f]"

definition existing_files :: "tls_files \<Rightarrow> auto_tls_files \<Rightarrow> string list" where
  "existing_files fs f = filter (\<lambda>p. tf_pem fs p \<noteq> None) (auto_paths f)"

definition sanitize_sans :: "string list \<Rightarrow> string list" where
  "sanitize_sans sans =
     (let cleaned = filter (\<lambda>s. s \<noteq> []) (map trim sans) in
      if cleaned = [] then [''localhost'', ''127.0.0.1'', ''::1''] else cleaned)"

definition some_pem :: "(string \<times> string) option \<Rightarrow> (string \<times> string) tls_act" where
  "some_pem made = liftA (ok_or (Internal ''failed to create a certificate'') made)"

definition generate_auto_tls :: "pem_lib \<Rightarrow> string \<Rightarrow> auto_tls_files \<Rightarrow> tls_args \<Rightarrow> unit tls_act" where
  "generate_auto_tls L dir f a =
     (if \<not> pl_create_dir L dir then liftA (Inl (Internal ''failed to create xDS TLS directory''))
      else
        bindA (some_pem (pl_ca L (ta_validity_days a))) (\<lambda>(ca, ca_key).
        bindA (write_pem L (af_ca_cert f) ca False) (\<lambda>_.
        bindA (write_pem L (af_ca_key f) ca_key True) (\<lambda>_.
        bindA (some_pem (pl_server L (sanitize_sans (ta_san a)) (ta_validity_days a))) (\<lambda>(server, server_key).
        bindA (write_pem L (af_server_cert f) server False) (\<lambda>_.
        bindA (write_pem L (af_server_key f) server_key True) (\<lambda>_.
        bindA (some_pem (pl_client L (ta_validity_days a))) (\<lambda>(client, client_key).
        bindA (write_pem L (af_client_cert f) client False) (\<lambda>_.
        write_pem L (af_client_key f) client_key True)))))))))"

definition read_auto_tls :: "auto_tls_files \<Rightarrow> control_plane_tls tls_act" where
  "read_auto_tls f =
     bindA (read_pem (af_server_cert f)) (\<lambda>cert.
     bindA (read_pem (af_server_key f)) (\<lambda>key.
     bindA (read_pem (af_ca_cert f)) (\<lambda>ca.
     okA \<lparr>tls_identity = (cert, key), tls_client_ca = Some ca, tls_mutual = True,
          tls_cert_path = af_server_cert f, tls_key_path = af_server_key f\<rparr>)))"

definition build_auto_tls :: "pem_lib \<Rightarrow> tls_args \<Rightarrow> control_plane_tls tls_act" where
  "build_auto_tls L a fs =
     (let f = auto_tls_files (ta_dir a);
          existing = existing_files fs f
      in if length existing = 6 then read_auto_tls f fs
         else if existing \<noteq> [] then (fs, Inl (BadRequest ''partial TLS material''))
         else bindA (generate_auto_tls L (ta_dir a) f a) (\<lambda>_. read_auto_tls f) fs)"

definition build_control_plane_tls :: "pem_lib \<Rightarrow> tls_args \<Rightarrow> control_plane_tls option tls_act" where
  "build_control_plane_tls L a =
     (if ta_auto a
      then bindA (liftA (ensure_no_explicit_material a)) (\<lambda>_. bindA (build_auto_tls L a) (\<lambda>t. okA (Some t)))
      else build_file_tls a)"

section \<open>The HTTP port\<close>

definition resolve_api_tls :: "bool \<Rightarrow> control_plane_tls option \<Rightarrow> (string \<times> string) option res" where
  "resolve_api_tls api_tls tls =
     (if \<not> api_tls then Inr None
      else mapE (\<lambda>t. Some (tls_cert_path t, tls_key_path t)) (ok_or (BadRequest ''--api-tls requires xDS TLS material'') tls))"

section \<open>The agent\<close>

text \<open>What the agent verifies the server with (\<open>None\<close>: the roots of the system), whether it does, and who it says it is.\<close>

record client_tls_config =
  cc_ca :: "string option"
  cc_verify :: bool
  cc_identity :: "(string \<times> string) option"

datatype xds_endpoint = PlainEndpoint string | TlsEndpoint string client_tls_config

definition pairing_panic :: fw_error where
  "pairing_panic = Internal ''client identity pairing validated by decide_tls''"

definition client_identity_pem :: "xds_client_tls \<Rightarrow> bool \<Rightarrow> (string \<times> string) option tls_act" where
  "client_identity_pem tls client_identity =
     (if \<not> client_identity then okA None
      else (case (xt_client_cert tls, xt_client_key tls) of
              (Some cert, Some key) \<Rightarrow> bindA (read_pem cert) (\<lambda>c. bindA (read_pem key) (\<lambda>k. okA (Some (c, k))))
            | _ \<Rightarrow> liftA (Inl pairing_panic)))"

definition build_client_tls_config :: "xds_client_tls \<Rightarrow> bool \<Rightarrow> client_tls_config tls_act" where
  "build_client_tls_config tls client_identity =
     bindA (case xt_ca_cert tls of None \<Rightarrow> okA None | Some ca \<Rightarrow> bindA (read_pem ca) (\<lambda>pem. okA (Some pem))) (\<lambda>ca.
     bindA (client_identity_pem tls client_identity) (\<lambda>identity.
     okA \<lparr>cc_ca = ca, cc_verify = True, cc_identity = identity\<rparr>))"

definition insecure_client_tls_config :: "xds_client_tls \<Rightarrow> bool \<Rightarrow> client_tls_config tls_act" where
  "insecure_client_tls_config tls client_identity =
     bindA (client_identity_pem tls client_identity) (\<lambda>identity.
     okA \<lparr>cc_ca = None, cc_verify = False, cc_identity = identity\<rparr>)"

text \<open>\<open>valid\<close> tells which texts are the address of an endpoint.\<close>

definition build_endpoint :: "(string \<Rightarrow> bool) \<Rightarrow> string \<Rightarrow> xds_client_tls \<Rightarrow> xds_endpoint tls_act" where
  "build_endpoint valid control_url tls =
     (let url = trim control_url in
      if \<not> valid url then liftA (Inl (BadRequest ''invalid xDS control plane URL''))
      else
        bindA (liftA (decide_tls url tls)) (\<lambda>decision.
        case decision of
          PlainText \<Rightarrow> okA (PlainEndpoint url)
        | Tls client_identity skip_verify \<Rightarrow>
            bindA (if skip_verify then insecure_client_tls_config tls client_identity
                   else build_client_tls_config tls client_identity) (\<lambda>config. okA (TlsEndpoint url config))))"

section \<open>Laws\<close>

lemma read_pem_keeps: "fst (read_pem p fs) = fs"
  by (simp add: read_pem_def)

definition present :: "tls_files \<Rightarrow> string set" where
  "present fs = dom (tf_pem fs)"

lemma write_pem_grows:
  "write_pem L p c secret fs = (fs', Inr u) \<Longrightarrow> present fs \<subseteq> present fs' \<and> p \<in> present fs'"
  by (auto simp: write_pem_def present_def Let_def split: if_splits)

lemma existing_all_iff: "length (existing_files fs f) = 6 \<longleftrightarrow> set (auto_paths f) \<subseteq> present fs"
proof -
  have l: "length (auto_paths f) = 6" by (simp add: auto_paths_def)
  show ?thesis
  proof
    assume "length (existing_files fs f) = 6"
    then have "\<not> length (existing_files fs f) < length (auto_paths f)" using l by simp
    then show "set (auto_paths f) \<subseteq> present fs"
      unfolding existing_files_def using length_filter_less [of _ "auto_paths f" "\<lambda>p. tf_pem fs p \<noteq> None"] by (auto simp: present_def)
  next
    assume "set (auto_paths f) \<subseteq> present fs"
    then have "existing_files fs f = auto_paths f" unfolding existing_files_def by (intro filter_True) (auto simp: present_def)
    then show "length (existing_files fs f) = 6" using l by simp
  qed
qed

lemma generated_all:
  assumes "generate_auto_tls L dir f a fs = (fs', Inr ())"
  shows "set (auto_paths f) \<subseteq> present fs'"
  using assms unfolding generate_auto_tls_def some_pem_def auto_paths_def
  by (auto simp: bindA_Inr liftA_def dest!: write_pem_grows split: if_splits) blast+

lemma read_auto_keeps: "read_auto_tls f fs = (fs', r) \<Longrightarrow> fs' = fs"
  by (auto simp: read_auto_tls_def bindA_def read_pem_def liftA_def split: sum.splits)

lemma auto_tls_ready:
  assumes "build_auto_tls L a fs = (fs', Inr t)"
  shows "set (auto_paths (auto_tls_files (ta_dir a))) \<subseteq> present fs'" and "read_auto_tls (auto_tls_files (ta_dir a)) fs' = (fs', Inr t)"
proof -
  let ?f = "auto_tls_files (ta_dir a)"
  have "set (auto_paths ?f) \<subseteq> present fs' \<and> read_auto_tls ?f fs' = (fs', Inr t)"
  proof (cases "length (existing_files fs ?f) = 6")
    case True
    then have "read_auto_tls ?f fs = (fs', Inr t)" using assms by (simp add: build_auto_tls_def)
    then show ?thesis using True read_auto_keeps by (metis existing_all_iff)
  next
    case False
    then obtain fs1 u where g: "generate_auto_tls L (ta_dir a) ?f a fs = (fs1, Inr u)" and r: "read_auto_tls ?f fs1 = (fs', Inr t)"
      using assms by (auto simp: build_auto_tls_def Let_def bindA_Inr split: if_splits)
    have "fs' = fs1" by (rule read_auto_keeps [OF r])
    then show ?thesis using generated_all g r by simp
  qed
  then show "set (auto_paths ?f) \<subseteq> present fs'" "read_auto_tls ?f fs' = (fs', Inr t)" by simp_all
qed

text \<open>The material of a successful start is what every later start reads again, and it is not touched.\<close>

lemma auto_tls_stable: "build_auto_tls L a fs = (fs', Inr t) \<Longrightarrow> build_auto_tls L' a fs' = (fs', Inr t)"
  using auto_tls_ready by (simp add: build_auto_tls_def existing_all_iff)

text \<open>Material that is there in part stops the start and is left as it is.\<close>

lemma partial_tls_refused:
  assumes "existing_files fs (auto_tls_files (ta_dir a)) \<noteq> []" and "\<not> set (auto_paths (auto_tls_files (ta_dir a))) \<subseteq> present fs"
  shows "build_auto_tls L a fs = (fs, Inl (BadRequest ''partial TLS material''))"
  using assms by (simp add: build_auto_tls_def existing_all_iff)

text \<open>Without material the port speaks plain text, and clients are asked for certificates exactly when an authority is given.\<close>

lemma tls_kind:
  assumes "build_control_plane_tls L a fs = (fs', Inr t)"
  shows "(t = None \<longleftrightarrow> \<not> ta_auto a \<and> ta_cert a = None \<and> ta_key a = None \<and> ta_client_ca a = None) \<and>
    (\<forall>c. t = Some c \<longrightarrow> tls_mutual c = (ta_auto a \<or> ta_client_ca a \<noteq> None) \<and> (tls_client_ca c = None \<longleftrightarrow> \<not> tls_mutual c))"
  using assms
  by (auto simp: build_control_plane_tls_def build_file_tls_def build_auto_tls_def read_auto_tls_def bindA_Inr liftA_def Let_def
      split: if_splits option.splits)

text \<open>The pairing the configuration of an agent relies on was checked before.\<close>

lemma decide_tls_paired: "decide_tls url tls = Inr (Tls True skip) \<Longrightarrow> \<exists>c k. xt_client_cert tls = Some c \<and> xt_client_key tls = Some k"
  by (auto simp: decide_tls_def res_simps split: if_splits option.splits)

lemma read_pem_error: "read_pem p fs = (fs', Inl e) \<Longrightarrow> e \<noteq> pairing_panic"
  by (cases "tf_pem fs p") (auto simp: read_pem_def pairing_panic_def)

lemma client_identity_no_panic:
  assumes "client_identity \<Longrightarrow> \<exists>c k. xt_client_cert tls = Some c \<and> xt_client_key tls = Some k"
  shows "snd (client_identity_pem tls client_identity fs) \<noteq> Inl pairing_panic"
  using assms
  by (auto simp: client_identity_pem_def bindA_def split: prod.splits sum.splits option.splits dest: read_pem_error)

text \<open>Certificates are presented only over TLS that was asked for, and a server is left unverified only when that was asked for.\<close>

lemma endpoint_kind:
  assumes "build_endpoint valid control_url tls fs = (fs', Inr e)"
  shows "(\<exists>url. e = PlainEndpoint url \<and> xt_ca_cert tls = None \<and> xt_client_cert tls = None \<and> xt_client_key tls = None \<and> \<not> xt_insecure tls) \<or>
    (\<exists>url c. e = TlsEndpoint url c \<and> (cc_verify c \<longleftrightarrow> \<not> xt_insecure tls) \<and> (cc_identity c = None \<longleftrightarrow> xt_client_cert tls = None))"
  using assms
  by (auto simp: build_endpoint_def Let_def bindA_Inr decide_tls_def build_client_tls_config_def insecure_client_tls_config_def
      client_identity_pem_def liftA_def res_simps split: if_splits option.splits)

text \<open>The material a server has generated is what its agents need: with the three files of the directory, an agent verifies the
  server by the authority the server itself asks of its clients.\<close>

lemma auto_tls_agent:
  assumes "build_auto_tls L a fs = (fs', Inr t)" and "f = auto_tls_files (ta_dir a)"
    and "tls = \<lparr>xt_ca_cert = Some (af_ca_cert f), xt_client_cert = Some (af_client_cert f), xt_client_key = Some (af_client_key f), xt_insecure = False\<rparr>"
    and "valid (trim url)" and "strip_prefix ''https://'' (trim url) \<noteq> None"
  shows "\<exists>identity. build_endpoint valid url tls fs' =
    (fs', Inr (TlsEndpoint (trim url) \<lparr>cc_ca = tls_client_ca t, cc_verify = True, cc_identity = Some identity\<rparr>))"
proof -
  have e: "set (auto_paths f) \<subseteq> present fs'" and r: "read_auto_tls f fs' = (fs', Inr t)"
    unfolding assms(2) by (rule auto_tls_ready [OF assms(1)])+
  have p: "\<exists>y. tf_pem fs' x = Some y" if "x \<in> set (auto_paths f)" for x
    using e that unfolding present_def by blast
  obtain ca cert key where m: "tf_pem fs' (af_ca_cert f) = Some ca" "tf_pem fs' (af_client_cert f) = Some cert" "tf_pem fs' (af_client_key f) = Some key"
    using p [of "af_ca_cert f"] p [of "af_client_cert f"] p [of "af_client_key f"] by (auto simp: auto_paths_def)
  have "tls_client_ca t = Some ca"
    using r m(1) by (auto simp: read_auto_tls_def bindA_Inr read_pem_def liftA_def)
  then show ?thesis
    using m assms(3-5)
    by (simp add: build_endpoint_def Let_def decide_tls_def build_client_tls_config_def client_identity_pem_def bindA_def read_pem_def)
qed

end
