(* ===== verification/Spec2Isabelle.thy ===== *)
theory Spec2Isabelle
  imports Data_Plane_Claims Control_Plane_Claims Distribution_Claims Agent_Claims Access_Claims Lookup_Claims Attach_Claims
    Login_Claims Drop_Claims Cluster_Claims Xds_Tls
begin

text \<open>
  A verification development for xdp-firewall (\<^verbatim>\<open>src/\<close>; paths below are relative to \<^verbatim>\<open>src/src\<close>).

  THE PROGRAM. A control plane keeps a firewall policy in a database and serves it over two ports: an HTTP
  API that edits it and a gRPC service (xDS) that streams it to the agents. Agents compile a policy and
  install it in the maps of an XDP program that decides every packet of a node. Background loops of the
  control plane refresh threat lists and country lists, remove expired bans and forget dead nodes. Several
  control-plane processes may share one database; a standby reads only.

  HOW THE MODEL FOLLOWS IT. Structs are records, enums datatypes, machine integers words (\<^verbatim>\<open>i32\<close>, \<^verbatim>\<open>u64\<close>),
  every \<^verbatim>\<open>bail!\<close>, \<^verbatim>\<open>?\<close> and API error a value of \<open>error + 'a\<close>. Text is a list of bytes. A table is the list
  of its rows, a transaction a function on the whole database that keeps the old state on an error, and a
  query outside the transaction reads a state of its own, so stale reads are in the model. Times are
  arguments. What is not under src/ is a parameter: \<open>ipnet_lib\<close> and \<open>net_text\<close> (the network crate),
  \<open>json_lib\<close>, \<open>snapshot_codec\<close>, the HTTP and gRPC answers, the kernel's answers (\<open>xdp_env\<close>, \<open>bpf_env\<close>) and the
  ids the database engine hands out. Their documented laws are locales (\<open>ipnet_spec\<close>, \<open>net_text_spec\<close>,
  \<open>json_spec\<close>, \<open>lpm_trie\<close>), each interpreted on an executable reference instance that the witnesses use.

  THE THEORIES.
  \<^item> \<open>Fw_Prelude\<close>: integers, errors, results, checked arithmetic, text, first-key-wins loops. \<open>Ip_Net\<close>, \<open>Ip_Text\<close>: addresses
    and networks, and their text. \<open>Cover_Compaction\<close>: the double loop that drops covered entries, verified once.
  \<^item> Policy: \<open>Policy_Model\<close> (\<^verbatim>\<open>policy/model\<close>, \<^verbatim>\<open>policy/validate.rs\<close>), \<open>Geo_Country\<close> (country codes),
    \<open>Policy_Compile\<close> (\<^verbatim>\<open>policy/compiler\<close>).
  \<^item> Data plane: \<open>Xdp_Encoding\<close> (the map ABI), \<open>Local_Guard\<close> and \<open>Xdp_Pending\<close> (wanted keys, protection of the
    node's own addresses), \<open>Map_Sizes\<close>, \<open>Kernel_Maps\<close>, \<open>Xdp_Apply\<close> (write, clean up, resize), \<open>Xdp_Program\<close>
    (\<^verbatim>\<open>bpf/xdp_firewall.c\<close>); their laws in \<open>Xdp_Install\<close>, \<open>Xdp_Verdict\<close>, \<open>Xdp_Handle\<close>, \<open>Xdp_Progress\<close>,
    \<open>Token_Bucket\<close>.
  \<^item> Control plane, reading: \<open>Db_Rows\<close> (tables, version counter), \<open>Policy_Load\<close> and \<open>Policy_View\<close> (loads and what
    they depend on), \<open>Xds_State\<close> (updates, runtime trusted CIDRs, drop subscriptions), \<open>Policy_Stream\<close>
    (the push loop as a step relation), \<open>Geo_Pages\<close> and \<open>Paged_Policy\<close> (country prefixes page by page).
  \<^item> Control plane, writing: \<open>Api_Common\<close>, \<open>Api_Rules\<close>, \<open>Api_Network\<close>, \<open>Api_Limits\<close>, \<open>Api_Sources\<close> (the handlers of
    \<^verbatim>\<open>control_plane/api\<close>), \<open>Threat_Feed\<close>, \<open>Threat_Refresh\<close>, \<open>Geo_Refresh\<close> (downloads and their storing
    transactions), \<open>Refresh_Lock\<close> and \<open>Refresh_Gate\<close> (who refreshes when), \<open>Policy_Seed\<close>, \<open>Control_Nodes\<close>;
    \<open>Control_Access\<close> (tokens, standby, methods, commands, the limiter of manual refreshes).
  \<^item> Laws of the writers: \<open>Api_Laws\<close> (one locale for the six tables), \<open>Api_Store\<close> (the store invariant, every API
    request as a step), \<open>Api_Loadable\<close>, \<open>Api_Contracts\<close>, \<open>Store_Writers\<close> (every writer of the control plane as a
    step), \<open>Store_History\<close> (runs of steps), \<open>Threat_Settled\<close>.
  \<^item> Agent: \<open>Agent_Runtime\<close> (connection, stream and offline handling as a step relation), \<open>Agent_Effects\<close>.
  \<^item> Attaching: \<open>Xdp_Netlink\<close> (\<^verbatim>\<open>linux/netlink/message\<close>, byte by byte), \<open>Xdp_Host\<close> (what is read in the output of commands and
    in system files), \<open>Xdp_Attach\<close> (both strategies, rollback, pinned maps, unloading and the status commands, over
    an abstract machine).
  \<^item> Drops: \<open>Drop_Decode\<close> (the event in memory, the reader of the agent, the message), \<open>Address_Lookups\<close> (\<^verbatim>\<open>intelligence/*/lookup\<close>,
    the threat lookup as a step relation), \<open>Drop_Reports\<close> (pages of the country lookup, the view of a drop,
    refreshes asked for through the API).
  \<^item> Surroundings: \<open>K8s_Discovery\<close> (\<^verbatim>\<open>control_plane/k8s\<close>, the watch loop over a changing cluster as a step relation),
    \<open>Xds_Tls\<close> (\<^verbatim>\<open>control_plane/xds/tls.rs\<close> and the agent's side of it, over a file system). \<open>Failed_Logins\<close>: the tool \<^verbatim>\<open>tools/btmp-monitor\<close>, over any API and over the handlers of the control plane.
  \<^item> Properties: \<open>Data_Plane_Claims\<close>, \<open>Control_Plane_Claims\<close>, \<open>Distribution_Claims\<close>, \<open>Agent_Claims\<close>,
    \<open>Store_Claims\<close>, \<open>Access_Claims\<close>, \<open>Lookup_Claims\<close>, \<open>Attach_Claims\<close>, \<open>Login_Claims\<close>, \<open>Drop_Claims\<close>, \<open>Cluster_Claims\<close>; the \<open>Sample\<close> theories hold the inputs of their witnesses.

  WHAT IS SHOWN.
  \<^item> Installing: after a successful apply the maps hold exactly the policy, and the program's verdict on every
    packet is the abstract one (trusted, banned, first hitting rule class, country, rate); no ban or rule
    cuts off the node's own addresses or its control plane; a failed apply drops nothing that is still
    wanted; when an apply must succeed and when a full map refuses it; each packet is counted once; the
    token bucket keeps its rate.
  \<^item> Compiling and sizing: exactly which snapshots compile, the canonical result, the growth of the maps.
  \<^item> Writing: under any run of all writers, with stale reads, the version never falls and orders every change a
    load can see; whatever is stored can be loaded and compiled; a batch of rules may be sent again; what the
    API accepts never blocks a node's reported address; a change from outside carried the port's token or came
    through a port that was opened deliberately; a standby server writes nothing; a repeated refresh of
    unchanged threat lists changes nothing.
  \<^item> Refreshing: mutual exclusion of the database locks under all interleavings and crashes once the row exists
    (and the race before), one background refresh at a time, spaced, and started when due.
  \<^item> Distributing: \<open>versioned_history\<close>, which the writers establish, makes every update current or superseded;
    inline and paged policies agree; the paging loop ends with the whole list; the cursor of a stream is what the
    client was told; the drop monitor runs exactly while someone listens; what a Kubernetes cluster names is trusted in the policy that is
    sent, however its watch is cut into chunks, and TLS material is generated once and then reused.
  \<^item> The agent: it unloads at the configured number of failures, asks for everything afterwards, and keeps its
    control plane reachable.
  \<^item> Reporting: a dropped packet becomes one line, message and view with its source and the label of its counter; a threat
    label is the one of the stored lists while the version stands; the country lookup equals the stored lists,
    however its rows are paged.
  \<^item> Attaching: the netlink request reads back as what was meant and its answer is decided by the acknowledgement;
    a dispatcher program that is accepted uses the pinned maps.
  \<^item> Failed logins: reading a growing log in pieces is reading it whole, and the candidates for a ban are exactly the
    addresses with enough failures in the window, whatever the API answered.
  \<^item> Where the code falls short, a theorem says how: a direct replace that the kernel refuses, a program that stays after
    a failed verification, a direct resize that cannot attach again, one node address that keeps a batch of bans from
    being made, labels lost to a failed rebuild, a change of the cluster between two watches, a narrow ban lost to a refused broader one, a nearly full map,
    the first use of a lock, overlapping spellings of runtime networks, partial rules after a failed apply, an
    agent token with white space, \<^verbatim>\<open>policy show\<close> on a standby, a country list that stays missing.

  INTERFACES. Providers promise laws in locales and clients prove over them: \<open>strict_cover\<close> and \<open>cover_meaning\<close>
  (compaction), \<open>row_lock\<close> (both lock rows), \<open>store_laws\<close> and \<open>table_laws\<close> (the six API tables), \<open>api_checks\<close> and
  \<open>writer_checks\<close> (what a row check must accept, interpreted on the trivial check and on the parsers of the
  policy load), the crate laws above. Every locale is interpreted on the definitions of the model.

  BOUNDS AND FUEL. The loops of the code are structural recursions or have a termination proof (the line reader
  by the bytes left, \<open>checked_next_power_of_two\<close> by the distance to its argument, the redaction of error texts by
  the text left), except two that end only if a server lets them. The agent's loop over the pages of country prefixes (\<open>fetch_geo_prefixes\<close>) takes
  fuel; every page of the modelled server moves the token by at least one
  prefix, and \<open>pages_complete\<close> shows that one unit more than there are prefixes is enough. The login monitor's loop over
  the pages of bans (\<open>list_pages\<close>) takes fuel as well, and more than the number of pages is enough (\<open>list_pages_enough\<close>). The retries of
  a queued refresh count down from their 12 attempts. Versions are 64-bit words that wrap; properties that need
  a growing version assume the room the run can use (\<open>2 ^ 63 - 1\<close> minus its length). Counters and sizes are
  words wherever the code can overflow them.

  NOT MODELLED. Sockets, the creation of certificates, the schema migrations and the engine itself, argument
  parsing, logging and printed tables, static files, broadcast channels, the writing and mapping of lookup files, the HTTP calls to Kubernetes: these are I/O around decisions that are modelled. Commands, files, the eBPF library and
  netlink are the machine the attach code is a function of. The login monitor is modelled for windows its clock can
  represent. Concurrency inside one process is modelled where it decides
  something: the lock statements, the refresh gate, the stream's turns, reads that are older than the
  transaction.
\<close>

end
